(* ===== verification/Go_Prelude.thy ===== *)
theory Go_Prelude
  imports
    Main
    "HOL-Library.Word"
    "HOL-Library.Char_ord"
    "HOL-Library.List_Lexorder"
    "HOL-Library.Sublist"
begin

text \<open>
  Shared vocabulary of the development: Go strings as byte lists, with the operations of
  Go's packages strings, unicode and utf8 that the program calls; error values with the
  sentinels they wrap (errors.Is); times; and generic lemmas on lists and maps.

  A Go string is a byte sequence, here a list of 8-bit characters. Functions that walk over
  runes (range loops, TrimSpace) decode UTF-8 as the language does: an invalid byte is the
  rune U+FFFD of width one. The tables of unicode.IsLower and unicode.IsDigit beyond ASCII
  and of strings.ToLower on non-ASCII text are parameters (a record of type unicode).
\<close>

named_theorems go_simps \<open>unfolding equations of the string vocabulary\<close>

section \<open>Errors\<close>

text \<open>
  The sentinel errors of the packages. An error value carries the format text it was made
  with and the sentinels on its wrap chain; the arguments formatted into the text are not
  part of the model.
\<close>

datatype sentinel =
    ErrInvalidRepository | ErrNoRoute | ErrPushDenied
  | ErrBlobNotFound | ErrContentDigestMismatch | ErrUnsupportedDigest
  | ErrInvalidRecord | ErrConflict | ErrUnsafeDetail
  | ErrRegistryDigestMismatch | ErrNotFound | ErrAuthentication | ErrAuthorization
  | ErrUnavailable | ErrCredentialRequired | ErrCredentialUnavailable
  | ErrResolutionNotFound | ErrSourceUnavailable | ErrUnauthorized
  | ErrManifestDigestMismatch | ErrStagedBlobMissing
  | ErrInvalidCredentials | ErrInvalidSession | ErrInvalidCSRF | ErrForbidden
  | ErrLastAdministrator | ErrInvalidAccessToken | ErrPasswordPolicy | ErrSecretUnavailable
  | ErrUpstreamCredentials | ErrUpstreamPermission | ErrUpstreamUnavailable
  | ErrVerificationConfig | ErrUpstreamFailure
  | ErrContextDone | ErrIO | ErrNotExist

datatype goerr = GoErr (err_text: string) (err_wraps: "sentinel list")

definition errors_Is :: "goerr \<Rightarrow> sentinel \<Rightarrow> bool" where
  "errors_Is e s \<longleftrightarrow> s \<in> set (err_wraps e)"

definition errorf :: "string \<Rightarrow> goerr" where
  "errorf t = GoErr t []"

definition sentinel_err :: "sentinel \<Rightarrow> goerr" where
  "sentinel_err s = GoErr [] [s]"

definition wrapf :: "string \<Rightarrow> goerr \<Rightarrow> goerr" where
  "wrapf t e = GoErr t (err_wraps e)"

lemma errors_Is_GoErr [simp]: "errors_Is (GoErr t ss) s \<longleftrightarrow> s \<in> set ss"
  by (simp add: errors_Is_def)

lemma errors_Is_errorf [simp]: "\<not> errors_Is (errorf t) s"
  by (simp add: errorf_def)

lemma errors_Is_sentinel_err [simp]: "errors_Is (sentinel_err s) s' \<longleftrightarrow> s' = s"
  by (simp add: sentinel_err_def)

lemma errors_Is_wrapf [simp]: "errors_Is (wrapf t e) s \<longleftrightarrow> errors_Is e s"
  by (simp add: wrapf_def errors_Is_def)

type_synonym 'a result = "goerr + 'a"

definition isOK :: "'a result \<Rightarrow> bool" where
  "isOK r \<longleftrightarrow> (case r of Inl _ \<Rightarrow> False | Inr _ \<Rightarrow> True)"

lemma isOK_simps [simp]: "\<not> isOK (Inl e)" "isOK (Inr x)"
  by (simp_all add: isOK_def)

lemma isOK_iff: "isOK r \<longleftrightarrow> (\<exists>x. r = Inr x)"
  by (cases r) auto

text \<open>Continuing after a call that may fail.\<close>

lemma isOK_bind: "isOK (case r of Inl e \<Rightarrow> Inl e | Inr x \<Rightarrow> f x) \<longleftrightarrow> (\<exists>x. r = Inr x \<and> isOK (f x))"
  by (cases r) auto

lemma isOK_seq: "isOK (case r of Inl e \<Rightarrow> Inl e | Inr x \<Rightarrow> f) \<longleftrightarrow> isOK r \<and> isOK f"
  by (cases r) auto

lemma isOK_if: "isOK (if b then Inl e else r) \<longleftrightarrow> \<not> b \<and> isOK r"
  by simp

text \<open>The first failing check of a list, in order: a chain of early returns.\<close>

fun first_error :: "(bool \<times> goerr) list \<Rightarrow> unit result" where
  "first_error [] = Inr ()"
| "first_error ((bad, e) # cs) = (if bad then Inl e else first_error cs)"

lemma first_error_OK: "first_error cs = Inr u \<longleftrightarrow> (\<forall>(bad, e) \<in> set cs. \<not> bad)"
  by (induction cs rule: first_error.induct) auto

lemma first_error_Inl: "first_error cs = Inl e \<Longrightarrow> e \<in> snd ` set cs"
  by (induction cs rule: first_error.induct) (auto split: if_splits)

section \<open>Times\<close>

text \<open>
  time.Time is a number of nanoseconds with 0 the zero time (IsZero). Durations are
  nanoseconds; Sub saturates at the ends of the signed 64-bit range, as Go's does.
\<close>

type_synonym time = int
type_synonym duration = int

abbreviation IsZero :: "time \<Rightarrow> bool" where
  "IsZero t \<equiv> t = 0"

definition max_duration :: int where "max_duration = 2 ^ 63 - 1"
definition min_duration :: int where "min_duration = - (2 ^ 63)"

definition time_Sub :: "time \<Rightarrow> time \<Rightarrow> duration" where
  "time_Sub a b = max min_duration (min max_duration (a - b))"

lemma time_Sub_mono: "a \<le> a' \<Longrightarrow> time_Sub a b \<le> time_Sub a' b"
  by (auto simp: time_Sub_def)

lemma time_Sub_pos: "time_Sub a b > 0 \<longleftrightarrow> b < a"
  by (auto simp: time_Sub_def max_duration_def min_duration_def)

lemma time_Sub_le: "0 \<le> d \<Longrightarrow> a - b \<le> d \<Longrightarrow> time_Sub a b \<le> d"
  by (auto simp: time_Sub_def max_duration_def min_duration_def)

lemma time_Sub_eq: "min_duration \<le> a - b \<Longrightarrow> a - b \<le> max_duration \<Longrightarrow> time_Sub a b = a - b"
  by (auto simp: time_Sub_def)

text \<open>The value of an int64 (a Duration) after wrap-around.\<close>

definition int64 :: "int \<Rightarrow> int" where
  "int64 x = (x + 2 ^ 63) mod 2 ^ 64 - 2 ^ 63"

lemma int64_id: "- (2 ^ 63) \<le> x \<Longrightarrow> x < 2 ^ 63 \<Longrightarrow> int64 x = x"
  by (simp add: int64_def)

lemma int64_range: "- (2 ^ 63) \<le> int64 x" "int64 x < 2 ^ 63"
  by (simp_all add: int64_def)

text \<open>Division of signed integers by a positive one rounds towards zero.\<close>

definition quo :: "int \<Rightarrow> int \<Rightarrow> int" where
  "quo a b = (if a < 0 then - ((- a) div b) else a div b)"

lemma quo_nonneg: "0 \<le> a \<Longrightarrow> quo a b = a div b"
  by (simp add: quo_def)

abbreviation second :: duration where "second \<equiv> 1000000000"
abbreviation minute :: duration where "minute \<equiv> 60 * second"
abbreviation hour :: duration where "hour \<equiv> 60 * minute"

end
