(* ===== verification/Go_Strings.thy ===== *)
theory Go_Strings
  imports Go_Prelude
begin

text \<open>
  The string functions of Go's standard library that the program calls. A string is a list
  of bytes (characters); rune-wise functions decode UTF-8 with the language's rule for
  invalid bytes. What each function does outside the ranges its callers use (an empty
  separator of Split, say) is not modelled.
\<close>

section \<open>Prefixes, suffixes, cutting and splitting\<close>

abbreviation HasPrefix :: "string \<Rightarrow> string \<Rightarrow> bool" where
  "HasPrefix s p \<equiv> prefix p s"

abbreviation HasSuffix :: "string \<Rightarrow> string \<Rightarrow> bool" where
  "HasSuffix s x \<equiv> suffix x s"

definition TrimPrefix :: "string \<Rightarrow> string \<Rightarrow> string" where
  "TrimPrefix s p = (if HasPrefix s p then drop (length p) s else s)"

definition TrimSuffix :: "string \<Rightarrow> string \<Rightarrow> string" where
  "TrimSuffix s x = (if HasSuffix s x then take (length s - length x) s else s)"

definition Contains :: "string \<Rightarrow> string \<Rightarrow> bool" where
  "Contains s sub \<longleftrightarrow> sublist sub s"

text \<open>strings.Index: the first position of sub, or None for -1.\<close>

fun Index :: "string \<Rightarrow> string \<Rightarrow> nat option" where
  "Index [] sub = (if sub = [] then Some 0 else None)"
| "Index (c # cs) sub =
     (if prefix sub (c # cs) then Some 0 else map_option Suc (Index cs sub))"

text \<open>strings.Cut at a one-byte separator.\<close>

definition Cut :: "string \<Rightarrow> char \<Rightarrow> (string \<times> string) option" where
  "Cut s c = (if c \<in> set s then Some (takeWhile (\<lambda>x. x \<noteq> c) s, tl (dropWhile (\<lambda>x. x \<noteq> c) s))
              else None)"

text \<open>strings.Split at a one-byte separator; the result is never empty.\<close>

fun Split :: "char \<Rightarrow> string \<Rightarrow> string list" where
  "Split c [] = [[]]"
| "Split c (x # xs) =
     (if x = c then [] # Split c xs
      else (case Split c xs of [] \<Rightarrow> [[x]] | w # ws \<Rightarrow> (x # w) # ws))"

text \<open>strings.Join.\<close>

fun Join :: "string \<Rightarrow> string list \<Rightarrow> string" where
  "Join sep [] = []"
| "Join sep [w] = w"
| "Join sep (w # ws) = w @ sep @ Join sep ws"

text \<open>strings.Trim with an ASCII cutset.\<close>

definition Trim :: "string \<Rightarrow> string \<Rightarrow> string" where
  "Trim s chs = rev (dropWhile (\<lambda>c. c \<in> set chs) (rev (dropWhile (\<lambda>c. c \<in> set chs) s)))"

definition TrimRight :: "string \<Rightarrow> string \<Rightarrow> string" where
  "TrimRight s chs = rev (dropWhile (\<lambda>c. c \<in> set chs) (rev s))"

text \<open>strings.ContainsAny with an ASCII character set.\<close>

definition ContainsAny :: "string \<Rightarrow> string \<Rightarrow> bool" where
  "ContainsAny s chars \<longleftrightarrow> list_ex (\<lambda>c. c \<in> set chars) s"

lemma Split_nonempty [simp]: "Split c s \<noteq> []"
  by (induction s) (auto split: list.splits)

lemma Join_Split [simp]: "Join [c] (Split c s) = s"
proof (induction s)
  case (Cons x s)
  then show ?case by (cases "Split c s"; cases "tl (Split c s)") auto
qed simp

lemma Split_no_sep: "w \<in> set (Split c s) \<Longrightarrow> c \<notin> set w"
  by (induction s arbitrary: w) (auto split: list.splits if_splits)

lemma Split_append: "c \<notin> set a \<Longrightarrow> Split c (a @ c # b) = a # Split c b"
  by (induction a) auto

lemma Split_none: "c \<notin> set a \<Longrightarrow> Split c a = [a]"
  by (induction a) auto

lemma Split_Join: "ws \<noteq> [] \<Longrightarrow> \<forall>w \<in> set ws. c \<notin> set w \<Longrightarrow> Split c (Join [c] ws) = ws"
  by (induction "[c]" ws rule: Join.induct) (auto simp: Split_none Split_append)

lemma Cut_eq: "Cut s c = Some (a, b) \<longleftrightarrow> s = a @ c # b \<and> c \<notin> set a"
proof
  assume h: "Cut s c = Some (a, b)"
  then have "c \<in> set s" and a: "a = takeWhile (\<lambda>x. x \<noteq> c) s"
    and b: "b = tl (dropWhile (\<lambda>x. x \<noteq> c) s)" by (auto simp: Cut_def split: if_splits)
  then have "dropWhile (\<lambda>x. x \<noteq> c) s = c # b"
    by (metis (mono_tags, lifting) dropWhile_eq_Nil_conv hd_dropWhile list.collapse)
  then show "s = a @ c # b \<and> c \<notin> set a"
    using a by (metis (mono_tags, lifting) set_takeWhileD takeWhile_dropWhile_id)
next
  assume h: "s = a @ c # b \<and> c \<notin> set a"
  then have "c \<notin> set a" by simp
  then have "dropWhile (\<lambda>x. x \<noteq> c) (a @ c # b) = c # b"
    by (induction a) auto
  with h show "Cut s c = Some (a, b)"
    by (auto simp: Cut_def takeWhile_tail simp del: dropWhile_append3)
qed

lemma Index_Some:
  "Index s sub = Some n \<Longrightarrow> n + length sub \<le> length s \<and> take (length sub) (drop n s) = sub"
proof (induction s arbitrary: n)
  case (Cons c cs)
  show ?case
  proof (cases "prefix sub (c # cs)")
    case True
    with Cons.prems show ?thesis
      using prefix_length_le [OF True] by (auto simp: prefix_def)
  next
    case False
    with Cons show ?thesis by auto
  qed
qed (auto split: if_splits)

lemma Index_append:
  "Index s sub = Some n \<Longrightarrow> s = take n s @ sub @ drop (n + length sub) s"
  using Index_Some [of s sub n] by (metis add.commute append_take_drop_id drop_drop)

lemma TrimPrefix_append [simp]: "TrimPrefix (p @ s) p = s"
  by (simp add: TrimPrefix_def)

lemma TrimSuffix_append [simp]: "TrimSuffix (s @ x) x = s"
  by (simp add: TrimSuffix_def suffix_def)

section \<open>UTF-8, runes and white space\<close>

type_synonym rune = int

definition RuneError :: rune where "RuneError = 0xFFFD"

abbreviation byte :: "char \<Rightarrow> int" where "byte c \<equiv> of_char c"

definition in_range :: "int \<Rightarrow> int \<Rightarrow> string \<Rightarrow> nat \<Rightarrow> bool" where
  "in_range lo hi cs i \<longleftrightarrow> i < length cs \<and> lo \<le> byte (cs ! i) \<and> byte (cs ! i) \<le> hi"

text \<open>
  utf8.DecodeRuneInString on c followed by cs: the rune, and how many bytes of cs belong to
  it. The accepted ranges of the second byte are those of the utf8 package (overlong forms,
  surrogates and values over U+10FFFF are invalid).
\<close>

definition DecodeRune :: "char \<Rightarrow> string \<Rightarrow> rune \<times> nat" where
  "DecodeRune c cs =
    (let b = byte c; t = (\<lambda>i. byte (cs ! i) - 0x80) in
     if b < 0x80 then (b, 0)
     else if 0xC2 \<le> b \<and> b \<le> 0xDF \<and> in_range 0x80 0xBF cs 0
       then ((b - 0xC0) * 64 + t 0, 1)
     else if 0xE0 \<le> b \<and> b \<le> 0xEF
          \<and> in_range (if b = 0xE0 then 0xA0 else 0x80) (if b = 0xED then 0x9F else 0xBF) cs 0
          \<and> in_range 0x80 0xBF cs 1
       then ((b - 0xE0) * 4096 + t 0 * 64 + t 1, 2)
     else if 0xF0 \<le> b \<and> b \<le> 0xF4
          \<and> in_range (if b = 0xF0 then 0x90 else 0x80) (if b = 0xF4 then 0x8F else 0xBF) cs 0
          \<and> in_range 0x80 0xBF cs 1 \<and> in_range 0x80 0xBF cs 2
       then ((b - 0xF0) * 262144 + t 0 * 4096 + t 1 * 64 + t 2, 3)
     else (RuneError, 0))"

text \<open>The runes of a string with the bytes each was decoded from (a range loop).\<close>

fun segs :: "string \<Rightarrow> (rune \<times> string) list" where
  "segs [] = []"
| "segs (c # cs) =
     (fst (DecodeRune c cs), c # take (snd (DecodeRune c cs)) cs)
       # segs (drop (snd (DecodeRune c cs)) cs)"

definition runes :: "string \<Rightarrow> rune list" where
  "runes s = map fst (segs s)"

definition ValidString :: "string \<Rightarrow> bool" where
  "ValidString s \<longleftrightarrow> list_all (\<lambda>(r, b). \<not> (r = RuneError \<and> length b = 1)) (segs s)"

definition RuneCountInString :: "string \<Rightarrow> nat" where
  "RuneCountInString s = length (segs s)"

text \<open>unicode.IsSpace and unicode.IsControl, which are small closed sets.\<close>

definition IsSpace :: "rune \<Rightarrow> bool" where
  "IsSpace r \<longleftrightarrow> r \<in> set [9, 10, 11, 12, 13, 32, 0x85, 0xA0, 0x1680, 0x2028, 0x2029, 0x202F, 0x205F, 0x3000]
     \<or> 0x2000 \<le> r \<and> r \<le> 0x200A"

definition IsControl :: "rune \<Rightarrow> bool" where
  "IsControl r \<longleftrightarrow> r < 0x20 \<or> 0x7F \<le> r \<and> r < 0xA0"

text \<open>The Unicode tables the program reads beyond ASCII.\<close>

record unicode =
  uIsLower :: "rune \<Rightarrow> bool"
  uIsDigit :: "rune \<Rightarrow> bool"
  uToLower :: "string \<Rightarrow> string"

definition IsLower :: "unicode \<Rightarrow> rune \<Rightarrow> bool" where
  "IsLower U r \<longleftrightarrow> (if r < 128 then 97 \<le> r \<and> r \<le> 122 else uIsLower U r)"

definition IsDigit :: "unicode \<Rightarrow> rune \<Rightarrow> bool" where
  "IsDigit U r \<longleftrightarrow> (if r < 128 then 48 \<le> r \<and> r \<le> 57 else uIsDigit U r)"

text \<open>
  The Unicode character database puts no white space and no replacement character into the
  classes Ll and Nd.
\<close>

definition unicode_ok :: "unicode \<Rightarrow> bool" where
  "unicode_ok U \<longleftrightarrow> (\<forall>r. uIsLower U r \<or> uIsDigit U r \<longrightarrow> \<not> IsSpace r \<and> r \<noteq> RuneError)"

definition ascii_unicode :: unicode where
  "ascii_unicode = \<lparr>uIsLower = (\<lambda>_. False), uIsDigit = (\<lambda>_. False), uToLower = id\<rparr>"

lemma unicode_ok_ascii [simp]: "unicode_ok ascii_unicode"
  by (simp add: unicode_ok_def ascii_unicode_def)

text \<open>strings.TrimSpace and strings.ToLower.\<close>

definition trim_segs :: "(rune \<times> string) list \<Rightarrow> (rune \<times> string) list" where
  "trim_segs ss = rev (dropWhile (IsSpace \<circ> fst) (rev (dropWhile (IsSpace \<circ> fst) ss)))"

definition TrimSpace :: "string \<Rightarrow> string" where
  "TrimSpace s = concat (map snd (trim_segs (segs s)))"

definition ascii_lower :: "char \<Rightarrow> char" where
  "ascii_lower c = (if 65 \<le> byte c \<and> byte c \<le> 90 then char_of (byte c + 32) else c)"

definition ToLower :: "unicode \<Rightarrow> string \<Rightarrow> string" where
  "ToLower U s = (if list_all (\<lambda>c. byte c < 128) s then map ascii_lower s else uToLower U s)"

lemma concat_segs [simp]: "concat (map snd (segs s)) = s"
  by (induction s rule: segs.induct) auto

lemma segs_eq_Nil [simp]: "segs s = [] \<longleftrightarrow> s = []"
  by (cases s) auto

lemma TrimSpace_noop: "\<forall>(r, b) \<in> set (segs s). \<not> IsSpace r \<Longrightarrow> TrimSpace s = s"
proof -
  assume a: "\<forall>(r, b) \<in> set (segs s). \<not> IsSpace r"
  have d: "dropWhile (IsSpace \<circ> fst) xs = xs" if "set xs \<subseteq> set (segs s)" for xs
    using that a by (cases xs) auto
  have "trim_segs (segs s) = segs s"
    unfolding trim_segs_def by (simp add: d)
  then show ?thesis by (simp add: TrimSpace_def)
qed

lemma Trim_noop:
  "s = [] \<or> hd s \<notin> set chs \<and> last s \<notin> set chs \<Longrightarrow> Trim s chs = s"
proof -
  assume a: "s = [] \<or> hd s \<notin> set chs \<and> last s \<notin> set chs"
  have "dropWhile (\<lambda>c. c \<in> set chs) s = s"
    using a by (cases s) auto
  moreover have "dropWhile (\<lambda>c. c \<in> set chs) (rev s) = rev s"
    using a by (cases s rule: rev_cases) auto
  ultimately show ?thesis by (simp add: Trim_def)
qed

lemma hd_dropWhile_not: "dropWhile P xs \<noteq> [] \<Longrightarrow> \<not> P (hd (dropWhile P xs))"
  by (induction xs) auto

lemma Trim_ends: "Trim s chs \<noteq> [] \<Longrightarrow> hd (Trim s chs) \<notin> set chs \<and> last (Trim s chs) \<notin> set chs"
proof -
  let ?P = "\<lambda>c. c \<in> set chs"
  let ?a = "dropWhile ?P s"
  let ?b = "dropWhile ?P (rev ?a)"
  assume n: "Trim s chs \<noteq> []"
  then have b: "?b \<noteq> []" by (simp add: Trim_def)
  then have l: "last (Trim s chs) \<notin> set chs"
    using hd_dropWhile_not [OF b] by (simp add: Trim_def last_rev)
  obtain pre where pre: "rev ?a = pre @ ?b"
    by (metis takeWhile_dropWhile_id)
  then have "?a = rev ?b @ rev pre" by (metis rev_append rev_rev_ident)
  with b have "hd ?a = hd (rev ?b)" by (metis hd_append2 rev_is_Nil_conv)
  moreover have "?a \<noteq> []" using b by (metis dropWhile.simps(1) rev.simps(1))
  ultimately have "hd (rev ?b) \<notin> set chs" using hd_dropWhile_not [of ?P s] by simp
  with l show ?thesis by (simp add: Trim_def)
qed

section \<open>Decimal numbers\<close>

definition digit_char :: "nat \<Rightarrow> char" where
  "digit_char d = char_of (48 + int d)"

text \<open>strconv.FormatUint with base 10.\<close>

fun FormatUint :: "nat \<Rightarrow> string" where
  "FormatUint n = (if n < 10 then [digit_char n] else FormatUint (n div 10) @ [digit_char (n mod 10)])"

declare FormatUint.simps [simp del]

definition parse_digits :: "string \<Rightarrow> nat" where
  "parse_digits s = foldl (\<lambda>n c. 10 * n + nat (byte c - 48)) 0 s"

lemma byte_digit_char: "d < 10 \<Longrightarrow> byte (digit_char d) = 48 + int d"
  by (simp add: digit_char_def)

lemma parse_FormatUint: "parse_digits (FormatUint n) = n"
proof (induction n rule: FormatUint.induct)
  case (1 n)
  then show ?case
    by (subst FormatUint.simps) (auto simp: parse_digits_def byte_digit_char)
qed

lemma FormatUint_inj: "FormatUint m = FormatUint n \<longleftrightarrow> m = n"
  by (metis parse_FormatUint)

end
