(* ===== verification/Policy.thy ===== *)
theory Policy
  imports Go_Strings
begin

text \<open>
  The routing policy engine (internal/policy/policy.go): configuration types, validation,
  route matching, and the pull and push decisions. NewEngine sorts the routes stably by
  precedence; the lemmas characterise what an accepted engine selects.
\<close>

section \<open>Types\<close>

record Source =
  src_ID :: string

record Rewrite =
  StripPrefix :: string
  AddPrefix :: string

record Route =
  rt_Name :: string
  rt_Match :: string
  Precedence :: int
  PullSources :: "string list"
  Authoritative :: string
  ExternalFallback :: bool
  PushDestination :: string
  PushDenied :: bool
  rt_Rewrite :: Rewrite

record PolicyConfig =
  pc_Sources :: "Source list"
  pc_Routes :: "Route list"

record Engine =
  routes :: "Route list"

record PullRequest =
  plr_Repository :: string
  plr_Reference :: string

text \<open>The lines of a decision's explanation, with the values formatted into them.\<close>

datatype explanation =
    MatchedRoute string
  | Rewrote string string
  | CandidatePullSources "string list"
  | FallbackBlocked string
  | SelectedPushDestination string
  | ResolvedFrom string
  | FallbackSourceUsed
  | ServedDigestFromCache
  | ServedTagFromCache
  | NotAuthorizedFor string string
  | PublishedManifest string string
  | Cause goerr

record PullDecision =
  pld_RouteName :: string
  pld_LogicalRepository :: string
  pld_PhysicalRepository :: string
  pld_Reference :: string
  CandidateSources :: "string list"
  AuthoritativeSource :: string
  ExternalFallbackAllowed :: bool
  pld_Explanation :: "explanation list"

record PushRequest =
  psr_Repository :: string
  psr_Reference :: string

record PushDecision =
  psd_RouteName :: string
  psd_LogicalRepository :: string
  psd_PhysicalRepository :: string
  psd_Reference :: string
  psd_Destination :: string
  psd_Explanation :: "explanation list"

section \<open>Repository names and patterns\<close>

definition repo_rune :: "unicode \<Rightarrow> rune \<Rightarrow> bool" where
  "repo_rune U r \<longleftrightarrow> IsLower U r \<or> IsDigit U r \<or> r = byte CHR ''/'' \<or> r = byte CHR ''.''
     \<or> r = byte CHR ''_'' \<or> r = byte CHR ''-''"

definition NormalizeRepository :: "unicode \<Rightarrow> string \<Rightarrow> string result" where
  "NormalizeRepository U repository0 =
    (let repository = Trim (TrimSpace repository0) ''/'' in
     if repository = [] then Inl (GoErr ''empty repository'' [ErrInvalidRepository])
     else if Contains repository ''//''
       then Inl (GoErr ''repository contains empty path component'' [ErrInvalidRepository])
     else if list_all (repo_rune U) (runes repository) then Inr repository
     else Inl (GoErr ''repository contains unsupported character'' [ErrInvalidRepository]))"

definition Rewrite_Apply :: "Rewrite \<Rightarrow> string \<Rightarrow> string" where
  "Rewrite_Apply r repository =
    (let repository = (if StripPrefix r \<noteq> [] then TrimPrefix repository (StripPrefix r)
                       else repository)
     in if AddPrefix r \<noteq> [] then AddPrefix r @ repository else repository)"

definition matchRepository :: "string \<Rightarrow> string \<Rightarrow> bool" where
  "matchRepository pattern repository =
    (if pattern = ''**'' then True
     else if HasSuffix pattern ''/**'' then HasPrefix repository (TrimSuffix pattern ''**'')
     else pattern = repository)"

definition patternContains :: "string \<Rightarrow> string \<Rightarrow> bool" where
  "patternContains parent child =
    (let pre = TrimSuffix parent ''**'';
         child = (if HasSuffix child ''/**'' then TrimSuffix child ''**'' else child)
     in HasPrefix child pre)"

definition patternsOverlap :: "string \<Rightarrow> string \<Rightarrow> bool" where
  "patternsOverlap a b =
    (if a = ''**'' \<or> b = ''**'' then True
     else if a = b then True
     else if HasSuffix a ''/**'' then patternContains a b
     else if HasSuffix b ''/**'' then patternContains b a
     else False)"

fun truncateAfter :: "string list \<Rightarrow> string \<Rightarrow> string list" where
  "truncateAfter [] terminal = []"
| "truncateAfter (value # vs) terminal =
     (if value = terminal then [value] else value # truncateAfter vs terminal)"

fun contains :: "string list \<Rightarrow> string \<Rightarrow> bool" where
  "contains [] needle = False"
| "contains (value # vs) needle = (if value = needle then True else contains vs needle)"

section \<open>Validation\<close>

fun validateSources_from :: "string list \<Rightarrow> Source list \<Rightarrow> string list result" where
  "validateSources_from ids [] = Inr ids"
| "validateSources_from ids (source # ss) =
     (if src_ID source = [] then Inl (errorf ''source has no id'')
      else if src_ID source \<in> set ids then Inl (errorf ''duplicate source id'')
      else validateSources_from (ids @ [src_ID source]) ss)"

definition validateSources :: "Source list \<Rightarrow> string list result" where
  "validateSources ss = validateSources_from [] ss"

definition validateRouteSources :: "string list \<Rightarrow> Route \<Rightarrow> unit result" where
  "validateRouteSources sourceIDs route =
    (if length sourceIDs = 0 then Inr ()
     else first_error
       [(list_ex (\<lambda>s. s \<notin> set sourceIDs) (PullSources route),
           errorf ''route references unknown pull source''),
        (Authoritative route \<noteq> [] \<and> Authoritative route \<notin> set sourceIDs,
           errorf ''route references unknown authoritative source''),
        (Authoritative route \<noteq> [] \<and> \<not> contains (PullSources route) (Authoritative route),
           errorf ''authoritative source is not in pull source sequence''),
        (PushDestination route \<noteq> [] \<and> PushDestination route \<notin> set sourceIDs,
           errorf ''route references unknown push destination'')])"

text \<open>One iteration of the loop of validateRoutes: the route against the names seen so far
  and the routes after it.\<close>

definition validateRoute ::
  "unicode \<Rightarrow> string list \<Rightarrow> string list \<Rightarrow> Route \<Rightarrow> Route list \<Rightarrow> unit result" where
  "validateRoute U sourceIDs names route later =
    (if rt_Name route = [] then Inl (errorf ''route has no name'')
     else if rt_Name route \<in> set names then Inl (errorf ''duplicate route name'')
     else if rt_Match route = [] then Inl (errorf ''route has no match pattern'')
     else if \<not> isOK (NormalizeRepository U (TrimSuffix (rt_Match route) ''/**''))
             \<and> rt_Match route \<noteq> ''**''
       then Inl (GoErr ''route has invalid match pattern'' [ErrInvalidRepository])
     else (case validateRouteSources sourceIDs route of Inl e \<Rightarrow> Inl e
       | Inr _ \<Rightarrow>
         if list_ex (\<lambda>other. Precedence route = Precedence other
                      \<and> patternsOverlap (rt_Match route) (rt_Match other)) later
         then Inl (errorf ''ambiguous routes share precedence'') else Inr ()))"

fun validateRoutes_from ::
  "unicode \<Rightarrow> string list \<Rightarrow> string list \<Rightarrow> Route list \<Rightarrow> unit result" where
  "validateRoutes_from U sourceIDs names [] = Inr ()"
| "validateRoutes_from U sourceIDs names (route # later) =
     (case validateRoute U sourceIDs names route later of Inl e \<Rightarrow> Inl e
      | Inr _ \<Rightarrow> validateRoutes_from U sourceIDs (rt_Name route # names) later)"

definition validateRoutes :: "unicode \<Rightarrow> Source list \<Rightarrow> Route list \<Rightarrow> unit result" where
  "validateRoutes U ss rs =
    (case validateSources ss of Inl e \<Rightarrow> Inl e
     | Inr ids \<Rightarrow> validateRoutes_from U ids [] rs)"

section \<open>The engine\<close>

definition NewEngine :: "unicode \<Rightarrow> PolicyConfig \<Rightarrow> Engine result" where
  "NewEngine U config =
    (case validateRoutes U (pc_Sources config) (pc_Routes config) of Inl e \<Rightarrow> Inl e
     | Inr _ \<Rightarrow> Inr \<lparr>routes = sort_key Precedence (pc_Routes config)\<rparr>)"

definition MatchRoute :: "unicode \<Rightarrow> Engine \<Rightarrow> string \<Rightarrow> Route result" where
  "MatchRoute U e repository0 =
    (case NormalizeRepository U repository0 of Inl err \<Rightarrow> Inl err
     | Inr repository \<Rightarrow>
       (case find (\<lambda>route. matchRepository (rt_Match route) repository) (routes e) of
          Some route \<Rightarrow> Inr route
        | None \<Rightarrow> Inl (sentinel_err ErrNoRoute)))"

definition ResolvePull :: "unicode \<Rightarrow> Engine \<Rightarrow> PullRequest \<Rightarrow> PullDecision result" where
  "ResolvePull U e request =
    (case NormalizeRepository U (plr_Repository request) of Inl err \<Rightarrow> Inl err
     | Inr logicalRepository \<Rightarrow>
       (case MatchRoute U e logicalRepository of Inl err \<Rightarrow> Inl err
        | Inr route \<Rightarrow>
          let blocked = Authoritative route \<noteq> [] \<and> \<not> ExternalFallback route;
              srcs = (if blocked then truncateAfter (PullSources route) (Authoritative route)
                      else PullSources route);
              physicalRepository = Rewrite_Apply (rt_Rewrite route) logicalRepository
          in Inr \<lparr>pld_RouteName = rt_Name route,
                  pld_LogicalRepository = logicalRepository,
                  pld_PhysicalRepository = physicalRepository,
                  pld_Reference = plr_Reference request,
                  CandidateSources = srcs,
                  AuthoritativeSource = Authoritative route,
                  ExternalFallbackAllowed = ExternalFallback route,
                  pld_Explanation =
                    [MatchedRoute (rt_Name route), Rewrote logicalRepository physicalRepository,
                     CandidatePullSources srcs]
                    @ (if blocked then [FallbackBlocked (Authoritative route)] else [])\<rparr>))"

definition ResolvePush :: "unicode \<Rightarrow> Engine \<Rightarrow> PushRequest \<Rightarrow> PushDecision result" where
  "ResolvePush U e request =
    (case NormalizeRepository U (psr_Repository request) of Inl err \<Rightarrow> Inl err
     | Inr logicalRepository \<Rightarrow>
       (case MatchRoute U e logicalRepository of Inl err \<Rightarrow> Inl err
        | Inr route \<Rightarrow>
          if PushDenied route \<or> PushDestination route = []
          then Inl (GoErr (rt_Name route) [ErrPushDenied])
          else
            let physicalRepository = Rewrite_Apply (rt_Rewrite route) logicalRepository
            in Inr \<lparr>psd_RouteName = rt_Name route,
                    psd_LogicalRepository = logicalRepository,
                    psd_PhysicalRepository = physicalRepository,
                    psd_Reference = psr_Reference request,
                    psd_Destination = PushDestination route,
                    psd_Explanation =
                      [MatchedRoute (rt_Name route), Rewrote logicalRepository physicalRepository,
                       SelectedPushDestination (PushDestination route)]\<rparr>))"

section \<open>Lemmas on lists and names\<close>

lemma contains_iff [simp]: "contains vs x \<longleftrightarrow> x \<in> set vs"
  by (induction vs) auto

lemma truncateAfter_notin: "t \<notin> set vs \<Longrightarrow> truncateAfter vs t = vs"
  by (induction vs) auto

lemma truncateAfter_split: "t \<notin> set pre \<Longrightarrow> truncateAfter (pre @ t # post) t = pre @ [t]"
  by (induction pre) auto

lemma truncateAfter_prefix: "prefix (truncateAfter vs t) vs"
  by (induction vs) auto

lemma truncateAfter_subset: "set (truncateAfter vs t) \<subseteq> set vs"
  using truncateAfter_prefix set_mono_prefix by blast

lemma find_eq_filter: "find P xs = (case filter P xs of [] \<Rightarrow> None | x # _ \<Rightarrow> Some x)"
  by (induction xs) auto

lemma filter_split: "filter Q xs = as @ x # bs \<Longrightarrow> \<exists>ps qs. xs = ps @ x # qs \<and> filter Q ps = as"
proof (induction xs arbitrary: as)
  case (Cons y ys)
  show ?case
  proof (cases "Q y")
    case True
    show ?thesis
    proof (cases as)
      case Nil
      with Cons.prems True have "y # ys = [] @ x # ys" by simp
      with Nil show ?thesis by (metis filter.simps(1))
    next
      case (Cons a as')
      with Cons.prems True Cons.IH [of as'] obtain ps qs
        where "ys = ps @ x # qs" "filter Q ps = as'" "a = y" by auto
      with True Cons show ?thesis by (metis append_Cons filter.simps(2))
    qed
  next
    case False
    with Cons.prems Cons.IH [of as] obtain ps qs where "ys = ps @ x # qs" "filter Q ps = as" by auto
    with False show ?thesis by (metis append_Cons filter.simps(2))
  qed
qed simp

text \<open>The first match in a stably sorted list: least key, and first among its equals.\<close>

lemma find_sort_key:
  assumes "find P (sort_key k xs) = Some x"
  shows "x \<in> set xs" "P x" "\<And>y. y \<in> set xs \<Longrightarrow> P y \<Longrightarrow> k x \<le> k y"
    "\<exists>ps qs. xs = ps @ x # qs \<and> (\<forall>y \<in> set ps. \<not> (P y \<and> k y = k x))"
proof -
  from assms obtain as bs where s: "sort_key k xs = as @ x # bs" and Px: "P x"
    and as: "\<forall>y \<in> set as. \<not> P y"
    unfolding find_Some_iff by (metis id_take_nth_drop in_set_conv_nth length_take min.absorb4 nth_take)
  have set: "set xs = set as \<union> {x} \<union> set bs"
    using arg_cong [OF s, of set] by simp
  from set show x: "x \<in> set xs" by simp
  show "P x" by (fact Px)
  have "sorted (map k (as @ x # bs))" unfolding s [symmetric] by simp
  then have bs: "\<forall>y \<in> set bs. k x \<le> k y" by (simp add: sorted_append)
  show "k x \<le> k y" if "y \<in> set xs" "P y" for y
    using that set as bs by auto
  let ?Q = "\<lambda>y. k y = k x"
  have "filter ?Q xs = filter ?Q (as @ x # bs)"
    unfolding s [symmetric] by (rule sort_key_stable [symmetric])
  then have f: "filter ?Q xs = filter ?Q as @ x # filter ?Q bs" by simp
  then obtain ps qs where q: "xs = ps @ x # qs" and ps: "filter ?Q ps = filter ?Q as"
    using filter_split by metis
  have "\<not> (P y \<and> ?Q y)" if "y \<in> set ps" for y
  proof
    assume "P y \<and> ?Q y"
    with that have "y \<in> set (filter ?Q as)" unfolding ps [symmetric] by simp
    with as \<open>P y \<and> ?Q y\<close> show False by auto
  qed
  with q show "\<exists>ps qs. xs = ps @ x # qs \<and> (\<forall>y \<in> set ps. \<not> (P y \<and> ?Q y))" by blast
qed

lemma NormalizeRepository_Inr:
  "NormalizeRepository U s = Inr n \<longleftrightarrow>
     n = Trim (TrimSpace s) ''/'' \<and> n \<noteq> [] \<and> \<not> Contains n ''//'' \<and> (\<forall>r \<in> set (runes n). repo_rune U r)"
  by (auto simp: NormalizeRepository_def Let_def list_all_iff)

lemma NormalizeRepository_Inl:
  "NormalizeRepository U s = Inl e \<Longrightarrow> err_wraps e = [ErrInvalidRepository]"
  by (auto simp: NormalizeRepository_def Let_def split: if_splits)

lemma repo_rune_not_space: "unicode_ok U \<Longrightarrow> repo_rune U r \<Longrightarrow> \<not> IsSpace r"
  by (auto simp: repo_rune_def unicode_ok_def IsLower_def IsDigit_def IsSpace_def split: if_splits)

lemma Normalize_idem:
  assumes "unicode_ok U" "NormalizeRepository U s = Inr n"
  shows "NormalizeRepository U n = Inr n"
proof -
  from assms(2) have n: "n \<noteq> []" "\<not> Contains n ''//''" "\<forall>r \<in> set (runes n). repo_rune U r"
    and t: "n = Trim (TrimSpace s) ''/''"
    by (auto simp: NormalizeRepository_Inr)
  have "TrimSpace n = n"
    by (rule TrimSpace_noop) (use n(3) repo_rune_not_space [OF assms(1)] in \<open>force simp: runes_def\<close>)
  moreover have "Trim n ''/'' = n"
    by (rule Trim_noop) (use n(1) t Trim_ends in metis)
  ultimately show ?thesis using n by (simp add: NormalizeRepository_Inr)
qed

lemma MatchRoute_normal:
  assumes "unicode_ok U" "NormalizeRepository U s = Inr n"
  shows "MatchRoute U e n =
    (case find (\<lambda>route. matchRepository (rt_Match route) n) (routes e) of
       Some route \<Rightarrow> Inr route | None \<Rightarrow> Inl (sentinel_err ErrNoRoute))"
  using Normalize_idem [OF assms] by (simp add: MatchRoute_def)

section \<open>What the overlap check covers\<close>

abbreviation wild :: "string \<Rightarrow> bool" where
  "wild p \<equiv> HasSuffix p ''/**''"

definition stem :: "string \<Rightarrow> string" where
  "stem p = TrimSuffix p ''**''"

lemma wild_suffix: "wild p \<Longrightarrow> HasSuffix p ''**''"
  by (auto simp: suffix_def)

text \<open>
  Two patterns that both match a repository and that the check passes as disjoint are two
  wildcards, the second one strictly wider than the first.
\<close>

lemma not_overlap_narrower:
  assumes "matchRepository a n" "matchRepository b n" "\<not> patternsOverlap a b"
  shows "wild a" "wild b" "strict_prefix (stem b) (stem a)"
proof -
  have s: "a \<noteq> ''**''" "b \<noteq> ''**''" "a \<noteq> b"
    using assms(3) by (auto simp: patternsOverlap_def split: if_splits)
  show wa: "wild a"
  proof (rule ccontr)
    assume "\<not> wild a"
    with s assms show False
      by (auto simp: matchRepository_def patternsOverlap_def patternContains_def split: if_splits)
  qed
  show wb: "wild b"
  proof (rule ccontr)
    assume "\<not> wild b"
    with s wa assms show False
      by (auto simp: matchRepository_def patternsOverlap_def patternContains_def split: if_splits)
  qed
  have pa: "prefix (stem a) n" and pb: "prefix (stem b) n"
    using assms s wa wb by (auto simp: matchRepository_def stem_def)
  have "\<not> prefix (stem a) (stem b)"
    using assms(3) s wa wb by (auto simp: patternsOverlap_def patternContains_def stem_def)
  then show "strict_prefix (stem b) (stem a)"
    using prefix_same_cases [OF pa pb] by (auto simp: strict_prefix_def)
qed

lemma validateRoute_OK:
  "validateRoute U ids names route later = Inr () \<Longrightarrow>
     rt_Name route \<noteq> [] \<and> rt_Name route \<notin> set names \<and> rt_Match route \<noteq> []
     \<and> validateRouteSources ids route = Inr ()
     \<and> (\<forall>other \<in> set later. Precedence route = Precedence other \<longrightarrow>
          \<not> patternsOverlap (rt_Match route) (rt_Match other))"
  by (auto simp: validateRoute_def list_ex_iff split: if_splits sum.splits)

lemma validateRoutes_from_OK:
  "validateRoutes_from U ids names rs = Inr () \<Longrightarrow>
     sorted_wrt (\<lambda>r r'. Precedence r = Precedence r' \<longrightarrow>
        \<not> patternsOverlap (rt_Match r) (rt_Match r')) rs
     \<and> distinct (map rt_Name rs)
     \<and> (\<forall>r \<in> set rs. rt_Name r \<noteq> [] \<and> rt_Name r \<notin> set names \<and> validateRouteSources ids r = Inr ())"
proof (induction rs arbitrary: names)
  case (Cons r rs)
  then have "validateRoute U ids names r rs = Inr ()"
    and "validateRoutes_from U ids (rt_Name r # names) rs = Inr ()"
    by (auto split: sum.splits)
  with Cons.IH [of "rt_Name r # names"] validateRoute_OK [of U ids names r rs]
  show ?case by auto
qed simp

lemma validateSources_from_OK:
  "validateSources_from ids ss = Inr ids' \<Longrightarrow> set ids' = set ids \<union> src_ID ` set ss \<and> [] \<notin> src_ID ` set ss"
  by (induction ids ss rule: validateSources_from.induct) (auto split: if_splits)

lemma NewEngine_Inr:
  assumes "NewEngine U config = Inr e"
  obtains ids where "validateSources (pc_Sources config) = Inr ids"
    "validateRoutes_from U ids [] (pc_Routes config) = Inr ()"
    "e = \<lparr>routes = sort_key Precedence (pc_Routes config)\<rparr>"
  using assms by (auto simp: NewEngine_def validateRoutes_def split: sum.splits)

lemma selected_route:
  assumes e: "NewEngine U config = Inr e"
    and f: "find (\<lambda>route. matchRepository (rt_Match route) n) (routes e) = Some r"
  shows "r \<in> set (pc_Routes config) \<and> matchRepository (rt_Match r) n
    \<and> (\<forall>r' \<in> set (pc_Routes config). matchRepository (rt_Match r') n \<longrightarrow>
         Precedence r < Precedence r' \<or> r' = r
         \<or> (Precedence r' = Precedence r \<and> strict_prefix (stem (rt_Match r')) (stem (rt_Match r))))"
proof -
  let ?P = "\<lambda>route. matchRepository (rt_Match route) n"
  let ?R = "\<lambda>r r'. Precedence r = Precedence r' \<longrightarrow> \<not> patternsOverlap (rt_Match r) (rt_Match r')"
  from e obtain ids where v: "validateRoutes_from U ids [] (pc_Routes config) = Inr ()"
    and s: "e = \<lparr>routes = sort_key Precedence (pc_Routes config)\<rparr>" by (rule NewEngine_Inr)
  have f': "find ?P (sort_key Precedence (pc_Routes config)) = Some r" using f s by simp
  note sel = find_sort_key [OF f']
  from sel(4) obtain ps qs where pq: "pc_Routes config = ps @ r # qs"
    and ps: "\<forall>y \<in> set ps. \<not> (?P y \<and> Precedence y = Precedence r)" by blast
  have "sorted_wrt ?R (ps @ r # qs)" using validateRoutes_from_OK [OF v] pq by simp
  then have qs: "\<forall>y \<in> set qs. ?R r y" by (simp add: sorted_wrt_append)
  have "Precedence r < Precedence r' \<or> r' = r
      \<or> (Precedence r' = Precedence r \<and> strict_prefix (stem (rt_Match r')) (stem (rt_Match r)))"
    if r': "r' \<in> set (pc_Routes config)" "?P r'" for r'
  proof (cases "Precedence r' = Precedence r \<and> r' \<noteq> r")
    case True
    with r' ps pq have "r' \<in> set qs" by auto
    with qs True not_overlap_narrower(3) [OF sel(2) r'(2)] show ?thesis by auto
  qed (use sel(3) [OF r'] in auto)
  with sel(1,2) show ?thesis by blast
qed

lemma unselected:
  assumes "NewEngine U config = Inr e"
  shows "find (\<lambda>route. matchRepository (rt_Match route) n) (routes e) = None
    \<longleftrightarrow> (\<forall>r \<in> set (pc_Routes config). \<not> matchRepository (rt_Match r) n)"
  using assms by (auto simp: NewEngine_def find_None_iff split: sum.splits)

section \<open>Resolution of accepted engines\<close>

lemma ResolvePull_Inr:
  assumes "ResolvePull U e req = Inr d"
  obtains n route where "NormalizeRepository U (plr_Repository req) = Inr n"
    "MatchRoute U e n = Inr route"
    "pld_RouteName d = rt_Name route" "pld_LogicalRepository d = n"
    "pld_PhysicalRepository d = Rewrite_Apply (rt_Rewrite route) n"
    "pld_Reference d = plr_Reference req"
    "AuthoritativeSource d = Authoritative route"
    "ExternalFallbackAllowed d = ExternalFallback route"
    "CandidateSources d =
       (if Authoritative route \<noteq> [] \<and> \<not> ExternalFallback route
        then truncateAfter (PullSources route) (Authoritative route) else PullSources route)"
  using assms by (auto simp: ResolvePull_def Let_def split: sum.splits)

lemma ResolvePush_Inr:
  assumes "ResolvePush U e req = Inr d"
  obtains n route where "NormalizeRepository U (psr_Repository req) = Inr n"
    "MatchRoute U e n = Inr route" "\<not> PushDenied route" "PushDestination route \<noteq> []"
    "psd_RouteName d = rt_Name route" "psd_LogicalRepository d = n"
    "psd_PhysicalRepository d = Rewrite_Apply (rt_Rewrite route) n"
    "psd_Reference d = psr_Reference req" "psd_Destination d = PushDestination route"
  using assms by (auto simp: ResolvePush_def Let_def split: sum.splits if_splits)

lemma MatchRoute_in_config:
  assumes "NewEngine U config = Inr e" "MatchRoute U e s = Inr route"
  shows "route \<in> set (pc_Routes config)"
  using assms selected_route [OF assms(1)]
  by (auto simp: MatchRoute_def split: sum.splits option.splits)

lemma accepted_route_sources:
  assumes "NewEngine U config = Inr e" "route \<in> set (pc_Routes config)" "pc_Sources config \<noteq> []"
  shows "set (PullSources route) \<subseteq> src_ID ` set (pc_Sources config)"
    "Authoritative route \<noteq> [] \<Longrightarrow> Authoritative route \<in> set (PullSources route)"
    "PushDestination route \<noteq> [] \<Longrightarrow> PushDestination route \<in> src_ID ` set (pc_Sources config)"
proof -
  from assms(1) obtain ids where s: "validateSources (pc_Sources config) = Inr ids"
    and v: "validateRoutes_from U ids [] (pc_Routes config) = Inr ()" by (rule NewEngine_Inr)
  have ids: "set ids = src_ID ` set (pc_Sources config)"
    using validateSources_from_OK [of "[]"] s by (auto simp: validateSources_def)
  with assms(3) have "ids \<noteq> []" by auto
  moreover have "validateRouteSources ids route = Inr ()"
    using validateRoutes_from_OK [OF v] assms(2) by blast
  ultimately show "set (PullSources route) \<subseteq> src_ID ` set (pc_Sources config)"
    "Authoritative route \<noteq> [] \<Longrightarrow> Authoritative route \<in> set (PullSources route)"
    "PushDestination route \<noteq> [] \<Longrightarrow> PushDestination route \<in> src_ID ` set (pc_Sources config)"
    using ids by (auto simp: validateRouteSources_def first_error_OK list_ex_iff split: if_splits)
qed

end
