(* ===== verification/Policy_Properties.thy ===== *)
theory Policy_Properties
  imports Policy
begin

text \<open>
  Properties of the policy engine: which route an accepted engine selects, that the order
  of the configuration does not matter for the selection, what a normalised name is, and
  that decisions stay within the configured sources.
\<close>

section \<open>Properties\<close>

text \<open>A configuration the witnesses run on: an authoritative internal registry in front of
  an external one, and two nested namespaces of the same precedence.\<close>

definition no_rewrite :: Rewrite where
  "no_rewrite = \<lparr>StripPrefix = [], AddPrefix = []\<rparr>"

definition example_route :: "string \<Rightarrow> string \<Rightarrow> Route" where
  "example_route name pat =
    \<lparr>rt_Name = name, rt_Match = pat, Precedence = 10, PullSources = [''internal'', ''hub''],
     Authoritative = ''internal'', ExternalFallback = False, PushDestination = ''internal'',
     PushDenied = False, rt_Rewrite = no_rewrite\<rparr>"

definition example_config :: "Route list \<Rightarrow> PolicyConfig" where
  "example_config rs = \<lparr>pc_Sources = [\<lparr>src_ID = ''internal''\<rparr>, \<lparr>src_ID = ''hub''\<rparr>], pc_Routes = rs\<rparr>"

definition narrow_route :: Route where "narrow_route = example_route ''team'' ''org/team/**''"
definition wide_route :: Route where "wide_route = example_route ''org'' ''org/**''"

lemma example_engine:
  "NewEngine ascii_unicode (example_config [narrow_route, wide_route])
     = Inr \<lparr>routes = [narrow_route, wide_route]\<rparr>"
  by code_simp

text \<open>
  C16: an engine that NewEngine accepted selects, for every repository name
  that normalises to n, a configured route that matches n; every other configured route that
  matches n has a larger precedence, or the same precedence and a strictly wider wildcard.
\<close>

theorem route_selection:
  assumes "NewEngine U config = Inr e"
    and "NormalizeRepository U repository = Inr n"
    and "MatchRoute U e repository = Inr r"
  shows "r \<in> set (pc_Routes config) \<and> matchRepository (rt_Match r) n
    \<and> (\<forall>r' \<in> set (pc_Routes config). matchRepository (rt_Match r') n \<longrightarrow>
         Precedence r < Precedence r' \<or> r' = r
         \<or> (Precedence r' = Precedence r \<and> strict_prefix (stem (rt_Match r')) (stem (rt_Match r))))"
  using assms selected_route [OF assms(1)]
  by (auto simp: MatchRoute_def split: option.splits)

theorem route_selection_witness:
  "\<exists>e r. NewEngine ascii_unicode (example_config [narrow_route, wide_route]) = Inr e
     \<and> MatchRoute ascii_unicode e ''org/team/app'' = Inr r \<and> r \<in> {narrow_route, wide_route}"
proof -
  let ?e = "\<lparr>routes = [narrow_route, wide_route]\<rparr>"
  have n: "NormalizeRepository ascii_unicode ''org/team/app'' = Inr ''org/team/app''" by code_simp
  have m: "MatchRoute ascii_unicode ?e ''org/team/app'' = Inr narrow_route" by code_simp
  from route_selection [OF example_engine n m] m example_engine show ?thesis
    by (auto simp: example_config_def)
qed

text \<open>
  Two accepted engines over the same routes, in whatever order
  the configuration lists them, make the same selection for every repository.
\<close>

theorem selection_ignores_order:
  assumes "NewEngine U c1 = Inr e1" and "NewEngine U c2 = Inr e2"
    and "set (pc_Routes c1) = set (pc_Routes c2)"
  shows "MatchRoute U e1 repository = MatchRoute U e2 repository"
proof (cases "NormalizeRepository U repository")
  case (Inr n)
  let ?f = "\<lambda>e. find (\<lambda>route. matchRepository (rt_Match route) n) (routes e)"
  have "?f e1 = ?f e2"
  proof (cases "?f e1")
    case None
    with unselected [OF assms(1), of n] unselected [OF assms(2), of n] assms(3) show ?thesis by metis
  next
    case (Some r1)
    have "?f e2 \<noteq> None"
      unfolding unselected [OF assms(2)] using selected_route [OF assms(1) Some] assms(3) by blast
    then obtain r2 where r2: "?f e2 = Some r2" by blast
    note s1 = selected_route [OF assms(1) Some] and s2 = selected_route [OF assms(2) r2]
    have "Precedence r1 < Precedence r2 \<or> r2 = r1
        \<or> (Precedence r2 = Precedence r1 \<and> strict_prefix (stem (rt_Match r2)) (stem (rt_Match r1)))"
      using s1 s2 assms(3) by blast
    moreover have "Precedence r2 < Precedence r1 \<or> r1 = r2
        \<or> (Precedence r1 = Precedence r2 \<and> strict_prefix (stem (rt_Match r1)) (stem (rt_Match r2)))"
      using s1 s2 assms(3) by blast
    ultimately have "r1 = r2" using prefix_order.less_asym by auto
    with Some r2 show ?thesis by simp
  qed
  with Inr show ?thesis by (simp add: MatchRoute_def)
qed (simp add: MatchRoute_def)

definition app_route :: Route where "app_route = example_route ''app'' ''app/**''"

lemma example_engine_orders:
  "NewEngine ascii_unicode (example_config [app_route, narrow_route])
     = Inr \<lparr>routes = [app_route, narrow_route]\<rparr>"
  "NewEngine ascii_unicode (example_config [narrow_route, app_route])
     = Inr \<lparr>routes = [narrow_route, app_route]\<rparr>"
  by code_simp+

theorem selection_ignores_order_witness:
  "MatchRoute ascii_unicode \<lparr>routes = [app_route, narrow_route]\<rparr> ''org/team/x''
     = MatchRoute ascii_unicode \<lparr>routes = [narrow_route, app_route]\<rparr> ''org/team/x''"
  by (rule selection_ignores_order [OF example_engine_orders]) (auto simp: example_config_def)

text \<open>
  The overlap check compares a pair of wildcards in one
  direction only. The same two nested routes of one precedence are accepted when the
  narrower is listed first and rejected as ambiguous when the wider is.
\<close>

theorem overlap_check_depends_on_order:
  "isOK (NewEngine ascii_unicode (example_config [narrow_route, wide_route]))
   \<and> \<not> isOK (NewEngine ascii_unicode (example_config [wide_route, narrow_route]))
   \<and> patternsOverlap ''org/**'' ''org/team/**'' \<and> \<not> patternsOverlap ''org/team/**'' ''org/**''"
  by code_simp

text \<open>
  A repository name that NormalizeRepository accepts comes out non-empty,
  with no slash at either end, no empty component and only permitted runes, and
  normalising it again gives the same name.
\<close>

theorem normalized_names:
  assumes "unicode_ok U" and "NormalizeRepository U s = Inr n"
  shows "n \<noteq> [] \<and> hd n \<noteq> CHR ''/'' \<and> last n \<noteq> CHR ''/'' \<and> \<not> Contains n ''//''
    \<and> (\<forall>r \<in> set (runes n). repo_rune U r) \<and> NormalizeRepository U n = Inr n"
proof -
  from assms(2) have n: "n \<noteq> []" "\<not> Contains n ''//''" "\<forall>r \<in> set (runes n). repo_rune U r"
    and t: "n = Trim (TrimSpace s) ''/''" by (auto simp: NormalizeRepository_Inr)
  with Trim_ends [of "TrimSpace s" "''/''"] show ?thesis
    using Normalize_idem [OF assms] by simp
qed

theorem normalized_names_witness:
  "NormalizeRepository ascii_unicode ''/org/app/'' = Inr ''org/app''
   \<and> NormalizeRepository ascii_unicode ''org/app'' = Inr ''org/app''"
proof -
  have n: "NormalizeRepository ascii_unicode ''/org/app/'' = Inr ''org/app''" by code_simp
  from normalized_names [OF unicode_ok_ascii n] n show ?thesis by simp
qed

text \<open>
  When a route names an authoritative source and forbids external
  fallback, the candidates of a pull decision are the route's sources up to and including
  the authoritative one, so nothing after it can be contacted.
\<close>

theorem authoritative_is_last:
  assumes "NewEngine U config = Inr e" and "pc_Sources config \<noteq> []"
    and "ResolvePull U e req = Inr d"
    and "AuthoritativeSource d \<noteq> []" and "\<not> ExternalFallbackAllowed d"
  shows "\<exists>route pre post. route \<in> set (pc_Routes config) \<and> rt_Name route = pld_RouteName d
    \<and> PullSources route = pre @ AuthoritativeSource d # post
    \<and> AuthoritativeSource d \<notin> set pre
    \<and> CandidateSources d = pre @ [AuthoritativeSource d]"
proof -
  from assms(3) obtain n route where m: "MatchRoute U e n = Inr route"
    and d: "rt_Name route = pld_RouteName d" "AuthoritativeSource d = Authoritative route"
      "ExternalFallbackAllowed d = ExternalFallback route"
      "CandidateSources d = (if Authoritative route \<noteq> [] \<and> \<not> ExternalFallback route
        then truncateAfter (PullSources route) (Authoritative route) else PullSources route)"
    by (metis ResolvePull_Inr)
  have r: "route \<in> set (pc_Routes config)" by (rule MatchRoute_in_config [OF assms(1) m])
  with accepted_route_sources(2) [OF assms(1) r assms(2)] d(2) assms(4)
  obtain pre post where "PullSources route = pre @ AuthoritativeSource d # post"
    "AuthoritativeSource d \<notin> set pre" by (metis split_list_first)
  with r d assms(4,5) truncateAfter_split show ?thesis by fastforce
qed

theorem authoritative_is_last_witness:
  "\<exists>d. ResolvePull ascii_unicode \<lparr>routes = [narrow_route, wide_route]\<rparr>
          \<lparr>plr_Repository = ''org/app'', plr_Reference = ''v1''\<rparr> = Inr d
     \<and> CandidateSources d = [''internal'']"
proof -
  let ?r = "\<lparr>plr_Repository = ''org/app'', plr_Reference = ''v1''\<rparr>"
  let ?e = "\<lparr>routes = [narrow_route, wide_route]\<rparr>"
  have "\<exists>d. ResolvePull ascii_unicode ?e ?r = Inr d \<and> AuthoritativeSource d = ''internal''
      \<and> \<not> ExternalFallbackAllowed d \<and> CandidateSources d = [''internal'']"
    by (rule exI [of _ "projr (ResolvePull ascii_unicode ?e ?r)"]) code_simp
  then obtain d where d: "ResolvePull ascii_unicode ?e ?r = Inr d"
    "AuthoritativeSource d = ''internal''" "\<not> ExternalFallbackAllowed d"
    "CandidateSources d = [''internal'']" by blast
  then show ?thesis
    using authoritative_is_last [OF example_engine _ d(1)] by (auto simp: example_config_def)
qed

text \<open>
  Resolving a pull or a push fails with ErrInvalidRepository when the
  name is malformed, with ErrNoRoute exactly when no configured route matches the name, and
  a push whose route denies pushes or names no destination fails with ErrPushDenied. In every
  other case it succeeds, with the rewritten name of the matched route.
\<close>

theorem resolve_outcomes:
  assumes "unicode_ok U" and "NewEngine U config = Inr e"
  shows "case NormalizeRepository U repository of
      Inl err \<Rightarrow> errors_Is err ErrInvalidRepository
        \<and> ResolvePull U e \<lparr>plr_Repository = repository, plr_Reference = ref\<rparr> = Inl err
        \<and> ResolvePush U e \<lparr>psr_Repository = repository, psr_Reference = ref\<rparr> = Inl err
    | Inr n \<Rightarrow>
        (case MatchRoute U e repository of
           Inl err \<Rightarrow> errors_Is err ErrNoRoute
             \<and> (\<forall>r \<in> set (pc_Routes config). \<not> matchRepository (rt_Match r) n)
             \<and> ResolvePull U e \<lparr>plr_Repository = repository, plr_Reference = ref\<rparr> = Inl err
             \<and> ResolvePush U e \<lparr>psr_Repository = repository, psr_Reference = ref\<rparr> = Inl err
         | Inr r \<Rightarrow> matchRepository (rt_Match r) n
             \<and> (\<exists>d. ResolvePull U e \<lparr>plr_Repository = repository, plr_Reference = ref\<rparr> = Inr d
                  \<and> pld_PhysicalRepository d = Rewrite_Apply (rt_Rewrite r) n)
             \<and> (if PushDenied r \<or> PushDestination r = []
                then \<exists>err. ResolvePush U e \<lparr>psr_Repository = repository, psr_Reference = ref\<rparr> = Inl err
                       \<and> errors_Is err ErrPushDenied
                else \<exists>d. ResolvePush U e \<lparr>psr_Repository = repository, psr_Reference = ref\<rparr> = Inr d
                       \<and> psd_Destination d = PushDestination r
                       \<and> psd_PhysicalRepository d = Rewrite_Apply (rt_Rewrite r) n))"
proof (cases "NormalizeRepository U repository")
  case (Inl err)
  then show ?thesis
    by (auto simp: ResolvePull_def ResolvePush_def NormalizeRepository_def Let_def split: if_splits)
next
  case (Inr n)
  note m = MatchRoute_normal [OF assms(1) Inr, of e]
  have eq: "MatchRoute U e repository = MatchRoute U e n" using Inr m by (simp add: MatchRoute_def)
  show ?thesis
  proof (cases "find (\<lambda>route. matchRepository (rt_Match route) n) (routes e)")
    case None
    with Inr m eq unselected [OF assms(2), of n] show ?thesis
      by (simp add: ResolvePull_def ResolvePush_def)
  next
    case (Some r)
    with Inr m eq selected_route [OF assms(2) Some] show ?thesis
      by (simp add: ResolvePull_def ResolvePush_def Let_def)
  qed
qed

theorem resolve_outcomes_witness:
  "\<exists>d. ResolvePush ascii_unicode \<lparr>routes = [narrow_route, wide_route]\<rparr>
         \<lparr>psr_Repository = ''org/app'', psr_Reference = ''v1''\<rparr> = Inr d \<and> psd_Destination d = ''internal''"
proof -
  have "NormalizeRepository ascii_unicode ''org/app'' = Inr ''org/app''" by code_simp
  moreover have "MatchRoute ascii_unicode \<lparr>routes = [narrow_route, wide_route]\<rparr> ''org/app'' = Inr wide_route"
    by code_simp
  ultimately show ?thesis
    using resolve_outcomes [OF unicode_ok_ascii example_engine, of "''org/app''" "''v1''"]
    by (auto simp: wide_route_def example_route_def)
qed

text \<open>
  With configured sources, every candidate of a pull decision
  and the destination of a push decision is a configured source.
\<close>

theorem decisions_stay_configured:
  assumes "NewEngine U config = Inr e" and "pc_Sources config \<noteq> []"
  shows "(\<forall>d. ResolvePull U e pull = Inr d \<longrightarrow> set (CandidateSources d) \<subseteq> src_ID ` set (pc_Sources config))
    \<and> (\<forall>d. ResolvePush U e push = Inr d \<longrightarrow> psd_Destination d \<in> src_ID ` set (pc_Sources config))"
proof (intro conjI allI impI)
  fix d assume "ResolvePull U e pull = Inr d"
  then obtain n route where m: "MatchRoute U e n = Inr route"
    and c: "CandidateSources d = (if Authoritative route \<noteq> [] \<and> \<not> ExternalFallback route
        then truncateAfter (PullSources route) (Authoritative route) else PullSources route)"
    by (metis ResolvePull_Inr)
  from accepted_route_sources(1) [OF assms(1) MatchRoute_in_config [OF assms(1) m] assms(2)]
  show "set (CandidateSources d) \<subseteq> src_ID ` set (pc_Sources config)"
    unfolding c using truncateAfter_subset [of "PullSources route"] by (auto split: if_splits)
next
  fix d assume "ResolvePush U e push = Inr d"
  then obtain n route where m: "MatchRoute U e n = Inr route" and p: "PushDestination route \<noteq> []"
    and c: "psd_Destination d = PushDestination route" by (metis ResolvePush_Inr)
  from accepted_route_sources(3) [OF assms(1) MatchRoute_in_config [OF assms(1) m] assms(2) p]
  show "psd_Destination d \<in> src_ID ` set (pc_Sources config)" unfolding c .
qed

theorem decisions_stay_configured_witness:
  "\<exists>d. ResolvePush ascii_unicode \<lparr>routes = [narrow_route, wide_route]\<rparr>
       \<lparr>psr_Repository = ''org/app'', psr_Reference = ''v1''\<rparr> = Inr d
     \<and> psd_Destination d \<in> {''internal'', ''hub''}"
proof -
  let ?r = "\<lparr>psr_Repository = ''org/app'', psr_Reference = ''v1''\<rparr>"
  have "isOK (ResolvePush ascii_unicode \<lparr>routes = [narrow_route, wide_route]\<rparr> ?r)" by code_simp
  then show ?thesis
    using decisions_stay_configured [OF example_engine] by (auto simp: example_config_def isOK_iff)
qed

end
