(* ===== verification/Content_Store.thy ===== *)
theory Content_Store
  imports Go_Strings "HOL-Library.AList"
begin

text \<open>
  The content-addressed store (internal/content/store.go). The state is the directory
  blobs/sha256 below the root: file names with their contents (or a directory). SHA-256 is a
  parameter H giving the hexadecimal digest of a byte string. Input/output failures, the
  context's cancellation and short writes are an explicit oracle (a record of type
  StoreFaults), so every early return of the code is a branch of the model.
\<close>

section \<open>Types\<close>

record Descriptor =
  d_Digest :: string
  d_Size :: int

datatype entry = File string | Dir

type_synonym FileStore = "(string \<times> entry) list"

text \<open>What one call of Read returned: bytes, and nil, io.EOF or another error. A reader is
  the sequence of its calls; past the end of the sequence Read returns io.EOF.\<close>

datatype readerr = EOF | ReadErr goerr

type_synonym Reader = "(string \<times> readerr option) list"

definition bytes_NewReader :: "string \<Rightarrow> Reader" where
  "bytes_NewReader c = [(c, None)]"

text \<open>io.ReadAll.\<close>

fun ReadAll :: "Reader \<Rightarrow> string result" where
  "ReadAll [] = Inr []"
| "ReadAll ((d, er) # rs) =
     (case er of Some EOF \<Rightarrow> Inr d
      | Some (ReadErr e) \<Rightarrow> Inl e
      | None \<Rightarrow> (case ReadAll rs of Inl e \<Rightarrow> Inl e | Inr c \<Rightarrow> Inr (d @ c)))"

text \<open>The outside world of one store call: the n-th check of ctx.Err(), the result of each
  system call (None for success), what the n-th write to the temporary file did when it was
  not complete, and the random part of the temporary name.\<close>

record StoreFaults =
  sf_ctx :: "nat \<Rightarrow> goerr option"
  sf_stat :: "goerr option"
  sf_size :: "goerr option"
  sf_create :: "goerr option"
  sf_write :: "nat \<Rightarrow> (nat \<times> goerr option) option"
  sf_close :: "goerr option"
  sf_rename :: "goerr option"
  sf_open :: "goerr option"
  sf_read :: "goerr option"
  sf_random :: string

definition no_faults :: StoreFaults where
  "no_faults = \<lparr>sf_ctx = (\<lambda>_. None), sf_stat = None, sf_size = None, sf_create = None,
     sf_write = (\<lambda>_. None), sf_close = None, sf_rename = None, sf_open = None, sf_read = None,
     sf_random = ''1''\<rparr>"

section \<open>Digests\<close>

definition is_hex :: "char \<Rightarrow> bool" where
  "is_hex c \<longleftrightarrow> 48 \<le> byte c \<and> byte c \<le> 57 \<or> 97 \<le> byte c \<and> byte c \<le> 102
     \<or> 65 \<le> byte c \<and> byte c \<le> 70"

definition parseDigest :: "string \<Rightarrow> (string \<times> string) result" where
  "parseDigest digest =
    (case Cut digest CHR '':'' of
       None \<Rightarrow> Inl (GoErr digest [ErrUnsupportedDigest])
     | Some (algorithm, encoded) \<Rightarrow>
         if algorithm = [] \<or> encoded = [] then Inl (GoErr digest [ErrUnsupportedDigest])
         else if algorithm \<noteq> ''sha256'' then Inl (GoErr digest [ErrUnsupportedDigest])
         else if length encoded \<noteq> 64 then Inl (GoErr digest [ErrUnsupportedDigest])
         else if \<not> list_all is_hex encoded then Inl (GoErr digest [ErrUnsupportedDigest])
         else Inr (algorithm, encoded))"

definition NewDescriptor :: "string \<Rightarrow> int \<Rightarrow> Descriptor result" where
  "NewDescriptor digest sz =
    (case parseDigest digest of Inl e \<Rightarrow> Inl e
     | Inr _ \<Rightarrow> if sz < 0 then Inl (errorf ''descriptor size must not be negative'')
               else Inr \<lparr>d_Digest = digest, d_Size = sz\<rparr>)"

text \<open>The digest with the given hexadecimal part.\<close>

definition sha_name :: "string \<Rightarrow> string" where
  "sha_name encoded = ''sha256:'' @ encoded"

text \<open>hash.Sum of newHash(algorithm), with the algorithm prefix; parseDigest lets only sha256 by.\<close>

definition digest_of :: "(string \<Rightarrow> string) \<Rightarrow> string \<Rightarrow> string" where
  "digest_of H c = sha_name (H c)"

text \<open>What the program relies on of crypto/sha256 and encoding/hex.\<close>

definition sha256_hex :: "(string \<Rightarrow> string) \<Rightarrow> bool" where
  "sha256_hex H \<longleftrightarrow> (\<forall>c. length (H c) = 64 \<and> list_all is_hex (H c))"

section \<open>Copying\<close>

text \<open>
  copyWithContext through a TeeReader: what reached the temporary file, what reached the
  hash, and the error. The index counts the iterations, each of which checks the context.
\<close>

definition write_step :: "(nat \<times> goerr option) option \<Rightarrow> string \<Rightarrow> string \<times> goerr option" where
  "write_step w d =
    (if d = [] then ([], None)
     else case w of None \<Rightarrow> (d, None)
       | Some (nw, Some e) \<Rightarrow> (take nw d, Some e)
       | Some (nw, None) \<Rightarrow> (take nw d, if nw = length d then None else Some (errorf ''short write'')))"

fun copyWithContext ::
  "(nat \<Rightarrow> goerr option) \<Rightarrow> (nat \<Rightarrow> (nat \<times> goerr option) option) \<Rightarrow> nat \<Rightarrow> Reader
     \<Rightarrow> string \<times> string \<times> goerr option" where
  "copyWithContext cx wr i [] = ([], [], cx i)"
| "copyWithContext cx wr i ((d, er) # rs) =
    (case cx i of Some e \<Rightarrow> ([], [], Some e)
     | None \<Rightarrow>
       (case write_step (wr i) d of
          (w, Some e) \<Rightarrow> (w, d, Some e)
        | (w, None) \<Rightarrow>
          (case er of Some EOF \<Rightarrow> (w, d, None)
           | Some (ReadErr e) \<Rightarrow> (w, d, Some e)
           | None \<Rightarrow>
             (case copyWithContext cx wr (Suc i) rs of (w', h', e') \<Rightarrow> (w @ w', d @ h', e')))))"

section \<open>Operations\<close>

definition fileExists :: "StoreFaults \<Rightarrow> FileStore \<Rightarrow> string \<Rightarrow> bool result" where
  "fileExists f fs name =
    (case sf_stat f of Some e \<Rightarrow> Inl e | None \<Rightarrow> Inr (map_of fs name \<noteq> None))"

fun entry_size :: "entry \<Rightarrow> int" where
  "entry_size (File c) = int (length c)"
| "entry_size Dir = 4096"

definition NewFileStore :: "string \<Rightarrow> goerr option \<Rightarrow> FileStore result" where
  "NewFileStore root mkdir =
    (if root = [] then Inl (errorf ''content store root is required'')
     else case mkdir of Some e \<Rightarrow> Inl (wrapf ''create content store: %w'' e) | None \<Rightarrow> Inr [])"

definition temp_name :: "StoreFaults \<Rightarrow> string" where
  "temp_name f = ''.upload-'' @ sf_random f"

text \<open>The part of PutBlob after the temporary file was created: copy, close, compare, rename;
  the deferred Remove of the temporary name is the last step on every path.\<close>

definition PutBlob_temp ::
  "(string \<Rightarrow> string) \<Rightarrow> StoreFaults \<Rightarrow> FileStore \<Rightarrow> string \<Rightarrow> string \<Rightarrow> Reader
     \<Rightarrow> Descriptor result \<times> FileStore" where
  "PutBlob_temp H f fs digest encoded content =
    (case copyWithContext (sf_ctx f \<circ> Suc) (sf_write f) 0 content of (written, hashed, copyErr) \<Rightarrow>
      let temp = temp_name f;
          fs1 = AList.update temp (File written) fs;
          removed = AList.delete temp fs1;
          desc = \<lparr>d_Digest = digest, d_Size = int (length written)\<rparr>
      in case copyErr of Some e \<Rightarrow> (Inl e, removed)
       | None \<Rightarrow>
         (case sf_close f of Some e \<Rightarrow> (Inl (wrapf ''close blob temp file: %w'' e), removed)
          | None \<Rightarrow>
            if digest_of H hashed \<noteq> digest
            then (Inl (GoErr ''got %s want %s'' [ErrContentDigestMismatch]), removed)
            else (case sf_rename f of
                Some e \<Rightarrow> (if map_of fs1 encoded \<noteq> None \<and> sf_stat f = None then (Inr desc, removed)
                           else (Inl (wrapf ''finalize blob: %w'' e), removed))
              | None \<Rightarrow> (Inr desc, AList.update encoded (File written) removed))))"

definition PutBlob ::
  "(string \<Rightarrow> string) \<Rightarrow> StoreFaults \<Rightarrow> FileStore \<Rightarrow> string \<Rightarrow> Reader
     \<Rightarrow> Descriptor result \<times> FileStore" where
  "PutBlob H f fs digest content =
    (case sf_ctx f 0 of Some e \<Rightarrow> (Inl e, fs)
     | None \<Rightarrow>
       (case parseDigest digest of Inl e \<Rightarrow> (Inl e, fs)
        | Inr (algorithm, encoded) \<Rightarrow>
          (case fileExists f fs encoded of Inl e \<Rightarrow> (Inl e, fs)
           | Inr True \<Rightarrow>
             (case sf_size f of Some e \<Rightarrow> (Inl e, fs)
              | None \<Rightarrow> (Inr \<lparr>d_Digest = digest,
                             d_Size = entry_size (the (map_of fs encoded))\<rparr>, fs))
           | Inr False \<Rightarrow>
             (case sf_create f of Some e \<Rightarrow> (Inl (wrapf ''create blob temp file: %w'' e), fs)
              | None \<Rightarrow> PutBlob_temp H f fs digest encoded content))))"

definition OpenBlob :: "StoreFaults \<Rightarrow> FileStore \<Rightarrow> string \<Rightarrow> entry result" where
  "OpenBlob f fs digest =
    (case sf_ctx f 0 of Some e \<Rightarrow> Inl e
     | None \<Rightarrow>
       (case parseDigest digest of Inl e \<Rightarrow> Inl e
        | Inr (algorithm, encoded) \<Rightarrow>
          (case map_of fs encoded of
             None \<Rightarrow> Inl (GoErr digest [ErrBlobNotFound])
           | Some ent \<Rightarrow> (case sf_open f of Some e \<Rightarrow> Inl (wrapf ''open blob: %w'' e)
                          | None \<Rightarrow> Inr ent))))"

definition HasBlob :: "StoreFaults \<Rightarrow> FileStore \<Rightarrow> string \<Rightarrow> bool result" where
  "HasBlob f fs digest =
    (case sf_ctx f 0 of Some e \<Rightarrow> Inl e
     | None \<Rightarrow>
       (case parseDigest digest of Inl e \<Rightarrow> Inl e
        | Inr (algorithm, encoded) \<Rightarrow> fileExists f fs encoded))"

text \<open>ListBlobs: the loop over the entries, in the order os.ReadDir gives (by file name).\<close>

fun list_entries :: "StoreFaults \<Rightarrow> nat \<Rightarrow> (string \<times> entry) list \<Rightarrow> Descriptor list result" where
  "list_entries f i [] = Inr []"
| "list_entries f i ((name, ent) # es) =
    (case sf_ctx f i of Some e \<Rightarrow> Inl e
     | None \<Rightarrow>
       (case ent of
          Dir \<Rightarrow> list_entries f (Suc i) es
        | File c \<Rightarrow>
          if \<not> isOK (parseDigest (sha_name name)) then list_entries f (Suc i) es
          else (case sf_size f of Some e \<Rightarrow> Inl (wrapf ''stat blob: %w'' e)
            | None \<Rightarrow>
              (case list_entries f (Suc i) es of Inl e \<Rightarrow> Inl e
               | Inr ds \<Rightarrow> Inr (\<lparr>d_Digest = sha_name name, d_Size = int (length c)\<rparr> # ds)))))"

definition ListBlobs :: "StoreFaults \<Rightarrow> FileStore \<Rightarrow> Descriptor list result" where
  "ListBlobs f fs =
    (case sf_ctx f 0 of Some e \<Rightarrow> Inl e
     | None \<Rightarrow>
       (case sf_open f of Some e \<Rightarrow> Inl (wrapf ''list blobs: %w'' e)
        | None \<Rightarrow>
          (case list_entries f 1 (sort_key fst fs) of Inl e \<Rightarrow> Inl e
           | Inr ds \<Rightarrow> Inr (sort_key d_Digest ds))))"

section \<open>Digests and copying\<close>

lemma parseDigest_sha:
  "parseDigest (sha_name encoded)
     = (if length encoded = 64 \<and> list_all is_hex encoded then Inr (''sha256'', encoded)
        else Inl (GoErr (sha_name encoded) [ErrUnsupportedDigest]))"
  by (auto simp: parseDigest_def Cut_def sha_name_def)

lemma sha_name_inj [simp]: "sha_name a = sha_name b \<longleftrightarrow> a = b"
  by (simp add: sha_name_def)

lemma parseDigest_Inr:
  "parseDigest digest = Inr (algorithm, encoded) \<longleftrightarrow>
     digest = sha_name encoded \<and> algorithm = ''sha256'' \<and> length encoded = 64
     \<and> list_all is_hex encoded"
proof
  assume "parseDigest digest = Inr (algorithm, encoded)"
  then show "digest = sha_name encoded \<and> algorithm = ''sha256'' \<and> length encoded = 64
     \<and> list_all is_hex encoded"
    by (auto simp: parseDigest_def Cut_eq sha_name_def split: option.splits if_splits)
next
  assume "digest = sha_name encoded \<and> algorithm = ''sha256'' \<and> length encoded = 64
     \<and> list_all is_hex encoded"
  then show "parseDigest digest = Inr (algorithm, encoded)"
    using parseDigest_sha [of encoded] by simp
qed

lemma parseDigest_Inl: "parseDigest digest = Inl e \<Longrightarrow> err_wraps e = [ErrUnsupportedDigest]"
  by (auto simp: parseDigest_def split: option.splits if_splits)

lemma write_step_ok: "write_step wr d = (w, None) \<Longrightarrow> w = d"
  by (auto simp: write_step_def split: if_splits option.splits)

lemma copyWithContext_ok: "copyWithContext cx wr i rs = (w, h, None) \<Longrightarrow> w = h"
proof (induction rs arbitrary: i w h)
  case (Cons dr rs)
  obtain d er where dr: "dr = (d, er)" by force
  obtain x e where x: "write_step (wr i) d = (x, e)" by force
  obtain w' h' e' where r: "copyWithContext cx wr (Suc i) rs = (w', h', e')" by (metis prod_cases3)
  from Cons.prems dr x r show ?case
    by (cases e; cases er) (auto split: option.splits readerr.splits dest: Cons.IH write_step_ok)
qed simp

lemma temp_not_digest: "\<not> list_all is_hex (temp_name f)"
  by (simp add: temp_name_def is_hex_def)

section \<open>Integrity\<close>

definition intact :: "(string \<Rightarrow> string) \<Rightarrow> FileStore \<Rightarrow> bool" where
  "intact H fs \<longleftrightarrow> (\<forall>k c. map_of fs k = Some (File c) \<longrightarrow> isOK (parseDigest (sha_name k))
     \<longrightarrow> digest_of H c = sha_name k)"

lemmas store_splits = sum.splits option.splits prod.splits if_splits bool.splits

text \<open>A put leaves every name but the temporary one as it was, or it adds exactly one blob
  whose hash is the digest asked for.\<close>

lemma PutBlob_temp_cases:
  assumes "PutBlob_temp H f fs digest encoded content = (res, fs')"
  shows "(\<forall>k. k \<noteq> temp_name f \<longrightarrow> map_of fs' k = map_of fs k)
       \<and> (isOK res \<longrightarrow> map_of fs encoded \<noteq> None \<or> encoded = temp_name f)
    \<or> (\<exists>c. digest_of H c = digest \<and> res = Inr \<lparr>d_Digest = digest, d_Size = int (length c)\<rparr>
         \<and> (\<forall>k. k \<noteq> temp_name f \<longrightarrow> map_of fs' k = ((map_of fs)(encoded \<mapsto> File c)) k))"
  using assms
  by (auto simp: PutBlob_temp_def Let_def AList.update_conv' AList.delete_conv'
        dest!: copyWithContext_ok split: store_splits)

lemma PutBlob_cases:
  assumes "PutBlob H f fs digest content = (res, fs')"
  obtains
    (unchanged) "\<forall>k. k \<noteq> temp_name f \<longrightarrow> map_of fs' k = map_of fs k"
      "isOK res \<Longrightarrow> \<exists>encoded ent. parseDigest digest = Inr (''sha256'', encoded) \<and> map_of fs encoded = Some ent"
  | (added) encoded c where "parseDigest digest = Inr (''sha256'', encoded)" "map_of fs encoded = None"
      "digest_of H c = digest" "res = Inr \<lparr>d_Digest = digest, d_Size = int (length c)\<rparr>"
      "\<forall>k. k \<noteq> temp_name f \<longrightarrow> map_of fs' k = ((map_of fs)(encoded \<mapsto> File c)) k"
proof (cases "parseDigest digest")
  case (Inl e)
  with assms show thesis by (intro unchanged) (auto simp: PutBlob_def split: store_splits)
next
  case (Inr p)
  obtain encoded where p: "parseDigest digest = Inr (''sha256'', encoded)"
    using Inr parseDigest_Inr by (cases p) fastforce
  have nt: "encoded \<noteq> temp_name f" using p temp_not_digest parseDigest_Inr by metis
  show thesis
  proof (cases "map_of fs encoded")
    case (Some ent)
    with assms p show thesis
      by (intro unchanged) (auto simp: PutBlob_def fileExists_def split: store_splits)
  next
    case None
    show thesis
    proof (cases "sf_ctx f 0 = None \<and> sf_stat f = None \<and> sf_create f = None")
      case True
      with assms p None have "PutBlob_temp H f fs digest encoded content = (res, fs')"
        by (simp add: PutBlob_def fileExists_def)
      from PutBlob_temp_cases [OF this] nt None p added unchanged show thesis by auto
    next
      case False
      with assms p None show thesis
        by (intro unchanged) (auto simp: PutBlob_def fileExists_def split: store_splits)
    qed
  qed
qed

lemma PutBlob_intact:
  assumes "intact H fs" "PutBlob H f fs digest content = (res, fs')"
  shows "intact H fs'"
  unfolding intact_def
proof (intro allI impI)
  fix k c
  assume k: "map_of fs' k = Some (File c)" and d: "isOK (parseDigest (sha_name k))"
  then have "k \<noteq> temp_name f" using temp_not_digest [of f] by (auto simp: parseDigest_sha split: if_splits)
  with assms(2) show "digest_of H c = sha_name k"
  proof (cases rule: PutBlob_cases)
    case unchanged
    with \<open>k \<noteq> temp_name f\<close> k d assms(1) show ?thesis by (auto simp: intact_def)
  next
    case (added encoded c')
    with \<open>k \<noteq> temp_name f\<close> k d assms(1) show ?thesis
      by (auto simp: intact_def parseDigest_Inr split: if_splits)
  qed
qed

lemma PutBlob_present:
  assumes "PutBlob H f fs digest content = (Inr desc, fs')"
  shows "\<exists>encoded ent. parseDigest digest = Inr (''sha256'', encoded) \<and> map_of fs' encoded = Some ent"
  using assms
proof (cases rule: PutBlob_cases)
  case unchanged
  then obtain encoded ent where p: "parseDigest digest = Inr (''sha256'', encoded)"
    and m: "map_of fs encoded = Some ent" by auto
  then have "encoded \<noteq> temp_name f" using temp_not_digest parseDigest_Inr by metis
  with p m unchanged(1) show ?thesis by auto
next
  case (added encoded c)
  then have "encoded \<noteq> temp_name f" using temp_not_digest parseDigest_Inr by metis
  with added show ?thesis by auto
qed

text \<open>Other digests keep their blobs.\<close>

lemma PutBlob_keeps:
  assumes "PutBlob H f fs digest content = (res, fs')" "parseDigest d = Inr (a, k)" "map_of fs k = Some ent"
  shows "map_of fs' k = Some ent"
proof -
  have "k \<noteq> temp_name f" using assms(2) temp_not_digest parseDigest_Inr by metis
  from assms(1) show ?thesis
    by (cases rule: PutBlob_cases) (use \<open>k \<noteq> temp_name f\<close> assms(3) in auto)
qed

section \<open>Listing\<close>

lemma list_entries_no_faults:
  "sf_ctx f = (\<lambda>_. None) \<Longrightarrow> sf_size f = None \<Longrightarrow>
   list_entries f i es = Inr (map (\<lambda>(k, ent). \<lparr>d_Digest = sha_name k, d_Size = entry_size ent\<rparr>)
     (filter (\<lambda>(k, ent). ent \<noteq> Dir \<and> isOK (parseDigest (sha_name k))) es))"
  by (induction f i es rule: list_entries.induct) (auto split: entry.splits)

lemma ListBlobs_no_faults:
  "ListBlobs no_faults fs =
    Inr (sort_key d_Digest (map (\<lambda>(k, ent). \<lparr>d_Digest = sha_name k, d_Size = entry_size ent\<rparr>)
      (filter (\<lambda>(k, ent). ent \<noteq> Dir \<and> isOK (parseDigest (sha_name k))) (sort_key fst fs))))"
  by (simp add: ListBlobs_def list_entries_no_faults) (simp add: no_faults_def list_entries_no_faults)

section \<open>The Store interface\<close>

text \<open>
  The interface the gateway and the resolvers hold (content.Store), as a record of the
  operations over a store state, and the laws a client relies on.
\<close>

record 's Store =
  st_PutBlob :: "'s \<Rightarrow> string \<Rightarrow> Reader \<Rightarrow> Descriptor result \<times> 's"
  st_OpenBlob :: "'s \<Rightarrow> string \<Rightarrow> Reader result \<times> 's"
  st_HasBlob :: "'s \<Rightarrow> string \<Rightarrow> bool result \<times> 's"
  st_ListBlobs :: "'s \<Rightarrow> Descriptor list result \<times> 's"

locale blob_store =
  fixes S :: "'s Store"
    and H :: "string \<Rightarrow> string"
    and inv :: "'s \<Rightarrow> bool"
    and stored :: "'s \<Rightarrow> string \<Rightarrow> bool"
  assumes put_inv: "inv s \<Longrightarrow> st_PutBlob S s d r = (res, s') \<Longrightarrow> inv s'"
    and put_stored: "st_PutBlob S s d r = (Inr desc, s') \<Longrightarrow> stored s' d"
    and put_keeps: "st_PutBlob S s d r = (res, s') \<Longrightarrow> stored s d' \<Longrightarrow> stored s' d'"
    and open_intact: "inv s \<Longrightarrow> st_OpenBlob S s d = (Inr r, s') \<Longrightarrow> ReadAll r = Inr c \<Longrightarrow> digest_of H c = d"
    and open_stored: "st_OpenBlob S s d = (Inr r, s') \<Longrightarrow> stored s d"
    and open_keeps: "st_OpenBlob S s d = (ores, s') \<Longrightarrow> (inv s' \<longleftrightarrow> inv s) \<and> stored s' = stored s"
    and list_keeps: "st_ListBlobs S s = (lres, s') \<Longrightarrow> (inv s' \<longleftrightarrow> inv s) \<and> stored s' = stored s"
begin

text \<open>Storing a list of blobs one after the other, as a client that stops at the first error.\<close>

fun put_all :: "'s \<Rightarrow> (string \<times> Reader) list \<Rightarrow> unit result \<times> 's" where
  "put_all s [] = (Inr (), s)"
| "put_all s ((d, r) # ps) =
     (case st_PutBlob S s d r of (Inl e, s') \<Rightarrow> (Inl e, s') | (Inr _, s') \<Rightarrow> put_all s' ps)"

lemma put_all_inv: "inv s \<Longrightarrow> put_all s ps = (res, s') \<Longrightarrow> inv s'"
  by (induction s ps rule: put_all.induct) (auto split: prod.splits sum.splits dest: put_inv)

lemma put_all_keeps: "put_all s ps = (res, s') \<Longrightarrow> stored s d \<Longrightarrow> stored s' d"
  by (induction s ps rule: put_all.induct) (auto split: prod.splits sum.splits dest: put_keeps)

lemma put_all_stored: "put_all s ps = (Inr u, s') \<Longrightarrow> p \<in> set ps \<Longrightarrow> stored s' (fst p)"
  by (induction s ps rule: put_all.induct)
     (auto split: prod.splits sum.splits dest: put_stored put_all_keeps)

end

text \<open>
  The file store as an implementation of the interface. Its state carries a counter, and
  the n-th put meets the n-th faults of an arbitrary sequence.
\<close>

type_synonym StoreState = "FileStore \<times> nat"

text \<open>Reading an opened entry: a directory cannot be read.\<close>

fun entry_reader :: "goerr option \<Rightarrow> entry \<Rightarrow> Reader" where
  "entry_reader (Some e) ent = [([], Some (ReadErr e))]"
| "entry_reader None (File c) = bytes_NewReader c"
| "entry_reader None Dir = [([], Some (ReadErr (GoErr ''is a directory'' [ErrIO])))]"

definition FileStore_ops :: "(string \<Rightarrow> string) \<Rightarrow> (nat \<Rightarrow> StoreFaults) \<Rightarrow> StoreState Store" where
  "FileStore_ops H F = \<lparr>
     st_PutBlob = (\<lambda>(fs, n) d r. case PutBlob H (F n) fs d r of (res, fs') \<Rightarrow> (res, (fs', Suc n))),
     st_OpenBlob = (\<lambda>(fs, n) d. (case OpenBlob (F n) fs d of Inl e \<Rightarrow> Inl e
                      | Inr ent \<Rightarrow> Inr (entry_reader (sf_read (F n)) ent), (fs, Suc n))),
     st_HasBlob = (\<lambda>(fs, n) d. (HasBlob (F n) fs d, (fs, Suc n))),
     st_ListBlobs = (\<lambda>(fs, n). (ListBlobs (F n) fs, (fs, Suc n)))\<rparr>"

definition blob_stored :: "StoreState \<Rightarrow> string \<Rightarrow> bool" where
  "blob_stored s d \<longleftrightarrow> (\<exists>a k ent. parseDigest d = Inr (a, k) \<and> map_of (fst s) k = Some ent)"

lemma OpenBlob_Inr:
  "OpenBlob f fs d = Inr ent \<Longrightarrow> \<exists>k. parseDigest d = Inr (''sha256'', k) \<and> map_of fs k = Some ent"
  by (auto simp: OpenBlob_def split: store_splits) (metis parseDigest_Inr)

lemma ReadAll_entry: "ReadAll (entry_reader f ent) = Inr c \<Longrightarrow> ent = File c"
  by (cases f; cases ent) (auto simp: bytes_NewReader_def)

interpretation fstore: blob_store "FileStore_ops H F" H "\<lambda>s. intact H (fst s)" blob_stored for H F
proof
  fix s d r res s'
  assume "intact H (fst s)" "st_PutBlob (FileStore_ops H F) s d r = (res, s')"
  then show "intact H (fst s')"
    by (auto simp: FileStore_ops_def split: prod.splits dest: PutBlob_intact)
next
  fix s d r desc s'
  assume "st_PutBlob (FileStore_ops H F) s d r = (Inr desc, s')"
  then show "blob_stored s' d"
    by (auto simp: FileStore_ops_def blob_stored_def split: prod.splits dest: PutBlob_present)
next
  fix s d r res s' d'
  assume "st_PutBlob (FileStore_ops H F) s d r = (res, s')" "blob_stored s d'"
  then show "blob_stored s' d'"
    by (auto simp: FileStore_ops_def blob_stored_def split: prod.splits) (metis PutBlob_keeps)
next
  fix s d r s' c
  assume "intact H (fst s)" "st_OpenBlob (FileStore_ops H F) s d = (Inr r, s')" "ReadAll r = Inr c"
  then show "digest_of H c = d"
    by (cases s) (auto simp: FileStore_ops_def intact_def parseDigest_Inr parseDigest_sha
        dest!: OpenBlob_Inr ReadAll_entry split: sum.splits)
next
  fix s d r s'
  assume "st_OpenBlob (FileStore_ops H F) s d = (Inr r, s')"
  then show "blob_stored s d"
    by (cases s) (auto simp: FileStore_ops_def blob_stored_def split: sum.splits dest!: OpenBlob_Inr)
next
  fix s d res s'
  assume "st_OpenBlob (FileStore_ops H F) s d = (res, s')"
  then show "(intact H (fst s') \<longleftrightarrow> intact H (fst s)) \<and> blob_stored s' = blob_stored s"
    by (cases s) (auto simp: FileStore_ops_def blob_stored_def fun_eq_iff)
next
  fix s res s'
  assume "st_ListBlobs (FileStore_ops H F) s = (res, s')"
  then show "(intact H (fst s') \<longleftrightarrow> intact H (fst s)) \<and> blob_stored s' = blob_stored s"
    by (cases s) (auto simp: FileStore_ops_def blob_stored_def fun_eq_iff)
qed

end
