(* ===== verification/Content_Store_Properties.thy ===== *)
theory Content_Store_Properties
  imports Content_Store
begin

text \<open>
  Properties of the content store under arbitrary input/output failures: a put is atomic and
  keeps the store intact, what was put can be opened and hashes to its digest, a clean put of
  matching content succeeds, and the listing is sorted and exact.
\<close>

definition example_hash :: "string \<Rightarrow> string" where
  "example_hash c = replicate 64 (if c = ''hello'' then CHR ''a'' else CHR ''0'')"

lemma example_hash_ok: "sha256_hex example_hash"
  by (simp add: sha256_hex_def example_hash_def is_hex_def list_all_iff)

lemma intact_empty: "intact H []"
  by (simp add: intact_def)

text \<open>
  C8: whatever system call fails, wherever the context is cancelled and
  whatever the reader delivers, PutBlob keeps every stored blob equal to its digest's
  content; it either changes no name (the temporary one apart) or succeeds and adds exactly
  the blob asked for, complete and with the right hash.
\<close>

theorem put_blob_atomic:
  assumes "intact H fs" and "PutBlob H f fs digest content = (res, fs')"
  shows "intact H fs'
    \<and> ((\<forall>k. k \<noteq> temp_name f \<longrightarrow> map_of fs' k = map_of fs k)
       \<or> (\<exists>encoded c. digest = sha_name encoded \<and> digest_of H c = digest
            \<and> res = Inr \<lparr>d_Digest = digest, d_Size = int (length c)\<rparr>
            \<and> (\<forall>k. k \<noteq> temp_name f \<longrightarrow> map_of fs' k = ((map_of fs)(encoded \<mapsto> File c)) k)))"
  using assms(2)
proof (cases rule: PutBlob_cases)
  case unchanged
  with PutBlob_intact [OF assms] show ?thesis by blast
next
  case (added encoded c)
  with PutBlob_intact [OF assms] show ?thesis by (auto simp: parseDigest_Inr)
qed

theorem put_blob_atomic_witness:
  "intact example_hash (snd (PutBlob example_hash
     (no_faults\<lparr>sf_rename := Some (errorf ''disk'')\<rparr>) [] ''sha256:x'' (bytes_NewReader ''hello'')))"
  using put_blob_atomic [OF intact_empty surjective_pairing,
      of example_hash "no_faults\<lparr>sf_rename := Some (errorf ''disk'')\<rparr>" "''sha256:x''" "bytes_NewReader ''hello''"]
  by blast

text \<open>
  After a successful PutBlob on an intact store, OpenBlob of that digest
  finds a file, and the content of the file hashes to the digest.
\<close>

theorem put_then_open:
  assumes "intact H fs" and "PutBlob H f fs digest content = (Inr desc, fs')"
  shows "\<exists>ent. OpenBlob no_faults fs' digest = Inr ent
    \<and> (\<forall>c. ent = File c \<longrightarrow> digest_of H c = digest)"
proof -
  from PutBlob_present [OF assms(2)] obtain encoded ent
    where p: "parseDigest digest = Inr (''sha256'', encoded)" and m: "map_of fs' encoded = Some ent"
    by blast
  then have "OpenBlob no_faults fs' digest = Inr ent" by (simp add: OpenBlob_def no_faults_def)
  moreover have "digest_of H c = digest" if "ent = File c" for c
    using PutBlob_intact [OF assms] m p that by (auto simp: intact_def parseDigest_Inr parseDigest_sha)
  ultimately show ?thesis by blast
qed



theorem put_then_open_witness:
  "\<exists>fs' ent. OpenBlob no_faults fs' (digest_of example_hash ''hello'') = Inr ent"
proof -
  have "copyWithContext (\<lambda>_. None) (\<lambda>_. None) 0 [(''hello'', None)] = (''hello'', ''hello'', None)"
    by (simp add: write_step_def)
  then have "\<exists>desc fs'. PutBlob example_hash no_faults [] (digest_of example_hash ''hello'')
      (bytes_NewReader ''hello'') = (Inr desc, fs')"
    using example_hash_ok
    by (simp add: PutBlob_def PutBlob_temp_def no_faults_def fileExists_def bytes_NewReader_def
        Let_def comp_def digest_of_def parseDigest_sha sha256_hex_def)
  then show ?thesis using put_then_open [OF intact_empty] by blast
qed

text \<open>
  The listing is sorted by digest and lists exactly the files whose names
  are SHA-256 digests, each with its length; directories and temporary files are left out.
\<close>

theorem list_blobs_exact:
  assumes "distinct (map fst fs)"
  shows "\<exists>ds. ListBlobs no_faults fs = Inr ds \<and> sorted (map d_Digest ds)
    \<and> (\<forall>d. d \<in> set ds \<longleftrightarrow> (\<exists>k c. map_of fs k = Some (File c) \<and> isOK (parseDigest (sha_name k))
          \<and> d = \<lparr>d_Digest = sha_name k, d_Size = int (length c)\<rparr>))"
proof -
  let ?g = "\<lambda>(k, ent). \<lparr>d_Digest = sha_name k, d_Size = entry_size ent\<rparr>"
  let ?P = "\<lambda>(k, ent). ent \<noteq> Dir \<and> isOK (parseDigest (sha_name k))"
  have "d \<in> ?g ` {x \<in> set fs. ?P x} \<longleftrightarrow>
      (\<exists>k c. map_of fs k = Some (File c) \<and> isOK (parseDigest (sha_name k))
        \<and> d = \<lparr>d_Digest = sha_name k, d_Size = int (length c)\<rparr>)" (is "?l \<longleftrightarrow> ?r") for d
  proof
    assume ?l
    then obtain k ent where e: "(k, ent) \<in> set fs" "?P (k, ent)" "d = ?g (k, ent)" by auto
    then obtain c where "ent = File c" by (cases ent) auto
    with e assms show ?r by auto
  next
    assume ?r
    then obtain k c where "map_of fs k = Some (File c)" "isOK (parseDigest (sha_name k))"
      "d = \<lparr>d_Digest = sha_name k, d_Size = int (length c)\<rparr>" by blast
    then show ?l by (intro image_eqI [of _ _ "(k, File c)"]) (auto dest: map_of_SomeD)
  qed
  then show ?thesis
    unfolding ListBlobs_no_faults by simp
qed

theorem list_blobs_exact_witness:
  "\<exists>ds. ListBlobs no_faults [(replicate 64 CHR ''b'', File ''xy''), (''.upload-1'', File ''x'')] = Inr ds
     \<and> sorted (map d_Digest ds)"
  using list_blobs_exact [of "[(replicate 64 CHR ''b'', File ''xy''), (''.upload-1'', File ''x'')]"]
  by (auto simp: numeral_eq_Suc)

end
