(* ===== verification/Policy_Config.thy ===== *)
theory Policy_Config
  imports Policy
begin

text \<open>
  The policy file (internal/config/config.go): its types, the validation of sources, their
  endpoints, authentication strategies and user credential settings, and the translation to
  a policy.Config that the engine accepts. url.Parse and the YAML decoder are parameters.
\<close>

section \<open>Types\<close>

text \<open>The fields of url.URL that the program reads; u_User is true when User is not nil.\<close>

record URL =
  u_Scheme :: string
  u_Host :: string
  u_User :: bool
  u_RawQuery :: string
  u_Fragment :: string
  u_Path :: string

record UserCredentials =
  uc_Pull :: bool
  uc_Push :: bool
  VerificationRepository :: string
  Guidance :: string
  AllowInsecure :: bool

record Auth =
  Strategy :: string
  TokenHosts :: "string list"

record ConfigSource =
  cs_ID :: string
  cs_Name :: string
  cs_Endpoint :: string
  cs_Type :: string
  cs_Enabled :: bool
  cs_Auth :: Auth
  cs_UserCredentials :: UserCredentials

record Pull =
  pull_Sources :: "string list"
  pull_Authoritative :: string
  pull_ExternalFallback :: bool

record Push =
  push_Destination :: string
  push_Deny :: bool

record ConfigRewrite =
  cr_StripPrefix :: string
  cr_AddPrefix :: string

record ConfigRoute =
  cr_Name :: string
  cr_Match :: string
  cr_Precedence :: int
  cr_Pull :: Pull
  cr_Push :: Push
  cr_Rewrite :: ConfigRewrite

record Config =
  cfg_Version :: int
  cfg_Sources :: "ConfigSource list"
  cfg_Routes :: "ConfigRoute list"

definition AuthStrategyChallenge :: string where "AuthStrategyChallenge = ''challenge''"
definition AuthStrategyProxy :: string where "AuthStrategyProxy = ''proxy''"
definition AuthStrategyCurrentUserRequired :: string where
  "AuthStrategyCurrentUserRequired = ''current_user_required''"

section \<open>Validation of a source\<close>

definition validateSourceEndpoint :: "(string \<Rightarrow> URL result) \<Rightarrow> ConfigSource \<Rightarrow> URL result" where
  "validateSourceEndpoint urlParse source =
    (case urlParse (cs_Endpoint source) of
       Inl _ \<Rightarrow> Inl (errorf ''source endpoint must be an absolute HTTP or HTTPS URL'')
     | Inr endpoint \<Rightarrow>
       if u_Host endpoint = [] \<or> u_Scheme endpoint \<noteq> ''http'' \<and> u_Scheme endpoint \<noteq> ''https''
       then Inl (errorf ''source endpoint must be an absolute HTTP or HTTPS URL'')
       else if u_User endpoint \<or> u_RawQuery endpoint \<noteq> [] \<or> u_Fragment endpoint \<noteq> []
       then Inl (errorf ''source endpoint cannot contain user info, query, or fragment'')
       else Inr endpoint)"

definition credentialConfigured :: "UserCredentials \<Rightarrow> bool" where
  "credentialConfigured p \<longleftrightarrow> uc_Pull p \<or> uc_Push p \<or> VerificationRepository p \<noteq> []
     \<or> Guidance p \<noteq> [] \<or> AllowInsecure p"

definition bad_verification_repository :: "string \<Rightarrow> bool" where
  "bad_verification_repository r \<longleftrightarrow> r \<noteq> [] \<and>
     (r \<noteq> TrimSpace r \<or> ContainsAny r ('' :@'' @ [CHR 0x09, CHR 0x0D, CHR 0x0A])
      \<or> HasPrefix r ''/'' \<or> HasSuffix r ''/'' \<or> Contains r ''..'')"

definition validateUserCredentials :: "ConfigSource \<Rightarrow> URL \<Rightarrow> unit result" where
  "validateUserCredentials source endpoint =
    (let p = cs_UserCredentials source in
     first_error
       [(bad_verification_repository (VerificationRepository p),
           errorf ''source has invalid verification_repository''),
        (credentialConfigured p \<and> u_Scheme endpoint \<noteq> ''https'' \<and> \<not> AllowInsecure p,
           errorf ''source requires HTTPS or explicit allow_insecure'')])"

definition bad_token_host :: "string \<Rightarrow> bool" where
  "bad_token_host host \<longleftrightarrow> host = [] \<or> host \<noteq> TrimSpace host
     \<or> ContainsAny host (''/?#@ '' @ [CHR 0x09, CHR 0x0D, CHR 0x0A])"

fun validateTokenHosts :: "unicode \<Rightarrow> string list \<Rightarrow> string list \<Rightarrow> unit result" where
  "validateTokenHosts U seen [] = Inr ()"
| "validateTokenHosts U seen (host # hosts) =
     (if bad_token_host host then Inl (errorf ''source has invalid auth token host'')
      else if ToLower U host \<in> set seen then Inl (errorf ''source has duplicate auth token host'')
      else validateTokenHosts U (ToLower U host # seen) hosts)"

definition validateSourceAuth :: "unicode \<Rightarrow> ConfigSource \<Rightarrow> unit result" where
  "validateSourceAuth U source =
    (let strategy = (if Strategy (cs_Auth source) = [] then AuthStrategyChallenge
                     else Strategy (cs_Auth source))
     in if strategy \<noteq> AuthStrategyChallenge \<and> strategy \<noteq> AuthStrategyProxy
           \<and> strategy \<noteq> AuthStrategyCurrentUserRequired
        then Inl (errorf ''source has unsupported auth strategy'')
        else validateTokenHosts U [] (TokenHosts (cs_Auth source)))"

section \<open>Validation of the file and translation\<close>

definition validateConfigSource ::
  "unicode \<Rightarrow> (string \<Rightarrow> URL result) \<Rightarrow> string list \<Rightarrow> ConfigSource \<Rightarrow> unit result" where
  "validateConfigSource U urlParse sourceIDs source =
    (if cs_ID source = [] then Inl (errorf ''source has no id'')
     else if cs_ID source \<in> set sourceIDs then Inl (errorf ''duplicate source id'')
     else if cs_Endpoint source = [] then Inl (errorf ''source has no endpoint'')
     else (case validateSourceEndpoint urlParse source of Inl e \<Rightarrow> Inl e
       | Inr endpoint \<Rightarrow>
         (case validateSourceAuth U source of Inl e \<Rightarrow> Inl e
          | Inr _ \<Rightarrow> validateUserCredentials source endpoint)))"

fun validateConfigSources ::
  "unicode \<Rightarrow> (string \<Rightarrow> URL result) \<Rightarrow> string list \<Rightarrow> ConfigSource list \<Rightarrow> unit result" where
  "validateConfigSources U urlParse sourceIDs [] = Inr ()"
| "validateConfigSources U urlParse sourceIDs (source # ss) =
     (case validateConfigSource U urlParse sourceIDs source of Inl e \<Rightarrow> Inl e
      | Inr _ \<Rightarrow> validateConfigSources U urlParse (cs_ID source # sourceIDs) ss)"

definition validateConfig :: "unicode \<Rightarrow> (string \<Rightarrow> URL result) \<Rightarrow> Config \<Rightarrow> unit result" where
  "validateConfig U urlParse c =
    (if cfg_Version c \<noteq> 1 then Inl (errorf ''unsupported config version'')
     else validateConfigSources U urlParse [] (cfg_Sources c))"

definition policy_route :: "ConfigRoute \<Rightarrow> Route" where
  "policy_route r =
    \<lparr>rt_Name = cr_Name r, rt_Match = cr_Match r, Precedence = cr_Precedence r,
     PullSources = pull_Sources (cr_Pull r), Authoritative = pull_Authoritative (cr_Pull r),
     ExternalFallback = pull_ExternalFallback (cr_Pull r),
     PushDestination = push_Destination (cr_Push r), PushDenied = push_Deny (cr_Push r),
     rt_Rewrite = \<lparr>StripPrefix = cr_StripPrefix (cr_Rewrite r),
                   AddPrefix = cr_AddPrefix (cr_Rewrite r)\<rparr>\<rparr>"

definition policy_config :: "Config \<Rightarrow> PolicyConfig" where
  "policy_config c =
    \<lparr>pc_Sources = map (\<lambda>s. \<lparr>src_ID = cs_ID s\<rparr>) (cfg_Sources c),
     pc_Routes = map policy_route (cfg_Routes c)\<rparr>"

definition Config_PolicyConfig ::
  "unicode \<Rightarrow> (string \<Rightarrow> URL result) \<Rightarrow> Config \<Rightarrow> PolicyConfig result" where
  "Config_PolicyConfig U urlParse c =
    (case validateConfig U urlParse c of Inl e \<Rightarrow> Inl e
     | Inr _ \<Rightarrow> (case NewEngine U (policy_config c) of Inl e \<Rightarrow> Inl e
        | Inr _ \<Rightarrow> Inr (policy_config c)))"

text \<open>filepath.Ext: the suffix from the last dot of the last path element.\<close>

definition Ext :: "string \<Rightarrow> string" where
  "Ext path =
    (let base = takeWhile (\<lambda>c. c \<noteq> CHR ''/'') (rev path);
         e = takeWhile (\<lambda>c. c \<noteq> CHR ''.'') base
     in if CHR ''.'' \<in> set base then CHR ''.'' # rev e else [])"

text \<open>Opening the file and decoding its YAML (with unknown fields refused) are arguments.\<close>

definition LoadFile :: "(string \<Rightarrow> string result) \<Rightarrow> (string \<Rightarrow> Config result) \<Rightarrow> string \<Rightarrow> Config result" where
  "LoadFile osOpen decode path =
    (if Ext path \<noteq> ''.yaml'' \<and> Ext path \<noteq> ''.yml'' then Inl (errorf ''unsupported config file extension'')
     else (case osOpen path of Inl e \<Rightarrow> Inl (wrapf ''open config file: %w'' e)
       | Inr file \<Rightarrow> (case decode file of Inl e \<Rightarrow> Inl (wrapf ''decode config file: %w'' e)
          | Inr cfg \<Rightarrow> Inr cfg)))"

section \<open>What a valid source is\<close>

definition good_source :: "unicode \<Rightarrow> (string \<Rightarrow> URL result) \<Rightarrow> ConfigSource \<Rightarrow> bool" where
  "good_source U urlParse s \<longleftrightarrow> cs_ID s \<noteq> [] \<and> cs_Endpoint s \<noteq> []
     \<and> (\<exists>u. urlParse (cs_Endpoint s) = Inr u \<and> u_Host u \<noteq> [] \<and> u_Scheme u \<in> {''http'', ''https''}
            \<and> \<not> u_User u \<and> u_RawQuery u = [] \<and> u_Fragment u = []
            \<and> (u_Scheme u = ''http'' \<longrightarrow> credentialConfigured (cs_UserCredentials s)
                 \<longrightarrow> AllowInsecure (cs_UserCredentials s)))
     \<and> Strategy (cs_Auth s) \<in> {[], AuthStrategyChallenge, AuthStrategyProxy, AuthStrategyCurrentUserRequired}
     \<and> (\<forall>h \<in> set (TokenHosts (cs_Auth s)). \<not> bad_token_host h)
     \<and> distinct (map (ToLower U) (TokenHosts (cs_Auth s)))
     \<and> \<not> bad_verification_repository (VerificationRepository (cs_UserCredentials s))"

lemma validateTokenHosts_iff:
  "isOK (validateTokenHosts U seen hs) \<longleftrightarrow> (\<forall>h \<in> set hs. \<not> bad_token_host h)
     \<and> distinct (map (ToLower U) hs) \<and> set seen \<inter> ToLower U ` set hs = {}"
  by (induction U seen hs rule: validateTokenHosts.induct) auto

lemma validateSourceAuth_iff:
  "isOK (validateSourceAuth U s) \<longleftrightarrow>
     Strategy (cs_Auth s) \<in> {[], AuthStrategyChallenge, AuthStrategyProxy, AuthStrategyCurrentUserRequired}
     \<and> (\<forall>h \<in> set (TokenHosts (cs_Auth s)). \<not> bad_token_host h)
     \<and> distinct (map (ToLower U) (TokenHosts (cs_Auth s)))"
  by (auto simp: validateSourceAuth_def Let_def validateTokenHosts_iff)

lemma validateSourceEndpoint_Inr:
  "validateSourceEndpoint urlParse s = Inr u \<longleftrightarrow> urlParse (cs_Endpoint s) = Inr u \<and> u_Host u \<noteq> []
     \<and> u_Scheme u \<in> {''http'', ''https''} \<and> \<not> u_User u \<and> u_RawQuery u = [] \<and> u_Fragment u = []"
  by (auto simp: validateSourceEndpoint_def split: sum.splits)

lemma validateUserCredentials_iff:
  "isOK (validateUserCredentials s u) \<longleftrightarrow>
     \<not> bad_verification_repository (VerificationRepository (cs_UserCredentials s))
     \<and> (credentialConfigured (cs_UserCredentials s) \<longrightarrow> u_Scheme u = ''https'' \<or> AllowInsecure (cs_UserCredentials s))"
  by (auto simp: validateUserCredentials_def Let_def)

lemma validateConfigSource_iff:
  "isOK (validateConfigSource U urlParse ids s) \<longleftrightarrow> good_source U urlParse s \<and> cs_ID s \<notin> set ids"
  unfolding validateConfigSource_def isOK_if isOK_seq isOK_bind good_source_def
    validateSourceEndpoint_Inr validateSourceAuth_iff validateUserCredentials_iff
  by auto

lemma validateConfigSources_iff:
  "isOK (validateConfigSources U urlParse ids ss) \<longleftrightarrow> (\<forall>s \<in> set ss. good_source U urlParse s)
     \<and> distinct (map cs_ID ss) \<and> set ids \<inter> cs_ID ` set ss = {}"
proof (induction ss arbitrary: ids)
  case (Cons s ss)
  have "isOK (validateConfigSources U urlParse ids (s # ss)) \<longleftrightarrow>
      isOK (validateConfigSource U urlParse ids s) \<and> isOK (validateConfigSources U urlParse (cs_ID s # ids) ss)"
    by (auto split: sum.split)
  then show ?case by (auto simp: validateConfigSource_iff Cons)
qed simp

end
