(* ===== verification/Policy_Config_Properties.thy ===== *)
theory Policy_Config_Properties
  imports Policy_Config
begin

text \<open>
  Properties of the policy file: exactly which files are accepted, and what the engine gets
  from an accepted one.
\<close>

definition example_url :: "string \<Rightarrow> URL result" where
  "example_url s = (if HasPrefix s ''https://'' then
      Inr \<lparr>u_Scheme = ''https'', u_Host = drop 8 s, u_User = False, u_RawQuery = [], u_Fragment = [], u_Path = []\<rparr>
    else Inl (errorf ''parse''))"

definition example_source :: ConfigSource where
  "example_source = \<lparr>cs_ID = ''hub'', cs_Name = ''Hub'', cs_Endpoint = ''https://hub.example'', cs_Type = ''oci'',
     cs_Enabled = True, cs_Auth = \<lparr>Strategy = ''proxy'', TokenHosts = [''auth.example'']\<rparr>,
     cs_UserCredentials = \<lparr>uc_Pull = True, uc_Push = False, VerificationRepository = [], Guidance = [], AllowInsecure = False\<rparr>\<rparr>"

definition example_cfg :: Config where
  "example_cfg = \<lparr>cfg_Version = 1, cfg_Sources = [example_source],
     cfg_Routes = [\<lparr>cr_Name = ''all'', cr_Match = ''**'', cr_Precedence = 1,
       cr_Pull = \<lparr>pull_Sources = [''hub''], pull_Authoritative = [], pull_ExternalFallback = False\<rparr>,
       cr_Push = \<lparr>push_Destination = ''hub'', push_Deny = False\<rparr>,
       cr_Rewrite = \<lparr>cr_StripPrefix = [], cr_AddPrefix = []\<rparr>\<rparr>]\<rparr>"

text \<open>
  A policy file is accepted exactly when its version is 1, its source
  identifiers are distinct, every source is good (an absolute http or https endpoint without
  user info, query or fragment; a known strategy; well-formed token hosts, distinct up to
  case; user credentials over plain http only with allow_insecure) and the engine accepts its
  routes. The engine then gets exactly the file's sources and routes.
\<close>

theorem config_accepted_iff:
  "Config_PolicyConfig U urlParse c = Inr pc \<longleftrightarrow>
     cfg_Version c = 1 \<and> distinct (map cs_ID (cfg_Sources c))
     \<and> (\<forall>s \<in> set (cfg_Sources c). good_source U urlParse s)
     \<and> isOK (NewEngine U (policy_config c)) \<and> pc = policy_config c"
proof -
  have "Config_PolicyConfig U urlParse c = Inr pc \<longleftrightarrow>
      isOK (validateConfig U urlParse c) \<and> isOK (NewEngine U (policy_config c)) \<and> pc = policy_config c"
    by (auto simp: Config_PolicyConfig_def isOK_iff split: sum.splits)
  then show ?thesis by (auto simp: validateConfig_def validateConfigSources_iff)
qed

theorem config_accepted_iff_witness:
  "good_source ascii_unicode example_url example_source
   \<and> isOK (Config_PolicyConfig ascii_unicode example_url example_cfg)"
proof -
  have "Config_PolicyConfig ascii_unicode example_url example_cfg = Inr (policy_config example_cfg)"
    by code_simp
  with config_accepted_iff [of ascii_unicode example_url example_cfg "policy_config example_cfg"]
  show ?thesis by (simp add: example_cfg_def)
qed

text \<open>
  In an accepted file with at least one source, every pull source,
  authoritative source and push destination named by a route is a source of the file, and an
  authoritative source is one of its route's pull sources.
\<close>

theorem accepted_config_routes:
  assumes "Config_PolicyConfig U urlParse c = Inr pc" and "cfg_Sources c \<noteq> []"
    and "r \<in> set (cfg_Routes c)"
  shows "set (pull_Sources (cr_Pull r)) \<subseteq> cs_ID ` set (cfg_Sources c)
    \<and> (pull_Authoritative (cr_Pull r) \<noteq> [] \<longrightarrow> pull_Authoritative (cr_Pull r) \<in> set (pull_Sources (cr_Pull r)))
    \<and> (push_Destination (cr_Push r) \<noteq> [] \<longrightarrow> push_Destination (cr_Push r) \<in> cs_ID ` set (cfg_Sources c))"
proof -
  from assms(1) obtain e where e: "NewEngine U (policy_config c) = Inr e"
    by (auto simp: Config_PolicyConfig_def split: sum.splits)
  have r: "policy_route r \<in> set (pc_Routes (policy_config c))" "pc_Sources (policy_config c) \<noteq> []"
    using assms(2,3) by (simp_all add: policy_config_def)
  have ids: "src_ID ` set (pc_Sources (policy_config c)) = cs_ID ` set (cfg_Sources c)"
    by (simp add: policy_config_def image_image)
  show ?thesis
    using accepted_route_sources [OF e r] unfolding ids by (simp add: policy_route_def)
qed

theorem accepted_config_routes_witness:
  "set (pull_Sources (cr_Pull (hd (cfg_Routes example_cfg)))) \<subseteq> {''hub''}"
proof -
  have c: "Config_PolicyConfig ascii_unicode example_url example_cfg = Inr (policy_config example_cfg)"
    by code_simp
  show ?thesis
    using accepted_config_routes [OF c, of "hd (cfg_Routes example_cfg)"]
    by (simp add: example_cfg_def example_source_def)
qed

end
