(* ===== verification/Rate_Limit.thy ===== *)
theory Rate_Limit
  imports Go_Strings
begin

text \<open>
  internal/security: the failure limiter in front of the login forms and the token endpoint
  (rate_limit.go), the filter for audit details (safe.go) and the classification of request
  paths used by the panic handler (http.go). A nil limiter is None; the mutex makes every
  method one atomic step, and l.now() is the argument now.
\<close>

section \<open>The failure limiter\<close>

record failureEntry =
  windowStart :: time
  blockedUntil :: time
  lastSeen :: time
  failures :: int

record FailureLimiter =
  maxFailures :: int
  window :: duration
  block :: duration
  entries :: "string \<Rightarrow> failureEntry option"

definition zero_entry :: failureEntry where
  "zero_entry = \<lparr>windowStart = 0, blockedUntil = 0, lastSeen = 0, failures = 0\<rparr>"

text \<open>Reading a Go map: the zero entry for an absent key.\<close>

definition entry_of :: "FailureLimiter \<Rightarrow> string \<Rightarrow> failureEntry" where
  "entry_of l key = (case entries l key of None \<Rightarrow> zero_entry | Some e \<Rightarrow> e)"

definition NewFailureLimiter :: "int \<Rightarrow> duration \<Rightarrow> duration \<Rightarrow> FailureLimiter" where
  "NewFailureLimiter m w b =
     \<lparr>maxFailures = m, window = w, block = b, entries = (\<lambda>_. None)\<rparr>"

definition stale :: "duration \<Rightarrow> time \<Rightarrow> failureEntry \<Rightarrow> bool" where
  "stale retention now entry \<longleftrightarrow> \<not> IsZero (lastSeen entry)
     \<and> time_Sub now (lastSeen entry) > retention \<and> \<not> blockedUntil entry > now"

definition cleanup :: "time \<Rightarrow> FailureLimiter \<Rightarrow> FailureLimiter" where
  "cleanup now l = l\<lparr>entries := (\<lambda>key. case entries l key of None \<Rightarrow> None
     | Some entry \<Rightarrow> if stale (window l + block l) now entry then None else Some entry)\<rparr>"

fun retry_after :: "time \<Rightarrow> FailureLimiter \<Rightarrow> duration \<Rightarrow> string list \<Rightarrow> duration" where
  "retry_after now l retryAfter [] = retryAfter"
| "retry_after now l retryAfter (key # keys) =
     (let entry = entry_of l key in
      if blockedUntil entry > now \<and> time_Sub (blockedUntil entry) now > retryAfter
      then retry_after now l (time_Sub (blockedUntil entry) now) keys
      else retry_after now l retryAfter keys)"

definition Allow ::
  "time \<Rightarrow> FailureLimiter option \<Rightarrow> string list \<Rightarrow> (bool \<times> duration) \<times> FailureLimiter option" where
  "Allow now lo keys =
    (case lo of None \<Rightarrow> ((True, 0), None)
     | Some l \<Rightarrow>
       if maxFailures l \<le> 0 then ((True, 0), Some l)
       else
         (let l' = cleanup now l; retryAfter = retry_after now l' 0 keys
          in ((retryAfter = 0, retryAfter), Some l')))"

definition fail_entry :: "time \<Rightarrow> FailureLimiter \<Rightarrow> failureEntry \<Rightarrow> failureEntry" where
  "fail_entry now l entry0 =
    (let entry1 = (if IsZero (windowStart entry0) \<or> time_Sub now (windowStart entry0) \<ge> window l
                   then entry0\<lparr>windowStart := now, failures := 0\<rparr> else entry0);
         entry2 = entry1\<lparr>failures := failures entry1 + 1, lastSeen := now\<rparr>
     in if failures entry2 \<ge> maxFailures l
        then entry2\<lparr>blockedUntil := now + block l\<rparr> else entry2)"

definition fail_key :: "time \<Rightarrow> string \<Rightarrow> FailureLimiter \<Rightarrow> FailureLimiter" where
  "fail_key now key l =
     l\<lparr>entries := (entries l)(key \<mapsto> fail_entry now l (entry_of l key))\<rparr>"

definition Failure :: "time \<Rightarrow> FailureLimiter option \<Rightarrow> string list \<Rightarrow> FailureLimiter option" where
  "Failure now lo keys =
    (case lo of None \<Rightarrow> None
     | Some l \<Rightarrow> if maxFailures l \<le> 0 then Some l else Some (fold (fail_key now) keys l))"

definition Success :: "FailureLimiter option \<Rightarrow> string list \<Rightarrow> FailureLimiter option" where
  "Success lo keys =
    (case lo of None \<Rightarrow> None
     | Some l \<Rightarrow> Some (l\<lparr>entries := fold (\<lambda>key m. m(key := None)) keys (entries l)\<rparr>))"

section \<open>Audit details, public errors and request surfaces\<close>

definition allowedAuditDetailKeys :: "string list" where
  "allowedAuditDetailKeys =
     [''source_id'', ''route'', ''operation'', ''error_classification'', ''reason'',
      ''previous_access'', ''new_access'', ''enabled'', ''username'', ''previous_key_id'',
      ''new_key_id'', ''credential_count'']"

definition safe_value :: "string \<Rightarrow> bool" where
  "safe_value v \<longleftrightarrow> \<not> (\<not> ValidString v \<or> int (RuneCountInString v) > 512 \<or> list_ex IsControl (runes v))"

text \<open>The details are a Go map, here the list of its pairs in the iteration order.\<close>

fun ValidateAuditDetails :: "(string \<times> string) list \<Rightarrow> unit result" where
  "ValidateAuditDetails [] = Inr ()"
| "ValidateAuditDetails ((key, v) # ds) =
     (if key \<notin> set allowedAuditDetailKeys
      then Inl (GoErr ''detail key is not allowed'' [ErrUnsafeDetail])
      else if \<not> safe_value v then Inl (GoErr ''detail value is invalid'' [ErrUnsafeDetail])
      else ValidateAuditDetails ds)"

definition requestSurface :: "string \<Rightarrow> string" where
  "requestSurface path =
    (if HasPrefix path ''/admin'' then ''admin''
     else if HasPrefix path ''/v2/'' \<or> path = ''/v2'' then ''oci''
     else if path = ''/healthz'' \<or> path = ''/readyz'' then ''probe''
     else ''other'')"

lemma ValidateAuditDetails_Inr:
  "ValidateAuditDetails ds = Inr u \<longleftrightarrow> (\<forall>(k, v) \<in> set ds. k \<in> set allowedAuditDetailKeys \<and> safe_value v)"
  by (induction ds rule: ValidateAuditDetails.induct) auto

lemma ValidateAuditDetails_Inl: "ValidateAuditDetails ds = Inl e \<Longrightarrow> errors_Is e ErrUnsafeDetail"
  by (induction ds rule: ValidateAuditDetails.induct) (auto split: if_splits)

section \<open>What the limiter answers\<close>

lemma cleanup_fields [simp]:
  "maxFailures (cleanup now l) = maxFailures l" "window (cleanup now l) = window l"
  "block (cleanup now l) = block l"
  by (simp_all add: cleanup_def)

lemma fail_key_fields [simp]:
  "maxFailures (fail_key now k l) = maxFailures l" "window (fail_key now k l) = window l"
  "block (fail_key now k l) = block l"
  by (simp_all add: fail_key_def)

lemma fold_fail_key_fields [simp]:
  "maxFailures (fold (fail_key now) ks l) = maxFailures l"
  "window (fold (fail_key now) ks l) = window l" "block (fold (fail_key now) ks l) = block l"
  by (induction ks arbitrary: l) simp_all

definition wait :: "time \<Rightarrow> FailureLimiter \<Rightarrow> string \<Rightarrow> duration" where
  "wait now l key = (if blockedUntil (entry_of l key) > now
     then time_Sub (blockedUntil (entry_of l key)) now else 0)"

lemma wait_nonneg: "0 \<le> wait now l key"
  by (simp add: wait_def time_Sub_def max_duration_def min_duration_def)

text \<open>The answer is the longest wait of the keys.\<close>

lemma retry_after_eq: "0 \<le> r \<Longrightarrow> retry_after now l r keys = fold (\<lambda>k. max (wait now l k)) keys r"
proof (induction keys arbitrary: r)
  case (Cons k ks)
  have "max (wait now l k) r = (if blockedUntil (entry_of l k) > now \<and> time_Sub (blockedUntil (entry_of l k)) now > r
      then time_Sub (blockedUntil (entry_of l k)) now else r)"
    using Cons.prems by (simp add: wait_def)
  then have "retry_after now l r (k # ks) = retry_after now l (max (wait now l k) r) ks"
    by (simp add: Let_def)
  with Cons.IH [of "max (wait now l k) r"] Cons.prems show ?case by simp
qed simp

lemma fold_max_zero:
  fixes f :: "'a \<Rightarrow> int"
  shows "(\<And>k. 0 \<le> f k) \<Longrightarrow> fold (\<lambda>k. max (f k)) ks 0 = 0 \<longleftrightarrow> (\<forall>k \<in> set ks. f k = 0)"
proof -
  assume nn: "\<And>k. 0 \<le> f k"
  have ge: "r \<le> fold (\<lambda>k. max (f k)) ks r" for r ks
  proof (induction ks arbitrary: r)
    case (Cons k ks)
    have "r \<le> max (f k) r" by simp
    also have "\<dots> \<le> fold (\<lambda>k. max (f k)) ks (max (f k) r)" by (rule Cons)
    finally show ?case by simp
  qed simp
  show "fold (\<lambda>k. max (f k)) ks 0 = 0 \<longleftrightarrow> (\<forall>k \<in> set ks. f k = 0)"
  proof (induction ks)
    case (Cons k ks)
    show ?case
    proof (cases "f k = 0")
      case True then show ?thesis using Cons by simp
    next
      case False
      then have "0 < f k" using nn [of k] by simp
      then have "0 < fold (\<lambda>k. max (f k)) ks (max (f k) 0)" using ge [of "max (f k) 0" ks] by simp
      with False show ?thesis by simp
    qed
  qed simp
qed

lemma wait_zero: "wait now l key = 0 \<longleftrightarrow> \<not> blockedUntil (entry_of l key) > now"
  using time_Sub_pos [of "blockedUntil (entry_of l key)" now] by (auto simp: wait_def)

lemma entry_of_cleanup_blocked:
  "0 \<le> now \<Longrightarrow> blockedUntil (entry_of (cleanup now l) key) > now \<longleftrightarrow> blockedUntil (entry_of l key) > now"
  by (auto simp: entry_of_def cleanup_def stale_def zero_entry_def split: option.splits)

lemma wait_cleanup: "0 \<le> now \<Longrightarrow> wait now (cleanup now l) key = wait now l key"
  by (auto simp: wait_def entry_of_def cleanup_def stale_def zero_entry_def split: option.splits)

lemma Allow_eq:
  "0 \<le> now \<Longrightarrow> maxFailures l > 0 \<Longrightarrow>
   Allow now (Some l) keys =
     (let r = fold (\<lambda>k. max (wait now l k)) keys 0 in ((r = 0, r), Some (cleanup now l)))"
  by (simp add: Allow_def Let_def retry_after_eq wait_cleanup)

lemma Allow_iff:
  "0 \<le> now \<Longrightarrow> maxFailures l > 0 \<Longrightarrow>
   fst (fst (Allow now (Some l) keys)) \<longleftrightarrow> (\<forall>k \<in> set keys. \<not> blockedUntil (entry_of l k) > now)"
  by (simp add: Allow_eq Let_def fold_max_zero [OF wait_nonneg] wait_zero)

section \<open>The limiter against one that never forgets\<close>

text \<open>Calls on the limiter, and the same calls on a limiter without cleanup.\<close>

datatype lcall = LAllow time "string list" | LFailure time "string list" | LSuccess time "string list"

fun call_time :: "lcall \<Rightarrow> time" where
  "call_time (LAllow t _) = t" | "call_time (LFailure t _) = t" | "call_time (LSuccess t _) = t"

definition answer :: "time \<Rightarrow> FailureLimiter \<Rightarrow> string list \<Rightarrow> bool \<times> duration" where
  "answer now l keys = fst (Allow now (Some l) keys)"

fun limiter_step :: "lcall \<Rightarrow> FailureLimiter \<Rightarrow> (bool \<times> duration) option \<times> FailureLimiter" where
  "limiter_step (LAllow t ks) l = (case Allow t (Some l) ks of (a, l') \<Rightarrow> (Some a, the l'))"
| "limiter_step (LFailure t ks) l = (None, the (Failure t (Some l) ks))"
| "limiter_step (LSuccess t ks) l = (None, the (Success (Some l) ks))"

text \<open>The reference: Allow answers from the entries and removes nothing.\<close>

fun reference_step :: "lcall \<Rightarrow> FailureLimiter \<Rightarrow> (bool \<times> duration) option \<times> FailureLimiter" where
  "reference_step (LAllow t ks) l =
     (if maxFailures l \<le> 0 then (Some (True, 0), l)
      else let r = fold (\<lambda>k. max (wait t l k)) ks 0 in (Some (r = 0, r), l))"
| "reference_step (LFailure t ks) l = (None, the (Failure t (Some l) ks))"
| "reference_step (LSuccess t ks) l = (None, the (Success (Some l) ks))"

fun run_calls :: "(lcall \<Rightarrow> FailureLimiter \<Rightarrow> 'a \<times> FailureLimiter) \<Rightarrow> lcall list \<Rightarrow> FailureLimiter \<Rightarrow> 'a list" where
  "run_calls step [] l = []"
| "run_calls step (c # cs) l = (case step c l of (a, l') \<Rightarrow> a # run_calls step cs l')"

text \<open>
  The relation between the entries of a key: equal but for block times that are over, or
  forgotten by the limiter and stale in the reference.
\<close>

fun entry_rel :: "duration \<Rightarrow> time \<Rightarrow> failureEntry option \<Rightarrow> failureEntry option \<Rightarrow> bool" where
  "entry_rel d t None None \<longleftrightarrow> True"
| "entry_rel d t None (Some b) \<longleftrightarrow> stale d t b \<and> 0 < windowStart b \<and> windowStart b \<le> lastSeen b"
| "entry_rel d t (Some a) None \<longleftrightarrow> False"
| "entry_rel d t (Some a) (Some b) \<longleftrightarrow> 0 < windowStart b \<and> windowStart b \<le> lastSeen b
     \<and> windowStart a = windowStart b \<and> lastSeen a = lastSeen b \<and> failures a = failures b
     \<and> (blockedUntil a = blockedUntil b \<or> blockedUntil a \<le> t \<and> blockedUntil b \<le> t)"

definition lsim :: "time \<Rightarrow> FailureLimiter \<Rightarrow> FailureLimiter \<Rightarrow> bool" where
  "lsim t l r \<longleftrightarrow> maxFailures l = maxFailures r \<and> window l = window r \<and> block l = block r
     \<and> 0 \<le> block r \<and> (\<forall>k. entry_rel (window r + block r) t (entries l k) (entries r k))"

lemma stale_later: "stale d t e \<Longrightarrow> t \<le> t' \<Longrightarrow> stale d t' e"
  using time_Sub_mono [of t t' "lastSeen e"] by (auto simp: stale_def)

lemma entry_rel_later: "entry_rel d t a b \<Longrightarrow> t \<le> t' \<Longrightarrow> entry_rel d t' a b"
  by (cases a; cases b) (auto intro: stale_later)

lemma lsim_later: "lsim t l r \<Longrightarrow> t \<le> t' \<Longrightarrow> lsim t' l r"
  by (auto simp: lsim_def intro: entry_rel_later)

lemma lsim_wait:
  assumes "lsim t l r" "0 < t" shows "wait t l k = wait t r k"
proof -
  have "entry_rel (window r + block r) t (entries l k) (entries r k)" using assms by (simp add: lsim_def)
  then show ?thesis
    using assms(2) by (cases "entries l k"; cases "entries r k")
      (auto simp: wait_def entry_of_def zero_entry_def stale_def)
qed

lemma lsim_cleanup:
  assumes "lsim t l r" shows "lsim t (cleanup t l) r"
  unfolding lsim_def
proof (intro conjI allI)
  fix k
  have "entry_rel (window r + block r) t (entries l k) (entries r k)" "window l + block l = window r + block r"
    using assms by (simp_all add: lsim_def)
  then show "entry_rel (window r + block r) t (entries (cleanup t l) k) (entries r k)"
    by (cases "entries l k"; cases "entries r k") (auto simp: cleanup_def stale_def)
qed (use assms in \<open>simp_all add: lsim_def\<close>)

lemma fail_entry_rel:
  assumes e: "entry_rel (window r + block r) t (entries l k) (entries r k)" and "0 \<le> block r" "0 < t"
    and f: "maxFailures l = maxFailures r" "window l = window r" "block l = block r"
    and le: "\<forall>b. entries r k = Some b \<longrightarrow> lastSeen b \<le> t"
  shows "entry_rel (window r + block r) t (Some (fail_entry t l (entry_of l k)))
    (Some (fail_entry t r (entry_of r k)))"
proof (cases "entries l k"; cases "entries r k")
  fix b assume "entries l k = None" "entries r k = Some b"
  moreover from this e have b: "0 < windowStart b" "windowStart b \<le> lastSeen b" "stale (window r + block r) t b"
    by simp_all
  moreover have "time_Sub t (lastSeen b) \<le> time_Sub t (windowStart b)"
    using b(2) by (auto simp: time_Sub_def)
  then have "window r \<le> time_Sub t (windowStart b)" using b(3) assms(2) by (auto simp: stale_def)
  ultimately show ?thesis
    using assms(3) f by (auto simp: fail_entry_def Let_def entry_of_def zero_entry_def stale_def)
qed (use e f assms(3) le in \<open>auto simp: fail_entry_def Let_def entry_of_def zero_entry_def\<close>)

text \<open>Entries were last seen in the past.\<close>

definition seen_before :: "time \<Rightarrow> FailureLimiter \<Rightarrow> bool" where
  "seen_before t r \<longleftrightarrow> (\<forall>k b. entries r k = Some b \<longrightarrow> lastSeen b \<le> t)"

lemma seen_before_later: "seen_before t r \<Longrightarrow> t \<le> t' \<Longrightarrow> seen_before t' r"
  unfolding seen_before_def by force

lemma fail_key_sim:
  assumes "lsim t l r" "seen_before t r" "0 < t"
  shows "lsim t (fail_key t k l) (fail_key t k r) \<and> seen_before t (fail_key t k r)"
proof
  have "entry_rel (window r + block r) t (Some (fail_entry t l (entry_of l k)))
      (Some (fail_entry t r (entry_of r k)))"
    using assms by (intro fail_entry_rel) (auto simp: lsim_def seen_before_def)
  then show "lsim t (fail_key t k l) (fail_key t k r)"
    using assms(1) by (auto simp: lsim_def fail_key_def simp del: entry_rel.simps)
  show "seen_before t (fail_key t k r)"
    using assms(2) by (auto simp: seen_before_def fail_key_def fail_entry_def Let_def)
qed

lemma fold_fail_key_sim:
  "lsim t l r \<Longrightarrow> seen_before t r \<Longrightarrow> 0 < t \<Longrightarrow>
   lsim t (fold (fail_key t) ks l) (fold (fail_key t) ks r) \<and> seen_before t (fold (fail_key t) ks r)"
proof (induction ks arbitrary: l r)
  case (Cons k ks)
  show ?case using Cons.IH [of "fail_key t k l" "fail_key t k r"] fail_key_sim [OF Cons.prems, of k] Cons.prems(3) by simp
qed simp

lemma fold_delete: "fold (\<lambda>key m. m(key := None)) ks m k = (if k \<in> set ks then None else m k)"
  by (induction ks arbitrary: m) auto

lemma limiter_step_sim:
  assumes "lsim t l r" "seen_before t r" "0 < t" "call_time c = t"
    and "limiter_step c l = (a, l')" "reference_step c r = (a', r')"
  shows "a = a' \<and> lsim t l' r' \<and> seen_before t r'"
proof (cases c)
  case (LAllow t' ks)
  have m: "maxFailures l = maxFailures r" using assms(1) by (simp add: lsim_def)
  with LAllow assms lsim_cleanup [OF assms(1)] lsim_wait [OF assms(1,3)] show ?thesis
    by (cases "maxFailures r \<le> 0") (auto simp: Allow_eq Let_def, auto simp: Allow_def)
next
  case (LFailure t' ks)
  have m: "maxFailures l = maxFailures r" using assms(1) by (simp add: lsim_def)
  with LFailure assms fold_fail_key_sim [OF assms(1-3), of ks] show ?thesis
    by (cases "maxFailures r \<le> 0") (auto simp: Failure_def)
next
  case (LSuccess t' ks)
  with assms show ?thesis
    by (auto simp: Success_def lsim_def seen_before_def fold_delete split: if_splits)
qed

lemma run_calls_sim:
  "lsim t l r \<Longrightarrow> seen_before t r \<Longrightarrow> 0 < t \<Longrightarrow> sorted (t # map call_time cs) \<Longrightarrow>
   run_calls limiter_step cs l = run_calls reference_step cs r"
proof (induction cs arbitrary: t l r)
  case (Cons c cs)
  obtain a l' where l: "limiter_step c l = (a, l')" by force
  obtain a' r' where r: "reference_step c r = (a', r')" by force
  have le: "t \<le> call_time c" "0 < call_time c" using Cons.prems by auto
  from limiter_step_sim [OF lsim_later [OF Cons.prems(1) le(1)] seen_before_later [OF Cons.prems(2) le(1)] le(2) refl l r]
  have s: "a = a'" "lsim (call_time c) l' r'" "seen_before (call_time c) r'" by simp_all
  from Cons.IH [OF s(2,3) le(2)] s(1) l r Cons.prems show ?case by simp
qed simp

section \<open>Bursts of failures\<close>

text \<open>What a run of failures within one window leaves in the entry of its key.\<close>

definition fail_times :: "string \<Rightarrow> time list \<Rightarrow> FailureLimiter \<Rightarrow> FailureLimiter" where
  "fail_times key ts l = the (fold (\<lambda>t lo. Failure t lo [key]) ts (Some l))"

lemma fail_times_simps:
  "fail_times key [] l = l"
  "0 < maxFailures l \<Longrightarrow> fail_times key (t # ts) l = fail_times key ts (fail_key t key l)"
  by (simp_all add: fail_times_def Failure_def)

lemma fail_times_snoc:
  "0 < maxFailures l \<Longrightarrow> fail_times key (ts @ [t]) l = fail_key t key (fail_times key ts l)"
  by (induction ts arbitrary: l) (simp_all add: fail_times_simps)

lemma fail_times_fold:
  "0 < maxFailures l \<Longrightarrow> fold (\<lambda>t lo. Failure t lo [key]) ts (Some l) = Some (fail_times key ts l)"
  by (induction ts arbitrary: l) (simp_all add: fail_times_def Failure_def)

lemma fail_times_fields [simp]:
  assumes "0 < maxFailures l"
  shows "maxFailures (fail_times key ts l) = maxFailures l"
    "window (fail_times key ts l) = window l" "block (fail_times key ts l) = block l"
  using assms by (induction ts arbitrary: l) (simp_all add: fail_times_simps)

lemma fail_times_other:
  "0 < maxFailures l \<Longrightarrow> key' \<noteq> key \<Longrightarrow> entry_of (fail_times key ts l) key' = entry_of l key'"
  by (induction ts arbitrary: l) (simp_all add: fail_times_simps entry_of_def fail_key_def)

lemma fail_times_entry:
  assumes "0 < maxFailures l" "entries l key = None" "0 < t0" "sorted (t0 # ts)"
    and "\<forall>t \<in> set ts. time_Sub t t0 < window l" "0 < window l"
  shows "entry_of (fail_times key (t0 # ts) l) key =
    \<lparr>windowStart = t0,
     blockedUntil = (if int (length (t0 # ts)) < maxFailures l then 0 else last (t0 # ts) + block l),
     lastSeen = last (t0 # ts), failures = int (length (t0 # ts))\<rparr>"
  using assms(4,5)
proof (induction ts rule: rev_induct)
  case Nil
  with assms show ?case
    by (auto simp: fail_times_simps fail_key_def entry_of_def fail_entry_def Let_def zero_entry_def)
next
  case (snoc t ts)
  have "sorted (t0 # ts)" using snoc.prems(1) by (simp add: sorted_append)
  with snoc have e: "entry_of (fail_times key (t0 # ts) l) key = \<lparr>windowStart = t0,
     blockedUntil = (if int (length (t0 # ts)) < maxFailures l then 0 else last (t0 # ts) + block l),
     lastSeen = last (t0 # ts), failures = int (length (t0 # ts))\<rparr>" by simp
  have "fail_times key (t0 # ts @ [t]) l = fail_key t key (fail_times key (t0 # ts) l)"
    using fail_times_snoc [OF assms(1), of key "t0 # ts" t] by simp
  then have "entry_of (fail_times key (t0 # ts @ [t]) l) key
      = fail_entry t (fail_times key (t0 # ts) l) (entry_of (fail_times key (t0 # ts) l) key)"
    by (simp add: entry_of_def fail_key_def)
  with e assms(1,3) snoc.prems(2) show ?case by (auto simp: fail_entry_def Let_def)
qed

section \<open>The limiter as a guard\<close>

text \<open>
  What the login form and the token endpoint rely on. Each asks before it checks a password
  and reports the outcome afterwards.
\<close>

locale attempt_guard =
  fixes blocked :: "'l \<Rightarrow> time \<Rightarrow> string \<Rightarrow> bool"
    and allow :: "time \<Rightarrow> 'l \<Rightarrow> string list \<Rightarrow> bool \<times> 'l"
    and failure :: "time \<Rightarrow> 'l \<Rightarrow> string list \<Rightarrow> 'l"
    and success :: "'l \<Rightarrow> string list \<Rightarrow> 'l"
    and good :: "'l \<Rightarrow> bool"
  assumes allow_iff: "good l \<Longrightarrow> 0 < t \<Longrightarrow> fst (allow t l ks) \<longleftrightarrow> (\<forall>k \<in> set ks. \<not> blocked l t k)"
    and allow_keeps: "good l \<Longrightarrow> 0 < t \<Longrightarrow> t \<le> t' \<Longrightarrow> blocked (snd (allow t l ks)) t' k \<longleftrightarrow> blocked l t' k"
    and failure_keeps: "good l \<Longrightarrow> 0 < t \<Longrightarrow> t \<le> t' \<Longrightarrow> k \<notin> set ks \<Longrightarrow> blocked (failure t l ks) t' k \<longleftrightarrow> blocked l t' k"
    and success_clears: "good l \<Longrightarrow> 0 < t \<Longrightarrow> blocked (success l ks) t k \<longleftrightarrow> blocked l t k \<and> k \<notin> set ks"
    and allow_good: "good l \<Longrightarrow> good (snd (allow t l ks))"
    and failure_good: "good l \<Longrightarrow> good (failure t l ks)"
    and success_good: "good l \<Longrightarrow> good (success l ks)"
begin

text \<open>One guarded attempt: the check runs only when no key is blocked.\<close>

definition attempt :: "time \<Rightarrow> string list \<Rightarrow> bool \<Rightarrow> 'l \<Rightarrow> bool \<times> 'l" where
  "attempt t ks ok l =
    (case allow t l ks of (a, l1) \<Rightarrow>
       if \<not> a then (False, l1) else if ok then (True, success l1 ks) else (False, failure t l1 ks))"

lemma attempt_good: "good l \<Longrightarrow> good (snd (attempt t ks ok l))"
  using allow_good [of l t ks] failure_good [of "snd (allow t l ks)" t ks] success_good [of "snd (allow t l ks)" ks]
  by (auto simp: attempt_def split: prod.splits)

lemma attempt_blocked:
  assumes "good l" "0 < t" "k \<in> set ks" "blocked l t k"
  shows "\<not> fst (attempt t ks ok l)" "0 < t \<Longrightarrow> t \<le> t' \<Longrightarrow> blocked (snd (attempt t ks ok l)) t' k' \<longleftrightarrow> blocked l t' k'"
  using assms allow_iff [OF assms(1,2), of ks] allow_keeps [OF assms(1,2), of t' ks k']
  by (auto simp: attempt_def split: prod.splits)

text \<open>A stranger's attempts do not lock out a key they do not use.\<close>

lemma attempt_other:
  assumes "good l" "0 < t" "t \<le> t'" "k \<notin> set ks"
  shows "blocked (snd (attempt t ks ok l)) t' k \<longleftrightarrow> blocked l t' k"
proof -
  obtain a l1 where al: "allow t l ks = (a, l1)" by force
  have "good l1" using allow_good [OF assms(1), of t ks] al by simp
  moreover have "blocked l1 t' k \<longleftrightarrow> blocked l t' k" using allow_keeps [OF assms(1-3), of ks k] al by simp
  ultimately show ?thesis
    using al assms failure_keeps [of l1 t t' k ks] success_clears [of l1 t' ks k] by (simp add: attempt_def)
qed

end

definition key_blocked :: "FailureLimiter \<Rightarrow> time \<Rightarrow> string \<Rightarrow> bool" where
  "key_blocked l t k \<longleftrightarrow> blockedUntil (entry_of l k) > t"

interpretation limiter: attempt_guard key_blocked
  "\<lambda>t l ks. (fst (fst (Allow t (Some l) ks)), the (snd (Allow t (Some l) ks)))"
  "\<lambda>t l ks. the (Failure t (Some l) ks)" "\<lambda>l ks. the (Success (Some l) ks)" "\<lambda>l. 0 < maxFailures l"
proof
  fix l :: FailureLimiter and t t' :: time and k and ks :: "string list"
  assume l: "0 < maxFailures l"
  show "fst (fst (fst (Allow t (Some l) ks)), the (snd (Allow t (Some l) ks)))
      \<longleftrightarrow> (\<forall>k \<in> set ks. \<not> key_blocked l t k)" if "0 < t"
    using Allow_iff [of t l ks] that l by (simp add: key_blocked_def)
  show "key_blocked (snd (fst (fst (Allow t (Some l) ks)), the (snd (Allow t (Some l) ks)))) t' k
      \<longleftrightarrow> key_blocked l t' k" if "0 < t" "t \<le> t'"
    using l that by (auto simp: Allow_def Let_def key_blocked_def entry_of_def cleanup_def stale_def zero_entry_def
        split: option.splits)
  show "key_blocked (the (Failure t (Some l) ks)) t' k \<longleftrightarrow> key_blocked l t' k" if "k \<notin> set ks"
  proof -
    have "entry_of (fold (fail_key t) ks l) k = entry_of l k"
      using that by (induction ks arbitrary: l) (simp_all add: entry_of_def fail_key_def)
    with l show ?thesis by (simp add: Failure_def key_blocked_def)
  qed
  show "key_blocked (the (Success (Some l) ks)) t k \<longleftrightarrow> key_blocked l t k \<and> k \<notin> set ks" if "0 < t"
    using that by (simp add: Success_def key_blocked_def entry_of_def fold_delete zero_entry_def)
  show "0 < maxFailures (snd (fst (fst (Allow t (Some l) ks)), the (snd (Allow t (Some l) ks))))"
    using l by (simp add: Allow_def Let_def)
  show "0 < maxFailures (the (Failure t (Some l) ks))" using l by (simp add: Failure_def)
  show "0 < maxFailures (the (Success (Some l) ks))" using l by (simp add: Success_def)
qed

end
