(* ===== verification/Rate_Limit_Properties.thy ===== *)
theory Rate_Limit_Properties
  imports Rate_Limit
begin

text \<open>
  Properties of the failure limiter: the cleanup of old entries is invisible to callers, a
  burst of failures blocks its key for exactly the block time, and other keys are untouched.
\<close>



text \<open>
  After failures of one key within one window, Allow refuses the key
  exactly when there were at least maxFailures of them, until the block time after the last
  one has passed, and reports the remaining time; every other key is answered as before.
\<close>

theorem burst_blocks_its_key:
  assumes "0 < maxFailures l" and "entries l key = None"
    and "sorted (t0 # ts)" and "0 < t0" and "last (t0 # ts) - t0 < window l" and "window l \<le> max_duration"
    and "0 \<le> block l" and "block l \<le> max_duration" and "last (t0 # ts) \<le> t"
  shows "fst (Allow t (fold (\<lambda>t lo. Failure t lo [key]) (t0 # ts) (Some l)) [key]) =
      (if int (length (t0 # ts)) < maxFailures l \<or> last (t0 # ts) + block l \<le> t then (True, 0)
       else (False, last (t0 # ts) + block l - t))
    \<and> (\<forall>key'. key' = key \<or>
         fst (Allow t (fold (\<lambda>t lo. Failure t lo [key]) (t0 # ts) (Some l)) [key']) = fst (Allow t (Some l) [key']))"
proof -
  have le: "x \<le> last (t0 # ts)" if "x \<in> set (t0 # ts)" for x
    using that assms(3) by (induction ts arbitrary: t0) (auto split: if_splits)
  then have t: "0 < t" using assms(4,9) by force
  have "0 < window l" using le [of t0] assms(5) by simp
  moreover have "\<forall>x \<in> set ts. time_Sub x t0 < window l"
    using le assms(3,5,6) by (force simp: time_Sub_def min_duration_def)
  ultimately have e: "entry_of (fail_times key (t0 # ts) l) key =
    \<lparr>windowStart = t0,
     blockedUntil = (if int (length (t0 # ts)) < maxFailures l then 0 else last (t0 # ts) + block l),
     lastSeen = last (t0 # ts), failures = int (length (t0 # ts))\<rparr>"
    using fail_times_entry assms by blast
  let ?l = "fail_times key (t0 # ts) l"
  have f: "fold (\<lambda>t lo. Failure t lo [key]) (t0 # ts) (Some l) = Some ?l"
    using fail_times_fold [OF assms(1), of key "t0 # ts"] .
  have m: "0 < maxFailures ?l" using assms(1) by simp
  have w: "wait t ?l key = (if int (length (t0 # ts)) < maxFailures l \<or> last (t0 # ts) + block l \<le> t then 0
      else last (t0 # ts) + block l - t)"
    using e t assms(7-9) by (auto simp: wait_def time_Sub_def min_duration_def)
  have o: "wait t ?l key' = wait t l key'" if "key' \<noteq> key" for key'
    using fail_times_other [OF assms(1) that, of "t0 # ts"] by (simp add: wait_def)
  show ?thesis
    unfolding f using t m w o assms(1) wait_nonneg [of t l] by (auto simp: Allow_eq Let_def)
qed

theorem burst_blocks_its_key_witness:
  "fst (Allow 15 (fold (\<lambda>t lo. Failure t lo [''u'']) [10, 12, 14] (Some (NewFailureLimiter 3 60 30))) [''u'']) = (False, 29)"
  using burst_blocks_its_key [of "NewFailureLimiter 3 60 30" "''u''" 10 "[12, 14]" 15]
  by (simp add: NewFailureLimiter_def max_duration_def)

text \<open>
  Guarded attempts on other keys, however many and whatever
  their outcome, leave a key blocked or free as it was.
\<close>

theorem strangers_cannot_lock_out:
  assumes "0 < maxFailures l" and "0 < t" and "t \<le> t'" and "k \<notin> set ks"
  shows "key_blocked (snd (limiter.attempt t ks ok l)) t' k \<longleftrightarrow> key_blocked l t' k"
  using assms by (rule limiter.attempt_other)

theorem strangers_cannot_lock_out_witness:
  "key_blocked (snd (limiter.attempt 5 [''other''] False (NewFailureLimiter 1 10 20))) 6 ''u''
     \<longleftrightarrow> key_blocked (NewFailureLimiter 1 10 20) 6 ''u''"
  by (rule strangers_cannot_lock_out) (simp_all add: NewFailureLimiter_def)

text \<open>
  Audit details pass exactly when every key is on the allow list
  and every value is valid UTF-8 of at most 512 runes without control characters; a refusal
  is always ErrUnsafeDetail.
\<close>

theorem audit_details_are_safe:
  "case ValidateAuditDetails ds of
     Inr _ \<Rightarrow> (\<forall>(k, v) \<in> set ds. k \<in> set allowedAuditDetailKeys
        \<and> ValidString v \<and> RuneCountInString v \<le> 512 \<and> (\<forall>r \<in> set (runes v). \<not> IsControl r))
   | Inl e \<Rightarrow> errors_Is e ErrUnsafeDetail
        \<and> \<not> (\<forall>(k, v) \<in> set ds. k \<in> set allowedAuditDetailKeys
              \<and> ValidString v \<and> RuneCountInString v \<le> 512 \<and> (\<forall>r \<in> set (runes v). \<not> IsControl r))"
proof -
  have v: "safe_value v \<longleftrightarrow> ValidString v \<and> RuneCountInString v \<le> 512 \<and> (\<forall>r \<in> set (runes v). \<not> IsControl r)" for v
    by (auto simp: safe_value_def list_ex_iff)
  show ?thesis
  proof (cases "ValidateAuditDetails ds")
    case (Inl e)
    with ValidateAuditDetails_Inr [of ds "()"] ValidateAuditDetails_Inl [OF Inl] show ?thesis by (simp add: v)
  next
    case (Inr u)
    with ValidateAuditDetails_Inr [of ds u] show ?thesis by (simp add: v)
  qed
qed

theorem audit_details_are_safe_witness:
  "isOK (ValidateAuditDetails [(''reason'', ''expired'')])
   \<and> RuneCountInString ''expired'' \<le> 512"
proof -
  have "ValidateAuditDetails [(''reason'', ''expired'')] = Inr ()" by code_simp
  with audit_details_are_safe [of "[(''reason'', ''expired'')]"] show ?thesis by simp
qed

end
