(* ===== verification/Metadata.thy ===== *)
theory Metadata
  imports Policy Rate_Limit "HOL-Library.AList"
begin

text \<open>
  The records of internal/metadata (repository.go, security.go): users, request events,
  provenance, tag mappings, cache bindings, tokens, sessions, credentials and audit events,
  the checks on them, and the Repository interface as a record of operations. Go's string
  types (Operation, RequestStatus and so on) are strings, since "" and unknown values occur.
\<close>

declare map_of_eq_Some_iff [simp del] Some_eq_map_of_iff [simp del]

section \<open>Constants\<close>

definition OperationPull :: string where "OperationPull = ''pull''"
definition OperationPush :: string where "OperationPush = ''push''"
definition StatusSuccess :: string where "StatusSuccess = ''success''"
definition StatusDenied :: string where "StatusDenied = ''denied''"
definition StatusError :: string where "StatusError = ''error''"
definition CacheHit :: string where "CacheHit = ''hit''"
definition CacheMiss :: string where "CacheMiss = ''miss''"
definition CacheBypassed :: string where "CacheBypassed = ''bypassed''"
definition UserAccessUser :: string where "UserAccessUser = ''user''"
definition UserAccessAdmin :: string where "UserAccessAdmin = ''admin''"
definition CacheAccessChallenge :: string where "CacheAccessChallenge = ''challenge''"
definition CacheAccessProxy :: string where "CacheAccessProxy = ''proxy''"
definition CacheAccessCurrentUserRequired :: string where
  "CacheAccessCurrentUserRequired = ''current_user_required''"

lemmas metadata_constants =
  OperationPull_def OperationPush_def StatusSuccess_def StatusDenied_def StatusError_def
  CacheHit_def CacheMiss_def CacheBypassed_def UserAccessUser_def UserAccessAdmin_def
  CacheAccessChallenge_def CacheAccessProxy_def CacheAccessCurrentUserRequired_def

section \<open>Records\<close>

record User =
  usr_ID :: string
  Username :: string
  PasswordHash :: string
  DisplayName :: string
  Email :: string
  Access :: string
  Enabled :: bool
  usr_CreatedAt :: time
  usr_UpdatedAt :: time

record RequestEvent =
  ev_ID :: int
  ev_Timestamp :: time
  ev_Operation :: string
  ev_ClientIdentity :: string
  ev_CredentialSource :: string
  ev_LogicalReference :: string
  ev_MatchedRoute :: string
  ev_SourceOrDestination :: string
  ev_Status :: string
  ev_CacheResult :: string
  ev_Duration :: duration
  ev_BytesTransferred :: int
  ev_ErrorClassification :: string
  ev_Explanation :: "explanation list"

record RequestEventFilter =
  f_ClientIdentity :: string
  f_CredentialSource :: string
  f_Route :: string
  f_Operation :: string
  f_SourceOrDestination :: string
  f_Status :: string
  f_CacheResult :: string
  f_ErrorClassification :: string
  f_ReferenceContains :: string
  f_After :: time
  f_Before :: time

record RequestEventCursor =
  cur_Timestamp :: time
  cur_ID :: int

record RequestEventQuery =
  q_Filter :: RequestEventFilter
  q_Limit :: int
  q_Cursor :: "RequestEventCursor option"
  q_OldestFirst :: bool

record RequestEventPage =
  Events :: "RequestEvent list"
  Next :: "RequestEventCursor option"

record RequestEventSummary =
  Total :: int
  Errors :: int
  DeniedPushes :: int
  AuthFailures :: int
  CacheHits :: int
  CacheMisses :: int
  Average :: duration
  P95 :: duration

record ProvenanceRecord =
  pv_LogicalReference :: string
  PhysicalSourceReference :: string
  RequestedReference :: string
  ResolvedDigest :: string
  pv_Source :: string
  pv_Route :: string
  pv_FallbackUsed :: bool
  StaleServed :: bool
  RetrievedAt :: time
  ValidatedAt :: time

record TagMapping =
  tm_LogicalRepository :: string
  tm_Tag :: string
  tm_Digest :: string
  tm_MediaType :: string
  tm_Size :: int
  tm_BlobDigests :: "string list"
  tm_Source :: string
  tm_Route :: string
  ResolvedAt :: time
  LastValidatedAt :: time
  FreshUntil :: time

record CacheBinding =
  cb_LogicalRepository :: string
  cb_Route :: string
  cb_Source :: string
  cb_PhysicalRepository :: string
  cb_ManifestDigest :: string
  cb_ObjectDigest :: string
  cb_ObjectKind :: string
  cb_Access :: string
  cb_UserID :: string
  cb_CreatedAt :: time
  cb_UpdatedAt :: time

record DockerToken =
  dt_ID :: string
  dt_UserID :: string
  dt_Label :: string
  dt_TokenHash :: string
  dt_CreatedAt :: time
  dt_ExpiresAt :: time
  dt_RevokedAt :: time
  dt_LastUsed :: time

record WebSession =
  ws_ID :: string
  ws_UserID :: string
  ws_TokenHash :: string
  ws_CSRFTokenHash :: string
  ws_CreatedAt :: time
  ws_LastSeenAt :: time
  ws_IdleExpiresAt :: time
  ws_AbsoluteExpiresAt :: time
  ws_RevokedAt :: time

record RegistryCredential =
  rc_ID :: string
  rc_UserID :: string
  rc_SourceID :: string
  rc_Username :: string
  rc_EncryptedSecret :: string
  rc_CreatedAt :: time
  rc_UpdatedAt :: time

record AuditEvent =
  au_ID :: int
  au_Timestamp :: time
  au_ActorUserID :: string
  au_ActorRole :: string
  au_Action :: string
  au_TargetType :: string
  au_TargetID :: string
  au_Outcome :: string
  au_CorrelationID :: string
  au_RemoteAddress :: string
  au_Details :: "(string \<times> string) list"

section \<open>Checks\<close>

definition invalid :: "string \<Rightarrow> goerr" where
  "invalid t = GoErr t [ErrInvalidRecord]"

definition validateUser :: "User \<Rightarrow> unit result" where
  "validateUser u = first_error
     [(TrimSpace (usr_ID u) = [], invalid ''user id is required''),
      (Username u = [] \<or> Username u \<noteq> TrimSpace (Username u),
         invalid ''username is required and cannot have surrounding whitespace''),
      (PasswordHash u = [], invalid ''password hash is required''),
      (Access u \<noteq> UserAccessUser \<and> Access u \<noteq> UserAccessAdmin, invalid ''unsupported user access'')]"

definition validateRequestEvent :: "RequestEvent \<Rightarrow> unit result" where
  "validateRequestEvent e = first_error
     [(ev_Operation e = [], invalid ''request event has no operation''),
      (ev_LogicalReference e = [], invalid ''request event has no logical reference''),
      (ev_Status e = [], invalid ''request event has no status'')]"

definition validateTagMapping :: "TagMapping \<Rightarrow> unit result" where
  "validateTagMapping m = first_error
     [(tm_LogicalRepository m = [], invalid ''tag mapping has no logical repository''),
      (tm_Tag m = [], invalid ''tag mapping has no tag''),
      (tm_Digest m = [], invalid ''tag mapping has no digest''),
      (tm_MediaType m = [], invalid ''tag mapping has no media type''),
      (tm_Source m = [], invalid ''tag mapping has no source''),
      (tm_Route m = [], invalid ''tag mapping has no route''),
      (tm_Size m < 0, invalid ''tag mapping has negative size'')]"

definition validateProvenanceRecord :: "ProvenanceRecord \<Rightarrow> unit result" where
  "validateProvenanceRecord p = first_error
     [(pv_LogicalReference p = [], invalid ''provenance has no logical reference''),
      (RequestedReference p = [], invalid ''provenance has no requested reference''),
      (ResolvedDigest p = [], invalid ''provenance has no resolved digest''),
      (pv_Source p = [], invalid ''provenance has no source''),
      (pv_Route p = [], invalid ''provenance has no route'')]"

definition validateCacheBinding :: "CacheBinding \<Rightarrow> unit result" where
  "validateCacheBinding b = first_error
     [(cb_LogicalRepository b = [] \<or> cb_Route b = [] \<or> cb_Source b = [] \<or> cb_PhysicalRepository b = []
         \<or> cb_ManifestDigest b = [] \<or> cb_ObjectDigest b = [], invalid ''incomplete cache binding''),
      (cb_ObjectKind b \<noteq> ''manifest'' \<and> cb_ObjectKind b \<noteq> ''blob'', invalid ''unsupported cache object kind''),
      (cb_Access b \<noteq> CacheAccessChallenge \<and> cb_Access b \<noteq> CacheAccessProxy
         \<and> cb_Access b \<noteq> CacheAccessCurrentUserRequired, invalid ''unsupported cache access''),
      ((cb_Access b = CacheAccessCurrentUserRequired) \<noteq> (cb_UserID b \<noteq> []),
         invalid ''current-user cache binding requires exactly one user'')]"

definition validateDockerToken :: "DockerToken \<Rightarrow> unit result" where
  "validateDockerToken t =
    (if dt_ID t = [] \<or> dt_UserID t = [] \<or> length (dt_TokenHash t) \<noteq> 32 \<or> IsZero (dt_ExpiresAt t)
     then Inl (invalid ''invalid docker token'') else Inr ())"

definition validateWebSession :: "WebSession \<Rightarrow> unit result" where
  "validateWebSession s =
    (if ws_ID s = [] \<or> ws_UserID s = [] \<or> length (ws_TokenHash s) \<noteq> 32
        \<or> length (ws_CSRFTokenHash s) \<noteq> 32 \<or> IsZero (ws_IdleExpiresAt s) \<or> IsZero (ws_AbsoluteExpiresAt s)
     then Inl (invalid ''invalid web session'') else Inr ())"

definition validateRegistryCredential :: "RegistryCredential \<Rightarrow> unit result" where
  "validateRegistryCredential c =
    (if rc_ID c = [] \<or> rc_UserID c = [] \<or> rc_SourceID c = [] \<or> rc_Username c = [] \<or> rc_EncryptedSecret c = []
     then Inl (invalid ''invalid registry credential'') else Inr ())"

definition validateAuditEvent :: "AuditEvent \<Rightarrow> unit result" where
  "validateAuditEvent e =
    (if au_ActorRole e = [] \<or> au_Action e = [] \<or> au_TargetType e = [] \<or> au_TargetID e = [] \<or> au_Outcome e = []
     then Inl (invalid ''invalid audit event'')
     else case ValidateAuditDetails (au_Details e) of Inl _ \<Rightarrow> Inl (invalid ''%v'') | Inr _ \<Rightarrow> Inr ())"

lemma first_error_isOK: "isOK (first_error cs) \<longleftrightarrow> (\<forall>(bad, e) \<in> set cs. \<not> bad)"
  using first_error_OK [of cs "()"] by (auto simp: isOK_iff)

lemma errors_Is_invalid [simp]: "errors_Is (invalid t) s \<longleftrightarrow> s = ErrInvalidRecord"
  by (simp add: invalid_def)

lemma validateCacheBinding_OK:
  "validateCacheBinding b = Inr u \<Longrightarrow>
     cb_Access b \<in> {CacheAccessChallenge, CacheAccessProxy, CacheAccessCurrentUserRequired}
     \<and> (cb_Access b = CacheAccessCurrentUserRequired \<longleftrightarrow> cb_UserID b \<noteq> [])"
  by (auto simp: validateCacheBinding_def split: if_splits)

section \<open>Keys and clocks\<close>

definition NUL :: string where "NUL = [CHR 0x00]"

definition cacheBindingKey :: "CacheBinding \<Rightarrow> string" where
  "cacheBindingKey b = cb_LogicalRepository b @ NUL @ cb_Route b @ NUL @ cb_Source b @ NUL
     @ cb_ManifestDigest b @ NUL @ cb_ObjectDigest b @ NUL @ cb_Access b @ NUL @ cb_UserID b"

definition tagKey :: "string \<Rightarrow> string \<Rightarrow> string" where
  "tagKey logicalRepository tag = logicalRepository @ '':'' @ tag"

definition nextUpdatedAt :: "time \<Rightarrow> time \<Rightarrow> time" where
  "nextUpdatedAt now current = (if now > current then now else current + 1)"

lemma nextUpdatedAt_gt: "current < nextUpdatedAt now current"
  by (simp add: nextUpdatedAt_def)

lemma tagKey_inj: "CHR '':'' \<notin> set r \<Longrightarrow> CHR '':'' \<notin> set r' \<Longrightarrow> tagKey r t = tagKey r' t' \<longleftrightarrow> r = r' \<and> t = t'"
proof
  assume c: "CHR '':'' \<notin> set r" "CHR '':'' \<notin> set r'" and e: "tagKey r t = tagKey r' t'"
  then have "Cut (tagKey r t) CHR '':'' = Some (r, t)" "Cut (tagKey r t) CHR '':'' = Some (r', t')"
    unfolding Cut_eq by (auto simp: tagKey_def)
  then show "r = r' \<and> t = t'" by simp
qed simp

section \<open>The Repository interface\<close>

text \<open>The operations of metadata.Repository that the resolvers and the gateway call, over a
  repository state that includes the outcomes of contexts and of the clock.\<close>

record 'm Repository =
  mr_RecordRequestEvent :: "'m \<Rightarrow> RequestEvent \<Rightarrow> unit result \<times> 'm"
  mr_RecordProvenance :: "'m \<Rightarrow> ProvenanceRecord \<Rightarrow> unit result \<times> 'm"
  mr_RecordTagMapping :: "'m \<Rightarrow> TagMapping \<Rightarrow> unit result \<times> 'm"
  mr_FindTagMapping :: "'m \<Rightarrow> string \<Rightarrow> string \<Rightarrow> TagMapping option result \<times> 'm"
  mr_RecordCacheBindings :: "'m \<Rightarrow> CacheBinding list \<Rightarrow> unit result \<times> 'm"
  mr_ListCacheBindings :: "'m \<Rightarrow> string \<Rightarrow> string \<Rightarrow> string \<Rightarrow> CacheBinding list result \<times> 'm"

end
