(* ===== verification/Memory_Repository.thy ===== *)
theory Memory_Repository
  imports Metadata
begin

text \<open>
  The in-memory implementation of metadata.Repository (internal/metadata/repository.go and
  cache_bindings.go). Every method takes the outcome of ctx.Err() and, where it reads the
  clock, the value of r.now(). The maps are association lists; methods that range over a map
  sort what they collect, so the iteration order does not show.
\<close>

section \<open>State\<close>

record MemoryRepository =
  mem_events :: "RequestEvent list"
  mem_provenance :: "ProvenanceRecord list"
  mem_tags :: "(string \<times> TagMapping) list"
  mem_bindings :: "(string \<times> CacheBinding) list"
  mem_users :: "(string \<times> User) list"
  mem_usernames :: "(string \<times> string) list"
  mem_nextEventID :: int

definition NewMemoryRepository :: MemoryRepository where
  "NewMemoryRepository = \<lparr>mem_events = [], mem_provenance = [], mem_tags = [], mem_bindings = [],
     mem_users = [], mem_usernames = [], mem_nextEventID = 0\<rparr>"

section \<open>Users\<close>

definition store_user :: "User \<Rightarrow> MemoryRepository \<Rightarrow> MemoryRepository" where
  "store_user user r =
     r\<lparr>mem_users := AList.update (usr_ID user) user (mem_users r),
       mem_usernames := AList.update (Username user) (usr_ID user) (mem_usernames r)\<rparr>"

definition CreateUser ::
  "goerr option \<Rightarrow> time \<Rightarrow> User \<Rightarrow> MemoryRepository \<Rightarrow> User option result \<times> MemoryRepository" where
  "CreateUser ctx now user r =
    (case ctx of Some e \<Rightarrow> (Inl e, r)
     | None \<Rightarrow>
       (case validateUser user of Inl e \<Rightarrow> (Inl e, r)
        | Inr _ \<Rightarrow>
          if map_of (mem_users r) (usr_ID user) \<noteq> None then (Inl (GoErr ''user id %q'' [ErrConflict]), r)
          else if map_of (mem_usernames r) (Username user) \<noteq> None
          then (Inl (GoErr ''username %q'' [ErrConflict]), r)
          else let user = user\<lparr>usr_CreatedAt := now, usr_UpdatedAt := now\<rparr>
               in (Inr (Some user), store_user user r)))"

definition BootstrapAdmin ::
  "goerr option \<Rightarrow> time \<Rightarrow> User \<Rightarrow> MemoryRepository \<Rightarrow> User option result \<times> MemoryRepository" where
  "BootstrapAdmin ctx now user r =
    (case ctx of Some e \<Rightarrow> (Inl e, r)
     | None \<Rightarrow>
       (case validateUser user of Inl e \<Rightarrow> (Inl e, r)
        | Inr _ \<Rightarrow>
          if length (mem_users r) \<noteq> 0
          then (Inl (GoErr ''administrator bootstrap has already completed'' [ErrConflict]), r)
          else let user = user\<lparr>usr_CreatedAt := now, usr_UpdatedAt := now\<rparr>
               in (Inr (Some user), store_user user r)))"

definition FindUserByID :: "goerr option \<Rightarrow> string \<Rightarrow> MemoryRepository \<Rightarrow> User option result" where
  "FindUserByID ctx uid r =
    (case ctx of Some e \<Rightarrow> Inl e | None \<Rightarrow> Inr (map_of (mem_users r) uid))"

definition zero_user :: User where
  "zero_user = \<lparr>usr_ID = [], Username = [], PasswordHash = [], DisplayName = [], Email = [],
     Access = [], Enabled = False, usr_CreatedAt = 0, usr_UpdatedAt = 0\<rparr>"

definition FindUserByUsername :: "goerr option \<Rightarrow> string \<Rightarrow> MemoryRepository \<Rightarrow> User option result" where
  "FindUserByUsername ctx username r =
    (case ctx of Some e \<Rightarrow> Inl e
     | None \<Rightarrow>
       (case map_of (mem_usernames r) username of None \<Rightarrow> Inr None
        | Some uid \<Rightarrow> Inr (Some (case map_of (mem_users r) uid of None \<Rightarrow> zero_user | Some u \<Rightarrow> u))))"

definition ListUsers :: "goerr option \<Rightarrow> MemoryRepository \<Rightarrow> User list result" where
  "ListUsers ctx r =
    (case ctx of Some e \<Rightarrow> Inl e | None \<Rightarrow> Inr (sort_key Username (map snd (mem_users r))))"

definition UpdateUser ::
  "goerr option \<Rightarrow> time \<Rightarrow> User \<Rightarrow> time \<Rightarrow> MemoryRepository \<Rightarrow> User option result \<times> MemoryRepository" where
  "UpdateUser ctx now user expectedUpdatedAt r =
    (case ctx of Some e \<Rightarrow> (Inl e, r)
     | None \<Rightarrow>
       (case validateUser user of Inl e \<Rightarrow> (Inl e, r)
        | Inr _ \<Rightarrow>
          (case map_of (mem_users r) (usr_ID user) of
             None \<Rightarrow> (Inr None, r)
           | Some current \<Rightarrow>
             if usr_UpdatedAt current \<noteq> expectedUpdatedAt
             then (Inl (GoErr ''user %q was modified'' [ErrConflict]), r)
             else if map_of (mem_usernames r) (Username user) \<noteq> None
                  \<and> the (map_of (mem_usernames r) (Username user)) \<noteq> usr_ID user
             then (Inl (GoErr ''username %q'' [ErrConflict]), r)
             else
               let user = user\<lparr>usr_CreatedAt := usr_CreatedAt current,
                               usr_UpdatedAt := nextUpdatedAt now (usr_UpdatedAt current)\<rparr>;
                   r = r\<lparr>mem_usernames := AList.delete (Username current) (mem_usernames r)\<rparr>
               in (Inr (Some user), store_user user r))))"

section \<open>Request events\<close>

definition RecordRequestEvent ::
  "goerr option \<Rightarrow> time \<Rightarrow> RequestEvent \<Rightarrow> MemoryRepository \<Rightarrow> unit result \<times> MemoryRepository" where
  "RecordRequestEvent ctx now event r =
    (case ctx of Some e \<Rightarrow> (Inl e, r)
     | None \<Rightarrow>
       (case validateRequestEvent event of Inl e \<Rightarrow> (Inl e, r)
        | Inr _ \<Rightarrow>
          let n = mem_nextEventID r + 1;
              event = event\<lparr>ev_Timestamp := (if IsZero (ev_Timestamp event) then now else ev_Timestamp event),
                            ev_ID := n\<rparr>
          in (Inr (), r\<lparr>mem_nextEventID := n, mem_events := mem_events r @ [event]\<rparr>)))"

definition requestEventMatches :: "RequestEvent \<Rightarrow> RequestEventFilter \<Rightarrow> bool" where
  "requestEventMatches e f \<longleftrightarrow>
     (f_ClientIdentity f = [] \<or> ev_ClientIdentity e = f_ClientIdentity f)
     \<and> (f_CredentialSource f = [] \<or> ev_CredentialSource e = f_CredentialSource f)
     \<and> (f_Route f = [] \<or> ev_MatchedRoute e = f_Route f)
     \<and> (f_Operation f = [] \<or> ev_Operation e = f_Operation f)
     \<and> (f_SourceOrDestination f = [] \<or> ev_SourceOrDestination e = f_SourceOrDestination f)
     \<and> (f_Status f = [] \<or> ev_Status e = f_Status f)
     \<and> (f_CacheResult f = [] \<or> ev_CacheResult e = f_CacheResult f)
     \<and> (f_ErrorClassification f = [] \<or> ev_ErrorClassification e = f_ErrorClassification f)
     \<and> (f_ReferenceContains f = [] \<or> Contains (ev_LogicalReference e) (f_ReferenceContains f))
     \<and> (IsZero (f_After f) \<or> \<not> ev_Timestamp e < f_After f)
     \<and> (IsZero (f_Before f) \<or> ev_Timestamp e < f_Before f)"

definition requestEventWithinCursor :: "RequestEvent \<Rightarrow> RequestEventCursor option \<Rightarrow> bool \<Rightarrow> bool" where
  "requestEventWithinCursor e cursor oldestFirst =
    (case cursor of None \<Rightarrow> True
     | Some c \<Rightarrow>
       if oldestFirst
       then ev_Timestamp e > cur_Timestamp c \<or> ev_Timestamp e = cur_Timestamp c \<and> ev_ID e > cur_ID c
       else ev_Timestamp e < cur_Timestamp c \<or> ev_Timestamp e = cur_Timestamp c \<and> ev_ID e < cur_ID c)"

text \<open>sort.SliceStable with a less function.\<close>

fun insort_less :: "('a \<Rightarrow> 'a \<Rightarrow> bool) \<Rightarrow> 'a \<Rightarrow> 'a list \<Rightarrow> 'a list" where
  "insort_less lt x [] = [x]"
| "insort_less lt x (y # ys) = (if lt y x then y # insort_less lt x ys else x # y # ys)"

definition SliceStable :: "('a \<Rightarrow> 'a \<Rightarrow> bool) \<Rightarrow> 'a list \<Rightarrow> 'a list" where
  "SliceStable lt xs = foldr (insort_less lt) xs []"

definition event_less :: "bool \<Rightarrow> RequestEvent \<Rightarrow> RequestEvent \<Rightarrow> bool" where
  "event_less oldestFirst a b =
    (if ev_Timestamp a = ev_Timestamp b
     then (if oldestFirst then ev_ID a < ev_ID b else ev_ID a > ev_ID b)
     else (if oldestFirst then ev_Timestamp a < ev_Timestamp b else ev_Timestamp a > ev_Timestamp b))"

definition QueryRequestEvents ::
  "goerr option \<Rightarrow> RequestEventQuery \<Rightarrow> MemoryRepository \<Rightarrow> RequestEventPage result" where
  "QueryRequestEvents ctx query r =
    (case ctx of Some e \<Rightarrow> Inl e
     | None \<Rightarrow>
       if q_Limit query < 0 then Inl (invalid ''negative request event limit'')
       else
         let evs = filter (\<lambda>e. requestEventMatches e (q_Filter query)
                     \<and> requestEventWithinCursor e (q_Cursor query) (q_OldestFirst query)) (mem_events r);
             evs = SliceStable (event_less (q_OldestFirst query)) evs;
             hasMore = q_Limit query > 0 \<and> int (length evs) > q_Limit query;
             evs = (if hasMore then take (nat (q_Limit query)) evs else evs)
         in Inr \<lparr>Events = evs,
                 Next = (if hasMore \<and> length evs > 0
                         then Some \<lparr>cur_Timestamp = ev_Timestamp (last evs), cur_ID = ev_ID (last evs)\<rparr>
                         else None)\<rparr>)"

definition no_filter :: RequestEventFilter where
  "no_filter = \<lparr>f_ClientIdentity = [], f_CredentialSource = [], f_Route = [], f_Operation = [],
     f_SourceOrDestination = [], f_Status = [], f_CacheResult = [], f_ErrorClassification = [],
     f_ReferenceContains = [], f_After = 0, f_Before = 0\<rparr>"

definition ListRecentRequestEvents ::
  "goerr option \<Rightarrow> int \<Rightarrow> MemoryRepository \<Rightarrow> RequestEvent list result" where
  "ListRecentRequestEvents ctx limit r =
    (case QueryRequestEvents ctx \<lparr>q_Filter = no_filter, q_Limit = limit, q_Cursor = None, q_OldestFirst = False\<rparr> r of
       Inl e \<Rightarrow> Inl e | Inr page \<Rightarrow> Inr (Events page))"

definition CountRequestEvents :: "goerr option \<Rightarrow> RequestEventFilter \<Rightarrow> MemoryRepository \<Rightarrow> int result" where
  "CountRequestEvents ctx f r =
    (case ctx of Some e \<Rightarrow> Inl e
     | None \<Rightarrow> Inr (foldl (\<lambda>n e. if requestEventMatches e f then n + 1 else n) 0 (mem_events r)))"

definition FindRequestEventByID :: "goerr option \<Rightarrow> int \<Rightarrow> MemoryRepository \<Rightarrow> RequestEvent option result" where
  "FindRequestEventByID ctx eid r =
    (case ctx of Some e \<Rightarrow> Inl e | None \<Rightarrow> Inr (find (\<lambda>e. ev_ID e = eid) (mem_events r)))"

text \<open>Go's integer division of non-negative durations; the durations are sorted first.\<close>

text \<open>The total is a Duration: adding wraps around, which is the same as wrapping the sum.\<close>

definition summarizeDurations :: "duration list \<Rightarrow> duration \<times> duration" where
  "summarizeDurations ds0 =
    (if length ds0 = 0 then (0, 0)
     else let ds = sort ds0;
              total = int64 (sum_list ds);
              index = (95 * length ds + 99) div 100
          in (quo total (int (length ds)), ds ! (index - 1)))"

definition summarize_event :: "RequestEventSummary \<Rightarrow> RequestEvent \<Rightarrow> RequestEventSummary" where
  "summarize_event s e =
    (let s = s\<lparr>Total := Total s + 1\<rparr>;
         s = (if ev_Status e = StatusError then s\<lparr>Errors := Errors s + 1\<rparr> else s);
         s = (if ev_Status e = StatusDenied \<and> ev_Operation e = OperationPush
              then s\<lparr>DeniedPushes := DeniedPushes s + 1\<rparr> else s);
         s = (if ev_ErrorClassification e = ''upstream_authentication_failed''
              then s\<lparr>AuthFailures := AuthFailures s + 1\<rparr> else s)
     in if ev_CacheResult e = CacheHit then s\<lparr>CacheHits := CacheHits s + 1\<rparr>
        else if ev_CacheResult e = CacheMiss then s\<lparr>CacheMisses := CacheMisses s + 1\<rparr> else s)"

definition zero_summary :: RequestEventSummary where
  "zero_summary = \<lparr>Total = 0, Errors = 0, DeniedPushes = 0, AuthFailures = 0, CacheHits = 0,
     CacheMisses = 0, Average = 0, P95 = 0\<rparr>"

definition SummarizeRequestEvents ::
  "goerr option \<Rightarrow> time \<Rightarrow> MemoryRepository \<Rightarrow> RequestEventSummary result" where
  "SummarizeRequestEvents ctx after r =
    (case ctx of Some e \<Rightarrow> Inl e
     | None \<Rightarrow>
       let evs = filter (\<lambda>e. \<not> ev_Timestamp e < after) (mem_events r);
           s = foldl summarize_event zero_summary evs;
           ds = filter (\<lambda>d. d > 0) (map ev_Duration evs)
       in Inr (s\<lparr>Average := fst (summarizeDurations ds), P95 := snd (summarizeDurations ds)\<rparr>))"

section \<open>Provenance, tags and cache bindings\<close>

definition RecordProvenance ::
  "goerr option \<Rightarrow> time \<Rightarrow> ProvenanceRecord \<Rightarrow> MemoryRepository \<Rightarrow> unit result \<times> MemoryRepository" where
  "RecordProvenance ctx now record r =
    (case ctx of Some e \<Rightarrow> (Inl e, r)
     | None \<Rightarrow>
       (case validateProvenanceRecord record of Inl e \<Rightarrow> (Inl e, r)
        | Inr _ \<Rightarrow>
          let record = (if IsZero (RetrievedAt record) then record\<lparr>RetrievedAt := now\<rparr> else record)
          in (Inr (), r\<lparr>mem_provenance := mem_provenance r @ [record]\<rparr>)))"

definition later_provenance :: "string \<Rightarrow> ProvenanceRecord option \<Rightarrow> ProvenanceRecord \<Rightarrow> ProvenanceRecord option" where
  "later_provenance logicalReference latest record =
    (if pv_LogicalReference record \<noteq> logicalReference then latest
     else case latest of None \<Rightarrow> Some record
       | Some l \<Rightarrow> if RetrievedAt record > RetrievedAt l then Some record else latest)"

definition FindProvenanceByLogicalReference ::
  "goerr option \<Rightarrow> string \<Rightarrow> MemoryRepository \<Rightarrow> ProvenanceRecord option result" where
  "FindProvenanceByLogicalReference ctx logicalReference r =
    (case ctx of Some e \<Rightarrow> Inl e
     | None \<Rightarrow> Inr (foldl (later_provenance logicalReference) None (mem_provenance r)))"

definition RecordTagMapping ::
  "goerr option \<Rightarrow> time \<Rightarrow> TagMapping \<Rightarrow> MemoryRepository \<Rightarrow> unit result \<times> MemoryRepository" where
  "RecordTagMapping ctx now m r =
    (case ctx of Some e \<Rightarrow> (Inl e, r)
     | None \<Rightarrow>
       (case validateTagMapping m of Inl e \<Rightarrow> (Inl e, r)
        | Inr _ \<Rightarrow>
          let m = (if IsZero (ResolvedAt m) then m\<lparr>ResolvedAt := now\<rparr> else m);
              m = (if IsZero (LastValidatedAt m) then m\<lparr>LastValidatedAt := ResolvedAt m\<rparr> else m)
          in (Inr (), r\<lparr>mem_tags := AList.update (tagKey (tm_LogicalRepository m) (tm_Tag m)) m (mem_tags r)\<rparr>)))"

definition FindTagMapping ::
  "goerr option \<Rightarrow> string \<Rightarrow> string \<Rightarrow> MemoryRepository \<Rightarrow> TagMapping option result" where
  "FindTagMapping ctx logicalRepository tag r =
    (case ctx of Some e \<Rightarrow> Inl e | None \<Rightarrow> Inr (map_of (mem_tags r) (tagKey logicalRepository tag)))"

definition tag_less :: "TagMapping \<Rightarrow> TagMapping \<Rightarrow> bool" where
  "tag_less a b = (if tm_LogicalRepository a = tm_LogicalRepository b then tm_Tag a < tm_Tag b
     else tm_LogicalRepository a < tm_LogicalRepository b)"

definition ListTagMappings :: "goerr option \<Rightarrow> MemoryRepository \<Rightarrow> TagMapping list result" where
  "ListTagMappings ctx r =
    (case ctx of Some e \<Rightarrow> Inl e | None \<Rightarrow> Inr (SliceStable tag_less (map snd (mem_tags r))))"

definition record_binding :: "time \<Rightarrow> CacheBinding \<Rightarrow> (string \<times> CacheBinding) list \<Rightarrow> (string \<times> CacheBinding) list" where
  "record_binding now binding bs =
    (let key = cacheBindingKey binding in
     case map_of bs key of
       Some existing \<Rightarrow> AList.update key
         (binding\<lparr>cb_CreatedAt := cb_CreatedAt existing,
                  cb_UpdatedAt := nextUpdatedAt now (cb_UpdatedAt existing)\<rparr>) bs
     | None \<Rightarrow> AList.update key (binding\<lparr>cb_CreatedAt := now, cb_UpdatedAt := now\<rparr>) bs)"

fun validateCacheBindings :: "CacheBinding list \<Rightarrow> unit result" where
  "validateCacheBindings [] = Inr ()"
| "validateCacheBindings (b # bs) =
     (case validateCacheBinding b of Inl e \<Rightarrow> Inl e | Inr _ \<Rightarrow> validateCacheBindings bs)"

definition RecordCacheBindings ::
  "goerr option \<Rightarrow> time \<Rightarrow> CacheBinding list \<Rightarrow> MemoryRepository \<Rightarrow> unit result \<times> MemoryRepository" where
  "RecordCacheBindings ctx now bindings r =
    (case ctx of Some e \<Rightarrow> (Inl e, r)
     | None \<Rightarrow>
       (case validateCacheBindings bindings of Inl e \<Rightarrow> (Inl e, r)
        | Inr _ \<Rightarrow> (Inr (), r\<lparr>mem_bindings := fold (record_binding now) bindings (mem_bindings r)\<rparr>)))"

definition ListCacheBindings ::
  "goerr option \<Rightarrow> string \<Rightarrow> string \<Rightarrow> string \<Rightarrow> MemoryRepository \<Rightarrow> CacheBinding list result" where
  "ListCacheBindings ctx logicalRepository route objectDigest r =
    (case ctx of Some e \<Rightarrow> Inl e
     | None \<Rightarrow> Inr (sort_key cacheBindingKey
         (filter (\<lambda>b. cb_LogicalRepository b = logicalRepository \<and> cb_Route b = route
                    \<and> cb_ObjectDigest b = objectDigest) (map snd (mem_bindings r)))))"

section \<open>The user directory as an interface\<close>

text \<open>
  What clients of a repository rely on of its users: lookup by identifier, unique names, and
  updates guarded by the modification time the caller saw. A call is a creation or an update;
  a call that does not return a user changes nothing.
\<close>

datatype user_call = UCreate time User | UUpdate time User time

fun call_user :: "user_call \<Rightarrow> User" where
  "call_user (UCreate _ u) = u" | "call_user (UUpdate _ u _) = u"

locale user_directory =
  fixes call :: "goerr option \<Rightarrow> user_call \<Rightarrow> 's \<Rightarrow> User option result \<times> 's"
    and lookup :: "'s \<Rightarrow> string \<Rightarrow> User option"
    and inv :: "'s \<Rightarrow> bool"
  assumes unique_names: "inv s \<Longrightarrow> lookup s i = Some u \<Longrightarrow> lookup s j = Some v \<Longrightarrow> Username u = Username v \<Longrightarrow> i = j"
    and call_inv: "inv s \<Longrightarrow> call ctx c s = (res, s') \<Longrightarrow> inv s'"
    and refused: "inv s \<Longrightarrow> call ctx c s = (res, s') \<Longrightarrow> res = Inr None \<or> \<not> isOK res \<Longrightarrow> lookup s' = lookup s"
    and performed: "inv s \<Longrightarrow> call ctx c s = (Inr (Some u'), s') \<Longrightarrow>
        usr_ID u' = usr_ID (call_user c) \<and> lookup s' = (lookup s)(usr_ID (call_user c) \<mapsto> u')"
    and create_fresh: "inv s \<Longrightarrow> call ctx (UCreate now u) s = (Inr (Some u'), s') \<Longrightarrow> lookup s (usr_ID u) = None"
    and update_seen: "inv s \<Longrightarrow> call ctx (UUpdate now u expected) s = (Inr (Some u'), s') \<Longrightarrow>
        \<exists>cur. lookup s (usr_ID u) = Some cur \<and> usr_UpdatedAt cur = expected
          \<and> usr_CreatedAt u' = usr_CreatedAt cur \<and> usr_UpdatedAt u' > usr_UpdatedAt cur"
begin

fun calls :: "(goerr option \<times> user_call) list \<Rightarrow> 's \<Rightarrow> 's" where
  "calls [] s = s"
| "calls ((ctx, c) # cs) s = calls cs (snd (call ctx c s))"

lemma calls_inv: "inv s \<Longrightarrow> inv (calls cs s)"
  by (induction cs s rule: calls.induct) (auto intro: call_inv [OF _ surjective_pairing])

lemma call_newer:
  assumes "inv s" "lookup s i = Some u"
  shows "\<exists>u'. lookup (snd (call ctx c s)) i = Some u' \<and> usr_UpdatedAt u \<le> usr_UpdatedAt u' \<and> usr_CreatedAt u' = usr_CreatedAt u"
proof -
  obtain res s' where c: "call ctx c s = (res, s')" by force
  show ?thesis
  proof (cases "\<exists>u'. res = Inr (Some u') \<and> usr_ID (call_user c) = i")
    case True
    then obtain u' where u': "call ctx c s = (Inr (Some u'), s')" "usr_ID (call_user c) = i" using c by auto
    have l: "lookup s' i = Some u'" using performed [OF assms(1) u'(1)] u'(2) by simp
    show ?thesis
    proof (cases c)
      case (UCreate now v)
      with create_fresh [OF assms(1), of ctx now v u' s'] u' assms(2) show ?thesis by simp
    next
      case (UUpdate now v expected)
      with update_seen [OF assms(1), of ctx now v expected u' s'] u' l c assms(2) show ?thesis by auto
    qed
  next
    case False
    have "lookup s' i = Some u"
    proof (cases "\<exists>u'. res = Inr (Some u')")
      case True
      then obtain u' where "call ctx c s = (Inr (Some u'), s')" using c by auto
      from performed [OF assms(1) this] False True assms(2) show ?thesis by auto
    next
      case False
      then have "res = Inr None \<or> \<not> isOK res" by (cases res) auto
      from refused [OF assms(1) c this] assms(2) show ?thesis by simp
    qed
    with c show ?thesis by auto
  qed
qed

lemma calls_newer:
  "inv s \<Longrightarrow> lookup s i = Some u \<Longrightarrow>
   \<exists>u'. lookup (calls cs s) i = Some u' \<and> usr_UpdatedAt u \<le> usr_UpdatedAt u' \<and> usr_CreatedAt u' = usr_CreatedAt u"
proof (induction cs s arbitrary: u rule: calls.induct)
  case (2 ctx c cs s)
  obtain u1 where u1: "lookup (snd (call ctx c s)) i = Some u1" "usr_UpdatedAt u \<le> usr_UpdatedAt u1"
    "usr_CreatedAt u1 = usr_CreatedAt u"
    using call_newer [OF "2.prems"] by blast
  have "inv (snd (call ctx c s))" using call_inv [OF "2.prems"(1) surjective_pairing] .
  from "2.IH" [OF this u1(1)] u1 show ?case by auto
qed simp

text \<open>No lost update: of two updates made from the same reading, the second is refused,
  whatever happens between them.\<close>

lemma no_lost_update:
  assumes "inv s" "call ctx1 (UUpdate now1 u1 seen) s = (Inr (Some u1'), s1)"
    and "usr_ID u2 = usr_ID u1"
  shows "\<not> (\<exists>u2' s2. call ctx2 (UUpdate now2 u2 seen) (calls cs s1) = (Inr (Some u2'), s2))"
proof
  assume "\<exists>u2' s2. call ctx2 (UUpdate now2 u2 seen) (calls cs s1) = (Inr (Some u2'), s2)"
  then obtain u2' s2 where c2: "call ctx2 (UUpdate now2 u2 seen) (calls cs s1) = (Inr (Some u2'), s2)" by blast
  have i1: "inv s1" by (rule call_inv [OF assms(1,2)])
  have l1: "lookup s1 (usr_ID u1) = Some u1'" using performed [OF assms(1,2)] by simp
  have "usr_UpdatedAt u1' > seen" using update_seen [OF assms(1,2)] by auto
  with calls_newer [OF i1 l1, of cs] update_seen [OF calls_inv [OF i1] c2] assms(3) show False by auto
qed

end

section \<open>Users of the memory repository\<close>

definition users_ok :: "MemoryRepository \<Rightarrow> bool" where
  "users_ok r \<longleftrightarrow>
     (\<forall>i u. map_of (mem_users r) i = Some u \<longrightarrow> usr_ID u = i \<and> map_of (mem_usernames r) (Username u) = Some i)
     \<and> (\<forall>n i. map_of (mem_usernames r) n = Some i \<longrightarrow> (\<exists>u. map_of (mem_users r) i = Some u \<and> Username u = n))
     \<and> distinct (map fst (mem_users r)) \<and> distinct (map fst (mem_usernames r))"

lemma users_ok_user:
  "users_ok r \<Longrightarrow> map_of (mem_users r) i = Some u \<Longrightarrow>
     usr_ID u = i \<and> map_of (mem_usernames r) (Username u) = Some i"
  by (simp add: users_ok_def)

lemma users_ok_name:
  "users_ok r \<Longrightarrow> map_of (mem_usernames r) n = Some i \<Longrightarrow>
     \<exists>u. map_of (mem_users r) i = Some u \<and> Username u = n"
  by (simp add: users_ok_def)

fun mem_call :: "goerr option \<Rightarrow> user_call \<Rightarrow> MemoryRepository \<Rightarrow> User option result \<times> MemoryRepository" where
  "mem_call ctx (UCreate now u) r = CreateUser ctx now u r"
| "mem_call ctx (UUpdate now u expected) r = UpdateUser ctx now u expected r"

lemma CreateUser_Some:
  assumes "CreateUser ctx now u r = (Inr (Some u'), r')"
  shows "ctx = None" "isOK (validateUser u)" "map_of (mem_users r) (usr_ID u) = None"
    "map_of (mem_usernames r) (Username u) = None"
    "u' = u\<lparr>usr_CreatedAt := now, usr_UpdatedAt := now\<rparr>" "r' = store_user u' r"
  using assms by (auto simp: CreateUser_def Let_def isOK_def split: option.splits sum.splits if_splits)

lemma UpdateUser_Some:
  assumes "UpdateUser ctx now u expected r = (Inr (Some u'), r')"
  obtains cur where "map_of (mem_users r) (usr_ID u) = Some cur" "usr_UpdatedAt cur = expected"
    "map_of (mem_usernames r) (Username u) \<in> {None, Some (usr_ID u)}"
    "u' = u\<lparr>usr_CreatedAt := usr_CreatedAt cur, usr_UpdatedAt := nextUpdatedAt now (usr_UpdatedAt cur)\<rparr>"
    "r' = store_user u' (r\<lparr>mem_usernames := AList.delete (Username cur) (mem_usernames r)\<rparr>)"
  using assms
  by (cases "map_of (mem_usernames r) (Username u)")
     (auto simp: UpdateUser_def Let_def split: option.splits sum.splits if_splits)

lemma CreateUser_refused:
  "CreateUser ctx now u r = (res, r') \<Longrightarrow> res = Inr None \<or> \<not> isOK res \<Longrightarrow> r' = r"
  by (auto simp: CreateUser_def Let_def split: option.splits sum.splits if_splits)

lemma UpdateUser_refused:
  "UpdateUser ctx now u expected r = (res, r') \<Longrightarrow> res = Inr None \<or> \<not> isOK res \<Longrightarrow> r' = r"
  by (auto simp: UpdateUser_def Let_def split: option.splits sum.splits if_splits)

lemma store_user_lookup [simp]:
  "map_of (mem_users (store_user u r)) = (map_of (mem_users r))(usr_ID u \<mapsto> u)"
  "map_of (mem_usernames (store_user u r)) = (map_of (mem_usernames r))(Username u \<mapsto> usr_ID u)"
  by (simp_all add: store_user_def AList.update_conv')

lemma distinct_store_user:
  "distinct (map fst (mem_users r)) \<Longrightarrow> distinct (map fst (mem_users (store_user u r)))"
  "distinct (map fst (mem_usernames r)) \<Longrightarrow> distinct (map fst (mem_usernames (store_user u r)))"
  by (simp_all add: store_user_def AList.distinct_update)

lemma users_ok_new: "users_ok r \<Longrightarrow> map_of (mem_users r) (usr_ID u) = None \<Longrightarrow>
    map_of (mem_usernames r) (Username u) = None \<Longrightarrow> users_ok (store_user u r)"
proof -
  assume r: "users_ok r" and f: "map_of (mem_users r) (usr_ID u) = None"
    "map_of (mem_usernames r) (Username u) = None"
  have "Username v \<noteq> Username u" if "map_of (mem_users r) i = Some v" for i v
    using users_ok_user [OF r that] f by auto
  moreover have "i \<noteq> usr_ID u" if "map_of (mem_usernames r) n = Some i" for n i
    using users_ok_name [OF r that] f by auto
  ultimately show ?thesis
    using r unfolding users_ok_def store_user_lookup by (simp add: distinct_store_user)
qed

lemma users_ok_create: "users_ok r \<Longrightarrow> CreateUser ctx now u r = (Inr (Some u'), r') \<Longrightarrow> users_ok r'"
  using CreateUser_Some [of ctx now u r u' r'] by (auto intro: users_ok_new)

lemma users_ok_update:
  assumes r: "users_ok r" and c: "UpdateUser ctx now u expected r = (Inr (Some u'), r')"
  shows "users_ok r'"
proof -
  obtain cur where cur: "map_of (mem_users r) (usr_ID u) = Some cur"
    and n: "map_of (mem_usernames r) (Username u) \<in> {None, Some (usr_ID u)}"
    and u': "u' = u\<lparr>usr_CreatedAt := usr_CreatedAt cur, usr_UpdatedAt := nextUpdatedAt now (usr_UpdatedAt cur)\<rparr>"
    and r': "r' = store_user u' (r\<lparr>mem_usernames := AList.delete (Username cur) (mem_usernames r)\<rparr>)"
    using c by (rule UpdateUser_Some)
  let ?U = "map_of (mem_users r)" and ?N = "map_of (mem_usernames r)"
  have U: "map_of (mem_users r') = ?U(usr_ID u \<mapsto> u')"
    and N: "map_of (mem_usernames r') = (?N(Username cur := None))(Username u \<mapsto> usr_ID u)"
    by (simp_all add: r' u' AList.delete_conv')
  have ids: "usr_ID u' = usr_ID u" "Username u' = Username u" by (simp_all add: u')
  have a: "usr_ID v = i \<and> map_of (mem_usernames r') (Username v) = Some i"
    if "map_of (mem_users r') i = Some v" for i v
  proof (cases "i = usr_ID u")
    case True
    with that U ids show ?thesis by (simp add: N)
  next
    case False
    then have v: "?U i = Some v" using that U by simp
    then have iv: "usr_ID v = i" "?N (Username v) = Some i" using r by (auto simp: users_ok_def)
    have "?N (Username cur) = Some (usr_ID u)" using r cur by (auto simp: users_ok_def)
    then have "Username v \<noteq> Username cur" "Username v \<noteq> Username u" using iv False n by auto
    with iv show ?thesis by (simp add: N)
  qed
  have b: "\<exists>v. map_of (mem_users r') i = Some v \<and> Username v = m"
    if m: "map_of (mem_usernames r') m = Some i" for m i
  proof (cases "m = Username u")
    case True
    with m have "i = usr_ID u" by (simp add: N)
    with True U ids show ?thesis by simp
  next
    case False
    then have m': "m \<noteq> Username cur" "?N m = Some i" using m by (auto simp: N split: if_splits)
    from users_ok_name [OF r m'(2)] obtain v where v: "?U i = Some v" "Username v = m" by blast
    then have "i \<noteq> usr_ID u" using cur m'(1) by auto
    with v U show ?thesis by simp
  qed
  have "distinct (map fst (mem_users r'))" "distinct (map fst (mem_usernames r'))"
    using r unfolding r' by (auto simp: users_ok_def AList.distinct_delete intro!: distinct_store_user)
  with a b show ?thesis by (simp add: users_ok_def)
qed

interpretation memory: user_directory mem_call "\<lambda>r. map_of (mem_users r)" users_ok
proof
  fix s :: MemoryRepository and i u j v
  assume "users_ok s" "map_of (mem_users s) i = Some u" "map_of (mem_users s) j = Some v" "Username u = Username v"
  then show "i = j" by (metis option.inject users_ok_def)
next
  fix s s' ctx c res
  assume i: "users_ok s" and c: "mem_call ctx c s = (res, s')"
  show "users_ok s'"
  proof (cases "\<exists>u'. res = Inr (Some u')")
    case True
    with i c show ?thesis by (cases c) (auto intro: users_ok_create users_ok_update)
  next
    case False
    then have "res = Inr None \<or> \<not> isOK res" by (cases res) auto
    with c i show ?thesis by (cases c) (auto dest: CreateUser_refused UpdateUser_refused)
  qed
next
  fix s s' ctx c res
  assume "mem_call ctx c s = (res, s')" "res = Inr None \<or> \<not> isOK res"
  then show "map_of (mem_users s') = map_of (mem_users s)"
    by (cases c) (auto dest: CreateUser_refused UpdateUser_refused)
next
  fix s s' ctx c u'
  assume c: "mem_call ctx c s = (Inr (Some u'), s')"
  show "usr_ID u' = usr_ID (call_user c) \<and> map_of (mem_users s') = (map_of (mem_users s))(usr_ID (call_user c) \<mapsto> u')"
  proof (cases c)
    case (UCreate now u)
    with c CreateUser_Some [of ctx now u s u' s'] show ?thesis by auto
  next
    case (UUpdate now u expected)
    with c have "UpdateUser ctx now u expected s = (Inr (Some u'), s')" by simp
    then show ?thesis by (rule UpdateUser_Some) (auto simp: UUpdate)
  qed
next
  fix s s' ctx now u u'
  assume "mem_call ctx (UCreate now u) s = (Inr (Some u'), s')"
  then show "map_of (mem_users s) (usr_ID u) = None" using CreateUser_Some by auto
next
  fix s s' ctx now u expected u'
  assume "mem_call ctx (UUpdate now u expected) s = (Inr (Some u'), s')"
  then have "UpdateUser ctx now u expected s = (Inr (Some u'), s')" by simp
  then show "\<exists>cur. map_of (mem_users s) (usr_ID u) = Some cur \<and> usr_UpdatedAt cur = expected
      \<and> usr_CreatedAt u' = usr_CreatedAt cur \<and> usr_UpdatedAt u' > usr_UpdatedAt cur"
    by (rule UpdateUser_Some) (auto simp: nextUpdatedAt_gt)
qed

section \<open>Sorting and paging of request events\<close>

lemma set_insort_less [simp]: "set (insort_less lt x ys) = insert x (set ys)"
  by (induction ys) auto

lemma set_SliceStable [simp]: "set (SliceStable lt xs) = set xs"
  by (induction xs) (auto simp: SliceStable_def)

lemma length_insort_less [simp]: "length (insort_less lt x ys) = Suc (length ys)"
  by (induction ys) auto

lemma length_SliceStable [simp]: "length (SliceStable lt xs) = length xs"
  by (induction xs) (auto simp: SliceStable_def)

lemma SliceStable_Cons: "SliceStable lt (x # xs) = insort_less lt x (SliceStable lt xs)"
  by (simp add: SliceStable_def)

lemma sorted_insort_less:
  assumes "transp lt" "sorted_wrt lt ys" "\<forall>y \<in> set ys. lt x y \<or> lt y x"
  shows "sorted_wrt lt (insort_less lt x ys)"
  using assms(2,3)
proof (induction ys)
  case (Cons y ys)
  show ?case
  proof (cases "lt y x")
    case True
    with Cons show ?thesis by auto
  next
    case False
    with Cons have "lt x y" by auto
    with Cons False show ?thesis using assms(1) by (auto dest: transpD)
  qed
qed simp

lemma distinct_sorted_less: "sorted_wrt lt xs \<Longrightarrow> (\<And>x. \<not> lt x x) \<Longrightarrow> distinct xs"
  by (induction xs) auto

lemma filter_insort_less:
  assumes "transp lt" "sorted_wrt lt ys"
  shows "filter P (insort_less lt x ys) = (if P x then insort_less lt x (filter P ys) else filter P ys)"
  using assms(2)
proof (induction ys)
  case (Cons y ys)
  have "insort_less lt x (filter P ys) = x # filter P ys" if "\<not> lt y x"
  proof (cases "filter P ys")
    case (Cons z zs)
    then have "z \<in> set (filter P ys)" by simp
    then have "lt y z" using Cons.prems by auto
    then have "\<not> lt z x" using that assms(1) by (auto dest: transpD)
    with Cons show ?thesis by simp
  qed simp
  with Cons show ?case by auto
qed simp

lemma sorted_SliceStable:
  assumes "transp lt" "distinct xs" "\<forall>x \<in> set xs. \<forall>y \<in> set xs. x \<noteq> y \<longrightarrow> lt x y \<or> lt y x"
  shows "sorted_wrt lt (SliceStable lt xs)"
  using assms(2,3)
proof (induction xs)
  case (Cons x xs)
  then have "sorted_wrt lt (SliceStable lt xs)" by simp
  then show ?case unfolding SliceStable_Cons
    by (rule sorted_insort_less [OF assms(1)]) (use Cons.prems in auto)
qed (simp add: SliceStable_def)

lemma filter_SliceStable:
  assumes "transp lt" "distinct xs" "\<forall>x \<in> set xs. \<forall>y \<in> set xs. x \<noteq> y \<longrightarrow> lt x y \<or> lt y x"
  shows "filter P (SliceStable lt xs) = SliceStable lt (filter P xs)"
  using assms(2,3)
proof (induction xs)
  case (Cons x xs)
  have "sorted_wrt lt (SliceStable lt xs)"
    by (rule sorted_SliceStable [OF assms(1)]) (use Cons.prems in auto)
  with Cons show ?case by (simp add: SliceStable_Cons filter_insort_less [OF assms(1)])
qed (simp add: SliceStable_def)

lemma transp_event_less: "transp (event_less b)"
  by (rule transpI) (auto simp: event_less_def split: if_splits)

lemma event_less_irrefl: "\<not> event_less b e e"
  by (simp add: event_less_def)

lemma event_less_total: "ev_ID x \<noteq> ev_ID y \<Longrightarrow> event_less b x y \<or> event_less b y x"
  by (auto simp: event_less_def)

lemma within_cursor:
  "requestEventWithinCursor e (Some \<lparr>cur_Timestamp = ev_Timestamp l, cur_ID = ev_ID l\<rparr>) b \<longleftrightarrow> event_less b l e"
  by (auto simp: requestEventWithinCursor_def event_less_def)

text \<open>Event identifiers grow with the log.\<close>

definition events_ok :: "MemoryRepository \<Rightarrow> bool" where
  "events_ok r \<longleftrightarrow> sorted_wrt (<) (map ev_ID (mem_events r)) \<and> (\<forall>e \<in> set (mem_events r). ev_ID e \<le> mem_nextEventID r)"

lemma events_ok_new: "events_ok NewMemoryRepository"
  by (simp add: events_ok_def NewMemoryRepository_def)

lemma events_ok_record: "events_ok r \<Longrightarrow> events_ok (snd (RecordRequestEvent ctx now e r))"
  by (auto simp: events_ok_def RecordRequestEvent_def Let_def sorted_wrt_append less_le_trans
      split: option.splits sum.splits)

fun record_all :: "(goerr option \<times> time \<times> RequestEvent) list \<Rightarrow> MemoryRepository \<Rightarrow> MemoryRepository" where
  "record_all [] r = r"
| "record_all ((ctx, now, e) # es) r = record_all es (snd (RecordRequestEvent ctx now e r))"

lemma events_ok_record_all: "events_ok r \<Longrightarrow> events_ok (record_all es r)"
  by (induction es r rule: record_all.induct) (auto intro: events_ok_record)

lemma events_ok_distinct:
  assumes "events_ok r"
  shows "distinct (mem_events r)"
    "x \<in> set (mem_events r) \<Longrightarrow> y \<in> set (mem_events r) \<Longrightarrow> x \<noteq> y \<Longrightarrow> ev_ID x \<noteq> ev_ID y"
proof -
  have "distinct (map ev_ID (mem_events r))"
    using assms strict_sorted_iff unfolding events_ok_def by blast
  then show "distinct (mem_events r)"
    "x \<in> set (mem_events r) \<Longrightarrow> y \<in> set (mem_events r) \<Longrightarrow> x \<noteq> y \<Longrightarrow> ev_ID x \<noteq> ev_ID y"
    by (auto simp: distinct_map inj_on_def)
qed

text \<open>All matching events in order, and what a client collects by following the cursors.\<close>

definition all_events :: "RequestEventQuery \<Rightarrow> MemoryRepository \<Rightarrow> RequestEvent list" where
  "all_events q r = SliceStable (event_less (q_OldestFirst q))
     (filter (\<lambda>e. requestEventMatches e (q_Filter q)) (mem_events r))"

fun follow :: "nat \<Rightarrow> RequestEventQuery \<Rightarrow> RequestEventCursor option \<Rightarrow> MemoryRepository \<Rightarrow> RequestEvent list list" where
  "follow 0 q c r = []"
| "follow (Suc k) q c r =
     (case QueryRequestEvents None (q\<lparr>q_Cursor := c\<rparr>) r of
        Inl _ \<Rightarrow> []
      | Inr p \<Rightarrow> Events p # (case Next p of None \<Rightarrow> [] | Some c' \<Rightarrow> follow k q (Some c') r))"

definition cursor_after :: "RequestEvent list \<Rightarrow> RequestEventCursor option" where
  "cursor_after pre = (if pre = [] then None
     else Some \<lparr>cur_Timestamp = ev_Timestamp (last pre), cur_ID = ev_ID (last pre)\<rparr>)"

lemma sorted_all_events: "events_ok r \<Longrightarrow> sorted_wrt (event_less (q_OldestFirst q)) (all_events q r)"
  unfolding all_events_def
  by (rule sorted_SliceStable [OF transp_event_less])
     (auto simp: events_ok_distinct intro!: event_less_total events_ok_distinct(2))

lemma after_cursor:
  assumes "events_ok r" "all_events q r = pre @ post"
  shows "filter (\<lambda>e. requestEventWithinCursor e (cursor_after pre) (q_OldestFirst q)) (all_events q r) = post"
proof (cases pre rule: rev_cases)
  case Nil
  then show ?thesis using assms(2) by (simp add: cursor_after_def requestEventWithinCursor_def)
next
  case (snoc pre' l)
  let ?lt = "event_less (q_OldestFirst q)"
  have s: "sorted_wrt ?lt (pre' @ l # post)" using sorted_all_events [OF assms(1), of q] assms(2) snoc by simp
  have p: "\<not> ?lt l e" if e: "e \<in> set (pre' @ [l])" for e
  proof (cases "e = l")
    case False
    then have "?lt e l" using s e by (simp add: sorted_wrt_append)
    then show ?thesis using transpD [OF transp_event_less, of _ e l e] event_less_irrefl by blast
  qed (simp add: event_less_irrefl)
  have "filter (?lt l) (pre' @ [l]) = []" using p by (auto simp: filter_empty_conv)
  moreover have "filter (?lt l) post = post" using s by (auto simp: sorted_wrt_append filter_id_conv)
  ultimately show ?thesis using assms(2) snoc by (simp add: cursor_after_def within_cursor event_less_irrefl)
qed

lemma Query_page:
  assumes "events_ok r" "all_events q r = pre @ post" "0 < q_Limit q"
  shows "QueryRequestEvents None (q\<lparr>q_Cursor := cursor_after pre\<rparr>) r =
    Inr (if int (length post) > q_Limit q
         then \<lparr>Events = take (nat (q_Limit q)) post, Next = cursor_after (pre @ take (nat (q_Limit q)) post)\<rparr>
         else \<lparr>Events = post, Next = None\<rparr>)"
proof -
  let ?Q = "\<lambda>e. requestEventMatches e (q_Filter q)"
  let ?W = "\<lambda>e. requestEventWithinCursor e (cursor_after pre) (q_OldestFirst q)"
  have "SliceStable (event_less (q_OldestFirst q)) (filter (\<lambda>e. ?Q e \<and> ?W e) (mem_events r))
      = SliceStable (event_less (q_OldestFirst q)) (filter ?W (filter ?Q (mem_events r)))"
    by (simp add: conj_commute)
  also have "\<dots> = filter ?W (all_events q r)"
    unfolding all_events_def
    by (rule filter_SliceStable [OF transp_event_less, symmetric])
       (auto simp: events_ok_distinct [OF assms(1)] intro!: event_less_total events_ok_distinct(2) [OF assms(1)])
  also have "\<dots> = post" by (rule after_cursor [OF assms(1,2)])
  finally have e: "SliceStable (event_less (q_OldestFirst q)) (filter (\<lambda>e. ?Q e \<and> ?W e) (mem_events r)) = post" .
  define c where "c = cursor_after pre"
  have "QueryRequestEvents None (q\<lparr>q_Cursor := c\<rparr>) r =
    Inr (if int (length post) > q_Limit q
         then \<lparr>Events = take (nat (q_Limit q)) post,
               Next = Some \<lparr>cur_Timestamp = ev_Timestamp (last (take (nat (q_Limit q)) post)),
                            cur_ID = ev_ID (last (take (nat (q_Limit q)) post))\<rparr>\<rparr>
         else \<lparr>Events = post, Next = None\<rparr>)"
    unfolding QueryRequestEvents_def using assms(3) e [folded c_def] by (auto simp: Let_def)
  moreover have "take (nat (q_Limit q)) post \<noteq> []" if "int (length post) > q_Limit q"
    using that assms(3) by auto
  ultimately show ?thesis by (simp add: c_def cursor_after_def)
qed

lemma follow_suffix:
  assumes "events_ok r" "0 < q_Limit q"
  shows "all_events q r = pre @ post \<Longrightarrow> length post < k \<Longrightarrow>
    concat (follow k q (cursor_after pre) r) = post
    \<and> (\<forall>p \<in> set (follow k q (cursor_after pre) r). int (length p) \<le> q_Limit q)"
proof (induction k arbitrary: pre post)
  case (Suc k)
  note page = Query_page [OF assms(1) Suc.prems(1) assms(2)]
  show ?case
  proof (cases "int (length post) > q_Limit q")
    case True
    let ?a = "take (nat (q_Limit q)) post" and ?b = "drop (nat (q_Limit q)) post"
    have "?a \<noteq> []" using assms(2) True by auto
    then have c: "cursor_after (pre @ ?a) = Some \<lparr>cur_Timestamp = ev_Timestamp (last (pre @ ?a)), cur_ID = ev_ID (last (pre @ ?a))\<rparr>"
      by (simp add: cursor_after_def)
    have IH: "concat (follow k q (cursor_after (pre @ ?a)) r) = ?b
      \<and> (\<forall>p \<in> set (follow k q (cursor_after (pre @ ?a)) r). int (length p) \<le> q_Limit q)"
      by (rule Suc.IH) (use Suc.prems assms(2) True in auto)
    then show ?thesis using page True c assms(2) by auto
  qed (use page in auto)
qed simp

section \<open>Durations\<close>

lemma sum_list_bounds:
  fixes ds :: "int list"
  assumes "\<forall>d \<in> set ds. lo \<le> d \<and> d \<le> hi"
  shows "lo * int (length ds) \<le> sum_list ds \<and> sum_list ds \<le> hi * int (length ds)"
  using assms by (induction ds) (auto simp: algebra_simps)

lemma p95_index: "0 < (n::nat) \<Longrightarrow> 0 < (95 * n + 99) div 100 \<and> (95 * n + 99) div 100 \<le> n
    \<and> 95 * n \<le> 100 * ((95 * n + 99) div 100)"
proof -
  assume n: "0 < n"
  define k where "k = (95 * n + 99) div 100"
  have "100 * k \<le> 95 * n + 99" "95 * n + 99 < 100 * k + 100" unfolding k_def by linarith+
  then show ?thesis using n unfolding k_def [symmetric] by linarith
qed

text \<open>At least i + 1 elements of a sorted list are at most its i-th.\<close>

lemma sorted_count:
  fixes ds :: "int list"
  assumes "sorted ds" "i < length ds"
  shows "Suc i \<le> length (filter (\<lambda>d. d \<le> ds ! i) ds)"
proof -
  have t: "\<forall>d \<in> set (take (Suc i) ds). d \<le> ds ! i"
    using assms by (auto simp: in_set_conv_nth sorted_iff_nth_mono less_Suc_eq_le)
  have "length (filter (\<lambda>d. d \<le> ds ! i) (take (Suc i) ds)) = Suc i"
    using t assms(2) by (simp add: filter_True min_def)
  moreover have "length (filter (\<lambda>d. d \<le> ds ! i) ds) =
      length (filter (\<lambda>d. d \<le> ds ! i) (take (Suc i) ds)) + length (filter (\<lambda>d. d \<le> ds ! i) (drop (Suc i) ds))"
    by (metis append_take_drop_id filter_append length_append)
  ultimately show ?thesis by simp
qed

section \<open>The memory repository behind the interface\<close>

text \<open>The repository with the outcomes of contexts and the clock as sequences indexed by a
  call counter.\<close>

type_synonym MemState = "MemoryRepository \<times> nat"

definition Memory_ops :: "(nat \<Rightarrow> goerr option) \<Rightarrow> (nat \<Rightarrow> time) \<Rightarrow> MemState Repository" where
  "Memory_ops cx clock = \<lparr>
     mr_RecordRequestEvent = (\<lambda>(r, n) e. case RecordRequestEvent (cx n) (clock n) e r of (x, r') \<Rightarrow> (x, (r', Suc n))),
     mr_RecordProvenance = (\<lambda>(r, n) p. case RecordProvenance (cx n) (clock n) p r of (x, r') \<Rightarrow> (x, (r', Suc n))),
     mr_RecordTagMapping = (\<lambda>(r, n) m. case RecordTagMapping (cx n) (clock n) m r of (x, r') \<Rightarrow> (x, (r', Suc n))),
     mr_FindTagMapping = (\<lambda>(r, n) repo tag. (FindTagMapping (cx n) repo tag r, (r, Suc n))),
     mr_RecordCacheBindings = (\<lambda>(r, n) bs. case RecordCacheBindings (cx n) (clock n) bs r of (x, r') \<Rightarrow> (x, (r', Suc n))),
     mr_ListCacheBindings = (\<lambda>(r, n) repo route d. (ListCacheBindings (cx n) repo route d r, (r, Suc n)))\<rparr>"

section \<open>Cache bindings\<close>

text \<open>Recorded bindings are found again, but for the times.\<close>

definition same_binding :: "CacheBinding \<Rightarrow> CacheBinding \<Rightarrow> bool" where
  "same_binding a b \<longleftrightarrow> a = b\<lparr>cb_CreatedAt := cb_CreatedAt a, cb_UpdatedAt := cb_UpdatedAt a\<rparr>"

lemma record_binding_same:
  "\<exists>b'. map_of (record_binding now b bs) = (map_of bs)(cacheBindingKey b \<mapsto> b') \<and> same_binding b' b"
  by (auto simp: record_binding_def Let_def AList.update_conv' same_binding_def split: option.split
      intro!: exI)

lemma fold_record_binding:
  "k \<in> cacheBindingKey ` set new \<Longrightarrow>
   \<exists>b b'. b \<in> set new \<and> cacheBindingKey b = k \<and> map_of (fold (record_binding now) new bs) k = Some b' \<and> same_binding b' b"
proof (induction new rule: rev_induct)
  case (snoc b new)
  obtain b' where b': "map_of (record_binding now b (fold (record_binding now) new bs))
      = (map_of (fold (record_binding now) new bs))(cacheBindingKey b \<mapsto> b')" "same_binding b' b"
    using record_binding_same by blast
  show ?case
  proof (cases "k = cacheBindingKey b")
    case True
    with b' show ?thesis by auto
  next
    case False
    with snoc obtain c c' where "c \<in> set new" "cacheBindingKey c = k"
      "map_of (fold (record_binding now) new bs) k = Some c'" "same_binding c' c" by auto
    with b' False show ?thesis by auto
  qed
qed simp

lemma RecordCacheBindings_Inr:
  assumes "RecordCacheBindings ctx now new r = (Inr u, r')" "k \<in> cacheBindingKey ` set new"
  obtains b b' where "b \<in> set new" "cacheBindingKey b = k" "b' \<in> set (map snd (mem_bindings r'))" "same_binding b' b"
proof -
  have "mem_bindings r' = fold (record_binding now) new (mem_bindings r)"
    using assms(1) by (auto simp: RecordCacheBindings_def split: option.splits sum.splits)
  with fold_record_binding [OF assms(2), of now "mem_bindings r"] obtain b b'
    where "b \<in> set new" "cacheBindingKey b = k" "map_of (mem_bindings r') k = Some b'" "same_binding b' b" by auto
  with that show thesis by (metis image_eqI map_of_SomeD set_map snd_conv)
qed

lemma same_binding_fields:
  "same_binding b' b \<Longrightarrow> cb_LogicalRepository b' = cb_LogicalRepository b \<and> cb_Route b' = cb_Route b
     \<and> cb_Source b' = cb_Source b \<and> cb_ObjectDigest b' = cb_ObjectDigest b \<and> cb_Access b' = cb_Access b
     \<and> cb_UserID b' = cb_UserID b \<and> cb_ManifestDigest b' = cb_ManifestDigest b"
  unfolding same_binding_def by (metis CacheBinding.select_convs CacheBinding.update_convs CacheBinding.surjective)

lemma ListCacheBindings_iff:
  "ListCacheBindings None repo route dg r = Inr bs \<Longrightarrow>
     b \<in> set bs \<longleftrightarrow> b \<in> set (map snd (mem_bindings r)) \<and> cb_LogicalRepository b = repo \<and> cb_Route b = route
        \<and> cb_ObjectDigest b = dg"
  by (force simp: ListCacheBindings_def)

end
