(* ===== verification/Connector.thy ===== *)
theory Connector
  imports Content_Store
begin

text \<open>
  Upstream registries (internal/registry/connector.go, manifest.go): manifests and their
  parsing, the Connector interface, and FakeConnector, the in-process registry. JSON decoding
  is a parameter that returns the fields ParseManifest declares; SHA-256 is the parameter H.
  Manifests are values, so cloneManifest is the identity.
\<close>

section \<open>Manifests\<close>

record RegDescriptor =
  rd_MediaType :: string
  rd_Digest :: string
  rd_Size :: int

record Manifest = RegDescriptor +
  Content :: string
  BlobDigests :: "string list"

definition descriptor_of :: "Manifest \<Rightarrow> RegDescriptor" where
  "descriptor_of m = \<lparr>rd_MediaType = rd_MediaType m, rd_Digest = rd_Digest m, rd_Size = rd_Size m\<rparr>"

text \<open>The fields that json.Unmarshal fills.\<close>

record RawManifest =
  raw_MediaType :: string
  raw_ConfigDigest :: string
  raw_LayerDigests :: "string list"

definition default_media_type :: string where
  "default_media_type = ''application/vnd.oci.image.manifest.v1+json''"

definition ParseManifest ::
  "(string \<Rightarrow> string) \<Rightarrow> (string \<Rightarrow> RawManifest result) \<Rightarrow> string \<Rightarrow> Manifest result" where
  "ParseManifest H unmarshal body =
    (case unmarshal body of Inl e \<Rightarrow> Inl e
     | Inr raw \<Rightarrow>
       let digests = (if raw_ConfigDigest raw \<noteq> [] then [raw_ConfigDigest raw] else [])
                     @ filter (\<lambda>d. d \<noteq> []) (raw_LayerDigests raw);
           mediaType = (if raw_MediaType raw = [] then default_media_type else raw_MediaType raw)
       in Inr \<lparr>rd_MediaType = mediaType, rd_Digest = digest_of H body, rd_Size = int (length body),
               Content = body, BlobDigests = digests\<rparr>)"

lemma ParseManifest_Inr:
  "ParseManifest H unmarshal body = Inr m \<Longrightarrow> Content m = body \<and> rd_Digest m = digest_of H body
     \<and> rd_Size m = int (length body) \<and> [] \<notin> set (BlobDigests m)"
  by (auto simp: ParseManifest_def Let_def split: sum.splits if_splits)

section \<open>The Connector interface\<close>

text \<open>An opened blob: what its reader delivers, what Close returns, and its descriptor.\<close>

record BlobStream =
  bs_Reader :: Reader
  bs_Close :: "goerr option"
  bs_Descriptor :: RegDescriptor

record 'w Connector =
  cn_Name :: string
  cn_Health :: "'w \<Rightarrow> unit result"
  cn_ResolveManifest :: "'w \<Rightarrow> string \<Rightarrow> string \<Rightarrow> Manifest result \<times> 'w"
  cn_OpenBlob :: "'w \<Rightarrow> string \<Rightarrow> string \<Rightarrow> BlobStream result \<times> 'w"
  cn_PutBlob :: "'w \<Rightarrow> string \<Rightarrow> string \<Rightarrow> Reader \<Rightarrow> RegDescriptor result \<times> 'w"
  cn_PutManifest :: "'w \<Rightarrow> string \<Rightarrow> string \<Rightarrow> Manifest \<Rightarrow> RegDescriptor result \<times> 'w"

section \<open>FakeConnector\<close>

record FakeConnector =
  fk_name :: string
  available :: bool
  manifests :: "string \<Rightarrow> Manifest option"
  blobs :: "string \<Rightarrow> string option"
  repository :: "string \<Rightarrow> string set option"

definition NewFakeConnector :: "string \<Rightarrow> FakeConnector" where
  "NewFakeConnector name = \<lparr>fk_name = name, available = True, manifests = (\<lambda>_. None),
     blobs = (\<lambda>_. None), repository = (\<lambda>_. None)\<rparr>"

definition SetAvailable :: "bool \<Rightarrow> FakeConnector \<Rightarrow> FakeConnector" where
  "SetAvailable a c = c\<lparr>available := a\<rparr>"

definition AddBlob :: "string \<Rightarrow> string \<Rightarrow> FakeConnector \<Rightarrow> FakeConnector" where
  "AddBlob digest body c = c\<lparr>blobs := (blobs c)(digest \<mapsto> body)\<rparr>"

definition manifestKey :: "string \<Rightarrow> string \<Rightarrow> string" where
  "manifestKey repo reference = repo @ ''@'' @ reference"

definition AddManifest :: "string \<Rightarrow> string \<Rightarrow> Manifest \<Rightarrow> FakeConnector \<Rightarrow> FakeConnector" where
  "AddManifest repo reference manifest c =
    (let c = c\<lparr>manifests := (manifests c)(manifestKey repo reference \<mapsto> manifest)\<rparr>
     in if rd_Digest manifest \<noteq> []
        then c\<lparr>manifests := (manifests c)(manifestKey repo (rd_Digest manifest) \<mapsto> manifest)\<rparr> else c)"

definition checkAvailable :: "goerr option \<Rightarrow> FakeConnector \<Rightarrow> unit result" where
  "checkAvailable ctx c =
    (case ctx of Some e \<Rightarrow> Inl e
     | None \<Rightarrow> if \<not> available c then Inl (sentinel_err ErrUnavailable) else Inr ())"

definition Fake_Health :: "goerr option \<Rightarrow> FakeConnector \<Rightarrow> unit result" where
  "Fake_Health ctx c =
    (case ctx of Some e \<Rightarrow> Inl e
     | None \<Rightarrow> if \<not> available c then Inl (sentinel_err ErrUnavailable) else Inr ())"

definition Fake_ResolveManifest ::
  "goerr option \<Rightarrow> FakeConnector \<Rightarrow> string \<Rightarrow> string \<Rightarrow> Manifest result" where
  "Fake_ResolveManifest ctx c repo reference =
    (case checkAvailable ctx c of Inl e \<Rightarrow> Inl e
     | Inr _ \<Rightarrow>
       (case manifests c (manifestKey repo reference) of
          None \<Rightarrow> Inl (GoErr ''manifest %s:%s'' [ErrNotFound])
        | Some manifest \<Rightarrow> Inr manifest))"

definition Fake_OpenBlob :: "goerr option \<Rightarrow> FakeConnector \<Rightarrow> string \<Rightarrow> string \<Rightarrow> BlobStream result" where
  "Fake_OpenBlob ctx c repo digest =
    (case checkAvailable ctx c of Inl e \<Rightarrow> Inl e
     | Inr _ \<Rightarrow>
       (case blobs c digest of
          None \<Rightarrow> Inl (GoErr ''blob %s'' [ErrNotFound])
        | Some body \<Rightarrow> Inr \<lparr>bs_Reader = bytes_NewReader body, bs_Close = None,
            bs_Descriptor = \<lparr>rd_MediaType = [], rd_Digest = digest, rd_Size = int (length body)\<rparr>\<rparr>))"

definition Fake_PutBlob ::
  "(string \<Rightarrow> string) \<Rightarrow> goerr option \<Rightarrow> FakeConnector \<Rightarrow> string \<Rightarrow> string \<Rightarrow> Reader
     \<Rightarrow> RegDescriptor result \<times> FakeConnector" where
  "Fake_PutBlob H ctx c repo digest body =
    (case checkAvailable ctx c of Inl e \<Rightarrow> (Inl e, c)
     | Inr _ \<Rightarrow>
       (case ReadAll body of Inl e \<Rightarrow> (Inl (wrapf ''read blob: %w'' e), c)
        | Inr content \<Rightarrow>
          if digest_of H content \<noteq> digest
          then (Inl (GoErr ''got %s want %s'' [ErrRegistryDigestMismatch]), c)
          else (Inr \<lparr>rd_MediaType = [], rd_Digest = digest, rd_Size = int (length content)\<rparr>,
                c\<lparr>blobs := (blobs c)(digest \<mapsto> content),
                  repository := (repository c)(repo \<mapsto>
                     insert digest (case repository c repo of None \<Rightarrow> {} | Some s \<Rightarrow> s))\<rparr>)))"

definition Fake_PutManifest ::
  "goerr option \<Rightarrow> FakeConnector \<Rightarrow> string \<Rightarrow> string \<Rightarrow> Manifest \<Rightarrow> RegDescriptor result \<times> FakeConnector" where
  "Fake_PutManifest ctx c repo reference manifest =
    (case checkAvailable ctx c of Inl e \<Rightarrow> (Inl e, c)
     | Inr _ \<Rightarrow>
       if list_ex (\<lambda>d. blobs c d = None) (BlobDigests manifest)
       then (Inl (GoErr ''blob %s'' [ErrNotFound]), c)
       else (Inr (descriptor_of manifest), AddManifest repo reference manifest c))"

section \<open>A registry as its clients see it\<close>

text \<open>
  What a publisher relies on: a manifest and the blobs it names can be fetched after they
  were put, and nothing that could be fetched disappears or changes. Faults are the context's.
\<close>

locale registry_contract =
  fixes C :: "'w Connector"
    and has_blob :: "'w \<Rightarrow> string \<Rightarrow> bool"
    and has_manifest :: "'w \<Rightarrow> string \<Rightarrow> string \<Rightarrow> Manifest \<Rightarrow> bool"
  assumes put_blob: "cn_PutBlob C w repo d r = (Inr desc, w') \<Longrightarrow> has_blob w' d"
    and put_blob_keeps: "cn_PutBlob C w repo d r = (res, w') \<Longrightarrow> has_blob w d' \<Longrightarrow> has_blob w' d'"
    and put_manifest: "cn_PutManifest C w repo ref m = (Inr desc, w') \<Longrightarrow> has_manifest w' repo ref m"
    and put_manifest_blobs: "cn_PutManifest C w repo ref m = (Inr desc, w') \<Longrightarrow> d \<in> set (BlobDigests m) \<Longrightarrow> has_blob w' d"
    and put_manifest_keeps: "cn_PutManifest C w repo ref m = (res, w') \<Longrightarrow> has_blob w d \<Longrightarrow> has_blob w' d"
begin

text \<open>Publishing: every blob, then the manifest that names them.\<close>

fun put_blobs :: "'w \<Rightarrow> string \<Rightarrow> (string \<times> Reader) list \<Rightarrow> unit result \<times> 'w" where
  "put_blobs w repo [] = (Inr (), w)"
| "put_blobs w repo ((d, r) # ps) =
     (case cn_PutBlob C w repo d r of (Inl e, w') \<Rightarrow> (Inl e, w') | (Inr _, w') \<Rightarrow> put_blobs w' repo ps)"

lemma put_blobs_keeps: "put_blobs w repo ps = (res, w') \<Longrightarrow> has_blob w d \<Longrightarrow> has_blob w' d"
  by (induction w repo ps rule: put_blobs.induct) (auto split: prod.splits sum.splits dest: put_blob_keeps)

lemma put_blobs_all: "put_blobs w repo ps = (Inr u, w') \<Longrightarrow> p \<in> set ps \<Longrightarrow> has_blob w' (fst p)"
  by (induction w repo ps rule: put_blobs.induct)
     (auto split: prod.splits sum.splits dest: put_blob put_blobs_keeps)

lemma published:
  assumes "put_blobs w repo ps = (Inr u, w1)" "cn_PutManifest C w1 repo ref m = (Inr desc, w2)"
  shows "has_manifest w2 repo ref m" "\<And>d. d \<in> set (BlobDigests m) \<union> fst ` set ps \<Longrightarrow> has_blob w2 d"
  using put_manifest [OF assms(2)] put_manifest_blobs [OF assms(2)]
    put_manifest_keeps [OF assms(2)] put_blobs_all [OF assms(1)] by auto

end

text \<open>The fake registry behind the interface; its state is the connector and a call counter
  that selects the outcome of ctx.Err().\<close>

type_synonym FakeState = "FakeConnector \<times> nat"

definition Fake_ops :: "(string \<Rightarrow> string) \<Rightarrow> (nat \<Rightarrow> goerr option) \<Rightarrow> string \<Rightarrow> FakeState Connector" where
  "Fake_ops H cx name = \<lparr>
     cn_Name = name,
     cn_Health = (\<lambda>(c, n). Fake_Health (cx n) c),
     cn_ResolveManifest = (\<lambda>(c, n) repo ref. (Fake_ResolveManifest (cx n) c repo ref, (c, Suc n))),
     cn_OpenBlob = (\<lambda>(c, n) repo d. (Fake_OpenBlob (cx n) c repo d, (c, Suc n))),
     cn_PutBlob = (\<lambda>(c, n) repo d r. case Fake_PutBlob H (cx n) c repo d r of (x, c') \<Rightarrow> (x, (c', Suc n))),
     cn_PutManifest = (\<lambda>(c, n) repo ref m. case Fake_PutManifest (cx n) c repo ref m of (x, c') \<Rightarrow> (x, (c', Suc n)))\<rparr>"

definition fake_blob :: "FakeState \<Rightarrow> string \<Rightarrow> bool" where
  "fake_blob w d \<longleftrightarrow> blobs (fst w) d \<noteq> None"

definition fake_manifest :: "FakeState \<Rightarrow> string \<Rightarrow> string \<Rightarrow> Manifest \<Rightarrow> bool" where
  "fake_manifest w repo ref m \<longleftrightarrow> manifests (fst w) (manifestKey repo ref) = Some m"

lemma checkAvailable_Inr [simp]: "checkAvailable ctx c = Inr u \<longleftrightarrow> ctx = None \<and> available c"
  by (auto simp: checkAvailable_def split: option.splits)

lemma Fake_PutBlob_Inr:
  "Fake_PutBlob H ctx c repo d r = (Inr desc, c') \<Longrightarrow> \<exists>content. ReadAll r = Inr content \<and> digest_of H content = d
     \<and> blobs c' = (blobs c)(d \<mapsto> content) \<and> manifests c' = manifests c \<and> available c'"
  by (auto simp: Fake_PutBlob_def split: sum.splits if_splits)

lemma Fake_PutBlob_Inl: "Fake_PutBlob H ctx c repo d r = (Inl e, c') \<Longrightarrow> c' = c"
  by (auto simp: Fake_PutBlob_def split: sum.splits if_splits)

lemma Fake_PutManifest_Inr:
  "Fake_PutManifest ctx c repo ref m = (Inr desc, c') \<Longrightarrow> ctx = None \<and> available c \<and> desc = descriptor_of m
     \<and> (\<forall>d \<in> set (BlobDigests m). blobs c d \<noteq> None) \<and> c' = AddManifest repo ref m c"
  by (auto simp: Fake_PutManifest_def list_ex_iff split: sum.splits if_splits)

lemma Fake_PutManifest_Inl: "Fake_PutManifest ctx c repo ref m = (Inl e, c') \<Longrightarrow> c' = c"
  by (auto simp: Fake_PutManifest_def split: sum.splits if_splits)

lemma AddManifest_blobs [simp]: "blobs (AddManifest repo ref m c) = blobs c"
  by (simp add: AddManifest_def Let_def)

lemma AddManifest_found: "manifests (AddManifest repo ref m c) (manifestKey repo ref) = Some m"
  by (simp add: AddManifest_def Let_def)

interpretation fake: registry_contract "Fake_ops H cx name" fake_blob fake_manifest for H cx name
proof
  fix w repo d r desc w'
  assume "cn_PutBlob (Fake_ops H cx name) w repo d r = (Inr desc, w')"
  then show "fake_blob w' d"
    by (auto simp: Fake_ops_def fake_blob_def split: prod.splits dest!: Fake_PutBlob_Inr)
next
  fix w repo d r res w' d'
  assume p: "cn_PutBlob (Fake_ops H cx name) w repo d r = (res, w')" "fake_blob w d'"
  obtain c n where w: "w = (c, n)" by force
  obtain c' where "Fake_PutBlob H (cx n) c repo d r = (res, c')" "w' = (c', Suc n)"
    using p(1) w by (auto simp: Fake_ops_def split: prod.splits)
  with p(2) w show "fake_blob w' d'"
    by (cases res) (auto simp: fake_blob_def dest!: Fake_PutBlob_Inr Fake_PutBlob_Inl)
next
  fix w repo ref m desc w'
  assume "cn_PutManifest (Fake_ops H cx name) w repo ref m = (Inr desc, w')"
  then show "fake_manifest w' repo ref m"
    by (auto simp: Fake_ops_def fake_manifest_def AddManifest_found split: prod.splits dest!: Fake_PutManifest_Inr)
next
  fix w repo ref m desc w' d
  assume "cn_PutManifest (Fake_ops H cx name) w repo ref m = (Inr desc, w')" "d \<in> set (BlobDigests m)"
  then show "fake_blob w' d"
    by (auto simp: Fake_ops_def fake_blob_def split: prod.splits dest!: Fake_PutManifest_Inr)
next
  fix w repo ref m res w' d
  assume p: "cn_PutManifest (Fake_ops H cx name) w repo ref m = (res, w')" "fake_blob w d"
  obtain c n where w: "w = (c, n)" by force
  obtain c' where "Fake_PutManifest (cx n) c repo ref m = (res, c')" "w' = (c', Suc n)"
    using p(1) w by (auto simp: Fake_ops_def split: prod.splits)
  with p(2) w show "fake_blob w' d"
    by (cases res) (auto simp: fake_blob_def dest!: Fake_PutManifest_Inr Fake_PutManifest_Inl)
qed

end
