(* ===== verification/HTTP_Connector.thy ===== *)
theory HTTP_Connector
  imports Connector Policy_Config
begin

text \<open>
  The connector to OCI registries over HTTP (internal/registry/http.go): the parser of
  WWW-Authenticate challenges, token requests and their cache, the authenticated request with
  its one retry, the registry operations with their error classes, the check of upload
  locations, and the verification of push scopes. net/http with the remote servers, net/url,
  encoding/json and the clock are the fields of an environment; 'n is the state of the network.
\<close>

section \<open>Requests, responses and the environment\<close>

datatype authz = NoAuth | BasicAuth string string | BearerAuth string

record Request =
  hq_Method :: string
  hq_URL :: string
  hq_Authorization :: authz
  hq_Accept :: string
  hq_ContentType :: string
  hq_Body :: "string option"

record Response =
  hr_Status :: int
  hr_Header :: "string \<Rightarrow> string"
  hr_Body :: Reader
  hr_Close :: "goerr option"
  hr_ContentLength :: int

record TokenPayload =
  tp_Token :: string
  tp_AccessToken :: string
  tp_ExpiresIn :: int

record AccessClaim =
  ac_Type :: string
  ac_Name :: string
  ac_Actions :: "string list"

text \<open>
  The environment: url.Parse and URL.String, Query().Set and Encode for a list of parameters,
  url.QueryEscape, path.Join, the error of NewRequest, client.Do, time.Now, the JSON decoders,
  strconv.ParseInt and base64.RawURLEncoding.
\<close>

record 'n HTTPEnv =
  he_Parse :: "string \<Rightarrow> URL result"
  he_String :: "URL \<Rightarrow> string"
  he_SetQuery :: "URL \<Rightarrow> (string \<times> string) list \<Rightarrow> URL"
  he_QueryEscape :: "string \<Rightarrow> string"
  he_Join :: "string \<Rightarrow> string \<Rightarrow> string"
  he_NewRequest :: "string \<Rightarrow> string \<Rightarrow> goerr option"
  he_Do :: "Request \<Rightarrow> 'n \<Rightarrow> Response result \<times> 'n"
  he_Now :: "'n \<Rightarrow> time"
  he_DecodeToken :: "Reader \<Rightarrow> TokenPayload result"
  he_DecodeBase64 :: "string \<Rightarrow> string result"
  he_DecodeClaims :: "string \<Rightarrow> AccessClaim list result"
  he_ParseInt :: "string \<Rightarrow> int result"
  he_Unmarshal :: "string \<Rightarrow> RawManifest result"
  he_Unicode :: unicode
  he_Hash :: "string \<Rightarrow> string"

record basicAuth =
  ba_username :: string
  ba_password :: string

record cachedToken =
  ct_value :: string
  ct_expiresAt :: time

record HTTPConnector =
  hc_name :: string
  hc_endpoint :: URL
  hc_basic :: "basicAuth option"
  hc_preemptiveBasic :: bool
  hc_allowedTokenHosts :: "string set"

text \<open>The connector's token cache with the network.\<close>

type_synonym 'n HTTPState = "(string \<Rightarrow> cachedToken option) \<times> 'n"

definition NewHTTPConnector ::
  "'n HTTPEnv \<Rightarrow> string \<Rightarrow> string \<Rightarrow> basicAuth option \<Rightarrow> bool \<Rightarrow> string list \<Rightarrow> HTTPConnector result" where
  "NewHTTPConnector env name endpoint basic preemptive hosts =
    (case he_Parse env endpoint of Inl e \<Rightarrow> Inl (wrapf ''parse registry endpoint: %w'' e)
     | Inr parsed \<Rightarrow>
       if u_Scheme parsed = [] \<or> u_Host parsed = []
       then Inl (errorf ''registry endpoint must include scheme and host'')
       else Inr \<lparr>hc_name = name, hc_endpoint = parsed, hc_basic = basic, hc_preemptiveBasic = preemptive,
                 hc_allowedTokenHosts = insert (ToLower (he_Unicode env) (u_Host parsed))
                    (ToLower (he_Unicode env) ` set hosts)\<rparr>)"

section \<open>Challenges\<close>

text \<open>A quoted value after its opening quote: the value and what follows the closing quote.\<close>

fun quoted_value :: "string \<Rightarrow> (string \<times> string) option" where
  "quoted_value [] = None"
| "quoted_value [c] = (if c = CHR 0x22 then Some ([], []) else None)"
| "quoted_value (c # x # cs) =
     (if c = CHR 0x22 then Some ([], x # cs)
      else if c = CHR 0x5C
      then (case quoted_value cs of None \<Rightarrow> None | Some (v, rest) \<Rightarrow> Some (x # v, rest))
      else (case quoted_value (x # cs) of None \<Rightarrow> None | Some (v, rest) \<Rightarrow> Some (c # v, rest)))"

lemma quoted_value_length: "quoted_value s = Some (v, rest) \<Longrightarrow> length rest < length s"
  by (induction s arbitrary: v rule: quoted_value.induct) (auto split: if_splits option.splits)

text \<open>The loop over the parameters, on what remains of the value.\<close>

function parseParams :: "unicode \<Rightarrow> (string \<times> string) list \<Rightarrow> string \<Rightarrow> (string \<times> string) list option" where
  "parseParams U params v =
    (if v = [] then Some params
     else
       let v1 = dropWhile (\<lambda>c. c = CHR '' '' \<or> c = CHR '','') v;
           rest = dropWhile (\<lambda>c. c \<noteq> CHR ''='') v1;
           key = ToLower U (TrimSpace (takeWhile (\<lambda>c. c \<noteq> CHR ''='') v1))
       in if rest = [] then None
          else if key = [] \<or> tl rest = [] then None
          else if hd (tl rest) = CHR 0x22
          then (case quoted_value (tl (tl rest)) of
                  None \<Rightarrow> None
                | Some (val, v2) \<Rightarrow> parseParams U (AList.update key val params) v2)
          else parseParams U
                 (AList.update key (TrimSpace (takeWhile (\<lambda>c. c \<noteq> CHR '','') (tl rest))) params)
                 (dropWhile (\<lambda>c. c \<noteq> CHR '','') (tl rest)))"
  by pat_completeness auto

lemma rest_shorter:
  assumes "rest = dropWhile Q (dropWhile P v)" "rest \<noteq> []" shows "length (tl rest) < length v"
proof -
  have "length rest \<le> length v" unfolding assms(1)
    by (meson length_dropWhile_le order_trans)
  with assms(2) show ?thesis by (cases rest) auto
qed

termination parseParams
proof (relation "measure (\<lambda>(U, params, v). length v)", goal_cases)
  case (2 U params v v1 rest key x val v2)
  then have "quoted_value (tl (tl rest)) = Some (val, v2)" by metis
  then have "length v2 < length (tl (tl rest))" by (rule quoted_value_length)
  moreover have "length (tl rest) < length v" using 2 rest_shorter by blast
  ultimately show ?case by simp
next
  case (3 U params v v1 rest key)
  have "length (tl rest) < length v" using 3 rest_shorter by blast
  then show ?case by (simp add: le_less_trans [OF length_dropWhile_le])
qed simp

declare parseParams.simps [simp del]

definition parseChallengeParams :: "unicode \<Rightarrow> string \<Rightarrow> (string \<times> string) list option" where
  "parseChallengeParams U v = parseParams U [] v"

text \<open>Reading a Go map of strings.\<close>

definition param :: "(string \<times> string) list \<Rightarrow> string \<Rightarrow> string" where
  "param ps k = (case map_of ps k of None \<Rightarrow> [] | Some v \<Rightarrow> v)"

definition parseBearerChallenge :: "unicode \<Rightarrow> string \<Rightarrow> (string \<times> string \<times> string) option" where
  "parseBearerChallenge U challenge0 =
    (let challenge = TrimSpace challenge0 in
     if length challenge < 6 \<or> map ascii_lower (take 6 challenge) \<noteq> ''bearer'' then None
     else case parseChallengeParams U (drop 6 challenge) of
         None \<Rightarrow> None
       | Some params \<Rightarrow>
         if param params ''realm'' = [] then None
         else Some (param params ''realm'', param params ''service'', param params ''scope''))"

section \<open>Tokens\<close>

definition hc_authorize :: "HTTPConnector \<Rightarrow> Request \<Rightarrow> Request" where
  "hc_authorize c req =
    (case hc_basic c of None \<Rightarrow> req
     | Some b \<Rightarrow> if \<not> hc_preemptiveBasic c then req
         else req\<lparr>hq_Authorization := BasicAuth (ba_username b) (ba_password b)\<rparr>)"

definition new_request :: "string \<Rightarrow> string \<Rightarrow> string option \<Rightarrow> Request" where
  "new_request verb location body =
    \<lparr>hq_Method = verb, hq_URL = location, hq_Authorization = NoAuth, hq_Accept = [], hq_ContentType = [],
     hq_Body = body\<rparr>"

definition tokenKey :: "string \<Rightarrow> string \<Rightarrow> string \<Rightarrow> string" where
  "tokenKey realm service scope = realm @ [CHR 0x00] @ service @ [CHR 0x00] @ scope"

text \<open>The checks on the realm of a challenge before any request is made to it.\<close>

definition checkRealm :: "'n HTTPEnv \<Rightarrow> HTTPConnector \<Rightarrow> string \<Rightarrow> URL result" where
  "checkRealm env c realm =
    (case he_Parse env realm of Inl e \<Rightarrow> Inl (wrapf ''parse registry token realm: %w'' e)
     | Inr tokenURL \<Rightarrow>
       if u_Scheme tokenURL = [] \<or> u_Host tokenURL = [] \<or> u_User tokenURL \<or> u_Fragment tokenURL \<noteq> []
       then Inl (errorf ''registry token realm must be an absolute URL without user info or fragment'')
       else if u_Scheme (hc_endpoint c) = ''https'' \<and> u_Scheme tokenURL \<noteq> ''https''
       then Inl (errorf ''registry token realm cannot downgrade HTTPS'')
       else if ToLower (he_Unicode env) (u_Host tokenURL) \<notin> hc_allowedTokenHosts c
       then Inl (errorf ''registry token realm host is not approved'')
       else Inr tokenURL)"

definition token_request :: "'n HTTPEnv \<Rightarrow> HTTPConnector \<Rightarrow> URL \<Rightarrow> string \<Rightarrow> string \<Rightarrow> Request" where
  "token_request env c tokenURL service scope =
    (let tokenURL = he_SetQuery env tokenURL
           ((if service \<noteq> [] then [(''service'', service)] else [])
            @ (if scope \<noteq> [] then [(''scope'', scope)] else []));
         req = new_request ''GET'' (he_String env tokenURL) None
     in case hc_basic c of None \<Rightarrow> req
        | Some b \<Rightarrow> req\<lparr>hq_Authorization := BasicAuth (ba_username b) (ba_password b)\<rparr>)"

definition token_response :: "'n HTTPEnv \<Rightarrow> Response \<Rightarrow> (string \<times> int) result" where
  "token_response env resp =
    (if hr_Status resp = 401 \<or> hr_Status resp = 403
     then Inl (GoErr ''%w: token service status %d'' [ErrAuthentication])
     else if hr_Status resp \<ge> 400 then Inl (GoErr ''%w: token service status %d'' [ErrUnavailable])
     else (case he_DecodeToken env (hr_Body resp) of Inl e \<Rightarrow> Inl (wrapf ''decode registry token: %w'' e)
       | Inr payload \<Rightarrow>
         let token = (if tp_Token payload = [] then tp_AccessToken payload else tp_Token payload);
             expires = (if tp_ExpiresIn payload \<le> 0 then 300 else tp_ExpiresIn payload)
         in if token = [] then Inl (errorf ''registry token response did not contain a token'')
            else Inr (token, expires)))"

definition bearerToken ::
  "'n HTTPEnv \<Rightarrow> HTTPConnector \<Rightarrow> string \<Rightarrow> string \<Rightarrow> string \<Rightarrow> 'n HTTPState \<Rightarrow> string result \<times> 'n HTTPState" where
  "bearerToken env c realm service scope st =
    (let (tokens, n) = st;
         key = tokenKey realm service scope;
         fetch =
           (case checkRealm env c realm of Inl e \<Rightarrow> (Inl e, (tokens, n))
            | Inr tokenURL \<Rightarrow>
              let req = token_request env c tokenURL service scope in
              (case he_NewRequest env (hq_Method req) (hq_URL req) of Some e \<Rightarrow> (Inl e, (tokens, n))
               | None \<Rightarrow>
                 (case he_Do env req n of
                    (Inl e, n) \<Rightarrow> (Inl (GoErr ''%w: request registry token: %v'' [ErrUnavailable]), (tokens, n))
                  | (Inr resp, n) \<Rightarrow>
                    (case token_response env resp of Inl e \<Rightarrow> (Inl e, (tokens, n))
                     | Inr (token, expires) \<Rightarrow>
                       (Inr token,
                        (tokens(key \<mapsto> \<lparr>ct_value = token, ct_expiresAt = he_Now env n + int64 (expires * second)\<rparr>), n))))))
     in case tokens key of
          Some cached \<Rightarrow> if he_Now env n + 15 * second < ct_expiresAt cached then (Inr (ct_value cached), (tokens, n))
                         else fetch
        | None \<Rightarrow> fetch)"

section \<open>Authenticated requests\<close>

text \<open>cloneRequest always succeeds here: the bodies are nil or bytes.Reader, which net/http can
  recreate, so the retry is the same request.\<close>

definition doAuthenticated ::
  "'n HTTPEnv \<Rightarrow> HTTPConnector \<Rightarrow> Request \<Rightarrow> 'n HTTPState \<Rightarrow> Response result \<times> 'n HTTPState" where
  "doAuthenticated env c req0 st =
    (let (tokens, n) = st; req = hc_authorize c req0 in
     case he_Do env req n of
       (Inl e, n) \<Rightarrow> (Inl e, (tokens, n))
     | (Inr resp, n) \<Rightarrow>
       if hr_Status resp \<noteq> 401 then (Inr resp, (tokens, n))
       else
         let challenge = hr_Header resp ''WWW-Authenticate'' in
         (case parseBearerChallenge (he_Unicode env) challenge of
            Some (realm, service, scope) \<Rightarrow>
              (case bearerToken env c realm service scope (tokens, n) of
                 (Inl e, st) \<Rightarrow> (Inl e, st)
               | (Inr token, (tokens, n)) \<Rightarrow>
                 (case he_Do env (req\<lparr>hq_Authorization := BearerAuth token\<rparr>) n of (x, n) \<Rightarrow> (x, (tokens, n))))
          | None \<Rightarrow>
            (case hc_basic c of
               None \<Rightarrow> (Inr resp, (tokens, n))
             | Some b \<Rightarrow>
               if \<not> HasPrefix (ToLower (he_Unicode env) (TrimSpace challenge)) ''basic''
               then (Inr resp, (tokens, n))
               else (case he_Do env (req\<lparr>hq_Authorization := BasicAuth (ba_username b) (ba_password b)\<rparr>) n of
                       (x, n) \<Rightarrow> (x, (tokens, n))))))"

definition registryAccessError :: "int \<Rightarrow> goerr option" where
  "registryAccessError status =
    (if status = 401 then Some (GoErr ''%w: status %d'' [ErrAuthentication])
     else if status = 403 then Some (GoErr ''%w: status %d'' [ErrAuthorization])
     else None)"

text \<open>How the operations report a failed request and a refused one. The last case differs per
  operation: notFound is the error for 404, if the operation has one.\<close>

definition request_error :: "goerr \<Rightarrow> goerr" where
  "request_error e = (if errors_Is e ErrAuthentication \<or> errors_Is e ErrAuthorization then e
     else GoErr ''%w: %v'' [ErrUnavailable])"

definition status_error :: "goerr option \<Rightarrow> goerr \<Rightarrow> int \<Rightarrow> goerr option" where
  "status_error notFound refused status =
    (case registryAccessError status of Some e \<Rightarrow> Some e
     | None \<Rightarrow>
       if status = 404 \<and> notFound \<noteq> None then notFound
       else if status \<ge> 500 then Some (GoErr ''%w: status %d'' [ErrUnavailable])
       else if status \<ge> 400 then Some refused
       else None)"

definition hc_url :: "'n HTTPEnv \<Rightarrow> HTTPConnector \<Rightarrow> string \<Rightarrow> string" where
  "hc_url env c suff = he_String env ((hc_endpoint c)\<lparr>u_Path := TrimRight (u_Path (hc_endpoint c)) ''/'' @ suff\<rparr>)"

text \<open>A request, its authentication, and the classification of its outcome.\<close>

definition call ::
  "'n HTTPEnv \<Rightarrow> HTTPConnector \<Rightarrow> Request \<Rightarrow> goerr option \<Rightarrow> goerr \<Rightarrow> 'n HTTPState \<Rightarrow> Response result \<times> 'n HTTPState" where
  "call env c req notFound refused st =
    (case he_NewRequest env (hq_Method req) (hq_URL req) of Some e \<Rightarrow> (Inl e, st)
     | None \<Rightarrow>
       (case doAuthenticated env c (hc_authorize c req) st of
          (Inl e, st) \<Rightarrow> (Inl (request_error e), st)
        | (Inr resp, st) \<Rightarrow>
          (case status_error notFound refused (hr_Status resp) of
             Some e \<Rightarrow> (Inl e, st) | None \<Rightarrow> (Inr resp, st))))"

section \<open>Operations\<close>

definition HTTP_Health :: "'n HTTPEnv \<Rightarrow> HTTPConnector \<Rightarrow> 'n HTTPState \<Rightarrow> unit result \<times> 'n HTTPState" where
  "HTTP_Health env c st =
    (case call env c (new_request ''GET'' (hc_url env c ''/v2/'') None) None
            (GoErr ''%w: status %d'' [ErrNotFound]) st of
       (Inl e, st) \<Rightarrow> (Inl e, st) | (Inr resp, st) \<Rightarrow> (Inr (), st))"

definition accept_types :: string where
  "accept_types = Join '', '' [''application/vnd.oci.image.manifest.v1+json'',
     ''application/vnd.docker.distribution.manifest.v2+json'',
     ''application/vnd.oci.image.index.v1+json'',
     ''application/vnd.docker.distribution.manifest.list.v2+json'']"

definition HTTP_ResolveManifest ::
  "'n HTTPEnv \<Rightarrow> HTTPConnector \<Rightarrow> string \<Rightarrow> string \<Rightarrow> 'n HTTPState \<Rightarrow> Manifest result \<times> 'n HTTPState" where
  "HTTP_ResolveManifest env c repo reference st =
    (case call env c ((new_request ''GET'' (hc_url env c (''/v2/'' @ repo @ ''/manifests/'' @ reference)) None)
              \<lparr>hq_Accept := accept_types\<rparr>)
            (Some (GoErr ''%w: manifest %s:%s'' [ErrNotFound])) (errorf ''resolve manifest status %d'') st of
       (Inl e, st) \<Rightarrow> (Inl e, st)
     | (Inr resp, st) \<Rightarrow>
       (case ReadAll (hr_Body resp) of Inl e \<Rightarrow> (Inl (wrapf ''read manifest response: %w'' e), st)
        | Inr body \<Rightarrow>
          (case ParseManifest (he_Hash env) (he_Unmarshal env) body of
             Inl e \<Rightarrow> (Inl (wrapf ''parse manifest response: %w'' e), st)
           | Inr manifest \<Rightarrow>
             let digest = hr_Header resp ''Docker-Content-Digest''
             in (Inr (if digest \<noteq> [] then manifest\<lparr>rd_Digest := digest\<rparr> else manifest), st))))"

definition HTTP_OpenBlob ::
  "'n HTTPEnv \<Rightarrow> HTTPConnector \<Rightarrow> string \<Rightarrow> string \<Rightarrow> 'n HTTPState \<Rightarrow> BlobStream result \<times> 'n HTTPState" where
  "HTTP_OpenBlob env c repo digest st =
    (case call env c (new_request ''GET'' (hc_url env c (''/v2/'' @ repo @ ''/blobs/'' @ digest)) None)
            (Some (GoErr ''%w: blob %s'' [ErrNotFound])) (errorf ''open blob status %d'') st of
       (Inl e, st) \<Rightarrow> (Inl e, st)
     | (Inr resp, st) \<Rightarrow>
       let header = hr_Header resp ''Content-Length'';
           sz = (if hr_ContentLength resp < 0 \<and> header \<noteq> []
                 then (case he_ParseInt env header of Inl _ \<Rightarrow> hr_ContentLength resp | Inr n \<Rightarrow> n)
                 else hr_ContentLength resp)
       in (Inr \<lparr>bs_Reader = hr_Body resp, bs_Close = hr_Close resp,
                bs_Descriptor = \<lparr>rd_MediaType = [], rd_Digest = digest, rd_Size = sz\<rparr>\<rparr>, st))"

definition sameURLOrigin :: "URL \<Rightarrow> URL \<Rightarrow> bool" where
  "sameURLOrigin l r \<longleftrightarrow> map ascii_lower (u_Scheme l) = map ascii_lower (u_Scheme r)
     \<and> map ascii_lower (u_Host l) = map ascii_lower (u_Host r)"

definition resolveLocation :: "'n HTTPEnv \<Rightarrow> HTTPConnector \<Rightarrow> string \<Rightarrow> string result" where
  "resolveLocation env c location =
    (case he_Parse env location of Inl e \<Rightarrow> Inl e
     | Inr parsed \<Rightarrow>
       if u_Scheme parsed \<noteq> []
       then (if \<not> sameURLOrigin parsed (hc_endpoint c)
             then Inl (errorf ''registry upload location changed origin'')
             else Inr (he_String env parsed))
       else Inr (he_String env ((hc_endpoint c)\<lparr>u_Path := he_Join env (u_Path (hc_endpoint c)) (u_Path parsed),
                                                u_RawQuery := u_RawQuery parsed\<rparr>)))"

definition HTTP_PutBlob ::
  "'n HTTPEnv \<Rightarrow> HTTPConnector \<Rightarrow> string \<Rightarrow> string \<Rightarrow> Reader \<Rightarrow> 'n HTTPState \<Rightarrow> RegDescriptor result \<times> 'n HTTPState" where
  "HTTP_PutBlob env c repo digest body st =
    (case ReadAll body of Inl e \<Rightarrow> (Inl (wrapf ''read blob: %w'' e), st)
     | Inr content \<Rightarrow>
       if digest_of (he_Hash env) content \<noteq> digest
       then (Inl (GoErr ''%w: got %s want %s'' [ErrRegistryDigestMismatch]), st)
       else
         let location = hc_url env c (''/v2/'' @ repo @ ''/blobs/uploads/'') in
         (case call env c (new_request ''POST'' location None) None (errorf ''start blob upload status %d'') st of
            (Inl e, st) \<Rightarrow> (Inl e, st)
          | (Inr startResp, st) \<Rightarrow>
            let loc = hr_Header startResp ''Location'' in
            (case resolveLocation env c (if loc = [] then location else loc) of Inl e \<Rightarrow> (Inl e, st)
             | Inr uploadURL \<Rightarrow>
               let separator = (if Contains uploadURL ''?'' then ''&'' else ''?'');
                   uploadURL = uploadURL @ separator @ ''digest='' @ he_QueryEscape env digest in
               (case call env c (new_request ''PUT'' uploadURL (Some content)) None
                       (errorf ''complete blob upload status %d'') st of
                  (Inl e, st) \<Rightarrow> (Inl e, st)
                | (Inr _, st) \<Rightarrow>
                  (Inr \<lparr>rd_MediaType = [], rd_Digest = digest, rd_Size = int (length content)\<rparr>, st)))))"

definition HTTP_PutManifest ::
  "'n HTTPEnv \<Rightarrow> HTTPConnector \<Rightarrow> string \<Rightarrow> string \<Rightarrow> Manifest \<Rightarrow> 'n HTTPState \<Rightarrow> RegDescriptor result \<times> 'n HTTPState" where
  "HTTP_PutManifest env c repo reference manifest st =
    (let mediaType = (if rd_MediaType manifest = [] then default_media_type else rd_MediaType manifest) in
     case call env c ((new_request ''PUT'' (hc_url env c (''/v2/'' @ repo @ ''/manifests/'' @ reference))
               (Some (Content manifest)))\<lparr>hq_ContentType := mediaType\<rparr>)
            (Some (GoErr ''%w: manifest target %s:%s'' [ErrNotFound])) (errorf ''put manifest status %d'') st of
       (Inl e, st) \<Rightarrow> (Inl e, st)
     | (Inr resp, st) \<Rightarrow>
       let desc = descriptor_of manifest; digest = hr_Header resp ''Docker-Content-Digest''
       in (Inr (if digest \<noteq> [] then desc\<lparr>rd_Digest := digest\<rparr> else desc), st))"

section \<open>Push scopes\<close>

definition tokenGrantsRepositoryAction :: "'n HTTPEnv \<Rightarrow> string \<Rightarrow> string \<Rightarrow> string \<Rightarrow> bool result" where
  "tokenGrantsRepositoryAction env token repo action =
    (let parts = Split CHR ''.'' token in
     if length parts \<noteq> 3 then Inl (errorf ''registry token is not a JWT'')
     else (case he_DecodeBase64 env (parts ! 1) of Inl e \<Rightarrow> Inl (wrapf ''decode JWT payload: %w'' e)
       | Inr payload \<Rightarrow>
         (case he_DecodeClaims env payload of Inl e \<Rightarrow> Inl (wrapf ''decode JWT claims: %w'' e)
          | Inr claims \<Rightarrow>
            Inr (list_ex (\<lambda>access. ac_Type access = ''repository'' \<and> ac_Name access = repo
                            \<and> list_ex (\<lambda>granted. granted = action) (ac_Actions access)) claims))))"

definition VerifyPushScope ::
  "'n HTTPEnv \<Rightarrow> HTTPConnector \<Rightarrow> string \<Rightarrow> 'n HTTPState \<Rightarrow> unit result \<times> 'n HTTPState" where
  "VerifyPushScope env c repo st =
    (case hc_basic c of None \<Rightarrow> (Inl (GoErr ''%w: credentials are required'' [ErrAuthentication]), st)
     | Some _ \<Rightarrow>
       let req = new_request ''GET'' (hc_url env c ''/v2/'') None; (tokens, n) = st in
       (case he_NewRequest env (hq_Method req) (hq_URL req) of Some e \<Rightarrow> (Inl e, st)
        | None \<Rightarrow>
          (case he_Do env req n of
             (Inl e, n) \<Rightarrow> (Inl (GoErr ''%w: %v'' [ErrUnavailable]), (tokens, n))
           | (Inr resp, n) \<Rightarrow>
             if hr_Status resp \<noteq> 401
             then (Inl (errorf ''registry did not provide an authentication challenge for scope verification''), (tokens, n))
             else (case parseBearerChallenge (he_Unicode env) (hr_Header resp ''WWW-Authenticate'') of
                 None \<Rightarrow> (Inl (errorf ''registry did not provide a Bearer challenge for scope verification''), (tokens, n))
               | Some (realm, service, _) \<Rightarrow>
                 (case he_Parse env realm of Inl e \<Rightarrow> (Inl (wrapf ''parse registry token realm: %w'' e), (tokens, n))
                  | Inr realmURL \<Rightarrow>
                    (case bearerToken env c (he_String env realmURL) service
                            (''repository:'' @ repo @ '':pull,push'') (tokens, n) of
                       (Inl e, st) \<Rightarrow> (Inl e, st)
                     | (Inr token, st) \<Rightarrow>
                       (case tokenGrantsRepositoryAction env token repo ''push'' of
                          Inl e \<Rightarrow> (Inl (wrapf ''inspect registry token scope: %w'' e), st)
                        | Inr granted \<Rightarrow>
                          if \<not> granted then (Inl (GoErr ''%w: push scope was not granted'' [ErrAuthorization]), st)
                          else (Inr (), st))))))))"

text \<open>The HTTP connector behind the Connector interface.\<close>

definition HTTP_ops :: "'n HTTPEnv \<Rightarrow> HTTPConnector \<Rightarrow> 'n HTTPState Connector" where
  "HTTP_ops env c = \<lparr>
     cn_Name = hc_name c,
     cn_Health = (\<lambda>st. fst (HTTP_Health env c st)),
     cn_ResolveManifest = (\<lambda>st repo ref. HTTP_ResolveManifest env c repo ref st),
     cn_OpenBlob = (\<lambda>st repo d. HTTP_OpenBlob env c repo d st),
     cn_PutBlob = (\<lambda>st repo d r. HTTP_PutBlob env c repo d r st),
     cn_PutManifest = (\<lambda>st repo ref m. HTTP_PutManifest env c repo ref m st)\<rparr>"

end
