(* ===== verification/HTTP_Connector_Properties.thy ===== *)
theory HTTP_Connector_Properties
  imports HTTP_Connector
begin

text \<open>
  Properties of the HTTP connector: every request it sends goes to its registry or to an approved
  token service, tokens are reused under their own key only, and challenges are read back as
  they were written.
\<close>

section \<open>Where requests go\<close>

text \<open>The addresses the connector may contact.\<close>

definition registry_url :: "'n HTTPEnv \<Rightarrow> HTTPConnector \<Rightarrow> string \<Rightarrow> bool" where
  "registry_url env c s \<longleftrightarrow> (\<exists>u ext. sameURLOrigin u (hc_endpoint c) \<and> s = he_String env u @ ext
     \<and> (ext = [] \<or> (\<exists>sep d. sep \<in> {''?'', ''&''} \<and> ext = sep @ ''digest='' @ he_QueryEscape env d)))"

definition token_url :: "'n HTTPEnv \<Rightarrow> HTTPConnector \<Rightarrow> string \<Rightarrow> bool" where
  "token_url env c s \<longleftrightarrow> (\<exists>u ps. u_Host u \<noteq> [] \<and> \<not> u_User u \<and> u_Fragment u = []
     \<and> ToLower (he_Unicode env) (u_Host u) \<in> hc_allowedTokenHosts c
     \<and> (u_Scheme (hc_endpoint c) = ''https'' \<longrightarrow> u_Scheme u = ''https'')
     \<and> s = he_String env (he_SetQuery env u ps))"

text \<open>Only the configured user name and password are ever sent, and bearer tokens go to the registry only.\<close>

definition approved :: "'n HTTPEnv \<Rightarrow> HTTPConnector \<Rightarrow> Request \<Rightarrow> bool" where
  "approved env c q \<longleftrightarrow>
    (case hq_Authorization q of
       BasicAuth n p \<Rightarrow> hc_basic c = Some \<lparr>ba_username = n, ba_password = p\<rparr>
         \<and> (registry_url env c (hq_URL q) \<or> token_url env c (hq_URL q))
     | BearerAuth t \<Rightarrow> registry_url env c (hq_URL q)
     | NoAuth \<Rightarrow> registry_url env c (hq_URL q) \<or> token_url env c (hq_URL q))"

text \<open>The network states reached from n by approved requests alone.\<close>

inductive sends :: "'n HTTPEnv \<Rightarrow> HTTPConnector \<Rightarrow> 'n \<Rightarrow> 'n \<Rightarrow> bool" for env c n where
  nothing: "sends env c n n"
| request: "sends env c n n1 \<Longrightarrow> approved env c q \<Longrightarrow> sends env c n (snd (he_Do env q n1))"

lemma sends_trans: "sends env c n1 n2 \<Longrightarrow> sends env c n0 n1 \<Longrightarrow> sends env c n0 n2"
  by (induction rule: sends.induct) (auto intro: sends.intros)

lemma sends_Do: "he_Do env q n = (x, n1) \<Longrightarrow> approved env c q \<Longrightarrow> sends env c n n1"
  using sends.request [OF sends.nothing, of env c q n] by simp

lemma hc_url_registry: "registry_url env c (hc_url env c suff)"
  unfolding registry_url_def hc_url_def
  by (rule exI [of _ "(hc_endpoint c)\<lparr>u_Path := TrimRight (u_Path (hc_endpoint c)) ''/'' @ suff\<rparr>"], rule exI [of _ "[]"])
     (simp add: sameURLOrigin_def)

lemma same_origin_update [simp]: "sameURLOrigin (e\<lparr>u_Path := x, u_RawQuery := y\<rparr>) e" "sameURLOrigin (e\<lparr>u_Path := x\<rparr>) e"
  by (simp_all add: sameURLOrigin_def)

lemma resolveLocation_origin:
  assumes "resolveLocation env c l = Inr s"
  obtains u where "sameURLOrigin u (hc_endpoint c)" "s = he_String env u"
proof (cases "he_Parse env l")
  case (Inr p)
  show thesis
  proof (cases "u_Scheme p = []")
    case True
    with assms Inr show thesis
      by (intro that [of "(hc_endpoint c)\<lparr>u_Path := he_Join env (u_Path (hc_endpoint c)) (u_Path p), u_RawQuery := u_RawQuery p\<rparr>"])
         (simp_all add: resolveLocation_def)
  next
    case False
    with assms Inr show thesis by (intro that [of p]) (simp_all add: resolveLocation_def split: if_splits)
  qed
qed (use assms in \<open>simp add: resolveLocation_def\<close>)

lemma resolveLocation_registry:
  "resolveLocation env c l = Inr s \<Longrightarrow> sep \<in> {''?'', ''&''} \<Longrightarrow> registry_url env c (s @ sep @ ''digest='' @ he_QueryEscape env d)"
  unfolding registry_url_def by (elim resolveLocation_origin) blast

lemma token_request_approved:
  assumes "checkRealm env c realm = Inr u" shows "approved env c (token_request env c u service scope)"
proof -
  have "token_url env c (hq_URL (token_request env c u service scope))"
    using assms unfolding checkRealm_def token_url_def token_request_def
    by (auto simp: Let_def new_request_def split: sum.splits if_splits option.splits
        intro!: exI [of _ u])
  then show ?thesis
    by (auto simp: approved_def token_request_def Let_def new_request_def split: option.splits)
qed

lemma bearerToken_sends:
  "bearerToken env c realm service scope (t, n) = (res, (t', n')) \<Longrightarrow> sends env c n n'"
  by (auto simp: bearerToken_def Let_def split: option.splits sum.splits prod.splits if_splits
      intro: sends.nothing sends_Do token_request_approved)

lemma approved_authorize:
  "registry_url env c (hq_URL q) \<Longrightarrow> hq_Authorization q = NoAuth \<Longrightarrow> approved env c (hc_authorize c q)"
  by (auto simp: approved_def hc_authorize_def split: option.splits)

lemma authorize_fields [simp]:
  "hq_URL (hc_authorize c q) = hq_URL q" "hc_authorize c (hc_authorize c q) = hc_authorize c q"
  by (auto simp: hc_authorize_def split: option.splits)

lemma doAuthenticated_sends:
  assumes "registry_url env c (hq_URL q)" "hq_Authorization q = NoAuth"
    and "doAuthenticated env c (hc_authorize c q) (t, n) = (res, (t', n'))"
  shows "sends env c n n'"
proof -
  obtain r1 n1 where d: "he_Do env (hc_authorize c q) n = (r1, n1)" by force
  note s1 = sends_Do [OF d approved_authorize [OF assms(1,2)]]
  have bearer: "approved env c (hc_authorize c q\<lparr>hq_Authorization := BearerAuth tk\<rparr>)" for tk
    using assms(1) by (simp add: approved_def)
  have basic: "approved env c (hc_authorize c q\<lparr>hq_Authorization := BasicAuth (ba_username b) (ba_password b)\<rparr>)"
    if "hc_basic c = Some b" for b
    using assms(1) that by (simp add: approved_def)
  have "sends env c n1 n'"
    using assms(3) d
    by (auto simp: doAuthenticated_def Let_def split: sum.splits prod.splits option.splits if_splits
        intro: sends.nothing sends_Do bearer basic sends_trans [OF sends_Do [OF _ bearer] bearerToken_sends]
          bearerToken_sends)
  with s1 show ?thesis by (rule sends_trans [rotated])
qed

lemma call_sends:
  assumes "registry_url env c (hq_URL q)" "hq_Authorization q = NoAuth"
    and "call env c q nf refused st = (res, st')"
  shows "sends env c (snd st) (snd st')"
  using assms(3) doAuthenticated_sends [OF assms(1,2), where t = "fst st" and n = "snd st" and t' = "fst st'" and n' = "snd st'"]
  by (auto simp: call_def split: option.splits sum.splits prod.splits intro: sends.nothing)

lemma new_request_fields [simp]:
  "hq_URL (new_request v l b) = l" "hq_Authorization (new_request v l b) = NoAuth"
  by (simp_all add: new_request_def)

lemma HTTP_PutBlob_sends: "sends env c (snd st) (snd (snd (HTTP_PutBlob env c repo digest body st)))"
proof (cases "ReadAll body")
  case (Inr content)
  note def = HTTP_PutBlob_def Let_def Inr
  let ?l = "hc_url env c (''/v2/'' @ repo @ ''/blobs/uploads/'')"
  obtain r1 st1 where c1: "call env c (new_request ''POST'' ?l None) None
      (errorf ''start blob upload status %d'') st = (r1, st1)" by (metis surj_pair)
  have s1: "sends env c (snd st) (snd st1)" by (rule call_sends [OF _ _ c1]) (simp_all add: hc_url_registry)
  show ?thesis
  proof (cases r1)
    case (Inl e)
    with c1 s1 show ?thesis by (simp add: def sends.nothing)
  next
    case r1: (Inr resp)
    let ?h = "hr_Header resp ''Location''"
    show ?thesis
    proof (cases "resolveLocation env c (if ?h = [] then ?l else ?h)")
      case (Inl e)
      with c1 s1 r1 show ?thesis by (cases "?h = []") (simp_all add: def sends.nothing)
    next
      case u: (Inr u)
      let ?sep = "if Contains u ''?'' then ''&'' else ''?''"
      let ?q = "new_request ''PUT'' (u @ ?sep @ ''digest='' @ he_QueryEscape env digest) (Some content)"
      have sep: "?sep \<in> {''?'', ''&''}" by simp
      obtain r2 st2 where c2: "call env c ?q None (errorf ''complete blob upload status %d'') st1 = (r2, st2)" by (metis surj_pair)
      have "sends env c (snd st1) (snd st2)"
        by (rule call_sends [OF _ _ c2]) (simp_all only: new_request_fields resolveLocation_registry [OF u sep])
      then have "sends env c (snd st) (snd st2)" using s1 by (rule sends_trans)
      with c1 c2 u r1 show ?thesis
        by (cases r2; cases "?h = []") (simp_all add: def sends.nothing)
    qed
  qed
qed (simp add: HTTP_PutBlob_def sends.nothing)

lemma VerifyPushScope_sends: "sends env c (snd st) (snd (snd (VerifyPushScope env c repo st)))"
proof -
  obtain t n where st: "st = (t, n)" by force
  obtain r1 n1 where d: "he_Do env (new_request ''GET'' (hc_url env c ''/v2/'') None) n = (r1, n1)" by force
  have s1: "sends env c n n1" by (rule sends_Do [OF d]) (simp add: approved_def hc_url_registry)
  have s2: "bearerToken env c realm service scope (t, n1) = (x, st2) \<Longrightarrow> sends env c n (snd st2)" for realm service scope x st2
    using bearerToken_sends [of env c realm service scope t n1 x "fst st2" "snd st2"] s1 by (auto intro: sends_trans)
  show ?thesis
    unfolding st using d s1
    by (auto simp: VerifyPushScope_def Let_def split: option.splits sum.splits prod.splits
        intro: sends.nothing dest: s2)
qed


section \<open>Tokens\<close>

text \<open>
  A token obtained for a realm, service and scope is afterwards answered from the
  cache, with no request, for as long as the current time is more than fifteen seconds before its
  expiry; obtaining it changes no other key of the cache.
\<close>

theorem token_cached:
  assumes "bearerToken env c realm service scope (tokens, n) = (Inr token, (tokens', n'))"
  shows "(\<exists>ct. tokens' (tokenKey realm service scope) = Some ct \<and> ct_value ct = token
      \<and> (\<forall>m. he_Now env m + 15 * second < ct_expiresAt ct \<longrightarrow>
             bearerToken env c realm service scope (tokens', m) = (Inr token, (tokens', m))))
    \<and> (\<forall>key. key \<noteq> tokenKey realm service scope \<longrightarrow> tokens' key = tokens key)"
  using assms by (auto simp: bearerToken_def Let_def split: option.splits sum.splits prod.splits if_splits)

text \<open>A registry at r with a token service at auth.r, whose clock counts requests.\<close>

definition ex_url :: "string \<Rightarrow> URL" where
  "ex_url s = \<lparr>u_Scheme = ''https'', u_Host = s, u_User = False, u_RawQuery = [], u_Fragment = [], u_Path = []\<rparr>"

definition ex_env :: "int HTTPEnv" where
  "ex_env = \<lparr>he_Parse = (\<lambda>s. Inr (ex_url s)), he_String = u_Host, he_SetQuery = (\<lambda>u ps. u),
     he_QueryEscape = id, he_Join = (@), he_NewRequest = (\<lambda>_ _. None),
     he_Do = (\<lambda>q n. (Inr \<lparr>hr_Status = 200, hr_Header = (\<lambda>_. []), hr_Body = bytes_NewReader [], hr_Close = None,
        hr_ContentLength = 0\<rparr>, n + 1)),
     he_Now = (\<lambda>n. n * second), he_DecodeToken = (\<lambda>_. Inr \<lparr>tp_Token = ''tok'', tp_AccessToken = [], tp_ExpiresIn = 60\<rparr>),
     he_DecodeBase64 = Inr, he_DecodeClaims = (\<lambda>_. Inr []), he_ParseInt = (\<lambda>_. Inr 0),
     he_Unmarshal = (\<lambda>_. Inl (errorf [])), he_Unicode = ascii_unicode, he_Hash = id\<rparr>"

definition ex_conn :: HTTPConnector where
  "ex_conn = \<lparr>hc_name = ''hub'', hc_endpoint = ex_url ''r'', hc_basic = None, hc_preemptiveBasic = False,
     hc_allowedTokenHosts = {''r'', ''auth.r''}\<rparr>"

theorem token_cached_witness:
  "\<exists>tokens'. bearerToken ex_env ex_conn ''auth.r'' ''s'' ''x'' (Map.empty, 0) = (Inr ''tok'', (tokens', 1))
     \<and> bearerToken ex_env ex_conn ''auth.r'' ''s'' ''x'' (tokens', 20) = (Inr ''tok'', (tokens', 20))"
proof -
  obtain tokens' where a: "bearerToken ex_env ex_conn ''auth.r'' ''s'' ''x'' (Map.empty, 0) = (Inr ''tok'', (tokens', 1))"
      and t: "tokens' = [tokenKey ''auth.r'' ''s'' ''x'' \<mapsto> \<lparr>ct_value = ''tok'', ct_expiresAt = 61 * second\<rparr>]"
    by (simp add: bearerToken_def ex_env_def ex_conn_def checkRealm_def token_response_def token_request_def
        Let_def ex_url_def new_request_def ToLower_def ascii_lower_def int64_def)
  have "he_Now ex_env 20 + 15 * second < 61 * second" by (simp add: ex_env_def)
  with token_cached [OF a] t a show ?thesis by auto
qed

section \<open>Challenges\<close>

lemma in_range_snoc: "byte l < 128 \<Longrightarrow> 128 \<le> lo \<Longrightarrow> in_range lo hi (cs @ [l]) i \<longleftrightarrow> in_range lo hi cs i"
  by (auto simp: in_range_def nth_append less_Suc_eq split: if_splits)

lemma DecodeRune_snoc: "byte l < 128 \<Longrightarrow> DecodeRune c (cs @ [l]) = DecodeRune c cs"
  unfolding DecodeRune_def
  by (simp add: in_range_snoc Let_def) (auto simp: in_range_def nth_append)

lemma DecodeRune_length: "snd (DecodeRune c cs) \<le> length cs"
  by (auto simp: DecodeRune_def Let_def in_range_def simp del: length_greater_0_conv)

lemma segs_snoc: "byte l < 128 \<Longrightarrow> segs (s @ [l]) = segs s @ [(byte l, [l])]"
proof (induction s rule: segs.induct)
  case 1
  then show ?case by (simp add: DecodeRune_def)
next
  case (2 c cs)
  then show ?case using DecodeRune_length [of c cs] by (simp add: DecodeRune_snoc)
qed

lemma segs_ascii: "byte c < 128 \<Longrightarrow> segs (c # s) = (byte c, [c]) # segs s"
  by (simp add: DecodeRune_def)

lemma TrimSpace_ends:
  assumes "byte c < 128" "\<not> IsSpace (byte c)" "byte l < 128" "\<not> IsSpace (byte l)"
  shows "TrimSpace (c # s @ [l]) = c # s @ [l]"
proof -
  have "segs (c # s @ [l]) = (byte c, [c]) # segs s @ [(byte l, [l])]"
    using assms by (simp only: segs_ascii segs_snoc)
  with assms show ?thesis by (simp add: TrimSpace_def trim_segs_def del: segs.simps)
qed

text \<open>A challenge as a registry writes it: quoted values with backslash escapes.\<close>

fun escaped :: "string \<Rightarrow> string" where
  "escaped [] = []"
| "escaped (c # cs) = (if c = CHR 0x22 \<or> c = CHR 0x5C then CHR 0x5C # c # escaped cs else c # escaped cs)"

definition render_param :: "string \<Rightarrow> string \<Rightarrow> string" where
  "render_param k v = k @ ''='' @ [CHR 0x22] @ escaped v @ [CHR 0x22]"

definition render_challenge :: "string \<Rightarrow> string \<Rightarrow> string \<Rightarrow> string" where
  "render_challenge realm service scope = ''Bearer '' @ render_param ''realm'' realm @ '','' @
     render_param ''service'' service @ '','' @ render_param ''scope'' scope"

lemma quoted_value_escaped: "quoted_value (escaped v @ CHR 0x22 # rest) = Some (v, rest)"
proof (induction v)
  case Nil
  then show ?case by (cases rest) simp_all
next
  case (Cons c v)
  then show ?case
    by (cases "escaped v @ CHR 0x22 # rest") auto
qed

lemma render_param_nonempty [simp]: "render_param k v \<noteq> []"
  by (simp add: render_param_def)

lemma parse_quoted_param:
  assumes "\<forall>c \<in> set seps. c = CHR '' '' \<or> c = CHR '',''"
    and "k = x # xs" "x \<noteq> CHR '' ''" "x \<noteq> CHR '',''" "CHR ''='' \<notin> set k" "ToLower U (TrimSpace k) = k"
  shows "parseParams U ps (seps @ render_param k v @ rest) = parseParams U (AList.update k v ps) rest"
proof -
  let ?v = "seps @ render_param k v @ rest"
  have v1: "dropWhile (\<lambda>c. c = CHR '' '' \<or> c = CHR '','') ?v = k @ CHR ''='' # CHR 0x22 # escaped v @ CHR 0x22 # rest"
    using assms(1-4) by (simp add: dropWhile_append render_param_def)
  have t: "takeWhile (\<lambda>c. c \<noteq> CHR ''='') (k @ CHR ''='' # y) = k"
    and d: "dropWhile (\<lambda>c. c \<noteq> CHR ''='') (k @ CHR ''='' # y) = CHR ''='' # y" for y
    using assms(5) by (auto simp: takeWhile_append dropWhile_append)
  have ne: "?v \<noteq> []" by (simp add: render_param_def)
  show ?thesis
    by (subst parseParams.simps)
       (simp only: Let_def v1 t d ne assms(6) list.sel if_False if_True list.simps not_Cons_self2
         quoted_value_escaped option.case prod.case refl append_is_Nil_conv simp_thms, use assms(2) in simp)
qed

lemma challenge_read:
  assumes "realm \<noteq> []"
  shows "parseBearerChallenge U (render_challenge realm service scope) = Some (realm, service, scope)"
proof -
  let ?ps = "[(''realm'', realm), (''service'', service), (''scope'', scope)]"
  have step: "parseParams U ps (sep # render_param k v @ rest) = parseParams U (AList.update k v ps) rest"
    if "sep = CHR '' '' \<or> sep = CHR '',''" "k \<in> {''realm'', ''service'', ''scope''}" for ps sep k v rest
  proof -
    have "ToLower U (TrimSpace k) = k" using that(2)
      by (auto simp: TrimSpace_def trim_segs_def segs_ascii IsSpace_def ToLower_def ascii_lower_def simp del: segs.simps(2))
    then show ?thesis using that parse_quoted_param [of "[sep]" k "hd k" "tl k" U ps v rest] by auto
  qed
  have "parseParams U [] (drop 6 (render_challenge realm service scope)) = parseParams U ?ps []"
    using step [of "CHR '' ''" "''realm''"] step [of "CHR '',''" "''service''"]
      step [of "CHR '',''" "''scope''" _ _ "[]"]
    by (simp add: render_challenge_def)
  then have p: "parseChallengeParams U (drop 6 (render_challenge realm service scope)) = Some ?ps"
    by (simp add: parseChallengeParams_def parseParams.simps)
  obtain mid where "render_challenge realm service scope = CHR ''B'' # mid @ [CHR 0x22]"
    by (simp add: render_challenge_def render_param_def)
  then have t: "TrimSpace (render_challenge realm service scope) = render_challenge realm service scope"
    using TrimSpace_ends [of "CHR ''B''" "CHR 0x22"] by (simp add: IsSpace_def)
  have "take 6 (render_challenge realm service scope) = ''Bearer''" by (simp add: render_challenge_def)
  then have "map ascii_lower (take 6 (render_challenge realm service scope)) = ''bearer''"
    by (simp only:) code_simp
  moreover have "\<not> length (render_challenge realm service scope) < 6" by (simp add: render_challenge_def)
  ultimately show ?thesis using assms by (simp add: parseBearerChallenge_def t p param_def)
qed

text \<open>
  A Bearer challenge written with quoted, backslash-escaped values for
  realm, service and scope is read back as exactly those values, provided the realm is not empty.
\<close>

theorem challenge_round_trip:
  assumes "realm \<noteq> []"
  shows "parseBearerChallenge U (render_challenge realm service scope) = Some (realm, service, scope)"
  by (rule challenge_read) (rule assms)

theorem challenge_round_trip_witness:
  "parseBearerChallenge ascii_unicode (render_challenge ''https://auth.r/token'' ''reg'' ''repository:app:pull,push'')
     = Some (''https://auth.r/token'', ''reg'', ''repository:app:pull,push'')"
  by (rule challenge_round_trip) simp

end
