(* ===== verification/Resolution.thy ===== *)
theory Resolution
  imports Connector Memory_Repository
begin

text \<open>
  What the pull and the push resolver share (internal/resolution, internal/identity and
  internal/auth/auth.go): principals, the interfaces Authorizer and ConnectorProvider, the
  resolver with its collaborators, and the world they act on, which is the content store, the
  metadata repository, the upstream registries and the clock.
\<close>

section \<open>Principals\<close>

record Principal =
  pr_Kind :: string
  pr_ID :: string
  pr_Username :: string

definition KindAnonymous :: string where "KindAnonymous = ''anonymous''"
definition KindLocalUser :: string where "KindLocalUser = ''local_user''"

definition Anonymous :: Principal where
  "Anonymous = \<lparr>pr_Kind = KindAnonymous, pr_ID = [], pr_Username = []\<rparr>"

definition EventIdentity :: "Principal \<Rightarrow> string" where
  "EventIdentity p = (if pr_Kind p = KindAnonymous then [] else pr_ID p)"

definition RouteAuthorizer_Authorize :: "Principal \<Rightarrow> string \<Rightarrow> string \<Rightarrow> bool" where
  "RouteAuthorizer_Authorize client operation route =
    (if operation = OperationPull then True
     else operation = OperationPush \<and> pr_Kind client = KindLocalUser \<and> pr_ID client \<noteq> [])"

section \<open>The world and the resolver\<close>

record ('s, 'm, 'w) World =
  w_store :: 's
  w_meta :: 'm
  w_up :: 'w
  w_tick :: nat

text \<open>
  ConnectorFor returns a connector (None for nil) with the name of the credential source. The
  provider reads the same database as the metadata repository; its calls may change the
  repository's call counters, so they return the state.
\<close>

record ('m, 'w) ConnectorProvider =
  cp_ConnectorFor :: "'m \<Rightarrow> Principal \<Rightarrow> string \<Rightarrow> string \<Rightarrow> ('w Connector option \<times> string) result \<times> 'm"
  cp_AuthorizeCache :: "'m \<Rightarrow> Principal \<Rightarrow> CacheBinding \<Rightarrow> string \<Rightarrow> string result \<times> 'm"

record ('s, 'm, 'w) Resolver =
  r_policy :: Engine
  r_store :: "'s Store"
  r_metadata :: "'m Repository"
  r_connectors :: "string \<Rightarrow> 'w Connector option"
  r_provider :: "('m, 'w) ConnectorProvider option"
  r_authorizer :: "(Principal \<Rightarrow> string \<Rightarrow> string \<Rightarrow> bool) option"
  r_now :: "nat \<Rightarrow> time"
  r_unicode :: unicode
  r_hash :: "string \<Rightarrow> string"
  r_unmarshal :: "string \<Rightarrow> RawManifest result"

definition authorized :: "('s, 'm, 'w) Resolver \<Rightarrow> Principal \<Rightarrow> string \<Rightarrow> string \<Rightarrow> bool" where
  "authorized r client operation route =
    (case r_authorizer r of None \<Rightarrow> True | Some a \<Rightarrow> a client operation route)"

text \<open>Reading the clock, and the calls on the store and the repository, lifted to the world.\<close>

definition read_now :: "('s, 'm, 'w) Resolver \<Rightarrow> ('s, 'm, 'w) World \<Rightarrow> time \<times> ('s, 'm, 'w) World" where
  "read_now r w = (r_now r (w_tick w), w\<lparr>w_tick := Suc (w_tick w)\<rparr>)"

definition store_put ::
  "('s, 'm, 'w) Resolver \<Rightarrow> string \<Rightarrow> Reader \<Rightarrow> ('s, 'm, 'w) World \<Rightarrow> Descriptor result \<times> ('s, 'm, 'w) World" where
  "store_put r digest content w =
    (case st_PutBlob (r_store r) (w_store w) digest content of (x, s) \<Rightarrow> (x, w\<lparr>w_store := s\<rparr>))"

definition store_open ::
  "('s, 'm, 'w) Resolver \<Rightarrow> string \<Rightarrow> ('s, 'm, 'w) World \<Rightarrow> Reader result \<times> ('s, 'm, 'w) World" where
  "store_open r digest w =
    (case st_OpenBlob (r_store r) (w_store w) digest of (x, s) \<Rightarrow> (x, w\<lparr>w_store := s\<rparr>))"

definition store_list ::
  "('s, 'm, 'w) Resolver \<Rightarrow> ('s, 'm, 'w) World \<Rightarrow> Descriptor list result \<times> ('s, 'm, 'w) World" where
  "store_list r w = (case st_ListBlobs (r_store r) (w_store w) of (x, s) \<Rightarrow> (x, w\<lparr>w_store := s\<rparr>))"

definition with_meta ::
  "('m \<Rightarrow> 'a \<times> 'm) \<Rightarrow> ('s, 'm, 'w) World \<Rightarrow> 'a \<times> ('s, 'm, 'w) World" where
  "with_meta f w = (case f (w_meta w) of (x, m) \<Rightarrow> (x, w\<lparr>w_meta := m\<rparr>))"

definition with_up ::
  "('w \<Rightarrow> 'a \<times> 'w) \<Rightarrow> ('s, 'm, 'w) World \<Rightarrow> 'a \<times> ('s, 'm, 'w) World" where
  "with_up f w = (case f (w_up w) of (x, u) \<Rightarrow> (x, w\<lparr>w_up := u\<rparr>))"

section \<open>References\<close>

definition isDigestReference :: "string \<Rightarrow> bool" where
  "isDigestReference reference = HasPrefix reference ''sha256:''"

definition referenceString :: "string \<Rightarrow> string \<Rightarrow> string" where
  "referenceString repo reference =
    (if isDigestReference reference then repo @ ''@'' @ reference else repo @ '':'' @ reference)"

definition mappingIsFresh :: "TagMapping \<Rightarrow> time \<Rightarrow> bool" where
  "mappingIsFresh m now \<longleftrightarrow> IsZero (FreshUntil m) \<or> FreshUntil m > now \<or> FreshUntil m = now"

fun containsString :: "string list \<Rightarrow> string \<Rightarrow> bool" where
  "containsString [] wanted = False"
| "containsString (v # vs) wanted = (if v = wanted then True else containsString vs wanted)"

definition manifestAndBlobBytes :: "Manifest \<Rightarrow> int" where
  "manifestAndBlobBytes m = rd_Size m"

lemma containsString_iff [simp]: "containsString vs x \<longleftrightarrow> x \<in> set vs"
  by (induction vs) auto

section \<open>What the lifted calls leave alone\<close>

lemma read_now_keeps [simp]:
  assumes "read_now r w = (t, w')"
  shows "w_store w' = w_store w" "w_meta w' = w_meta w" "w_up w' = w_up w"
  using assms by (auto simp: read_now_def)

lemma read_now_world:
  "read_now r w = (t, w') \<Longrightarrow> w_store w' = w_store w \<and> w_meta w' = w_meta w \<and> w_up w' = w_up w"
  by simp

lemma store_put_keeps:
  "store_put r d c w = (x, w') \<Longrightarrow> w_meta w' = w_meta w \<and> w_up w' = w_up w \<and> w_tick w' = w_tick w
     \<and> st_PutBlob (r_store r) (w_store w) d c = (x, w_store w')"
  by (auto simp: store_put_def split: prod.splits)

lemma store_open_keeps:
  "store_open r d w = (x, w') \<Longrightarrow> w_meta w' = w_meta w \<and> w_up w' = w_up w \<and> w_tick w' = w_tick w
     \<and> st_OpenBlob (r_store r) (w_store w) d = (x, w_store w')"
  by (auto simp: store_open_def split: prod.splits)

lemma store_list_keeps:
  "store_list r w = (x, w') \<Longrightarrow> w_meta w' = w_meta w \<and> w_up w' = w_up w \<and> w_tick w' = w_tick w
     \<and> st_ListBlobs (r_store r) (w_store w) = (x, w_store w')"
  by (auto simp: store_list_def split: prod.splits)

lemma with_meta_keeps:
  "with_meta f w = (x, w') \<Longrightarrow> w_store w' = w_store w \<and> w_up w' = w_up w \<and> w_tick w' = w_tick w
     \<and> f (w_meta w) = (x, w_meta w')"
  by (auto simp: with_meta_def split: prod.splits)

lemma with_up_keeps:
  "with_up f w = (x, w') \<Longrightarrow> w_store w' = w_store w \<and> w_meta w' = w_meta w \<and> w_tick w' = w_tick w
     \<and> f (w_up w) = (x, w_up w')"
  by (auto simp: with_up_def split: prod.splits)

lemmas world_keeps = store_put_keeps store_open_keeps store_list_keeps with_meta_keeps with_up_keeps

end
