(* ===== verification/Pull_Resolver.thy ===== *)
theory Pull_Resolver
  imports Resolution
begin

text \<open>
  The pull resolver (internal/resolution/pull.go): resolution by policy, the authorised local
  cache, the candidate sources in order with their error classes, caching of manifests and
  blobs, cache bindings, and the records each outcome leaves.
\<close>

section \<open>Requests and results\<close>

record ResolverPullRequest =
  rq_Repository :: string
  rq_Reference :: string
  rq_Principal :: Principal

record PullResult =
  pres_Manifest :: Manifest
  pres_Source :: string
  pres_Route :: string
  pres_FallbackUsed :: bool
  pres_Explanation :: "explanation list"
  pres_CredentialSource :: string

record BlobRequest =
  br_Repository :: string
  br_Digest :: string
  br_Principal :: Principal

record BlobResult =
  bres_Content :: Reader
  bres_Size :: int
  bres_CredentialSource :: string

definition SourceCache :: string where "SourceCache = ''local-cache''"

section \<open>Records\<close>

definition pull_event ::
  "time \<Rightarrow> time \<Rightarrow> ResolverPullRequest \<Rightarrow> PullDecision \<Rightarrow> RequestEvent" where
  "pull_event started now request decision =
    \<lparr>ev_ID = 0, ev_Timestamp = now, ev_Operation = OperationPull,
     ev_ClientIdentity = EventIdentity (rq_Principal request), ev_CredentialSource = [],
     ev_LogicalReference = referenceString (pld_LogicalRepository decision) (pld_Reference decision),
     ev_MatchedRoute = pld_RouteName decision, ev_SourceOrDestination = [],
     ev_Status = StatusError, ev_CacheResult = CacheMiss, ev_Duration = time_Sub now started,
     ev_BytesTransferred = 0, ev_ErrorClassification = [], ev_Explanation = pld_Explanation decision\<rparr>"

definition recordUnauthorizedPull ::
  "('s, 'm, 'w) Resolver \<Rightarrow> time \<Rightarrow> ResolverPullRequest \<Rightarrow> PullDecision \<Rightarrow> ('s, 'm, 'w) World
     \<Rightarrow> unit result \<times> ('s, 'm, 'w) World" where
  "recordUnauthorizedPull r started request decision w =
    (case read_now r w of (now, w) \<Rightarrow>
      with_meta (\<lambda>m. mr_RecordRequestEvent (r_metadata r) m
        ((pull_event started now request decision)
          \<lparr>ev_Status := StatusDenied, ev_ErrorClassification := ''authorization_denied'',
           ev_Explanation := pld_Explanation decision
             @ [NotAuthorizedFor (EventIdentity (rq_Principal request)) (pld_RouteName decision)]\<rparr>)) w)"

definition recordCacheHit ::
  "('s, 'm, 'w) Resolver \<Rightarrow> time \<Rightarrow> ResolverPullRequest \<Rightarrow> PullDecision \<Rightarrow> PullResult \<Rightarrow> ('s, 'm, 'w) World
     \<Rightarrow> unit result \<times> ('s, 'm, 'w) World" where
  "recordCacheHit r started request decision res w =
    (case read_now r w of (now, w) \<Rightarrow>
      with_meta (\<lambda>m. mr_RecordRequestEvent (r_metadata r) m
        ((pull_event started now request decision)
          \<lparr>ev_CredentialSource := pres_CredentialSource res, ev_MatchedRoute := pres_Route res,
           ev_SourceOrDestination := pres_Source res, ev_Status := StatusSuccess,
           ev_CacheResult := CacheHit, ev_BytesTransferred := rd_Size (pres_Manifest res),
           ev_Explanation := pres_Explanation res\<rparr>)) w)"

text \<open>The classification of a failed pull; later tests override earlier ones.\<close>

definition failed_pull_class :: "PullDecision \<Rightarrow> goerr option \<Rightarrow> string \<times> string" where
  "failed_pull_class decision cause =
    (let is = (\<lambda>s. case cause of None \<Rightarrow> False | Some e \<Rightarrow> errors_Is e s);
         blocked = AuthoritativeSource decision \<noteq> [] \<and> \<not> ExternalFallbackAllowed decision;
         status = (if blocked then StatusDenied else StatusError);
         c = (if blocked then ''fallback_blocked'' else ''not_found'');
         c = (if is ErrSourceUnavailable then ''source_unavailable'' else c);
         c = (if is ErrAuthentication then ''upstream_authentication_failed'' else c);
         c = (if is ErrCredentialRequired then ''credential_required'' else c);
         c = (if is ErrCredentialUnavailable then ''credential_unavailable'' else c);
         c = (if is ErrAuthorization then ''upstream_authorization_failed'' else c)
     in (status, c))"

definition recordFailedPull ::
  "('s, 'm, 'w) Resolver \<Rightarrow> time \<Rightarrow> ResolverPullRequest \<Rightarrow> PullDecision \<Rightarrow> goerr option \<Rightarrow> ('s, 'm, 'w) World
     \<Rightarrow> unit result \<times> ('s, 'm, 'w) World" where
  "recordFailedPull r started request decision cause w =
    (case read_now r w of (now, w) \<Rightarrow>
      with_meta (\<lambda>m. mr_RecordRequestEvent (r_metadata r) m
        ((pull_event started now request decision)
          \<lparr>ev_Status := fst (failed_pull_class decision cause),
           ev_ErrorClassification := snd (failed_pull_class decision cause)\<rparr>)) w)"

definition recordSuccessfulPull ::
  "('s, 'm, 'w) Resolver \<Rightarrow> time \<Rightarrow> ResolverPullRequest \<Rightarrow> PullDecision \<Rightarrow> PullResult \<Rightarrow> ('s, 'm, 'w) World
     \<Rightarrow> unit result \<times> ('s, 'm, 'w) World" where
  "recordSuccessfulPull r started request decision res w =
    (case read_now r w of (now, w) \<Rightarrow>
     let logicalReference = referenceString (pld_LogicalRepository decision) (pld_Reference decision);
         manifest = pres_Manifest res in
     case with_meta (\<lambda>m. mr_RecordProvenance (r_metadata r) m
        \<lparr>pv_LogicalReference = logicalReference,
         PhysicalSourceReference = referenceString (pld_PhysicalRepository decision) (pld_Reference decision),
         RequestedReference = pld_Reference decision, ResolvedDigest = rd_Digest manifest,
         pv_Source = pres_Source res, pv_Route = pres_Route res, pv_FallbackUsed = pres_FallbackUsed res,
         StaleServed = False, RetrievedAt = now, ValidatedAt = now\<rparr>) w of
       (Inl e, w) \<Rightarrow> (Inl e, w)
     | (Inr _, w) \<Rightarrow>
       (case (if isDigestReference (pld_Reference decision) then (Inr (), w)
              else with_meta (\<lambda>m. mr_RecordTagMapping (r_metadata r) m
                \<lparr>tm_LogicalRepository = pld_LogicalRepository decision, tm_Tag = pld_Reference decision,
                 tm_Digest = rd_Digest manifest, tm_MediaType = rd_MediaType manifest,
                 tm_Size = rd_Size manifest, tm_BlobDigests = BlobDigests manifest,
                 tm_Source = pres_Source res, tm_Route = pres_Route res, ResolvedAt = now,
                 LastValidatedAt = now, FreshUntil = now + 24 * hour\<rparr>) w) of
          (Inl e, w) \<Rightarrow> (Inl e, w)
        | (Inr _, w) \<Rightarrow>
          with_meta (\<lambda>m. mr_RecordRequestEvent (r_metadata r) m
            ((pull_event started now request decision)
              \<lparr>ev_CredentialSource := pres_CredentialSource res, ev_MatchedRoute := pres_Route res,
               ev_SourceOrDestination := pres_Source res, ev_Status := StatusSuccess,
               ev_CacheResult := CacheMiss, ev_BytesTransferred := manifestAndBlobBytes manifest,
               ev_Explanation := pres_Explanation res\<rparr>)) w))"

section \<open>Caching what a source delivered\<close>

fun cacheBlobs ::
  "('s, 'm, 'w) Resolver \<Rightarrow> 'w Connector \<Rightarrow> string \<Rightarrow> string list \<Rightarrow> ('s, 'm, 'w) World
     \<Rightarrow> unit result \<times> ('s, 'm, 'w) World" where
  "cacheBlobs r connector repo [] w = (Inr (), w)"
| "cacheBlobs r connector repo (digest # ds) w =
     (case with_up (\<lambda>u. cn_OpenBlob connector u repo digest) w of
        (Inl e, w) \<Rightarrow> (Inl (wrapf ''open source blob %s: %w'' e), w)
      | (Inr rc, w) \<Rightarrow>
        (case store_put r digest (bs_Reader rc) w of
           (Inl putErr, w) \<Rightarrow> (Inl (wrapf ''cache blob %s: %w'' putErr), w)
         | (Inr _, w) \<Rightarrow>
           (case bs_Close rc of
              Some closeErr \<Rightarrow> (Inl (wrapf ''close source blob %s: %w'' closeErr), w)
            | None \<Rightarrow> cacheBlobs r connector repo ds w)))"

definition cacheManifest ::
  "('s, 'm, 'w) Resolver \<Rightarrow> 'w Connector \<Rightarrow> string \<Rightarrow> Manifest \<Rightarrow> ('s, 'm, 'w) World
     \<Rightarrow> unit result \<times> ('s, 'm, 'w) World" where
  "cacheManifest r connector repo manifest w =
    (case store_put r (rd_Digest manifest) (bytes_NewReader (Content manifest)) w of
       (Inl e, w) \<Rightarrow> (Inl (wrapf ''cache manifest: %w'' e), w)
     | (Inr _, w) \<Rightarrow> cacheBlobs r connector repo (BlobDigests manifest) w)"

definition new_binding ::
  "PullDecision \<Rightarrow> string \<Rightarrow> Manifest \<Rightarrow> string \<Rightarrow> string \<Rightarrow> string \<Rightarrow> string \<Rightarrow> CacheBinding" where
  "new_binding decision source manifest access userID digest kind =
    \<lparr>cb_LogicalRepository = pld_LogicalRepository decision, cb_Route = pld_RouteName decision,
     cb_Source = source, cb_PhysicalRepository = pld_PhysicalRepository decision,
     cb_ManifestDigest = rd_Digest manifest, cb_ObjectDigest = digest, cb_ObjectKind = kind,
     cb_Access = access, cb_UserID = userID, cb_CreatedAt = 0, cb_UpdatedAt = 0\<rparr>"

definition pull_bindings ::
  "ResolverPullRequest \<Rightarrow> PullDecision \<Rightarrow> string \<Rightarrow> Manifest \<Rightarrow> string \<Rightarrow> CacheBinding list" where
  "pull_bindings request decision source manifest credentialSource =
    (let (access, userID) =
       (if credentialSource = ''current_user''
        then (CacheAccessCurrentUserRequired, pr_ID (rq_Principal request))
        else if credentialSource = ''proxy'' then (CacheAccessProxy, [])
        else (CacheAccessChallenge, []))
     in new_binding decision source manifest access userID (rd_Digest manifest) ''manifest''
        # map (\<lambda>digest. new_binding decision source manifest access userID digest ''blob'') (BlobDigests manifest))"

definition recordCacheBindings ::
  "('s, 'm, 'w) Resolver \<Rightarrow> ResolverPullRequest \<Rightarrow> PullDecision \<Rightarrow> string \<Rightarrow> Manifest \<Rightarrow> string
     \<Rightarrow> ('s, 'm, 'w) World \<Rightarrow> unit result \<times> ('s, 'm, 'w) World" where
  "recordCacheBindings r request decision source manifest credentialSource w =
    with_meta (\<lambda>m. mr_RecordCacheBindings (r_metadata r) m
      (pull_bindings request decision source manifest credentialSource)) w"

section \<open>The authorised cache\<close>

text \<open>The loop over the bindings, with the last refusal.\<close>

fun authorizeBindings ::
  "('s, 'm, 'w) Resolver \<Rightarrow> Principal \<Rightarrow> PullDecision \<Rightarrow> goerr option \<Rightarrow> CacheBinding list \<Rightarrow> ('s, 'm, 'w) World
     \<Rightarrow> (CacheBinding \<times> string) option result \<times> ('s, 'm, 'w) World" where
  "authorizeBindings r client decision denied [] w =
     (case denied of Some e \<Rightarrow> (Inl e, w) | None \<Rightarrow> (Inr None, w))"
| "authorizeBindings r client decision denied (binding # bs) w =
     (if \<not> containsString (CandidateSources decision) (cb_Source binding)
      then authorizeBindings r client decision denied bs w
      else if cb_Access binding = CacheAccessChallenge then (Inr (Some (binding, ''anonymous'')), w)
      else (case r_provider r of
          None \<Rightarrow> authorizeBindings r client decision (Some (sentinel_err ErrCredentialRequired)) bs w
        | Some p \<Rightarrow>
          (case with_meta (\<lambda>m. cp_AuthorizeCache p m client binding OperationPull) w of
             (Inr credentialSource, w) \<Rightarrow> (Inr (Some (binding, credentialSource)), w)
           | (Inl e, w) \<Rightarrow> authorizeBindings r client decision (Some e) bs w)))"

definition authorizeCachedObject ::
  "('s, 'm, 'w) Resolver \<Rightarrow> Principal \<Rightarrow> PullDecision \<Rightarrow> string \<Rightarrow> ('s, 'm, 'w) World
     \<Rightarrow> (CacheBinding \<times> string) option result \<times> ('s, 'm, 'w) World" where
  "authorizeCachedObject r client decision digest w =
    (case with_meta (\<lambda>m. mr_ListCacheBindings (r_metadata r) m (pld_LogicalRepository decision)
            (pld_RouteName decision) digest) w of
       (Inl e, w) \<Rightarrow> (Inl e, w)
     | (Inr bindings, w) \<Rightarrow> authorizeBindings r client decision None bindings w)"

definition cachedManifestByDigest ::
  "('s, 'm, 'w) Resolver \<Rightarrow> string \<Rightarrow> RegDescriptor \<Rightarrow> ('s, 'm, 'w) World
     \<Rightarrow> Manifest option result \<times> ('s, 'm, 'w) World" where
  "cachedManifestByDigest r digest desc w =
    (case store_open r digest w of
       (Inl e, w) \<Rightarrow> if errors_Is e ErrBlobNotFound then (Inr None, w) else (Inl e, w)
     | (Inr rc, w) \<Rightarrow>
       (case ReadAll rc of Inl e \<Rightarrow> (Inl e, w)
        | Inr body \<Rightarrow>
          let desc = (if rd_Size desc = 0 then desc\<lparr>rd_Size := int (length body)\<rparr> else desc)
          in (case ParseManifest (r_hash r) (r_unmarshal r) body of
                Inr parsed \<Rightarrow>
                  (let desc = (if rd_MediaType desc = [] then desc\<lparr>rd_MediaType := rd_MediaType parsed\<rparr> else desc)
                   in (Inr (Some \<lparr>rd_MediaType = rd_MediaType desc, rd_Digest = rd_Digest desc,
                                 rd_Size = rd_Size desc, Content = body,
                                 BlobDigests = BlobDigests parsed\<rparr>), w))
              | Inl _ \<Rightarrow> (Inr (Some \<lparr>rd_MediaType = rd_MediaType desc, rd_Digest = rd_Digest desc,
                                 rd_Size = rd_Size desc, Content = body, BlobDigests = []\<rparr>), w))))"

definition cache_result :: "PullDecision \<Rightarrow> Manifest \<Rightarrow> explanation \<Rightarrow> string \<Rightarrow> PullResult" where
  "cache_result decision manifest line credentialSource =
    \<lparr>pres_Manifest = manifest, pres_Source = SourceCache, pres_Route = pld_RouteName decision,
     pres_FallbackUsed = False, pres_Explanation = pld_Explanation decision @ [line],
     pres_CredentialSource = credentialSource\<rparr>"

text \<open>The last part of both branches of tryCache: record the hit and return the result.\<close>

definition cache_hit ::
  "('s, 'm, 'w) Resolver \<Rightarrow> time \<Rightarrow> ResolverPullRequest \<Rightarrow> PullDecision \<Rightarrow> PullResult \<Rightarrow> ('s, 'm, 'w) World
     \<Rightarrow> PullResult option result \<times> ('s, 'm, 'w) World" where
  "cache_hit r started request decision res w =
    (case recordCacheHit r started request decision res w of
       (Inl e, w) \<Rightarrow> (Inl e, w) | (Inr _, w) \<Rightarrow> (Inr (Some res), w))"

definition tryCacheDigest ::
  "('s, 'm, 'w) Resolver \<Rightarrow> time \<Rightarrow> ResolverPullRequest \<Rightarrow> PullDecision \<Rightarrow> ('s, 'm, 'w) World
     \<Rightarrow> PullResult option result \<times> ('s, 'm, 'w) World" where
  "tryCacheDigest r started request decision w =
    (case authorizeCachedObject r (rq_Principal request) decision (pld_Reference decision) w of
       (Inl e, w) \<Rightarrow> (Inl e, w)
     | (Inr None, w) \<Rightarrow> (Inr None, w)
     | (Inr (Some (_, credentialSource)), w) \<Rightarrow>
       (case cachedManifestByDigest r (pld_Reference decision)
               \<lparr>rd_MediaType = [], rd_Digest = pld_Reference decision, rd_Size = 0\<rparr> w of
          (Inl e, w) \<Rightarrow> (Inl e, w)
        | (Inr None, w) \<Rightarrow> (Inr None, w)
        | (Inr (Some manifest), w) \<Rightarrow>
          cache_hit r started request decision
            (cache_result decision manifest ServedDigestFromCache credentialSource) w))"

definition tryCacheTag ::
  "('s, 'm, 'w) Resolver \<Rightarrow> time \<Rightarrow> ResolverPullRequest \<Rightarrow> PullDecision \<Rightarrow> ('s, 'm, 'w) World
     \<Rightarrow> PullResult option result \<times> ('s, 'm, 'w) World" where
  "tryCacheTag r started request decision w =
    (case with_meta (\<lambda>m. mr_FindTagMapping (r_metadata r) m (pld_LogicalRepository decision)
            (pld_Reference decision)) w of
       (Inl e, w) \<Rightarrow> (Inl e, w)
     | (Inr None, w) \<Rightarrow> (Inr None, w)
     | (Inr (Some mapping), w) \<Rightarrow>
       (case read_now r w of (now, w) \<Rightarrow>
        if \<not> mappingIsFresh mapping now then (Inr None, w)
        else
          (case authorizeCachedObject r (rq_Principal request) decision (tm_Digest mapping) w of
             (Inl e, w) \<Rightarrow> (Inl e, w)
           | (Inr None, w) \<Rightarrow> (Inr None, w)
           | (Inr (Some (binding, credentialSource)), w) \<Rightarrow>
             if cb_Source binding \<noteq> tm_Source mapping \<or> cb_ManifestDigest binding \<noteq> tm_Digest mapping
             then (Inr None, w)
             else
               (case cachedManifestByDigest r (tm_Digest mapping)
                       \<lparr>rd_MediaType = tm_MediaType mapping, rd_Digest = tm_Digest mapping,
                        rd_Size = tm_Size mapping\<rparr> w of
                  (Inl e, w) \<Rightarrow> (Inl e, w)
                | (Inr None, w) \<Rightarrow> (Inr None, w)
                | (Inr (Some manifest), w) \<Rightarrow>
                  cache_hit r started request decision
                    (cache_result decision (manifest\<lparr>BlobDigests := tm_BlobDigests mapping\<rparr>)
                       ServedTagFromCache credentialSource) w))))"

definition tryCache ::
  "('s, 'm, 'w) Resolver \<Rightarrow> time \<Rightarrow> ResolverPullRequest \<Rightarrow> PullDecision \<Rightarrow> ('s, 'm, 'w) World
     \<Rightarrow> PullResult option result \<times> ('s, 'm, 'w) World" where
  "tryCache r started request decision w =
    (if isDigestReference (pld_Reference decision) then tryCacheDigest r started request decision w
     else tryCacheTag r started request decision w)"

section \<open>The candidate sources\<close>

text \<open>One iteration of the loop ends in continue, break or return.\<close>

datatype attempt = Continue goerr | Break goerr | Return "PullResult result"

definition credential_error :: "goerr \<Rightarrow> bool" where
  "credential_error e \<longleftrightarrow> errors_Is e ErrCredentialRequired \<or> errors_Is e ErrCredentialUnavailable
     \<or> errors_Is e ErrAuthentication \<or> errors_Is e ErrAuthorization"

definition connector_for ::
  "('s, 'm, 'w) Resolver \<Rightarrow> Principal \<Rightarrow> string \<Rightarrow> string \<Rightarrow> ('s, 'm, 'w) World
     \<Rightarrow> ('w Connector option \<times> string) result \<times> ('s, 'm, 'w) World" where
  "connector_for r client sourceID operation w =
    (case r_provider r of
       None \<Rightarrow> (Inr (r_connectors r sourceID, ''anonymous''), w)
     | Some p \<Rightarrow> with_meta (\<lambda>m. cp_ConnectorFor p m client sourceID operation) w)"

text \<open>What a failing ResolveManifest means, in the order of the tests.\<close>

definition resolve_error :: "goerr \<Rightarrow> attempt" where
  "resolve_error err =
    (if errors_Is err ErrAuthentication
     then Break (GoErr ''%w: %w for source %s'' [ErrSourceUnavailable, ErrAuthentication])
     else if errors_Is err ErrNotFound then Continue err
     else if errors_Is err ErrUnavailable then Continue (GoErr ''%w: %s'' [ErrSourceUnavailable])
     else Continue err)"

definition accept_manifest ::
  "('s, 'm, 'w) Resolver \<Rightarrow> time \<Rightarrow> ResolverPullRequest \<Rightarrow> PullDecision \<Rightarrow> nat \<Rightarrow> string \<Rightarrow> 'w Connector
     \<Rightarrow> string \<Rightarrow> Manifest \<Rightarrow> ('s, 'm, 'w) World \<Rightarrow> PullResult result \<times> ('s, 'm, 'w) World" where
  "accept_manifest r started request decision index sourceID connector credentialSource manifest w =
    (case cacheManifest r connector (pld_PhysicalRepository decision) manifest w of
       (Inl e, w) \<Rightarrow> (Inl e, w)
     | (Inr _, w) \<Rightarrow>
       (case recordCacheBindings r request decision sourceID manifest credentialSource w of
          (Inl e, w) \<Rightarrow> (Inl e, w)
        | (Inr _, w) \<Rightarrow>
          let fallbackUsed = index > 0;
              res = \<lparr>pres_Manifest = manifest, pres_Source = sourceID,
                     pres_Route = pld_RouteName decision, pres_FallbackUsed = fallbackUsed,
                     pres_Explanation = pld_Explanation decision @ [ResolvedFrom sourceID]
                       @ (if fallbackUsed then [FallbackSourceUsed] else []),
                     pres_CredentialSource = credentialSource\<rparr>
          in (case recordSuccessfulPull r started request decision res w of
                (Inl e, w) \<Rightarrow> (Inl e, w) | (Inr _, w) \<Rightarrow> (Inr res, w))))"

definition try_source ::
  "('s, 'm, 'w) Resolver \<Rightarrow> time \<Rightarrow> ResolverPullRequest \<Rightarrow> PullDecision \<Rightarrow> nat \<Rightarrow> string \<Rightarrow> ('s, 'm, 'w) World
     \<Rightarrow> attempt \<times> ('s, 'm, 'w) World" where
  "try_source r started request decision index sourceID w =
    (case connector_for r (rq_Principal request) sourceID OperationPull w of
       (Inl err, w) \<Rightarrow> (if credential_error err then Break err else Continue err, w)
     | (Inr (None, _), w) \<Rightarrow> (Continue (GoErr ''missing connector %q'' [ErrSourceUnavailable]), w)
     | (Inr (Some connector, credentialSource), w) \<Rightarrow>
       (case with_up (\<lambda>u. cn_ResolveManifest connector u (pld_PhysicalRepository decision)
                (pld_Reference decision)) w of
          (Inl err, w) \<Rightarrow> (resolve_error err, w)
        | (Inr manifest, w) \<Rightarrow>
          (case accept_manifest r started request decision index sourceID connector credentialSource manifest w of
             (res, w) \<Rightarrow> (Return res, w))))"

text \<open>The loop: a result, or the last error when the candidates are exhausted or broken off.\<close>

fun try_sources ::
  "('s, 'm, 'w) Resolver \<Rightarrow> time \<Rightarrow> ResolverPullRequest \<Rightarrow> PullDecision \<Rightarrow> nat \<Rightarrow> goerr option \<Rightarrow> string list
     \<Rightarrow> ('s, 'm, 'w) World \<Rightarrow> (goerr option + PullResult result) \<times> ('s, 'm, 'w) World" where
  "try_sources r started request decision index lastErr [] w = (Inl lastErr, w)"
| "try_sources r started request decision index lastErr (sourceID # ss) w =
     (case try_source r started request decision index sourceID w of
        (Continue e, w) \<Rightarrow> try_sources r started request decision (Suc index) (Some e) ss w
      | (Break e, w) \<Rightarrow> (Inl (Some e), w)
      | (Return res, w) \<Rightarrow> (Inr res, w))"

definition pull_failure :: "goerr option \<Rightarrow> goerr" where
  "pull_failure lastErr =
    (case lastErr of
       Some e \<Rightarrow> if errors_Is e ErrSourceUnavailable then e
         else if credential_error e then e
         else GoErr ''%w: %s'' [ErrResolutionNotFound]
     | None \<Rightarrow> GoErr ''%w: %s'' [ErrResolutionNotFound])"

definition pull_sources ::
  "('s, 'm, 'w) Resolver \<Rightarrow> time \<Rightarrow> ResolverPullRequest \<Rightarrow> PullDecision \<Rightarrow> ('s, 'm, 'w) World
     \<Rightarrow> PullResult result \<times> ('s, 'm, 'w) World" where
  "pull_sources r started request decision w =
    (case try_sources r started request decision 0 None (CandidateSources decision) w of
       (Inr res, w) \<Rightarrow> (res, w)
     | (Inl lastErr, w) \<Rightarrow>
       (case recordFailedPull r started request decision lastErr w of
          (Inl e, w) \<Rightarrow> (Inl e, w)
        | (Inr _, w) \<Rightarrow> (Inl (pull_failure lastErr), w)))"

definition resolvePull :: "('s, 'm, 'w) Resolver \<Rightarrow> string \<Rightarrow> string \<Rightarrow> PullDecision result" where
  "resolvePull r repo reference =
     ResolvePull (r_unicode r) (r_policy r) \<lparr>plr_Repository = repo, plr_Reference = reference\<rparr>"

definition Resolver_Pull ::
  "('s, 'm, 'w) Resolver \<Rightarrow> ResolverPullRequest \<Rightarrow> ('s, 'm, 'w) World \<Rightarrow> PullResult result \<times> ('s, 'm, 'w) World" where
  "Resolver_Pull r request w =
    (case read_now r w of (started, w) \<Rightarrow>
     case resolvePull r (rq_Repository request) (rq_Reference request) of
       Inl e \<Rightarrow> (Inl e, w)
     | Inr decision \<Rightarrow>
       if \<not> authorized r (rq_Principal request) OperationPull (pld_RouteName decision)
       then (case recordUnauthorizedPull r started request decision w of
               (Inl e, w) \<Rightarrow> (Inl e, w)
             | (Inr _, w) \<Rightarrow> (Inl (GoErr ''%w: client %q cannot pull route %q'' [ErrUnauthorized]), w))
       else
         (case tryCache r started request decision w of
            (Inl e, w) \<Rightarrow> (Inl e, w)
          | (Inr (Some res), w) \<Rightarrow> (Inr res, w)
          | (Inr None, w) \<Rightarrow> pull_sources r started request decision w))"

section \<open>Blobs\<close>

definition blob_size :: "string \<Rightarrow> Descriptor list \<Rightarrow> int" where
  "blob_size digest ds = (case find (\<lambda>d. d_Digest d = digest) ds of None \<Rightarrow> 0 | Some d \<Rightarrow> d_Size d)"

definition Resolver_OpenBlob ::
  "('s, 'm, 'w) Resolver \<Rightarrow> BlobRequest \<Rightarrow> ('s, 'm, 'w) World \<Rightarrow> BlobResult result \<times> ('s, 'm, 'w) World" where
  "Resolver_OpenBlob r request w =
    (case resolvePull r (br_Repository request) (br_Digest request) of
       Inl e \<Rightarrow> (Inl e, w)
     | Inr decision \<Rightarrow>
       if \<not> authorized r (br_Principal request) OperationPull (pld_RouteName decision)
       then (Inl (sentinel_err ErrUnauthorized), w)
       else
         (case authorizeCachedObject r (br_Principal request) decision (br_Digest request) w of
            (Inl e, w) \<Rightarrow> (Inl e, w)
          | (Inr None, w) \<Rightarrow> (Inl (sentinel_err ErrBlobNotFound), w)
          | (Inr (Some (_, credentialSource)), w) \<Rightarrow>
            (case store_open r (br_Digest request) w of
               (Inl e, w) \<Rightarrow> (Inl e, w)
             | (Inr rc, w) \<Rightarrow>
               (case store_list r w of (listed, w) \<Rightarrow>
                 (Inr \<lparr>bres_Content = rc,
                       bres_Size = (case listed of Inl _ \<Rightarrow> 0 | Inr ds \<Rightarrow> blob_size (br_Digest request) ds),
                       bres_CredentialSource = credentialSource\<rparr>, w)))))"

section \<open>What the parts leave alone\<close>

text \<open>Recording and the cache touch neither the store's blobs nor the upstream registries.\<close>

definition same_outside :: "('s, 'm, 'w) World \<Rightarrow> ('s, 'm, 'w) World \<Rightarrow> bool" where
  "same_outside w w' \<longleftrightarrow> w_store w' = w_store w \<and> w_up w' = w_up w"

lemma same_outside_refl [simp]: "same_outside w w"
  by (simp add: same_outside_def)

lemma same_outside_trans: "same_outside w w1 \<Longrightarrow> same_outside w1 w2 \<Longrightarrow> same_outside w w2"
  by (simp add: same_outside_def)

lemma same_outside_now: "read_now r w = (t, w') \<Longrightarrow> same_outside w w'"
  by (simp add: same_outside_def)

lemma same_outside_meta: "with_meta f w = (x, w') \<Longrightarrow> same_outside w w'"
  by (auto simp: same_outside_def dest: with_meta_keeps)

lemma recordUnauthorizedPull_keeps: "recordUnauthorizedPull r st q d w = (x, w') \<Longrightarrow> same_outside w w'"
  by (auto simp: recordUnauthorizedPull_def split: prod.splits
      intro: same_outside_trans dest!: same_outside_now same_outside_meta)

lemma recordCacheHit_keeps: "recordCacheHit r st q d res w = (x, w') \<Longrightarrow> same_outside w w'"
  by (auto simp: recordCacheHit_def split: prod.splits
      intro: same_outside_trans dest!: same_outside_now same_outside_meta)

lemma recordFailedPull_keeps: "recordFailedPull r st q d c w = (x, w') \<Longrightarrow> same_outside w w'"
  by (auto simp: recordFailedPull_def split: prod.splits
      intro: same_outside_trans dest!: same_outside_now same_outside_meta)

lemma recordCacheBindings_keeps: "recordCacheBindings r q d s m c w = (x, w') \<Longrightarrow> same_outside w w'"
  by (auto simp: recordCacheBindings_def dest: same_outside_meta)

lemma recordSuccessfulPull_keeps:
  assumes "recordSuccessfulPull r st q d res w = (x, w')" shows "same_outside w w'"
  using assms
  by (auto simp: recordSuccessfulPull_def Let_def same_outside_def split: prod.splits sum.splits if_splits
      dest!: with_meta_keeps read_now_world)

lemma authorizeBindings_keeps: "authorizeBindings r p d den bs w = (x, w') \<Longrightarrow> same_outside w w'"
proof (induction bs arbitrary: den w)
  case (Cons b bs)
  show ?case
  proof (cases "cb_Source b \<in> set (CandidateSources d) \<and> cb_Access b \<noteq> CacheAccessChallenge \<and> r_provider r \<noteq> None")
    case True
    then obtain c where c: "r_provider r = Some c" by blast
    obtain y w1 where y: "with_meta (\<lambda>m. cp_AuthorizeCache c m p b OperationPull) w = (y, w1)" by force
    note s = same_outside_meta [OF y]
    show ?thesis
    proof (cases y)
      case (Inl e)
      with Cons True c y have "same_outside w1 w'" by auto
      with s show ?thesis by (rule same_outside_trans)
    qed (use Cons True c y s in auto)
  qed (use Cons in \<open>auto split: if_splits option.splits\<close>)
qed (auto split: option.splits)

lemma authorizeCachedObject_keeps: "authorizeCachedObject r p d dg w = (x, w') \<Longrightarrow> same_outside w w'"
  by (auto simp: authorizeCachedObject_def split: prod.splits sum.splits
      dest!: same_outside_meta authorizeBindings_keeps intro: same_outside_trans)

lemma cachedManifestByDigest_open:
  assumes "cachedManifestByDigest r dg desc w = (x, w')"
  shows "w_up w' = w_up w \<and> w_meta w' = w_meta w \<and>
    (\<exists>opened. st_OpenBlob (r_store r) (w_store w) dg = (opened, w_store w')
      \<and> (\<forall>m. x = Inr (Some m) \<longrightarrow> rd_Digest m = rd_Digest desc
            \<and> (\<exists>rc. opened = Inr rc \<and> ReadAll rc = Inr (Content m))))"
  using assms
  by (auto simp: cachedManifestByDigest_def Let_def split: prod.splits sum.splits if_splits dest!: store_open_keeps)

lemma tryCache_up: "tryCache r st q d w = (x, w') \<Longrightarrow> w_up w' = w_up w"
  by (auto simp: tryCache_def tryCacheDigest_def tryCacheTag_def cache_hit_def
      split: prod.splits sum.splits option.splits if_splits
      dest!: authorizeCachedObject_keeps cachedManifestByDigest_open recordCacheHit_keeps with_meta_keeps
        read_now_world simp: same_outside_def)

section \<open>Elimination of a pull\<close>

lemma Pull_cases:
  assumes "Resolver_Pull r q w = (res, w')"
  obtains
    (unresolved) e where "resolvePull r (rq_Repository q) (rq_Reference q) = Inl e" "res = Inl e"
      "same_outside w w'" "w_meta w' = w_meta w"
  | (denied) st w1 d x where "read_now r w = (st, w1)" "resolvePull r (rq_Repository q) (rq_Reference q) = Inr d"
      "\<not> authorized r (rq_Principal q) OperationPull (pld_RouteName d)"
      "recordUnauthorizedPull r st q d w1 = (x, w')"
      "res = (case x of Inl e \<Rightarrow> Inl e | Inr _ \<Rightarrow> Inl (GoErr ''%w: client %q cannot pull route %q'' [ErrUnauthorized]))"
  | (cached) st w1 d x where "read_now r w = (st, w1)" "resolvePull r (rq_Repository q) (rq_Reference q) = Inr d"
      "authorized r (rq_Principal q) OperationPull (pld_RouteName d)"
      "tryCache r st q d w1 = (x, w')" "x \<noteq> Inr None"
      "res = (case x of Inl e \<Rightarrow> Inl e | Inr (Some p) \<Rightarrow> Inr p)"
  | (upstream) st w1 d w2 where "read_now r w = (st, w1)" "resolvePull r (rq_Repository q) (rq_Reference q) = Inr d"
      "authorized r (rq_Principal q) OperationPull (pld_RouteName d)"
      "tryCache r st q d w1 = (Inr None, w2)" "pull_sources r st q d w2 = (res, w')"
proof -
  obtain st w1 where n: "read_now r w = (st, w1)" by force
  show thesis
  proof (cases "resolvePull r (rq_Repository q) (rq_Reference q)")
    case (Inl e)
    with assms n show thesis by (intro unresolved [of e]) (auto simp: Resolver_Pull_def same_outside_now)
  next
    case (Inr d)
    show thesis
    proof (cases "authorized r (rq_Principal q) OperationPull (pld_RouteName d)")
      case False
      with assms n Inr show thesis
        by (cases "recordUnauthorizedPull r st q d w1")
           (auto simp: Resolver_Pull_def split: sum.splits intro: denied)
    next
      case True
      obtain x w2 where c: "tryCache r st q d w1 = (x, w2)" by force
      show thesis
      proof (cases "x = Inr None")
        case none: True
        with assms n Inr True c show thesis by (intro upstream [of st w1 d w2]) (auto simp: Resolver_Pull_def)
      next
        case some: False
        with assms n Inr True c show thesis
          by (intro cached [of st w1 d x]) (auto simp: Resolver_Pull_def split: sum.splits option.splits)
      qed
    qed
  qed
qed

section \<open>The loop over the candidates\<close>

text \<open>What each asked source did, in order.\<close>

fun attempts ::
  "('s, 'm, 'w) Resolver \<Rightarrow> time \<Rightarrow> ResolverPullRequest \<Rightarrow> PullDecision \<Rightarrow> nat \<Rightarrow> string list
     \<Rightarrow> ('s, 'm, 'w) World \<Rightarrow> (string \<times> attempt) list" where
  "attempts r st q d i [] w = []"
| "attempts r st q d i (s # ss) w =
     (case try_source r st q d i s w of
        (Continue e, w') \<Rightarrow> (s, Continue e) # attempts r st q d (Suc i) ss w'
      | (a, w') \<Rightarrow> [(s, a)])"

fun continues :: "attempt \<Rightarrow> bool" where
  "continues (Continue e) = True" | "continues _ = False"

fun loop_result :: "goerr option \<Rightarrow> attempt list \<Rightarrow> goerr option + PullResult result" where
  "loop_result le [] = Inl le"
| "loop_result le (Continue e # as) = loop_result (Some e) as"
| "loop_result le (Break e # as) = Inl (Some e)"
| "loop_result le (Return x # as) = Inr x"

lemma try_sources_attempts:
  "fst (try_sources r st q d i le ss w) = loop_result le (map snd (attempts r st q d i ss w))"
  by (induction r st q d i le ss w rule: try_sources.induct) (auto split: prod.splits attempt.splits)

lemma attempts_prefix: "prefix (map fst (attempts r st q d i ss w)) ss"
  by (induction r st q d i ss w rule: attempts.induct) (auto split: prod.splits attempt.splits)

lemma attempts_continue: "\<forall>a \<in> set (butlast (attempts r st q d i ss w)). continues (snd a)"
  by (induction r st q d i ss w rule: attempts.induct) (auto split: prod.splits attempt.splits)

lemma attempts_all:
  "\<forall>a \<in> set (attempts r st q d i ss w). continues (snd a) \<Longrightarrow> map fst (attempts r st q d i ss w) = ss"
proof (induction ss arbitrary: i w)
  case (Cons s ss)
  obtain a w1 where a: "try_source r st q d i s w = (a, w1)" by force
  show ?case
  proof (cases a)
    case (Continue e)
    with Cons a show ?thesis by simp
  qed (use Cons a in auto)
qed simp

lemma accept_manifest_Inr:
  assumes "accept_manifest r st q d i s cn cs m w = (Inr res, w')"
  obtains w1 w2 where "cacheManifest r cn (pld_PhysicalRepository d) m w = (Inr (), w1)"
    "recordCacheBindings r q d s m cs w1 = (Inr (), w2)"
    "recordSuccessfulPull r st q d res w2 = (Inr (), w')"
    "res = \<lparr>pres_Manifest = m, pres_Source = s, pres_Route = pld_RouteName d, pres_FallbackUsed = (i > 0),
       pres_Explanation = pld_Explanation d @ [ResolvedFrom s] @ (if i > 0 then [FallbackSourceUsed] else []),
       pres_CredentialSource = cs\<rparr>"
  using assms by (auto simp: accept_manifest_def Let_def split: prod.splits sum.splits)

lemma try_source_Return:
  assumes "try_source r st q d i s w = (Return res, w')"
  obtains cn cs w1 m w2 where "connector_for r (rq_Principal q) s OperationPull w = (Inr (Some cn, cs), w1)"
    "with_up (\<lambda>u. cn_ResolveManifest cn u (pld_PhysicalRepository d) (pld_Reference d)) w1 = (Inr m, w2)"
    "accept_manifest r st q d i s cn cs m w2 = (res, w')"
  using assms
  by (auto simp: try_source_def resolve_error_def split: prod.splits sum.splits option.splits if_splits)

lemma try_sources_Return:
  assumes "try_sources r st q d i le ss w = (Inr res, w')"
  obtains k w1 where "k < length ss" "try_source r st q d (i + k) (ss ! k) w1 = (Return res, w')"
proof -
  have "\<exists>k w1. k < length ss \<and> try_source r st q d (i + k) (ss ! k) w1 = (Return res, w')"
    using assms
  proof (induction r st q d i le ss w rule: try_sources.induct)
    case (2 r st q d i le s ss w)
    obtain a w1 where a: "try_source r st q d i s w = (a, w1)" by force
    show ?case
    proof (cases a)
      case (Continue e)
      with 2 a obtain k w2 where "k < length ss" "try_source r st q d (Suc i + k) (ss ! k) w2 = (Return res, w')"
        by fastforce
      then show ?thesis by (intro exI [of _ "Suc k"] exI [of _ w2]) simp
    qed (use 2 a in \<open>auto intro!: exI [of _ 0]\<close>)
  qed simp
  with that show thesis by blast
qed

section \<open>Grants of the cache\<close>

text \<open>What lets a client read a cached object: a binding of the decision's repository and
  route for that object, from a candidate source, open to all or granted by the provider.\<close>

definition granted ::
  "('s, 'm, 'w) Resolver \<Rightarrow> Principal \<Rightarrow> PullDecision \<Rightarrow> string \<Rightarrow> 'm \<Rightarrow> CacheBinding \<Rightarrow> string \<Rightarrow> bool" where
  "granted r client d digest m b cs \<longleftrightarrow>
     (\<exists>bs m1. mr_ListCacheBindings (r_metadata r) m (pld_LogicalRepository d) (pld_RouteName d) digest = (Inr bs, m1)
        \<and> b \<in> set bs)
     \<and> cb_Source b \<in> set (CandidateSources d)
     \<and> (cb_Access b = CacheAccessChallenge \<and> cs = ''anonymous''
        \<or> cb_Access b \<noteq> CacheAccessChallenge
          \<and> (\<exists>p m2 m3. r_provider r = Some p \<and> cp_AuthorizeCache p m2 client b OperationPull = (Inr cs, m3)))"

lemma authorizeBindings_Some:
  "authorizeBindings r client d den bs w = (Inr (Some (b, cs)), w') \<Longrightarrow>
     b \<in> set bs \<and> cb_Source b \<in> set (CandidateSources d)
     \<and> (cb_Access b = CacheAccessChallenge \<and> cs = ''anonymous''
        \<or> cb_Access b \<noteq> CacheAccessChallenge
          \<and> (\<exists>p m2 m3. r_provider r = Some p \<and> cp_AuthorizeCache p m2 client b OperationPull = (Inr cs, m3)))"
proof (induction r client d den bs w rule: authorizeBindings.induct)
  case (2 r client d den b' bs w)
  show ?case
  proof (cases "cb_Source b' \<in> set (CandidateSources d) \<and> cb_Access b' \<noteq> CacheAccessChallenge \<and> r_provider r \<noteq> None")
    case True
    then obtain p where p: "r_provider r = Some p" by blast
    obtain x w1 where x: "with_meta (\<lambda>m. cp_AuthorizeCache p m client b' OperationPull) w = (x, w1)" by force
    from with_meta_keeps [OF x] have a: "cp_AuthorizeCache p (w_meta w) client b' OperationPull = (x, w_meta w1)" by simp
    show ?thesis
    proof (cases x)
      case (Inl e)
      with "2.IH"(3) [of p x w1] 2 True p x show ?thesis by auto
    next
      case (Inr c)
      with 2 True p x a show ?thesis by auto
    qed
  qed (use 2 in \<open>auto split: if_splits option.splits\<close>)
qed (auto split: option.splits)

lemma authorizeCachedObject_Some:
  assumes "authorizeCachedObject r client d digest w = (Inr (Some (b, cs)), w')"
  shows "granted r client d digest (w_meta w) b cs"
proof -
  obtain x w1 where l: "with_meta (\<lambda>m. mr_ListCacheBindings (r_metadata r) m (pld_LogicalRepository d)
      (pld_RouteName d) digest) w = (x, w1)" by force
  with assms obtain bs where x: "x = Inr bs" and a: "authorizeBindings r client d None bs w1 = (Inr (Some (b, cs)), w')"
    by (auto simp: authorizeCachedObject_def split: sum.splits)
  from with_meta_keeps [OF l] x have "mr_ListCacheBindings (r_metadata r) (w_meta w) (pld_LogicalRepository d)
      (pld_RouteName d) digest = (Inr bs, w_meta w1)" by simp
  with authorizeBindings_Some [OF a] show ?thesis unfolding granted_def by blast
qed

text \<open>A cache hit: the granted binding, and the manifest read from the store.\<close>

definition hit_parts ::
  "('s, 'm, 'w) Resolver \<Rightarrow> ResolverPullRequest \<Rightarrow> PullDecision \<Rightarrow> ('s, 'm, 'w) World \<Rightarrow> PullResult \<Rightarrow> bool" where
  "hit_parts r q d w res \<longleftrightarrow> (\<exists>m0 w1 b m w2 desc. w_store w1 = w_store w
     \<and> granted r (rq_Principal q) d (rd_Digest desc) m0 b (pres_CredentialSource res)
     \<and> cachedManifestByDigest r (rd_Digest desc) desc w1 = (Inr (Some m), w2)
     \<and> rd_Digest (pres_Manifest res) = rd_Digest desc \<and> Content (pres_Manifest res) = Content m
     \<and> pres_Source res = SourceCache \<and> pres_Route res = pld_RouteName d)"

lemma hit_partsI:
  assumes "w_store w1 = w_store w" "granted r (rq_Principal q) d (rd_Digest desc) m0 b cs"
    "cachedManifestByDigest r (rd_Digest desc) desc w1 = (Inr (Some m), w2)"
    "rd_Digest m' = rd_Digest m" "Content m' = Content m"
  shows "hit_parts r q d w (cache_result d m' line cs)"
proof -
  have "rd_Digest m = rd_Digest desc" using cachedManifestByDigest_open [OF assms(3)] by auto
  with assms show ?thesis unfolding hit_parts_def cache_result_def by fastforce
qed

lemma cache_hit_Some: "cache_hit r st q d res w = (Inr (Some x), w') \<Longrightarrow> x = res"
  by (auto simp: cache_hit_def split: prod.splits sum.splits)

lemma tryCacheDigest_Some:
  assumes "tryCacheDigest r st q d w = (Inr (Some res), w')" shows "hit_parts r q d w res"
proof -
  obtain x w1 where a: "authorizeCachedObject r (rq_Principal q) d (pld_Reference d) w = (x, w1)" by force
  with assms obtain b cs where x: "x = Inr (Some (b, cs))"
    by (auto simp: tryCacheDigest_def split: sum.splits option.splits)
  let ?desc = "\<lparr>rd_MediaType = [], rd_Digest = pld_Reference d, rd_Size = 0\<rparr>"
  obtain y w2 where c: "cachedManifestByDigest r (pld_Reference d) ?desc w1 = (y, w2)" by force
  with assms a x obtain m where y: "y = Inr (Some m)"
    by (auto simp: tryCacheDigest_def split: sum.splits option.splits)
  from assms a x c y have res: "res = cache_result d m ServedDigestFromCache cs"
    by (auto simp: tryCacheDigest_def dest: cache_hit_Some)
  show ?thesis
    unfolding res by (rule hit_partsI [of w1 w r q d ?desc "w_meta w" b cs m w2])
      (use authorizeCachedObject_keeps [OF a] authorizeCachedObject_Some [OF a [unfolded x]] c y
        in \<open>simp_all add: same_outside_def\<close>)
qed

lemma tryCacheTag_Some:
  assumes "tryCacheTag r st q d w = (Inr (Some res), w')" shows "hit_parts r q d w res"
proof -
  obtain f w1 where f: "with_meta (\<lambda>m. mr_FindTagMapping (r_metadata r) m (pld_LogicalRepository d) (pld_Reference d)) w = (f, w1)"
    by force
  with assms obtain mp where fm: "f = Inr (Some mp)" by (auto simp: tryCacheTag_def split: sum.splits option.splits)
  obtain now w2 where n: "read_now r w1 = (now, w2)" by force
  obtain x w3 where a: "authorizeCachedObject r (rq_Principal q) d (tm_Digest mp) w2 = (x, w3)" by force
  with assms f fm n obtain b cs where x: "x = Inr (Some (b, cs))"
    by (auto simp: tryCacheTag_def split: sum.splits option.splits if_splits)
  let ?desc = "\<lparr>rd_MediaType = tm_MediaType mp, rd_Digest = tm_Digest mp, rd_Size = tm_Size mp\<rparr>"
  obtain y w4 where c: "cachedManifestByDigest r (tm_Digest mp) ?desc w3 = (y, w4)" by force
  with assms f fm n a x obtain m where y: "y = Inr (Some m)"
    by (auto simp: tryCacheTag_def split: sum.splits option.splits if_splits)
  from assms f fm n a x c y have res: "res = cache_result d (m\<lparr>BlobDigests := tm_BlobDigests mp\<rparr>) ServedTagFromCache cs"
    by (auto simp: tryCacheTag_def split: if_splits dest: cache_hit_Some)
  show ?thesis
    unfolding res by (rule hit_partsI [of w3 w r q d ?desc "w_meta w2" b cs m w4])
      (use authorizeCachedObject_keeps [OF a] authorizeCachedObject_Some [OF a [unfolded x]] c y
        with_meta_keeps [OF f] read_now_world [OF n] in \<open>simp_all add: same_outside_def\<close>)
qed

lemma tryCache_Some: "tryCache r st q d w = (Inr (Some res), w') \<Longrightarrow> hit_parts r q d w res"
  by (auto simp: tryCache_def split: if_splits intro: tryCacheDigest_Some tryCacheTag_Some)

section \<open>Pulling over any store that keeps the contract\<close>

context blob_store
begin

lemma store_put_inv: "r_store r = S \<Longrightarrow> inv (w_store w) \<Longrightarrow> store_put r d c w = (x, w') \<Longrightarrow> inv (w_store w')"
  by (auto dest!: store_put_keeps intro: put_inv)

lemma store_put_stored: "r_store r = S \<Longrightarrow> store_put r d c w = (Inr x, w') \<Longrightarrow> stored (w_store w') d"
  by (auto dest!: store_put_keeps intro: put_stored)

lemma store_put_keeps_stored:
  "r_store r = S \<Longrightarrow> store_put r d c w = (x, w') \<Longrightarrow> stored (w_store w) d' \<Longrightarrow> stored (w_store w') d'"
  by (auto dest!: store_put_keeps intro: put_keeps)

lemma cacheBlobs_store:
  "r_store r = S \<Longrightarrow> cacheBlobs r cn repo ds w = (x, w') \<Longrightarrow>
     (inv (w_store w) \<longrightarrow> inv (w_store w')) \<and> (\<forall>d'. stored (w_store w) d' \<longrightarrow> stored (w_store w') d')
     \<and> (x = Inr () \<longrightarrow> (\<forall>d \<in> set ds. stored (w_store w') d))"
proof (induction ds arbitrary: w)
  case (Cons d ds)
  obtain y w1 where y: "with_up (\<lambda>u. cn_OpenBlob cn u repo d) w = (y, w1)" by force
  have s1: "w_store w1 = w_store w" using with_up_keeps [OF y] by simp
  show ?case
  proof (cases y)
    case (Inl e)
    with Cons.prems y s1 show ?thesis by auto
  next
    case (Inr rc)
    obtain z w2 where z: "store_put r d (bs_Reader rc) w1 = (z, w2)" by force
    have k: "inv (w_store w) \<longrightarrow> inv (w_store w2)" "\<forall>d'. stored (w_store w) d' \<longrightarrow> stored (w_store w2) d'"
      using store_put_inv [OF Cons.prems(1) _ z] store_put_keeps_stored [OF Cons.prems(1) z] s1 by auto
    show ?thesis
    proof (cases "isOK z \<and> bs_Close rc = None")
      case True
      then obtain u where u: "z = Inr u" by (auto simp: isOK_iff)
      with Cons.prems y Inr z True have r: "cacheBlobs r cn repo ds w2 = (x, w')" by simp
      from Cons.IH [OF Cons.prems(1) r] k store_put_stored [OF Cons.prems(1)] z u show ?thesis by auto
    next
      case False
      with Cons.prems y Inr z k show ?thesis by (auto split: sum.splits option.splits)
    qed
  qed
qed simp

lemma cacheManifest_store:
  assumes r: "r_store r = S" and c: "cacheManifest r cn repo m w = (x, w')"
  shows "inv (w_store w) \<Longrightarrow> inv (w_store w')"
    "stored (w_store w) d \<Longrightarrow> stored (w_store w') d"
    "x = Inr () \<Longrightarrow> d \<in> insert (rd_Digest m) (set (BlobDigests m)) \<Longrightarrow> stored (w_store w') d"
proof -
  obtain y w1 where y: "store_put r (rd_Digest m) (bytes_NewReader (Content m)) w = (y, w1)" by force
  have "(inv (w_store w) \<longrightarrow> inv (w_store w')) \<and> (stored (w_store w) d \<longrightarrow> stored (w_store w') d)
    \<and> (x = Inr () \<longrightarrow> d \<in> insert (rd_Digest m) (set (BlobDigests m)) \<longrightarrow> stored (w_store w') d)"
  proof (cases y)
    case (Inl e)
    with c y store_put_inv [OF r _ y] store_put_keeps_stored [OF r y] show ?thesis
      by (auto simp: cacheManifest_def)
  next
    case (Inr u)
    with c y have b: "cacheBlobs r cn repo (BlobDigests m) w1 = (x, w')" by (simp add: cacheManifest_def)
    have "stored (w_store w1) (rd_Digest m)" using store_put_stored [OF r] y Inr by simp
    with cacheBlobs_store [OF r b] store_put_inv [OF r _ y] store_put_keeps_stored [OF r y] show ?thesis by auto
  qed
  then show "inv (w_store w) \<Longrightarrow> inv (w_store w')"
    "stored (w_store w) d \<Longrightarrow> stored (w_store w') d"
    "x = Inr () \<Longrightarrow> d \<in> insert (rd_Digest m) (set (BlobDigests m)) \<Longrightarrow> stored (w_store w') d" by blast+
qed

lemma accept_manifest_store:
  assumes r: "r_store r = S" and c: "accept_manifest r st q d i s cn cs m w = (res, w')"
  shows "(inv (w_store w) \<longrightarrow> inv (w_store w')) \<and> (stored (w_store w) dg \<longrightarrow> stored (w_store w') dg)
    \<and> (isOK res \<longrightarrow> dg \<in> insert (rd_Digest m) (set (BlobDigests m)) \<longrightarrow> stored (w_store w') dg)"
proof -
  obtain x w1 where x: "cacheManifest r cn (pld_PhysicalRepository d) m w = (x, w1)" by force
  have s: "w_store w' = w_store w1"
    using c x by (auto simp: accept_manifest_def Let_def same_outside_def split: prod.splits sum.splits
        dest!: recordCacheBindings_keeps recordSuccessfulPull_keeps)
  have "isOK res \<Longrightarrow> x = Inr ()"
    using c x by (auto simp: accept_manifest_def split: sum.splits)
  with cacheManifest_store [OF r x] s show ?thesis by auto
qed

lemma try_source_store:
  assumes r: "r_store r = S" and c: "try_source r st q d i s w = (a, w')"
  shows "(inv (w_store w) \<longrightarrow> inv (w_store w')) \<and> (stored (w_store w) dg \<longrightarrow> stored (w_store w') dg)"
proof -
  obtain y w1 where y: "connector_for r (rq_Principal q) s OperationPull w = (y, w1)" by force
  have s1: "w_store w1 = w_store w"
    using y by (auto simp: connector_for_def split: option.splits dest!: with_meta_keeps)
  show ?thesis
  proof (cases "\<exists>cn cs. y = Inr (Some cn, cs)")
    case True
    then obtain cn cs where cn: "y = Inr (Some cn, cs)" by blast
    obtain z w2 where z: "with_up (\<lambda>u. cn_ResolveManifest cn u (pld_PhysicalRepository d) (pld_Reference d)) w1 = (z, w2)" by force
    have s2: "w_store w2 = w_store w" using with_up_keeps [OF z] s1 by simp
    show ?thesis
    proof (cases z)
      case (Inl e)
      with c y cn z s2 show ?thesis by (simp add: try_source_def)
    next
      case (Inr m)
      obtain res w3 where a: "accept_manifest r st q d i s cn cs m w2 = (res, w3)" by force
      with c y cn z Inr have "w' = w3" by (simp add: try_source_def)
      with accept_manifest_store [OF r a] s2 show ?thesis by simp
    qed
  next
    case False
    with c y s1 show ?thesis by (auto simp: try_source_def split: sum.splits option.splits)
  qed
qed

lemma try_sources_store:
  "r_store r = S \<Longrightarrow> try_sources r st q d i le ss w = (x, w') \<Longrightarrow>
     (inv (w_store w) \<longrightarrow> inv (w_store w')) \<and> (stored (w_store w) dg \<longrightarrow> stored (w_store w') dg)"
proof (induction ss arbitrary: i le w)
  case (Cons s ss)
  obtain a w1 where a: "try_source r st q d i s w = (a, w1)" by force
  note k = try_source_store [OF Cons.prems(1) a, of dg]
  show ?case
  proof (cases a)
    case (Continue e)
    with Cons.prems a have "try_sources r st q d (Suc i) (Some e) ss w1 = (x, w')" by simp
    from Cons.IH [OF Cons.prems(1) this] k show ?thesis by blast
  qed (use Cons.prems a k in auto)
qed simp

lemma tryCache_store:
  assumes r: "r_store r = S" and c: "tryCache r st q d w = (x, w')"
  shows "(inv (w_store w') \<longleftrightarrow> inv (w_store w)) \<and> stored (w_store w') = stored (w_store w)"
  using c
  by (auto simp: tryCache_def tryCacheDigest_def tryCacheTag_def cache_hit_def same_outside_def r
      split: prod.splits sum.splits option.splits if_splits
      dest!: authorizeCachedObject_keeps cachedManifestByDigest_open recordCacheHit_keeps with_meta_keeps
        read_now_world dest: open_keeps)

lemma Pull_store:
  assumes r: "r_store r = S" and p: "Resolver_Pull r q w = (res, w')"
  shows "inv (w_store w) \<Longrightarrow> inv (w_store w')" "stored (w_store w) dg \<Longrightarrow> stored (w_store w') dg"
proof -
  have "(inv (w_store w) \<longrightarrow> inv (w_store w')) \<and> (stored (w_store w) dg \<longrightarrow> stored (w_store w') dg)"
    using p
  proof (cases rule: Pull_cases)
    case (unresolved e)
    then show ?thesis by (simp add: same_outside_def)
  next
    case (denied st w1 d x)
    with recordUnauthorizedPull_keeps [OF denied(4)] show ?thesis by (simp add: same_outside_def)
  next
    case (cached st w1 d x)
    with tryCache_store [OF r cached(4)] show ?thesis by simp
  next
    case (upstream st w1 d w2)
    obtain y w3 where y: "try_sources r st q d 0 None (CandidateSources d) w2 = (y, w3)" by force
    have "w_store w' = w_store w3"
      using upstream(5) y by (auto simp: pull_sources_def same_outside_def split: sum.splits prod.splits dest!: recordFailedPull_keeps)
    with tryCache_store [OF r upstream(4)] try_sources_store [OF r y, of dg] upstream(1) show ?thesis by auto
  qed
  then show "inv (w_store w) \<Longrightarrow> inv (w_store w')" "stored (w_store w) dg \<Longrightarrow> stored (w_store w') dg" by blast+
qed

lemma Pull_upstream_stored:
  assumes r: "r_store r = S" and u: "pull_sources r st q d w = (Inr res, w')"
    and dg: "dg \<in> insert (rd_Digest (pres_Manifest res)) (set (BlobDigests (pres_Manifest res)))"
  shows "stored (w_store w') dg"
proof -
  from u have "try_sources r st q d 0 None (CandidateSources d) w = (Inr (Inr res), w')"
    by (auto simp: pull_sources_def split: prod.splits sum.splits)
  then obtain k w1 where t: "try_source r st q d (0 + k) (CandidateSources d ! k) w1 = (Return (Inr res), w')"
    by (rule try_sources_Return)
  then obtain cn cs w2 m w3 where a: "accept_manifest r st q d (0 + k) (CandidateSources d ! k) cn cs m w3 = (Inr res, w')"
    by (rule try_source_Return)
  then have "pres_Manifest res = m" by (rule accept_manifest_Inr) simp
  with dg have "dg \<in> insert (rd_Digest m) (set (BlobDigests m))" by simp
  with accept_manifest_store [OF r a, of dg] show ?thesis by (metis isOK_simps(2))
qed

text \<open>What the cache serves hashes to the digest asked for.\<close>

lemma cachedManifest_intact:
  assumes r: "r_store r = S" and i: "inv (w_store w)" and c: "cachedManifestByDigest r dg desc w = (Inr (Some m), w')"
  shows "digest_of H (Content m) = dg"
  using cachedManifestByDigest_open [OF c] open_intact [OF i, of dg] r by auto

lemma hit_intact:
  assumes "r_store r = S" "inv (w_store w)" "hit_parts r q d w res"
  shows "digest_of H (Content (pres_Manifest res)) = rd_Digest (pres_Manifest res)"
  using assms(2,3) cachedManifest_intact [OF assms(1)] unfolding hit_parts_def by metis

end

end
