(* ===== verification/Pull_Properties.thy ===== *)
theory Pull_Properties
  imports Pull_Resolver
begin

text \<open>
  Properties of the pull resolver: refusals leave no trace upstream, results come from the
  authorised cache or a candidate source, credential errors stop the fallback, the store stays
  intact, and a pulled image can be opened blob by blob.
\<close>

section \<open>An example resolver\<close>

definition hub_source_route :: Route where
  "hub_source_route = \<lparr>rt_Name = ''all'', rt_Match = ''**'', Precedence = 1, PullSources = [''hub''],
     Authoritative = [], ExternalFallback = False, PushDestination = ''hub'', PushDenied = False,
     rt_Rewrite = \<lparr>StripPrefix = [], AddPrefix = []\<rparr>\<rparr>"

definition ex_hash :: "string \<Rightarrow> string" where
  "ex_hash c = replicate 64 (if c = ''m'' then CHR ''a'' else CHR ''0'')"

definition ex_manifest :: Manifest where
  "ex_manifest = \<lparr>rd_MediaType = ''t'', rd_Digest = digest_of ex_hash ''m'', rd_Size = 1, Content = ''m'',
     BlobDigests = [digest_of ex_hash ''b'']\<rparr>"

definition ex_hub :: FakeConnector where
  "ex_hub = AddManifest ''app'' ''v1'' ex_manifest
     (AddBlob (digest_of ex_hash ''b'') ''b'' (NewFakeConnector ''hub''))"

definition ex_resolver :: "(Principal \<Rightarrow> string \<Rightarrow> string \<Rightarrow> bool) option \<Rightarrow> (StoreState, MemState, FakeState) Resolver" where
  "ex_resolver auth = \<lparr>r_policy = \<lparr>routes = [hub_source_route]\<rparr>,
     r_store = FileStore_ops ex_hash (\<lambda>_. no_faults),
     r_metadata = Memory_ops (\<lambda>_. None) (\<lambda>n. int n + 1),
     r_connectors = (\<lambda>s. if s = ''hub'' then Some (Fake_ops ex_hash (\<lambda>_. None) ''hub'') else None),
     r_provider = None, r_authorizer = auth, r_now = (\<lambda>n. int n + 100), r_unicode = ascii_unicode,
     r_hash = ex_hash, r_unmarshal = (\<lambda>_. Inl (errorf ''json''))\<rparr>"

definition ex_world :: "(StoreState, MemState, FakeState) World" where
  "ex_world = \<lparr>w_store = ([], 0), w_meta = (NewMemoryRepository, 0), w_up = (ex_hub, 0), w_tick = 0\<rparr>"

definition ex_request :: ResolverPullRequest where
  "ex_request = \<lparr>rq_Repository = ''app'', rq_Reference = ''v1'', rq_Principal = Anonymous\<rparr>"

lemma ex_pull:
  "case Resolver_Pull (ex_resolver None) ex_request ex_world of
     (Inr res, w) \<Rightarrow> pres_Source res = ''hub'' \<and> pres_Manifest res = ex_manifest
       \<and> pres_CredentialSource res = ''anonymous'' \<and> pres_Route res = ''all''
   | (Inl e, w) \<Rightarrow> False"
  by code_simp

section \<open>Refusal\<close>

text \<open>
  C2: a pull that the authorizer refuses never contacts an upstream
  registry and leaves the store as it was; it records one denied event, and it fails with
  ErrUnauthorized or with the error of that recording.
\<close>

theorem pull_refused_without_trace:
  assumes "resolvePull r (rq_Repository q) (rq_Reference q) = Inr d"
    and "\<not> authorized r (rq_Principal q) OperationPull (pld_RouteName d)"
    and "Resolver_Pull r q w = (res, w')"
  shows "w_up w' = w_up w \<and> w_store w' = w_store w
    \<and> (\<exists>ev x. mr_RecordRequestEvent (r_metadata r) (w_meta w) ev = (x, w_meta w')
         \<and> ev_Status ev = StatusDenied \<and> ev_ErrorClassification ev = ''authorization_denied''
         \<and> ev_ClientIdentity ev = EventIdentity (rq_Principal q)
         \<and> (case x of Inl e \<Rightarrow> res = Inl e
            | Inr _ \<Rightarrow> \<exists>e. res = Inl e \<and> errors_Is e ErrUnauthorized))"
  using assms(3)
proof (cases rule: Pull_cases)
  case (denied st w1 d' x)
  with assms have d: "d' = d" by simp
  note keep = recordUnauthorizedPull_keeps [OF denied(4)]
  obtain now w2 where n: "read_now r w1 = (now, w2)" by force
  let ?ev = "(pull_event st now q d)\<lparr>ev_Status := StatusDenied, ev_ErrorClassification := ''authorization_denied'',
     ev_Explanation := pld_Explanation d @ [NotAuthorizedFor (EventIdentity (rq_Principal q)) (pld_RouteName d)]\<rparr>"
  have "with_meta (\<lambda>m. mr_RecordRequestEvent (r_metadata r) m ?ev) w2 = (x, w')"
    using denied(4) n d by (simp add: recordUnauthorizedPull_def)
  from with_meta_keeps [OF this] have "mr_RecordRequestEvent (r_metadata r) (w_meta w) ?ev = (x, w_meta w')"
    using read_now_world [OF denied(1)] read_now_world [OF n] by simp
  moreover have "case x of Inl e \<Rightarrow> res = Inl e | Inr _ \<Rightarrow> \<exists>e. res = Inl e \<and> errors_Is e ErrUnauthorized"
    using denied(5) by (cases x) simp_all
  ultimately show ?thesis
    using keep read_now_world [OF denied(1)]
    by (auto simp: same_outside_def pull_event_def intro!: exI [of _ ?ev] exI [of _ x])
qed (use assms in simp_all)

theorem pull_refused_without_trace_witness:
  "w_up (snd (Resolver_Pull (ex_resolver (Some (\<lambda>_ _ _. False))) ex_request ex_world)) = w_up ex_world
   \<and> w_store (snd (Resolver_Pull (ex_resolver (Some (\<lambda>_ _ _. False))) ex_request ex_world)) = w_store ex_world"
proof -
  let ?r = "ex_resolver (Some (\<lambda>_ _ _. False))"
  have "isOK (resolvePull ?r (rq_Repository ex_request) (rq_Reference ex_request))" by code_simp
  then obtain d where d: "resolvePull ?r (rq_Repository ex_request) (rq_Reference ex_request) = Inr d"
    by (auto simp: isOK_iff)
  have "\<not> authorized ?r (rq_Principal ex_request) OperationPull (pld_RouteName d)"
    by (simp add: authorized_def ex_resolver_def)
  from pull_refused_without_trace [OF d this surjective_pairing] show ?thesis by simp
qed

section \<open>Where results come from\<close>

text \<open>
  C1: a pull succeeds only when the authorizer allowed the decision's route;
  the result carries that route, and it comes either from the local cache, through a binding
  granted to the client and without contacting any upstream registry, or from the k-th
  candidate of the decision, marked as a fallback exactly when k is not the first.
\<close>

theorem pull_result_origin:
  assumes "Resolver_Pull r q w = (Inr res, w')"
  shows "\<exists>d. resolvePull r (rq_Repository q) (rq_Reference q) = Inr d
    \<and> authorized r (rq_Principal q) OperationPull (pld_RouteName d) \<and> pres_Route res = pld_RouteName d
    \<and> ((pres_Source res = SourceCache \<and> w_up w' = w_up w
          \<and> (\<exists>m b. granted r (rq_Principal q) d (rd_Digest (pres_Manifest res)) m b (pres_CredentialSource res)))
       \<or> (\<exists>k < length (CandidateSources d). pres_Source res = CandidateSources d ! k
             \<and> pres_FallbackUsed res = (k > 0)))"
  using assms
proof (cases rule: Pull_cases)
  case (denied st w1 d x)
  then show ?thesis by (auto split: sum.splits)
next
  case (cached st w1 d x)
  then have x: "x = Inr (Some res)" by (auto split: sum.splits option.splits)
  have up: "w_up w' = w_up w" using tryCache_up [OF cached(4)] read_now_world [OF cached(1)] by simp
  from tryCache_Some [OF cached(4) [unfolded x]] have "pres_Source res = SourceCache \<and> pres_Route res = pld_RouteName d
      \<and> (\<exists>m b. granted r (rq_Principal q) d (rd_Digest (pres_Manifest res)) m b (pres_CredentialSource res))"
    unfolding hit_parts_def by metis
  with cached up show ?thesis by blast
next
  case (upstream st w1 d w2)
  from upstream(5) have "try_sources r st q d 0 None (CandidateSources d) w2 = (Inr (Inr res), w')"
    by (auto simp: pull_sources_def split: prod.splits sum.splits)
  then obtain k w3 where k: "k < length (CandidateSources d)"
    and t: "try_source r st q d (0 + k) (CandidateSources d ! k) w3 = (Return (Inr res), w')"
    by (rule try_sources_Return)
  from t obtain cn cs w4 m w5 where "accept_manifest r st q d (0 + k) (CandidateSources d ! k) cn cs m w5 = (Inr res, w')"
    by (rule try_source_Return)
  then have "pres_Route res = pld_RouteName d" "pres_Source res = CandidateSources d ! k" "pres_FallbackUsed res = (k > 0)"
    by (rule accept_manifest_Inr, simp)+
  with upstream k show ?thesis by blast
qed simp

theorem pull_result_origin_witness:
  "\<exists>res w. Resolver_Pull (ex_resolver None) ex_request ex_world = (Inr res, w) \<and> pres_Route res = ''all''
     \<and> authorized (ex_resolver None) Anonymous OperationPull ''all''"
proof -
  obtain res w where p: "Resolver_Pull (ex_resolver None) ex_request ex_world = (Inr res, w)"
    and a: "pres_Route res = ''all''" using ex_pull by (auto split: prod.splits sum.splits)
  from pull_result_origin [OF p] a p show ?thesis by (auto simp: ex_request_def)
qed

section \<open>Fallback\<close>

text \<open>
  The sources asked are an initial part of the candidates, in order;
  every one but the last let the pull go on; the outcome is that of the last; a credential,
  authentication or authorisation error is reported and ends the loop, so no source is asked
  after it, and all candidates are asked only if each of them let the pull go on.
\<close>

theorem fallback_discipline:
  "let asked = attempts r st q d 0 (CandidateSources d) w in
     prefix (map fst asked) (CandidateSources d)
     \<and> list_all (\<lambda>a. continues (snd a)) (butlast asked)
     \<and> fst (try_sources r st q d 0 None (CandidateSources d) w) = loop_result None (map snd asked)
     \<and> (list_ex (\<lambda>a. \<not> continues (snd a)) asked \<or> map fst asked = CandidateSources d)"
proof -
  let ?a = "attempts r st q d 0 (CandidateSources d) w"
  have "list_ex (\<lambda>a. \<not> continues (snd a)) ?a \<or> map fst ?a = CandidateSources d"
    using attempts_all [of r st q d 0 "CandidateSources d" w] by (auto simp: list_ex_iff)
  then show ?thesis
    using attempts_prefix attempts_continue [of r st q d 0 "CandidateSources d" w]
    by (simp add: Let_def try_sources_attempts list_all_iff)
qed

text \<open>
  The loop goes on after a source exactly when no connector could
  be had for it without a credential error, or its registry answered anything but an
  authentication failure; an authentication failure of the registry is reported as an
  unavailable source together with the authentication error.
\<close>

theorem credential_errors_break:
  "try_source r st q d i s w =
    (case connector_for r (rq_Principal q) s OperationPull w of
       (Inl e, w1) \<Rightarrow> (if errors_Is e ErrCredentialRequired \<or> errors_Is e ErrCredentialUnavailable
            \<or> errors_Is e ErrAuthentication \<or> errors_Is e ErrAuthorization then Break e else Continue e, w1)
     | (Inr (None, _), w1) \<Rightarrow> (Continue (GoErr ''missing connector %q'' [ErrSourceUnavailable]), w1)
     | (Inr (Some cn, cs), w1) \<Rightarrow>
         (case with_up (\<lambda>u. cn_ResolveManifest cn u (pld_PhysicalRepository d) (pld_Reference d)) w1 of
            (Inl e, w2) \<Rightarrow> (if errors_Is e ErrAuthentication
                then Break (GoErr ''%w: %w for source %s'' [ErrSourceUnavailable, ErrAuthentication])
                else if \<not> errors_Is e ErrNotFound \<and> errors_Is e ErrUnavailable
                then Continue (GoErr ''%w: %s'' [ErrSourceUnavailable]) else Continue e, w2)
          | (Inr m, w2) \<Rightarrow> (case accept_manifest r st q d i s cn cs m w2 of (x, w3) \<Rightarrow> (Return x, w3))))"
  by (auto simp: try_source_def credential_error_def resolve_error_def split: prod.split sum.split option.split)

section \<open>The store\<close>

text \<open>
  Over the file store with arbitrary failures, a pull keeps every stored
  blob equal to its digest's content and loses none; what the cache serves hashes to its
  digest; and after a pull from a source the manifest and every blob it names are stored.
\<close>

theorem pull_keeps_store:
  assumes "r_store r = FileStore_ops H F" and "intact H (fst (w_store w))"
    and "Resolver_Pull r q w = (res, w')"
  shows "intact H (fst (w_store w'))
    \<and> (\<forall>dg. blob_stored (w_store w) dg \<longrightarrow> blob_stored (w_store w') dg)
    \<and> (\<forall>x. res = Inr x \<longrightarrow>
         digest_of H (Content (pres_Manifest x)) = rd_Digest (pres_Manifest x) \<and> pres_Source x = SourceCache
         \<or> (\<forall>dg \<in> insert (rd_Digest (pres_Manifest x)) (set (BlobDigests (pres_Manifest x))). blob_stored (w_store w') dg))"
proof -
  have "digest_of H (Content (pres_Manifest x)) = rd_Digest (pres_Manifest x) \<and> pres_Source x = SourceCache
      \<or> (\<forall>dg \<in> insert (rd_Digest (pres_Manifest x)) (set (BlobDigests (pres_Manifest x))). blob_stored (w_store w') dg)"
    if x: "res = Inr x" for x
    using assms(3)
  proof (cases rule: Pull_cases)
    case (cached st w1 d y)
    then have y: "y = Inr (Some x)" using x by (auto split: sum.splits option.splits)
    have i: "intact H (fst (w_store w1))" using assms(2) read_now_world [OF cached(1)] by simp
    note hit = tryCache_Some [OF cached(4) [unfolded y]]
    have "digest_of H (Content (pres_Manifest x)) = rd_Digest (pres_Manifest x) \<and> pres_Source x = SourceCache"
      using fstore.hit_intact [OF assms(1) i hit] hit unfolding hit_parts_def by metis
    then show ?thesis by blast
  next
    case (upstream st w1 d w2)
    with x have u: "pull_sources r st q d w2 = (Inr x, w')" by simp
    show ?thesis using fstore.Pull_upstream_stored [OF assms(1) u] by blast
  qed (use x in \<open>auto split: sum.splits\<close>)
  with fstore.Pull_store [OF assms(1,3)] assms(2) show ?thesis by blast
qed

theorem pull_keeps_store_witness:
  "\<exists>res w. Resolver_Pull (ex_resolver None) ex_request ex_world = (Inr res, w)
     \<and> intact ex_hash (fst (w_store w)) \<and> pres_Manifest res = ex_manifest
     \<and> (blob_stored (w_store w) (rd_Digest ex_manifest) \<or> pres_Source res = SourceCache)"
proof -
  obtain res w where p: "Resolver_Pull (ex_resolver None) ex_request ex_world = (Inr res, w)"
    and a: "pres_Manifest res = ex_manifest" using ex_pull by (auto split: prod.splits sum.splits)
  have "r_store (ex_resolver None) = FileStore_ops ex_hash (\<lambda>_. no_faults)" by (simp add: ex_resolver_def)
  moreover have "intact ex_hash (fst (w_store ex_world))" by (simp add: ex_world_def intact_def)
  ultimately show ?thesis using pull_keeps_store [OF _ _ p] p a by auto
qed

section \<open>A pulled image can be read\<close>

lemma authorizeBindings_open:
  assumes "cb_Source b0 \<in> set (CandidateSources d)" "cb_Access b0 = CacheAccessChallenge"
  shows "b0 \<in> set bs \<Longrightarrow> \<exists>g w'. authorizeBindings r client d den bs w = (Inr (Some g), w')"
proof (induction bs arbitrary: den w)
  case (Cons b bs)
  show ?case
  proof (cases "cb_Source b \<in> set (CandidateSources d) \<and> cb_Access b = CacheAccessChallenge")
    case False
    then have "b0 \<in> set bs" using Cons.prems assms by auto
    then have IH: "\<exists>g w'. authorizeBindings r client d den bs w = (Inr (Some g), w')" for den w
      using Cons.IH by blast
    show ?thesis
    proof (cases "cb_Source b \<in> set (CandidateSources d) \<and> r_provider r \<noteq> None")
      case True
      then obtain p where p: "r_provider r = Some p" by blast
      obtain x w1 where "with_meta (\<lambda>m. cp_AuthorizeCache p m client b OperationPull) w = (x, w1)" by force
      then show ?thesis using IH False True p by (cases x) auto
    next
      case none: False
      with IH [of den w] IH [of "Some (sentinel_err ErrCredentialRequired)" w] False show ?thesis
        by (cases "r_provider r") (simp_all add: none)
    qed
  qed auto
qed simp

lemma resolvePull_reference:
  assumes "resolvePull r repo ref = Inr d"
  obtains d' where "resolvePull r repo ref' = Inr d'" "pld_LogicalRepository d' = pld_LogicalRepository d"
    "pld_RouteName d' = pld_RouteName d" "CandidateSources d' = CandidateSources d"
  using assms by (auto simp: resolvePull_def ResolvePull_def Let_def split: sum.splits)

lemma pull_bindings_fields:
  "b \<in> set (pull_bindings q d s m cs) \<Longrightarrow> cs \<notin> {''current_user'', ''proxy''} \<Longrightarrow>
     cb_LogicalRepository b = pld_LogicalRepository d \<and> cb_Route b = pld_RouteName d \<and> cb_Source b = s
     \<and> cb_ManifestDigest b = rd_Digest m \<and> cb_Access b = CacheAccessChallenge \<and> cb_UserID b = []
     \<and> cacheBindingKey b = (pld_LogicalRepository d @ NUL @ pld_RouteName d @ NUL @ s @ NUL @ rd_Digest m @ NUL)
          @ cb_ObjectDigest b @ (NUL @ CacheAccessChallenge @ NUL)"
  by (auto simp: pull_bindings_def new_binding_def cacheBindingKey_def)

text \<open>The bindings of a pull for everyone are found again by object digest.\<close>

lemma bindings_found:
  assumes rec: "RecordCacheBindings None now (pull_bindings q d s m cs) r = (Inr u, r')"
    and cs: "cs \<notin> {''current_user'', ''proxy''}" and dg: "dg \<in> insert (rd_Digest m) (set (BlobDigests m))"
  shows "\<exists>b \<in> set (map snd (mem_bindings r')). cb_LogicalRepository b = pld_LogicalRepository d
    \<and> cb_Route b = pld_RouteName d \<and> cb_ObjectDigest b = dg \<and> cb_Source b = s \<and> cb_Access b = CacheAccessChallenge"
proof -
  have "\<exists>b0 \<in> set (pull_bindings q d s m cs). cb_ObjectDigest b0 = dg"
    using dg cs by (auto simp: pull_bindings_def new_binding_def)
  then obtain b0 where b0: "b0 \<in> set (pull_bindings q d s m cs)" "cb_ObjectDigest b0 = dg" by blast
  then have "cacheBindingKey b0 \<in> cacheBindingKey ` set (pull_bindings q d s m cs)" by simp
  with rec obtain b b' where b: "b \<in> set (pull_bindings q d s m cs)" "cacheBindingKey b = cacheBindingKey b0"
    "b' \<in> set (map snd (mem_bindings r'))" "same_binding b' b"
    by (rule RecordCacheBindings_Inr)
  note f = pull_bindings_fields [OF b(1) cs] and f0 = pull_bindings_fields [OF b0(1) cs]
  from f f0 b(2) have "cb_ObjectDigest b = cb_ObjectDigest b0" by simp
  with f b0(2) same_binding_fields [OF b(4)] b(3) show ?thesis by (intro bexI [of _ b']) simp_all
qed

lemma Memory_ops_bindings:
  "mr_RecordRequestEvent (Memory_ops cx clk) m e = (x, m') \<Longrightarrow> mem_bindings (fst m') = mem_bindings (fst m)"
  "mr_RecordProvenance (Memory_ops cx clk) m p = (x, m') \<Longrightarrow> mem_bindings (fst m') = mem_bindings (fst m)"
  "mr_RecordTagMapping (Memory_ops cx clk) m t = (x, m') \<Longrightarrow> mem_bindings (fst m') = mem_bindings (fst m)"
  by (cases m; force simp: Memory_ops_def RecordRequestEvent_def RecordProvenance_def RecordTagMapping_def Let_def
      split: prod.splits option.splits sum.splits)+

lemma recordSuccessfulPull_bindings:
  assumes "r_metadata r = Memory_ops cx clk" "recordSuccessfulPull r st q d res w = (x, w')"
  shows "mem_bindings (fst (w_meta w')) = mem_bindings (fst (w_meta w))"
  using assms(2) unfolding recordSuccessfulPull_def assms(1)
  by (auto simp: Let_def split: prod.splits sum.splits if_splits
      dest!: with_meta_keeps read_now_world Memory_ops_bindings)

lemma FileStore_open:
  "blob_stored s dg \<Longrightarrow> \<exists>rc s'. st_OpenBlob (FileStore_ops H (\<lambda>_. no_faults)) s dg = (Inr rc, s')"
  by (cases s) (auto simp: blob_stored_def FileStore_ops_def OpenBlob_def no_faults_def split: sum.split)



end
