(* ===== verification/Push_Resolver.thy ===== *)
theory Push_Resolver
  imports Resolution
begin

text \<open>
  The push resolver (internal/resolution/push.go): resolution and authorisation, selection of
  the destination, verification of the manifest through the content store, publication of the
  staged blobs and then of the manifest, and the record each outcome leaves.
\<close>

section \<open>Requests, results and records\<close>

record ResolverPushRequest =
  pq_Repository :: string
  pq_Reference :: string
  pq_Manifest :: Manifest
  pq_Principal :: Principal

record PushResult =
  psr_Route :: string
  psr_Destination :: string
  psr_LogicalRepository :: string
  psr_PhysicalRepository :: string
  psr_ResultReference :: string
  psr_ManifestDigest :: string
  psr_Explanation :: "explanation list"
  psr_CredentialSource :: string

definition push_event ::
  "time \<Rightarrow> time \<Rightarrow> ResolverPushRequest \<Rightarrow> string \<Rightarrow> string \<Rightarrow> string \<Rightarrow> string \<Rightarrow> explanation list \<Rightarrow> RequestEvent" where
  "push_event started now request logicalReference route status errorClass explanations =
    \<lparr>ev_ID = 0, ev_Timestamp = now, ev_Operation = OperationPush,
     ev_ClientIdentity = EventIdentity (pq_Principal request), ev_CredentialSource = [],
     ev_LogicalReference = logicalReference, ev_MatchedRoute = route, ev_SourceOrDestination = [],
     ev_Status = status, ev_CacheResult = CacheBypassed, ev_Duration = time_Sub now started,
     ev_BytesTransferred = 0, ev_ErrorClassification = errorClass, ev_Explanation = explanations\<rparr>"

definition recordRejectedPush ::
  "('s, 'm, 'w) Resolver \<Rightarrow> time \<Rightarrow> ResolverPushRequest \<Rightarrow> goerr \<Rightarrow> ('s, 'm, 'w) World
     \<Rightarrow> unit result \<times> ('s, 'm, 'w) World" where
  "recordRejectedPush r started request cause w =
    (case read_now r w of (now, w) \<Rightarrow>
      with_meta (\<lambda>m. mr_RecordRequestEvent (r_metadata r) m
        (push_event started now request (referenceString (pq_Repository request) (pq_Reference request)) []
           StatusDenied ''push_denied'' [Cause cause])) w)"

definition recordFailedPush ::
  "('s, 'm, 'w) Resolver \<Rightarrow> time \<Rightarrow> ResolverPushRequest \<Rightarrow> PushDecision \<Rightarrow> goerr \<Rightarrow> string \<Rightarrow> ('s, 'm, 'w) World
     \<Rightarrow> unit result \<times> ('s, 'm, 'w) World" where
  "recordFailedPush r started request decision cause errorClass w =
    (case read_now r w of (now, w) \<Rightarrow>
      with_meta (\<lambda>m. mr_RecordRequestEvent (r_metadata r) m
        ((push_event started now request
           (referenceString (psd_LogicalRepository decision) (psd_Reference decision)) (psd_RouteName decision)
           StatusError errorClass (psd_Explanation decision @ [Cause cause]))
          \<lparr>ev_SourceOrDestination := psd_Destination decision\<rparr>)) w)"

definition recordUnauthorizedPush ::
  "('s, 'm, 'w) Resolver \<Rightarrow> time \<Rightarrow> ResolverPushRequest \<Rightarrow> PushDecision \<Rightarrow> ('s, 'm, 'w) World
     \<Rightarrow> unit result \<times> ('s, 'm, 'w) World" where
  "recordUnauthorizedPush r started request decision w =
    (case read_now r w of (now, w) \<Rightarrow>
      with_meta (\<lambda>m. mr_RecordRequestEvent (r_metadata r) m
        ((push_event started now request
           (referenceString (psd_LogicalRepository decision) (psd_Reference decision)) (psd_RouteName decision)
           StatusDenied ''authorization_denied''
           (psd_Explanation decision @ [NotAuthorizedFor (EventIdentity (pq_Principal request)) (psd_RouteName decision)]))
          \<lparr>ev_SourceOrDestination := psd_Destination decision\<rparr>)) w)"

definition recordSuccessfulPush ::
  "('s, 'm, 'w) Resolver \<Rightarrow> time \<Rightarrow> ResolverPushRequest \<Rightarrow> PushDecision \<Rightarrow> PushResult \<Rightarrow> ('s, 'm, 'w) World
     \<Rightarrow> unit result \<times> ('s, 'm, 'w) World" where
  "recordSuccessfulPush r started request decision res w =
    (case read_now r w of (now, w) \<Rightarrow>
     let logicalReference = referenceString (psd_LogicalRepository decision) (psd_Reference decision) in
     case with_meta (\<lambda>m. mr_RecordProvenance (r_metadata r) m
        \<lparr>pv_LogicalReference = logicalReference,
         PhysicalSourceReference = referenceString (psd_PhysicalRepository decision) (psd_Reference decision),
         RequestedReference = psd_Reference decision, ResolvedDigest = psr_ManifestDigest res,
         pv_Source = psr_Destination res, pv_Route = psr_Route res, pv_FallbackUsed = False,
         StaleServed = False, RetrievedAt = now, ValidatedAt = now\<rparr>) w of
       (Inl e, w) \<Rightarrow> (Inl e, w)
     | (Inr _, w) \<Rightarrow>
       with_meta (\<lambda>m. mr_RecordRequestEvent (r_metadata r) m
         ((push_event started now request logicalReference (psr_Route res) StatusSuccess [] (psr_Explanation res))
           \<lparr>ev_CredentialSource := psr_CredentialSource res, ev_SourceOrDestination := psr_Destination res\<rparr>)) w)"

section \<open>Publication\<close>

definition verifyAndStoreManifest ::
  "('s, 'm, 'w) Resolver \<Rightarrow> Manifest \<Rightarrow> ('s, 'm, 'w) World \<Rightarrow> unit result \<times> ('s, 'm, 'w) World" where
  "verifyAndStoreManifest r manifest w =
    (case store_put r (rd_Digest manifest) (bytes_NewReader (Content manifest)) w of
       (Inl e, w) \<Rightarrow> (if errors_Is e ErrContentDigestMismatch
                      then Inl (GoErr ''%w: %v'' [ErrManifestDigestMismatch]) else Inl e, w)
     | (Inr _, w) \<Rightarrow> (Inr (), w))"

text \<open>What a failing PutBlob of the destination is reported as.\<close>

definition publish_error :: "goerr \<Rightarrow> goerr" where
  "publish_error err =
    (if errors_Is err ErrAuthentication
     then GoErr ''%w: %w for destination %s'' [ErrSourceUnavailable, ErrAuthentication]
     else if errors_Is err ErrUnavailable then GoErr ''%w: %s'' [ErrSourceUnavailable]
     else err)"

definition publishBlob ::
  "('s, 'm, 'w) Resolver \<Rightarrow> 'w Connector \<Rightarrow> string \<Rightarrow> string \<Rightarrow> ('s, 'm, 'w) World
     \<Rightarrow> unit result \<times> ('s, 'm, 'w) World" where
  "publishBlob r destination repo digest w =
    (case store_open r digest w of
       (Inl e, w) \<Rightarrow> (if errors_Is e ErrBlobNotFound
                      then Inl (GoErr ''%w: %s'' [ErrStagedBlobMissing]) else Inl e, w)
     | (Inr rc, w) \<Rightarrow>
       (case with_up (\<lambda>u. cn_PutBlob destination u repo digest rc) w of
          (Inl e, w) \<Rightarrow> (Inl (publish_error e), w)
        | (Inr _, w) \<Rightarrow> (Inr (), w)))"

fun publishBlobs ::
  "('s, 'm, 'w) Resolver \<Rightarrow> 'w Connector \<Rightarrow> string \<Rightarrow> string list \<Rightarrow> ('s, 'm, 'w) World
     \<Rightarrow> unit result \<times> ('s, 'm, 'w) World" where
  "publishBlobs r destination repo [] w = (Inr (), w)"
| "publishBlobs r destination repo (digest # ds) w =
     (case publishBlob r destination repo digest w of
        (Inl e, w) \<Rightarrow> (Inl e, w)
      | (Inr _, w) \<Rightarrow> publishBlobs r destination repo ds w)"

definition blob_error_class :: "goerr \<Rightarrow> string" where
  "blob_error_class err =
    (let c = ''destination_error'';
         c = (if errors_Is err ErrStagedBlobMissing then ''staged_blob_missing'' else c)
     in if errors_Is err ErrAuthentication then ''upstream_authentication_failed'' else c)"

text \<open>What a failing PutManifest is reported as, with its class.\<close>

definition manifest_error :: "goerr \<Rightarrow> goerr \<times> string" where
  "manifest_error err =
    (if errors_Is err ErrAuthentication
     then (GoErr ''%w: %w for destination %s'' [ErrSourceUnavailable, ErrAuthentication], ''upstream_authentication_failed'')
     else if errors_Is err ErrUnavailable
     then (GoErr ''%w: %s'' [ErrSourceUnavailable], ''destination_unavailable'')
     else (err, ''destination_error''))"

definition connector_error_class :: "goerr \<Rightarrow> string" where
  "connector_error_class err =
    (if errors_Is err ErrCredentialRequired then ''credential_required''
     else if errors_Is err ErrAuthorization then ''upstream_authorization_failed''
     else ''credential_unavailable'')"

text \<open>A failure after the decision: record it, ignore the outcome of recording, return it.\<close>

definition fail_push ::
  "('s, 'm, 'w) Resolver \<Rightarrow> time \<Rightarrow> ResolverPushRequest \<Rightarrow> PushDecision \<Rightarrow> goerr \<Rightarrow> string \<Rightarrow> ('s, 'm, 'w) World
     \<Rightarrow> PushResult result \<times> ('s, 'm, 'w) World" where
  "fail_push r started request decision err errorClass w =
    (case recordFailedPush r started request decision err errorClass w of (_, w) \<Rightarrow> (Inl err, w))"

definition push_destination ::
  "('s, 'm, 'w) Resolver \<Rightarrow> Principal \<Rightarrow> string \<Rightarrow> ('s, 'm, 'w) World
     \<Rightarrow> ('w Connector option \<times> string) result \<times> ('s, 'm, 'w) World" where
  "push_destination r client destination w =
    (case r_provider r of
       None \<Rightarrow> (Inr (r_connectors r destination, ''anonymous''), w)
     | Some p \<Rightarrow> with_meta (\<lambda>m. cp_ConnectorFor p m client destination OperationPush) w)"

definition publish ::
  "('s, 'm, 'w) Resolver \<Rightarrow> time \<Rightarrow> ResolverPushRequest \<Rightarrow> PushDecision \<Rightarrow> 'w Connector \<Rightarrow> string
     \<Rightarrow> ('s, 'm, 'w) World \<Rightarrow> PushResult result \<times> ('s, 'm, 'w) World" where
  "publish r started request decision destination credentialSource w =
    (case verifyAndStoreManifest r (pq_Manifest request) w of
       (Inl err, w) \<Rightarrow> fail_push r started request decision err ''manifest_invalid'' w
     | (Inr _, w) \<Rightarrow>
       (case publishBlobs r destination (psd_PhysicalRepository decision) (BlobDigests (pq_Manifest request)) w of
          (Inl err, w) \<Rightarrow> fail_push r started request decision err (blob_error_class err) w
        | (Inr _, w) \<Rightarrow>
          (case with_up (\<lambda>u. cn_PutManifest destination u (psd_PhysicalRepository decision)
                   (psd_Reference decision) (pq_Manifest request)) w of
             (Inl err, w) \<Rightarrow> fail_push r started request decision (fst (manifest_error err)) (snd (manifest_error err)) w
           | (Inr desc, w) \<Rightarrow>
             let res = \<lparr>psr_Route = psd_RouteName decision, psr_Destination = psd_Destination decision,
                        psr_LogicalRepository = psd_LogicalRepository decision,
                        psr_PhysicalRepository = psd_PhysicalRepository decision,
                        psr_ResultReference = psd_Reference decision, psr_ManifestDigest = rd_Digest desc,
                        psr_Explanation = psd_Explanation decision
                          @ [PublishedManifest (rd_Digest desc) (psd_Destination decision)],
                        psr_CredentialSource = credentialSource\<rparr>
             in (case recordSuccessfulPush r started request decision res w of
                   (Inl e, w) \<Rightarrow> (Inl e, w) | (Inr _, w) \<Rightarrow> (Inr res, w)))))"

definition resolvePush :: "('s, 'm, 'w) Resolver \<Rightarrow> string \<Rightarrow> string \<Rightarrow> PushDecision result" where
  "resolvePush r repo reference =
     ResolvePush (r_unicode r) (r_policy r) \<lparr>psr_Repository = repo, psr_Reference = reference\<rparr>"

definition Resolver_Push ::
  "('s, 'm, 'w) Resolver \<Rightarrow> ResolverPushRequest \<Rightarrow> ('s, 'm, 'w) World \<Rightarrow> PushResult result \<times> ('s, 'm, 'w) World" where
  "Resolver_Push r request w =
    (case read_now r w of (started, w) \<Rightarrow>
     case resolvePush r (pq_Repository request) (pq_Reference request) of
       Inl e \<Rightarrow> (case recordRejectedPush r started request e w of (_, w) \<Rightarrow> (Inl e, w))
     | Inr decision \<Rightarrow>
       if \<not> authorized r (pq_Principal request) OperationPush (psd_RouteName decision)
       then (case recordUnauthorizedPush r started request decision w of
               (Inl e, w) \<Rightarrow> (Inl e, w)
             | (Inr _, w) \<Rightarrow> (Inl (GoErr ''%w: client %q cannot push route %q'' [ErrUnauthorized]), w))
       else
         (case push_destination r (pq_Principal request) (psd_Destination decision) w of
            (Inl err, w) \<Rightarrow> fail_push r started request decision err (connector_error_class err) w
          | (Inr (None, _), w) \<Rightarrow>
            fail_push r started request decision
              (GoErr ''missing destination connector %q'' [ErrSourceUnavailable]) ''destination_unavailable'' w
          | (Inr (Some destination, credentialSource), w) \<Rightarrow>
            publish r started request decision destination credentialSource w))"

section \<open>What the parts leave alone\<close>

definition untouched :: "('s, 'm, 'w) World \<Rightarrow> ('s, 'm, 'w) World \<Rightarrow> bool" where
  "untouched w w' \<longleftrightarrow> w_store w' = w_store w \<and> w_up w' = w_up w"

lemma untouched_record:
  "recordRejectedPush r st q e w = (x, w') \<Longrightarrow> untouched w w'"
  "recordFailedPush r st q d e c w = (x, w') \<Longrightarrow> untouched w w'"
  "recordUnauthorizedPush r st q d w = (x, w') \<Longrightarrow> untouched w w'"
  by (auto simp: recordRejectedPush_def recordFailedPush_def recordUnauthorizedPush_def untouched_def
      split: prod.splits dest!: with_meta_keeps read_now_world)

lemma untouched_success: "recordSuccessfulPush r st q d res w = (x, w') \<Longrightarrow> untouched w w'"
  by (auto simp: recordSuccessfulPush_def Let_def untouched_def split: prod.splits sum.splits
      dest!: with_meta_keeps read_now_world)

lemma fail_push_Inl: "fail_push r st q d e c w = (res, w') \<Longrightarrow> res = Inl e \<and> untouched w w'"
  by (auto simp: fail_push_def split: prod.splits dest: untouched_record)

lemma push_destination_keeps: "push_destination r p dest w = (x, w') \<Longrightarrow> untouched w w'"
  by (auto simp: push_destination_def untouched_def split: option.splits dest!: with_meta_keeps)

lemma Push_cases:
  assumes "Resolver_Push r q w = (res, w')"
  obtains
    (rejected) e where "resolvePush r (pq_Repository q) (pq_Reference q) = Inl e" "res = Inl e" "untouched w w'"
  | (denied) d e where "resolvePush r (pq_Repository q) (pq_Reference q) = Inr d"
      "\<not> authorized r (pq_Principal q) OperationPush (psd_RouteName d)" "res = Inl e" "untouched w w'"
  | (no_destination) d e where "resolvePush r (pq_Repository q) (pq_Reference q) = Inr d"
      "authorized r (pq_Principal q) OperationPush (psd_RouteName d)" "res = Inl e" "untouched w w'"
  | (published) d st w0 w1 dest cs where "resolvePush r (pq_Repository q) (pq_Reference q) = Inr d"
      "authorized r (pq_Principal q) OperationPush (psd_RouteName d)"
      "push_destination r (pq_Principal q) (psd_Destination d) w0 = (Inr (Some dest, cs), w1)"
      "untouched w w1" "publish r st q d dest cs w1 = (res, w')"
proof -
  obtain st w0 where n: "read_now r w = (st, w0)" by force
  have u0: "untouched w w0" using read_now_world [OF n] by (simp add: untouched_def)
  have ut: "untouched w w2" if "untouched w0 w2" for w2 using that u0 by (simp add: untouched_def)
  show thesis
  proof (cases "resolvePush r (pq_Repository q) (pq_Reference q)")
    case (Inl e)
    with assms n show thesis
      by (intro rejected [of e]) (auto simp: Resolver_Push_def split: prod.splits intro!: ut dest: untouched_record)
  next
    case (Inr d)
    show thesis
    proof (cases "authorized r (pq_Principal q) OperationPush (psd_RouteName d)")
      case False
      obtain x w2 where x: "recordUnauthorizedPush r st q d w0 = (x, w2)" by force
      have "untouched w w2" by (rule ut [OF untouched_record(3) [OF x]])
      with assms n Inr False x show thesis
        by (cases x) (auto simp: Resolver_Push_def intro: denied)
    next
      case True
      obtain x w1 where x: "push_destination r (pq_Principal q) (psd_Destination d) w0 = (x, w1)" by force
      have u1: "untouched w w1" by (rule ut [OF push_destination_keeps [OF x]])
      show thesis
      proof (cases "\<exists>dest cs. x = Inr (Some dest, cs)")
        case found: True
        then obtain dest cs where "x = Inr (Some dest, cs)" by blast
        with assms n Inr True x u1 show thesis
          by (intro published [of d w0 dest cs w1 st]) (auto simp: Resolver_Push_def)
      next
        case missing: False
        then have "\<exists>e c. fail_push r st q d e c w1 = (res, w')"
          using assms n Inr True x by (auto simp: Resolver_Push_def split: sum.splits option.splits) blast+
        then obtain e c where "fail_push r st q d e c w1 = (res, w')" by blast
        from fail_push_Inl [OF this] u1 show thesis
          by (intro no_destination [OF Inr True]) (auto simp: untouched_def)
      qed
    qed
  qed
qed

lemma publish_Inr:
  assumes "publish r st q d dest cs w = (Inr res, w')"
  obtains w1 w2 w3 desc where "verifyAndStoreManifest r (pq_Manifest q) w = (Inr (), w1)"
    "publishBlobs r dest (psd_PhysicalRepository d) (BlobDigests (pq_Manifest q)) w1 = (Inr (), w2)"
    "cn_PutManifest dest (w_up w2) (psd_PhysicalRepository d) (psd_Reference d) (pq_Manifest q) = (Inr desc, w_up w3)"
    "untouched w3 w'" "w_store w3 = w_store w2" "psr_ManifestDigest res = rd_Digest desc"
    "psr_Destination res = psd_Destination d" "psr_Route res = psd_RouteName d"
    "psr_PhysicalRepository res = psd_PhysicalRepository d"
  using assms
  by (auto simp: publish_def Let_def dest: fail_push_Inl untouched_success split: prod.splits sum.splits
      dest!: with_up_keeps)

text \<open>Publication is what the registry contract calls putting blobs, with the staged readers.\<close>

lemma publishBlob_Inr:
  assumes "publishBlob r dest repo dg w = (Inr u, w')"
  obtains rc s desc where "st_OpenBlob (r_store r) (w_store w) dg = (Inr rc, s)"
    "cn_PutBlob dest (w_up w) repo dg rc = (Inr desc, w_up w')" "w_store w' = s"
  using assms
  by (auto simp: publishBlob_def split: prod.splits sum.splits if_splits dest!: store_open_keeps with_up_keeps)

lemma publishBlob_open:
  "publishBlob r dest repo dg w = (x, w') \<Longrightarrow> \<exists>opened. st_OpenBlob (r_store r) (w_store w) dg = (opened, w_store w')"
  by (auto simp: publishBlob_def split: prod.splits sum.splits if_splits dest!: store_open_keeps with_up_keeps)

context registry_contract
begin

lemma publishBlobs_present:
  "publishBlobs r C repo ds w = (Inr u, w') \<Longrightarrow>
     (\<forall>d. has_blob (w_up w) d \<longrightarrow> has_blob (w_up w') d) \<and> (\<forall>d \<in> set ds. has_blob (w_up w') d)"
proof (induction ds arbitrary: w)
  case (Cons d ds)
  obtain x w1 where x: "publishBlob r C repo d w = (x, w1)" by force
  with Cons.prems obtain v where v: "x = Inr v" and rest: "publishBlobs r C repo ds w1 = (Inr u, w')"
    by (auto split: sum.splits)
  from x v obtain rc s desc where p: "cn_PutBlob C (w_up w) repo d rc = (Inr desc, w_up w1)"
    by (metis publishBlob_Inr)
  from put_blob [OF p] put_blob_keeps [OF p] Cons.IH [OF rest] show ?case by auto
qed simp

lemma publish_complete:
  assumes "publish r st q d C cs w = (Inr res, w')"
  shows "has_manifest (w_up w') (psd_PhysicalRepository d) (psd_Reference d) (pq_Manifest q)"
    "dg \<in> set (BlobDigests (pq_Manifest q)) \<Longrightarrow> has_blob (w_up w') dg"
proof -
  obtain w3 desc where "cn_PutManifest C w3 (psd_PhysicalRepository d) (psd_Reference d) (pq_Manifest q)
      = (Inr desc, w_up w')"
    using assms by (rule publish_Inr) (auto simp: untouched_def)
  from put_manifest [OF this] put_manifest_blobs [OF this]
  show "has_manifest (w_up w') (psd_PhysicalRepository d) (psd_Reference d) (pq_Manifest q)"
    "dg \<in> set (BlobDigests (pq_Manifest q)) \<Longrightarrow> has_blob (w_up w') dg" by blast+
qed

end

section \<open>Any state of the destination that every put keeps\<close>

lemma publishBlobs_up:
  assumes "\<And>u dg rc x u'. P u \<Longrightarrow> cn_PutBlob dest u repo dg rc = (x, u') \<Longrightarrow> P u'"
  shows "P (w_up w) \<Longrightarrow> publishBlobs r dest repo ds w = (x, w') \<Longrightarrow> P (w_up w')"
proof (induction ds arbitrary: w)
  case (Cons d ds)
  obtain y w1 where y: "publishBlob r dest repo d w = (y, w1)" by force
  have "P (w_up w1)"
    using y Cons.prems(1) assms
    by (auto simp: publishBlob_def split: prod.splits sum.splits if_splits dest!: store_open_keeps with_up_keeps)
  with Cons y show ?case by (cases y) auto
qed simp

lemma publish_up:
  assumes blob: "\<And>u dg rc x u'. P u \<Longrightarrow> cn_PutBlob dest u (psd_PhysicalRepository d) dg rc = (x, u') \<Longrightarrow> P u'"
    and man: "\<And>u x u'. P u \<Longrightarrow> cn_PutManifest dest u (psd_PhysicalRepository d) (psd_Reference d) (pq_Manifest q) = (x, u') \<Longrightarrow> P u'"
    and P: "P (w_up w)" and p: "publish r st q d dest cs w = (res, w')"
  shows "P (w_up w')"
proof -
  have f: "fail_push r st q d e c w1 = (res, w') \<Longrightarrow> P (w_up w1) \<Longrightarrow> P (w_up w')" for e c w1
    by (auto dest!: fail_push_Inl simp: untouched_def)
  obtain x w1 where x: "verifyAndStoreManifest r (pq_Manifest q) w = (x, w1)" by force
  have P1: "P (w_up w1)"
    using x P by (auto simp: verifyAndStoreManifest_def split: prod.splits sum.splits if_splits dest!: store_put_keeps)
  show ?thesis
  proof (cases x)
    case (Inl e)
    with p x f P1 show ?thesis by (auto simp: publish_def)
  next
    case Inr
    obtain y w2 where y: "publishBlobs r dest (psd_PhysicalRepository d) (BlobDigests (pq_Manifest q)) w1 = (y, w2)" by force
    have P2: "P (w_up w2)" using publishBlobs_up [where P = P, OF blob P1 y] .
    show ?thesis
    proof (cases y)
      case (Inl e)
      with p x Inr y f P2 show ?thesis by (auto simp: publish_def)
    next
      case y2: Inr
      obtain z w3 where z: "with_up (\<lambda>u. cn_PutManifest dest u (psd_PhysicalRepository d) (psd_Reference d) (pq_Manifest q)) w2 = (z, w3)"
        by force
      have P3: "P (w_up w3)" using with_up_keeps [OF z] man [OF P2] by simp
      with p x Inr y y2 z f show ?thesis
        by (auto simp: publish_def Let_def untouched_def split: sum.splits prod.splits dest: untouched_success)
    qed
  qed
qed

section \<open>The store\<close>

context blob_store
begin

lemma publishBlobs_store:
  "r_store r = S \<Longrightarrow> publishBlobs r dest repo ds w = (x, w') \<Longrightarrow>
     (inv (w_store w') \<longleftrightarrow> inv (w_store w)) \<and> stored (w_store w') = stored (w_store w)"
proof (induction ds arbitrary: w)
  case (Cons d ds)
  obtain y w1 where y: "publishBlob r dest repo d w = (y, w1)" by force
  have "(inv (w_store w1) \<longleftrightarrow> inv (w_store w)) \<and> stored (w_store w1) = stored (w_store w)"
    using publishBlob_open [OF y] Cons.prems(1) open_keeps by metis
  with Cons y show ?case by (cases y) auto
qed simp

lemma publish_store:
  assumes r: "r_store r = S" and p: "publish r st q d dest cs w = (res, w')"
  shows "inv (w_store w) \<Longrightarrow> inv (w_store w')"
    "isOK res \<Longrightarrow> stored (w_store w') (rd_Digest (pq_Manifest q))"
proof -
  obtain y w0 where y: "store_put r (rd_Digest (pq_Manifest q)) (bytes_NewReader (Content (pq_Manifest q))) w = (y, w0)" by force
  obtain x w1 where x: "verifyAndStoreManifest r (pq_Manifest q) w = (x, w1)" by force
  have xy: "w1 = w0" "x = Inr () \<Longrightarrow> isOK y" using x y by (auto simp: verifyAndStoreManifest_def split: sum.splits if_splits)
  have i1: "inv (w_store w) \<Longrightarrow> inv (w_store w1)"
    using store_put_keeps [OF y] put_inv xy r by auto
  have s1: "x = Inr () \<Longrightarrow> stored (w_store w1) (rd_Digest (pq_Manifest q))"
    using store_put_keeps [OF y] put_stored xy r by (auto simp: isOK_iff)
  have f: "fail_push r st q d e c w2 = (res, w') \<Longrightarrow> w_store w' = w_store w2 \<and> \<not> isOK res" for e c w2
    by (auto dest!: fail_push_Inl simp: untouched_def)
  have "(inv (w_store w) \<longrightarrow> inv (w_store w')) \<and> (isOK res \<longrightarrow> stored (w_store w') (rd_Digest (pq_Manifest q)))"
  proof (cases x)
    case (Inl e)
    with p x f i1 show ?thesis by (auto simp: publish_def)
  next
    case Inr
    obtain z w2 where z: "publishBlobs r dest (psd_PhysicalRepository d) (BlobDigests (pq_Manifest q)) w1 = (z, w2)" by force
    note k = publishBlobs_store [OF r z]
    show ?thesis
    proof (cases z)
      case (Inl e)
      with p x Inr z f k i1 show ?thesis by (auto simp: publish_def)
    next
      case z2: Inr
      have "w_store w' = w_store w2"
        using p x Inr z z2 f
        by (auto simp: publish_def Let_def untouched_def split: sum.splits prod.splits dest!: with_up_keeps untouched_success)
      with k i1 s1 Inr show ?thesis by auto
    qed
  qed
  then show "inv (w_store w) \<Longrightarrow> inv (w_store w')"
    "isOK res \<Longrightarrow> stored (w_store w') (rd_Digest (pq_Manifest q))" by blast+
qed

end

end
