(* ===== verification/SQLite_Security.thy ===== *)
theory SQLite_Security
  imports Memory_Repository
begin

text \<open>
  The users, tokens, sessions, credentials and audit events of the SQLite repository
  (internal/metadata/sqlite_repository.go, sqlite_security.go). The database is a record of its
  tables, whose rows are the records of Metadata in insertion order, with the constraints of the
  schema; times are already the stored nanoseconds. There is one connection, so a transaction is
  not interleaved with others. Any statement may fail (database errors, a cancelled context):
  the n-th statement fails with F n, and a failed statement changes nothing.
\<close>

section \<open>Statements and transactions\<close>

record SecDB =
  t_users :: "User list"
  t_tokens :: "DockerToken list"
  t_sessions :: "WebSession list"
  t_credentials :: "RegistryCredential list"
  t_audit :: "AuditEvent list"
  t_audit_seq :: int

type_synonym SqlFaults = "nat \<Rightarrow> goerr option"
type_synonym ('d, 'a) dbm = "'d \<times> nat \<Rightarrow> 'a result \<times> 'd \<times> nat"
type_synonym SqlState = "SecDB \<times> nat"
type_synonym 'a sqlm = "(SecDB, 'a) dbm"

definition empty_db :: SecDB where
  "empty_db = \<lparr>t_users = [], t_tokens = [], t_sessions = [], t_credentials = [], t_audit = [], t_audit_seq = 0\<rparr>"

definition sql :: "SqlFaults \<Rightarrow> ('d \<Rightarrow> ('a \<times> 'd) result) \<Rightarrow> ('d, 'a) dbm" where
  "sql F f s =
    (case F (snd s) of Some e \<Rightarrow> (Inl e, (fst s, Suc (snd s)))
     | None \<Rightarrow> (case f (fst s) of Inl e \<Rightarrow> (Inl e, (fst s, Suc (snd s)))
        | Inr (x, db) \<Rightarrow> (Inr x, (db, Suc (snd s)))))"

definition query :: "SqlFaults \<Rightarrow> ('d \<Rightarrow> 'a) \<Rightarrow> ('d, 'a) dbm" where
  "query F f = sql F (\<lambda>db. Inr (f db, db))"

definition ret :: "'a \<Rightarrow> ('d, 'a) dbm" where "ret x s = (Inr x, s)"
definition fail :: "goerr \<Rightarrow> ('d, 'a) dbm" where "fail e s = (Inl e, s)"

definition andthen :: "('d, 'a) dbm \<Rightarrow> ('a \<Rightarrow> ('d, 'b) dbm) \<Rightarrow> ('d, 'b) dbm" where
  "andthen m k s = (case m s of (Inl e, s) \<Rightarrow> (Inl e, s) | (Inr x, s) \<Rightarrow> k x s)"

definition wrapping :: "string \<Rightarrow> ('d, 'a) dbm \<Rightarrow> ('d, 'a) dbm" where
  "wrapping t m s = (case m s of (Inl e, s) \<Rightarrow> (Inl (wrapf t e), s) | (Inr x, s) \<Rightarrow> (Inr x, s))"

text \<open>Any failure reported as a given error.\<close>

definition otherwise :: "goerr \<Rightarrow> ('d, 'a) dbm \<Rightarrow> ('d, 'a) dbm" where
  "otherwise e m s = (case m s of (Inl _, s) \<Rightarrow> (Inl e, s) | (Inr x, s) \<Rightarrow> (Inr x, s))"

text \<open>A check before the database is used.\<close>

definition after_check :: "unit result \<Rightarrow> ('d, 'a) dbm \<Rightarrow> ('d, 'a) dbm" where
  "after_check c m = (case c of Inl e \<Rightarrow> fail e | Inr _ \<Rightarrow> m)"

text \<open>
  BeginTx, the body, and Commit. A body that fails, or returns before Commit (first component
  False), is rolled back by the deferred call.
\<close>

definition transaction :: "SqlFaults \<Rightarrow> string \<Rightarrow> string \<Rightarrow> ('d, bool \<times> 'a) dbm \<Rightarrow> ('d, 'a) dbm" where
  "transaction F begin_text commit_text body s =
    (case wrapping begin_text (query F (\<lambda>_. ())) s of
       (Inl e, s1) \<Rightarrow> (Inl e, s1)
     | (Inr _, s1) \<Rightarrow>
       (case body s1 of
          (Inl e, s2) \<Rightarrow> (Inl e, (fst s1, snd s2))
        | (Inr (False, x), s2) \<Rightarrow> (Inr x, (fst s1, snd s2))
        | (Inr (True, x), s2) \<Rightarrow>
          (case wrapping commit_text (query F (\<lambda>_. ())) s2 of
             (Inl e, s3) \<Rightarrow> (Inl e, (fst s1, snd s3)) | (Inr _, s3) \<Rightarrow> (Inr x, s3))))"

section \<open>Rows\<close>

definition unique_error :: goerr where "unique_error = errorf ''UNIQUE constraint failed''"
definition check_error :: goerr where "check_error = errorf ''CHECK constraint failed''"
definition foreign_error :: goerr where "foreign_error = errorf ''FOREIGN KEY constraint failed''"

definition insert_user :: "User \<Rightarrow> SecDB \<Rightarrow> (unit \<times> SecDB) result" where
  "insert_user u db =
    (if Access u \<notin> {UserAccessUser, UserAccessAdmin} then Inl check_error
     else if \<exists>v \<in> set (t_users db). usr_ID v = usr_ID u \<or> Username v = Username u then Inl unique_error
     else Inr ((), db\<lparr>t_users := t_users db @ [u]\<rparr>))"

text \<open>UPDATE users: the number of rows changed.\<close>

definition update_users :: "(User \<Rightarrow> bool) \<Rightarrow> (User \<Rightarrow> User) \<Rightarrow> SecDB \<Rightarrow> (nat \<times> SecDB) result" where
  "update_users P f db =
    (let us = map (\<lambda>v. if P v then f v else v) (t_users db) in
     if \<not> distinct (map Username us) \<or> \<not> distinct (map usr_ID us) then Inl unique_error
     else if \<exists>v \<in> set us. Access v \<notin> {UserAccessUser, UserAccessAdmin} then Inl check_error
     else Inr (length (filter P (t_users db)), db\<lparr>t_users := us\<rparr>))"

definition insert_token :: "DockerToken \<Rightarrow> SecDB \<Rightarrow> (unit \<times> SecDB) result" where
  "insert_token t db =
    (if length (dt_TokenHash t) \<noteq> 32 then Inl check_error
     else if \<exists>x \<in> set (t_tokens db). dt_ID x = dt_ID t \<or> dt_TokenHash x = dt_TokenHash t then Inl unique_error
     else if dt_UserID t \<notin> usr_ID ` set (t_users db) then Inl foreign_error
     else Inr ((), db\<lparr>t_tokens := t_tokens db @ [t]\<rparr>))"

definition insert_session :: "WebSession \<Rightarrow> SecDB \<Rightarrow> (unit \<times> SecDB) result" where
  "insert_session w db =
    (if length (ws_TokenHash w) \<noteq> 32 \<or> length (ws_CSRFTokenHash w) \<noteq> 32 then Inl check_error
     else if \<exists>x \<in> set (t_sessions db). ws_ID x = ws_ID w \<or> ws_TokenHash x = ws_TokenHash w then Inl unique_error
     else if ws_UserID w \<notin> usr_ID ` set (t_users db) then Inl foreign_error
     else Inr ((), db\<lparr>t_sessions := t_sessions db @ [w]\<rparr>))"

definition insert_credential :: "RegistryCredential \<Rightarrow> SecDB \<Rightarrow> (unit \<times> SecDB) result" where
  "insert_credential c db =
    (if \<exists>x \<in> set (t_credentials db). rc_ID x = rc_ID c
          \<or> rc_UserID x = rc_UserID c \<and> rc_SourceID x = rc_SourceID c then Inl unique_error
     else if rc_UserID c \<notin> usr_ID ` set (t_users db) then Inl foreign_error
     else Inr ((), db\<lparr>t_credentials := t_credentials db @ [c]\<rparr>))"

text \<open>SET revoked_at_nanos = CASE WHEN revoked_at_nanos = 0 THEN ? ELSE revoked_at_nanos END.\<close>

definition revoke_tokens :: "(DockerToken \<Rightarrow> bool) \<Rightarrow> time \<Rightarrow> SecDB \<Rightarrow> (nat \<times> SecDB) result" where
  "revoke_tokens P at db = Inr (length (filter P (t_tokens db)),
     db\<lparr>t_tokens := map (\<lambda>t. if P t \<and> dt_RevokedAt t = 0 then t\<lparr>dt_RevokedAt := at\<rparr> else t) (t_tokens db)\<rparr>)"

definition revoke_sessions :: "(WebSession \<Rightarrow> bool) \<Rightarrow> time \<Rightarrow> SecDB \<Rightarrow> (nat \<times> SecDB) result" where
  "revoke_sessions P at db = Inr (length (filter P (t_sessions db)),
     db\<lparr>t_sessions := map (\<lambda>w. if P w \<and> ws_RevokedAt w = 0 then w\<lparr>ws_RevokedAt := at\<rparr> else w) (t_sessions db)\<rparr>)"

definition insertAuditEvent :: "SqlFaults \<Rightarrow> AuditEvent \<Rightarrow> time \<Rightarrow> AuditEvent sqlm" where
  "insertAuditEvent F event fallbackTime =
    (let event = (if IsZero (au_Timestamp event) then event\<lparr>au_Timestamp := fallbackTime\<rparr> else event)
     in wrapping ''insert audit event: %w'' (sql F (\<lambda>db.
          let row = event\<lparr>au_ID := t_audit_seq db + 1\<rparr>
          in Inr (row, db\<lparr>t_audit := t_audit db @ [row], t_audit_seq := t_audit_seq db + 1\<rparr>))))"

section \<open>Users\<close>

definition SQL_CreateUser :: "SqlFaults \<Rightarrow> time \<Rightarrow> User \<Rightarrow> User option sqlm" where
  "SQL_CreateUser F now user =
    andthen (query F (\<lambda>_. ())) (\<lambda>_. after_check (validateUser user) (\<lambda>s.
      let user = user\<lparr>usr_CreatedAt := now, usr_UpdatedAt := now\<rparr> in
      (case sql F (insert_user user) s of
         (Inl e, s) \<Rightarrow> (Inl (if Contains (err_text e) ''UNIQUE constraint failed''
              then GoErr ''%w: user id or username already exists'' [ErrConflict]
              else wrapf ''insert user: %w'' e), s)
       | (Inr _, s) \<Rightarrow> (Inr (Some user), s))))"

definition SQL_BootstrapAdmin :: "SqlFaults \<Rightarrow> time \<Rightarrow> User \<Rightarrow> AuditEvent \<Rightarrow> User option sqlm" where
  "SQL_BootstrapAdmin F now user audit =
    after_check (validateUser user) (
    if Access user \<noteq> UserAccessAdmin \<or> \<not> Enabled user
    then fail (GoErr ''%w: bootstrap user must be an enabled administrator'' [ErrInvalidRecord])
    else after_check (validateAuditEvent audit) (
    transaction F ''begin administrator bootstrap: %w'' ''commit administrator bootstrap: %w'' (
      andthen (wrapping ''count users for administrator bootstrap: %w'' (query F (\<lambda>db. length (t_users db)))) (\<lambda>n.
      if n \<noteq> 0 then fail (GoErr ''%w: administrator bootstrap has already completed'' [ErrConflict])
      else let user = user\<lparr>usr_CreatedAt := now, usr_UpdatedAt := now\<rparr> in
        andthen (wrapping ''insert bootstrap administrator: %w'' (sql F (insert_user user))) (\<lambda>_.
        andthen (insertAuditEvent F audit now) (\<lambda>_. ret (True, Some user)))))))"

definition findUser :: "SqlFaults \<Rightarrow> (User \<Rightarrow> bool) \<Rightarrow> User option sqlm" where
  "findUser F P = andthen (query F (\<lambda>_. ())) (\<lambda>_.
     wrapping ''find user by %s: %w'' (query F (\<lambda>db. find P (t_users db))))"

definition SQL_FindUserByID :: "SqlFaults \<Rightarrow> string \<Rightarrow> User option sqlm" where
  "SQL_FindUserByID F uid = findUser F (\<lambda>u. usr_ID u = uid)"

definition SQL_FindUserByUsername :: "SqlFaults \<Rightarrow> string \<Rightarrow> User option sqlm" where
  "SQL_FindUserByUsername F username = findUser F (\<lambda>u. Username u = username)"

definition SQL_ListUsers :: "SqlFaults \<Rightarrow> User list sqlm" where
  "SQL_ListUsers F = wrapping ''list users: %w'' (query F (\<lambda>db. sort_key Username (t_users db)))"

text \<open>The columns an UPDATE users sets from a user.\<close>

definition set_user :: "User \<Rightarrow> time \<Rightarrow> User \<Rightarrow> User" where
  "set_user user now row = row\<lparr>Username := Username user, PasswordHash := PasswordHash user,
     DisplayName := DisplayName user, Email := Email user, Access := Access user, Enabled := Enabled user,
     usr_UpdatedAt := now\<rparr>"

definition SQL_UpdateUser :: "SqlFaults \<Rightarrow> time \<Rightarrow> User \<Rightarrow> time \<Rightarrow> User option sqlm" where
  "SQL_UpdateUser F now0 user expectedUpdatedAt =
    andthen (query F (\<lambda>_. ())) (\<lambda>_. after_check (validateUser user) (\<lambda>s.
      let now = nextUpdatedAt now0 expectedUpdatedAt in
      (case sql F (update_users (\<lambda>r. usr_ID r = usr_ID user \<and> usr_UpdatedAt r = expectedUpdatedAt)
              (set_user user now)) s of
         (Inl e, s) \<Rightarrow> (Inl (if Contains (err_text e) ''UNIQUE constraint failed''
              then GoErr ''%w: username already exists'' [ErrConflict] else wrapf ''update user: %w'' e), s)
       | (Inr changed, s) \<Rightarrow>
         if changed = 0
         then andthen (SQL_FindUserByID F (usr_ID user)) (\<lambda>current.
                case current of None \<Rightarrow> ret None
                | Some _ \<Rightarrow> fail (GoErr ''%w: user %q was modified'' [ErrConflict])) s
         else SQL_FindUserByID F (usr_ID user) s)))"

definition requireEnabledAdmin :: "SqlFaults \<Rightarrow> string \<Rightarrow> unit sqlm" where
  "requireEnabledAdmin F userID =
    andthen (wrapping ''authorize administrator transaction: %w'' (query F (\<lambda>db.
        length (filter (\<lambda>u. usr_ID u = userID \<and> Enabled u \<and> Access u = UserAccessAdmin) (t_users db))))) (\<lambda>n.
    if n \<noteq> 1 then fail (GoErr ''%w: acting administrator is not enabled'' [ErrConflict]) else ret ())"

definition CreateUserWithAudit :: "SqlFaults \<Rightarrow> time \<Rightarrow> User \<Rightarrow> AuditEvent \<Rightarrow> User option sqlm" where
  "CreateUserWithAudit F now user audit =
    after_check (validateUser user) (after_check (validateAuditEvent audit) (
    transaction F ''begin user creation: %w'' ''commit user creation: %w'' (
      andthen (requireEnabledAdmin F (au_ActorUserID audit)) (\<lambda>_.
      let user = user\<lparr>usr_CreatedAt := now, usr_UpdatedAt := now\<rparr> in
      andthen (wrapping ''insert user: %w'' (sql F (insert_user user))) (\<lambda>_.
      andthen (insertAuditEvent F audit now) (\<lambda>_. ret (True, Some user)))))))"

definition enabled_admins :: "SecDB \<Rightarrow> nat" where
  "enabled_admins db = length (filter (\<lambda>u. Enabled u \<and> Access u = UserAccessAdmin) (t_users db))"

text \<open>Revoking the sessions and tokens of a user.\<close>

definition revoke_identity :: "SqlFaults \<Rightarrow> string \<Rightarrow> time \<Rightarrow> unit sqlm" where
  "revoke_identity F userID now =
    andthen (sql F (revoke_sessions (\<lambda>w. ws_UserID w = userID) now)) (\<lambda>_.
    andthen (sql F (revoke_tokens (\<lambda>t. dt_UserID t = userID) now)) (\<lambda>_. ret ()))"

definition UpdateUserSecurity ::
  "SqlFaults \<Rightarrow> time \<Rightarrow> User \<Rightarrow> time \<Rightarrow> bool \<Rightarrow> AuditEvent \<Rightarrow> User option sqlm" where
  "UpdateUserSecurity F now0 user expectedUpdatedAt invalidateIdentity audit =
    after_check (validateUser user) (after_check (validateAuditEvent audit) (
    transaction F ''begin user security update: %w'' ''commit user security update: %w'' (
      andthen (requireEnabledAdmin F (au_ActorUserID audit)) (\<lambda>_.
      andthen (wrapping ''find user for security update: %w''
          (query F (\<lambda>db. find (\<lambda>u. usr_ID u = usr_ID user) (t_users db)))) (\<lambda>row.
      case row of None \<Rightarrow> ret (False, None)
      | Some current \<Rightarrow>
        if usr_UpdatedAt current \<noteq> expectedUpdatedAt then fail (GoErr ''%w: user %q was modified'' [ErrConflict])
        else
        andthen (if Enabled current \<and> Access current = UserAccessAdmin
                    \<and> (\<not> Enabled user \<or> Access user \<noteq> UserAccessAdmin)
                 then andthen (query F enabled_admins) (\<lambda>n. if n \<le> 1
                   then fail (GoErr ''%w: cannot disable or demote the last enabled administrator'' [ErrConflict])
                   else ret ())
                 else ret ()) (\<lambda>_.
        let now = nextUpdatedAt now0 (usr_UpdatedAt current) in
        andthen (wrapping ''update user security: %w'' (sql F (update_users
            (\<lambda>r. usr_ID r = usr_ID user \<and> usr_UpdatedAt r = expectedUpdatedAt) (set_user user now)))) (\<lambda>changed.
        if changed \<noteq> 1 then fail (GoErr ''%w: user %q was modified'' [ErrConflict])
        else
        andthen (if invalidateIdentity then revoke_identity F (usr_ID user) now else ret ()) (\<lambda>_.
        andthen (insertAuditEvent F audit now) (\<lambda>_.
        ret (True, Some (user\<lparr>usr_CreatedAt := usr_CreatedAt current, usr_UpdatedAt := now\<rparr>)))))))))))"

definition ChangeUserPassword ::
  "SqlFaults \<Rightarrow> time \<Rightarrow> string \<Rightarrow> time \<Rightarrow> string \<Rightarrow> AuditEvent \<Rightarrow> User option sqlm" where
  "ChangeUserPassword F now0 userID expectedUpdatedAt passwordHash audit =
    (let systemRecovery = au_ActorUserID audit = [] \<and> au_ActorRole audit = ''system''
           \<and> au_Action audit = ''user.password_recovered'' in
     if passwordHash = [] \<or> \<not> systemRecovery \<and> (au_ActorUserID audit \<noteq> userID \<or> au_ActorRole audit \<noteq> ''user'')
     then fail (GoErr ''%w: invalid password change'' [ErrInvalidRecord])
     else after_check (validateAuditEvent audit) (
     transaction F ''begin password change: %w'' ''commit password change: %w'' (
       andthen (query F (\<lambda>db. find (\<lambda>u. usr_ID u = userID \<and> (systemRecovery \<or> Enabled u)) (t_users db))) (\<lambda>row.
       case row of None \<Rightarrow> ret (False, None)
       | Some user \<Rightarrow>
         if usr_UpdatedAt user \<noteq> expectedUpdatedAt then fail (GoErr ''%w: user %q was modified'' [ErrConflict])
         else
         let now = nextUpdatedAt now0 (usr_UpdatedAt user) in
         andthen (sql F (update_users (\<lambda>r. usr_ID r = userID \<and> usr_UpdatedAt r = expectedUpdatedAt)
             (\<lambda>r. r\<lparr>PasswordHash := passwordHash, usr_UpdatedAt := now\<rparr>))) (\<lambda>_.
         andthen (revoke_identity F userID now) (\<lambda>_.
         andthen (insertAuditEvent F audit now) (\<lambda>_.
         ret (True, Some (user\<lparr>PasswordHash := passwordHash, usr_UpdatedAt := now\<rparr>)))))))))"

section \<open>Docker tokens\<close>

definition CreateDockerToken :: "SqlFaults \<Rightarrow> time \<Rightarrow> DockerToken \<Rightarrow> DockerToken sqlm" where
  "CreateDockerToken F now token =
    after_check (validateDockerToken token) (
    let token = (if IsZero (dt_CreatedAt token) then token\<lparr>dt_CreatedAt := now\<rparr> else token) in
    andthen (wrapping ''insert docker token: %w'' (sql F (insert_token token))) (\<lambda>_. ret token))"

definition CreateDockerTokenWithAudit :: "SqlFaults \<Rightarrow> time \<Rightarrow> DockerToken \<Rightarrow> AuditEvent \<Rightarrow> DockerToken sqlm" where
  "CreateDockerTokenWithAudit F now token audit =
    after_check (validateDockerToken token) (after_check (validateAuditEvent audit) (
    if au_ActorUserID audit \<noteq> dt_UserID token
    then fail (GoErr ''%w: token actor must own token'' [ErrInvalidRecord])
    else transaction F ''begin docker token creation: %w'' ''commit docker token creation: %w'' (
      andthen (otherwise (GoErr ''%w: token user is not enabled'' [ErrConflict])
          (query F (\<lambda>db. find (\<lambda>u. usr_ID u = dt_UserID token) (t_users db)))) (\<lambda>row.
      case row of None \<Rightarrow> fail (GoErr ''%w: token user is not enabled'' [ErrConflict])
      | Some u \<Rightarrow>
        if \<not> Enabled u then fail (GoErr ''%w: token user is not enabled'' [ErrConflict])
        else
        let token = (if IsZero (dt_CreatedAt token) then token\<lparr>dt_CreatedAt := now\<rparr> else token) in
        andthen (wrapping ''insert docker token: %w''
            (sql F (insert_token (token\<lparr>dt_RevokedAt := 0, dt_LastUsed := 0\<rparr>)))) (\<lambda>_.
        andthen (insertAuditEvent F audit (dt_CreatedAt token)) (\<lambda>_. ret (True, token)))))))"

definition FindDockerTokenByHash :: "SqlFaults \<Rightarrow> string \<Rightarrow> DockerToken option sqlm" where
  "FindDockerTokenByHash F hash =
    wrapping ''find docker token: %w'' (query F (\<lambda>db. find (\<lambda>t. dt_TokenHash t = hash) (t_tokens db)))"

definition ListDockerTokensForUser :: "SqlFaults \<Rightarrow> string \<Rightarrow> DockerToken list sqlm" where
  "ListDockerTokensForUser F userID = wrapping ''list docker tokens: %w'' (query F (\<lambda>db.
     map (\<lambda>t. t\<lparr>dt_TokenHash := []\<rparr>)
       (sort_key (\<lambda>t. - dt_CreatedAt t) (filter (\<lambda>t. dt_UserID t = userID) (t_tokens db)))))"

definition RevokeDockerToken :: "SqlFaults \<Rightarrow> time \<Rightarrow> string \<Rightarrow> time \<Rightarrow> unit sqlm" where
  "RevokeDockerToken F now tid revokedAt =
    (let revokedAt = (if IsZero revokedAt then now else revokedAt) in
     andthen (wrapping ''revoke docker token: %w'' (sql F (revoke_tokens (\<lambda>t. dt_ID t = tid) revokedAt))) (\<lambda>_. ret ()))"

definition RevokeDockerTokenWithAudit ::
  "SqlFaults \<Rightarrow> string \<Rightarrow> string \<Rightarrow> time \<Rightarrow> AuditEvent \<Rightarrow> unit sqlm" where
  "RevokeDockerTokenWithAudit F userID tid revokedAt audit =
    after_check (validateAuditEvent audit) (transaction F ''%w'' ''%w'' (
      andthen (sql F (revoke_tokens (\<lambda>t. dt_ID t = tid \<and> dt_UserID t = userID) revokedAt)) (\<lambda>affected.
      if affected = 0 then ret (False, ())
      else andthen (insertAuditEvent F audit revokedAt) (\<lambda>_. ret (True, ())))))"

section \<open>Web sessions\<close>

definition CreateWebSession :: "SqlFaults \<Rightarrow> time \<Rightarrow> WebSession \<Rightarrow> WebSession sqlm" where
  "CreateWebSession F now session =
    after_check (validateWebSession session) (
    let session = (if IsZero (ws_CreatedAt session) then session\<lparr>ws_CreatedAt := now\<rparr> else session);
        session = (if IsZero (ws_LastSeenAt session) then session\<lparr>ws_LastSeenAt := ws_CreatedAt session\<rparr> else session) in
    andthen (wrapping ''insert web session: %w'' (sql F (insert_session session))) (\<lambda>_. ret session))"

definition FindWebSessionByHash :: "SqlFaults \<Rightarrow> string \<Rightarrow> WebSession option sqlm" where
  "FindWebSessionByHash F hash =
    wrapping ''find web session: %w'' (query F (\<lambda>db. find (\<lambda>w. ws_TokenHash w = hash) (t_sessions db)))"

definition RevokeWebSession :: "SqlFaults \<Rightarrow> time \<Rightarrow> string \<Rightarrow> time \<Rightarrow> unit sqlm" where
  "RevokeWebSession F now sid revokedAt =
    (let revokedAt = (if IsZero revokedAt then now else revokedAt) in
     andthen (wrapping ''revoke web session: %w'' (sql F (revoke_sessions (\<lambda>w. ws_ID w = sid) revokedAt))) (\<lambda>_. ret ()))"

definition RevokeWebSessionsForUser :: "SqlFaults \<Rightarrow> time \<Rightarrow> string \<Rightarrow> time \<Rightarrow> unit sqlm" where
  "RevokeWebSessionsForUser F now userID revokedAt =
    (let revokedAt = (if IsZero revokedAt then now else revokedAt) in
     andthen (wrapping ''revoke web sessions: %w'' (sql F (revoke_sessions (\<lambda>w. ws_UserID w = userID) revokedAt)))
       (\<lambda>_. ret ()))"

section \<open>Registry credentials\<close>

definition findRegistryCredential :: "SqlFaults \<Rightarrow> string \<Rightarrow> string \<Rightarrow> RegistryCredential option sqlm" where
  "findRegistryCredential F userID sourceID = wrapping ''find registry credential: %w'' (query F (\<lambda>db.
     find (\<lambda>c. rc_UserID c = userID \<and> rc_SourceID c = sourceID) (t_credentials db)))"

definition ListRegistryCredentialsForUser :: "SqlFaults \<Rightarrow> string \<Rightarrow> RegistryCredential list sqlm" where
  "ListRegistryCredentialsForUser F userID = wrapping ''list registry credentials: %w'' (query F (\<lambda>db.
     sort_key rc_SourceID (filter (\<lambda>c. rc_UserID c = userID) (t_credentials db))))"

definition SaveRegistryCredential ::
  "SqlFaults \<Rightarrow> time \<Rightarrow> RegistryCredential \<Rightarrow> AuditEvent \<Rightarrow> RegistryCredential sqlm" where
  "SaveRegistryCredential F now credential audit =
    after_check (validateRegistryCredential credential) (after_check (validateAuditEvent audit) (
    transaction F ''begin credential save: %w'' ''commit credential save: %w'' (
      andthen (findRegistryCredential F (rc_UserID credential) (rc_SourceID credential)) (\<lambda>row.
      andthen (case row of
          None \<Rightarrow>
            let credential = credential\<lparr>rc_CreatedAt := now, rc_UpdatedAt := now\<rparr> in
            andthen (wrapping ''save registry credential: %w'' (sql F (insert_credential credential))) (\<lambda>_. ret credential)
        | Some existing \<Rightarrow>
            if rc_ID existing \<noteq> rc_ID credential
            then fail (GoErr ''%w: credential id does not match existing user/source record'' [ErrConflict])
            else let credential = credential\<lparr>rc_CreatedAt := rc_CreatedAt existing,
                                             rc_UpdatedAt := nextUpdatedAt now (rc_UpdatedAt existing)\<rparr> in
            andthen (wrapping ''save registry credential: %w'' (sql F (\<lambda>db. Inr ((), db\<lparr>t_credentials := map (\<lambda>c.
                if rc_ID c = rc_ID credential
                then c\<lparr>rc_Username := rc_Username credential, rc_EncryptedSecret := rc_EncryptedSecret credential,
                       rc_UpdatedAt := rc_UpdatedAt credential\<rparr> else c) (t_credentials db)\<rparr>)))) (\<lambda>_. ret credential))
        (\<lambda>credential. andthen (insertAuditEvent F audit now) (\<lambda>_. ret (True, credential)))))))"

definition DeleteRegistryCredential :: "SqlFaults \<Rightarrow> time \<Rightarrow> string \<Rightarrow> string \<Rightarrow> AuditEvent \<Rightarrow> unit sqlm" where
  "DeleteRegistryCredential F now userID sourceID audit =
    after_check (validateAuditEvent audit) (
    transaction F ''begin credential deletion: %w'' ''commit credential deletion: %w'' (
      andthen (wrapping ''delete registry credential: %w'' (sql F (\<lambda>db. Inr ((), db\<lparr>t_credentials :=
          filter (\<lambda>c. \<not> (rc_UserID c = userID \<and> rc_SourceID c = sourceID)) (t_credentials db)\<rparr>)))) (\<lambda>_.
      andthen (insertAuditEvent F audit now) (\<lambda>_. ret (True, ())))))"

text \<open>Setting the secrets one by one; the loop stops at the first that is missing.\<close>

fun rotate_secrets :: "SqlFaults \<Rightarrow> (string \<times> string) list \<Rightarrow> string list \<Rightarrow> unit sqlm" where
  "rotate_secrets F replacements [] = ret ()"
| "rotate_secrets F replacements (cid # ids) =
    (case map_of replacements cid of
       None \<Rightarrow> fail (GoErr ''%w: credential key rotation is incomplete'' [ErrInvalidRecord])
     | Some encrypted \<Rightarrow>
       if encrypted = [] then fail (GoErr ''%w: credential key rotation is incomplete'' [ErrInvalidRecord])
       else
       andthen (wrapping ''rotate credential key: %w'' (sql F (\<lambda>db. Inr (length (filter (\<lambda>c. rc_ID c = cid) (t_credentials db)),
           db\<lparr>t_credentials := map (\<lambda>c. if rc_ID c = cid then c\<lparr>rc_EncryptedSecret := encrypted\<rparr> else c)
                (t_credentials db)\<rparr>)))) (\<lambda>affected.
       if affected \<noteq> 1 then fail (GoErr ''%w: credential key rotation set changed'' [ErrConflict])
       else rotate_secrets F replacements ids))"

text \<open>The replacements are a Go map, an association list with distinct keys.\<close>

definition RotateRegistryCredentialSecrets ::
  "SqlFaults \<Rightarrow> time \<Rightarrow> (string \<times> string) list \<Rightarrow> AuditEvent \<Rightarrow> nat sqlm" where
  "RotateRegistryCredentialSecrets F now replacements audit =
    after_check (validateAuditEvent audit) (
    transaction F ''begin credential key rotation: %w'' ''commit credential key rotation: %w'' (
      andthen (wrapping ''list credentials for key rotation: %w'' (query F (\<lambda>db. sort (map rc_ID (t_credentials db))))) (\<lambda>ids.
      if length ids \<noteq> length replacements then fail (GoErr ''%w: credential key rotation set changed'' [ErrConflict])
      else
      andthen (rotate_secrets F replacements ids) (\<lambda>_.
      andthen (insertAuditEvent F audit now) (\<lambda>_. ret (True, length ids))))))"

section \<open>Audit events\<close>

definition RecordAuditEvent :: "SqlFaults \<Rightarrow> time \<Rightarrow> AuditEvent \<Rightarrow> AuditEvent sqlm" where
  "RecordAuditEvent F now event = after_check (validateAuditEvent event) (insertAuditEvent F event now)"

definition ListAuditEvents :: "SqlFaults \<Rightarrow> int \<Rightarrow> AuditEvent list sqlm" where
  "ListAuditEvents F limit =
    (if limit < 1 \<or> limit > 100 then fail (GoErr ''%w: audit limit must be between 1 and 100'' [ErrInvalidRecord])
     else wrapping ''list audit events: %w'' (query F (\<lambda>db.
       take (nat limit) (SliceStable (\<lambda>a b. au_Timestamp a > au_Timestamp b
          \<or> au_Timestamp a = au_Timestamp b \<and> au_ID a > au_ID b) (t_audit db)))))"

end
