(* ===== verification/SQLite_Invariants.thy ===== *)
theory SQLite_Invariants
  imports SQLite_Security
begin

text \<open>
  Reasoning about the database operations: rules that carry a relation between the tables
  before and after through the statement combinators, the calls of the program as one step
  function, and what every call keeps.
\<close>

named_theorems keeps_intros \<open>rules for relations kept by database operations\<close>

section \<open>Relations kept by an operation\<close>

definition keeps :: "('d \<Rightarrow> 'd \<Rightarrow> bool) \<Rightarrow> ('d, 'a) dbm \<Rightarrow> bool" where
  "keeps R m \<longleftrightarrow> (\<forall>s. R (fst s) (fst (snd (m s))))"

definition preorder :: "('d \<Rightarrow> 'd \<Rightarrow> bool) \<Rightarrow> bool" where
  "preorder R \<longleftrightarrow> reflp R \<and> transp R"

lemma keepsD: "keeps R m \<Longrightarrow> m s = (x, s') \<Longrightarrow> R (fst s) (fst s')"
  by (metis keeps_def snd_conv)

lemma preorder_refl [simp]: "preorder R \<Longrightarrow> R x x"
  by (simp add: preorder_def reflpD)

lemma preorder_trans: "preorder R \<Longrightarrow> R x y \<Longrightarrow> R y z \<Longrightarrow> R x z"
  unfolding preorder_def by (blast dest: transpD)

lemma keeps_ret [keeps_intros]: "preorder R \<Longrightarrow> keeps R (ret x)"
  by (simp add: keeps_def ret_def)

lemma keeps_fail [keeps_intros]: "preorder R \<Longrightarrow> keeps R (fail e)"
  by (simp add: keeps_def fail_def)

lemma keeps_sql [keeps_intros]:
  "preorder R \<Longrightarrow> (\<And>db x db'. f db = Inr (x, db') \<Longrightarrow> R db db') \<Longrightarrow> keeps R (sql F f)"
  by (auto simp: keeps_def sql_def split: option.splits sum.splits)

lemma keeps_query [keeps_intros]: "preorder R \<Longrightarrow> keeps R (query F f)"
  unfolding query_def by (rule keeps_sql) auto

lemma keeps_wrapping [keeps_intros]: "keeps R m \<Longrightarrow> keeps R (wrapping t m)"
  by (auto simp: keeps_def wrapping_def split: prod.splits sum.splits) (metis fst_conv snd_conv)+

lemma keeps_otherwise [keeps_intros]: "keeps R m \<Longrightarrow> keeps R (otherwise e m)"
  by (auto simp: keeps_def otherwise_def split: prod.splits sum.splits) (metis fst_conv snd_conv)+

lemma keeps_snd: "keeps R m \<Longrightarrow> R (fst s) (fst (snd (m s)))"
  unfolding keeps_def by blast

lemma keeps_andthen [keeps_intros]:
  assumes "preorder R" "keeps R m" "\<And>x. keeps R (k x)" shows "keeps R (andthen m k)"
  unfolding keeps_def
proof
  fix s
  obtain x s1 where m: "m s = (x, s1)" by (metis surj_pair)
  have "R (fst s) (fst s1)" using assms(2) m by (rule keepsD)
  moreover have "R (fst s1) (fst (snd (k y s1)))" for y using assms(3) [of y] unfolding keeps_def by blast
  ultimately show "R (fst s) (fst (snd (andthen m k s)))"
    using assms(1) m by (cases x) (auto simp: andthen_def intro: preorder_trans)
qed

lemma keeps_check [keeps_intros]: "preorder R \<Longrightarrow> keeps R m \<Longrightarrow> keeps R (after_check c m)"
  by (cases c) (auto simp: after_check_def intro: keeps_fail)

lemma keeps_transaction [keeps_intros]:
  fixes R :: "'d \<Rightarrow> 'd \<Rightarrow> bool"
  assumes "preorder R" "keeps R body" shows "keeps R (transaction F b c body)"
  unfolding keeps_def
proof
  fix s :: "'d \<times> nat"
  obtain x s1 where b: "wrapping b (query F (\<lambda>_. ())) s = (x, s1)" by (metis surj_pair)
  have q: "wrapping t (query F (\<lambda>_. ())) s = (x, s1) \<Longrightarrow> fst s1 = fst s" for t s s1 x
    by (auto simp: wrapping_def query_def sql_def split: option.splits)
  obtain y s2 where y: "body s1 = (y, s2)" by (metis surj_pair)
  have R: "R (fst s) (fst s2)" using keepsD [OF assms(2) y] q [OF b] by simp
  obtain z s3 where z: "wrapping c (query F (\<lambda>_. ())) s2 = (z, s3)" by (metis surj_pair)
  show "R (fst s) (fst (snd (transaction F b c body s)))"
    using R assms(1) q [OF b] q [OF z] b y z
    by (auto simp: transaction_def split: sum.splits prod.splits bool.splits)
qed

lemma keeps_if [keeps_intros]: "(b \<Longrightarrow> keeps R m) \<Longrightarrow> (\<not> b \<Longrightarrow> keeps R n) \<Longrightarrow> keeps R (if b then m else n)"
  by simp

lemma keeps_option [keeps_intros]:
  "(x = None \<Longrightarrow> keeps R m) \<Longrightarrow> (\<And>y. x = Some y \<Longrightarrow> keeps R (n y))
     \<Longrightarrow> keeps R (case x of None \<Rightarrow> m | Some y \<Rightarrow> n y)"
  by (cases x) auto

lemma keeps_Let [keeps_intros]: "keeps R (f x) \<Longrightarrow> keeps R (Let x f)"
  by simp

section \<open>Logging\<close>

text \<open>An audit row written for an event.\<close>

definition written_for :: "AuditEvent \<Rightarrow> AuditEvent \<Rightarrow> bool" where
  "written_for a row \<longleftrightarrow> row = a\<lparr>au_ID := au_ID row, au_Timestamp := au_Timestamp row\<rparr>"

text \<open>A body that commits only after it has appended one row for the event.\<close>

definition logs :: "AuditEvent \<Rightarrow> (bool \<times> 'a) sqlm \<Rightarrow> bool" where
  "logs a m \<longleftrightarrow> (\<forall>s x s'. m s = (Inr (True, x), s') \<longrightarrow>
     (\<exists>row. t_audit (fst s') = t_audit (fst s) @ [row] \<and> written_for a row))"

definition silent :: "SecDB \<Rightarrow> SecDB \<Rightarrow> bool" where
  "silent db db' \<longleftrightarrow> t_audit db' = t_audit db"

lemma preorder_silent [simp, intro]: "preorder silent"
  by (auto simp: preorder_def silent_def reflp_def transp_def)

lemma insertAuditEvent_Inr:
  "insertAuditEvent F a t s = (Inr row, s') \<Longrightarrow>
     fst s' = (fst s)\<lparr>t_audit := t_audit (fst s) @ [row], t_audit_seq := t_audit_seq (fst s) + 1\<rparr>
     \<and> au_ID row = t_audit_seq (fst s) + 1 \<and> written_for a row"
  by (auto simp: insertAuditEvent_def Let_def wrapping_def sql_def written_for_def
      split: option.splits sum.splits prod.splits if_splits)

lemma logs_insert: "logs a (andthen (insertAuditEvent F a t) (\<lambda>_. ret (True, x)))"
  unfolding logs_def andthen_def ret_def
  by (auto split: sum.splits prod.splits dest!: insertAuditEvent_Inr)

lemma logs_False: "logs a (ret (False, x))"
  by (simp add: logs_def ret_def)

lemma logs_fail: "logs a (fail e)"
  by (simp add: logs_def fail_def)

lemma logs_andthen: "keeps silent m \<Longrightarrow> (\<And>x. logs a (k x)) \<Longrightarrow> logs a (andthen m k)"
  unfolding logs_def andthen_def by (fastforce split: sum.splits prod.splits dest: keepsD simp: silent_def)

lemma logs_if: "(b \<Longrightarrow> logs a m) \<Longrightarrow> (\<not> b \<Longrightarrow> logs a n) \<Longrightarrow> logs a (if b then m else n)"
  by simp

lemma logs_option: "(x = None \<Longrightarrow> logs a m) \<Longrightarrow> (\<And>y. x = Some y \<Longrightarrow> logs a (n y)) \<Longrightarrow> logs a (case x of None \<Rightarrow> m | Some y \<Rightarrow> n y)"
  by (cases x) auto

lemma logs_Let: "logs a (f x) \<Longrightarrow> logs a (Let x f)"
  by simp

lemmas logs_intros = logs_insert logs_False logs_fail logs_andthen logs_if logs_option logs_Let

text \<open>A transaction changes nothing, or has committed its body.\<close>

lemma transaction_cases:
  assumes "transaction F b c body s = (res, s')"
  obtains (nothing) "fst s' = fst s"
  | (committed) x s1 s2 where "fst s1 = fst s" "body s1 = (Inr (True, x), s2)" "fst s' = fst s2" "res = Inr x"
proof -
  have q: "wrapping t (query F (\<lambda>_. ())) s = (x, s1) \<Longrightarrow> fst s1 = fst s" for t s s1 x
    by (auto simp: wrapping_def query_def sql_def split: option.splits)
  obtain x s1 where b: "wrapping b (query F (\<lambda>_. ())) s = (x, s1)" by (metis surj_pair)
  obtain y s2 where y: "body s1 = (y, s2)" by (metis surj_pair)
  obtain z s3 where z: "wrapping c (query F (\<lambda>_. ())) s2 = (z, s3)" by (metis surj_pair)
  have "fst s' = fst s \<or> (\<exists>x. body s1 = (Inr (True, x), s2) \<and> fst s' = fst s2 \<and> res = Inr x)"
    using assms b y z q [OF b] q [OF z]
    by (auto simp: transaction_def split: sum.splits prod.splits bool.splits)
  then show thesis using that(1) that(2) [OF q [OF b]] by blast
qed

definition audited :: "AuditEvent \<Rightarrow> SecDB \<Rightarrow> SecDB \<Rightarrow> bool" where
  "audited a db db' \<longleftrightarrow> db' = db \<or> (\<exists>row. t_audit db' = t_audit db @ [row] \<and> written_for a row)"

lemma audited_refl [simp]: "audited a db db"
  by (simp add: audited_def)

lemma audited_transaction:
  assumes "logs a body" shows "audited a (fst s) (fst (snd (transaction F b c body s)))"
proof -
  obtain res s' where t: "transaction F b c body s = (res, s')" by (metis surj_pair)
  from t show ?thesis
  proof (cases rule: transaction_cases)
    case nothing
    with t show ?thesis by (simp add: audited_def)
  next
    case (committed x s1 s2)
    from assms committed(2) obtain row where "t_audit (fst s2) = t_audit (fst s1) @ [row]" "written_for a row"
      unfolding logs_def by blast
    with committed t show ?thesis by (auto simp: audited_def)
  qed
qed

lemma audited_check:
  "(\<And>s. audited a (fst s) (fst (snd (m s)))) \<Longrightarrow> audited a (fst s) (fst (snd (after_check c m s)))"
  by (cases c) (auto simp: after_check_def fail_def audited_def)

section \<open>The calls of the program\<close>

text \<open>
  The operations that the services call. (CreateUser and UpdateUser of the repository are called
  by tests alone.)
\<close>

datatype sec_call =
    BootstrapCall User AuditEvent
  | CreateUserCall User AuditEvent
  | UpdateUserCall User time bool AuditEvent
  | PasswordCall string time string AuditEvent
  | CreateTokenCall DockerToken AuditEvent
  | RevokeTokenCall string time
  | RevokeTokenForUserCall string string time AuditEvent
  | CreateSessionCall WebSession
  | RevokeSessionCall string time
  | SaveCredentialCall RegistryCredential AuditEvent
  | DeleteCredentialCall string string AuditEvent
  | RotateSecretsCall "(string \<times> string) list" AuditEvent
  | RecordAuditCall AuditEvent

fun sec_step :: "SqlFaults \<Rightarrow> time \<Rightarrow> sec_call \<Rightarrow> SqlState \<Rightarrow> SqlState" where
  "sec_step F now (BootstrapCall u a) s = snd (SQL_BootstrapAdmin F now u a s)"
| "sec_step F now (CreateUserCall u a) s = snd (CreateUserWithAudit F now u a s)"
| "sec_step F now (UpdateUserCall u t i a) s = snd (UpdateUserSecurity F now u t i a s)"
| "sec_step F now (PasswordCall i t h a) s = snd (ChangeUserPassword F now i t h a s)"
| "sec_step F now (CreateTokenCall t a) s = snd (CreateDockerTokenWithAudit F now t a s)"
| "sec_step F now (RevokeTokenCall i t) s = snd (RevokeDockerToken F now i t s)"
| "sec_step F now (RevokeTokenForUserCall u i t a) s = snd (RevokeDockerTokenWithAudit F u i t a s)"
| "sec_step F now (CreateSessionCall w) s = snd (CreateWebSession F now w s)"
| "sec_step F now (RevokeSessionCall i t) s = snd (RevokeWebSession F now i t s)"
| "sec_step F now (SaveCredentialCall c a) s = snd (SaveRegistryCredential F now c a s)"
| "sec_step F now (DeleteCredentialCall u i a) s = snd (DeleteRegistryCredential F now u i a s)"
| "sec_step F now (RotateSecretsCall r a) s = snd (RotateRegistryCredentialSecrets F now r a s)"
| "sec_step F now (RecordAuditCall a) s = snd (RecordAuditEvent F now a s)"

text \<open>The databases that calls reach, with any clock readings and any failures.\<close>

inductive sec_reach :: "SecDB \<Rightarrow> SecDB \<Rightarrow> bool" where
  start: "sec_reach db db"
| call: "sec_reach db db1 \<Longrightarrow> sec_reach db (fst (sec_step F now c (db1, n)))"

lemma sec_reach_keeps:
  assumes "sec_reach db db'" "preorder R" "\<And>F now c s. R (fst s) (fst (sec_step F now c s))"
  shows "R db db'"
  using assms(1)
proof induction
  case (call db db1 F now c n)
  with assms(3) [of "(db1, n)" F now c] show ?case using assms(2) by (auto intro: preorder_trans)
qed (simp add: assms(2))

lemmas security_operations =
  SQL_BootstrapAdmin_def CreateUserWithAudit_def UpdateUserSecurity_def ChangeUserPassword_def
  CreateDockerTokenWithAudit_def RevokeDockerToken_def RevokeDockerTokenWithAudit_def
  CreateWebSession_def RevokeWebSession_def SaveRegistryCredential_def DeleteRegistryCredential_def
  RotateRegistryCredentialSecrets_def RecordAuditEvent_def

lemma keeps_step:
  assumes "\<And>F now u a. keeps R (SQL_BootstrapAdmin F now u a)"
    and "\<And>F now u a. keeps R (CreateUserWithAudit F now u a)"
    and "\<And>F now u t i a. keeps R (UpdateUserSecurity F now u t i a)"
    and "\<And>F now i t h a. keeps R (ChangeUserPassword F now i t h a)"
    and "\<And>F now t a. keeps R (CreateDockerTokenWithAudit F now t a)"
    and "\<And>F now i t. keeps R (RevokeDockerToken F now i t)"
    and "\<And>F u i t a. keeps R (RevokeDockerTokenWithAudit F u i t a)"
    and "\<And>F now w. keeps R (CreateWebSession F now w)"
    and "\<And>F now i t. keeps R (RevokeWebSession F now i t)"
    and "\<And>F now c a. keeps R (SaveRegistryCredential F now c a)"
    and "\<And>F now u i a. keeps R (DeleteRegistryCredential F now u i a)"
    and "\<And>F now r a. keeps R (RotateRegistryCredentialSecrets F now r a)"
    and "\<And>F now a. keeps R (RecordAuditEvent F now a)"
  shows "R (fst s) (fst (sec_step F now c s))"
  by (cases c) (simp_all only: sec_step.simps assms [THEN keeps_snd])

section \<open>What single statements keep\<close>

lemma keeps_insertAudit [keeps_intros]:
  assumes "preorder R" "\<And>db row. au_ID row = t_audit_seq db + 1
      \<Longrightarrow> R db (db\<lparr>t_audit := t_audit db @ [row], t_audit_seq := t_audit_seq db + 1\<rparr>)"
  shows "keeps R (insertAuditEvent F a t)"
  unfolding insertAuditEvent_def using assms
  by (auto intro!: keeps_intros simp: Let_def)

lemma keeps_requireAdmin [keeps_intros]: "preorder R \<Longrightarrow> keeps R (requireEnabledAdmin F u)"
  unfolding requireEnabledAdmin_def by (auto intro!: keeps_intros)

lemma keeps_findCredential [keeps_intros]: "preorder R \<Longrightarrow> keeps R (findRegistryCredential F u i)"
  unfolding findRegistryCredential_def by (auto intro!: keeps_intros)

lemma keeps_rotate [keeps_intros]:
  assumes "preorder R" "\<And>db cs. R db (db\<lparr>t_credentials := cs\<rparr>)"
  shows "keeps R (rotate_secrets F r ids)"
  using assms by (induction ids) (auto intro!: keeps_intros)

lemma insert_user_Inr: "insert_user u db = Inr (x, db') \<Longrightarrow>
    db' = db\<lparr>t_users := t_users db @ [u]\<rparr> \<and> usr_ID u \<notin> usr_ID ` set (t_users db)
    \<and> Username u \<notin> Username ` set (t_users db)"
  by (auto simp: insert_user_def split: if_splits)

lemma update_users_Inr: "update_users P f db = Inr (n, db') \<Longrightarrow>
    db' = db\<lparr>t_users := map (\<lambda>v. if P v then f v else v) (t_users db)\<rparr>
    \<and> n = length (filter P (t_users db)) \<and> distinct (map usr_ID (t_users db')) \<and> distinct (map Username (t_users db'))"
  by (auto simp: update_users_def Let_def split: if_splits)

lemma insert_token_Inr: "insert_token t db = Inr (x, db') \<Longrightarrow>
    db' = db\<lparr>t_tokens := t_tokens db @ [t]\<rparr> \<and> dt_TokenHash t \<notin> dt_TokenHash ` set (t_tokens db)
    \<and> dt_ID t \<notin> dt_ID ` set (t_tokens db) \<and> dt_UserID t \<in> usr_ID ` set (t_users db)"
  by (auto simp: insert_token_def split: if_splits)

lemma insert_session_Inr: "insert_session w db = Inr (x, db') \<Longrightarrow>
    db' = db\<lparr>t_sessions := t_sessions db @ [w]\<rparr> \<and> ws_TokenHash w \<notin> ws_TokenHash ` set (t_sessions db)
    \<and> ws_ID w \<notin> ws_ID ` set (t_sessions db) \<and> ws_UserID w \<in> usr_ID ` set (t_users db)"
  by (auto simp: insert_session_def split: if_splits)

lemma insert_credential_Inr: "insert_credential c db = Inr (x, db') \<Longrightarrow>
    db' = db\<lparr>t_credentials := t_credentials db @ [c]\<rparr>"
  by (auto simp: insert_credential_def split: if_splits)

lemmas row_changes = insert_user_Inr update_users_Inr insert_token_Inr insert_session_Inr insert_credential_Inr

definition keys_ok :: "User list \<Rightarrow> bool" where
  "keys_ok us \<longleftrightarrow> distinct (map usr_ID us) \<and> distinct (map Username us)"

text \<open>A relation that holds for each change of a table holds for every call.\<close>

lemma keeps_operations:
  assumes R: "preorder R"
    and users: "\<And>db us. (keys_ok (t_users db) \<Longrightarrow> keys_ok us) \<Longrightarrow> R db (db\<lparr>t_users := us\<rparr>)"
    and token: "\<And>db t. R db (db\<lparr>t_tokens := t_tokens db @ [t]\<rparr>)"
    and tokens: "\<And>db P t. R db (db\<lparr>t_tokens := map (\<lambda>x. if P x \<and> dt_RevokedAt x = 0 then x\<lparr>dt_RevokedAt := t\<rparr> else x) (t_tokens db)\<rparr>)"
    and session: "\<And>db w. R db (db\<lparr>t_sessions := t_sessions db @ [w]\<rparr>)"
    and sessions: "\<And>db P t. R db (db\<lparr>t_sessions := map (\<lambda>x. if P x \<and> ws_RevokedAt x = 0 then x\<lparr>ws_RevokedAt := t\<rparr> else x) (t_sessions db)\<rparr>)"
    and credentials: "\<And>db cs. R db (db\<lparr>t_credentials := cs\<rparr>)"
    and audit: "\<And>db row. au_ID row = t_audit_seq db + 1 \<Longrightarrow> R db (db\<lparr>t_audit := t_audit db @ [row], t_audit_seq := t_audit_seq db + 1\<rparr>)"
  shows "R (fst s) (fst (sec_step F now c s))"
proof (rule keeps_step)
  note [keeps_intros] = R audit credentials
  have u1: "insert_user u db = Inr (x, db') \<Longrightarrow> R db db'" for u db x db' 
    using users by (auto dest!: insert_user_Inr simp: keys_ok_def)
  have u2: "update_users P f db = Inr (x, db') \<Longrightarrow> R db db'" for P f db x db' 
    using users by (auto dest!: update_users_Inr simp: keys_ok_def simp del: map_map)
  have t1: "insert_token t db = Inr (x, db') \<Longrightarrow> R db db'" for t db x db' using token by (auto dest!: insert_token_Inr)
  have s1: "insert_session t db = Inr (x, db') \<Longrightarrow> R db db'" for t db x db' using session by (auto dest!: insert_session_Inr)
  have c1: "insert_credential t db = Inr (x, db') \<Longrightarrow> R db db'" for t db x db' using credentials by (auto dest!: insert_credential_Inr)
  have t2: "revoke_tokens P t db = Inr (x, db') \<Longrightarrow> R db db'" for P t db x db' using tokens by (auto simp: revoke_tokens_def)
  have s2: "revoke_sessions P t db = Inr (x, db') \<Longrightarrow> R db db'" for P t db x db' using sessions by (auto simp: revoke_sessions_def)
  note rows = u1 u2 t1 s1 c1 t2 s2
  have rid [keeps_intros]: "keeps R (revoke_identity F u t)" for F u t
    unfolding revoke_identity_def by (intro keeps_intros) (erule rows)+
  show "keeps R (SQL_BootstrapAdmin F now u a)" for F now u a
    unfolding SQL_BootstrapAdmin_def by (intro keeps_intros) (erule rows)+
  show "keeps R (CreateUserWithAudit F now u a)" for F now u a
    unfolding CreateUserWithAudit_def by (intro keeps_intros) (erule rows)+
  show "keeps R (UpdateUserSecurity F now u t i a)" for F now u t i a
    unfolding UpdateUserSecurity_def by (intro keeps_intros) (erule rows)+
  show "keeps R (ChangeUserPassword F now i t h a)" for F now i t h a
    unfolding ChangeUserPassword_def by (intro keeps_intros) (erule rows)+
  show "keeps R (RevokeDockerToken F now i t)" for F now i t
    unfolding RevokeDockerToken_def by (intro keeps_intros) (erule rows)+
  show "keeps R (RevokeDockerTokenWithAudit F u i t a)" for F u i t a
    unfolding RevokeDockerTokenWithAudit_def by (intro keeps_intros) (erule rows)+
  show "keeps R (CreateWebSession F now w)" for F now w
    unfolding CreateWebSession_def by (intro keeps_intros) (erule rows)+
  show "keeps R (RevokeWebSession F now i t)" for F now i t
    unfolding RevokeWebSession_def by (intro keeps_intros) (erule rows)+
  show "keeps R (SaveRegistryCredential F now c a)" for F now c a
    unfolding SaveRegistryCredential_def by (intro keeps_intros) (erule rows | auto intro: credentials)+
  show "keeps R (DeleteRegistryCredential F now u i a)" for F now u i a
    unfolding DeleteRegistryCredential_def by (intro keeps_intros) (auto simp: credentials)
  show "keeps R (RotateRegistryCredentialSecrets F now r a)" for F now r a
    unfolding RotateRegistryCredentialSecrets_def by (intro keeps_intros)
  show "keeps R (RecordAuditEvent F now a)" for F now a
    unfolding RecordAuditEvent_def by (intro keeps_intros)
  show "keeps R (CreateDockerTokenWithAudit F now t a)" for F now t a
    unfolding CreateDockerTokenWithAudit_def by (intro keeps_intros) (erule rows)+
qed

section \<open>Results of the combinators\<close>

lemma andthen_Inr: "andthen m k s = (Inr y, s') \<longleftrightarrow> (\<exists>x s1. m s = (Inr x, s1) \<and> k x s1 = (Inr y, s'))"
  by (auto simp: andthen_def split: sum.splits prod.splits)

lemma wrapping_Inr [simp]: "wrapping t m s = (Inr y, s') \<longleftrightarrow> m s = (Inr y, s')"
  by (auto simp: wrapping_def split: sum.splits prod.splits)

lemma otherwise_Inr [simp]: "otherwise e m s = (Inr y, s') \<longleftrightarrow> m s = (Inr y, s')"
  by (auto simp: otherwise_def split: sum.splits prod.splits)

lemma ret_Inr [simp]: "ret x s = (Inr y, s') \<longleftrightarrow> y = x \<and> s' = s"
  by (auto simp: ret_def)

lemma fail_Inr [simp]: "fail e s \<noteq> (Inr y, s')"
  by (simp add: fail_def)

lemma sql_Inr: "sql F f s = (Inr x, s') \<longleftrightarrow> F (snd s) = None \<and> snd s' = Suc (snd s) \<and> f (fst s) = Inr (x, fst s')"
  by (cases s') (auto simp: sql_def split: option.splits sum.splits)

lemma query_Inr: "query F f s = (Inr x, s') \<longleftrightarrow> F (snd s) = None \<and> s' = (fst s, Suc (snd s)) \<and> x = f (fst s)"
  by (cases s') (auto simp: query_def sql_Inr)

lemma after_check_passed:
  "after_check c m s = (x, s') \<Longrightarrow> fst s' \<noteq> fst s \<Longrightarrow> m s = (x, s')"
  by (cases c) (auto simp: after_check_def fail_def)

lemmas results = andthen_Inr sql_Inr query_Inr

section \<open>Enabled administrators\<close>

lemma keys_ok_split:
  assumes "keys_ok us" "u \<in> set us"
  obtains as bs where "us = as @ u # bs" "\<forall>v \<in> set as \<union> set bs. usr_ID v \<noteq> usr_ID u"
proof -
  obtain as bs where "us = as @ u # bs" using assms(2) by (meson split_list)
  moreover from this assms(1) have "\<forall>v \<in> set as \<union> set bs. usr_ID v \<noteq> usr_ID u"
    by (auto simp: keys_ok_def) (metis image_eqI)+
  ultimately show thesis by (rule that)
qed

definition same_users :: "SecDB \<Rightarrow> SecDB \<Rightarrow> bool" where
  "same_users db db' \<longleftrightarrow> t_users db' = t_users db"

lemma preorder_same_users [simp, intro]: "preorder same_users"
  by (auto simp: preorder_def same_users_def reflp_def transp_def)

lemma preorder_eq [simp, intro]: "preorder (=)"
  by (auto simp: preorder_def reflp_def transp_def)

lemma requireEnabledAdmin_keeps: "requireEnabledAdmin F u s = (x, s') \<Longrightarrow> fst s' = fst s"
  using keepsD [OF keeps_requireAdmin [OF preorder_eq]] by metis

lemma insertAuditEvent_users: "insertAuditEvent F a t s = (x, s') \<Longrightarrow> t_users (fst s') = t_users (fst s)"
  using keepsD [OF keeps_insertAudit [OF preorder_same_users]] by (auto simp: same_users_def)

lemma revoke_identity_users: "revoke_identity F u t s = (x, s') \<Longrightarrow> t_users (fst s') = t_users (fst s)"
proof -
  assume r: "revoke_identity F u t s = (x, s')"
  have "keeps same_users (revoke_identity F u t)"
    unfolding revoke_identity_def revoke_sessions_def revoke_tokens_def
    by (intro keeps_intros) (auto simp: same_users_def)
  from keepsD [OF this r] show ?thesis by (simp add: same_users_def)
qed

lemma transaction_body:
  assumes "transaction F b c body s = (res, s')" "fst s' \<noteq> fst s"
  obtains x n s2 where "body (fst s, n) = (Inr (True, x), s2)" "fst s' = fst s2" "res = Inr x"
  using assms(1)
proof (cases rule: transaction_cases)
  case (committed x s1 s2)
  then show ?thesis using that [of "snd s1" x s2] by (metis prod.collapse)
qed (use assms(2) in simp)

text \<open>What a committed security update has done to the users.\<close>

lemma UpdateUserSecurity_effect:
  assumes "UpdateUserSecurity F now0 user t inval a s = (res, s')" "fst s' \<noteq> fst s"
  shows "\<exists>cur. find (\<lambda>u. usr_ID u = usr_ID user) (t_users (fst s)) = Some cur \<and> usr_UpdatedAt cur = t
    \<and> (Enabled cur \<and> Access cur = UserAccessAdmin \<and> (\<not> Enabled user \<or> Access user \<noteq> UserAccessAdmin)
       \<longrightarrow> 1 < enabled_admins (fst s))
    \<and> t_users (fst s') = map (\<lambda>v. if usr_ID v = usr_ID user \<and> usr_UpdatedAt v = t
         then set_user user (nextUpdatedAt now0 t) v else v) (t_users (fst s))"
proof -
  note t = after_check_passed [OF after_check_passed [OF assms(1) [unfolded UpdateUserSecurity_def] assms(2)] assms(2)]
  show ?thesis
  proof (rule transaction_body [OF t assms(2)], goal_cases)
    case (1 x n s2)
    from 1(1) show ?case
      by (clarsimp simp: results Let_def 1(2), clarsimp simp: results Let_def split: option.splits,
          clarsimp simp: results Let_def split: if_splits)
         (auto dest!: requireEnabledAdmin_keeps revoke_identity_users insertAuditEvent_users update_users_Inr)
  qed
qed

lemma ChangeUserPassword_effect:
  assumes "ChangeUserPassword F now0 uid t h a s = (res, s')" "fst s' \<noteq> fst s"
  shows "t_users (fst s') = map (\<lambda>v. if usr_ID v = uid \<and> usr_UpdatedAt v = t
         then v\<lparr>PasswordHash := h, usr_UpdatedAt := nextUpdatedAt now0 t\<rparr> else v) (t_users (fst s))"
proof -
  let ?P = "\<lambda>u. usr_ID u = uid \<and> (au_ActorUserID a = [] \<and> au_ActorRole a = ''system''
         \<and> au_Action a = ''user.password_recovered'' \<or> Enabled u)"
  from assms obtain m where "after_check (validateAuditEvent a) m s = (res, s')"
    and m: "m = transaction F ''begin password change: %w'' ''commit password change: %w'' (
       andthen (query F (\<lambda>db. find ?P (t_users db))) (\<lambda>row.
       case row of None \<Rightarrow> ret (False, None)
       | Some user \<Rightarrow>
         if usr_UpdatedAt user \<noteq> t then fail (GoErr ''%w: user %q was modified'' [ErrConflict])
         else
         let now = nextUpdatedAt now0 (usr_UpdatedAt user) in
         andthen (sql F (update_users (\<lambda>r. usr_ID r = uid \<and> usr_UpdatedAt r = t)
             (\<lambda>r. r\<lparr>PasswordHash := h, usr_UpdatedAt := now\<rparr>))) (\<lambda>_.
         andthen (revoke_identity F uid now) (\<lambda>_.
         andthen (insertAuditEvent F a now) (\<lambda>_.
         ret (True, Some (user\<lparr>PasswordHash := h, usr_UpdatedAt := now\<rparr>)))))))"
    by (simp add: ChangeUserPassword_def Let_def fail_def split: if_splits)
  then have t: "m s = (res, s')" using assms(2) by (metis after_check_passed)
  show ?thesis
  proof (rule transaction_body [OF t [unfolded m] assms(2)], goal_cases)
    case (1 x n s2)
    from 1(1) show ?case
      by (clarsimp simp: results Let_def 1(2), clarsimp simp: results Let_def split: option.splits,
          clarsimp simp: results Let_def split: if_splits)
         (auto dest!: revoke_identity_users insertAuditEvent_users update_users_Inr)
  qed
qed

lemma CreateUserWithAudit_effect:
  assumes "CreateUserWithAudit F now u a s = (res, s')" "fst s' \<noteq> fst s"
  shows "\<exists>v. t_users (fst s') = t_users (fst s) @ [v]
    \<and> length (filter (\<lambda>x. usr_ID x = au_ActorUserID a \<and> Enabled x \<and> Access x = UserAccessAdmin) (t_users (fst s))) = 1"
proof -
  note t = after_check_passed [OF after_check_passed [OF assms(1) [unfolded CreateUserWithAudit_def] assms(2)] assms(2)]
  show ?thesis
  proof (rule transaction_body [OF t assms(2)], goal_cases)
    case (1 x n s2)
    from 1(1) show ?case
      by (clarsimp simp: results Let_def 1(2) requireEnabledAdmin_def, clarsimp split: if_splits)
         (auto dest!: insertAuditEvent_users insert_user_Inr)
  qed
qed

lemma BootstrapAdmin_effect:
  assumes "SQL_BootstrapAdmin F now u a s = (res, s')" "fst s' \<noteq> fst s"
  shows "t_users (fst s) = [] \<and> (\<exists>v. t_users (fst s') = [v] \<and> Enabled v \<and> Access v = UserAccessAdmin)"
proof -
  from after_check_passed [OF assms(1) [unfolded SQL_BootstrapAdmin_def] assms(2)] assms(2)
  have e: "Access u = UserAccessAdmin" "Enabled u" by (auto simp: fail_def split: if_splits)
  with after_check_passed [OF assms(1) [unfolded SQL_BootstrapAdmin_def] assms(2)]
  obtain m where m: "after_check (validateAuditEvent a) m s = (res, s')"
    "m = transaction F ''begin administrator bootstrap: %w'' ''commit administrator bootstrap: %w'' (
      andthen (wrapping ''count users for administrator bootstrap: %w'' (query F (\<lambda>db. length (t_users db)))) (\<lambda>n.
      if n \<noteq> 0 then fail (GoErr ''%w: administrator bootstrap has already completed'' [ErrConflict])
      else let user = u\<lparr>usr_CreatedAt := now, usr_UpdatedAt := now\<rparr> in
        andthen (wrapping ''insert bootstrap administrator: %w'' (sql F (insert_user user))) (\<lambda>_.
        andthen (insertAuditEvent F a now) (\<lambda>_. ret (True, Some user)))))" by auto
  note t = after_check_passed [OF m(1) assms(2), unfolded m(2)]
  show ?thesis
  proof (rule transaction_body [OF t assms(2)], goal_cases)
    case (1 x n s2)
    from 1(1) e show ?case
      by (clarsimp simp: results Let_def 1(2), clarsimp simp: results Let_def split: if_splits)
         (auto dest!: insertAuditEvent_users insert_user_Inr)
  qed
qed

section \<open>The administrators stay\<close>

definition users_inv :: "SecDB \<Rightarrow> bool" where
  "users_inv db \<longleftrightarrow> keys_ok (t_users db) \<and> (t_users db = [] \<or> 0 < enabled_admins db)"

lemma keeps_same_users [keeps_intros]:
  "keeps same_users (CreateDockerTokenWithAudit F now t a)"
  "keeps same_users (RevokeDockerToken F now i at)"
  "keeps same_users (RevokeDockerTokenWithAudit F u i at a)"
  "keeps same_users (CreateWebSession F now w)"
  "keeps same_users (RevokeWebSession F now i at)"
  "keeps same_users (SaveRegistryCredential F now c a)"
  "keeps same_users (DeleteRegistryCredential F now u i a)"
  "keeps same_users (RotateRegistryCredentialSecrets F now r a)"
  "keeps same_users (RecordAuditEvent F now a)"
proof -
  note [simp] = same_users_def
  note rows = insert_token_Inr insert_session_Inr insert_credential_Inr
  show "keeps same_users (CreateDockerTokenWithAudit F now t a)"
    unfolding CreateDockerTokenWithAudit_def by (intro keeps_intros) (auto dest!: rows)
  show "keeps same_users (RevokeDockerToken F now i at)" "keeps same_users (RevokeDockerTokenWithAudit F u i at a)"
    unfolding RevokeDockerToken_def RevokeDockerTokenWithAudit_def revoke_tokens_def by (intro keeps_intros; auto)+
  show "keeps same_users (CreateWebSession F now w)"
    unfolding CreateWebSession_def by (intro keeps_intros) (auto dest!: rows)
  show "keeps same_users (RevokeWebSession F now i at)"
    unfolding RevokeWebSession_def revoke_sessions_def by (intro keeps_intros) auto
  show "keeps same_users (SaveRegistryCredential F now c a)"
    unfolding SaveRegistryCredential_def by (intro keeps_intros) (auto dest!: rows)
  show "keeps same_users (DeleteRegistryCredential F now u i a)"
    unfolding DeleteRegistryCredential_def by (intro keeps_intros) auto
  show "keeps same_users (RotateRegistryCredentialSecrets F now r a)"
    unfolding RotateRegistryCredentialSecrets_def by (intro keeps_intros) auto
  show "keeps same_users (RecordAuditEvent F now a)"
    unfolding RecordAuditEvent_def by (intro keeps_intros) auto
qed

lemma keys_kept: "keys_ok (t_users (fst s)) \<Longrightarrow> keys_ok (t_users (fst (sec_step F now c s)))"
proof -
  have "preorder (\<lambda>db db'. keys_ok (t_users db) \<longrightarrow> keys_ok (t_users db'))"
    by (auto simp: preorder_def reflp_def transp_def)
  from keeps_operations [OF this, of s F now c] show "keys_ok (t_users (fst s)) \<Longrightarrow> ?thesis" by auto
qed

lemma count_update:
  assumes "keys_ok us" "find (\<lambda>u. usr_ID u = i) us = Some cur" "usr_UpdatedAt cur = t" "P cur \<longrightarrow> P (f cur) \<or> 1 < length (filter P us)"
    and "0 < length (filter P us)"
  shows "0 < length (filter P (map (\<lambda>v. if usr_ID v = i \<and> usr_UpdatedAt v = t then f v else v) us))"
proof -
  have c: "cur \<in> set us" "usr_ID cur = i" using assms(2) by (auto simp: find_Some_iff)
  from keys_ok_split [OF assms(1) c(1)] obtain as bs where
    us: "us = as @ cur # bs" "\<forall>v \<in> set as \<union> set bs. usr_ID v \<noteq> i" using c(2) by metis
  have m: "map (\<lambda>v. if usr_ID v = i \<and> usr_UpdatedAt v = t then f v else v) us = as @ f cur # bs"
    using us c(2) assms(3) by (auto intro!: map_idI)
  have "0 < length (filter P (as @ f cur # bs))" using assms(4,5) by (auto simp: us(1) split: if_splits)
  then show ?thesis by (simp only: m)
qed

lemma users_inv_step: "users_inv (fst s) \<Longrightarrow> users_inv (fst (sec_step F now c s))"
proof (cases "t_users (fst (sec_step F now c s)) = t_users (fst s)")
  case True
  then show "users_inv (fst s) \<Longrightarrow> ?thesis" by (simp add: users_inv_def enabled_admins_def)
next
  case False
  then have ne: "fst (sec_step F now c s) \<noteq> fst s" by auto
  assume i: "users_inv (fst s)"
  have k: "keys_ok (t_users (fst (sec_step F now c s)))" using i keys_kept by (simp add: users_inv_def)
  let ?A = "\<lambda>u. Enabled u \<and> Access u = UserAccessAdmin"
  have "t_users (fst (sec_step F now c s)) = [] \<or> 0 < enabled_admins (fst (sec_step F now c s))"
  proof (cases c)
    case (BootstrapCall u a)
    with ne BootstrapAdmin_effect [of F now u a s, OF surjective_pairing] show ?thesis
      by (auto simp: enabled_admins_def)
  next
    case (CreateUserCall u a)
    with ne CreateUserWithAudit_effect [of F now u a s, OF surjective_pairing] i show ?thesis
      by (auto simp: enabled_admins_def users_inv_def)
  next
    case (UpdateUserCall u t inval a)
    with ne have "fst (snd (UpdateUserSecurity F now u t inval a s)) \<noteq> fst s" by simp
    from UpdateUserSecurity_effect [OF surjective_pairing this] obtain cur where
      cur: "find (\<lambda>v. usr_ID v = usr_ID u) (t_users (fst s)) = Some cur" "usr_UpdatedAt cur = t"
      and g: "?A cur \<and> (\<not> Enabled u \<or> Access u \<noteq> UserAccessAdmin) \<longrightarrow> 1 < enabled_admins (fst s)"
      and us: "t_users (fst (sec_step F now c s)) = map (\<lambda>v. if usr_ID v = usr_ID u \<and> usr_UpdatedAt v = t
         then set_user u (nextUpdatedAt now t) v else v) (t_users (fst s))"
      using UpdateUserCall by auto
    have "t_users (fst s) \<noteq> []" using cur by auto
    then have "0 < enabled_admins (fst s)" using i by (simp add: users_inv_def)
    then show ?thesis unfolding enabled_admins_def us using i g
      by (intro disjI2 count_update [OF _ cur]) (auto simp: users_inv_def enabled_admins_def set_user_def)
  next
    case (PasswordCall uid t h a)
    with ne have "fst (snd (ChangeUserPassword F now uid t h a s)) \<noteq> fst s" by simp
    from ChangeUserPassword_effect [OF surjective_pairing this]
    have us: "t_users (fst (sec_step F now c s)) = map (\<lambda>v. if usr_ID v = uid \<and> usr_UpdatedAt v = t
         then v\<lparr>PasswordHash := h, usr_UpdatedAt := nextUpdatedAt now t\<rparr> else v) (t_users (fst s))"
      using PasswordCall by simp
    have "length (filter ?A (t_users (fst (sec_step F now c s)))) = length (filter ?A (t_users (fst s)))"
      unfolding us filter_map length_map by (rule arg_cong [of _ _ length]) (auto intro: filter_cong simp: comp_def)
    then show ?thesis using i us by (auto simp: users_inv_def enabled_admins_def)
  qed (use False keeps_same_users [THEN keeps_snd, of s] in \<open>simp_all add: same_users_def\<close>)
  with k show "users_inv (fst (sec_step F now c s))" by (simp add: users_inv_def)
qed

section \<open>Every call with an audit event is audited\<close>

fun audit_of :: "sec_call \<Rightarrow> AuditEvent option" where
  "audit_of (BootstrapCall u a) = Some a"
| "audit_of (CreateUserCall u a) = Some a"
| "audit_of (UpdateUserCall u t i a) = Some a"
| "audit_of (PasswordCall i t h a) = Some a"
| "audit_of (CreateTokenCall t a) = Some a"
| "audit_of (RevokeTokenForUserCall u i t a) = Some a"
| "audit_of (SaveCredentialCall c a) = Some a"
| "audit_of (DeleteCredentialCall u i a) = Some a"
| "audit_of (RotateSecretsCall r a) = Some a"
| "audit_of (RecordAuditCall a) = Some a"
| "audit_of _ = None"

lemma row_silent:
  "insert_user u db = Inr (x, db') \<Longrightarrow> silent db db'"
  "update_users P f db = Inr (n, db') \<Longrightarrow> silent db db'"
  "insert_token t db = Inr (x, db') \<Longrightarrow> silent db db'"
  "insert_credential c db = Inr (x, db') \<Longrightarrow> silent db db'"
  "revoke_tokens Q at db = Inr (n, db') \<Longrightarrow> silent db db'"
  "revoke_sessions W at db = Inr (n, db') \<Longrightarrow> silent db db'"
  by (auto simp: silent_def revoke_tokens_def revoke_sessions_def dest!: insert_user_Inr update_users_Inr insert_token_Inr insert_credential_Inr)

lemma keeps_silent_rows [keeps_intros]:
  "keeps silent (sql F (insert_user v))" "keeps silent (sql F (update_users P f))"
  "keeps silent (sql F (insert_token tk))" "keeps silent (sql F (insert_credential cr))"
  "keeps silent (sql F (revoke_tokens Q at))" "keeps silent (sql F (revoke_sessions W at))"
  by (rule keeps_sql [OF preorder_silent], erule row_silent)+

lemma keeps_silent_identity [keeps_intros]: "keeps silent (revoke_identity F u t)"
  unfolding revoke_identity_def by (intro keeps_intros preorder_silent)

lemma insertAuditEvent_audited: "audited e (fst s) (fst (snd (insertAuditEvent F e t s)))"
proof -
  obtain x s' where i: "insertAuditEvent F e t s = (x, s')" by (metis surj_pair)
  show ?thesis
  proof (cases x)
    case (Inl err)
    with i show ?thesis
      by (auto simp: insertAuditEvent_def Let_def wrapping_def sql_def audited_def split: option.splits sum.splits prod.splits)
  next
    case (Inr row)
    with i show ?thesis by (auto simp: audited_def dest!: insertAuditEvent_Inr)
  qed
qed

lemma audited_step: "audit_of c = Some a \<Longrightarrow> audited a (fst s) (fst (sec_step F now c s))"
proof (cases c)
  case (RecordAuditCall e)
  assume "audit_of c = Some a"
  moreover note insertAuditEvent_audited
  ultimately show ?thesis using RecordAuditCall by (auto simp: RecordAuditEvent_def intro!: audited_check)
next
  case (BootstrapCall u e)
  assume "audit_of c = Some a"
  with BootstrapCall show ?thesis
    unfolding sec_step.simps SQL_BootstrapAdmin_def
    by (auto simp: SQL_BootstrapAdmin_def fail_def
        intro!: audited_check audited_transaction logs_intros keeps_intros preorder_silent)
next
  case (CreateUserCall u e)
  assume "audit_of c = Some a"
  with CreateUserCall show ?thesis
    by (auto simp: CreateUserWithAudit_def intro!: audited_check audited_transaction logs_intros keeps_intros preorder_silent)
next
  case (UpdateUserCall u t i e)
  assume "audit_of c = Some a"
  with UpdateUserCall show ?thesis
    by (auto simp: UpdateUserSecurity_def intro!: audited_check audited_transaction logs_intros keeps_intros preorder_silent)
next
  case (PasswordCall i t h e)
  assume "audit_of c = Some a"
  with PasswordCall show ?thesis
    by (auto simp: ChangeUserPassword_def fail_def
        intro!: audited_check audited_transaction logs_intros keeps_intros preorder_silent)
next
  case (CreateTokenCall t e)
  assume "audit_of c = Some a"
  with CreateTokenCall show ?thesis
    by (auto simp: CreateDockerTokenWithAudit_def fail_def
        intro!: audited_check audited_transaction logs_intros keeps_intros preorder_silent)
next
  case (RevokeTokenForUserCall u i t e)
  assume "audit_of c = Some a"
  with RevokeTokenForUserCall show ?thesis
    by (auto simp: RevokeDockerTokenWithAudit_def intro!: audited_check audited_transaction logs_intros keeps_intros preorder_silent)
next
  case (SaveCredentialCall cr e)
  assume "audit_of c = Some a"
  with SaveCredentialCall show ?thesis
    by (auto simp: SaveRegistryCredential_def silent_def intro!: audited_check audited_transaction logs_intros keeps_intros preorder_silent)
next
  case (DeleteCredentialCall u i e)
  assume "audit_of c = Some a"
  with DeleteCredentialCall show ?thesis
    by (auto simp: DeleteRegistryCredential_def silent_def intro!: audited_check audited_transaction logs_intros keeps_intros preorder_silent)
next
  case (RotateSecretsCall r e)
  assume "audit_of c = Some a"
  with RotateSecretsCall show ?thesis
    by (auto simp: RotateRegistryCredentialSecrets_def silent_def intro!: audited_check audited_transaction logs_intros keeps_intros preorder_silent)
qed simp_all

end
