(* ===== verification/SQLite_Security_Properties.thy ===== *)
theory SQLite_Security_Properties
  imports SQLite_Invariants
begin

text \<open>
  Properties of the security tables: an enabled administrator remains, the audit log is complete
  and append-only, and revocations are final, for all sequences of calls with any failures.
\<close>

section \<open>Administrators\<close>

text \<open>
  C9: in every database that the program's calls reach from an empty one,
  user identifiers and user names are unique, and once there is a user there is an enabled
  administrator; no update can disable or demote the last one.
\<close>

theorem administrator_remains:
  assumes "sec_reach empty_db db"
  shows "distinct (map usr_ID (t_users db)) \<and> distinct (map Username (t_users db))
    \<and> (t_users db = [] \<or> (\<exists>u \<in> set (t_users db). Enabled u \<and> Access u = UserAccessAdmin))"
proof -
  have "preorder (\<lambda>db db'. users_inv db \<longrightarrow> users_inv db')" by (auto simp: preorder_def reflp_def transp_def)
  from sec_reach_keeps [OF assms this] have "users_inv empty_db \<longrightarrow> users_inv db" using users_inv_step by blast
  then have "users_inv db" by (simp add: users_inv_def empty_db_def keys_ok_def)
  then show ?thesis by (auto simp: users_inv_def keys_ok_def enabled_admins_def filter_empty_conv)
qed

definition wx_admin :: User where
  "wx_admin = \<lparr>usr_ID = ''1'', Username = ''root'', PasswordHash = ''h'', DisplayName = [], Email = [],
     Access = UserAccessAdmin, Enabled = True, usr_CreatedAt = 0, usr_UpdatedAt = 0\<rparr>"

definition wx_audit :: "string \<Rightarrow> string \<Rightarrow> AuditEvent" where
  "wx_audit actor action = \<lparr>au_ID = 0, au_Timestamp = 0, au_ActorUserID = actor, au_ActorRole = ''user'', au_Action = action,
     au_TargetType = ''user'', au_TargetID = ''1'', au_Outcome = ''success'', au_CorrelationID = [], au_RemoteAddress = [],
     au_Details = []\<rparr>"

definition wx_db :: SecDB where
  "wx_db = fst (sec_step (\<lambda>_. None) 5 (BootstrapCall wx_admin (wx_audit [] ''boot'')) (empty_db, 0))"

lemma wx_db_reach: "sec_reach empty_db wx_db"
  unfolding wx_db_def by (rule sec_reach.call [OF sec_reach.start])

lemma wx_db_user: "map usr_ID (t_users wx_db) = [''1'']"
  by code_simp

theorem administrator_remains_witness: "\<exists>u \<in> set (t_users wx_db). Enabled u \<and> Access u = UserAccessAdmin"
proof -
  have "t_users wx_db \<noteq> []" using wx_db_user by auto
  then show ?thesis using administrator_remains [OF wx_db_reach] by simp
qed

section \<open>The audit log\<close>

definition numbered :: "SecDB \<Rightarrow> bool" where
  "numbered db \<longleftrightarrow> t_audit_seq db = int (length (t_audit db)) \<and> map au_ID (t_audit db) = map int [1..<Suc (length (t_audit db))]"

lemma numbered_step: "(numbered (fst s) \<longrightarrow> numbered (fst (sec_step F now c s))) \<and> prefix (t_audit (fst s)) (t_audit (fst (sec_step F now c s)))"
  by (rule keeps_operations [where R = "\<lambda>db db'. (numbered db \<longrightarrow> numbered db') \<and> prefix (t_audit db) (t_audit db')"])
     (auto simp: preorder_def reflp_def transp_def numbered_def intro: prefix_order.trans)

text \<open>
  C24: in every reachable database the audit rows are numbered 1, 2, 3, and
  so on; a call never changes or removes a row; and a call that carries an audit event either
  leaves the whole database as it was or has appended exactly one row, the event it carries:
  creating or changing users, passwords, tokens or credentials is atomic with its audit record.
\<close>

theorem audit_trail_complete:
  assumes "sec_reach empty_db db" and "db' = fst (sec_step F now c (db, n))"
  shows "map au_ID (t_audit db) = map int [1..<Suc (length (t_audit db))]
    \<and> prefix (t_audit db) (t_audit db')
    \<and> (case audit_of c of None \<Rightarrow> True
       | Some a \<Rightarrow> db' = db \<or> (\<exists>row. t_audit db' = t_audit db @ [row] \<and> au_ID row = int (length (t_audit db)) + 1
           \<and> row = a\<lparr>au_ID := au_ID row, au_Timestamp := au_Timestamp row\<rparr>))"
proof -
  have "preorder (\<lambda>db db'. numbered db \<longrightarrow> numbered db')" by (auto simp: preorder_def reflp_def transp_def)
  from sec_reach_keeps [OF assms(1) this] numbered_step have "numbered empty_db \<longrightarrow> numbered db" by blast
  then have n: "numbered db" by (simp add: numbered_def empty_db_def)
  have n': "numbered db'" "prefix (t_audit db) (t_audit db')"
    using numbered_step [of "(db, n)" F now c] n assms(2) by auto
  have "db' = db \<or> (\<exists>row. t_audit db' = t_audit db @ [row] \<and> au_ID row = int (length (t_audit db)) + 1
      \<and> row = a\<lparr>au_ID := au_ID row, au_Timestamp := au_Timestamp row\<rparr>)" if a: "audit_of c = Some a" for a
  proof -
    have "audited a db db'" using audited_step [OF a, of "(db, n)" F now] assms(2) by simp
    then show ?thesis using n'(1) by (auto simp: audited_def numbered_def written_for_def)
  qed
  then show ?thesis using n n' by (auto simp: numbered_def split: option.split)
qed

theorem audit_trail_complete_witness:
  "prefix (t_audit wx_db) (t_audit (fst (sec_step (\<lambda>_. None) 6 (CreateUserCall (wx_admin\<lparr>usr_ID := ''2''\<rparr>) (wx_audit ''1'' ''new'')) (wx_db, 0))))"
  using audit_trail_complete [OF wx_db_reach refl, where c = "CreateUserCall (wx_admin\<lparr>usr_ID := ''2''\<rparr>) (wx_audit ''1'' ''new'')"]
  by simp

section \<open>Revocation\<close>

text \<open>Every row is still there, changed in its revocation time at most, and not at all when it
  was revoked.\<close>

definition rows_stay :: "('a \<Rightarrow> time) \<Rightarrow> (time \<Rightarrow> 'a \<Rightarrow> 'a) \<Rightarrow> 'a list \<Rightarrow> 'a list \<Rightarrow> bool" where
  "rows_stay rvk upd xs ys \<longleftrightarrow> (\<forall>x \<in> set xs. \<exists>y \<in> set ys. (\<exists>r. y = upd r x) \<and> (rvk x \<noteq> 0 \<longrightarrow> y = x))"

lemma rows_stay_trans:
  assumes "\<And>r r' x. upd r (upd r' x) = upd r x" "rows_stay rvk upd xs ys" "rows_stay rvk upd ys zs"
  shows "rows_stay rvk upd xs zs"
  unfolding rows_stay_def
proof
  fix x assume "x \<in> set xs"
  with assms(2) obtain y r where y: "y \<in> set ys" "y = upd r x" "rvk x \<noteq> 0 \<longrightarrow> y = x" unfolding rows_stay_def by blast
  with assms(3) obtain z r' where z: "z \<in> set zs" "z = upd r' y" "rvk y \<noteq> 0 \<longrightarrow> z = y" unfolding rows_stay_def by blast
  then show "\<exists>z \<in> set zs. (\<exists>r. z = upd r x) \<and> (rvk x \<noteq> 0 \<longrightarrow> z = x)" using y assms(1) by metis
qed

abbreviation tokens_stay :: "SecDB \<Rightarrow> SecDB \<Rightarrow> bool" where
  "tokens_stay db db' \<equiv> rows_stay dt_RevokedAt (\<lambda>r t. t\<lparr>dt_RevokedAt := r\<rparr>) (t_tokens db) (t_tokens db')"

abbreviation sessions_stay :: "SecDB \<Rightarrow> SecDB \<Rightarrow> bool" where
  "sessions_stay db db' \<equiv> rows_stay ws_RevokedAt (\<lambda>r w. w\<lparr>ws_RevokedAt := r\<rparr>) (t_sessions db) (t_sessions db')"

lemma rows_stay_refl: "(\<And>x. upd (rvk x) x = x) \<Longrightarrow> set xs \<subseteq> set ys \<Longrightarrow> rows_stay rvk upd xs ys"
  unfolding rows_stay_def by (metis subsetD)

lemma rows_stay_map:
  "(\<And>x. upd (rvk x) x = x) \<Longrightarrow> rows_stay rvk upd xs (map (\<lambda>x. if P x \<and> rvk x = 0 then upd at x else x) xs)"
  unfolding rows_stay_def set_map
  by (intro ballI, rule_tac x = "if P x \<and> rvk x = 0 then upd at x else x" in bexI) (auto intro: exI [of _ "rvk _"] sym)

lemma preorder_stay: "preorder (\<lambda>db db'. tokens_stay db db' \<and> sessions_stay db db')"
proof -
  have t: "tokens_stay a b \<Longrightarrow> tokens_stay b c \<Longrightarrow> tokens_stay a c" for a b c by (erule rows_stay_trans [rotated]) auto
  have w: "sessions_stay a b \<Longrightarrow> sessions_stay b c \<Longrightarrow> sessions_stay a c" for a b c by (erule rows_stay_trans [rotated]) auto
  have "reflp (\<lambda>db db'. tokens_stay db db' \<and> sessions_stay db db')" by (intro reflpI conjI rows_stay_refl) auto
  moreover have "transp (\<lambda>db db'. tokens_stay db db' \<and> sessions_stay db db')" by (rule transpI) (blast intro: t w)
  ultimately show ?thesis by (simp add: preorder_def)
qed

text \<open>
  Tokens and sessions never leave their tables; no call changes the
  owner, the hash or the expiry of one, and a revoked one is never changed at all.
\<close>

theorem revocation_is_final:
  assumes "sec_reach db db'"
  shows "(\<forall>t \<in> set (t_tokens db). \<exists>t' \<in> set (t_tokens db'). (\<exists>r. t' = t\<lparr>dt_RevokedAt := r\<rparr>) \<and> (dt_RevokedAt t \<noteq> 0 \<longrightarrow> t' = t))
    \<and> (\<forall>w \<in> set (t_sessions db). \<exists>w' \<in> set (t_sessions db'). (\<exists>r. w' = w\<lparr>ws_RevokedAt := r\<rparr>) \<and> (ws_RevokedAt w \<noteq> 0 \<longrightarrow> w' = w))"
proof -
  have "tokens_stay db db' \<and> sessions_stay db db'"
    by (rule sec_reach_keeps [OF assms preorder_stay], rule keeps_operations [OF preorder_stay])
       (auto intro: rows_stay_refl rows_stay_map)
  then show ?thesis unfolding rows_stay_def .
qed

definition wx_token :: DockerToken where
  "wx_token = \<lparr>dt_ID = ''t'', dt_UserID = ''1'', dt_Label = [], dt_TokenHash = replicate 32 (CHR ''h''),
     dt_CreatedAt = 5, dt_ExpiresAt = 100, dt_RevokedAt = 7, dt_LastUsed = 0\<rparr>"

theorem revocation_is_final_witness:
  "wx_token \<in> set (t_tokens (fst (sec_step (\<lambda>_. None) 9 (RevokeTokenCall ''t'' 9) (wx_db\<lparr>t_tokens := [wx_token]\<rparr>, 0))))"
proof -
  let ?db = "wx_db\<lparr>t_tokens := [wx_token]\<rparr>"
  have "sec_reach ?db (fst (sec_step (\<lambda>_. None) 9 (RevokeTokenCall ''t'' 9) (?db, 0)))"
    by (rule sec_reach.call [OF sec_reach.start])
  from revocation_is_final [OF this] have "dt_RevokedAt wx_token \<noteq> 0 \<longrightarrow> ?thesis" by auto
  then show ?thesis by (simp add: wx_token_def)
qed

end
