(* ===== verification/SQLite_Repository.thy ===== *)
theory SQLite_Repository
  imports SQLite_Invariants
begin

text \<open>
  Request events, provenance, tag mappings and cache bindings in SQLite
  (internal/metadata/sqlite_repository.go, sqlite_cache_bindings.go), with the statements and
  transactions of SQLite_Security. Rows are kept in insertion order with the identifiers that
  AUTOINCREMENT gives; a WHERE clause is the conjunction of the conditions the code adds. The
  JSON text of a column is encoded and decoded by a parameter. ctx.Err() is one of the failures.
\<close>

section \<open>Tables\<close>

record JsonColumns =
  jc_Explanation :: "explanation list \<Rightarrow> string result"
  jc_readExplanation :: "string \<Rightarrow> explanation list result"
  jc_Digests :: "string list \<Rightarrow> string result"
  jc_readDigests :: "string \<Rightarrow> string list result"

text \<open>A row keeps the JSON text beside the record, whose own field is left empty.\<close>

record EventRow =
  er_event :: RequestEvent
  er_explanation_json :: string

record TagRow =
  tr_mapping :: TagMapping
  tr_blob_digests_json :: string

record MetaDB =
  t_events :: "EventRow list"
  t_event_seq :: int
  t_provenance :: "(int \<times> ProvenanceRecord) list"
  t_provenance_seq :: int
  t_tags :: "TagRow list"
  t_bindings :: "CacheBinding list"

type_synonym 'a metam = "(MetaDB, 'a) dbm"

definition empty_meta :: MetaDB where
  "empty_meta = \<lparr>t_events = [], t_event_seq = 0, t_provenance = [], t_provenance_seq = 0, t_tags = [], t_bindings = []\<rparr>"

definition ctx_err :: "SqlFaults \<Rightarrow> (MetaDB, unit) dbm" where
  "ctx_err F = query F (\<lambda>_. ())"

text \<open>A step of the method that does not touch the database.\<close>

definition lift_result :: "'a result \<Rightarrow> ('d, 'a) dbm" where
  "lift_result r = (case r of Inl e \<Rightarrow> fail e | Inr x \<Rightarrow> ret x)"

fun map_result :: "('a \<Rightarrow> 'b result) \<Rightarrow> 'a list \<Rightarrow> 'b list result" where
  "map_result f [] = Inr []"
| "map_result f (x # xs) = (case f x of Inl e \<Rightarrow> Inl e
     | Inr y \<Rightarrow> (case map_result f xs of Inl e \<Rightarrow> Inl e | Inr ys \<Rightarrow> Inr (y # ys)))"

section \<open>Request events\<close>

definition SQL_RecordRequestEvent :: "SqlFaults \<Rightarrow> JsonColumns \<Rightarrow> time \<Rightarrow> RequestEvent \<Rightarrow> unit metam" where
  "SQL_RecordRequestEvent F jc now event =
    andthen (ctx_err F) (\<lambda>_. after_check (validateRequestEvent event) (
    let event = (if IsZero (ev_Timestamp event) then event\<lparr>ev_Timestamp := now\<rparr> else event) in
    andthen (wrapping ''encode request explanation: %w'' (lift_result (jc_Explanation jc (ev_Explanation event)))) (\<lambda>json.
    wrapping ''insert request event: %w'' (sql F (\<lambda>db.
      let n = t_event_seq db + 1 in
      Inr ((), db\<lparr>t_event_seq := n, t_events := t_events db @
        [\<lparr>er_event = event\<lparr>ev_ID := n, ev_Explanation := []\<rparr>, er_explanation_json = json\<rparr>]\<rparr>))))))"

text \<open>The conditions of the filter and of the cursor.\<close>

definition event_conditions :: "RequestEventFilter \<Rightarrow> (RequestEvent \<Rightarrow> bool) list" where
  "event_conditions f =
    (if f_ClientIdentity f \<noteq> [] then [\<lambda>e. ev_ClientIdentity e = f_ClientIdentity f] else [])
    @ (if f_CredentialSource f \<noteq> [] then [\<lambda>e. ev_CredentialSource e = f_CredentialSource f] else [])
    @ (if f_Route f \<noteq> [] then [\<lambda>e. ev_MatchedRoute e = f_Route f] else [])
    @ (if f_Operation f \<noteq> [] then [\<lambda>e. ev_Operation e = f_Operation f] else [])
    @ (if f_SourceOrDestination f \<noteq> [] then [\<lambda>e. ev_SourceOrDestination e = f_SourceOrDestination f] else [])
    @ (if f_Status f \<noteq> [] then [\<lambda>e. ev_Status e = f_Status f] else [])
    @ (if f_CacheResult f \<noteq> [] then [\<lambda>e. ev_CacheResult e = f_CacheResult f] else [])
    @ (if f_ErrorClassification f \<noteq> [] then [\<lambda>e. ev_ErrorClassification e = f_ErrorClassification f] else [])
    @ (if f_ReferenceContains f \<noteq> [] then [\<lambda>e. Contains (ev_LogicalReference e) (f_ReferenceContains f)] else [])
    @ (if \<not> IsZero (f_After f) then [\<lambda>e. ev_Timestamp e \<ge> f_After f] else [])
    @ (if \<not> IsZero (f_Before f) then [\<lambda>e. ev_Timestamp e < f_Before f] else [])"

definition cursor_conditions :: "RequestEventQuery \<Rightarrow> (RequestEvent \<Rightarrow> bool) list" where
  "cursor_conditions q =
    (case q_Cursor q of None \<Rightarrow> []
     | Some c \<Rightarrow>
       if q_OldestFirst q
       then [\<lambda>e. ev_Timestamp e > cur_Timestamp c \<or> ev_Timestamp e = cur_Timestamp c \<and> ev_ID e > cur_ID c]
       else [\<lambda>e. ev_Timestamp e < cur_Timestamp c \<or> ev_Timestamp e = cur_Timestamp c \<and> ev_ID e < cur_ID c])"

definition where_all :: "('a \<Rightarrow> bool) list \<Rightarrow> 'a \<Rightarrow> bool" where
  "where_all cs x \<longleftrightarrow> list_all (\<lambda>c. c x) cs"

text \<open>ORDER BY timestamp_nanos, id; identifiers are unique, so the order is total.\<close>

definition order_events :: "bool \<Rightarrow> EventRow list \<Rightarrow> EventRow list" where
  "order_events oldestFirst rows =
    (if oldestFirst then sort_key (\<lambda>r. ev_Timestamp (er_event r)) (sort_key (\<lambda>r. ev_ID (er_event r)) rows)
     else sort_key (\<lambda>r. - ev_Timestamp (er_event r)) (sort_key (\<lambda>r. - ev_ID (er_event r)) rows))"

definition decode_event :: "JsonColumns \<Rightarrow> EventRow \<Rightarrow> RequestEvent result" where
  "decode_event jc row =
    (case jc_readExplanation jc (er_explanation_json row) of
       Inl e \<Rightarrow> Inl (wrapf ''decode request explanation: %w'' e)
     | Inr ex \<Rightarrow> Inr ((er_event row)\<lparr>ev_Explanation := ex\<rparr>))"

definition SQL_QueryRequestEvents :: "SqlFaults \<Rightarrow> JsonColumns \<Rightarrow> RequestEventQuery \<Rightarrow> RequestEventPage metam" where
  "SQL_QueryRequestEvents F jc q =
    andthen (ctx_err F) (\<lambda>_.
    if q_Limit q < 0 then fail (invalid ''negative request event limit'')
    else
    andthen (wrapping ''query request events: %w'' (query F (\<lambda>db.
        let rows = order_events (q_OldestFirst q)
              (filter (\<lambda>r. where_all (event_conditions (q_Filter q) @ cursor_conditions q) (er_event r)) (t_events db)) in
        if q_Limit q > 0 then take (nat (q_Limit q + 1)) rows else rows))) (\<lambda>rows.
    andthen (lift_result (map_result (decode_event jc) rows)) (\<lambda>evs.
    let hasMore = q_Limit q > 0 \<and> int (length evs) > q_Limit q;
        evs = (if hasMore then take (nat (q_Limit q)) evs else evs) in
    ret \<lparr>Events = evs,
         Next = (if hasMore \<and> length evs > 0
                 then Some \<lparr>cur_Timestamp = ev_Timestamp (last evs), cur_ID = ev_ID (last evs)\<rparr> else None)\<rparr>)))"

definition SQL_ListRecentRequestEvents :: "SqlFaults \<Rightarrow> JsonColumns \<Rightarrow> int \<Rightarrow> RequestEvent list metam" where
  "SQL_ListRecentRequestEvents F jc limit =
    andthen (SQL_QueryRequestEvents F jc \<lparr>q_Filter = no_filter, q_Limit = limit, q_Cursor = None, q_OldestFirst = False\<rparr>)
      (\<lambda>page. ret (Events page))"

definition SQL_CountRequestEvents :: "SqlFaults \<Rightarrow> RequestEventFilter \<Rightarrow> int metam" where
  "SQL_CountRequestEvents F f = wrapping ''count request events: %w'' (query F (\<lambda>db.
     int (length (filter (\<lambda>r. where_all (event_conditions f) (er_event r)) (t_events db)))))"

definition SQL_FindRequestEventByID :: "SqlFaults \<Rightarrow> JsonColumns \<Rightarrow> int \<Rightarrow> RequestEvent option metam" where
  "SQL_FindRequestEventByID F jc i =
    (if i \<le> 0 then fail (invalid ''invalid request event id'')
     else
     andthen (wrapping ''find request event: %w'' (query F (\<lambda>db. find (\<lambda>r. ev_ID (er_event r) = i) (t_events db)))) (\<lambda>row.
     case row of None \<Rightarrow> ret None
     | Some r \<Rightarrow> lift_result (case decode_event jc r of Inl e \<Rightarrow> Inl e | Inr ev \<Rightarrow> Inr (Some ev))))"

text \<open>COALESCE(SUM(condition), 0).\<close>

definition sum_where :: "('a \<Rightarrow> bool) \<Rightarrow> 'a list \<Rightarrow> int" where
  "sum_where P rows = sum_list (map (\<lambda>r. if P r then 1 else 0) rows)"

definition SQL_SummarizeRequestEvents :: "SqlFaults \<Rightarrow> time \<Rightarrow> RequestEventSummary metam" where
  "SQL_SummarizeRequestEvents F after =
    andthen (ctx_err F) (\<lambda>_.
    andthen (wrapping ''summarize request events: %w'' (query F (\<lambda>db.
        let rows = map er_event (filter (\<lambda>r. ev_Timestamp (er_event r) \<ge> after) (t_events db)) in
        \<lparr>Total = int (length rows),
         Errors = sum_where (\<lambda>e. ev_Status e = ''error'') rows,
         DeniedPushes = sum_where (\<lambda>e. ev_Status e = ''denied'' \<and> ev_Operation e = ''push'') rows,
         AuthFailures = sum_where (\<lambda>e. ev_ErrorClassification e = ''upstream_authentication_failed'') rows,
         CacheHits = sum_where (\<lambda>e. ev_CacheResult e = ''hit'') rows,
         CacheMisses = sum_where (\<lambda>e. ev_CacheResult e = ''miss'') rows, Average = 0, P95 = 0\<rparr>))) (\<lambda>summary.
    andthen (wrapping ''query request durations: %w'' (query F (\<lambda>db.
        sort (filter (\<lambda>d. d > 0) (map (\<lambda>r. ev_Duration (er_event r))
          (filter (\<lambda>r. ev_Timestamp (er_event r) \<ge> after) (t_events db))))))) (\<lambda>durations.
    ret (summary\<lparr>Average := fst (summarizeDurations durations), P95 := snd (summarizeDurations durations)\<rparr>))))"

section \<open>Provenance\<close>

definition SQL_RecordProvenance :: "SqlFaults \<Rightarrow> time \<Rightarrow> ProvenanceRecord \<Rightarrow> unit metam" where
  "SQL_RecordProvenance F now record =
    andthen (ctx_err F) (\<lambda>_. after_check (validateProvenanceRecord record) (
    let record = (if IsZero (RetrievedAt record) then record\<lparr>RetrievedAt := now\<rparr> else record) in
    wrapping ''insert provenance record: %w'' (sql F (\<lambda>db. let n = t_provenance_seq db + 1 in
      Inr ((), db\<lparr>t_provenance_seq := n, t_provenance := t_provenance db @ [(n, record)]\<rparr>)))))"

text \<open>ORDER BY retrieved_at_nanos DESC, id DESC LIMIT 1.\<close>

definition SQL_FindProvenance :: "SqlFaults \<Rightarrow> string \<Rightarrow> ProvenanceRecord option metam" where
  "SQL_FindProvenance F logicalReference =
    andthen (ctx_err F) (\<lambda>_. wrapping ''find provenance record: %w'' (query F (\<lambda>db.
      case sort_key (\<lambda>(n, p). - RetrievedAt p) (sort_key (\<lambda>(n, p). - n)
             (filter (\<lambda>(n, p). pv_LogicalReference p = logicalReference) (t_provenance db))) of
        [] \<Rightarrow> None | (n, p) # _ \<Rightarrow> Some p)))"

section \<open>Tag mappings\<close>

definition same_tag :: "string \<Rightarrow> string \<Rightarrow> TagRow \<Rightarrow> bool" where
  "same_tag repo tag row \<longleftrightarrow> tm_LogicalRepository (tr_mapping row) = repo \<and> tm_Tag (tr_mapping row) = tag"

text \<open>INSERT with ON CONFLICT DO UPDATE: every column but the key is replaced.\<close>

definition upsert_tag :: "TagRow \<Rightarrow> TagRow list \<Rightarrow> TagRow list" where
  "upsert_tag row rows =
    (let here = same_tag (tm_LogicalRepository (tr_mapping row)) (tm_Tag (tr_mapping row)) in
     if list_ex here rows then map (\<lambda>r. if here r then row else r) rows else rows @ [row])"

definition SQL_RecordTagMapping :: "SqlFaults \<Rightarrow> JsonColumns \<Rightarrow> time \<Rightarrow> TagMapping \<Rightarrow> unit metam" where
  "SQL_RecordTagMapping F jc now m =
    andthen (ctx_err F) (\<lambda>_. after_check (validateTagMapping m) (
    let m = (if IsZero (ResolvedAt m) then m\<lparr>ResolvedAt := now\<rparr> else m);
        m = (if IsZero (LastValidatedAt m) then m\<lparr>LastValidatedAt := ResolvedAt m\<rparr> else m) in
    andthen (wrapping ''encode tag mapping blob digests: %w'' (lift_result (jc_Digests jc (tm_BlobDigests m)))) (\<lambda>json.
    wrapping ''upsert tag mapping: %w'' (sql F (\<lambda>db. Inr ((), db\<lparr>t_tags :=
      upsert_tag \<lparr>tr_mapping = m\<lparr>tm_BlobDigests := []\<rparr>, tr_blob_digests_json = json\<rparr> (t_tags db)\<rparr>))))))"

definition scanTagMapping :: "JsonColumns \<Rightarrow> TagRow \<Rightarrow> TagMapping result" where
  "scanTagMapping jc row =
    (case jc_readDigests jc (tr_blob_digests_json row) of Inl e \<Rightarrow> Inl e
     | Inr ds \<Rightarrow> Inr ((tr_mapping row)\<lparr>tm_BlobDigests := ds\<rparr>))"

definition SQL_FindTagMapping :: "SqlFaults \<Rightarrow> JsonColumns \<Rightarrow> string \<Rightarrow> string \<Rightarrow> TagMapping option metam" where
  "SQL_FindTagMapping F jc repo tag =
    andthen (ctx_err F) (\<lambda>_.
    andthen (wrapping ''find tag mapping: %w'' (query F (\<lambda>db. find (same_tag repo tag) (t_tags db)))) (\<lambda>row.
    case row of None \<Rightarrow> ret None
    | Some r \<Rightarrow> wrapping ''find tag mapping: %w'' (lift_result
        (case scanTagMapping jc r of Inl e \<Rightarrow> Inl e | Inr m \<Rightarrow> Inr (Some m)))))"

definition SQL_ListTagMappings :: "SqlFaults \<Rightarrow> JsonColumns \<Rightarrow> TagMapping list metam" where
  "SQL_ListTagMappings F jc =
    andthen (ctx_err F) (\<lambda>_.
    andthen (wrapping ''list tag mappings: %w'' (query F (\<lambda>db.
        sort_key (\<lambda>r. tm_LogicalRepository (tr_mapping r)) (sort_key (\<lambda>r. tm_Tag (tr_mapping r)) (t_tags db))))) (\<lambda>rows.
    wrapping ''scan tag mapping: %w'' (lift_result (map_result (scanTagMapping jc) rows))))"

section \<open>Cache bindings\<close>

definition same_key :: "CacheBinding \<Rightarrow> CacheBinding \<Rightarrow> bool" where
  "same_key b c \<longleftrightarrow> cb_LogicalRepository c = cb_LogicalRepository b \<and> cb_Route c = cb_Route b
     \<and> cb_Source c = cb_Source b \<and> cb_ManifestDigest c = cb_ManifestDigest b
     \<and> cb_ObjectDigest c = cb_ObjectDigest b \<and> cb_Access c = cb_Access b \<and> cb_UserID c = cb_UserID b"

definition upsert_binding :: "time \<Rightarrow> CacheBinding \<Rightarrow> CacheBinding list \<Rightarrow> CacheBinding list" where
  "upsert_binding now b rows =
    (if list_ex (same_key b) rows
     then map (\<lambda>c. if same_key b c
       then c\<lparr>cb_PhysicalRepository := cb_PhysicalRepository b, cb_ObjectKind := cb_ObjectKind b,
              cb_UpdatedAt := (if cb_UpdatedAt c \<ge> now then cb_UpdatedAt c + 1 else now)\<rparr> else c) rows
     else rows @ [b\<lparr>cb_CreatedAt := now, cb_UpdatedAt := now\<rparr>])"

fun save_bindings :: "SqlFaults \<Rightarrow> time \<Rightarrow> CacheBinding list \<Rightarrow> unit metam" where
  "save_bindings F now [] = ret ()"
| "save_bindings F now (b # bs) =
     andthen (wrapping ''save cache binding: %w'' (sql F (\<lambda>db. Inr ((), db\<lparr>t_bindings := upsert_binding now b (t_bindings db)\<rparr>))))
       (\<lambda>_. save_bindings F now bs)"

definition SQL_RecordCacheBindings :: "SqlFaults \<Rightarrow> time \<Rightarrow> CacheBinding list \<Rightarrow> unit metam" where
  "SQL_RecordCacheBindings F now bindings =
    andthen (ctx_err F) (\<lambda>_. after_check (validateCacheBindings bindings) (
    transaction F ''begin cache binding save: %w'' ''commit cache bindings: %w'' (
      andthen (save_bindings F now bindings) (\<lambda>_. ret (True, ())))))"

text \<open>ORDER BY source, manifest_digest, access, user_id.\<close>

definition SQL_ListCacheBindings :: "SqlFaults \<Rightarrow> string \<Rightarrow> string \<Rightarrow> string \<Rightarrow> CacheBinding list metam" where
  "SQL_ListCacheBindings F repo route objectDigest =
    andthen (ctx_err F) (\<lambda>_. wrapping ''list cache bindings: %w'' (query F (\<lambda>db.
      sort_key cb_Source (sort_key cb_ManifestDigest (sort_key cb_Access (sort_key cb_UserID
        (filter (\<lambda>b. cb_LogicalRepository b = repo \<and> cb_Route b = route \<and> cb_ObjectDigest b = objectDigest) (t_bindings db))))))))"

end
