(* ===== verification/SQLite_Refinement.thy ===== *)
theory SQLite_Refinement
  imports SQLite_Repository
begin

text \<open>
  The SQLite tables refine the in-memory repository: over a working database every call gives
  the answer the in-memory repository gives, whatever was called before.
\<close>

section \<open>Sorting\<close>

lemma sorted_wrt_unique:
  assumes "sorted_wrt lt xs" "sorted_wrt lt ys" "set xs = set ys" "transp lt" "\<And>x. \<not> lt x x"
  shows "xs = ys"
  using assms(1-3)
proof (induction xs arbitrary: ys)
  case (Cons x xs)
  then obtain y ys' where ys: "ys = y # ys'" by (cases ys) auto
  have nx: "x \<notin> set xs" "y \<notin> set ys'" using Cons.prems(1,2) assms(5) by (auto simp: ys)
  have "x = y"
  proof (rule ccontr)
    assume ne: "x \<noteq> y"
    then have "lt x y" "lt y x" using Cons.prems by (auto simp: ys)
    with assms(4,5) show False by (meson transpD)
  qed
  moreover from this nx Cons.prems(3) have "set xs = set ys'" by (auto simp: ys)
  ultimately show ?case using Cons.IH [of ys'] Cons.prems by (simp add: ys)
qed simp

text \<open>A stable sort by f of a list in an order R is in the lexicographic order.\<close>

definition lex :: "('a \<Rightarrow> 'k::linorder) \<Rightarrow> ('a \<Rightarrow> 'a \<Rightarrow> bool) \<Rightarrow> 'a \<Rightarrow> 'a \<Rightarrow> bool" where
  "lex f R a b \<longleftrightarrow> f a < f b \<or> f a = f b \<and> R a b"

lemma sorted_insort_key_lex:
  assumes "sorted_wrt (lex f R) zs" "\<forall>z \<in> set zs. R y z"
  shows "sorted_wrt (lex f R) (insort_key f y zs)"
  using assms
proof (induction zs)
  case (Cons z zs)
  have "f z \<le> f w" if "w \<in> set zs" for w using Cons.prems(1) that by (auto simp: lex_def)
  then have le: "f y \<le> f z \<Longrightarrow> \<forall>w \<in> set (z # zs). lex f R y w" using Cons.prems(2) by (fastforce simp: lex_def)
  show ?case
  proof (cases "f y \<le> f z")
    case True
    with le Cons.prems(1) show ?thesis by simp
  next
    case False
    then have "lex f R z y" by (simp add: lex_def not_le)
    with False Cons show ?thesis by (auto simp: set_insort_key)
  qed
qed simp

lemma sorted_sort_key_lex: "sorted_wrt R ys \<Longrightarrow> sorted_wrt (lex f R) (sort_key f ys)"
  by (induction ys) (auto intro: sorted_insort_key_lex)

lemma sorted_sort_key: "sorted_wrt (\<lambda>a b. f a \<le> f b) (sort_key f ys)"
  using sorted_sort_key [of f ys] by (simp add: sorted_map)

lemma sorted_wrt_distinct:
  "sorted_wrt R xs \<Longrightarrow> distinct (map k xs) \<Longrightarrow> (\<And>a b. R a b \<Longrightarrow> k a \<noteq> k b \<Longrightarrow> S a b) \<Longrightarrow> sorted_wrt S xs"
  by (induction xs) auto

section \<open>Lists of related rows\<close>

lemma list_all2_filter:
  "list_all2 R xs ys \<Longrightarrow> (\<And>x y. R x y \<Longrightarrow> P x \<longleftrightarrow> Q y) \<Longrightarrow> list_all2 R (filter P xs) (filter Q ys)"
  by (induction rule: list_all2_induct) auto

lemma list_all2_insort:
  "list_all2 R xs ys \<Longrightarrow> R x y \<Longrightarrow> (\<And>x y. R x y \<Longrightarrow> f x = g y) \<Longrightarrow> list_all2 R (insort_key f x xs) (insort_key g y ys)"
  by (induction rule: list_all2_induct) auto

lemma list_all2_sort:
  "list_all2 R xs ys \<Longrightarrow> (\<And>x y. R x y \<Longrightarrow> f x = g y) \<Longrightarrow> list_all2 R (sort_key f xs) (sort_key g ys)"
  by (induction rule: list_all2_induct) (auto intro: list_all2_insort)

lemma list_all2_map_eq: "list_all2 R xs ys \<Longrightarrow> (\<And>x y. R x y \<Longrightarrow> f x = g y) \<Longrightarrow> map f xs = map g ys"
  by (induction rule: list_all2_induct) auto

lemma list_all2_find:
  "list_all2 R xs ys \<Longrightarrow> (\<And>x y. R x y \<Longrightarrow> P x \<longleftrightarrow> Q y) \<Longrightarrow>
     rel_option R (find P xs) (find Q ys)"
  by (induction rule: list_all2_induct) auto

lemma map_result_related: "list_all2 (\<lambda>x y. f x = Inr y) xs ys \<Longrightarrow> map_result f xs = Inr ys"
  by (induction rule: list_all2_induct) auto

section \<open>The relation\<close>

abbreviation "event_row jc \<equiv> (\<lambda>row e. decode_event jc row = Inr e)"
abbreviation "tag_row jc \<equiv> (\<lambda>row m. scanTagMapping jc row = Inr m)"

definition plain_binding :: "CacheBinding \<Rightarrow> bool" where
  "plain_binding b \<longleftrightarrow> CHR 0x00 \<notin> set (cb_LogicalRepository b @ cb_Route b @ cb_Source b @ cb_ManifestDigest b
     @ cb_ObjectDigest b @ cb_Access b @ cb_UserID b)"

definition plain_tag :: "TagMapping \<Rightarrow> bool" where
  "plain_tag m \<longleftrightarrow> CHR '':'' \<notin> set (tm_LogicalRepository m)"

abbreviation keyed_bindings :: "CacheBinding list \<Rightarrow> (string \<times> CacheBinding) list" where
  "keyed_bindings rows \<equiv> map (\<lambda>b. (cacheBindingKey b, b)) rows"

definition bindings_ok :: "CacheBinding list \<Rightarrow> bool" where
  "bindings_ok rows \<longleftrightarrow> (\<forall>b \<in> set rows. plain_binding b) \<and> distinct (map cacheBindingKey rows)"

definition refines :: "JsonColumns \<Rightarrow> MetaDB \<Rightarrow> MemoryRepository \<Rightarrow> bool" where
  "refines jc db r \<longleftrightarrow>
     list_all2 (event_row jc) (t_events db) (mem_events r) \<and> t_event_seq db = mem_nextEventID r \<and> events_ok r
     \<and> map snd (t_provenance db) = mem_provenance r
     \<and> list_all2 (tag_row jc) (t_tags db) (map snd (mem_tags r))
     \<and> mem_tags r = map (\<lambda>m. (tagKey (tm_LogicalRepository m) (tm_Tag m), m)) (map snd (mem_tags r))
     \<and> (\<forall>m \<in> snd ` set (mem_tags r). plain_tag m) \<and> distinct (map fst (mem_tags r))
     \<and> mem_bindings r = keyed_bindings (t_bindings db) \<and> bindings_ok (t_bindings db)"

lemma events_ok_simps [simp]:
  "events_ok (r\<lparr>mem_tags := x\<rparr>) = events_ok r" "events_ok (r\<lparr>mem_bindings := y\<rparr>) = events_ok r"
  "events_ok (r\<lparr>mem_provenance := z\<rparr>) = events_ok r"
  by (simp_all add: events_ok_def)

lemma decode_event_Inr: "decode_event jc row = Inr e \<Longrightarrow> er_event row = e\<lparr>ev_Explanation := ev_Explanation (er_event row)\<rparr>"
  by (auto simp: decode_event_def split: sum.splits)

lemma scanTagMapping_Inr: "scanTagMapping jc row = Inr m \<Longrightarrow> tr_mapping row = m\<lparr>tm_BlobDigests := tm_BlobDigests (tr_mapping row)\<rparr>"
  by (auto simp: scanTagMapping_def split: sum.splits)

lemma event_row_fields:
  assumes "decode_event jc row = Inr e"
  shows "ev_ID (er_event row) = ev_ID e" "ev_Timestamp (er_event row) = ev_Timestamp e"
    "ev_Duration (er_event row) = ev_Duration e" "ev_Status (er_event row) = ev_Status e"
    "ev_Operation (er_event row) = ev_Operation e" "ev_ErrorClassification (er_event row) = ev_ErrorClassification e"
    "ev_CacheResult (er_event row) = ev_CacheResult e" "ev_ClientIdentity (er_event row) = ev_ClientIdentity e"
    "ev_CredentialSource (er_event row) = ev_CredentialSource e" "ev_MatchedRoute (er_event row) = ev_MatchedRoute e"
    "ev_SourceOrDestination (er_event row) = ev_SourceOrDestination e" "ev_LogicalReference (er_event row) = ev_LogicalReference e"
  by (subst decode_event_Inr [OF assms], simp)+

text \<open>The WHERE clause is the filter of the in-memory repository.\<close>

lemma where_append: "where_all (cs @ ds) x \<longleftrightarrow> where_all cs x \<and> where_all ds x"
  by (simp add: where_all_def)

lemma where_if: "where_all (if b then [c] else []) x \<longleftrightarrow> (b \<longrightarrow> c x)"
  by (simp add: where_all_def)

lemma event_conditions_iff: "where_all (event_conditions f) e \<longleftrightarrow> requestEventMatches e f"
  unfolding event_conditions_def where_append where_if requestEventMatches_def
  by (simp only: imp_conv_disj not_not not_less conj_assoc)

lemma cursor_conditions_iff:
  "where_all (cursor_conditions q) e \<longleftrightarrow> requestEventWithinCursor e (q_Cursor q) (q_OldestFirst q)"
  by (auto simp: cursor_conditions_def where_all_def requestEventWithinCursor_def split: option.splits)

lemma matches_row: "decode_event jc row = Inr e \<Longrightarrow> requestEventMatches (er_event row) f \<longleftrightarrow> requestEventMatches e f"
  by (simp add: requestEventMatches_def event_row_fields)

lemma within_row: "decode_event jc row = Inr e \<Longrightarrow> requestEventWithinCursor (er_event row) c b \<longleftrightarrow> requestEventWithinCursor e c b"
  by (simp add: requestEventWithinCursor_def event_row_fields split: option.split)

lemma ordered_events:
  assumes "list_all2 (event_row jc) rows evs" "distinct (map ev_ID evs)"
  shows "list_all2 (event_row jc) (order_events b rows) (SliceStable (event_less b) evs)"
proof -
  let ?ordered = "if b then sort_key ev_Timestamp (sort_key ev_ID evs)
      else sort_key (\<lambda>e. - ev_Timestamp e) (sort_key (\<lambda>e. - ev_ID e) evs)"
  have d: "distinct evs" "\<And>x y. x \<in> set evs \<Longrightarrow> y \<in> set evs \<Longrightarrow> x \<noteq> y \<Longrightarrow> ev_ID x \<noteq> ev_ID y"
    using assms(2) by (auto simp: distinct_map inj_on_def)
  have "?ordered = SliceStable (event_less b) evs"
  proof (rule sorted_wrt_unique [where lt = "event_less b"])
    have id: "distinct (map ev_ID (sort_key f evs))" "distinct (map ev_ID (sort_key g (sort_key f evs)))"
      for f :: "RequestEvent \<Rightarrow> int" and g :: "RequestEvent \<Rightarrow> int"
      using assms(2) by (auto simp: distinct_map)
    show "sorted_wrt (event_less b) ?ordered"
    proof (cases b)
      case True
      have "sorted_wrt (lex ev_Timestamp (\<lambda>a b. ev_ID a \<le> ev_ID b)) (sort_key ev_Timestamp (sort_key ev_ID evs))"
        by (rule sorted_sort_key_lex, rule sorted_sort_key)
      then show ?thesis using True id(2)
        by (auto elim!: sorted_wrt_distinct simp: lex_def event_less_def)
    next
      case False
      have "sorted_wrt (lex (\<lambda>e. - ev_Timestamp e) (\<lambda>a b. - ev_ID a \<le> - ev_ID b)) (sort_key (\<lambda>e. - ev_Timestamp e) (sort_key (\<lambda>e. - ev_ID e) evs))"
        by (rule sorted_sort_key_lex, rule sorted_sort_key)
      then show ?thesis using False id(2)
        by (auto elim!: sorted_wrt_distinct simp: lex_def event_less_def)
    qed
    show "sorted_wrt (event_less b) (SliceStable (event_less b) evs)"
      by (rule sorted_SliceStable [OF transp_event_less d(1)]) (use d(2) in \<open>auto intro!: event_less_total\<close>)
  qed (auto simp: transp_event_less event_less_irrefl)
  moreover have "list_all2 (event_row jc) (order_events b rows) ?ordered"
    unfolding order_events_def by (auto intro!: list_all2_sort assms(1) simp: event_row_fields)
  ultimately show ?thesis by simp
qed

section \<open>Keys\<close>

lemma NUL_less:
  assumes "CHR 0x00 \<notin> set a" "CHR 0x00 \<notin> set b"
  shows "a @ CHR 0x00 # x < b @ CHR 0x00 # y \<longleftrightarrow> a < b \<or> a = b \<and> x < y"
  using assms
proof (induction a arbitrary: b)
  case Nil
  have "CHR 0x00 < c" if "CHR 0x00 \<noteq> c" for c :: char
    using that of_char_eq_iff [of "CHR 0x00" c, where ?'a = nat] by (auto simp: less_char_def)
  with Nil show ?case by (cases b) auto
next
  case (Cons c a)
  have "\<not> c < CHR 0x00" by (simp add: less_char_def)
  with Cons show ?case by (cases b) auto
qed

lemma NUL_eq: "CHR 0x00 \<notin> set a \<Longrightarrow> CHR 0x00 \<notin> set b \<Longrightarrow> a @ CHR 0x00 # x = b @ CHR 0x00 # y \<longleftrightarrow> a = b \<and> x = y"
  by (metis NUL_less less_irrefl linorder_neq_iff)

lemma cacheBindingKey_eq:
  assumes "plain_binding b" "plain_binding c"
  shows "cacheBindingKey b = cacheBindingKey c \<longleftrightarrow> same_key b c"
  using assms by (simp add: cacheBindingKey_def NUL_def plain_binding_def NUL_eq same_key_def) auto

lemma tagKey_eq:
  assumes "plain_tag m" "CHR '':'' \<notin> set repo"
  shows "tagKey (tm_LogicalRepository m) (tm_Tag m) = tagKey repo tag \<longleftrightarrow> tm_LogicalRepository m = repo \<and> tm_Tag m = tag"
  using assms by (simp add: plain_tag_def tagKey_inj)

text \<open>An association list keyed by a function of its values.\<close>

lemma update_keyed:
  assumes "distinct (map key xs)"
  shows "AList.update (key v) v (map (\<lambda>x. (key x, x)) xs) =
    map (\<lambda>x. (key x, x)) (if key v \<in> key ` set xs then map (\<lambda>x. if key x = key v then v else x) xs else xs @ [v])"
  using assms
proof (induction xs)
  case (Cons x xs)
  show ?case
  proof (cases "key x = key v")
    case True
    then have "key v \<notin> key ` set xs" using Cons.prems by auto
    then have "map (\<lambda>y. if key y = key v then v else y) xs = xs" by (intro map_idI) (metis image_eqI)
    with True show ?thesis by simp
  next
    case False
    with Cons show ?thesis by auto
  qed
qed simp

lemma map_of_keyed: "map_of (map (\<lambda>x. (key x, x)) xs) k = find (\<lambda>x. key x = k) xs"
  by (induction xs) auto

section \<open>Tags\<close>

lemma find_tag_related:
  assumes "refines jc db r" "CHR '':'' \<notin> set repo"
  shows "rel_option (tag_row jc) (find (same_tag repo tag) (t_tags db)) (map_of (mem_tags r) (tagKey repo tag))"
proof -
  let ?ms = "map snd (mem_tags r)"
  have "list_all2 (\<lambda>row m. scanTagMapping jc row = Inr m \<and> plain_tag m) (t_tags db) ?ms"
    using assms(1) by (auto simp: refines_def list_all2_conv_all_nth)
  then have "rel_option (\<lambda>row m. scanTagMapping jc row = Inr m \<and> plain_tag m) (find (same_tag repo tag) (t_tags db))
      (find (\<lambda>m. tagKey (tm_LogicalRepository m) (tm_Tag m) = tagKey repo tag) ?ms)"
    by (rule list_all2_find) (use assms(2) in \<open>auto simp: same_tag_def tagKey_eq dest!: scanTagMapping_Inr [THEN arg_cong [where f = "\<lambda>m. (tm_LogicalRepository m, tm_Tag m)"]]\<close>)
  moreover have "map_of (mem_tags r) (tagKey repo tag) = find (\<lambda>m. tagKey (tm_LogicalRepository m) (tm_Tag m) = tagKey repo tag) ?ms"
  proof -
    have "mem_tags r = map (\<lambda>m. (tagKey (tm_LogicalRepository m) (tm_Tag m), m)) ?ms" using assms(1) by (simp add: refines_def)
    then have "map_of (mem_tags r) = map_of (map (\<lambda>m. (tagKey (tm_LogicalRepository m) (tm_Tag m), m)) ?ms)" by simp
    then show ?thesis by (simp only: map_of_keyed)
  qed
  ultimately show ?thesis by (auto elim!: option.rel_mono_strong)
qed

lemma upsert_tag_related:
  assumes "refines jc db r" "scanTagMapping jc row = Inr m" "plain_tag m"
  shows "refines jc (db\<lparr>t_tags := upsert_tag row (t_tags db)\<rparr>)
    (r\<lparr>mem_tags := AList.update (tagKey (tm_LogicalRepository m) (tm_Tag m)) m (mem_tags r)\<rparr>)"
proof -
  let ?ms = "map snd (mem_tags r)" and ?key = "\<lambda>m. tagKey (tm_LogicalRepository m) (tm_Tag m)"
  define ms where "ms = ?ms"
  have keyed: "mem_tags r = map (\<lambda>m. (?key m, m)) ms" and d: "distinct (map fst (mem_tags r))"
    and pl: "\<forall>m \<in> set ms. plain_tag m" and rel: "list_all2 (tag_row jc) (t_tags db) ms"
    using assms(1) unfolding refines_def ms_def by auto
  have d': "distinct (map ?key ms)" using d by (simp add: keyed comp_def)
  have same: "same_tag (tm_LogicalRepository (tr_mapping row)) (tm_Tag (tr_mapping row)) x \<longleftrightarrow> ?key y = ?key m"
    if "scanTagMapping jc x = Inr y" "plain_tag y" for x y
    using that assms(2,3) scanTagMapping_Inr [OF that(1), THEN arg_cong [where f = "\<lambda>m. (tm_LogicalRepository m, tm_Tag m)"]]
      scanTagMapping_Inr [OF assms(2), THEN arg_cong [where f = "\<lambda>m. (tm_LogicalRepository m, tm_Tag m)"]]
    by (auto simp: same_tag_def plain_tag_def tagKey_inj)
  have rel': "list_all2 (\<lambda>x y. scanTagMapping jc x = Inr y \<and> plain_tag y) (t_tags db) ms"
    using rel pl by (auto simp: list_all2_conv_all_nth)
  let ?here = "same_tag (tm_LogicalRepository (tr_mapping row)) (tm_Tag (tr_mapping row))"
  have ex: "list_ex ?here (t_tags db) \<longleftrightarrow> ?key m \<in> ?key ` set ms"
    using rel' by (induction rule: list_all2_induct) (auto simp: same)
  have mp: "list_all2 (tag_row jc) (map (\<lambda>x. if ?here x then row else x) (t_tags db)) (map (\<lambda>y. if ?key y = ?key m then m else y) ms)"
    using rel' by (induction rule: list_all2_induct) (auto simp: same assms(2))
  define ms' where "ms' = (if ?key m \<in> ?key ` set ms then map (\<lambda>y. if ?key y = ?key m then m else y) ms else ms @ [m])"
  have upd: "AList.update (?key m) m (mem_tags r) = map (\<lambda>m. (?key m, m)) ms'"
    unfolding keyed ms'_def by (rule update_keyed [OF d'])
  have "list_all2 (tag_row jc) (upsert_tag row (t_tags db)) ms'"
    using ex mp rel assms(2) by (simp add: upsert_tag_def Let_def ms'_def list_all2_appendI)
  moreover have "\<forall>m \<in> set ms'. plain_tag m" using pl assms(3) by (auto simp: ms'_def)
  moreover have "distinct (map fst (AList.update (?key m) m (mem_tags r)))" by (rule distinct_update [OF d])
  ultimately show ?thesis using assms(1) by (simp add: refines_def upd comp_def)
qed

section \<open>Bindings\<close>

lemma upsert_binding_related:
  assumes "bindings_ok rows" "plain_binding b"
  shows "record_binding now b (keyed_bindings rows) = keyed_bindings (upsert_binding now b rows)"
    and "bindings_ok (upsert_binding now b rows)"
proof -
  have d: "distinct (map cacheBindingKey rows)" and pl: "\<forall>b \<in> set rows. plain_binding b"
    using assms(1) by (auto simp: bindings_ok_def)
  let ?k = cacheBindingKey
  have same: "c \<in> set rows \<Longrightarrow> same_key b c \<longleftrightarrow> ?k c = ?k b" for c
    using cacheBindingKey_eq [OF assms(2), of c] pl by auto
  have ex: "list_ex (same_key b) rows \<longleftrightarrow> ?k b \<in> ?k ` set rows" by (auto simp: list_ex_iff same image_iff) metis
  show r: "record_binding now b (keyed_bindings rows) = keyed_bindings (upsert_binding now b rows)"
  proof (cases "find (\<lambda>c. ?k c = ?k b) rows")
    case None
    then have n: "?k b \<notin> ?k ` set rows" by (auto simp: find_None_iff)
    have k: "?k (b\<lparr>cb_CreatedAt := now, cb_UpdatedAt := now\<rparr>) = ?k b" by (simp add: cacheBindingKey_def)
    from update_keyed [OF d, of "b\<lparr>cb_CreatedAt := now, cb_UpdatedAt := now\<rparr>"] n
    show ?thesis by (simp add: record_binding_def Let_def map_of_keyed None upsert_binding_def ex k)
  next
    case (Some e)
    then have e: "e \<in> set rows" "?k e = ?k b" by (auto simp: find_Some_iff)
    let ?new = "b\<lparr>cb_CreatedAt := cb_CreatedAt e, cb_UpdatedAt := nextUpdatedAt now (cb_UpdatedAt e)\<rparr>"
    let ?upd = "\<lambda>c. c\<lparr>cb_PhysicalRepository := cb_PhysicalRepository b, cb_ObjectKind := cb_ObjectKind b,
              cb_UpdatedAt := (if cb_UpdatedAt c \<ge> now then cb_UpdatedAt c + 1 else now)\<rparr>"
    have k: "?k ?new = ?k b" by (simp add: cacheBindingKey_def)
    have "?upd c = ?new" if "c \<in> set rows" "?k c = ?k b" for c
    proof -
      have "c = e" using d that e by (auto simp: distinct_map inj_on_def)
      moreover have "same_key b e" using same e by blast
      ultimately show ?thesis by (cases e; cases b) (auto simp: same_key_def nextUpdatedAt_def)
    qed
    then have "map (\<lambda>c. if same_key b c then ?upd c else c) rows = map (\<lambda>c. if ?k c = ?k b then ?new else c) rows"
      by (intro map_cong) (auto simp: same)
    moreover have "?k b \<in> ?k ` set rows" using e by (metis image_eqI)
    ultimately show ?thesis using update_keyed [OF d, of ?new]
      by (simp add: record_binding_def Let_def map_of_keyed Some upsert_binding_def ex k)
  qed
  have "map fst (record_binding now b (keyed_bindings rows)) = map ?k (upsert_binding now b rows)"
    by (simp only: r) (simp add: comp_def)
  moreover have "distinct (map fst (record_binding now b (keyed_bindings rows)))"
    using d by (auto simp: record_binding_def Let_def comp_def intro!: distinct_update split: option.split)
  moreover have "\<forall>c \<in> set (upsert_binding now b rows). plain_binding c"
    using pl assms(2) by (auto simp: upsert_binding_def plain_binding_def)
  ultimately show "bindings_ok (upsert_binding now b rows)" by (simp add: bindings_ok_def)
qed

lemma save_bindings_related:
  assumes "bindings_ok (t_bindings (fst s))" "\<forall>b \<in> set bs. plain_binding b"
  shows "\<exists>rows n. save_bindings (\<lambda>_. None) now bs s = (Inr (), ((fst s)\<lparr>t_bindings := rows\<rparr>, n)) \<and> bindings_ok rows
    \<and> fold (record_binding now) bs (keyed_bindings (t_bindings (fst s))) = keyed_bindings rows"
  using assms
proof (induction bs arbitrary: s)
  case Nil
  then show ?case by (intro exI [of _ "t_bindings (fst s)"] exI [of _ "snd s"]) (simp add: ret_def)
next
  case (Cons b bs)
  let ?s = "((fst s)\<lparr>t_bindings := upsert_binding now b (t_bindings (fst s))\<rparr>, Suc (snd s))"
  note u = upsert_binding_related [OF Cons.prems(1), of b now]
  have "bindings_ok (t_bindings (fst ?s))" using u(2) Cons.prems(2) by simp
  from Cons.IH [OF this] Cons.prems(2) obtain rows n where
    "save_bindings (\<lambda>_. None) now bs ?s = (Inr (), ((fst ?s)\<lparr>t_bindings := rows\<rparr>, n))" "bindings_ok rows"
    "fold (record_binding now) bs (keyed_bindings (t_bindings (fst ?s))) = keyed_bindings rows" by auto
  with u(1) Cons.prems(2) show ?case
    by (intro exI [of _ rows] exI [of _ n]) (simp add: andthen_def wrapping_def sql_def)
qed

lemma listed_bindings:
  assumes "bindings_ok rows"
  shows "sort_key cb_Source (sort_key cb_ManifestDigest (sort_key cb_Access (sort_key cb_UserID
        (filter (\<lambda>b. cb_LogicalRepository b = repo \<and> cb_Route b = route \<and> cb_ObjectDigest b = obj) rows))))
    = sort_key cacheBindingKey (filter (\<lambda>b. cb_LogicalRepository b = repo \<and> cb_Route b = route \<and> cb_ObjectDigest b = obj) rows)"
    (is "?sql = ?mem")
proof (rule sorted_wrt_unique [where lt = "\<lambda>a b. cacheBindingKey a < cacheBindingKey b"])
  let ?f = "filter (\<lambda>b. cb_LogicalRepository b = repo \<and> cb_Route b = route \<and> cb_ObjectDigest b = obj) rows"
  have d: "distinct (map cacheBindingKey ?f)" using assms by (simp add: bindings_ok_def distinct_map_filter)
  show "sorted_wrt (\<lambda>a b. cacheBindingKey a < cacheBindingKey b) ?mem"
    by (rule sorted_wrt_distinct [OF sorted_sort_key, where k = cacheBindingKey]) (use d in \<open>auto simp: distinct_map\<close>)
  have "sorted_wrt (lex cb_Source (lex cb_ManifestDigest (lex cb_Access (\<lambda>a b. cb_UserID a \<le> cb_UserID b)))) ?sql"
    by (intro sorted_sort_key_lex sorted_sort_key)
  then have "sorted_wrt (\<lambda>a b. lex cb_Source (lex cb_ManifestDigest (lex cb_Access (\<lambda>a b. cb_UserID a \<le> cb_UserID b))) a b
      \<and> a \<in> set ?f \<and> b \<in> set ?f) ?sql"
    by (rule sorted_wrt_mono_rel [rotated]) simp
  then show "sorted_wrt (\<lambda>a b. cacheBindingKey a < cacheBindingKey b) ?sql"
  proof (rule sorted_wrt_distinct [where k = cacheBindingKey])
    show "distinct (map cacheBindingKey ?sql)" using d by (auto simp: distinct_map)
    fix a b
    assume l: "lex cb_Source (lex cb_ManifestDigest (lex cb_Access (\<lambda>a b. cb_UserID a \<le> cb_UserID b))) a b
      \<and> a \<in> set ?f \<and> b \<in> set ?f" and ne: "cacheBindingKey a \<noteq> cacheBindingKey b"
    then have p: "plain_binding a" "plain_binding b" "cb_LogicalRepository a = cb_LogicalRepository b" "cb_Route a = cb_Route b"
      "cb_ObjectDigest a = cb_ObjectDigest b" using assms by (auto simp: bindings_ok_def)
    with ne have "\<not> same_key a b" by (simp add: cacheBindingKey_eq)
    with l p show "cacheBindingKey a < cacheBindingKey b"
      by (auto simp: cacheBindingKey_def NUL_def plain_binding_def NUL_less lex_def same_key_def)
  qed
qed (auto intro: transpI)

section \<open>Calls\<close>

text \<open>
  The calls both implementations answer, apart from FindProvenanceByLogicalReference, where they
  differ: among records retrieved at the same time SQLite takes the last and the in-memory
  repository the first.
\<close>

datatype meta_call =
    EventRecord RequestEvent | EventQuery RequestEventQuery | EventsRecent int | EventCount RequestEventFilter
  | EventByID int | EventSummary time | ProvenanceRecorded ProvenanceRecord
  | TagRecord TagMapping | TagFind string string | TagList
  | BindingsRecord "CacheBinding list" | BindingsList string string string

datatype meta_answer =
    Done | APage RequestEventPage | AEvents "RequestEvent list" | ACount int | AEvent "RequestEvent option"
  | ASummary RequestEventSummary | ATag "TagMapping option" | ATags "TagMapping list" | ABindings "CacheBinding list"

definition as_answer :: "('a \<Rightarrow> 'b) \<Rightarrow> ('d, 'a) dbm \<Rightarrow> ('d, 'b) dbm" where
  "as_answer A m = andthen m (\<lambda>x. ret (A x))"

fun meta_sql :: "JsonColumns \<Rightarrow> time \<Rightarrow> meta_call \<Rightarrow> meta_answer metam" where
  "meta_sql jc now (EventRecord e) = as_answer (\<lambda>_. Done) (SQL_RecordRequestEvent (\<lambda>_. None) jc now e)"
| "meta_sql jc now (EventQuery q) = as_answer APage (SQL_QueryRequestEvents (\<lambda>_. None) jc q)"
| "meta_sql jc now (EventsRecent n) = as_answer AEvents (SQL_ListRecentRequestEvents (\<lambda>_. None) jc n)"
| "meta_sql jc now (EventCount f) = as_answer ACount (SQL_CountRequestEvents (\<lambda>_. None) f)"
| "meta_sql jc now (EventByID i) = as_answer AEvent (SQL_FindRequestEventByID (\<lambda>_. None) jc i)"
| "meta_sql jc now (EventSummary t) = as_answer ASummary (SQL_SummarizeRequestEvents (\<lambda>_. None) t)"
| "meta_sql jc now (ProvenanceRecorded p) = as_answer (\<lambda>_. Done) (SQL_RecordProvenance (\<lambda>_. None) now p)"
| "meta_sql jc now (TagRecord m) = as_answer (\<lambda>_. Done) (SQL_RecordTagMapping (\<lambda>_. None) jc now m)"
| "meta_sql jc now (TagFind r t) = as_answer ATag (SQL_FindTagMapping (\<lambda>_. None) jc r t)"
| "meta_sql jc now TagList = as_answer ATags (SQL_ListTagMappings (\<lambda>_. None) jc)"
| "meta_sql jc now (BindingsRecord bs) = as_answer (\<lambda>_. Done) (SQL_RecordCacheBindings (\<lambda>_. None) now bs)"
| "meta_sql jc now (BindingsList r t d) = as_answer ABindings (SQL_ListCacheBindings (\<lambda>_. None) r t d)"

definition answered :: "('a \<Rightarrow> 'b) \<Rightarrow> 'a result \<Rightarrow> 'b result" where
  "answered A r = (case r of Inl e \<Rightarrow> Inl e | Inr x \<Rightarrow> Inr (A x))"

fun meta_mem :: "time \<Rightarrow> meta_call \<Rightarrow> MemoryRepository \<Rightarrow> meta_answer result \<times> MemoryRepository" where
  "meta_mem now (EventRecord e) r = apfst (answered (\<lambda>_. Done)) (RecordRequestEvent None now e r)"
| "meta_mem now (EventQuery q) r = (answered APage (QueryRequestEvents None q r), r)"
| "meta_mem now (EventsRecent n) r = (answered AEvents (ListRecentRequestEvents None n r), r)"
| "meta_mem now (EventCount f) r = (answered ACount (CountRequestEvents None f r), r)"
| "meta_mem now (EventByID i) r = (answered AEvent (FindRequestEventByID None i r), r)"
| "meta_mem now (EventSummary t) r = (answered ASummary (SummarizeRequestEvents None t r), r)"
| "meta_mem now (ProvenanceRecorded p) r = apfst (answered (\<lambda>_. Done)) (RecordProvenance None now p r)"
| "meta_mem now (TagRecord m) r = apfst (answered (\<lambda>_. Done)) (RecordTagMapping None now m r)"
| "meta_mem now (TagFind p t) r = (answered ATag (FindTagMapping None p t r), r)"
| "meta_mem now TagList r = (answered ATags (ListTagMappings None r), r)"
| "meta_mem now (BindingsRecord bs) r = apfst (answered (\<lambda>_. Done)) (RecordCacheBindings None now bs r)"
| "meta_mem now (BindingsList p t d) r = (answered ABindings (ListCacheBindings None p t d r), r)"

text \<open>JSON texts read back, keys hold no separator, and an event is looked up by a positive identifier.\<close>

fun call_ok :: "JsonColumns \<Rightarrow> meta_call \<Rightarrow> bool" where
  "call_ok jc (EventRecord e) \<longleftrightarrow> (\<exists>j. jc_Explanation jc (ev_Explanation e) = Inr j \<and> jc_readExplanation jc j = Inr (ev_Explanation e))"
| "call_ok jc (EventByID i) \<longleftrightarrow> i > 0"
| "call_ok jc (TagRecord m) \<longleftrightarrow> plain_tag m \<and> (\<exists>j. jc_Digests jc (tm_BlobDigests m) = Inr j \<and> jc_readDigests jc j = Inr (tm_BlobDigests m))"
| "call_ok jc (TagFind p t) \<longleftrightarrow> CHR '':'' \<notin> set p"
| "call_ok jc (BindingsRecord bs) \<longleftrightarrow> (\<forall>b \<in> set bs. plain_binding b)"
| "call_ok jc _ \<longleftrightarrow> True"

text \<open>Over a working database the combinators are plain functions.\<close>

lemma working_simps [simp]:
  "sql (\<lambda>_. None) f s = (case f (fst s) of Inl e \<Rightarrow> (Inl e, (fst s, Suc (snd s))) | Inr (x, db) \<Rightarrow> (Inr x, (db, Suc (snd s))))"
  "query (\<lambda>_. None) g s = (Inr (g (fst s)), (fst s, Suc (snd s)))"
  by (simp_all add: sql_def query_def)

lemma combinators:
  "as_answer A m s = (case m s of (r, s) \<Rightarrow> (answered A r, s))"
  "andthen m k s = (case m s of (Inl e, s) \<Rightarrow> (Inl e, s) | (Inr x, s) \<Rightarrow> k x s)"
  by (auto simp: as_answer_def answered_def andthen_def ret_def split: prod.split sum.split)

lemma lifted:
  "lift_result r s = (r, s)" "after_check c m s = (case c of Inl e \<Rightarrow> (Inl e, s) | Inr _ \<Rightarrow> m s)"
  by (simp_all add: lift_result_def after_check_def fail_def ret_def split: sum.split)

lemmas run_simps = combinators answered_def ctx_err_def wrapping_def ret_def fail_def lifted

section \<open>Each call\<close>

lemma selected_events:
  assumes "refines jc db r"
  shows "list_all2 (event_row jc) (order_events b (filter (\<lambda>row. where_all (event_conditions f @ cursor_conditions q) (er_event row)) (t_events db)))
    (SliceStable (event_less b) (filter (\<lambda>e. requestEventMatches e f \<and> requestEventWithinCursor e (q_Cursor q) (q_OldestFirst q)) (mem_events r)))"
proof (rule ordered_events)
  show "list_all2 (event_row jc) (filter (\<lambda>row. where_all (event_conditions f @ cursor_conditions q) (er_event row)) (t_events db))
    (filter (\<lambda>e. requestEventMatches e f \<and> requestEventWithinCursor e (q_Cursor q) (q_OldestFirst q)) (mem_events r))"
    by (rule list_all2_filter) (use assms in \<open>auto simp: refines_def where_append event_conditions_iff cursor_conditions_iff matches_row within_row\<close>)
  show "distinct (map ev_ID (filter (\<lambda>e. requestEventMatches e f \<and> requestEventWithinCursor e (q_Cursor q) (q_OldestFirst q)) (mem_events r)))"
    by (rule distinct_map_filter) (use assms strict_sorted_iff in \<open>auto simp: refines_def events_ok_def\<close>)
qed

lemma query_related:
  assumes "refines jc (fst s) r"
  shows "fst (SQL_QueryRequestEvents (\<lambda>_. None) jc q s) = QueryRequestEvents None q r
    \<and> fst (snd (SQL_QueryRequestEvents (\<lambda>_. None) jc q s)) = fst s"
proof (cases "q_Limit q < 0")
  case True
  then show ?thesis by (simp add: SQL_QueryRequestEvents_def QueryRequestEvents_def run_simps)
next
  case False
  define rows where "rows = order_events (q_OldestFirst q)
    (filter (\<lambda>row. where_all (event_conditions (q_Filter q) @ cursor_conditions q) (er_event row)) (t_events (fst s)))"
  define evs where "evs = SliceStable (event_less (q_OldestFirst q))
    (filter (\<lambda>e. requestEventMatches e (q_Filter q) \<and> requestEventWithinCursor e (q_Cursor q) (q_OldestFirst q)) (mem_events r))"
  let ?cut = "\<lambda>xs. if q_Limit q > 0 then take (nat (q_Limit q + 1)) xs else xs"
  have rel: "list_all2 (event_row jc) rows evs"
    unfolding rows_def evs_def by (rule selected_events [OF assms])
  then have "map_result (decode_event jc) (?cut rows) = Inr (?cut evs)"
    by (auto intro!: map_result_related list_all2_takeI)
  then have sql: "SQL_QueryRequestEvents (\<lambda>_. None) jc q s =
     (let hasMore = q_Limit q > 0 \<and> int (length (?cut evs)) > q_Limit q;
        page = (if hasMore then take (nat (q_Limit q)) (?cut evs) else ?cut evs) in
      (Inr \<lparr>Events = page, Next = (if hasMore \<and> length page > 0
                 then Some \<lparr>cur_Timestamp = ev_Timestamp (last page), cur_ID = ev_ID (last page)\<rparr> else None)\<rparr>, (fst s, Suc (Suc (snd s)))))"
    using False by (cases "q_Limit q > 0") (simp_all add: SQL_QueryRequestEvents_def run_simps Let_def flip: rows_def)
  have more: "q_Limit q > 0 \<Longrightarrow> int (length (?cut evs)) > q_Limit q \<longleftrightarrow> int (length evs) > q_Limit q"
    and page: "q_Limit q > 0 \<Longrightarrow> take (nat (q_Limit q)) (?cut evs) = take (nat (q_Limit q)) evs"
    and whole: "q_Limit q > 0 \<Longrightarrow> \<not> int (length evs) > q_Limit q \<Longrightarrow> ?cut evs = evs"
    by (auto simp: min_def)
  have "fst (SQL_QueryRequestEvents (\<lambda>_. None) jc q s) = QueryRequestEvents None q r"
    using False more page whole unfolding sql by (auto simp: QueryRequestEvents_def Let_def evs_def [symmetric] simp del: length_SliceStable)
  then show ?thesis by (simp add: sql Let_def)
qed

lemma sums_related:
  "foldl summarize_event s evs = s\<lparr>Total := Total s + int (length evs),
     Errors := Errors s + sum_where (\<lambda>e. ev_Status e = ''error'') evs,
     DeniedPushes := DeniedPushes s + sum_where (\<lambda>e. ev_Status e = ''denied'' \<and> ev_Operation e = ''push'') evs,
     AuthFailures := AuthFailures s + sum_where (\<lambda>e. ev_ErrorClassification e = ''upstream_authentication_failed'') evs,
     CacheHits := CacheHits s + sum_where (\<lambda>e. ev_CacheResult e = ''hit'') evs,
     CacheMisses := CacheMisses s + sum_where (\<lambda>e. ev_CacheResult e = ''miss'') evs\<rparr>"
proof (induction evs arbitrary: s)
  case (Cons e evs)
  show ?case
    unfolding foldl_Cons Cons.IH
    by (simp add: summarize_event_def Let_def sum_where_def StatusError_def StatusDenied_def OperationPush_def CacheHit_def CacheMiss_def)
qed (simp add: sum_where_def)

lemma sum_where_row:
  "list_all2 (event_row jc) rows evs \<Longrightarrow> (\<And>row e. decode_event jc row = Inr e \<Longrightarrow> P (er_event row) \<longleftrightarrow> P e) \<Longrightarrow>
     sum_where P (map er_event rows) = sum_where P evs"
  by (induction rule: list_all2_induct) (auto simp: sum_where_def)

lemma sum_list_sort: "sum_list (sort ds) = sum_list (ds :: int list)"
proof -
  have "sum_list (insort d ds) = d + sum_list ds" for d and ds :: "int list" by (induction ds) auto
  then show ?thesis by (induction ds) auto
qed

lemma summary_related:
  assumes "refines jc (fst s) r"
  shows "fst (SQL_SummarizeRequestEvents (\<lambda>_. None) after s) = SummarizeRequestEvents None after r
    \<and> fst (snd (SQL_SummarizeRequestEvents (\<lambda>_. None) after s)) = fst s"
proof -
  define rows where "rows = filter (\<lambda>row. ev_Timestamp (er_event row) \<ge> after) (t_events (fst s))"
  define evs where "evs = filter (\<lambda>e. \<not> ev_Timestamp e < after) (mem_events r)"
  have rel: "list_all2 (event_row jc) rows evs"
    unfolding rows_def evs_def by (rule list_all2_filter) (use assms in \<open>auto simp: refines_def event_row_fields\<close>)
  have len: "length rows = length evs" using rel by (rule list_all2_lengthD)
  have dur: "map (\<lambda>row. ev_Duration (er_event row)) rows = map ev_Duration evs"
    by (rule list_all2_map_eq [OF rel]) (simp add: event_row_fields)
  have sums: "sum_where P (map er_event rows) = sum_where P evs"
    if "\<And>row e. decode_event jc row = Inr e \<Longrightarrow> P (er_event row) \<longleftrightarrow> P e" for P
    using sum_where_row [OF rel] that by blast
  have durations: "summarizeDurations (sort ds) = summarizeDurations ds" for ds
    by (simp add: summarizeDurations_def Let_def sum_list_sort sorted_sort_id [OF sorted_sort])
  show ?thesis
    unfolding SQL_SummarizeRequestEvents_def SummarizeRequestEvents_def
    by (simp add: run_simps Let_def sums_related zero_summary_def durations len dur sums event_row_fields flip: rows_def evs_def)
qed

lemma listed_tags:
  assumes "refines jc db r"
  shows "map_result (scanTagMapping jc)
      (sort_key (\<lambda>row. tm_LogicalRepository (tr_mapping row)) (sort_key (\<lambda>row. tm_Tag (tr_mapping row)) (t_tags db)))
    = Inr (SliceStable tag_less (map snd (mem_tags r)))"
proof -
  define ms where "ms = map snd (mem_tags r)"
  let ?sorted = "sort_key tm_LogicalRepository (sort_key tm_Tag ms)" and ?k = "\<lambda>m. (tm_LogicalRepository m, tm_Tag m)"
  have keyed: "mem_tags r = map (\<lambda>m. (tagKey (tm_LogicalRepository m) (tm_Tag m), m)) ms"
    and d: "distinct (map fst (mem_tags r))" and rel: "list_all2 (tag_row jc) (t_tags db) ms"
    using assms unfolding refines_def ms_def by auto
  have dk: "distinct (map ?k ms)"
  proof -
    have "distinct (map (\<lambda>k. tagKey (fst k) (snd k)) (map ?k ms))" using d by (simp add: keyed comp_def)
    then show ?thesis by (simp only: distinct_map)
  qed
  then have dm: "distinct ms" and ne: "\<And>x y. x \<in> set ms \<Longrightarrow> y \<in> set ms \<Longrightarrow> x \<noteq> y \<Longrightarrow> ?k x \<noteq> ?k y"
    by (auto simp: distinct_map inj_on_def)
  have tr: "transp tag_less" by (rule transpI) (auto simp: tag_less_def split: if_splits)
  have total: "?k x \<noteq> ?k y \<Longrightarrow> tag_less x y \<or> tag_less y x" for x y by (auto simp: tag_less_def)
  have "?sorted = SliceStable tag_less ms"
  proof (rule sorted_wrt_unique [where lt = tag_less])
    have "sorted_wrt (lex tm_LogicalRepository (\<lambda>a b. tm_Tag a \<le> tm_Tag b)) ?sorted"
      by (rule sorted_sort_key_lex, rule sorted_sort_key)
    then show "sorted_wrt tag_less ?sorted"
      by (rule sorted_wrt_distinct [where k = ?k]) (use dk in \<open>auto simp: distinct_map lex_def tag_less_def\<close>)
    show "sorted_wrt tag_less (SliceStable tag_less ms)"
      by (rule sorted_SliceStable [OF tr dm]) (use ne total in blast)
  qed (auto simp: tr tag_less_def)
  moreover have "list_all2 (tag_row jc) (sort_key (\<lambda>row. tm_LogicalRepository (tr_mapping row)) (sort_key (\<lambda>row. tm_Tag (tr_mapping row)) (t_tags db))) ?sorted"
    by (intro list_all2_sort rel) (auto dest: scanTagMapping_Inr [THEN arg_cong [where f = tm_LogicalRepository]] scanTagMapping_Inr [THEN arg_cong [where f = tm_Tag]])
  ultimately show ?thesis by (auto intro: map_result_related simp flip: ms_def)
qed

lemma count_related:
  assumes "list_all2 (event_row jc) rows evs"
  shows "int (length (filter (\<lambda>row. where_all (event_conditions f) (er_event row)) rows))
    = foldl (\<lambda>n e. if requestEventMatches e f then n + 1 else n) 0 evs"
proof -
  have "list_all2 (event_row jc) (filter (\<lambda>row. where_all (event_conditions f) (er_event row)) rows) (filter (\<lambda>e. requestEventMatches e f) evs)"
    by (rule list_all2_filter [OF assms]) (simp add: event_conditions_iff matches_row)
  moreover have "foldl (\<lambda>n e. if requestEventMatches e f then n + 1 else n) n evs = n + int (length (filter (\<lambda>e. requestEventMatches e f) evs))" for n
    by (induction evs arbitrary: n) auto
  ultimately show ?thesis by (simp add: list_all2_lengthD)
qed

text \<open>The reading calls.\<close>

lemma read_related:
  assumes "refines jc (fst s) r" "call_ok jc c"
    and "case c of EventQuery q \<Rightarrow> True | EventsRecent n \<Rightarrow> True | EventCount f \<Rightarrow> True | EventByID i \<Rightarrow> True
      | EventSummary t \<Rightarrow> True | TagFind p t \<Rightarrow> True | TagList \<Rightarrow> True | BindingsList p t d \<Rightarrow> True | _ \<Rightarrow> False"
  shows "fst (meta_sql jc now c s) = fst (meta_mem now c r) \<and> fst (snd (meta_sql jc now c s)) = fst s \<and> snd (meta_mem now c r) = r"
proof (cases c)
  case (EventQuery q)
  with query_related [OF assms(1), of q] show ?thesis
    by (auto simp: combinators split: prod.split)
next
  case (EventsRecent n)
  with query_related [OF assms(1), of "\<lparr>q_Filter = no_filter, q_Limit = n, q_Cursor = None, q_OldestFirst = False\<rparr>"] show ?thesis
    by (auto simp: run_simps SQL_ListRecentRequestEvents_def ListRecentRequestEvents_def split: prod.splits sum.splits)
next
  case (EventCount f)
  from assms(1) have "list_all2 (event_row jc) (t_events (fst s)) (mem_events r)" by (simp add: refines_def)
  with EventCount show ?thesis
    by (simp add: run_simps SQL_CountRequestEvents_def CountRequestEvents_def count_related)
next
  case (EventByID i)
  have "rel_option (event_row jc) (find (\<lambda>row. ev_ID (er_event row) = i) (t_events (fst s))) (find (\<lambda>e. ev_ID e = i) (mem_events r))"
    by (rule list_all2_find) (use assms(1) in \<open>auto simp: refines_def event_row_fields\<close>)
  then show ?thesis using assms(2) EventByID
    by (cases "find (\<lambda>e. ev_ID e = i) (mem_events r)"; cases "find (\<lambda>row. ev_ID (er_event row) = i) (t_events (fst s))")
      (auto simp: run_simps SQL_FindRequestEventByID_def FindRequestEventByID_def)
next
  case (EventSummary t)
  with summary_related [OF assms(1), of t] show ?thesis by (auto simp: combinators split: prod.split)
next
  case (TagFind p t)
  from find_tag_related [OF assms(1), of p t] assms(2) TagFind
  have "rel_option (tag_row jc) (find (same_tag p t) (t_tags (fst s))) (map_of (mem_tags r) (tagKey p t))" by simp
  with TagFind show ?thesis
    by (cases "find (same_tag p t) (t_tags (fst s))"; cases "map_of (mem_tags r) (tagKey p t)")
      (auto simp: run_simps SQL_FindTagMapping_def FindTagMapping_def)
next
  case TagList
  with listed_tags [OF assms(1)] show ?thesis
    by (simp add: run_simps SQL_ListTagMappings_def ListTagMappings_def)
next
  case (BindingsList p t d)
  have "map snd (mem_bindings r) = t_bindings (fst s)" "bindings_ok (t_bindings (fst s))"
    using assms(1) by (simp_all add: refines_def comp_def)
  with BindingsList listed_bindings [of "t_bindings (fst s)" p t d] show ?thesis
    by (simp add: run_simps SQL_ListCacheBindings_def ListCacheBindings_def)
qed (use assms(3) in auto)

text \<open>The writing calls.\<close>

lemma event_recorded:
  assumes "refines jc (fst s) r" "call_ok jc (EventRecord e)"
  shows "fst (meta_sql jc now (EventRecord e) s) = fst (meta_mem now (EventRecord e) r)
    \<and> refines jc (fst (snd (meta_sql jc now (EventRecord e) s))) (snd (meta_mem now (EventRecord e) r))"
proof -
  obtain j where "jc_Explanation jc (ev_Explanation e) = Inr j" "jc_readExplanation jc j = Inr (ev_Explanation e)"
    using assms(2) by auto
  moreover have "events_ok (snd (RecordRequestEvent None now e r))"
    by (rule events_ok_record) (use assms(1) in \<open>simp add: refines_def\<close>)
  ultimately show ?thesis using assms(1)
    by (cases "validateRequestEvent e")
      (auto simp: run_simps SQL_RecordRequestEvent_def RecordRequestEvent_def Let_def refines_def decode_event_def
        intro!: list_all2_appendI)
qed

lemma provenance_recorded:
  assumes "refines jc (fst s) r"
  shows "fst (meta_sql jc now (ProvenanceRecorded p) s) = fst (meta_mem now (ProvenanceRecorded p) r)
    \<and> refines jc (fst (snd (meta_sql jc now (ProvenanceRecorded p) s))) (snd (meta_mem now (ProvenanceRecorded p) r))"
  using assms
  by (cases "validateProvenanceRecord p")
    (auto simp: run_simps SQL_RecordProvenance_def RecordProvenance_def Let_def refines_def)

lemma tag_recorded:
  assumes "refines jc (fst s) r" "call_ok jc (TagRecord m)"
  shows "fst (meta_sql jc now (TagRecord m) s) = fst (meta_mem now (TagRecord m) r)
    \<and> refines jc (fst (snd (meta_sql jc now (TagRecord m) s))) (snd (meta_mem now (TagRecord m) r))"
proof -
  obtain j where j: "jc_Digests jc (tm_BlobDigests m) = Inr j" "jc_readDigests jc j = Inr (tm_BlobDigests m)"
    and p: "plain_tag m" using assms(2) by auto
  define m1 where "m1 = (if IsZero (ResolvedAt m) then m\<lparr>ResolvedAt := now\<rparr> else m)"
  define m2 where "m2 = (if IsZero (LastValidatedAt m1) then m1\<lparr>LastValidatedAt := ResolvedAt m1\<rparr> else m1)"
  have m2: "tm_BlobDigests m2 = tm_BlobDigests m" "plain_tag m2" using p by (auto simp: m1_def m2_def plain_tag_def)
  have "scanTagMapping jc \<lparr>tr_mapping = m2\<lparr>tm_BlobDigests := []\<rparr>, tr_blob_digests_json = j\<rparr> = Inr m2"
    by (simp add: scanTagMapping_def j flip: m2(1))
  from upsert_tag_related [OF assms(1) this m2(2)] show ?thesis using assms(1)
    by (cases "validateTagMapping m")
      (simp_all add: run_simps SQL_RecordTagMapping_def RecordTagMapping_def Let_def m2(1) j flip: m1_def m2_def)
qed

lemma bindings_recorded:
  assumes "refines jc (fst s) r" "call_ok jc (BindingsRecord bs)"
  shows "fst (meta_sql jc now (BindingsRecord bs) s) = fst (meta_mem now (BindingsRecord bs) r)
    \<and> refines jc (fst (snd (meta_sql jc now (BindingsRecord bs) s))) (snd (meta_mem now (BindingsRecord bs) r))"
proof (cases "validateCacheBindings bs")
  case (Inl e)
  with assms(1) show ?thesis by (simp add: run_simps SQL_RecordCacheBindings_def RecordCacheBindings_def)
next
  case (Inr u)
  let ?s = "(fst s, Suc (Suc (snd s)))"
  have ok: "bindings_ok (t_bindings (fst ?s))" "\<forall>b \<in> set bs. plain_binding b"
    and mem: "mem_bindings r = keyed_bindings (t_bindings (fst s))" using assms by (simp_all add: refines_def)
  from save_bindings_related [OF ok, of now] obtain rows n where
    "save_bindings (\<lambda>_. None) now bs ?s = (Inr (), ((fst s)\<lparr>t_bindings := rows\<rparr>, n))" "bindings_ok rows"
    "fold (record_binding now) bs (keyed_bindings (t_bindings (fst s))) = keyed_bindings rows" by auto
  with Inr mem show ?thesis using assms(1)
    by (simp add: run_simps SQL_RecordCacheBindings_def RecordCacheBindings_def transaction_def refines_def)
qed

lemma call_related:
  assumes "refines jc (fst s) r" "call_ok jc c"
  shows "fst (meta_sql jc now c s) = fst (meta_mem now c r)
    \<and> refines jc (fst (snd (meta_sql jc now c s))) (snd (meta_mem now c r))"
  using assms event_recorded provenance_recorded tag_recorded bindings_recorded read_related [OF assms]
  by (cases c) (simp_all only: meta_call.case simp_thms)

section \<open>Runs\<close>

fun sql_answers :: "JsonColumns \<Rightarrow> (time \<times> meta_call) list \<Rightarrow> MetaDB \<times> nat \<Rightarrow> meta_answer result list" where
  "sql_answers jc [] s = []"
| "sql_answers jc ((now, c) # cs) s = (case meta_sql jc now c s of (a, s') \<Rightarrow> a # sql_answers jc cs s')"

fun mem_answers :: "(time \<times> meta_call) list \<Rightarrow> MemoryRepository \<Rightarrow> meta_answer result list" where
  "mem_answers [] r = []"
| "mem_answers ((now, c) # cs) r = (case meta_mem now c r of (a, r') \<Rightarrow> a # mem_answers cs r')"

lemma answers_related:
  "refines jc (fst s) r \<Longrightarrow> list_all (\<lambda>(now, c). call_ok jc c) cs \<Longrightarrow> sql_answers jc cs s = mem_answers cs r"
proof (induction cs arbitrary: s r)
  case (Cons nc cs)
  obtain now c where nc: "nc = (now, c)" by (cases nc)
  from call_related [OF Cons.prems(1), of c now] Cons.prems(2) nc
  have "fst (meta_sql jc now c s) = fst (meta_mem now c r)"
    "refines jc (fst (snd (meta_sql jc now c s))) (snd (meta_mem now c r))" by auto
  with Cons.IH [OF this(2)] Cons.prems(2) show ?case by (auto simp: nc split: prod.split)
qed simp

lemma refines_empty: "refines jc empty_meta NewMemoryRepository"
  by (simp add: refines_def empty_meta_def NewMemoryRepository_def events_ok_def bindings_ok_def)


definition plain_json :: JsonColumns where
  "plain_json = \<lparr>jc_Explanation = (\<lambda>_. Inr ''[]''), jc_readExplanation = (\<lambda>_. Inr []),
     jc_Digests = (\<lambda>ds. Inr (concat ds)), jc_readDigests = (\<lambda>t. Inr [t])\<rparr>"


end
