(* ===== verification/Go_Encoding.thy ===== *)
theory Go_Encoding
  imports Go_Strings
begin

text \<open>
  encoding/hex and encoding/base64 as the program uses them: hexadecimal identifiers, and the
  raw and padded base64 encodings with their URL and standard alphabets, lenient and strict.
\<close>

section \<open>Hexadecimal\<close>

definition hex_digits :: string where "hex_digits = ''0123456789abcdef''"

definition hex_EncodeToString :: "string \<Rightarrow> string" where
  "hex_EncodeToString s = concat (map (\<lambda>c. [hex_digits ! (of_char c div 16), hex_digits ! (of_char c mod 16)]) s)"

section \<open>Base64\<close>

definition url_alphabet :: string where
  "url_alphabet = ''ABCDEFGHIJKLMNOPQRSTUVWXYZabcdefghijklmnopqrstuvwxyz0123456789-_''"

definition std_alphabet :: string where
  "std_alphabet = ''ABCDEFGHIJKLMNOPQRSTUVWXYZabcdefghijklmnopqrstuvwxyz0123456789+/''"

fun sextets :: "nat list \<Rightarrow> nat list" where
  "sextets [] = []"
| "sextets [a] = [a div 4, (a mod 4) * 16]"
| "sextets [a, b] = [a div 4, (a mod 4) * 16 + b div 16, (b mod 16) * 4]"
| "sextets (a # b # c # r) =
     [a div 4, (a mod 4) * 16 + b div 16, (b mod 16) * 4 + c div 64, c mod 64] @ sextets r"

text \<open>A strict decoder insists on zero trailing bits.\<close>

fun octets :: "bool \<Rightarrow> nat list \<Rightarrow> nat list option" where
  "octets strict [] = Some []"
| "octets strict [x] = None"
| "octets strict [x, y] = (if strict \<and> y mod 16 \<noteq> 0 then None else Some [x * 4 + y div 16])"
| "octets strict [x, y, z] = (if strict \<and> z mod 4 \<noteq> 0 then None
     else Some [x * 4 + y div 16, (y mod 16) * 16 + z div 4])"
| "octets strict (x # y # z # w # r) =
     (case octets strict r of None \<Rightarrow> None
      | Some bs \<Rightarrow> Some ([x * 4 + y div 16, (y mod 16) * 16 + z div 4, (z mod 4) * 64 + w] @ bs))"

fun index_of :: "string \<Rightarrow> char \<Rightarrow> nat option" where
  "index_of [] c = None"
| "index_of (x # xs) c = (if x = c then Some 0 else map_option Suc (index_of xs c))"

definition base64_encode :: "string \<Rightarrow> string \<Rightarrow> string" where
  "base64_encode alphabet s = map (\<lambda>n. alphabet ! n) (sextets (map of_char s))"

text \<open>Decoding ignores line breaks.\<close>

definition base64_decode :: "string \<Rightarrow> bool \<Rightarrow> string \<Rightarrow> string result" where
  "base64_decode alphabet strict s =
    (case those (map (index_of alphabet) (filter (\<lambda>c. c \<notin> {CHR 0x0A, CHR 0x0D}) s)) of
       None \<Rightarrow> Inl (errorf ''illegal base64 data'')
     | Some ns \<Rightarrow> (case octets strict ns of None \<Rightarrow> Inl (errorf ''illegal base64 data'')
        | Some bs \<Rightarrow> Inr (map char_of bs)))"

definition RawURL_Encode :: "string \<Rightarrow> string" where "RawURL_Encode = base64_encode url_alphabet"
definition RawURL_Decode :: "string \<Rightarrow> string result" where "RawURL_Decode = base64_decode url_alphabet False"
definition RawStd_Encode :: "string \<Rightarrow> string" where "RawStd_Encode = base64_encode std_alphabet"
definition RawStd_DecodeStrict :: "string \<Rightarrow> string result" where "RawStd_DecodeStrict = base64_decode std_alphabet True"

text \<open>StdEncoding.Strict: the padding completes the last group of four.\<close>

definition Std_DecodeStrict :: "string \<Rightarrow> string result" where
  "Std_DecodeStrict s =
    (let t = filter (\<lambda>c. c \<notin> {CHR 0x0A, CHR 0x0D}) s;
         body = rev (dropWhile (\<lambda>c. c = CHR ''='') (rev t)) in
     if length t mod 4 \<noteq> 0 \<or> length t - length body > 2 then Inl (errorf ''illegal base64 data'')
     else base64_decode std_alphabet True body)"

section \<open>Round trips\<close>

lemma index_of_nth: "distinct xs \<Longrightarrow> n < length xs \<Longrightarrow> index_of xs (xs ! n) = Some n"
proof (induction xs arbitrary: n)
  case (Cons x xs)
  then show ?case by (cases n) (auto simp: nth_eq_iff_index_eq)
qed simp

lemma sextets_range: "\<forall>b \<in> set bs. b < 256 \<Longrightarrow> \<forall>n \<in> set (sextets bs). n < 64"
  by (induction bs rule: sextets.induct) auto

lemma octets_sextets: "\<forall>b \<in> set bs. b < 256 \<Longrightarrow> octets strict (sextets bs) = Some bs"
  by (induction bs rule: sextets.induct) (auto; presburger)+

lemma of_char_256: "(of_char c :: nat) < 256"
  by (rule nat_of_char_less_256)

lemma those_map_Some: "\<forall>x \<in> set xs. f x = Some (g x) \<Longrightarrow> those (map f xs) = Some (map g xs)"
  by (induction xs) auto

lemma base64_round_trip:
  assumes "distinct alphabet" "length alphabet = 64" "CHR 0x0A \<notin> set alphabet" "CHR 0x0D \<notin> set alphabet"
  shows "base64_decode alphabet strict (base64_encode alphabet s) = Inr s"
proof -
  let ?ns = "sextets (map of_char s)"
  have r: "\<forall>n \<in> set ?ns. n < 64" by (rule sextets_range) (simp add: of_char_256)
  then have f: "filter (\<lambda>c. c \<notin> {CHR 0x0A, CHR 0x0D}) (map (\<lambda>n. alphabet ! n) ?ns) = map (\<lambda>n. alphabet ! n) ?ns"
    using assms by (auto simp: filter_id_conv) (metis nth_mem)+
  have "those (map (\<lambda>n. index_of alphabet (alphabet ! n)) ?ns) = Some (map (\<lambda>n. n) ?ns)"
    by (rule those_map_Some) (use r assms in \<open>auto intro: index_of_nth\<close>)
  moreover have "octets strict ?ns = Some (map of_char s)" by (rule octets_sextets) (simp add: of_char_256)
  ultimately show ?thesis
    by (simp add: base64_decode_def base64_encode_def f [simplified] comp_def)
qed

lemma base64_chars: "length alphabet = 64 \<Longrightarrow> set (base64_encode alphabet s) \<subseteq> set alphabet"
proof -
  assume "length alphabet = 64"
  moreover have "\<forall>n \<in> set (sextets (map of_char s)). n < 64" by (rule sextets_range) (simp add: of_char_256)
  ultimately show ?thesis by (auto simp: base64_encode_def)
qed

lemma alphabets:
  "distinct url_alphabet" "length url_alphabet = 64" "distinct std_alphabet" "length std_alphabet = 64"
  "set url_alphabet \<inter> {CHR 0x0A, CHR 0x0D, CHR ''.'', CHR ''$''} = {}"
  "set std_alphabet \<inter> {CHR 0x0A, CHR 0x0D, CHR ''.'', CHR ''$''} = {}"
  by (simp_all add: url_alphabet_def std_alphabet_def)

lemma RawURL_round_trip [simp]: "RawURL_Decode (RawURL_Encode s) = Inr s"
  unfolding RawURL_Decode_def RawURL_Encode_def by (rule base64_round_trip) (use alphabets in auto)

lemma RawStd_round_trip [simp]: "RawStd_DecodeStrict (RawStd_Encode s) = Inr s"
  unfolding RawStd_DecodeStrict_def RawStd_Encode_def by (rule base64_round_trip) (use alphabets in auto)

lemma RawURL_no_dot: "CHR ''.'' \<notin> set (RawURL_Encode s)"
  using base64_chars [OF alphabets(2), of s] alphabets(5) unfolding RawURL_Encode_def by auto

lemma RawStd_no_dollar: "CHR ''$'' \<notin> set (RawStd_Encode s)"
  using base64_chars [OF alphabets(4), of s] alphabets(6) unfolding RawStd_Encode_def by auto

section \<open>ASCII text\<close>

lemma ValidString_ascii: "\<forall>c \<in> set s. byte c < 128 \<Longrightarrow> ValidString s"
  by (induction s) (auto simp: ValidString_def DecodeRune_def RuneError_def)

lemma url_ascii: "\<forall>c \<in> set url_alphabet. byte c < 128"
  by (simp add: url_alphabet_def)

lemma ValidString_RawURL [simp]: "ValidString (RawURL_Encode s)"
  using base64_chars [OF alphabets(2), of s] url_ascii unfolding RawURL_Encode_def by (intro ValidString_ascii) blast

lemma std_ascii: "\<forall>c \<in> set std_alphabet. byte c < 128"
  by (simp add: std_alphabet_def)

lemma ValidString_RawStd [simp]: "ValidString (RawStd_Encode s)"
  using base64_chars [OF alphabets(4), of s] std_ascii unfolding RawStd_Encode_def by (intro ValidString_ascii) blast

end
