(* ===== verification/Passwords.thy ===== *)
theory Passwords
  imports Go_Encoding
begin

text \<open>
  Password hashes (internal/auth/password.go). Argon2id (golang.org/x/crypto) is a parameter: its
  key derivation and its version number; the random source is a function from the number of
  bytes asked for. The uint32 and uint8 parameters are naturals, checked where they are parsed.
\<close>

record PasswordParams =
  pp_Memory :: nat
  pp_Iterations :: nat
  pp_Parallelism :: nat
  pp_SaltLength :: nat
  pp_KeyLength :: nat

definition DefaultPasswordParams :: PasswordParams where
  "DefaultPasswordParams = \<lparr>pp_Memory = 19 * 1024, pp_Iterations = 2, pp_Parallelism = 1, pp_SaltLength = 16,
     pp_KeyLength = 32\<rparr>"

text \<open>IDKey password salt iterations memory parallelism keyLength.\<close>

record Argon2 =
  a2_IDKey :: "string \<Rightarrow> string \<Rightarrow> nat \<Rightarrow> nat \<Rightarrow> nat \<Rightarrow> nat \<Rightarrow> string"
  a2_Version :: nat

record PasswordHasher =
  ph_params :: PasswordParams
  ph_random :: "nat \<Rightarrow> string result"

definition validatePassword :: "string \<Rightarrow> unit result" where
  "validatePassword password =
    (if \<not> ValidString password then Inl (GoErr ''%w: password is not valid UTF-8'' [ErrPasswordPolicy])
     else if RuneCountInString password < 15 \<or> RuneCountInString password > 128
     then Inl (GoErr ''%w: password must contain 15 to 128 characters'' [ErrPasswordPolicy])
     else Inr ())"

definition validatePasswordParams :: "PasswordParams \<Rightarrow> unit result" where
  "validatePasswordParams p =
    (if pp_Memory p = 0 \<or> pp_Iterations p = 0 \<or> pp_Parallelism p = 0 \<or> pp_SaltLength p < 16 \<or> pp_KeyLength p < 16
     then Inl (errorf ''invalid Argon2id password parameters'') else Inr ())"

definition format_hash :: "Argon2 \<Rightarrow> PasswordParams \<Rightarrow> string \<Rightarrow> string \<Rightarrow> string" where
  "format_hash A p salt key =
     ''$argon2id$v='' @ FormatUint (a2_Version A) @ ''$m='' @ FormatUint (pp_Memory p) @ '',t=''
     @ FormatUint (pp_Iterations p) @ '',p='' @ FormatUint (pp_Parallelism p) @ ''$'' @ RawStd_Encode salt
     @ ''$'' @ RawStd_Encode key"

definition Hash :: "Argon2 \<Rightarrow> PasswordHasher \<Rightarrow> string \<Rightarrow> string result" where
  "Hash A h password =
    (case validatePassword password of Inl e \<Rightarrow> Inl e
     | Inr _ \<Rightarrow>
       (case validatePasswordParams (ph_params h) of Inl e \<Rightarrow> Inl e
        | Inr _ \<Rightarrow>
          (case ph_random h (pp_SaltLength (ph_params h)) of Inl e \<Rightarrow> Inl (wrapf ''generate password salt: %w'' e)
           | Inr salt \<Rightarrow>
             let p = ph_params h;
                 key = a2_IDKey A password salt (pp_Iterations p) (pp_Memory p) (pp_Parallelism p) (pp_KeyLength p)
             in Inr (format_hash A p salt key))))"

text \<open>
  fmt.Sscanf with the format m=%d,t=%d,p=%d: spaces are skipped before a number, which must fit
  its field; what follows the last number is ignored.
\<close>

definition is_digit :: "char \<Rightarrow> bool" where
  "is_digit c \<longleftrightarrow> 48 \<le> byte c \<and> byte c \<le> 57"

definition scan_space :: "char \<Rightarrow> bool" where
  "scan_space c \<longleftrightarrow> c \<in> {CHR '' '', CHR 0x09, CHR 0x0B, CHR 0x0C, CHR 0x0D}"

definition scan_uint :: "nat \<Rightarrow> string \<Rightarrow> (nat \<times> string) option" where
  "scan_uint bits s =
    (let t = dropWhile scan_space s;
         ds = takeWhile is_digit t in
     if ds = [] \<or> parse_digits ds \<ge> 2 ^ bits then None else Some (parse_digits ds, dropWhile is_digit t))"

definition scan_literal :: "string \<Rightarrow> string \<Rightarrow> string option" where
  "scan_literal lit s = (if HasPrefix s lit then Some (drop (length lit) s) else None)"

definition scan_params :: "string \<Rightarrow> (nat \<times> nat \<times> nat) option" where
  "scan_params s =
    (case scan_literal ''m='' s of None \<Rightarrow> None | Some s \<Rightarrow>
     (case scan_uint 32 s of None \<Rightarrow> None | Some (m, s) \<Rightarrow>
     (case scan_literal '',t='' s of None \<Rightarrow> None | Some s \<Rightarrow>
     (case scan_uint 32 s of None \<Rightarrow> None | Some (t, s) \<Rightarrow>
     (case scan_literal '',p='' s of None \<Rightarrow> None | Some s \<Rightarrow>
     (case scan_uint 8 s of None \<Rightarrow> None | Some (p, _) \<Rightarrow> Some (m, t, p)))))))"

definition parsePasswordHash :: "Argon2 \<Rightarrow> string \<Rightarrow> (PasswordParams \<times> string \<times> string) result" where
  "parsePasswordHash A encoded =
    (let parts = Split CHR ''$'' encoded in
     if length parts \<noteq> 6 \<or> parts ! 0 \<noteq> [] \<or> parts ! 1 \<noteq> ''argon2id'' \<or> parts ! 2 \<noteq> ''v='' @ FormatUint (a2_Version A)
     then Inl (errorf ''invalid Argon2id password hash'')
     else (case scan_params (parts ! 3) of None \<Rightarrow> Inl (errorf ''parse Argon2id parameters: %w'')
      | Some (m, t, p) \<Rightarrow>
        (case RawStd_DecodeStrict (parts ! 4) of Inl e \<Rightarrow> Inl (wrapf ''decode Argon2id salt: %w'' e)
         | Inr salt \<Rightarrow>
           (case RawStd_DecodeStrict (parts ! 5) of Inl e \<Rightarrow> Inl (wrapf ''decode Argon2id key: %w'' e)
            | Inr key \<Rightarrow>
              let params = \<lparr>pp_Memory = m, pp_Iterations = t, pp_Parallelism = p,
                            pp_SaltLength = length salt mod 2 ^ 32, pp_KeyLength = length key mod 2 ^ 32\<rparr>
              in (case validatePasswordParams params of Inl e \<Rightarrow> Inl e | Inr _ \<Rightarrow> Inr (params, salt, key))))))"

text \<open>Whether the password is right, and whether its hash should be renewed.\<close>

definition Verify :: "Argon2 \<Rightarrow> PasswordHasher \<Rightarrow> string \<Rightarrow> string \<Rightarrow> (bool \<times> bool) result" where
  "Verify A h encoded password =
    (if \<not> ValidString password then Inl (sentinel_err ErrPasswordPolicy)
     else (case parsePasswordHash A encoded of Inl e \<Rightarrow> Inl e
       | Inr (params, salt, expected) \<Rightarrow>
         let actual = a2_IDKey A password salt (pp_Iterations params) (pp_Memory params) (pp_Parallelism params)
                        (length expected mod 2 ^ 32);
             valid = (actual = expected)
         in Inr (valid, valid \<and> params \<noteq> ph_params h)))"

section \<open>Reading a written hash\<close>

lemma digit_char_digit: "d < 10 \<Longrightarrow> is_digit (digit_char d)"
  by (simp add: is_digit_def byte_digit_char)

lemma FormatUint_digits: "\<forall>c \<in> set (FormatUint n). is_digit c"
proof (induction n rule: FormatUint.induct)
  case (1 n)
  then show ?case by (subst FormatUint.simps) (auto intro: digit_char_digit)
qed

lemma FormatUint_ne [simp]: "FormatUint n \<noteq> []"
  by (subst FormatUint.simps) simp

lemma not_digits: "\<not> is_digit CHR ''$''" "\<not> is_digit CHR '',''" "\<not> is_digit CHR '' ''" "\<not> is_digit CHR 0x09"
  "\<not> is_digit CHR 0x0B" "\<not> is_digit CHR 0x0C" "\<not> is_digit CHR 0x0D"
  by (simp_all add: is_digit_def)

lemma FormatUint_no_dollar: "CHR ''$'' \<notin> set (FormatUint n)"
  using FormatUint_digits not_digits(1) by blast

lemma scan_uint_format:
  assumes "n < 2 ^ bits" "rest = [] \<or> \<not> is_digit (hd rest)"
  shows "scan_uint bits (FormatUint n @ rest) = Some (n, rest)"
proof -
  obtain x xs where x: "FormatUint n = x # xs" "is_digit x"
    using FormatUint_digits [of n] by (cases "FormatUint n") auto
  then have d: "dropWhile scan_space (FormatUint n @ rest) = FormatUint n @ rest"
    using not_digits by (auto simp: scan_space_def)
  have "takeWhile is_digit (FormatUint n @ rest) = FormatUint n" "dropWhile is_digit (FormatUint n @ rest) = rest"
    using FormatUint_digits [of n] assms(2) by (cases rest; simp add: takeWhile_append dropWhile_append)+
  with assms(1) show ?thesis by (simp add: scan_uint_def Let_def d parse_FormatUint)
qed

lemma scan_literal_append [simp]: "scan_literal lit (lit @ s) = Some s"
  by (simp add: scan_literal_def)

lemma scan_params_format:
  assumes "m < 2 ^ 32" "t < 2 ^ 32" "p < 2 ^ 8"
  shows "scan_params (''m='' @ FormatUint m @ '',t='' @ FormatUint t @ '',p='' @ FormatUint p) = Some (m, t, p)"
proof -
  let ?p = "FormatUint p" and ?t = "FormatUint t @ '',p='' @ FormatUint p"
  have "scan_uint 32 (FormatUint m @ '',t='' @ ?t) = Some (m, '',t='' @ ?t)"
    by (rule scan_uint_format) (use assms not_digits in auto)
  moreover have "scan_uint 32 (FormatUint t @ '',p='' @ ?p) = Some (t, '',p='' @ ?p)"
    by (rule scan_uint_format) (use assms not_digits in auto)
  moreover have "scan_uint 8 (FormatUint p) = Some (p, [])"
    using scan_uint_format [of p 8 "[]"] assms by simp
  ultimately show ?thesis
    unfolding scan_params_def by (simp only: scan_literal_append option.case prod.case)
qed

text \<open>What a hasher's parameters must be for its hashes to be readable: within their types.\<close>

definition params_fit :: "PasswordParams \<Rightarrow> bool" where
  "params_fit p \<longleftrightarrow> pp_Memory p < 2 ^ 32 \<and> pp_Iterations p < 2 ^ 32 \<and> pp_Parallelism p < 2 ^ 8
     \<and> pp_SaltLength p < 2 ^ 32 \<and> pp_KeyLength p < 2 ^ 32"

lemma parse_format:
  assumes "params_fit p" "isOK (validatePasswordParams p)" "length salt = pp_SaltLength p" "length key = pp_KeyLength p"
  shows "parsePasswordHash A (format_hash A p salt key) = Inr (p, salt, key)"
proof -
  define ms where "ms = ''m='' @ FormatUint (pp_Memory p) @ '',t='' @ FormatUint (pp_Iterations p) @ '',p='' @ FormatUint (pp_Parallelism p)"
  define vs where "vs = ''v='' @ FormatUint (a2_Version A)"
  define parts where "parts = [[], ''argon2id'', vs, ms, RawStd_Encode salt, RawStd_Encode key]"
  have "format_hash A p salt key = Join [CHR ''$''] parts"
    by (simp add: format_hash_def parts_def ms_def vs_def)
  moreover have "Split CHR ''$'' (Join [CHR ''$''] parts) = parts"
    by (rule Split_Join) (use FormatUint_no_dollar RawStd_no_dollar in \<open>auto simp: parts_def ms_def vs_def\<close>)
  ultimately have s: "Split CHR ''$'' (format_hash A p salt key) = parts" by simp
  have m: "scan_params ms = Some (pp_Memory p, pp_Iterations p, pp_Parallelism p)"
    unfolding ms_def by (rule scan_params_format) (use assms(1) in \<open>auto simp: params_fit_def\<close>)
  have l: "length salt mod 2 ^ 32 = pp_SaltLength p" "length key mod 2 ^ 32 = pp_KeyLength p"
    using assms(1,3,4) by (simp_all add: params_fit_def)
  have n: "parts ! 3 = ms" "parts ! 4 = RawStd_Encode salt" "parts ! 5 = RawStd_Encode key"
    "length parts = 6" "parts ! 0 = []" "parts ! 1 = ''argon2id''" "parts ! 2 = vs"
    by (simp_all add: parts_def)
  from assms(2) have v: "validatePasswordParams p = Inr ()" by (auto simp: isOK_iff)
  have r: "\<lparr>pp_Memory = pp_Memory p, pp_Iterations = pp_Iterations p, pp_Parallelism = pp_Parallelism p,
      pp_SaltLength = pp_SaltLength p, pp_KeyLength = pp_KeyLength p\<rparr> = p" by (cases p) simp
  show ?thesis
    unfolding parsePasswordHash_def Let_def s n m l
    by (simp add: m l [simplified] l v vs_def r)
qed

section \<open>Hashing and verifying\<close>

lemma Hash_Inr:
  "Hash A h password = Inr encoded \<longleftrightarrow> validatePassword password = Inr () \<and> validatePasswordParams (ph_params h) = Inr ()
     \<and> (\<exists>salt. ph_random h (pp_SaltLength (ph_params h)) = Inr salt
          \<and> encoded = format_hash A (ph_params h) salt (a2_IDKey A password salt (pp_Iterations (ph_params h))
              (pp_Memory (ph_params h)) (pp_Parallelism (ph_params h)) (pp_KeyLength (ph_params h))))"
  by (auto simp: Hash_def Let_def split: sum.splits)

text \<open>What is documented of the random source and of Argon2: they return the bytes asked for.\<close>

definition sizes_ok :: "Argon2 \<Rightarrow> PasswordHasher \<Rightarrow> bool" where
  "sizes_ok A h \<longleftrightarrow> (\<forall>n salt. ph_random h n = Inr salt \<longrightarrow> length salt = n)
     \<and> (\<forall>p s i m l n. length (a2_IDKey A p s i m l n) = n)"

text \<open>The key that Argon2id derives with the parameters of a hasher.\<close>

definition derived :: "Argon2 \<Rightarrow> PasswordHasher \<Rightarrow> string \<Rightarrow> string \<Rightarrow> string" where
  "derived A h password salt = a2_IDKey A password salt (pp_Iterations (ph_params h)) (pp_Memory (ph_params h))
     (pp_Parallelism (ph_params h)) (pp_KeyLength (ph_params h))"

lemma Verify_own:
  assumes "sizes_ok A h" and "params_fit (ph_params h)" and "Hash A h password = Inr encoded"
  obtains salt where "ph_random h (pp_SaltLength (ph_params h)) = Inr salt" "ValidString password"
    "\<And>w. ValidString w \<Longrightarrow> Verify A h encoded w = Inr (derived A h w salt = derived A h password salt, False)"
proof -
  let ?p = "ph_params h"
  from assms(3) obtain salt where pw: "validatePassword password = Inr ()" and v: "validatePasswordParams ?p = Inr ()"
    and salt: "ph_random h (pp_SaltLength ?p) = Inr salt" and e: "encoded = format_hash A ?p salt (derived A h password salt)"
    by (auto simp: Hash_Inr derived_def)
  have l: "length salt = pp_SaltLength ?p" "length (derived A h password salt) = pp_KeyLength ?p"
    using assms(1) salt by (auto simp: sizes_ok_def derived_def)
  have parse: "parsePasswordHash A encoded = Inr (?p, salt, derived A h password salt)"
    unfolding e by (rule parse_format) (use assms(2) v l in simp_all)
  have k: "pp_KeyLength ?p mod 2 ^ 32 = pp_KeyLength ?p"
    using assms(2) by (simp add: params_fit_def)
  have "Verify A h encoded w = Inr (derived A h w salt = derived A h password salt, False)" if "ValidString w" for w
    using that unfolding Verify_def parse by (simp add: Let_def l k [simplified]) (simp add: derived_def)
  moreover have "ValidString password" using pw by (auto simp: validatePassword_def split: if_splits)
  ultimately show thesis using salt that by blast
qed

text \<open>
  A hash made by Hash is read back by Verify: the hashed password is
  valid and needs no new hash, and another password is valid exactly when Argon2id derives the
  same key from it with the stored salt; so a wrong password passes only on a collision.
\<close>

theorem password_round_trip:
  assumes "sizes_ok A h" and "params_fit (ph_params h)" and "Hash A h password = Inr encoded"
  shows "\<exists>salt. ph_random h (pp_SaltLength (ph_params h)) = Inr salt
    \<and> Verify A h encoded password = Inr (True, False)
    \<and> (\<forall>other. ValidString other \<longrightarrow>
         Verify A h encoded other = Inr (derived A h other salt = derived A h password salt, False))"
  using assms by (rule Verify_own) auto

definition px_argon :: Argon2 where
  "px_argon = \<lparr>a2_IDKey = (\<lambda>p s i m l n. take n (p @ replicate n (CHR ''k''))), a2_Version = 19\<rparr>"

definition px_hasher :: PasswordHasher where
  "px_hasher = \<lparr>ph_params = DefaultPasswordParams, ph_random = (\<lambda>n. Inr (replicate n (CHR ''s'')))\<rparr>"

theorem password_round_trip_witness:
  "\<exists>encoded. Hash px_argon px_hasher ''correct horse battery'' = Inr encoded
     \<and> Verify px_argon px_hasher encoded ''correct horse battery'' = Inr (True, False)"
proof -
  have "validatePassword ''correct horse battery'' = Inr ()" by code_simp
  then obtain encoded where h: "Hash px_argon px_hasher ''correct horse battery'' = Inr encoded"
    unfolding Hash_Inr by (auto simp: px_hasher_def DefaultPasswordParams_def validatePasswordParams_def)
  have "sizes_ok px_argon px_hasher" by (auto simp: sizes_ok_def px_argon_def px_hasher_def)
  moreover have "params_fit (ph_params px_hasher)" by (simp add: params_fit_def px_hasher_def DefaultPasswordParams_def)
  ultimately show ?thesis using password_round_trip h by blast
qed

end
