(* ===== verification/Accounts.thy ===== *)
theory Accounts
  imports SQLite_Invariants Passwords
begin

unbundle bit_operations_syntax

text \<open>
  The account services (internal/auth/accounts.go) over the security tables: password changes
  and web logins, Docker tokens, web sessions and the administration of accounts. A call reads
  the clock of its service once and the clock of the database once; its k-th read of the random
  source is a parameter, as are SHA-256 and Argon2id.
\<close>

section \<open>Services\<close>

record Services =
  sv_faults :: SqlFaults
  sv_now :: time
  sv_dbnow :: time
  sv_random :: "nat \<Rightarrow> nat \<Rightarrow> string result"
  sv_sha256 :: "string \<Rightarrow> string"
  sv_argon :: Argon2
  sv_hasher :: PasswordHasher

definition lift :: "'a result \<Rightarrow> 'a sqlm" where
  "lift r = (case r of Inl e \<Rightarrow> fail e | Inr x \<Rightarrow> ret x)"

definition sv_verify :: "Services \<Rightarrow> string \<Rightarrow> string \<Rightarrow> bool" where
  "sv_verify sv encoded password =
    (case Verify (sv_argon sv) (sv_hasher sv) encoded password of Inl _ \<Rightarrow> False | Inr (valid, _) \<Rightarrow> valid)"

definition sv_hash :: "Services \<Rightarrow> string \<Rightarrow> string result" where
  "sv_hash sv password = Hash (sv_argon sv) (sv_hasher sv) password"

definition randomID :: "Services \<Rightarrow> nat \<Rightarrow> string result" where
  "randomID sv k = (case sv_random sv k 16 of Inl e \<Rightarrow> Inl (wrapf ''generate id: %w'' e)
     | Inr b \<Rightarrow> Inr (hex_EncodeToString b))"

definition randomSecret :: "Services \<Rightarrow> nat \<Rightarrow> string result" where
  "randomSecret sv k = (case sv_random sv k 32 of Inl e \<Rightarrow> Inl (wrapf ''generate secret: %w'' e)
     | Inr b \<Rightarrow> Inr (RawURL_Encode b))"

text \<open>The comparison whose time does not depend on the first difference.\<close>

definition equalBytes :: "string \<Rightarrow> string \<Rightarrow> bool" where
  "equalBytes a b =
    (if length a \<noteq> length b then False
     else fold (\<lambda>(x, y) v. v OR (of_char x XOR of_char y)) (zip a b) (0 :: 8 word) = 0)"

definition user_audit :: "string \<Rightarrow> string \<Rightarrow> string \<Rightarrow> string \<Rightarrow> AuditEvent" where
  "user_audit userID action targetType targetID =
    \<lparr>au_ID = 0, au_Timestamp = 0, au_ActorUserID = userID, au_ActorRole = ''user'', au_Action = action,
     au_TargetType = targetType, au_TargetID = targetID, au_Outcome = ''success'', au_CorrelationID = [],
     au_RemoteAddress = [], au_Details = []\<rparr>"

section \<open>Accounts\<close>

definition ChangePassword :: "Services \<Rightarrow> string \<Rightarrow> string \<Rightarrow> string \<Rightarrow> unit sqlm" where
  "ChangePassword sv userID currentPassword newPassword =
    andthen (SQL_FindUserByID (sv_faults sv) userID) (\<lambda>row.
    case row of None \<Rightarrow> fail (sentinel_err ErrInvalidCredentials)
    | Some user \<Rightarrow>
      if \<not> Enabled user then fail (sentinel_err ErrInvalidCredentials)
      else if \<not> sv_verify sv (PasswordHash user) currentPassword then fail (sentinel_err ErrInvalidCredentials)
      else
      andthen (lift (sv_hash sv newPassword)) (\<lambda>hash.
      andthen (ChangeUserPassword (sv_faults sv) (sv_dbnow sv) (usr_ID user) (usr_UpdatedAt user) hash
          (user_audit (usr_ID user) ''user.password_changed'' ''user'' (usr_ID user))) (\<lambda>updated.
      case updated of None \<Rightarrow> fail (sentinel_err ErrInvalidCredentials) | Some _ \<Rightarrow> ret ())))"

definition BootstrapAdminWithProfile ::
  "Services \<Rightarrow> string \<Rightarrow> string \<Rightarrow> string \<Rightarrow> string \<Rightarrow> User option sqlm" where
  "BootstrapAdminWithProfile sv username password displayName email =
    (let username = TrimSpace username in
     if username = [] then fail (errorf ''username is required'')
     else
     andthen (lift (sv_hash sv password)) (\<lambda>hash.
     andthen (lift (randomID sv 0)) (\<lambda>i.
     SQL_BootstrapAdmin (sv_faults sv) (sv_dbnow sv)
       \<lparr>usr_ID = i, Username = username, PasswordHash = hash, DisplayName = TrimSpace displayName,
        Email = TrimSpace email, Access = UserAccessAdmin, Enabled = True, usr_CreatedAt = 0, usr_UpdatedAt = 0\<rparr>
       ((user_audit [] ''user.bootstrap'' ''user'' i)\<lparr>au_ActorRole := ''system''\<rparr>))))"

definition Account_BootstrapAdmin :: "Services \<Rightarrow> string \<Rightarrow> string \<Rightarrow> User option sqlm" where
  "Account_BootstrapAdmin sv username password = BootstrapAdminWithProfile sv username password [] []"

definition AuthenticateWeb :: "Services \<Rightarrow> string \<Rightarrow> string \<Rightarrow> User sqlm" where
  "AuthenticateWeb sv username password =
    andthen (SQL_FindUserByUsername (sv_faults sv) username) (\<lambda>row.
    case row of None \<Rightarrow> fail (sentinel_err ErrInvalidCredentials)
    | Some user \<Rightarrow>
      if \<not> sv_verify sv (PasswordHash user) password \<or> \<not> Enabled user
      then fail (sentinel_err ErrInvalidCredentials) else ret user)"

section \<open>Docker tokens\<close>

record IssuedDockerToken =
  is_Token :: DockerToken
  is_Secret :: string

definition Token_Issue :: "Services \<Rightarrow> string \<Rightarrow> string \<Rightarrow> duration \<Rightarrow> IssuedDockerToken sqlm" where
  "Token_Issue sv userID label lifetime =
    (if lifetime \<le> 0 \<or> lifetime > 90 * 24 * hour
     then fail (errorf ''token lifetime must be between one second and 90 days'')
     else
     andthen (lift (randomID sv 0)) (\<lambda>i.
     andthen (wrapping ''generate docker token: %w'' (lift (sv_random sv 1 32))) (\<lambda>secretBytes.
     let secret = ''rst_'' @ RawURL_Encode secretBytes in
     andthen (CreateDockerTokenWithAudit (sv_faults sv) (sv_dbnow sv)
         \<lparr>dt_ID = i, dt_UserID = userID, dt_Label = TrimSpace label, dt_TokenHash = sv_sha256 sv secret,
          dt_CreatedAt = 0, dt_ExpiresAt = sv_now sv + lifetime, dt_RevokedAt = 0, dt_LastUsed = 0\<rparr>
         (user_audit userID ''docker_token.created'' ''docker_token'' i)) (\<lambda>token.
     ret \<lparr>is_Token = token\<lparr>dt_TokenHash := []\<rparr>, is_Secret = secret\<rparr>))))"

definition token_valid :: "time \<Rightarrow> User \<Rightarrow> DockerToken \<Rightarrow> bool" where
  "token_valid now user token \<longleftrightarrow>
     \<not> (\<not> Enabled user \<or> dt_UserID token \<noteq> usr_ID user \<or> \<not> IsZero (dt_RevokedAt token)
        \<or> \<not> now < dt_ExpiresAt token)"

definition AuthenticateWithToken :: "Services \<Rightarrow> string \<Rightarrow> string \<Rightarrow> (User \<times> DockerToken) sqlm" where
  "AuthenticateWithToken sv username secret =
    andthen (SQL_FindUserByUsername (sv_faults sv) username) (\<lambda>user.
    andthen (FindDockerTokenByHash (sv_faults sv) (sv_sha256 sv secret)) (\<lambda>token.
    case (user, token) of
      (Some u, Some t) \<Rightarrow> if token_valid (sv_now sv) u t then ret (u, t) else fail (sentinel_err ErrInvalidCredentials)
    | _ \<Rightarrow> fail (sentinel_err ErrInvalidCredentials)))"

definition Token_Authenticate :: "Services \<Rightarrow> string \<Rightarrow> string \<Rightarrow> User sqlm" where
  "Token_Authenticate sv username secret =
    andthen (AuthenticateWithToken sv username secret) (\<lambda>(user, _). ret user)"

definition ValidateHash :: "Services \<Rightarrow> string \<Rightarrow> string \<Rightarrow> User sqlm" where
  "ValidateHash sv userID hash =
    andthen (FindDockerTokenByHash (sv_faults sv) hash) (\<lambda>token.
    andthen (SQL_FindUserByID (sv_faults sv) userID) (\<lambda>user.
    case (user, token) of
      (Some u, Some t) \<Rightarrow> if token_valid (sv_now sv) u t then ret u else fail (sentinel_err ErrInvalidCredentials)
    | _ \<Rightarrow> fail (sentinel_err ErrInvalidCredentials)))"

definition Token_Revoke :: "Services \<Rightarrow> string \<Rightarrow> unit sqlm" where
  "Token_Revoke sv i = RevokeDockerToken (sv_faults sv) (sv_dbnow sv) i (sv_now sv)"

definition Token_List :: "Services \<Rightarrow> string \<Rightarrow> DockerToken list sqlm" where
  "Token_List sv userID = ListDockerTokensForUser (sv_faults sv) userID"

definition RevokeForUser :: "Services \<Rightarrow> string \<Rightarrow> string \<Rightarrow> unit sqlm" where
  "RevokeForUser sv userID i = RevokeDockerTokenWithAudit (sv_faults sv) userID i (sv_now sv)
     (user_audit userID ''docker_token.revoked'' ''docker_token'' i)"

section \<open>Web sessions\<close>

record IssuedWebSession =
  iw_Secret :: string
  iw_CSRFToken :: string
  iw_Session :: WebSession

record SessionLifetimes =
  sl_idle :: duration
  sl_absolute :: duration

definition Session_Create :: "Services \<Rightarrow> SessionLifetimes \<Rightarrow> string \<Rightarrow> IssuedWebSession sqlm" where
  "Session_Create sv l userID =
    andthen (lift (randomID sv 0)) (\<lambda>i.
    andthen (lift (randomSecret sv 1)) (\<lambda>secret.
    andthen (lift (randomSecret sv 2)) (\<lambda>csrf.
    andthen (CreateWebSession (sv_faults sv) (sv_dbnow sv)
        \<lparr>ws_ID = i, ws_UserID = userID, ws_TokenHash = sv_sha256 sv secret, ws_CSRFTokenHash = sv_sha256 sv csrf,
         ws_CreatedAt = 0, ws_LastSeenAt = 0, ws_IdleExpiresAt = sv_now sv + sl_idle l,
         ws_AbsoluteExpiresAt = sv_now sv + sl_absolute l, ws_RevokedAt = 0\<rparr>) (\<lambda>session.
    ret \<lparr>iw_Secret = secret, iw_CSRFToken = csrf,
         iw_Session = session\<lparr>ws_TokenHash := [], ws_CSRFTokenHash := []\<rparr>\<rparr>))))"

definition session_live :: "time \<Rightarrow> WebSession \<Rightarrow> bool" where
  "session_live now session \<longleftrightarrow>
     \<not> (\<not> IsZero (ws_RevokedAt session) \<or> \<not> now < ws_IdleExpiresAt session \<or> \<not> now < ws_AbsoluteExpiresAt session)"

definition session_authenticate :: "Services \<Rightarrow> string \<Rightarrow> (User \<times> WebSession) sqlm" where
  "session_authenticate sv secret =
    andthen (FindWebSessionByHash (sv_faults sv) (sv_sha256 sv secret)) (\<lambda>row.
    case row of None \<Rightarrow> fail (sentinel_err ErrInvalidSession)
    | Some session \<Rightarrow>
      if \<not> session_live (sv_now sv) session then fail (sentinel_err ErrInvalidSession)
      else
      andthen (SQL_FindUserByID (sv_faults sv) (ws_UserID session)) (\<lambda>user.
      case user of None \<Rightarrow> fail (sentinel_err ErrInvalidSession)
      | Some u \<Rightarrow> if \<not> Enabled u then fail (sentinel_err ErrInvalidSession) else ret (u, session)))"

definition Session_Validate :: "Services \<Rightarrow> string \<Rightarrow> string \<Rightarrow> User sqlm" where
  "Session_Validate sv secret csrf =
    andthen (session_authenticate sv secret) (\<lambda>(user, session).
    if \<not> equalBytes (sv_sha256 sv csrf) (ws_CSRFTokenHash session) then fail (sentinel_err ErrInvalidCSRF)
    else ret user)"

definition Session_Authenticate :: "Services \<Rightarrow> string \<Rightarrow> User sqlm" where
  "Session_Authenticate sv secret = andthen (session_authenticate sv secret) (\<lambda>(user, _). ret user)"

definition Session_Revoke :: "Services \<Rightarrow> string \<Rightarrow> unit sqlm" where
  "Session_Revoke sv secret =
    andthen (FindWebSessionByHash (sv_faults sv) (sv_sha256 sv secret)) (\<lambda>row.
    case row of None \<Rightarrow> ret ()
    | Some session \<Rightarrow> RevokeWebSession (sv_faults sv) (sv_dbnow sv) (ws_ID session) (sv_now sv))"

section \<open>Administration of accounts\<close>

record NewUser =
  nu_Username :: string
  nu_Password :: string
  nu_DisplayName :: string
  nu_Email :: string
  nu_Access :: string
  nu_Enabled :: bool

record UserEdit =
  ue_Username :: "string option"
  ue_DisplayName :: "string option"
  ue_Email :: "string option"
  ue_Access :: "string option"
  ue_Enabled :: "bool option"
  ue_UpdatedAt :: time

definition FormatBool :: "bool \<Rightarrow> string" where
  "FormatBool b = (if b then ''true'' else ''false'')"

definition admin_authorize :: "Services \<Rightarrow> string \<Rightarrow> unit sqlm" where
  "admin_authorize sv actorID =
    andthen (SQL_FindUserByID (sv_faults sv) actorID) (\<lambda>row.
    case row of None \<Rightarrow> fail (sentinel_err ErrForbidden)
    | Some actor \<Rightarrow> if \<not> Enabled actor \<or> Access actor \<noteq> UserAccessAdmin
        then fail (sentinel_err ErrForbidden) else ret ())"

definition Admin_List :: "Services \<Rightarrow> string \<Rightarrow> User list sqlm" where
  "Admin_List sv actorID = andthen (admin_authorize sv actorID) (\<lambda>_. SQL_ListUsers (sv_faults sv))"

definition Admin_Create :: "Services \<Rightarrow> string \<Rightarrow> NewUser \<Rightarrow> User option sqlm" where
  "Admin_Create sv actorID input =
    andthen (admin_authorize sv actorID) (\<lambda>_.
    andthen (lift (sv_hash sv (nu_Password input))) (\<lambda>hash.
    andthen (lift (randomID sv 0)) (\<lambda>i.
    let user = \<lparr>usr_ID = i, Username = TrimSpace (nu_Username input), PasswordHash = hash,
          DisplayName = TrimSpace (nu_DisplayName input), Email = TrimSpace (nu_Email input),
          Access = nu_Access input, Enabled = nu_Enabled input, usr_CreatedAt = 0, usr_UpdatedAt = 0\<rparr> in
    CreateUserWithAudit (sv_faults sv) (sv_dbnow sv) user
      ((user_audit actorID ''user.created'' ''user'' i)\<lparr>au_ActorRole := ''admin'',
         au_Details := [(''username'', Username user), (''new_access'', Access user),
           (''enabled'', FormatBool (Enabled user))]\<rparr>))))"

definition demotes :: "User \<Rightarrow> User \<Rightarrow> bool" where
  "demotes current user \<longleftrightarrow> Enabled current \<and> Access current = UserAccessAdmin
     \<and> (\<not> Enabled user \<or> Access user \<noteq> UserAccessAdmin)"

definition update_invalidates :: "User \<Rightarrow> User \<Rightarrow> bool" where
  "update_invalidates current user \<longleftrightarrow> PasswordHash current \<noteq> PasswordHash user
     \<or> Username current \<noteq> Username user \<or> Access current \<noteq> Access user \<or> Enabled current \<and> \<not> Enabled user"

definition update_action :: "User \<Rightarrow> User \<Rightarrow> string" where
  "update_action current user =
    (if Enabled current \<and> \<not> Enabled user then ''user.disabled''
     else if Access current \<noteq> Access user then ''user.access_changed''
     else if PasswordHash current \<noteq> PasswordHash user then ''user.password_reset''
     else ''user.updated'')"

definition Admin_Update :: "Services \<Rightarrow> string \<Rightarrow> User \<Rightarrow> time \<Rightarrow> User option sqlm" where
  "Admin_Update sv actorID user expected =
    andthen (admin_authorize sv actorID) (\<lambda>_.
    andthen (SQL_FindUserByID (sv_faults sv) (usr_ID user)) (\<lambda>row.
    case row of None \<Rightarrow> ret None
    | Some current \<Rightarrow>
      andthen (if demotes current user
               then andthen (SQL_ListUsers (sv_faults sv)) (\<lambda>users.
                 if length (filter (\<lambda>u. Enabled u \<and> Access u = UserAccessAdmin) users) \<le> 1
                 then fail (sentinel_err ErrLastAdministrator) else ret ())
               else ret ()) (\<lambda>_.
      UpdateUserSecurity (sv_faults sv) (sv_dbnow sv) user expected (update_invalidates current user)
        ((user_audit actorID (update_action current user) ''user'' (usr_ID user))\<lparr>au_ActorRole := ''admin'',
           au_Details := [(''username'', Username user), (''previous_access'', Access current),
             (''new_access'', Access user), (''enabled'', FormatBool (Enabled user))]\<rparr>))))"

definition set_some :: "'a option \<Rightarrow> ('a \<Rightarrow> User \<Rightarrow> User) \<Rightarrow> User \<Rightarrow> User" where
  "set_some x f u = (case x of None \<Rightarrow> u | Some v \<Rightarrow> f v u)"

definition edit_user :: "UserEdit \<Rightarrow> User \<Rightarrow> User" where
  "edit_user input user =
    set_some (ue_Enabled input) (\<lambda>v u. u\<lparr>Enabled := v\<rparr>)
    (set_some (ue_Access input) (\<lambda>v u. u\<lparr>Access := v\<rparr>)
    (set_some (ue_Email input) (\<lambda>v u. u\<lparr>Email := TrimSpace v\<rparr>)
    (set_some (ue_DisplayName input) (\<lambda>v u. u\<lparr>DisplayName := TrimSpace v\<rparr>)
    (set_some (ue_Username input) (\<lambda>v u. u\<lparr>Username := TrimSpace v\<rparr>) user))))"

definition Admin_Edit :: "Services \<Rightarrow> string \<Rightarrow> string \<Rightarrow> UserEdit \<Rightarrow> User option sqlm" where
  "Admin_Edit sv actorID userID input =
    andthen (admin_authorize sv actorID) (\<lambda>_.
    if IsZero (ue_UpdatedAt input) then fail (errorf ''mtime is required'')
    else
    andthen (SQL_FindUserByID (sv_faults sv) userID) (\<lambda>row.
    case row of None \<Rightarrow> ret None
    | Some user \<Rightarrow> Admin_Update sv actorID (edit_user input user) (ue_UpdatedAt input)))"

definition Admin_ResetPassword :: "Services \<Rightarrow> string \<Rightarrow> string \<Rightarrow> string \<Rightarrow> User option sqlm" where
  "Admin_ResetPassword sv actorID userID password =
    andthen (admin_authorize sv actorID) (\<lambda>_.
    andthen (SQL_FindUserByID (sv_faults sv) userID) (\<lambda>row.
    case row of None \<Rightarrow> ret None
    | Some user \<Rightarrow>
      andthen (lift (sv_hash sv password)) (\<lambda>hash.
      Admin_Update sv actorID (user\<lparr>PasswordHash := hash\<rparr>) (usr_UpdatedAt user))))"

end
