(* ===== verification/OCI_Tokens.thy ===== *)
theory OCI_Tokens
  imports Accounts Resolution
begin

text \<open>
  The access tokens of the registry API (internal/auth/oci_tokens.go): signed claims that name
  a repository, the actions granted on it and the Docker token they rest on. HMAC-SHA-256 and
  the JSON encoding of the claims are parameters. Times count nanoseconds; a Unix time is their
  quotient by a second.
\<close>

record ociClaims =
  oc_UserID :: string
  oc_Username :: string
  oc_TokenHash :: string
  oc_Repository :: string
  oc_Actions :: "string list"
  oc_ExpiresAt :: int

record OCITokenService =
  oci_key :: string
  oci_now :: time
  oci_HMAC :: "string \<Rightarrow> string \<Rightarrow> string"
  oci_Marshal :: "ociClaims \<Rightarrow> string result"
  oci_Unmarshal :: "string \<Rightarrow> ociClaims result"

text \<open>A service without a key makes a random one.\<close>

definition NewOCITokenService :: "(nat \<Rightarrow> string result) \<Rightarrow> OCITokenService \<Rightarrow> OCITokenService result" where
  "NewOCITokenService random s =
    (if oci_key s = [] then
       (case random 32 of Inl e \<Rightarrow> Inl e | Inr key \<Rightarrow> Inr (s\<lparr>oci_key := key\<rparr>))
     else Inr s)"

fun containsAction :: "string list \<Rightarrow> string \<Rightarrow> bool" where
  "containsAction [] wanted = False"
| "containsAction (action # actions) wanted = (if action = wanted then True else containsAction actions wanted)"

fun normalized_from :: "string list \<Rightarrow> string list \<Rightarrow> string list" where
  "normalized_from result [] = result"
| "normalized_from result (action # actions) =
     normalized_from (if (action = ''pull'' \<or> action = ''push'') \<and> \<not> containsAction result action
       then result @ [action] else result) actions"

definition normalizedActions :: "string list \<Rightarrow> string list" where
  "normalizedActions actions = normalized_from [] actions"

definition Unix :: "time \<Rightarrow> int" where "Unix t = t div second"
definition time_Unix :: "int \<Rightarrow> time" where "time_Unix sec = sec * second"

definition sign_claims :: "OCITokenService \<Rightarrow> ociClaims \<Rightarrow> (string \<times> time) result" where
  "sign_claims s claims =
    (case oci_Marshal s claims of Inl e \<Rightarrow> Inl e
     | Inr payload \<Rightarrow>
       let encoded = RawURL_Encode payload in
       Inr (encoded @ ''.'' @ RawURL_Encode (oci_HMAC s (oci_key s) encoded), time_Unix (oc_ExpiresAt claims)))"

definition OCI_Issue ::
  "OCITokenService \<Rightarrow> Services \<Rightarrow> string \<Rightarrow> string \<Rightarrow> string \<Rightarrow> string list \<Rightarrow> (string \<times> time) sqlm" where
  "OCI_Issue s sv username secret repo actions =
    (let claims = \<lparr>oc_UserID = [], oc_Username = [], oc_TokenHash = [], oc_Repository = repo,
           oc_Actions = normalizedActions actions, oc_ExpiresAt = Unix (oci_now s + 5 * minute)\<rparr> in
     if username \<noteq> [] \<or> secret \<noteq> [] then
       andthen (AuthenticateWithToken sv username secret) (\<lambda>(user, token).
       lift (sign_claims s (claims\<lparr>oc_UserID := usr_ID user, oc_Username := Username user,
         oc_TokenHash := RawURL_Encode (dt_TokenHash token)\<rparr>)))
     else if containsAction (oc_Actions claims) ''push'' then fail (sentinel_err ErrInvalidCredentials)
     else lift (sign_claims s claims))"

text \<open>Reading a token back: the signature, the claims and their bounds.\<close>

definition OCI_claims :: "OCITokenService \<Rightarrow> string \<Rightarrow> string \<Rightarrow> string \<Rightarrow> ociClaims result" where
  "OCI_claims s raw repo action =
    (case Split CHR ''.'' raw of
       [encoded, sig] \<Rightarrow>
         (case RawURL_Decode sig of Inl _ \<Rightarrow> Inl (sentinel_err ErrInvalidAccessToken)
          | Inr signature \<Rightarrow>
            if signature \<noteq> oci_HMAC s (oci_key s) encoded then Inl (sentinel_err ErrInvalidAccessToken)
            else
            (case RawURL_Decode encoded of Inl _ \<Rightarrow> Inl (sentinel_err ErrInvalidAccessToken)
             | Inr payload \<Rightarrow>
               (case oci_Unmarshal s payload of Inl _ \<Rightarrow> Inl (sentinel_err ErrInvalidAccessToken)
                | Inr claims \<Rightarrow>
                  if \<not> oci_now s < time_Unix (oc_ExpiresAt claims) \<or> oc_Repository claims \<noteq> repo
                     \<or> action \<noteq> [] \<and> \<not> containsAction (oc_Actions claims) action
                  then Inl (sentinel_err ErrInvalidAccessToken)
                  else if oc_UserID claims = [] \<and> action \<noteq> [] \<and> action \<noteq> ''pull''
                  then Inl (sentinel_err ErrInvalidAccessToken) else Inr claims)))
     | _ \<Rightarrow> Inl (sentinel_err ErrInvalidAccessToken))"

text \<open>Any failure of the token check is reported as an invalid access token.\<close>

definition OCI_Authenticate ::
  "OCITokenService \<Rightarrow> Services \<Rightarrow> string \<Rightarrow> string \<Rightarrow> string \<Rightarrow> Principal sqlm" where
  "OCI_Authenticate s sv raw repo action =
    andthen (lift (OCI_claims s raw repo action)) (\<lambda>claims.
    if oc_UserID claims = [] then ret Anonymous
    else
    andthen (lift (case RawURL_Decode (oc_TokenHash claims) of
        Inl _ \<Rightarrow> Inl (sentinel_err ErrInvalidAccessToken) | Inr hash \<Rightarrow> Inr hash)) (\<lambda>hash.
    andthen (otherwise (sentinel_err ErrInvalidAccessToken) (ValidateHash sv (oc_UserID claims) hash)) (\<lambda>user.
    ret \<lparr>pr_Kind = KindLocalUser, pr_ID = usr_ID user, pr_Username = Username user\<rparr>)))"

end
