(* ===== verification/Accounts_Properties.thy ===== *)
theory Accounts_Properties
  imports Accounts
begin

text \<open>
  Properties of the account services: what a password change revokes, that only administrators
  administer, and the life of Docker tokens and web sessions.
\<close>

section \<open>Credentials that outlive a call\<close>

text \<open>
  A table of credentials found by hash, as the authentication functions use it: a later state
  still has each credential, of the same owner and with the same expiry, and keeps a
  revocation.
\<close>

locale credential_store =
  fixes found :: "'s \<Rightarrow> string \<Rightarrow> 'c option"
    and owner :: "'c \<Rightarrow> string"
    and revoked :: "'c \<Rightarrow> time"
    and expiry :: "'c \<Rightarrow> time"
    and later :: "'s \<Rightarrow> 's \<Rightarrow> bool"
  assumes stays: "later s s' \<Longrightarrow> found s h = Some c \<Longrightarrow> \<exists>c'. found s' h = Some c' \<and> owner c' = owner c
      \<and> expiry c' = expiry c \<and> (revoked c \<noteq> 0 \<longrightarrow> revoked c' = revoked c)"
begin

definition usable :: "time \<Rightarrow> 's \<Rightarrow> string \<Rightarrow> string \<Rightarrow> bool" where
  "usable now s user h \<longleftrightarrow> (\<exists>c. found s h = Some c \<and> owner c = user \<and> revoked c = 0 \<and> now < expiry c)"

lemma dead_stays_dead:
  "later s s' \<Longrightarrow> found s h = Some c \<Longrightarrow> \<not> usable now s user h \<Longrightarrow> now \<le> now' \<Longrightarrow> \<not> usable now' s' user h"
  using stays [of s s' h c] by (force simp: usable_def)

lemma revoked_unusable:
  "later s s' \<Longrightarrow> found s h = Some c \<Longrightarrow> owner c = user \<longrightarrow> revoked c \<noteq> 0 \<Longrightarrow> \<not> usable now s' user h"
  using stays [of s s' h c] by (force simp: usable_def)

lemma expired_unusable:
  "later s s' \<Longrightarrow> found s h = Some c \<Longrightarrow> expiry c \<le> now \<Longrightarrow> \<not> usable now s' user h"
  using stays [of s s' h c] by (force simp: usable_def)

end

abbreviation token_found :: "SecDB \<Rightarrow> string \<Rightarrow> DockerToken option" where
  "token_found db h \<equiv> find (\<lambda>t. dt_TokenHash t = h) (t_tokens db)"

abbreviation session_found :: "SecDB \<Rightarrow> string \<Rightarrow> WebSession option" where
  "session_found db h \<equiv> find (\<lambda>w. ws_TokenHash w = h) (t_sessions db)"

lemma find_SomeD: "find P xs = Some x \<Longrightarrow> P x \<and> x \<in> set xs"
  by (auto simp: find_Some_iff)

lemma find_append: "find P (xs @ ys) = (case find P xs of None \<Rightarrow> find P ys | Some x \<Rightarrow> Some x)"
  by (induction xs) auto

lemma find_map: "find P (map f xs) = map_option f (find (P \<circ> f) xs)"
  by (induction xs) auto

text \<open>Rows found by a key that changes keep.\<close>

definition found_stays :: "('s \<Rightarrow> string \<Rightarrow> 'c option) \<Rightarrow> ('c \<Rightarrow> time) \<Rightarrow> (time \<Rightarrow> 'c \<Rightarrow> 'c) \<Rightarrow> 's \<Rightarrow> 's \<Rightarrow> bool" where
  "found_stays f rv upd s s' \<longleftrightarrow> (\<forall>h c. f s h = Some c \<longrightarrow>
     (\<exists>r. f s' h = Some (upd r c) \<and> (rv c \<noteq> 0 \<longrightarrow> r = rv c)))"

abbreviation "tokens_found \<equiv> found_stays token_found dt_RevokedAt (\<lambda>r t. t\<lparr>dt_RevokedAt := r\<rparr>)"
abbreviation "sessions_found \<equiv> found_stays session_found ws_RevokedAt (\<lambda>r t. t\<lparr>ws_RevokedAt := r\<rparr>)"

lemma found_stays_preorder:
  assumes "\<And>c. upd (rv c) c = c" "\<And>r r' c. upd r (upd r' c) = upd r c" "\<And>r c. rv (upd r c) = r"
  shows "preorder (found_stays f rv upd)"
  unfolding preorder_def reflp_def transp_def found_stays_def
proof (intro conjI allI impI)
  fix x h c assume "f x h = Some c"
  then show "\<exists>r. f x h = Some (upd r c) \<and> (rv c \<noteq> 0 \<longrightarrow> r = rv c)" by (intro exI [of _ "rv c"]) (simp add: assms)
next
  fix x y z h c
  assume xy: "\<forall>h c. f x h = Some c \<longrightarrow> (\<exists>r. f y h = Some (upd r c) \<and> (rv c \<noteq> 0 \<longrightarrow> r = rv c))"
    and yz: "\<forall>h c. f y h = Some c \<longrightarrow> (\<exists>r. f z h = Some (upd r c) \<and> (rv c \<noteq> 0 \<longrightarrow> r = rv c))"
    and x: "f x h = Some c"
  from xy x obtain r where r: "f y h = Some (upd r c)" "rv c \<noteq> 0 \<longrightarrow> r = rv c" by blast
  from yz r(1) obtain r' where "f z h = Some (upd r' (upd r c))" "rv (upd r c) \<noteq> 0 \<longrightarrow> r' = rv (upd r c)" by blast
  with r(2) show "\<exists>r. f z h = Some (upd r c) \<and> (rv c \<noteq> 0 \<longrightarrow> r = rv c)" by (auto simp: assms)
qed

lemma found_stays_mono:
  "(\<And>c. upd (rv c) c = c) \<Longrightarrow> (\<And>h c. f s h = Some c \<Longrightarrow> f s' h = Some c) \<Longrightarrow> found_stays f rv upd s s'"
  unfolding found_stays_def by metis

lemma sec_reach_found:
  assumes "sec_reach db db'" shows "tokens_found db db'" and "sessions_found db db'"
proof -
  have p: "preorder tokens_found" "preorder sessions_found" by (rule found_stays_preorder; simp)+
  have m: "(P \<circ> f) = P \<Longrightarrow> find P (map f xs) = map_option f (find P xs)" for P f and xs :: "'a list"
    by (simp add: find_map)
  have t: "((\<lambda>t. dt_TokenHash t = h) \<circ> (\<lambda>x. if P x \<and> dt_RevokedAt x = 0 then x\<lparr>dt_RevokedAt := t\<rparr> else x))
      = (\<lambda>t. dt_TokenHash t = h)" for h P t by (rule ext) auto
  have w: "((\<lambda>t. ws_TokenHash t = h) \<circ> (\<lambda>x. if P x \<and> ws_RevokedAt x = 0 then x\<lparr>ws_RevokedAt := t\<rparr> else x))
      = (\<lambda>t. ws_TokenHash t = h)" for h P t by (rule ext) auto
  show "tokens_found db db'"
  proof (rule sec_reach_keeps [OF assms p(1)], rule keeps_operations [OF p(1)])
    show "tokens_found db (db\<lparr>t_tokens := t_tokens db @ [t]\<rparr>)" for db t
      by (rule found_stays_mono) (auto simp: find_append)
    show "tokens_found db (db\<lparr>t_tokens := map (\<lambda>x. if P x \<and> dt_RevokedAt x = 0 then x\<lparr>dt_RevokedAt := t\<rparr> else x) (t_tokens db)\<rparr>)" for db P t
    proof -
      have "\<exists>r. (if P c \<and> dt_RevokedAt c = 0 then c\<lparr>dt_RevokedAt := t\<rparr> else c) = c\<lparr>dt_RevokedAt := r\<rparr>
           \<and> (dt_RevokedAt c \<noteq> 0 \<longrightarrow> r = dt_RevokedAt c)" for c :: DockerToken
        by (cases "P c \<and> dt_RevokedAt c = 0") (auto intro: exI [of _ t] exI [of _ "dt_RevokedAt c"])
      then show ?thesis by (simp add: found_stays_def m [OF t])
    qed
  qed (auto intro!: found_stays_mono)
  show "sessions_found db db'"
  proof (rule sec_reach_keeps [OF assms p(2)], rule keeps_operations [OF p(2)])
    show "sessions_found db (db\<lparr>t_sessions := t_sessions db @ [t]\<rparr>)" for db t
      by (rule found_stays_mono) (auto simp: find_append)
    show "sessions_found db (db\<lparr>t_sessions := map (\<lambda>x. if P x \<and> ws_RevokedAt x = 0 then x\<lparr>ws_RevokedAt := t\<rparr> else x) (t_sessions db)\<rparr>)" for db P t
    proof -
      have "\<exists>r. (if P c \<and> ws_RevokedAt c = 0 then c\<lparr>ws_RevokedAt := t\<rparr> else c) = c\<lparr>ws_RevokedAt := r\<rparr>
           \<and> (ws_RevokedAt c \<noteq> 0 \<longrightarrow> r = ws_RevokedAt c)" for c :: WebSession
        by (cases "P c \<and> ws_RevokedAt c = 0") (auto intro: exI [of _ t] exI [of _ "ws_RevokedAt c"])
      then show ?thesis by (simp add: found_stays_def m [OF w])
    qed
  qed (auto intro!: found_stays_mono)
qed

interpretation docker_tokens: credential_store token_found dt_UserID dt_RevokedAt dt_ExpiresAt sec_reach
proof
  fix s s' h c assume "sec_reach s s'" "token_found s h = Some c"
  then show "\<exists>c'. token_found s' h = Some c' \<and> dt_UserID c' = dt_UserID c \<and> dt_ExpiresAt c' = dt_ExpiresAt c
      \<and> (dt_RevokedAt c \<noteq> 0 \<longrightarrow> dt_RevokedAt c' = dt_RevokedAt c)"
    using sec_reach_found(1) unfolding found_stays_def by fastforce
qed

definition session_end :: "WebSession \<Rightarrow> time" where
  "session_end w = min (ws_IdleExpiresAt w) (ws_AbsoluteExpiresAt w)"

interpretation web_sessions: credential_store session_found ws_UserID ws_RevokedAt session_end sec_reach
proof
  fix s s' h c assume "sec_reach s s'" "session_found s h = Some c"
  then show "\<exists>c'. session_found s' h = Some c' \<and> ws_UserID c' = ws_UserID c \<and> session_end c' = session_end c
      \<and> (ws_RevokedAt c \<noteq> 0 \<longrightarrow> ws_RevokedAt c' = ws_RevokedAt c)"
    using sec_reach_found(2) unfolding found_stays_def session_end_def by fastforce
qed

section \<open>Results of the services\<close>

lemma after_check_Inr: "after_check c m s = (Inr x, s') \<longleftrightarrow> isOK c \<and> m s = (Inr x, s')"
  by (cases c) (auto simp: after_check_def fail_def)

lemma lift_Inr: "lift r s = (Inr x, s') \<longleftrightarrow> r = Inr x \<and> s' = s"
  by (cases r) (auto simp: lift_def fail_def)

lemma find_user_Inr:
  "SQL_FindUserByID F i s = (Inr x, s') \<Longrightarrow> fst s' = fst s \<and> find (\<lambda>u. usr_ID u = i) (t_users (fst s)) = x"
  "SQL_FindUserByUsername F i s = (Inr x, s') \<Longrightarrow> fst s' = fst s \<and> find (\<lambda>u. Username u = i) (t_users (fst s)) = x"
  by (auto simp: SQL_FindUserByID_def SQL_FindUserByUsername_def findUser_def results)

lemma find_row_Inr:
  "FindDockerTokenByHash F h s = (Inr t, s') \<Longrightarrow> fst s' = fst s \<and> token_found (fst s) h = t"
  "FindWebSessionByHash F h s = (Inr w, s') \<Longrightarrow> fst s' = fst s \<and> session_found (fst s) h = w"
  by (auto simp: FindDockerTokenByHash_def FindWebSessionByHash_def results)

lemmas lookups_Inr = find_user_Inr find_row_Inr

lemma transaction_Inr:
  assumes "transaction F b c body s = (Inr x, s')"
  obtains n s2 where "body (fst s, n) = (Inr (True, x), s2)" "fst s' = fst s2"
  | n s2 where "body (fst s, n) = (Inr (False, x), s2)" "fst s' = fst s"
proof -
  have q: "query F (\<lambda>_. ()) s = (y, s1) \<Longrightarrow> s1 = (fst s, Suc (snd s))" for s s1 y
    by (auto simp: query_def sql_def split: option.splits)
  from assms have "\<exists>n s2. body (fst s, n) = (Inr (True, x), s2) \<and> fst s' = fst s2
      \<or> body (fst s, n) = (Inr (False, x), s2) \<and> fst s' = fst s"
    by (force simp: transaction_def split: sum.splits prod.splits bool.splits dest: q)
  then show thesis using that by blast
qed

lemma revoke_identity_Inr:
  "revoke_identity F u t s = (Inr x, s') \<Longrightarrow>
     t_users (fst s') = t_users (fst s)
     \<and> t_tokens (fst s') = map (\<lambda>d. if dt_UserID d = u \<and> dt_RevokedAt d = 0 then d\<lparr>dt_RevokedAt := t\<rparr> else d) (t_tokens (fst s))
     \<and> t_sessions (fst s') = map (\<lambda>w. if ws_UserID w = u \<and> ws_RevokedAt w = 0 then w\<lparr>ws_RevokedAt := t\<rparr> else w) (t_sessions (fst s))"
  by (clarsimp simp: revoke_identity_def results) (auto simp: revoke_sessions_def revoke_tokens_def)

lemma insertAuditEvent_tables:
  "insertAuditEvent F a t s = (Inr x, s') \<Longrightarrow>
     t_users (fst s') = t_users (fst s) \<and> t_tokens (fst s') = t_tokens (fst s) \<and> t_sessions (fst s') = t_sessions (fst s)"
  by (auto dest!: insertAuditEvent_Inr)

text \<open>What a password change leaves behind.\<close>

definition all_revoked :: "string \<Rightarrow> SecDB \<Rightarrow> bool" where
  "all_revoked u db \<longleftrightarrow> (\<forall>t \<in> set (t_tokens db). dt_UserID t = u \<longrightarrow> dt_RevokedAt t \<noteq> 0)
     \<and> (\<forall>w \<in> set (t_sessions db). ws_UserID w = u \<longrightarrow> ws_RevokedAt w \<noteq> 0)"

lemma ChangeUserPassword_Inr:
  assumes "ChangeUserPassword F now uid t h a s = (Inr (Some u), s')" and "0 < now"
  shows "all_revoked uid (fst s')
    \<and> map dt_TokenHash (t_tokens (fst s')) = map dt_TokenHash (t_tokens (fst s))
    \<and> map ws_TokenHash (t_sessions (fst s')) = map ws_TokenHash (t_sessions (fst s))
    \<and> (\<exists>v \<in> set (t_users (fst s)). usr_ID v = uid \<and> usr_UpdatedAt v = t)
    \<and> t_users (fst s') = map (\<lambda>v. if usr_ID v = uid \<and> usr_UpdatedAt v = t
         then v\<lparr>PasswordHash := h, usr_UpdatedAt := nextUpdatedAt now t\<rparr> else v) (t_users (fst s))"
proof -
  have pos: "nextUpdatedAt now t \<noteq> 0" for t using assms(2) by (auto simp: nextUpdatedAt_def)
  let ?sys = "au_ActorUserID a = [] \<and> au_ActorRole a = ''system'' \<and> au_Action a = ''user.password_recovered''"
  from assms(1) have t: "transaction F ''begin password change: %w'' ''commit password change: %w'' (
       andthen (query F (\<lambda>db. find (\<lambda>u. usr_ID u = uid \<and> (?sys \<or> Enabled u)) (t_users db))) (\<lambda>row.
       case row of None \<Rightarrow> ret (False, None)
       | Some user \<Rightarrow>
         if usr_UpdatedAt user \<noteq> t then fail (GoErr ''%w: user %q was modified'' [ErrConflict])
         else
         let now = nextUpdatedAt now (usr_UpdatedAt user) in
         andthen (sql F (update_users (\<lambda>r. usr_ID r = uid \<and> usr_UpdatedAt r = t)
             (\<lambda>r. r\<lparr>PasswordHash := h, usr_UpdatedAt := now\<rparr>))) (\<lambda>_.
         andthen (revoke_identity F uid now) (\<lambda>_.
         andthen (insertAuditEvent F a now) (\<lambda>_.
         ret (True, Some (user\<lparr>PasswordHash := h, usr_UpdatedAt := now\<rparr>))))))) s = (Inr (Some u), s')"
    unfolding ChangeUserPassword_def Let_def by (simp only: after_check_Inr fail_Inr split: if_splits)
  then show ?thesis
  proof (rule transaction_Inr, goal_cases)
    case (1 n s2)
    from 1(1) show ?case unfolding 1(2)
      by (clarsimp simp: results Let_def, clarsimp simp: results Let_def split: option.splits,
          clarsimp simp: results Let_def split: if_splits)
         (auto dest!: revoke_identity_Inr insertAuditEvent_tables update_users_Inr simp: find_Some_iff all_revoked_def pos comp_def
           intro: nth_mem)
  next
    case (2 n s2)
    then show ?case by (auto simp: results Let_def split: option.splits if_splits)
  qed
qed

lemma AuthenticateWithToken_Inr:
  assumes "AuthenticateWithToken sv name secret s = (Inr (u, t), s')"
  shows "fst s' = fst s \<and> token_found (fst s) (sv_sha256 sv secret) = Some t
    \<and> find (\<lambda>v. Username v = name) (t_users (fst s)) = Some u
    \<and> docker_tokens.usable (sv_now sv) (fst s) (usr_ID u) (sv_sha256 sv secret)"
  using assms
  by (clarsimp simp: AuthenticateWithToken_def andthen_Inr, clarsimp split: option.splits, clarsimp split: if_splits)
     (auto simp: token_valid_def docker_tokens.usable_def dest!: lookups_Inr)

lemma session_authenticate_Inr:
  assumes "session_authenticate sv secret s = (Inr (u, w), s')"
  shows "fst s' = fst s \<and> session_found (fst s) (sv_sha256 sv secret) = Some w \<and> Enabled u
    \<and> find (\<lambda>v. usr_ID v = ws_UserID w) (t_users (fst s)) = Some u
    \<and> web_sessions.usable (sv_now sv) (fst s) (usr_ID u) (sv_sha256 sv secret)"
  using assms
  by (clarsimp simp: session_authenticate_def andthen_Inr, clarsimp split: option.splits,
      clarsimp simp: andthen_Inr split: if_splits, clarsimp split: option.splits, clarsimp split: if_splits)
     (auto simp: session_live_def web_sessions.usable_def session_end_def dest!: lookups_Inr dest: find_SomeD)

lemma found_in_hashes: "h \<in> f ` set xs \<Longrightarrow> \<exists>c. find (\<lambda>t. f t = h) xs = Some c \<and> c \<in> set xs"
  by (induction xs) auto

lemma all_revoked_unusable:
  assumes "all_revoked uid db" "sec_reach db db'"
  shows "h \<in> dt_TokenHash ` set (t_tokens db) \<Longrightarrow> \<not> docker_tokens.usable now db' uid h"
    and "h \<in> ws_TokenHash ` set (t_sessions db) \<Longrightarrow> \<not> web_sessions.usable now db' uid h"
proof -
  show "\<not> docker_tokens.usable now db' uid h" if "h \<in> dt_TokenHash ` set (t_tokens db)"
    using found_in_hashes [OF that] assms(1) docker_tokens.revoked_unusable [OF assms(2)] by (force simp: all_revoked_def)
  show "\<not> web_sessions.usable now db' uid h" if "h \<in> ws_TokenHash ` set (t_sessions db)"
    using found_in_hashes [OF that] assms(1) web_sessions.revoked_unusable [OF assms(2)] by (force simp: all_revoked_def)
qed

section \<open>Password changes\<close>

lemma changed_row: "v \<in> set xs \<Longrightarrow> P v \<Longrightarrow> f v \<in> set (map (\<lambda>v. if P v then f v else v) xs)"
  by (induction xs) auto

lemma ChangePassword_Inr:
  assumes "ChangePassword sv uid current new s = (Inr (), s')" and "0 < sv_dbnow sv"
  shows "\<exists>h. sv_hash sv new = Inr h \<and> all_revoked uid (fst s')
    \<and> map dt_TokenHash (t_tokens (fst s')) = map dt_TokenHash (t_tokens (fst s))
    \<and> map ws_TokenHash (t_sessions (fst s')) = map ws_TokenHash (t_sessions (fst s))
    \<and> (\<exists>v \<in> set (t_users (fst s')). usr_ID v = uid \<and> PasswordHash v = h)"
proof -
  from assms(1) obtain u s1 h s2 v where
    u: "SQL_FindUserByID (sv_faults sv) uid s = (Inr (Some u), s1)" and h: "sv_hash sv new = Inr h" and
    c: "ChangeUserPassword (sv_faults sv) (sv_dbnow sv) (usr_ID u) (usr_UpdatedAt u) h
      (user_audit (usr_ID u) ''user.password_changed'' ''user'' (usr_ID u)) s1 = (Inr (Some v), s2)" "s' = s2"
    by (clarsimp simp: ChangePassword_def andthen_Inr, clarsimp split: option.splits,
        clarsimp simp: andthen_Inr lift_Inr split: if_splits, clarsimp split: option.splits)
  from find_user_Inr(1) [OF u] have i: "usr_ID u = uid" "fst s1 = fst s" by (auto dest: find_SomeD)
  from ChangeUserPassword_Inr [OF c(1) assms(2)] i obtain v where
    e: "all_revoked uid (fst s2)" "map dt_TokenHash (t_tokens (fst s2)) = map dt_TokenHash (t_tokens (fst s))"
      "map ws_TokenHash (t_sessions (fst s2)) = map ws_TokenHash (t_sessions (fst s))"
    and v: "v \<in> set (t_users (fst s))" "usr_ID v = uid \<and> usr_UpdatedAt v = usr_UpdatedAt u"
    and us: "t_users (fst s2) = map (\<lambda>v. if usr_ID v = uid \<and> usr_UpdatedAt v = usr_UpdatedAt u
         then v\<lparr>PasswordHash := h, usr_UpdatedAt := nextUpdatedAt (sv_dbnow sv) (usr_UpdatedAt u)\<rparr> else v) (t_users (fst s))"
    by auto
  have "v\<lparr>PasswordHash := h, usr_UpdatedAt := nextUpdatedAt (sv_dbnow sv) (usr_UpdatedAt u)\<rparr> \<in> set (t_users (fst s2))"
    unfolding us by (rule changed_row) (use v in simp_all)
  with h c(2) e v(2) show ?thesis
    by (intro exI [of _ h] conjI bexI [where x = "v\<lparr>PasswordHash := h, usr_UpdatedAt := nextUpdatedAt (sv_dbnow sv) (usr_UpdatedAt u)\<rparr>"])
       simp_all
qed

text \<open>
  C15: after a successful password change the account has the hash of the
  new password, and in every database reached from then on a Docker token or a web session that
  authenticates the user was created after the change: the ones that existed are dead for good.
\<close>

theorem password_change_revokes:
  assumes "ChangePassword sv uid current new (db, n) = (Inr (), (db1, n1))" and "0 < sv_dbnow sv"
    and "sec_reach db1 db2"
  shows "(\<exists>v \<in> set (t_users db1). usr_ID v = uid \<and> sv_hash sv new = Inr (PasswordHash v))
    \<and> (\<forall>sv2 name secret u t m s. AuthenticateWithToken sv2 name secret (db2, m) = (Inr (u, t), s) \<and> usr_ID u = uid
         \<longrightarrow> dt_TokenHash t \<notin> dt_TokenHash ` set (t_tokens db))
    \<and> (\<forall>sv2 secret u w m s. session_authenticate sv2 secret (db2, m) = (Inr (u, w), s) \<and> usr_ID u = uid
         \<longrightarrow> ws_TokenHash w \<notin> ws_TokenHash ` set (t_sessions db))"
proof -
  from ChangePassword_Inr [OF assms(1,2)] obtain h where h: "sv_hash sv new = Inr h" "all_revoked uid db1"
    "map dt_TokenHash (t_tokens db1) = map dt_TokenHash (t_tokens db)"
    "map ws_TokenHash (t_sessions db1) = map ws_TokenHash (t_sessions db)"
    "\<exists>v \<in> set (t_users db1). usr_ID v = uid \<and> PasswordHash v = h" by auto
  have s: "dt_TokenHash ` set (t_tokens db1) = dt_TokenHash ` set (t_tokens db)"
    "ws_TokenHash ` set (t_sessions db1) = ws_TokenHash ` set (t_sessions db)" using h(3,4) by (metis set_map)+
  note dead = all_revoked_unusable [OF h(2) assms(3), unfolded s]
  show ?thesis
  proof (intro conjI allI impI)
    show "\<exists>v \<in> set (t_users db1). usr_ID v = uid \<and> sv_hash sv new = Inr (PasswordHash v)" using h(1,5) by auto
  next
    fix sv2 name secret u t m s
    assume a: "AuthenticateWithToken sv2 name secret (db2, m) = (Inr (u, t), s) \<and> usr_ID u = uid"
    then have u: "token_found db2 (sv_sha256 sv2 secret) = Some t" "usr_ID u = uid"
      "docker_tokens.usable (sv_now sv2) db2 (usr_ID u) (sv_sha256 sv2 secret)"
      using AuthenticateWithToken_Inr [OF a [THEN conjunct1]] by simp_all
    from u(1) have "dt_TokenHash t = sv_sha256 sv2 secret" by (rule find_SomeD [THEN conjunct1])
    with u(2,3) dead(1) show "dt_TokenHash t \<notin> dt_TokenHash ` set (t_tokens db)" by metis
  next
    fix sv2 secret u w m s
    assume a: "session_authenticate sv2 secret (db2, m) = (Inr (u, w), s) \<and> usr_ID u = uid"
    then have u: "session_found db2 (sv_sha256 sv2 secret) = Some w" "usr_ID u = uid"
      "web_sessions.usable (sv_now sv2) db2 (usr_ID u) (sv_sha256 sv2 secret)"
      using session_authenticate_Inr [OF a [THEN conjunct1]] by simp_all
    from u(1) have "ws_TokenHash w = sv_sha256 sv2 secret" by (rule find_SomeD [THEN conjunct1])
    with u(2,3) dead(2) show "ws_TokenHash w \<notin> ws_TokenHash ` set (t_sessions db)" by metis
  qed
qed

section \<open>Administrators only\<close>

lemma andthen_Inl: "m s = (Inl e, s1) \<Longrightarrow> andthen m k s = (Inl e, s1)"
  by (simp add: andthen_def)

lemma admin_authorize_refused:
  assumes "\<not> (\<exists>u \<in> set (t_users db). usr_ID u = actor \<and> Enabled u \<and> Access u = UserAccessAdmin)"
  obtains e n' where "admin_authorize sv actor (db, n) = (Inl e, (db, n'))" "errors_Is e ErrForbidden \<or> (\<exists>k. sv_faults sv k \<noteq> None)"
proof -
  let ?r = "admin_authorize sv actor (db, n)"
  have k: "keeps (=) (admin_authorize sv actor)"
    unfolding admin_authorize_def SQL_FindUserByID_def findUser_def by (intro keeps_intros) auto
  obtain x s where r: "?r = (x, s)" by (metis surj_pair)
  have db: "fst s = db" using keepsD [OF k r] by simp
  have "x \<noteq> Inr y" for y
  proof
    assume "x = Inr y"
    with r assms show False
      by (clarsimp simp: admin_authorize_def andthen_Inr, clarsimp split: option.splits, clarsimp split: if_splits)
         (auto dest!: find_user_Inr(1) find_SomeD)
  qed
  then obtain e where e: "x = Inl e" by (cases x) auto
  show thesis
  proof (cases "\<exists>k. sv_faults sv k \<noteq> None")
    case True
    then show ?thesis using that [of e "snd s"] r e db by (metis prod.collapse)
  next
    case False
    then have "errors_Is e ErrForbidden" using r e
      by (auto simp: admin_authorize_def SQL_FindUserByID_def findUser_def andthen_def wrapping_def query_def sql_def
          fail_def ret_def split: option.splits if_splits)
    then show ?thesis using that [of e "snd s"] r e db by (metis prod.collapse)
  qed
qed

text \<open>
  An administrative call by anyone who is not an enabled administrator
  fails and leaves the database alone, and fails as forbidden when the database works.
\<close>

theorem only_administrators:
  assumes "\<not> (\<exists>u \<in> set (t_users db). usr_ID u = actor \<and> Enabled u \<and> Access u = UserAccessAdmin)"
  shows "\<exists>e n'. (errors_Is e ErrForbidden \<or> (\<exists>k. sv_faults sv k \<noteq> None))
    \<and> Admin_List sv actor (db, n) = (Inl e, (db, n'))
    \<and> Admin_Create sv actor new (db, n) = (Inl e, (db, n'))
    \<and> Admin_Update sv actor user expected (db, n) = (Inl e, (db, n'))
    \<and> Admin_Edit sv actor uid edit (db, n) = (Inl e, (db, n'))
    \<and> Admin_ResetPassword sv actor uid password (db, n) = (Inl e, (db, n'))"
proof (rule admin_authorize_refused [OF assms, of sv n])
  fix e n'
  assume "admin_authorize sv actor (db, n) = (Inl e, (db, n'))" "errors_Is e ErrForbidden \<or> (\<exists>k. sv_faults sv k \<noteq> None)"
  then show ?thesis
    by (intro exI [of _ e] exI [of _ n'] conjI)
       (simp_all add: Admin_List_def Admin_Create_def Admin_Update_def Admin_Edit_def Admin_ResetPassword_def andthen_Inl)
qed

section \<open>The life of a Docker token\<close>

definition working :: "Services \<Rightarrow> bool" where
  "working sv \<longleftrightarrow> (\<forall>k. sv_faults sv k = None)"

lemma working_lookups:
  assumes "working sv"
  shows "SQL_FindUserByID (sv_faults sv) i s = (Inr (find (\<lambda>u. usr_ID u = i) (t_users (fst s))), (fst s, snd s + 2))"
    and "SQL_FindUserByUsername (sv_faults sv) i s = (Inr (find (\<lambda>u. Username u = i) (t_users (fst s))), (fst s, snd s + 2))"
    and "FindDockerTokenByHash (sv_faults sv) h s = (Inr (token_found (fst s) h), (fst s, Suc (snd s)))"
    and "FindWebSessionByHash (sv_faults sv) h s = (Inr (session_found (fst s) h), (fst s, Suc (snd s)))"
  using assms
  by (simp_all add: working_def SQL_FindUserByID_def SQL_FindUserByUsername_def findUser_def andthen_def query_def sql_def
      wrapping_def FindDockerTokenByHash_def FindWebSessionByHash_def)

lemma working_token:
  assumes "working sv"
  shows "fst (AuthenticateWithToken sv name secret s) =
    (case (find (\<lambda>u. Username u = name) (t_users (fst s)), token_found (fst s) (sv_sha256 sv secret)) of
       (Some u, Some t) \<Rightarrow> if token_valid (sv_now sv) u t then Inr (u, t) else Inl (sentinel_err ErrInvalidCredentials)
     | _ \<Rightarrow> Inl (sentinel_err ErrInvalidCredentials))"
  by (simp add: AuthenticateWithToken_def andthen_def working_lookups [OF assms] fail_def ret_def split: option.split)

lemma CreateDockerTokenWithAudit_Inr:
  assumes "CreateDockerTokenWithAudit F now token audit s = (Inr t, s')"
  shows "(\<exists>c. t = token\<lparr>dt_CreatedAt := c\<rparr>) \<and> t_users (fst s') = t_users (fst s)
    \<and> (\<exists>u \<in> set (t_users (fst s)). usr_ID u = dt_UserID token \<and> Enabled u)
    \<and> t_tokens (fst s') = t_tokens (fst s) @ [t\<lparr>dt_RevokedAt := 0, dt_LastUsed := 0\<rparr>]
    \<and> token_found (fst s) (dt_TokenHash token) = None"
proof -
  have "au_ActorUserID audit = dt_UserID token"
    by (rule ccontr) (use assms in \<open>simp add: CreateDockerTokenWithAudit_def after_check_Inr\<close>)
  with assms have t: "transaction F ''begin docker token creation: %w'' ''commit docker token creation: %w'' (
      andthen (otherwise (GoErr ''%w: token user is not enabled'' [ErrConflict])
          (query F (\<lambda>db. find (\<lambda>u. usr_ID u = dt_UserID token) (t_users db)))) (\<lambda>row.
      case row of None \<Rightarrow> fail (GoErr ''%w: token user is not enabled'' [ErrConflict])
      | Some u \<Rightarrow>
        if \<not> Enabled u then fail (GoErr ''%w: token user is not enabled'' [ErrConflict])
        else
        let token = (if IsZero (dt_CreatedAt token) then token\<lparr>dt_CreatedAt := now\<rparr> else token) in
        andthen (wrapping ''insert docker token: %w''
            (sql F (insert_token (token\<lparr>dt_RevokedAt := 0, dt_LastUsed := 0\<rparr>)))) (\<lambda>_.
        andthen (insertAuditEvent F audit (dt_CreatedAt token)) (\<lambda>_. ret (True, token))))) s = (Inr t, s')"
    unfolding CreateDockerTokenWithAudit_def after_check_Inr by simp
  have c: "\<exists>c. token = token\<lparr>dt_CreatedAt := c\<rparr>" by (rule exI [of _ "dt_CreatedAt token"]) simp
  from t show ?thesis
  proof (rule transaction_Inr, goal_cases)
    case (1 n s2)
    from 1(1) show ?case unfolding 1(2)
      by (clarsimp simp: results Let_def, clarsimp simp: results Let_def split: option.splits,
          clarsimp simp: results Let_def split: if_splits)
         (use c in \<open>auto 4 3 dest!: insert_token_Inr insertAuditEvent_tables find_SomeD simp: find_None_iff image_iff\<close>)
  next
    case (2 n s2)
    then show ?case by (clarsimp simp: results Let_def split: option.splits if_splits)
  qed
qed

text \<open>
  An issued Docker token authenticates its user by name and secret until it
  expires, and in no later database from its expiry on; the secret itself is not in the answer's
  record, and a lifetime above 90 days is never granted.
\<close>

theorem token_lifecycle:
  assumes "Token_Issue sv uid label lifetime (db, n) = (Inr issued, (db1, n1))" and "keys_ok (t_users db)"
    and "working sv2" and "sv_sha256 sv2 = sv_sha256 sv"
  shows "lifetime \<le> 90 * 24 * hour \<and> dt_TokenHash (is_Token issued) = []
    \<and> (\<exists>u \<in> set (t_users db). usr_ID u = uid
        \<and> (sv_now sv2 < sv_now sv + lifetime \<longrightarrow> (\<exists>t. dt_ID t = dt_ID (is_Token issued) \<and> dt_UserID t = uid
             \<and> fst (AuthenticateWithToken sv2 (Username u) (is_Secret issued) (db1, m)) = Inr (u, t)))
        \<and> (sv_now sv + lifetime \<le> sv_now sv2 \<longrightarrow> (\<forall>db2 name. sec_reach db1 db2 \<longrightarrow>
             fst (AuthenticateWithToken sv2 name (is_Secret issued) (db2, m)) = Inl (sentinel_err ErrInvalidCredentials))))"
proof -
  from assms(1) obtain i secret t where life: "lifetime \<le> 90 * 24 * hour"
    and t: "CreateDockerTokenWithAudit (sv_faults sv) (sv_dbnow sv)
         \<lparr>dt_ID = i, dt_UserID = uid, dt_Label = TrimSpace label, dt_TokenHash = sv_sha256 sv secret,
          dt_CreatedAt = 0, dt_ExpiresAt = sv_now sv + lifetime, dt_RevokedAt = 0, dt_LastUsed = 0\<rparr>
         (user_audit uid ''docker_token.created'' ''docker_token'' i) (db, n) = (Inr t, (db1, n1))"
    and issued: "issued = \<lparr>is_Token = t\<lparr>dt_TokenHash := []\<rparr>, is_Secret = secret\<rparr>"
    by (auto simp: Token_Issue_def Let_def andthen_Inr lift_Inr fail_def split: if_splits)
  from CreateDockerTokenWithAudit_Inr [OF t] obtain c u where
    tc: "t = \<lparr>dt_ID = i, dt_UserID = uid, dt_Label = TrimSpace label, dt_TokenHash = sv_sha256 sv secret,
          dt_CreatedAt = c, dt_ExpiresAt = sv_now sv + lifetime, dt_RevokedAt = 0, dt_LastUsed = 0\<rparr>"
    and us: "t_users db1 = t_users db" and u: "u \<in> set (t_users db)" "usr_ID u = uid" "Enabled u"
    and ts: "t_tokens db1 = t_tokens db @ [t]" and none: "token_found db (sv_sha256 sv secret) = None" by auto
  have f: "token_found db1 (sv_sha256 sv secret) = Some t" using none by (simp add: ts find_append tc)
  have n: "find (\<lambda>v. Username v = Username u) (t_users db) = Some u"
    using u(1) assms(2) by (auto simp: keys_ok_def find_Some_iff in_set_conv_nth distinct_conv_nth)
  show ?thesis
  proof (intro conjI bexI [OF _ u(1)] impI allI)
    show "lifetime \<le> 90 * 24 * hour" by (rule life)
    show "dt_TokenHash (is_Token issued) = []" by (simp add: issued)
    show "usr_ID u = uid" by (rule u)
    show "\<exists>t. dt_ID t = dt_ID (is_Token issued) \<and> dt_UserID t = uid
        \<and> fst (AuthenticateWithToken sv2 (Username u) (is_Secret issued) (db1, m)) = Inr (u, t)" if "sv_now sv2 < sv_now sv + lifetime"
      using that n f u assms(4) by (intro exI [of _ t]) (simp add: working_token [OF assms(3)] issued us token_valid_def tc)
  next
    fix db2 name
    assume e: "sv_now sv + lifetime \<le> sv_now sv2" and r: "sec_reach db1 db2"
    from docker_tokens.stays [OF r f] e obtain t' where "token_found db2 (sv_sha256 sv secret) = Some t'"
      "\<not> sv_now sv2 < dt_ExpiresAt t'" by (auto simp: tc)
    then show "fst (AuthenticateWithToken sv2 name (is_Secret issued) (db2, m)) = Inl (sentinel_err ErrInvalidCredentials)"
      using assms(4) by (simp add: working_token [OF assms(3)] issued token_valid_def split: option.split)
  qed
qed

section \<open>The life of a web session\<close>

lemma equalBytes_iff: "equalBytes a b \<longleftrightarrow> a = b"
proof -
  have or0: "v OR x = 0 \<longleftrightarrow> v = 0 \<and> x = 0" for v x :: "8 word" by (metis or.right_neutral or_eq_0_iff)
  have x0: "(of_char x :: 8 word) XOR of_char y = 0 \<longleftrightarrow> x = y" for x y
  proof -
    have "(of_char x :: 8 word) XOR of_char y = 0 \<longleftrightarrow> (of_char x :: 8 word) = of_char y"
      by (metis xor_self_eq xor.assoc xor.right_neutral xor.left_neutral)
    also have "\<dots> \<longleftrightarrow> x = y"
    proof
      assume "(of_char x :: 8 word) = of_char y"
      then have "unat (of_nat (of_char x) :: 8 word) = unat (of_nat (of_char y) :: 8 word)" by (simp only: of_nat_of_char)
      then show "x = y" by (simp add: unat_of_nat nat_of_char_less_256)
    qed simp
    finally show ?thesis .
  qed
  have "length a = length b \<Longrightarrow> fold (\<lambda>(x, y) v. v OR (of_char x XOR of_char y)) (zip a b) v = 0 \<longleftrightarrow> v = 0 \<and> a = b" for v :: "8 word"
    by (induction a b arbitrary: v rule: list_induct2) (auto simp: or0 x0)
  then show ?thesis by (auto simp: equalBytes_def)
qed

lemma CreateWebSession_Inr:
  assumes "CreateWebSession F now w s = (Inr v, s')"
  shows "(\<exists>c l. v = w\<lparr>ws_CreatedAt := c, ws_LastSeenAt := l\<rparr>) \<and> t_users (fst s') = t_users (fst s)
    \<and> t_sessions (fst s') = t_sessions (fst s) @ [v] \<and> session_found (fst s) (ws_TokenHash w) = None
    \<and> (\<exists>u \<in> set (t_users (fst s)). usr_ID u = ws_UserID w)"
proof -
  define w1 where "w1 = (if IsZero (ws_CreatedAt w) then w\<lparr>ws_CreatedAt := now\<rparr> else w)"
  define w2 where "w2 = (if IsZero (ws_LastSeenAt w1) then w1\<lparr>ws_LastSeenAt := ws_CreatedAt w1\<rparr> else w1)"
  have w1: "\<exists>c. w1 = w\<lparr>ws_CreatedAt := c\<rparr>"
    by (cases "IsZero (ws_CreatedAt w)") (auto simp: w1_def intro: exI [of _ "ws_CreatedAt w"])
  have w2: "\<exists>l. w2 = w1\<lparr>ws_LastSeenAt := l\<rparr>"
    by (cases "IsZero (ws_LastSeenAt w1)") (auto simp: w2_def intro: exI [of _ "ws_LastSeenAt w1"])
  from w1 w2 have e: "\<exists>c l. w2 = w\<lparr>ws_CreatedAt := c, ws_LastSeenAt := l\<rparr>" by auto
  from assms have v: "v = w2" "insert_session w2 (fst s) = Inr ((), fst s')"
    unfolding CreateWebSession_def Let_def w1_def [symmetric] w2_def [symmetric]
    by (auto simp: after_check_Inr results)
  from e have "ws_TokenHash w2 = ws_TokenHash w" "ws_UserID w2 = ws_UserID w" by auto
  with insert_session_Inr [OF v(2)] e v(1) show ?thesis
    by (force simp: find_None_iff image_iff)
qed

text \<open>
  C25: a web session made for an enabled user is accepted with its secret and
  its CSRF token until the idle or the absolute lifetime is over, whichever comes first, counted
  from its creation; with another CSRF token of a different hash it is refused; and no later
  database accepts it from that moment on, however recently it was used.
\<close>

theorem session_lifecycle:
  assumes "Session_Create sv l uid (db, n) = (Inr issued, (db1, n1))" and "keys_ok (t_users db)"
    and "working sv2" and "sv_sha256 sv2 = sv_sha256 sv"
    and "u \<in> set (t_users db)" "usr_ID u = uid" "Enabled u"
  shows "if sv_now sv2 < sv_now sv + min (sl_idle l) (sl_absolute l)
    then fst (Session_Validate sv2 (iw_Secret issued) (iw_CSRFToken issued) (db1, m)) = Inr u
      \<and> (\<forall>csrf. sv_sha256 sv csrf \<noteq> sv_sha256 sv (iw_CSRFToken issued)
           \<longrightarrow> fst (Session_Validate sv2 (iw_Secret issued) csrf (db1, m)) = Inl (sentinel_err ErrInvalidCSRF))
    else \<forall>db2 csrf. sec_reach db1 db2
           \<longrightarrow> fst (Session_Validate sv2 (iw_Secret issued) csrf (db2, m)) = Inl (sentinel_err ErrInvalidSession)"
proof -
  from assms(1) obtain i secret csrf w where
    w: "CreateWebSession (sv_faults sv) (sv_dbnow sv)
        \<lparr>ws_ID = i, ws_UserID = uid, ws_TokenHash = sv_sha256 sv secret, ws_CSRFTokenHash = sv_sha256 sv csrf,
         ws_CreatedAt = 0, ws_LastSeenAt = 0, ws_IdleExpiresAt = sv_now sv + sl_idle l,
         ws_AbsoluteExpiresAt = sv_now sv + sl_absolute l, ws_RevokedAt = 0\<rparr> (db, n) = (Inr w, (db1, n1))"
    and issued: "iw_Secret issued = secret" "iw_CSRFToken issued = csrf"
    by (auto simp: Session_Create_def andthen_Inr lift_Inr)
  from CreateWebSession_Inr [OF w] obtain c ls where
    wc: "w = \<lparr>ws_ID = i, ws_UserID = uid, ws_TokenHash = sv_sha256 sv secret, ws_CSRFTokenHash = sv_sha256 sv csrf,
         ws_CreatedAt = c, ws_LastSeenAt = ls, ws_IdleExpiresAt = sv_now sv + sl_idle l,
         ws_AbsoluteExpiresAt = sv_now sv + sl_absolute l, ws_RevokedAt = 0\<rparr>"
    and us: "t_users db1 = t_users db" and ss: "t_sessions db1 = t_sessions db @ [w]"
    and none: "session_found db (sv_sha256 sv secret) = None" by auto
  have f: "session_found db1 (sv_sha256 sv secret) = Some w" using none by (simp add: ss find_append wc)
  have n: "find (\<lambda>v. usr_ID v = uid) (t_users db) = Some u"
    using assms(2,5,6) by (auto simp: keys_ok_def find_Some_iff in_set_conv_nth distinct_conv_nth)
  show ?thesis
  proof (cases "sv_now sv2 < sv_now sv + min (sl_idle l) (sl_absolute l)")
    case True
    then have "session_live (sv_now sv2) w" by (auto simp: session_live_def wc min_def split: if_splits)
    then have "fst (Session_Validate sv2 secret csrf' (db1, m)) =
        (if equalBytes (sv_sha256 sv csrf') (sv_sha256 sv csrf) then Inr u else Inl (sentinel_err ErrInvalidCSRF))" for csrf'
      using f n assms(4,7) by (simp add: Session_Validate_def session_authenticate_def andthen_def
          working_lookups [OF assms(3)] us ret_def fail_def) (simp add: wc ret_def fail_def n)
    with True show ?thesis by (simp add: issued equalBytes_iff)
  next
    case False
    have "fst (Session_Validate sv2 secret csrf' (db2, m)) = Inl (sentinel_err ErrInvalidSession)" if r: "sec_reach db1 db2" for db2 csrf'
    proof -
      from web_sessions.stays [OF r f] obtain w' where w': "session_found db2 (sv_sha256 sv secret) = Some w'"
        "session_end w' = session_end w" by blast
      have "session_end w = sv_now sv + min (sl_idle l) (sl_absolute l)" by (simp add: session_end_def wc min_def)
      with w'(2) False have "\<not> sv_now sv2 < session_end w'" by simp
      then have "\<not> session_live (sv_now sv2) w'" by (auto simp: session_live_def session_end_def)
      note w'(1) this
      then show ?thesis using assms(4)
        by (simp add: Session_Validate_def session_authenticate_def andthen_def working_lookups [OF assms(3)] fail_def)
    qed
    with False show ?thesis by (simp add: issued)
  qed
qed

section \<open>Instances\<close>

definition ax_sv :: Services where
  "ax_sv = \<lparr>sv_faults = (\<lambda>_. None), sv_now = 100, sv_dbnow = 100,
     sv_random = (\<lambda>k n. Inr (replicate n (if k = 0 then CHR ''i'' else if k = 1 then CHR ''s'' else CHR ''c''))),
     sv_sha256 = (\<lambda>s. take 32 (rev s @ replicate 32 (CHR ''0''))), sv_argon = px_argon, sv_hasher = px_hasher\<rparr>"

definition ax_user :: User where
  "ax_user = \<lparr>usr_ID = ''1'', Username = ''root'', PasswordHash = ''h'', DisplayName = [],
     Email = [], Access = UserAccessAdmin, Enabled = True, usr_CreatedAt = 1, usr_UpdatedAt = 1\<rparr>"

definition ax_db :: SecDB where "ax_db = empty_db\<lparr>t_users := [ax_user]\<rparr>"

lemma ax_simps: "t_users ax_db = [ax_user]" "usr_ID ax_user = ''1''" "Username ax_user = ''root''" "Enabled ax_user"
  "keys_ok (t_users ax_db)" "working ax_sv" "working (ax_sv\<lparr>sv_now := t\<rparr>)" "sv_now ax_sv = 100"
  by (simp_all add: ax_db_def ax_user_def keys_ok_def working_def ax_sv_def)

lemma ax_issue: "isOK (fst (Token_Issue ax_sv ''1'' ''ci'' 50 (ax_db, 0)))"
  by code_simp

theorem token_lifecycle_witness:
  "\<exists>secret u t. fst (AuthenticateWithToken (ax_sv\<lparr>sv_now := 149\<rparr>) ''root'' secret
      (fst (snd (Token_Issue ax_sv ''1'' ''ci'' 50 (ax_db, 0))), 0)) = Inr (u, t)"
proof -
  obtain issued db1 n1 where i: "Token_Issue ax_sv ''1'' ''ci'' 50 (ax_db, 0) = (Inr issued, (db1, n1))"
    using ax_issue by (cases "Token_Issue ax_sv ''1'' ''ci'' 50 (ax_db, 0)") (auto simp: isOK_iff)
  from token_lifecycle [OF i ax_simps(5,7), of 149 0] have
    "\<exists>t. fst (AuthenticateWithToken (ax_sv\<lparr>sv_now := 149\<rparr>) ''root'' (is_Secret issued) (db1, 0)) = Inr (ax_user, t)"
    by (auto simp: ax_simps)
  then show ?thesis unfolding i fst_conv snd_conv by blast
qed

lemma ax_session: "isOK (fst (Session_Create ax_sv \<lparr>sl_idle = 30, sl_absolute = 60\<rparr> ''1'' (ax_db, 0)))"
  by code_simp

theorem session_lifecycle_witness:
  "\<exists>secret. fst (Session_Validate (ax_sv\<lparr>sv_now := 130\<rparr>) secret []
      (fst (snd (Session_Create ax_sv \<lparr>sl_idle = 30, sl_absolute = 60\<rparr> ''1'' (ax_db, 0))), 0)) = Inl (sentinel_err ErrInvalidSession)"
proof -
  let ?c = "Session_Create ax_sv \<lparr>sl_idle = 30, sl_absolute = 60\<rparr> ''1'' (ax_db, 0)"
  obtain issued db1 n1 where i: "?c = (Inr issued, (db1, n1))"
    using ax_session by (cases ?c) (auto simp: isOK_iff)
  have "sec_reach db1 db1" by (rule sec_reach.start)
  with session_lifecycle [OF i ax_simps(5,7), of 130 ax_user 0] have
    "fst (Session_Validate (ax_sv\<lparr>sv_now := 130\<rparr>) (iw_Secret issued) [] (db1, 0)) = Inl (sentinel_err ErrInvalidSession)"
    by (simp add: ax_simps)
  then show ?thesis unfolding i fst_conv snd_conv by blast
qed

theorem only_administrators_witness:
  "\<exists>e n. Admin_ResetPassword ax_sv ''2'' ''1'' ''correct horse battery'' (ax_db, 0) = (Inl e, (ax_db, n)) \<and> errors_Is e ErrForbidden"
proof -
  have "\<not> (\<exists>u \<in> set (t_users ax_db). usr_ID u = ''2'' \<and> Enabled u \<and> Access u = UserAccessAdmin)" by (simp add: ax_simps)
  from only_administrators [OF this, of ax_sv 0] show ?thesis
    using ax_simps(6) unfolding working_def by (metis option.distinct(1))
qed

lemma working_sql:
  assumes "\<forall>k. F k = None"
  shows "f db = Inr (x, db') \<Longrightarrow> sql F f (db, n) = (Inr x, (db', Suc n))" and "query F q (db, n) = (Inr (q db), (db, Suc n))"
  using assms by (simp_all add: query_def sql_def)

lemma ChangeUserPassword_succeeds:
  assumes F: "\<forall>k. F k = None" and k: "keys_ok (t_users db)"
    and acc: "\<forall>v \<in> set (t_users db). Access v \<in> {UserAccessUser, UserAccessAdmin}"
    and u: "u \<in> set (t_users db)" "usr_ID u \<noteq> []" "Enabled u" and h: "h \<noteq> []"
  shows "\<exists>v s'. ChangeUserPassword F now (usr_ID u) (usr_UpdatedAt u) h (user_audit (usr_ID u) ''user.password_changed'' ''user'' (usr_ID u)) (db, n)
     = (Inr (Some v), s')"
proof -
  let ?a = "user_audit (usr_ID u) ''user.password_changed'' ''user'' (usr_ID u)"
  let ?t = "nextUpdatedAt now (usr_UpdatedAt u)"
  let ?P = "\<lambda>v. usr_ID v = usr_ID u \<and> usr_UpdatedAt v = usr_UpdatedAt u"
  let ?f = "\<lambda>v. v\<lparr>PasswordHash := h, usr_UpdatedAt := ?t\<rparr>"
  obtain db1 where upd: "update_users ?P ?f db = Inr (length (filter ?P (t_users db)), db1)"
  proof -
    have m: "map Username (map (\<lambda>v. if ?P v then ?f v else v) xs) = map Username xs"
      "map usr_ID (map (\<lambda>v. if ?P v then ?f v else v) xs) = map usr_ID xs" for xs by auto
    have "\<not> (\<exists>v \<in> set (map (\<lambda>v. if ?P v then ?f v else v) (t_users db)). Access v \<notin> {UserAccessUser, UserAccessAdmin})"
      using acc by auto
    then show thesis using that k unfolding update_users_def Let_def m keys_ok_def by (simp del: map_map)
  qed
  obtain db2 where rev: "revoke_identity F (usr_ID u) ?t (db1, m) = (Inr (), (db2, Suc (Suc m)))" for m
    using F by (simp add: revoke_identity_def andthen_def sql_def revoke_sessions_def revoke_tokens_def ret_def)
  have aud: "\<exists>row s'. insertAuditEvent F ?a ?t s = (Inr row, s')" for s
    using F by (simp add: insertAuditEvent_def wrapping_def sql_def Let_def)
  have fnd: "find (\<lambda>v. usr_ID v = usr_ID u \<and> Enabled v) (t_users db) = Some u"
    using k u(1,3) by (auto simp: keys_ok_def find_Some_iff in_set_conv_nth distinct_conv_nth)
  have sys: "(au_ActorUserID ?a = [] \<and> au_ActorRole ?a = ''system'' \<and> au_Action ?a = ''user.password_recovered'') = False"
    "au_ActorUserID ?a = usr_ID u" "au_ActorRole ?a = ''user''" and val: "validateAuditEvent ?a = Inr ()"
    using u(2) by (simp_all add: user_audit_def validateAuditEvent_def)
  have upd3: "sql F (update_users ?P ?f) (db, m) = (Inr (length (filter ?P (t_users db))), (db1, Suc m))" for m
    by (rule working_sql(1) [OF F]) (rule upd)
  have com: "query F q s = (Inr (q (fst s)), (fst s, Suc (snd s)))" for q s
    using working_sql(2) [OF F, of q "fst s" "snd s"] by simp
  obtain row s3 where aud3: "insertAuditEvent F ?a ?t (db2, Suc (Suc (Suc (Suc (Suc n))))) = (Inr row, s3)" using aud by blast
  show ?thesis
    using F h
    by (simp only: ChangeUserPassword_def Let_def sys val after_check_def sum.case simp_thms if_False)
       (simp add: transaction_def wrapping_def working_sql [OF F] andthen_def fnd upd3 rev aud3 ret_def com)
qed

lemma ChangePassword_succeeds:
  assumes "working sv" and k: "keys_ok (t_users db)" and acc: "\<forall>v \<in> set (t_users db). Access v \<in> {UserAccessUser, UserAccessAdmin}"
    and u: "u \<in> set (t_users db)" "usr_ID u \<noteq> []" "Enabled u"
    and p: "sv_verify sv (PasswordHash u) current" "sv_hash sv new = Inr h" "h \<noteq> []"
  shows "isOK (fst (ChangePassword sv (usr_ID u) current new (db, n)))"
proof -
  have F: "\<forall>k. sv_faults sv k = None" using assms(1) by (simp add: working_def)
  have f: "find (\<lambda>v. usr_ID v = usr_ID u) (t_users db) = Some u"
    using k u(1) by (auto simp: keys_ok_def find_Some_iff in_set_conv_nth distinct_conv_nth)
  obtain v s' where "ChangeUserPassword (sv_faults sv) (sv_dbnow sv) (usr_ID u) (usr_UpdatedAt u) h
      (user_audit (usr_ID u) ''user.password_changed'' ''user'' (usr_ID u)) (db, n + 2) = (Inr (Some v), s')"
    using ChangeUserPassword_succeeds [OF F k acc u p(3)] by blast
  then show ?thesis
    using u(3) p(1,2) by (simp add: ChangePassword_def andthen_def working_lookups [OF assms(1)] f lift_def ret_def)
qed

definition cx_hash :: "string \<Rightarrow> string" where
  "cx_hash password = format_hash px_argon DefaultPasswordParams (replicate 16 (CHR ''s''))
     (derived px_argon px_hasher password (replicate 16 (CHR ''s'')))"

lemma cx_hash_ne: "cx_hash password \<noteq> []"
  by (simp add: cx_hash_def format_hash_def)

lemma cx_hash: "validatePassword password = Inr () \<Longrightarrow> sv_hash ax_sv password = Inr (cx_hash password)"
  by (simp add: sv_hash_def ax_sv_def Hash_Inr cx_hash_def px_hasher_def derived_def DefaultPasswordParams_def validatePasswordParams_def)

definition cx_db :: SecDB where
  "cx_db = ax_db\<lparr>t_users := [ax_user\<lparr>PasswordHash := cx_hash ''correct horse battery''\<rparr>]\<rparr>"

lemma cx_valid: "validatePassword ''correct horse battery'' = Inr ()" "validatePassword ''battery horse correct'' = Inr ()"
  by code_simp+

lemma cx_change: "isOK (fst (ChangePassword ax_sv ''1'' ''correct horse battery'' ''battery horse correct'' (cx_db, 0)))"
proof -
  have a: "sizes_ok px_argon px_hasher" "params_fit (ph_params px_hasher)"
    by (auto simp: sizes_ok_def px_argon_def px_hasher_def params_fit_def DefaultPasswordParams_def)
  have "Hash px_argon px_hasher ''correct horse battery'' = Inr (cx_hash ''correct horse battery'')"
    using cx_hash [OF cx_valid(1)] by (simp add: sv_hash_def ax_sv_def)
  then have "sv_verify ax_sv (cx_hash ''correct horse battery'') ''correct horse battery''"
    by (rule Verify_own [OF a]) (simp add: sv_verify_def ax_sv_def)
  moreover have "keys_ok (t_users cx_db)" "\<forall>v \<in> set (t_users cx_db). Access v \<in> {UserAccessUser, UserAccessAdmin}"
    by (simp_all add: cx_db_def keys_ok_def ax_user_def)
  moreover define u where "u = ax_user\<lparr>PasswordHash := cx_hash ''correct horse battery''\<rparr>"
  moreover have "u \<in> set (t_users cx_db)" by (simp add: cx_db_def u_def)
  moreover have i: "usr_ID u = ''1''" "PasswordHash u = cx_hash ''correct horse battery''" "Enabled u"
    by (simp_all add: u_def ax_user_def)
  ultimately have "isOK (fst (ChangePassword ax_sv (usr_ID u) ''correct horse battery'' ''battery horse correct'' (cx_db, 0)))"
    by (intro ChangePassword_succeeds [OF ax_simps(6) _ _ _ _ _ _ cx_hash [OF cx_valid(2)] cx_hash_ne]) simp_all
  then show ?thesis by (simp only: i)
qed

theorem password_change_revokes_witness:
  "\<exists>v \<in> set (t_users (fst (snd (ChangePassword ax_sv ''1'' ''correct horse battery'' ''battery horse correct'' (cx_db, 0))))).
     usr_ID v = ''1'' \<and> sv_hash ax_sv ''battery horse correct'' = Inr (PasswordHash v)"
proof -
  let ?c = "ChangePassword ax_sv ''1'' ''correct horse battery'' ''battery horse correct'' (cx_db, 0)"
  obtain db1 n1 where c: "?c = (Inr (), (db1, n1))" using cx_change by (cases ?c) (auto simp: isOK_iff)
  have "0 < sv_dbnow ax_sv" by (simp add: ax_sv_def)
  from password_change_revokes [OF c this sec_reach.start] show ?thesis unfolding c fst_conv snd_conv by blast
qed

end
