(* ===== verification/OCI_Properties.thy ===== *)
theory OCI_Properties
  imports OCI_Tokens Accounts_Properties
begin

text \<open>
  Properties of the access tokens: what acceptance of any string implies, and exactly when an
  issued token is accepted.
\<close>

section \<open>Actions\<close>

lemma containsAction_iff [simp]: "containsAction actions a \<longleftrightarrow> a \<in> set actions"
  by (induction actions) auto

lemma set_normalized_from: "set (normalized_from r actions) = set r \<union> (set actions \<inter> {''pull'', ''push''})"
  by (induction r actions rule: normalized_from.induct) (simp_all, blast)

lemma set_normalizedActions [simp]: "set (normalizedActions actions) = set actions \<inter> {''pull'', ''push''}"
  by (simp add: normalizedActions_def set_normalized_from)

section \<open>What acceptance implies\<close>

lemma OCI_claims_Inr:
  assumes "OCI_claims s raw repo action = Inr c"
  shows "\<exists>encoded sig payload. raw = encoded @ ''.'' @ sig
    \<and> RawURL_Decode sig = Inr (oci_HMAC s (oci_key s) encoded)
    \<and> RawURL_Decode encoded = Inr payload \<and> oci_Unmarshal s payload = Inr c
    \<and> oci_now s < time_Unix (oc_ExpiresAt c) \<and> oc_Repository c = repo \<and> (action = [] \<or> action \<in> set (oc_Actions c))
    \<and> (oc_UserID c = [] \<longrightarrow> action = [] \<or> action = ''pull'')"
proof -
  obtain encoded sig where s: "Split CHR ''.'' raw = [encoded, sig]"
    using assms by (auto simp: OCI_claims_def split: list.splits)
  have "raw = Join [CHR ''.''] [encoded, sig]" using Join_Split [of "CHR ''.''" raw] by (simp add: s)
  then have "raw = encoded @ ''.'' @ sig" by simp
  with assms show ?thesis unfolding OCI_claims_def s by (auto split: sum.splits if_splits)
qed

lemma ValidateHash_Inr:
  assumes "ValidateHash sv uid h s = (Inr u, s')"
  shows "fst s' = fst s \<and> u \<in> set (t_users (fst s)) \<and> usr_ID u = uid \<and> Enabled u
    \<and> docker_tokens.usable (sv_now sv) (fst s) uid h"
  using assms
  by (clarsimp simp: ValidateHash_def andthen_Inr, clarsimp split: option.splits, clarsimp split: if_splits)
     (auto simp: token_valid_def docker_tokens.usable_def dest!: lookups_Inr dest: find_SomeD)

text \<open>
  C12: whatever string is presented as an access token, if it is
  accepted then its second part is the signature of its first, its claims are unexpired and name
  the repository and the action, and it gives either the anonymous client, for a pull at most,
  or an enabled user whose Docker token is live at this moment. The database is only read.
\<close>

theorem accepted_tokens_are_signed:
  assumes "OCI_Authenticate s sv raw repo action (db, n) = (Inr p, s')"
  shows "fst s' = db \<and> (\<exists>encoded sig payload c. raw = encoded @ ''.'' @ sig
    \<and> RawURL_Decode sig = Inr (oci_HMAC s (oci_key s) encoded)
    \<and> RawURL_Decode encoded = Inr payload \<and> oci_Unmarshal s payload = Inr c
    \<and> oci_now s < time_Unix (oc_ExpiresAt c) \<and> oc_Repository c = repo \<and> (action = [] \<or> action \<in> set (oc_Actions c))
    \<and> (if oc_UserID c = [] then p = Anonymous \<and> (action = [] \<or> action = ''pull'')
       else \<exists>u h t. u \<in> set (t_users db) \<and> usr_ID u = oc_UserID c \<and> Enabled u
         \<and> p = \<lparr>pr_Kind = KindLocalUser, pr_ID = usr_ID u, pr_Username = Username u\<rparr>
         \<and> RawURL_Decode (oc_TokenHash c) = Inr h \<and> token_found db h = Some t
         \<and> dt_UserID t = usr_ID u \<and> dt_RevokedAt t = 0 \<and> sv_now sv < dt_ExpiresAt t))"
proof -
  from assms obtain c where c: "OCI_claims s raw repo action = Inr c"
    by (auto simp: OCI_Authenticate_def andthen_Inr lift_Inr)
  from OCI_claims_Inr [OF c] obtain encoded sig payload where e:
    "raw = encoded @ ''.'' @ sig \<and> RawURL_Decode sig = Inr (oci_HMAC s (oci_key s) encoded)
      \<and> RawURL_Decode encoded = Inr payload \<and> oci_Unmarshal s payload = Inr c
      \<and> oci_now s < time_Unix (oc_ExpiresAt c) \<and> oc_Repository c = repo \<and> (action = [] \<or> action \<in> set (oc_Actions c))"
    and a: "oc_UserID c = [] \<longrightarrow> action = [] \<or> action = ''pull''" by blast
  show ?thesis
  proof (cases "oc_UserID c = []")
    case True
    with assms c have "p = Anonymous" "fst s' = db" by (auto simp: OCI_Authenticate_def andthen_Inr lift_Inr)
    with e a True show ?thesis by auto
  next
    case False
    with assms c obtain h u where "RawURL_Decode (oc_TokenHash c) = Inr h"
      "ValidateHash sv (oc_UserID c) h (db, n) = (Inr u, s')"
      "p = \<lparr>pr_Kind = KindLocalUser, pr_ID = usr_ID u, pr_Username = Username u\<rparr>"
      by (auto simp: OCI_Authenticate_def andthen_Inr lift_Inr split: sum.splits)
    moreover from ValidateHash_Inr [OF this(2)] have "fst s' = db" "u \<in> set (t_users db)" "usr_ID u = oc_UserID c" "Enabled u"
      and t: "docker_tokens.usable (sv_now sv) db (oc_UserID c) h" by auto
    moreover from t obtain t where "token_found db h = Some t" "dt_UserID t = oc_UserID c" "dt_RevokedAt t = 0" "sv_now sv < dt_ExpiresAt t"
      by (auto simp: docker_tokens.usable_def)
    ultimately show ?thesis using e False by (intro conjI, simp) (rule exI [of _ encoded], rule exI [of _ sig], auto)
  qed
qed

section \<open>When an issued token is accepted\<close>

definition claims_utf8 :: "ociClaims \<Rightarrow> bool" where
  "claims_utf8 c \<longleftrightarrow> ValidString (oc_UserID c) \<and> ValidString (oc_Username c) \<and> ValidString (oc_TokenHash c)
     \<and> ValidString (oc_Repository c) \<and> (\<forall>a \<in> set (oc_Actions c). ValidString a)"

text \<open>What is documented of encoding/json: valid UTF-8 texts are read back.\<close>

definition codec_ok :: "OCITokenService \<Rightarrow> bool" where
  "codec_ok s \<longleftrightarrow> (\<forall>c p. claims_utf8 c \<and> oci_Marshal s c = Inr p \<longrightarrow> oci_Unmarshal s p = Inr c)"

lemma OCI_claims_signed:
  assumes "sign_claims s c = Inr (raw, expires)" "codec_ok s" "claims_utf8 c"
    and "oci_key s2 = oci_key s" "oci_HMAC s2 = oci_HMAC s" "oci_Unmarshal s2 = oci_Unmarshal s"
  shows "OCI_claims s2 raw repo action =
    (if oci_now s2 < expires \<and> oc_Repository c = repo \<and> (action = [] \<or> action \<in> set (oc_Actions c))
        \<and> (oc_UserID c = [] \<longrightarrow> action = [] \<or> action = ''pull'')
     then Inr c else Inl (sentinel_err ErrInvalidAccessToken))"
proof -
  from assms(1) obtain payload where p: "oci_Marshal s c = Inr payload" "expires = time_Unix (oc_ExpiresAt c)"
    and raw: "raw = RawURL_Encode payload @ CHR ''.'' # RawURL_Encode (oci_HMAC s (oci_key s) (RawURL_Encode payload))"
    by (auto simp: sign_claims_def Let_def split: sum.splits)
  have "Split CHR ''.'' raw = [RawURL_Encode payload, RawURL_Encode (oci_HMAC s (oci_key s) (RawURL_Encode payload))]"
    unfolding raw by (simp add: Split_append Split_none RawURL_no_dot)
  moreover have "oci_Unmarshal s payload = Inr c" using assms(2,3) p(1) by (auto simp: codec_ok_def)
  ultimately show ?thesis by (simp add: OCI_claims_def assms(4-6) p(2))
qed

lemma working_validate:
  assumes "working sv" "keys_ok (t_users (fst s))"
  shows "isOK (fst (ValidateHash sv uid h s)) \<longleftrightarrow>
    (\<exists>u \<in> set (t_users (fst s)). usr_ID u = uid \<and> Enabled u) \<and> docker_tokens.usable (sv_now sv) (fst s) uid h"
proof -
  have "(\<exists>u \<in> set (t_users (fst s)). usr_ID u = uid \<and> Enabled u)
      \<longleftrightarrow> (\<exists>u. find (\<lambda>v. usr_ID v = uid) (t_users (fst s)) = Some u \<and> usr_ID u = uid \<and> Enabled u)"
  proof
    assume "\<exists>u \<in> set (t_users (fst s)). usr_ID u = uid \<and> Enabled u"
    then obtain u where u: "u \<in> set (t_users (fst s))" "usr_ID u = uid" "Enabled u" by blast
    then have "find (\<lambda>v. usr_ID v = uid) (t_users (fst s)) = Some u"
      using assms(2) by (auto simp: keys_ok_def find_Some_iff in_set_conv_nth distinct_conv_nth)
    with u show "\<exists>u. find (\<lambda>v. usr_ID v = uid) (t_users (fst s)) = Some u \<and> usr_ID u = uid \<and> Enabled u" by blast
  qed (auto dest: find_SomeD)
  then show ?thesis
    by (cases "find (\<lambda>v. usr_ID v = uid) (t_users (fst s))"; cases "token_found (fst s) h")
       (auto simp: ValidateHash_def andthen_def working_lookups [OF assms(1)] fail_def ret_def token_valid_def docker_tokens.usable_def
         dest: find_SomeD)
qed

text \<open>
  C26: a token issued for a repository and actions is accepted over any
  database exactly for that repository, for an action that was asked for and is pull or
  push, before its expiry five minutes later, and, when it was issued to a user, as long as the
  user is enabled and the Docker token it was issued for is neither revoked nor expired.
\<close>

theorem access_token_round_trip:
  assumes "OCI_Issue s sv name secret repo actions (db, n) = (Inr (raw, expires), s1)" and "codec_ok s"
    and "ValidString repo" and "\<forall>u \<in> set (t_users db). usr_ID u \<noteq> [] \<and> ValidString (usr_ID u) \<and> ValidString (Username u)"
    and "keys_ok (t_users db2)" and "working sv2"
    and "oci_key s2 = oci_key s" "oci_HMAC s2 = oci_HMAC s" "oci_Unmarshal s2 = oci_Unmarshal s"
  shows "expires = time_Unix (Unix (oci_now s + 5 * minute)) \<and>
    (\<exists>u. (name \<noteq> [] \<or> secret \<noteq> [] \<longrightarrow> u \<in> set (t_users db) \<and> Username u = name) \<and>
     (isOK (fst (OCI_Authenticate s2 sv2 raw repo2 action (db2, m))) \<longleftrightarrow>
      oci_now s2 < expires \<and> repo2 = repo \<and> (action = [] \<or> action \<in> set actions \<and> action \<in> {''pull'', ''push''})
      \<and> (name \<noteq> [] \<or> secret \<noteq> [] \<longrightarrow> (\<exists>v \<in> set (t_users db2). usr_ID v = usr_ID u \<and> Enabled v)
           \<and> docker_tokens.usable (sv_now sv2) db2 (usr_ID u) (sv_sha256 sv secret))))"
proof -
  let ?c = "\<lparr>oc_UserID = [], oc_Username = [], oc_TokenHash = [], oc_Repository = repo,
           oc_Actions = normalizedActions actions, oc_ExpiresAt = Unix (oci_now s + 5 * minute)\<rparr>"
  have valid: "ValidString []" "ValidString ''pull''" "ValidString ''push''" by (simp_all add: ValidString_ascii)
  show ?thesis
  proof (cases "name \<noteq> [] \<or> secret \<noteq> []")
    case False
    then have sig: "sign_claims s ?c = Inr (raw, expires)" and np: "''push'' \<notin> set actions"
      using assms(1) by (auto simp: OCI_Issue_def lift_Inr split: if_splits)
    have u: "claims_utf8 ?c" using assms(3) valid by (auto simp: claims_utf8_def)
    have "expires = time_Unix (Unix (oci_now s + 5 * minute))" using sig by (auto simp: sign_claims_def Let_def split: sum.splits)
    moreover have "isOK (fst (OCI_Authenticate s2 sv2 raw repo2 action (db2, m))) \<longleftrightarrow>
        oci_now s2 < expires \<and> repo2 = repo \<and> (action = [] \<or> action \<in> set actions \<and> action \<in> {''pull'', ''push''})"
      using np by (auto simp: OCI_Authenticate_def OCI_claims_signed [OF sig assms(2) u assms(7-9)] andthen_def lift_def ret_def fail_def)
    ultimately show ?thesis using False by auto
  next
    case True
    with assms(1) obtain u t s0 where a: "AuthenticateWithToken sv name secret (db, n) = (Inr (u, t), s0)"
      and sig: "sign_claims s (?c\<lparr>oc_UserID := usr_ID u, oc_Username := Username u,
         oc_TokenHash := RawURL_Encode (dt_TokenHash t)\<rparr>) = Inr (raw, expires)"
      by (auto simp: OCI_Issue_def andthen_Inr lift_Inr)
    from AuthenticateWithToken_Inr [OF a] have f: "token_found db (sv_sha256 sv secret) = Some t"
      and u: "u \<in> set (t_users db)" "Username u = name" by (auto dest: find_SomeD)
    have h: "dt_TokenHash t = sv_sha256 sv secret" using f by (auto dest: find_SomeD)
    have utf: "claims_utf8 (?c\<lparr>oc_UserID := usr_ID u, oc_Username := Username u,
         oc_TokenHash := RawURL_Encode (dt_TokenHash t)\<rparr>)" using assms(3,4) u(1) valid by (auto simp: claims_utf8_def)
    have "expires = time_Unix (Unix (oci_now s + 5 * minute))" using sig by (auto simp: sign_claims_def Let_def split: sum.splits)
    moreover have "isOK (fst (OCI_Authenticate s2 sv2 raw repo2 action (db2, m))) \<longleftrightarrow>
        oci_now s2 < expires \<and> repo2 = repo \<and> (action = [] \<or> action \<in> set actions \<and> action \<in> {''pull'', ''push''})
        \<and> isOK (fst (ValidateHash sv2 (usr_ID u) (dt_TokenHash t) (db2, m)))"
      using assms(4) u(1) by (auto simp: OCI_Authenticate_def OCI_claims_signed [OF sig assms(2) utf assms(7-9)] andthen_def lift_def
          ret_def fail_def otherwise_def isOK_iff split: prod.split sum.split)
    ultimately show ?thesis using u True working_validate [OF assms(6), of "(db2, m)"] assms(5) h
      by (intro conjI exI [of _ u]) simp_all
  qed
qed

section \<open>Instances\<close>

definition ox_secret :: string where "ox_secret = ''rst_'' @ RawURL_Encode (replicate 32 (CHR ''s''))"

definition ox_db :: SecDB where "ox_db = fst (snd (Token_Issue ax_sv ''1'' ''ci'' 50 (ax_db, 0)))"

definition ox_claims :: ociClaims where
  "ox_claims = \<lparr>oc_UserID = ''1'', oc_Username = ''root'', oc_TokenHash = RawURL_Encode (sv_sha256 ax_sv ox_secret),
     oc_Repository = ''team/app'', oc_Actions = [''pull''], oc_ExpiresAt = 300\<rparr>"

definition ox_oci :: OCITokenService where
  "ox_oci = \<lparr>oci_key = ''k'', oci_now = 100, oci_HMAC = (\<lambda>k m. take 8 (k @ m)),
     oci_Marshal = (\<lambda>c. if c = ox_claims then Inr ''claims'' else Inl (errorf ''not encoded'')),
     oci_Unmarshal = (\<lambda>p. if p = ''claims'' then Inr ox_claims else Inl (errorf ''not decoded''))\<rparr>"

lemma ox_users: "t_users ox_db = [ax_user]" by code_simp
lemma ox_login: "isOK (fst (AuthenticateWithToken ax_sv ''root'' ox_secret (ox_db, 0)))" by code_simp
lemma ox_signed: "isOK (sign_claims ox_oci ox_claims)" by code_simp

lemma ox_codec: "codec_ok ox_oci"
  by (auto simp: codec_ok_def ox_oci_def split: if_splits)

lemma ox_usable: "docker_tokens.usable 100 ox_db ''1'' (sv_sha256 ax_sv ox_secret)"
  and ox_issue: "isOK (fst (OCI_Issue ox_oci ax_sv ''root'' ox_secret ''team/app'' [''pull''] (ox_db, 0)))"
proof -
  obtain u t s where l: "AuthenticateWithToken ax_sv ''root'' ox_secret (ox_db, 0) = (Inr (u, t), s)"
    using ox_login by (cases "AuthenticateWithToken ax_sv ''root'' ox_secret (ox_db, 0)") (auto simp: isOK_iff)
  note a = AuthenticateWithToken_Inr [OF l]
  have u: "u = ax_user" using a by (auto simp: ox_users split: if_splits)
  then show "docker_tokens.usable 100 ox_db ''1'' (sv_sha256 ax_sv ox_secret)" using a by (simp add: ax_simps)
  have "dt_TokenHash t = sv_sha256 ax_sv ox_secret" using a by (auto dest: find_SomeD)
  then have c: "\<lparr>oc_UserID = usr_ID u, oc_Username = Username u, oc_TokenHash = RawURL_Encode (dt_TokenHash t),
      oc_Repository = ''team/app'', oc_Actions = normalizedActions [''pull''], oc_ExpiresAt = Unix (oci_now ox_oci + 5 * minute)\<rparr> = ox_claims"
    by (simp add: u ax_simps ox_claims_def normalizedActions_def Unix_def ox_oci_def)
  obtain r where "sign_claims ox_oci ox_claims = Inr r" using ox_signed by (auto simp: isOK_iff)
  then show "isOK (fst (OCI_Issue ox_oci ax_sv ''root'' ox_secret ''team/app'' [''pull''] (ox_db, 0)))"
    by (simp add: OCI_Issue_def andthen_def l c [simplified] lift_def ret_def)
qed

definition ox_raw :: string where
  "ox_raw = (case fst (OCI_Issue ox_oci ax_sv ''root'' ox_secret ''team/app'' [''pull''] (ox_db, 0)) of Inr (raw, _) \<Rightarrow> raw)"

theorem access_token_round_trip_witness:
  "isOK (fst (OCI_Authenticate ox_oci ax_sv ox_raw ''team/app'' ''pull'' (ox_db, 0)))
   \<and> \<not> isOK (fst (OCI_Authenticate ox_oci ax_sv ox_raw ''team/app'' ''push'' (ox_db, 0)))"
proof -
  obtain raw expires s1 where i: "OCI_Issue ox_oci ax_sv ''root'' ox_secret ''team/app'' [''pull''] (ox_db, 0) = (Inr (raw, expires), s1)"
    using ox_issue by (cases "OCI_Issue ox_oci ax_sv ''root'' ox_secret ''team/app'' [''pull''] (ox_db, 0)") (auto simp: isOK_iff)
  have v: "ValidString ''team/app''" "ValidString ''1''" "ValidString ''root''" by (simp_all add: ValidString_ascii)
  have r: "ox_raw = raw" by (simp add: ox_raw_def i)
  have h: "\<forall>u \<in> set (t_users ox_db). usr_ID u \<noteq> [] \<and> ValidString (usr_ID u) \<and> ValidString (Username u)" "keys_ok (t_users ox_db)"
    using v by (simp_all add: ox_users ax_simps keys_ok_def)
  note a = access_token_round_trip [OF i ox_codec v(1) h(1) h(2) ax_simps(6) refl refl refl, where m = 0 and ?repo2.0 = "''team/app''"]
  have n: "sv_now ax_sv = 100" "oci_now ox_oci = 100" by (simp_all add: ax_sv_def ox_oci_def)
  from a [of "''pull''"] have "isOK (fst (OCI_Authenticate ox_oci ax_sv raw ''team/app'' ''pull'' (ox_db, 0)))"
    using ox_usable by (auto simp: ox_users ax_simps n time_Unix_def Unix_def)
  moreover from a [of "''push''"] have "\<not> isOK (fst (OCI_Authenticate ox_oci ax_sv raw ''team/app'' ''push'' (ox_db, 0)))" by auto
  ultimately show ?thesis by (simp add: r)
qed

definition ow_claims :: ociClaims where
  "ow_claims = \<lparr>oc_UserID = [], oc_Username = [], oc_TokenHash = [], oc_Repository = ''team/app'',
     oc_Actions = [''pull''], oc_ExpiresAt = 300\<rparr>"

definition ow_oci :: OCITokenService where
  "ow_oci = ox_oci\<lparr>oci_Unmarshal := (\<lambda>p. if p = ''claims'' then Inr ow_claims else Inl (errorf ''not decoded''))\<rparr>"

definition ow_raw :: string where
  "ow_raw = RawURL_Encode ''claims'' @ ''.'' @ RawURL_Encode (oci_HMAC ow_oci (oci_key ow_oci) (RawURL_Encode ''claims''))"

lemma ow_accept: "isOK (fst (OCI_Authenticate ow_oci ax_sv ow_raw ''team/app'' ''pull'' (ax_db, 0)))"
  by code_simp

theorem accepted_tokens_are_signed_witness:
  "\<exists>encoded sig. ow_raw = encoded @ ''.'' @ sig \<and> RawURL_Decode sig = Inr (oci_HMAC ow_oci (oci_key ow_oci) encoded)"
proof -
  obtain p s where "OCI_Authenticate ow_oci ax_sv ow_raw ''team/app'' ''pull'' (ax_db, 0) = (Inr p, s)"
    using ow_accept by (cases "OCI_Authenticate ow_oci ax_sv ow_raw ''team/app'' ''pull'' (ax_db, 0)") (auto simp: isOK_iff)
  from accepted_tokens_are_signed [OF this] show ?thesis by blast
qed

end
