(* ===== verification/Secrets.thy ===== *)
theory Secrets
  imports Go_Encoding
begin

text \<open>
  Encrypted registry credentials (internal/auth/secrets.go): the keyring, its key files, and the
  sealed envelopes. AES-256-GCM (crypto/aes, crypto/cipher), reading files and the JSON encoding
  of envelopes and of the associated data are parameters.
\<close>

record secretEnvelope =
  se_Version :: int
  se_Algorithm :: string
  se_KeyID :: string
  se_Nonce :: string
  se_Ciphertext :: string

text \<open>Seal and Open take the key, the nonce, the text and the associated data.\<close>

record Crypto =
  cr_Seal :: "string \<Rightarrow> string \<Rightarrow> string \<Rightarrow> string \<Rightarrow> string"
  cr_Open :: "string \<Rightarrow> string \<Rightarrow> string \<Rightarrow> string \<Rightarrow> string result"
  cr_NonceSize :: nat
  cr_Marshal :: "secretEnvelope \<Rightarrow> string result"
  cr_Unmarshal :: "string \<Rightarrow> secretEnvelope result"
  cr_MarshalStrings :: "string list \<Rightarrow> string"

record SecretKeyring =
  kr_activeKeyID :: string
  kr_keys :: "(string \<times> string) list"

section \<open>Keys\<close>

definition decodeSecretKey :: "string \<Rightarrow> string result" where
  "decodeSecretKey contents =
    (if length contents = 32 then Inr contents
     else
       let encoded = TrimSpace contents;
           try = (\<lambda>r. case r of Inl _ \<Rightarrow> None | Inr d \<Rightarrow> if length d = 32 then Some d else None) in
       case try (Std_DecodeStrict encoded) of Some d \<Rightarrow> Inr d
       | None \<Rightarrow> (case try (RawStd_DecodeStrict encoded) of Some d \<Rightarrow> Inr d
          | None \<Rightarrow> Inl (errorf ''key file must contain 32 raw bytes or one base64-encoded 32-byte key'')))"

text \<open>The keys are a Go map, here an association list with distinct keys in the order of the
  iteration.\<close>

fun check_keys :: "(string \<times> string) list \<Rightarrow> unit result" where
  "check_keys [] = Inr ()"
| "check_keys ((i, key) # ks) =
     (if i = [] \<or> length key \<noteq> 32
      then Inl (errorf ''credential encryption key %q must contain exactly 32 bytes'') else check_keys ks)"

definition NewSecretKeyring :: "string \<Rightarrow> (string \<times> string) list \<Rightarrow> SecretKeyring result" where
  "NewSecretKeyring activeKeyID keys =
    (if activeKeyID = [] then Inl (errorf ''active credential encryption key id is required'')
     else
     (case check_keys keys of Inl e \<Rightarrow> Inl e
      | Inr _ \<Rightarrow>
        if map_of keys activeKeyID = None then Inl (errorf ''active credential encryption key %q is not loaded'')
        else Inr \<lparr>kr_activeKeyID = activeKeyID, kr_keys = keys\<rparr>))"

fun load_keys :: "(string \<Rightarrow> string result) \<Rightarrow> (string \<times> string) list \<Rightarrow> (string \<times> string) list result" where
  "load_keys read [] = Inr []"
| "load_keys read ((i, path) # fs) =
     (if i = [] \<or> path = [] then Inl (errorf ''credential encryption key id and file path are required'')
      else
      (case read path of Inl e \<Rightarrow> Inl (wrapf ''read credential encryption key %q: %w'' e)
       | Inr contents \<Rightarrow>
         (case decodeSecretKey contents of Inl e \<Rightarrow> Inl (wrapf ''decode credential encryption key %q: %w'' e)
          | Inr key \<Rightarrow>
            (case load_keys read fs of Inl e \<Rightarrow> Inl e | Inr ks \<Rightarrow> Inr ((i, key) # ks)))))"

definition LoadSecretKeyring ::
  "(string \<Rightarrow> string result) \<Rightarrow> string \<Rightarrow> (string \<times> string) list \<Rightarrow> SecretKeyring result" where
  "LoadSecretKeyring read activeKeyID keyFiles =
    (case load_keys read keyFiles of Inl e \<Rightarrow> Inl e | Inr keys \<Rightarrow> NewSecretKeyring activeKeyID keys)"

section \<open>Sealing and opening\<close>

text \<open>newGCM: aes.NewCipher accepts keys of 16, 24 and 32 bytes.\<close>

definition newGCM :: "string option \<Rightarrow> string result" where
  "newGCM key = (case key of None \<Rightarrow> Inl (errorf ''create credential cipher: %w'')
     | Some k \<Rightarrow> if length k \<in> {16, 24, 32} then Inr k else Inl (errorf ''create credential cipher: %w''))"

definition secretAssociatedData :: "Crypto \<Rightarrow> string \<Rightarrow> string \<Rightarrow> string \<Rightarrow> string" where
  "secretAssociatedData C recordID userID sourceID =
    cr_MarshalStrings C [''regstair-credential-v1'', recordID, userID, sourceID]"

definition Encrypt ::
  "Crypto \<Rightarrow> (nat \<Rightarrow> string result) \<Rightarrow> SecretKeyring \<Rightarrow> string \<Rightarrow> string \<Rightarrow> string \<Rightarrow> string \<Rightarrow> string result" where
  "Encrypt C random k recordID userID sourceID plaintext =
    (case newGCM (map_of (kr_keys k) (kr_activeKeyID k)) of Inl e \<Rightarrow> Inl e
     | Inr key \<Rightarrow>
       (case random (cr_NonceSize C) of Inl e \<Rightarrow> Inl (wrapf ''generate credential encryption nonce: %w'' e)
        | Inr nonce \<Rightarrow>
          let ciphertext = cr_Seal C key nonce plaintext (secretAssociatedData C recordID userID sourceID) in
          (case cr_Marshal C \<lparr>se_Version = 1, se_Algorithm = ''AES-256-GCM'', se_KeyID = kr_activeKeyID k,
               se_Nonce = RawStd_Encode nonce, se_Ciphertext = RawStd_Encode ciphertext\<rparr> of
             Inl e \<Rightarrow> Inl (wrapf ''encode credential envelope: %w'' e)
           | Inr envelope \<Rightarrow> Inr envelope)))"

abbreviation unavailable :: "'a result" where "unavailable \<equiv> Inl (sentinel_err ErrSecretUnavailable)"

definition Decrypt :: "Crypto \<Rightarrow> SecretKeyring \<Rightarrow> string \<Rightarrow> string \<Rightarrow> string \<Rightarrow> string \<Rightarrow> string result" where
  "Decrypt C k recordID userID sourceID encoded =
    (case cr_Unmarshal C encoded of Inl _ \<Rightarrow> unavailable
     | Inr envelope \<Rightarrow>
       if se_Version envelope \<noteq> 1 \<or> se_Algorithm envelope \<noteq> ''AES-256-GCM'' then unavailable
       else
       (case map_of (kr_keys k) (se_KeyID envelope) of None \<Rightarrow> unavailable
        | Some key \<Rightarrow>
          (case newGCM (Some key) of Inl _ \<Rightarrow> unavailable
           | Inr key \<Rightarrow>
             (case RawStd_DecodeStrict (se_Nonce envelope) of Inl _ \<Rightarrow> unavailable
              | Inr nonce \<Rightarrow>
                if length nonce \<noteq> cr_NonceSize C then unavailable
                else
                (case RawStd_DecodeStrict (se_Ciphertext envelope) of Inl _ \<Rightarrow> unavailable
                 | Inr ciphertext \<Rightarrow>
                   (case cr_Open C key nonce ciphertext (secretAssociatedData C recordID userID sourceID) of
                      Inl _ \<Rightarrow> unavailable | Inr plaintext \<Rightarrow> Inr plaintext))))))"

definition Reencrypt ::
  "Crypto \<Rightarrow> (nat \<Rightarrow> string result) \<Rightarrow> SecretKeyring \<Rightarrow> string \<Rightarrow> string \<Rightarrow> string \<Rightarrow> string \<Rightarrow> string result" where
  "Reencrypt C random k recordID userID sourceID encoded =
    (case Decrypt C k recordID userID sourceID encoded of Inl e \<Rightarrow> Inl e
     | Inr plaintext \<Rightarrow> Encrypt C random k recordID userID sourceID plaintext)"

section \<open>Properties of the keyring\<close>

lemma check_keys_Inr: "check_keys ks = Inr u \<longleftrightarrow> (\<forall>(i, key) \<in> set ks. i \<noteq> [] \<and> length key = 32)"
  by (induction ks rule: check_keys.induct) auto

lemma NewSecretKeyring_Inr:
  "NewSecretKeyring a keys = Inr k \<longleftrightarrow> a \<noteq> [] \<and> (\<forall>(i, key) \<in> set keys. i \<noteq> [] \<and> length key = 32)
     \<and> map_of keys a \<noteq> None \<and> k = \<lparr>kr_activeKeyID = a, kr_keys = keys\<rparr>"
  using check_keys_Inr [of keys "()"]
  by (cases "check_keys keys") (auto simp: NewSecretKeyring_def)

text \<open>
  What is documented of GCM and of encoding/json, for texts in valid UTF-8: what was sealed opens
  with the same associated data and with no other; nonces have the nonce size; envelopes are read
  back; and different lists of strings have different encodings.
\<close>

definition crypto_ok :: "Crypto \<Rightarrow> bool" where
  "crypto_ok C \<longleftrightarrow>
     (\<forall>key nonce text ad ad'. length nonce = cr_NonceSize C \<longrightarrow>
        cr_Open C key nonce (cr_Seal C key nonce text ad) ad = Inr text
        \<and> (ad' \<noteq> ad \<longrightarrow> \<not> isOK (cr_Open C key nonce (cr_Seal C key nonce text ad) ad')))
     \<and> (\<forall>e p. ValidString (se_KeyID e) \<and> ValidString (se_Nonce e) \<and> ValidString (se_Ciphertext e) \<and> cr_Marshal C e = Inr p
          \<longrightarrow> cr_Unmarshal C p = Inr e)
     \<and> (\<forall>xs ys. (\<forall>x \<in> set (xs @ ys). ValidString x) \<and> cr_MarshalStrings C xs = cr_MarshalStrings C ys \<longrightarrow> xs = ys)"

definition keyring_ok :: "SecretKeyring \<Rightarrow> bool" where
  "keyring_ok k \<longleftrightarrow> (\<exists>a keys. NewSecretKeyring a keys = Inr k)"

lemma newGCM_keyring: "keyring_ok k \<Longrightarrow> map_of (kr_keys k) i = Some key \<Longrightarrow> newGCM (Some key) = Inr key"
  by (auto simp: keyring_ok_def NewSecretKeyring_Inr newGCM_def dest!: map_of_SomeD)

lemma Encrypt_Inr:
  assumes "Encrypt C random k r u s text = Inr encoded"
  shows "\<exists>key nonce. newGCM (map_of (kr_keys k) (kr_activeKeyID k)) = Inr key \<and> random (cr_NonceSize C) = Inr nonce
    \<and> cr_Marshal C \<lparr>se_Version = 1, se_Algorithm = ''AES-256-GCM'', se_KeyID = kr_activeKeyID k, se_Nonce = RawStd_Encode nonce,
         se_Ciphertext = RawStd_Encode (cr_Seal C key nonce text (secretAssociatedData C r u s))\<rparr> = Inr encoded"
  using assms by (auto simp: Encrypt_def Let_def split: sum.splits)

lemma newGCM_Inr: "newGCM x = Inr key \<longleftrightarrow> x = Some key \<and> length key \<in> {16, 24, 32}"
  by (auto simp: newGCM_def split: option.splits if_splits)

text \<open>What a keyring that still holds the key makes of an envelope.\<close>

lemma Decrypt_sealed:
  assumes "crypto_ok C" and "Encrypt C random k r u s text = Inr encoded"
    and "\<forall>n nonce. random n = Inr nonce \<longrightarrow> length nonce = n" and "ValidString (kr_activeKeyID k)"
    and "map_of (kr_keys k2) (kr_activeKeyID k) = map_of (kr_keys k) (kr_activeKeyID k)"
  obtains key nonce where "length nonce = cr_NonceSize C"
    "\<And>r' u' s'. Decrypt C k2 r' u' s' encoded =
      (case cr_Open C key nonce (cr_Seal C key nonce text (secretAssociatedData C r u s)) (secretAssociatedData C r' u' s') of
         Inl _ \<Rightarrow> unavailable | Inr plaintext \<Rightarrow> Inr plaintext)"
proof -
  from Encrypt_Inr [OF assms(2)] obtain key nonce where g: "newGCM (map_of (kr_keys k) (kr_activeKeyID k)) = Inr key"
    and n: "random (cr_NonceSize C) = Inr nonce"
    and m: "cr_Marshal C \<lparr>se_Version = 1, se_Algorithm = ''AES-256-GCM'', se_KeyID = kr_activeKeyID k, se_Nonce = RawStd_Encode nonce,
         se_Ciphertext = RawStd_Encode (cr_Seal C key nonce text (secretAssociatedData C r u s))\<rparr> = Inr encoded" by blast
  have l: "length nonce = cr_NonceSize C" using assms(3) n by blast
  have key: "map_of (kr_keys k2) (kr_activeKeyID k) = Some key" "newGCM (Some key) = Inr key"
    using g assms(5) by (auto simp: newGCM_Inr)
  have "cr_Unmarshal C encoded = Inr \<lparr>se_Version = 1, se_Algorithm = ''AES-256-GCM'', se_KeyID = kr_activeKeyID k,
      se_Nonce = RawStd_Encode nonce, se_Ciphertext = RawStd_Encode (cr_Seal C key nonce text (secretAssociatedData C r u s))\<rparr>"
    using assms(1) m assms(4) by (auto simp: crypto_ok_def)
  then have "Decrypt C k2 r' u' s' encoded =
      (case cr_Open C key nonce (cr_Seal C key nonce text (secretAssociatedData C r u s)) (secretAssociatedData C r' u' s') of
         Inl _ \<Rightarrow> unavailable | Inr plaintext \<Rightarrow> Inr plaintext)" for r' u' s'
    by (simp add: Decrypt_def key l)
  with l that show thesis by blast
qed

text \<open>
  C27: a secret that was encrypted for a record, a user and a source is read
  back by every keyring that holds the key it was made with, whatever key is active there; for
  any other record, user or source the same envelope is refused as unavailable.
\<close>

theorem secrets_stay_bound:
  assumes "crypto_ok C" and "Encrypt C random k r u s text = Inr encoded"
    and "\<forall>n nonce. random n = Inr nonce \<longrightarrow> length nonce = n" and "ValidString (kr_activeKeyID k)"
    and "map_of (kr_keys k2) (kr_activeKeyID k) = map_of (kr_keys k) (kr_activeKeyID k)"
    and "\<forall>x \<in> {r, u, s, r', u', s'}. ValidString x"
  shows "Decrypt C k2 r' u' s' encoded =
    (if r' = r \<and> u' = u \<and> s' = s then Inr text else Inl (sentinel_err ErrSecretUnavailable))"
proof (rule Decrypt_sealed [OF assms(1-5)])
  fix key nonce
  assume l: "length nonce = cr_NonceSize C" and d: "\<And>r' u' s'. Decrypt C k2 r' u' s' encoded =
      (case cr_Open C key nonce (cr_Seal C key nonce text (secretAssociatedData C r u s)) (secretAssociatedData C r' u' s') of
         Inl _ \<Rightarrow> unavailable | Inr plaintext \<Rightarrow> Inr plaintext)"
  show ?thesis
  proof (cases "r' = r \<and> u' = u \<and> s' = s")
    case True
    with assms(1) l show ?thesis by (simp add: d crypto_ok_def)
  next
    case False
    have v: "ValidString ''regstair-credential-v1''" by (simp add: ValidString_ascii)
    have "secretAssociatedData C r' u' s' \<noteq> secretAssociatedData C r u s"
    proof
      assume "secretAssociatedData C r' u' s' = secretAssociatedData C r u s"
      then have e: "cr_MarshalStrings C [''regstair-credential-v1'', r', u', s'] = cr_MarshalStrings C [''regstair-credential-v1'', r, u, s]"
        by (simp only: secretAssociatedData_def)
      have "\<forall>xs ys. (\<forall>x \<in> set (xs @ ys). ValidString x) \<and> cr_MarshalStrings C xs = cr_MarshalStrings C ys \<longrightarrow> xs = ys"
        using assms(1) unfolding crypto_ok_def by blast
      moreover have "\<forall>x \<in> set ([''regstair-credential-v1'', r', u', s'] @ [''regstair-credential-v1'', r, u, s]). ValidString x"
        using assms(6) v by simp
      ultimately have "[''regstair-credential-v1'', r', u', s'] = [''regstair-credential-v1'', r, u, s]"
        using e by blast
      with False show False by simp
    qed
    with assms(1) l have "\<not> isOK (cr_Open C key nonce (cr_Seal C key nonce text (secretAssociatedData C r u s)) (secretAssociatedData C r' u' s'))"
      by (simp add: crypto_ok_def)
    then show ?thesis using False by (auto simp: d isOK_def split: sum.splits)
  qed
qed

section \<open>An instance\<close>

text \<open>Texts with their lengths in unary, one after the other.\<close>

definition frame_one :: "string \<Rightarrow> string" where
  "frame_one x = replicate (length x) (CHR ''1'') @ CHR ''0'' # x"

definition frames :: "string list \<Rightarrow> string" where "frames xs = concat (map frame_one xs)"

definition frame_length :: "string \<Rightarrow> nat" where "frame_length s = length (takeWhile (\<lambda>c. c = CHR ''1'') s)"

function unframe :: "string \<Rightarrow> string list" where
  "unframe s = (if s = [] then [] else
     let n = frame_length s; rest = drop (Suc n) s in take n rest # unframe (drop n rest))"
  by pat_completeness auto
termination by (relation "measure length") auto

declare unframe.simps [simp del]

lemma frame_length: "frame_length (replicate n (CHR ''1'') @ CHR ''0'' # r) = n"
  by (induction n) (simp_all add: frame_length_def)

lemma unframe_one: "unframe (frame_one x @ r) = x # unframe r"
  by (subst unframe.simps) (simp add: frame_one_def frame_length Let_def)

lemma unframe_frames: "unframe (frames xs) = xs"
proof (induction xs)
  case Nil
  then show ?case by (simp add: frames_def unframe.simps)
next
  case (Cons x xs)
  then show ?case using unframe_one [of x "frames xs"] by (simp add: frames_def)
qed

definition sx_crypto :: Crypto where
  "sx_crypto = \<lparr>cr_Seal = (\<lambda>key nonce text ad. frames [key, nonce, text, ad]),
     cr_Open = (\<lambda>key nonce c ad. case unframe c of [k, n, text, a] \<Rightarrow>
         if k = key \<and> n = nonce \<and> a = ad then Inr text else Inl (errorf ''authentication failed'')
       | _ \<Rightarrow> Inl (errorf ''authentication failed'')),
     cr_NonceSize = 12,
     cr_Marshal = (\<lambda>e. if se_Version e = 1 \<and> se_Algorithm e = ''AES-256-GCM''
        then Inr (frames [se_KeyID e, se_Nonce e, se_Ciphertext e]) else Inl (errorf ''unsupported'')),
     cr_Unmarshal = (\<lambda>p. case unframe p of [i, n, c] \<Rightarrow> Inr \<lparr>se_Version = 1, se_Algorithm = ''AES-256-GCM'',
          se_KeyID = i, se_Nonce = n, se_Ciphertext = c\<rparr> | _ \<Rightarrow> Inl (errorf ''malformed'')),
     cr_MarshalStrings = frames\<rparr>"

lemma sx_crypto_ok: "crypto_ok sx_crypto"
proof -
  have "frames xs = frames ys \<Longrightarrow> xs = ys" for xs ys by (metis unframe_frames)
  then show ?thesis by (auto simp: crypto_ok_def sx_crypto_def unframe_frames split: if_splits)
qed

definition sx_old :: SecretKeyring where
  "sx_old = \<lparr>kr_activeKeyID = ''2024'', kr_keys = [(''2024'', replicate 32 (CHR ''a''))]\<rparr>"

definition sx_new :: SecretKeyring where
  "sx_new = \<lparr>kr_activeKeyID = ''2025'', kr_keys = [(''2025'', replicate 32 (CHR ''b'')), (''2024'', replicate 32 (CHR ''a''))]\<rparr>"

definition sx_random :: "nat \<Rightarrow> string result" where "sx_random n = Inr (replicate n (CHR ''n''))"

theorem secrets_stay_bound_witness:
  "\<exists>encoded. Encrypt sx_crypto sx_random sx_old ''c1'' ''u1'' ''harbor'' ''s3cret'' = Inr encoded
    \<and> Decrypt sx_crypto sx_new ''c1'' ''u1'' ''harbor'' encoded = Inr ''s3cret''
    \<and> Decrypt sx_crypto sx_new ''c1'' ''u2'' ''harbor'' encoded = Inl (sentinel_err ErrSecretUnavailable)"
proof -
  obtain encoded where e: "Encrypt sx_crypto sx_random sx_old ''c1'' ''u1'' ''harbor'' ''s3cret'' = Inr encoded"
    by (simp add: Encrypt_def sx_old_def newGCM_def sx_random_def sx_crypto_def)
  have r: "\<forall>n nonce. sx_random n = Inr nonce \<longrightarrow> length nonce = n" by (simp add: sx_random_def)
  have a: "ValidString (kr_activeKeyID sx_old)" by (simp add: sx_old_def ValidString_ascii)
  have m: "map_of (kr_keys sx_new) (kr_activeKeyID sx_old) = map_of (kr_keys sx_old) (kr_activeKeyID sx_old)"
    by (simp add: sx_new_def sx_old_def)
  note d = secrets_stay_bound [OF sx_crypto_ok e r a m]
  have v: "\<forall>x \<in> {''c1'', ''u1'', ''harbor'', ''c1'', ''u1'', ''harbor''}. ValidString x"
    "\<forall>x \<in> {''c1'', ''u1'', ''harbor'', ''c1'', ''u2'', ''harbor''}. ValidString x" by (simp_all add: ValidString_ascii)
  from d [OF v(1)] d [OF v(2)] e show ?thesis by simp
qed

end
