(* ===== verification/Credentials.thy ===== *)
theory Credentials
  imports Accounts Secrets HTTP_Connector Resolution
begin

text \<open>
  The users' credentials for upstream registries (internal/auth): verifying and saving them
  (registry_credentials.go, harbor_verifier.go), and choosing the connector of a request
  (runtime_credentials.go). The verifier, the connector factory and the connectors are arguments,
  as they are interfaces in the code; the production ones are defined here.
\<close>

section \<open>Sources\<close>

text \<open>A Go map filled in a loop: a later source with the same identifier replaces an earlier one.\<close>

definition source_by_id :: "ConfigSource list \<Rightarrow> string \<Rightarrow> ConfigSource option" where
  "source_by_id sources = map_of (rev (map (\<lambda>s. (cs_ID s, s)) sources))"

section \<open>Verification\<close>

record VerificationRequest =
  vr_SourceID :: string
  vr_Endpoint :: string
  vr_Repository :: string
  vr_Username :: string
  vr_Secret :: string
  vr_TokenHosts :: "string list"
  vr_Pull :: bool
  vr_Push :: bool

definition mapRegistryVerificationError :: "goerr \<Rightarrow> goerr" where
  "mapRegistryVerificationError err =
    (if errors_Is err ErrAuthentication then GoErr ''%w: %v'' [ErrUpstreamCredentials]
     else if errors_Is err ErrAuthorization then GoErr ''%w: %v'' [ErrUpstreamPermission]
     else if errors_Is err ErrUnavailable then GoErr ''%w: %v'' [ErrUpstreamUnavailable]
     else GoErr ''%w: %v'' [ErrUpstreamFailure])"

definition Harbor_Verify :: "'n HTTPEnv \<Rightarrow> VerificationRequest \<Rightarrow> 'n \<Rightarrow> unit result \<times> 'n" where
  "Harbor_Verify env request net =
    (if vr_Endpoint request = [] \<or> vr_Username request = [] \<or> vr_Secret request = []
     then (Inl (sentinel_err ErrVerificationConfig), net)
     else
     (case NewHTTPConnector env (vr_SourceID request) (vr_Endpoint request)
         (Some \<lparr>ba_username = vr_Username request, ba_password = vr_Secret request\<rparr>) True (vr_TokenHosts request) of
        Inl _ \<Rightarrow> (Inl (GoErr ''%w: %v'' [ErrVerificationConfig]), net)
      | Inr connector \<Rightarrow>
        (case HTTP_Health env connector ((\<lambda>_. None), net) of
           (Inl err, st) \<Rightarrow> (Inl (mapRegistryVerificationError err), snd st)
         | (Inr _, st) \<Rightarrow>
           (case (if vr_Repository request \<noteq> [] \<and> vr_Pull request
                  then (case HTTP_ResolveManifest env connector (vr_Repository request) ''__regstair_credential_check__'' st of
                      (Inl err, st) \<Rightarrow> (if errors_Is err ErrNotFound then None else Some err, st)
                    | (Inr _, st) \<Rightarrow> (None, st))
                  else (None, st)) of
              (Some err, st) \<Rightarrow> (Inl (mapRegistryVerificationError err), snd st)
            | (None, st) \<Rightarrow>
              if vr_Repository request \<noteq> [] \<and> vr_Push request
              then (case VerifyPushScope env connector (vr_Repository request) st of
                  (Inl err, st) \<Rightarrow> (Inl (mapRegistryVerificationError err), snd st)
                | (Inr _, st) \<Rightarrow> (Inr (), snd st))
              else (Inr (), snd st)))))"

text \<open>A PublicError is represented by its code and the sentinels of its cause.\<close>

definition NewPublicError :: "string \<Rightarrow> goerr \<Rightarrow> goerr" where
  "NewPublicError code cause = GoErr code (err_wraps cause)"

definition classifyVerificationError :: "goerr \<Rightarrow> goerr" where
  "classifyVerificationError err =
    (if errors_Is err ErrUpstreamCredentials then NewPublicError ''invalid_credentials'' err
     else if errors_Is err ErrUpstreamPermission then NewPublicError ''insufficient_permission'' err
     else if errors_Is err ErrUpstreamUnavailable then NewPublicError ''registry_unavailable'' err
     else if errors_Is err ErrVerificationConfig then NewPublicError ''verification_configuration_invalid'' err
     else NewPublicError ''registry_failure'' (GoErr ''%w: %v'' [ErrUpstreamFailure]))"

section \<open>Saving, listing and removing\<close>

record RegistryCredentialView =
  rv_ID :: string
  rv_SourceID :: string
  rv_Username :: string
  rv_CreatedAt :: time
  rv_UpdatedAt :: time

definition credentialView :: "RegistryCredential \<Rightarrow> RegistryCredentialView" where
  "credentialView c = \<lparr>rv_ID = rc_ID c, rv_SourceID = rc_SourceID c, rv_Username = rc_Username c,
     rv_CreatedAt = rc_CreatedAt c, rv_UpdatedAt = rc_UpdatedAt c\<rparr>"

record CredentialService =
  cv_sv :: Services
  cv_crypto :: Crypto
  cv_nonce :: "nat \<Rightarrow> string result"
  cv_keyring :: SecretKeyring
  cv_sources :: "ConfigSource list"

definition save_credential ::
  "CredentialService \<Rightarrow> string \<Rightarrow> string \<Rightarrow> string \<Rightarrow> string \<Rightarrow> RegistryCredentialView sqlm" where
  "save_credential cv userID sourceID username secret =
    andthen (findRegistryCredential (sv_faults (cv_sv cv)) userID sourceID) (\<lambda>existing.
    andthen (case existing of Some e \<Rightarrow> ret (rc_ID e, ''credential.replaced'')
       | None \<Rightarrow> andthen (lift (randomID (cv_sv cv) 0)) (\<lambda>i. ret (i, ''credential.created''))) (\<lambda>(i, action).
    andthen (lift (Encrypt (cv_crypto cv) (cv_nonce cv) (cv_keyring cv) i userID sourceID secret)) (\<lambda>encrypted.
    andthen (SaveRegistryCredential (sv_faults (cv_sv cv)) (sv_dbnow (cv_sv cv))
        \<lparr>rc_ID = i, rc_UserID = userID, rc_SourceID = sourceID, rc_Username = username, rc_EncryptedSecret = encrypted,
         rc_CreatedAt = 0, rc_UpdatedAt = 0\<rparr>
        ((user_audit userID action ''registry_credential'' i)\<lparr>au_Details := [(''source_id'', sourceID)]\<rparr>)) (\<lambda>saved.
    ret (credentialView saved)))))"

definition VerifyAndSave ::
  "CredentialService \<Rightarrow> (VerificationRequest \<Rightarrow> 'n \<Rightarrow> unit result \<times> 'n) \<Rightarrow> string \<Rightarrow> string \<Rightarrow> string \<Rightarrow> string
   \<Rightarrow> SqlState \<times> 'n \<Rightarrow> RegistryCredentialView result \<times> SqlState \<times> 'n" where
  "VerifyAndSave cv verifier userID sourceID username secret = (\<lambda>(s, net).
    case source_by_id (cv_sources cv) sourceID of
      None \<Rightarrow> (Inl (classifyVerificationError (sentinel_err ErrVerificationConfig)), s, net)
    | Some source \<Rightarrow>
      if \<not> cs_Enabled source then (Inl (classifyVerificationError (sentinel_err ErrVerificationConfig)), s, net)
      else if username = [] \<or> secret = []
      then (Inl (classifyVerificationError (sentinel_err ErrUpstreamCredentials)), s, net)
      else
      (case verifier \<lparr>vr_SourceID = cs_ID source, vr_Endpoint = cs_Endpoint source,
             vr_Repository = VerificationRepository (cs_UserCredentials source), vr_Username = username, vr_Secret = secret,
             vr_TokenHosts = TokenHosts (cs_Auth source), vr_Pull = uc_Pull (cs_UserCredentials source),
             vr_Push = uc_Push (cs_UserCredentials source)\<rparr> net of
         (Inl err, net) \<Rightarrow>
           let classified = classifyVerificationError err;
               event = (user_audit userID ''credential.verification_failed'' ''registry_credential'' sourceID)
                 \<lparr>au_Outcome := ''failure'',
                  au_Details := [(''source_id'', sourceID), (''error_classification'', err_text classified)]\<rparr> in
           (Inl classified, snd (RecordAuditEvent (sv_faults (cv_sv cv)) (sv_dbnow (cv_sv cv)) event s), net)
       | (Inr _, net) \<Rightarrow>
         (case save_credential cv userID sourceID username secret s of (r, s) \<Rightarrow> (r, s, net))))"

definition Credential_List :: "CredentialService \<Rightarrow> string \<Rightarrow> RegistryCredentialView list sqlm" where
  "Credential_List cv userID =
    andthen (ListRegistryCredentialsForUser (sv_faults (cv_sv cv)) userID) (\<lambda>cs. ret (map credentialView cs))"

definition Credential_Remove :: "CredentialService \<Rightarrow> string \<Rightarrow> string \<Rightarrow> bool \<Rightarrow> unit sqlm" where
  "Credential_Remove cv userID sourceID confirmed =
    (if \<not> confirmed then fail (NewPublicError ''confirmation_required'' (errorf ''credential removal was not confirmed''))
     else
     (case source_by_id (cv_sources cv) sourceID of
        None \<Rightarrow> fail (classifyVerificationError (sentinel_err ErrVerificationConfig))
      | Some source \<Rightarrow>
        if \<not> cs_Enabled source then fail (classifyVerificationError (sentinel_err ErrVerificationConfig))
        else
        andthen (findRegistryCredential (sv_faults (cv_sv cv)) userID sourceID) (\<lambda>credential.
        case credential of None \<Rightarrow> ret ()
        | Some c \<Rightarrow> DeleteRegistryCredential (sv_faults (cv_sv cv)) (sv_dbnow (cv_sv cv)) userID sourceID
            ((user_audit userID ''credential.deleted'' ''registry_credential'' (rc_ID c))
              \<lparr>au_Details := [(''source_id'', sourceID)]\<rparr>))))"

section \<open>The connector of a request\<close>

record 'w Selector =
  rs_sv :: Services
  rs_crypto :: Crypto
  rs_keyring :: SecretKeyring
  rs_sources :: "ConfigSource list"
  rs_connectors :: "string \<Rightarrow> 'w Connector option"
  rs_factory :: "ConfigSource \<Rightarrow> string \<Rightarrow> string \<Rightarrow> 'w Connector result"

text \<open>The factory of the program: a connector with the user's credentials and an empty token
  cache of its own.\<close>

definition runtime_factory :: "'n HTTPEnv \<Rightarrow> ConfigSource \<Rightarrow> string \<Rightarrow> string \<Rightarrow> HTTPConnector result" where
  "runtime_factory env source username password =
    NewHTTPConnector env (cs_ID source) (cs_Endpoint source)
      (Some \<lparr>ba_username = username, ba_password = password\<rparr>)
      (Strategy (cs_Auth source) = AuthStrategyCurrentUserRequired) (TokenHosts (cs_Auth source))"

definition challenge_source :: "ConfigSource \<Rightarrow> bool" where
  "challenge_source source \<longleftrightarrow> Strategy (cs_Auth source) = [] \<or> Strategy (cs_Auth source) = AuthStrategyChallenge"

definition ConnectorFor ::
  "'w Selector \<Rightarrow> Principal \<Rightarrow> string \<Rightarrow> string \<Rightarrow> ('w Connector option \<times> string) sqlm" where
  "ConnectorFor rs client sourceID operation =
    (case source_by_id (rs_sources rs) sourceID of None \<Rightarrow> fail (GoErr ''%w: source %s'' [ErrUnavailable])
     | Some source \<Rightarrow>
       if \<not> cs_Enabled source then fail (GoErr ''%w: source %s'' [ErrUnavailable])
       else if pr_Kind client \<noteq> KindLocalUser \<or> pr_ID client = [] then
         (if operation = OperationPull \<and> challenge_source source then ret (rs_connectors rs sourceID, ''anonymous'')
          else fail (GoErr ''%w: local user authentication is required'' [ErrCredentialRequired]))
       else
       andthen (SQL_FindUserByID (sv_faults (rs_sv rs)) (pr_ID client)) (\<lambda>user.
       if (case user of None \<Rightarrow> True | Some u \<Rightarrow> \<not> Enabled u)
       then fail (GoErr ''%w: local user is disabled'' [ErrAuthorization])
       else if Strategy (cs_Auth source) = AuthStrategyProxy then ret (rs_connectors rs sourceID, ''proxy'')
       else
       andthen (findRegistryCredential (sv_faults (rs_sv rs)) (pr_ID client) sourceID) (\<lambda>credential.
       case credential of
         None \<Rightarrow> if challenge_source source then ret (rs_connectors rs sourceID, ''anonymous'')
            else fail (GoErr ''%w: no credential for source %s'' [ErrCredentialRequired])
       | Some c \<Rightarrow>
         (case Decrypt (rs_crypto rs) (rs_keyring rs) (rc_ID c) (pr_ID client) sourceID (rc_EncryptedSecret c) of
            Inl _ \<Rightarrow> fail (GoErr ''%w: credential cannot be decrypted'' [ErrCredentialUnavailable])
          | Inr secret \<Rightarrow>
            (case rs_factory rs source (rc_Username c) secret of
               Inl _ \<Rightarrow> fail (GoErr ''%w: create request connector'' [ErrCredentialUnavailable])
             | Inr connector \<Rightarrow> ret (Some connector, ''current_user''))))))"

definition AuthorizeCache :: "'w Selector \<Rightarrow> Principal \<Rightarrow> CacheBinding \<Rightarrow> string \<Rightarrow> string sqlm" where
  "AuthorizeCache rs client binding operation =
    (case source_by_id (rs_sources rs) (cb_Source binding) of None \<Rightarrow> fail (sentinel_err ErrAuthorization)
     | Some source \<Rightarrow>
       if \<not> cs_Enabled source then fail (sentinel_err ErrAuthorization)
       else if cb_Access binding = CacheAccessChallenge \<and> operation = OperationPull then ret ''anonymous''
       else if pr_Kind client \<noteq> KindLocalUser \<or> pr_ID client = [] then fail (sentinel_err ErrCredentialRequired)
       else if cb_Access binding = CacheAccessCurrentUserRequired \<and> pr_ID client \<noteq> cb_UserID binding
       then fail (sentinel_err ErrAuthorization)
       else
       andthen (otherwise (sentinel_err ErrAuthorization) (SQL_FindUserByID (sv_faults (rs_sv rs)) (pr_ID client))) (\<lambda>user.
       if (case user of None \<Rightarrow> True | Some u \<Rightarrow> \<not> Enabled u) then fail (sentinel_err ErrAuthorization)
       else if cb_Access binding = CacheAccessProxy then ret ''proxy''
       else
       andthen (findRegistryCredential (sv_faults (rs_sv rs)) (pr_ID client) (cb_Source binding)) (\<lambda>credential.
       case credential of None \<Rightarrow> fail (sentinel_err ErrCredentialRequired) | Some _ \<Rightarrow> ret ''current_user'')))"

text \<open>The selector as the provider of the resolvers.\<close>

definition runtime_provider :: "'w Selector \<Rightarrow> (SqlState, 'w) ConnectorProvider" where
  "runtime_provider rs = \<lparr>cp_ConnectorFor = (\<lambda>s client sourceID operation. ConnectorFor rs client sourceID operation s),
     cp_AuthorizeCache = (\<lambda>s client binding operation. AuthorizeCache rs client binding operation s)\<rparr>"

end
