(* ===== verification/Credentials_Properties.thy ===== *)
theory Credentials_Properties
  imports Credentials Accounts_Properties
begin

text \<open>
  Properties of the registry credentials: a saved credential is the one requests use, requests
  use no other user's credential, and the cache is opened to the users it was filled for.
\<close>

section \<open>Results\<close>

lemma find_credential_Inr:
  "findRegistryCredential F u i s = (Inr x, s') \<Longrightarrow> fst s' = fst s
     \<and> find (\<lambda>c. rc_UserID c = u \<and> rc_SourceID c = i) (t_credentials (fst s)) = x"
  by (auto simp: findRegistryCredential_def results)

lemma working_credential:
  "working sv \<Longrightarrow> findRegistryCredential (sv_faults sv) u i s
     = (Inr (find (\<lambda>c. rc_UserID c = u \<and> rc_SourceID c = i) (t_credentials (fst s))), (fst s, Suc (snd s)))"
  by (simp add: findRegistryCredential_def working_def wrapping_def query_def sql_def)

lemma insertAuditEvent_credentials:
  "insertAuditEvent F a t s = (Inr x, s') \<Longrightarrow> t_users (fst s') = t_users (fst s) \<and> t_credentials (fst s') = t_credentials (fst s)"
  by (auto dest!: insertAuditEvent_Inr)

lemma SaveRegistryCredential_Inr:
  assumes "SaveRegistryCredential F now c a s = (Inr v, s')"
  shows "t_users (fst s') = t_users (fst s)
    \<and> (\<exists>row. find (\<lambda>x. rc_UserID x = rc_UserID c \<and> rc_SourceID x = rc_SourceID c) (t_credentials (fst s')) = Some row
         \<and> rc_ID row = rc_ID c \<and> rc_Username row = rc_Username c \<and> rc_EncryptedSecret row = rc_EncryptedSecret c)"
proof -
  let ?find = "\<lambda>cs. find (\<lambda>x. rc_UserID x = rc_UserID c \<and> rc_SourceID x = rc_SourceID c) cs"
  let ?upd = "\<lambda>t x. if rc_ID x = rc_ID c then x\<lparr>rc_Username := rc_Username c, rc_EncryptedSecret := rc_EncryptedSecret c,
                       rc_UpdatedAt := t\<rparr> else x"
  have u: "?find (map (?upd t) cs) = map_option (?upd t) (?find cs)" for t cs
    by (induction cs) auto
  from assms have "transaction F ''begin credential save: %w'' ''commit credential save: %w'' (
      andthen (findRegistryCredential F (rc_UserID c) (rc_SourceID c)) (\<lambda>row.
      andthen (case row of
          None \<Rightarrow>
            let c = c\<lparr>rc_CreatedAt := now, rc_UpdatedAt := now\<rparr> in
            andthen (wrapping ''save registry credential: %w'' (sql F (insert_credential c))) (\<lambda>_. ret c)
        | Some existing \<Rightarrow>
            if rc_ID existing \<noteq> rc_ID c
            then fail (GoErr ''%w: credential id does not match existing user/source record'' [ErrConflict])
            else let c = c\<lparr>rc_CreatedAt := rc_CreatedAt existing,
                                             rc_UpdatedAt := nextUpdatedAt now (rc_UpdatedAt existing)\<rparr> in
            andthen (wrapping ''save registry credential: %w'' (sql F (\<lambda>db. Inr ((), db\<lparr>t_credentials := map (\<lambda>x.
                if rc_ID x = rc_ID c
                then x\<lparr>rc_Username := rc_Username c, rc_EncryptedSecret := rc_EncryptedSecret c,
                       rc_UpdatedAt := rc_UpdatedAt c\<rparr> else x) (t_credentials db)\<rparr>)))) (\<lambda>_. ret c))
        (\<lambda>c. andthen (insertAuditEvent F a now) (\<lambda>_. ret (True, c))))) s = (Inr v, s')"
    unfolding SaveRegistryCredential_def after_check_Inr by simp
  then show ?thesis
  proof (rule transaction_Inr, goal_cases)
    case (1 n s2)
    from 1(1) obtain x t1 w t2 row where x: "findRegistryCredential F (rc_UserID c) (rc_SourceID c) (fst s, n) = (Inr x, t1)"
      and y: "(case x of
          None \<Rightarrow>
            let c = c\<lparr>rc_CreatedAt := now, rc_UpdatedAt := now\<rparr> in
            andthen (wrapping ''save registry credential: %w'' (sql F (insert_credential c))) (\<lambda>_. ret c)
        | Some existing \<Rightarrow>
            if rc_ID existing \<noteq> rc_ID c
            then fail (GoErr ''%w: credential id does not match existing user/source record'' [ErrConflict])
            else let c = c\<lparr>rc_CreatedAt := rc_CreatedAt existing,
                                             rc_UpdatedAt := nextUpdatedAt now (rc_UpdatedAt existing)\<rparr> in
            andthen (wrapping ''save registry credential: %w'' (sql F (\<lambda>db. Inr ((), db\<lparr>t_credentials := map (\<lambda>x.
                if rc_ID x = rc_ID c
                then x\<lparr>rc_Username := rc_Username c, rc_EncryptedSecret := rc_EncryptedSecret c,
                       rc_UpdatedAt := rc_UpdatedAt c\<rparr> else x) (t_credentials db)\<rparr>)))) (\<lambda>_. ret c)) t1 = (Inr w, t2)"
      and a: "insertAuditEvent F a now t2 = (Inr row, s2)"
      by (simp only: andthen_Inr ret_Inr) blast
    note f = find_credential_Inr [OF x, unfolded fst_conv]
    note t = insertAuditEvent_credentials [OF a] 1(2)
    show ?case
    proof (cases x)
      case None
      with y have "fst t2 = (fst t1)\<lparr>t_credentials := t_credentials (fst t1) @ [c\<lparr>rc_CreatedAt := now, rc_UpdatedAt := now\<rparr>]\<rparr>"
        by (auto simp: results Let_def dest!: insert_credential_Inr)
      with f t None show ?thesis by (simp add: find_append)
    next
      case (Some e)
      with y have e: "rc_ID e = rc_ID c" and t2: "fst t2 = (fst t1)\<lparr>t_credentials :=
          map (?upd (nextUpdatedAt now (rc_UpdatedAt e))) (t_credentials (fst t1))\<rparr>"
        by (auto simp: results Let_def split: if_splits)
      with f t Some show ?thesis by (simp add: u)
    qed
  next
    case (2 n s2)
    then show ?case by (clarsimp simp: andthen_Inr)
  qed
qed

text \<open>
  After VerifyAndSave has succeeded for an enabled user and a source
  that does not use the proxy's own credentials, every request of that user to the source gets
  a connector made with exactly the saved user name and secret; any keyring that holds the key
  reads it.
\<close>

theorem saved_credential_is_used:
  assumes "VerifyAndSave cv verifier uid src name secret ((db, n), net) = (Inr view, (db1, n1), net1)"
    and "crypto_ok (cv_crypto cv)" and "\<forall>k nonce. cv_nonce cv k = Inr nonce \<longrightarrow> length nonce = k"
    and "ValidString (kr_activeKeyID (cv_keyring cv))"
    and "rs_crypto rs = cv_crypto cv" and "working (rs_sv rs)"
    and "map_of (kr_keys (rs_keyring rs)) (kr_activeKeyID (cv_keyring cv)) = map_of (kr_keys (cv_keyring cv)) (kr_activeKeyID (cv_keyring cv))"
    and "source_by_id (rs_sources rs) src = Some source" "cs_Enabled source" "Strategy (cs_Auth source) \<noteq> AuthStrategyProxy"
    and "find (\<lambda>u. usr_ID u = uid) (t_users db) = Some u" "Enabled u" "uid \<noteq> []"
    and "pr_Kind client = KindLocalUser" "pr_ID client = uid"
  shows "fst (ConnectorFor rs client src operation (db1, m)) =
    (case rs_factory rs source name secret of
       Inl _ \<Rightarrow> Inl (GoErr ''%w: create request connector'' [ErrCredentialUnavailable])
     | Inr connector \<Rightarrow> Inr (Some connector, ''current_user''))"
proof -
  from assms(1) obtain n' where sv: "save_credential cv uid src name secret (db, n') = (Inr view, (db1, n1))"
    by (auto simp: VerifyAndSave_def Let_def split: option.splits if_splits sum.splits prod.splits)
  then obtain i action encrypted s1 s2 where e: "Encrypt (cv_crypto cv) (cv_nonce cv) (cv_keyring cv) i uid src secret = Inr encrypted"
    and s: "\<exists>a v. SaveRegistryCredential (sv_faults (cv_sv cv)) (sv_dbnow (cv_sv cv))
        \<lparr>rc_ID = i, rc_UserID = uid, rc_SourceID = src, rc_Username = name, rc_EncryptedSecret = encrypted,
         rc_CreatedAt = 0, rc_UpdatedAt = 0\<rparr> a s1 = (Inr v, (db1, s2))" and db: "t_users (fst s1) = t_users db"
  proof -
    have k: "keeps (=) (findRegistryCredential (sv_faults (cv_sv cv)) uid src)" by (intro keeps_intros) auto
    from sv obtain x t1 i action t2 enc v t3 where
      x: "findRegistryCredential (sv_faults (cv_sv cv)) uid src (db, n') = (Inr x, t1)"
      and y: "(case x of Some e \<Rightarrow> ret (rc_ID e, ''credential.replaced'')
         | None \<Rightarrow> andthen (lift (randomID (cv_sv cv) 0)) (\<lambda>i. ret (i, ''credential.created''))) t1 = (Inr (i, action), t2)"
      and z: "Encrypt (cv_crypto cv) (cv_nonce cv) (cv_keyring cv) i uid src secret = Inr enc"
        "SaveRegistryCredential (sv_faults (cv_sv cv)) (sv_dbnow (cv_sv cv))
        \<lparr>rc_ID = i, rc_UserID = uid, rc_SourceID = src, rc_Username = name, rc_EncryptedSecret = enc,
         rc_CreatedAt = 0, rc_UpdatedAt = 0\<rparr> ((user_audit uid action ''registry_credential'' i)\<lparr>au_Details := [(''source_id'', src)]\<rparr>)
        t2 = (Inr v, t3)" "t3 = (db1, n1)"
      by (clarsimp simp: save_credential_def andthen_Inr lift_Inr)
    have "fst t2 = db" using find_credential_Inr [OF x] y by (auto simp: andthen_Inr lift_Inr split: option.splits)
    with z that show thesis by blast
  qed
  from s obtain a v where s': "SaveRegistryCredential (sv_faults (cv_sv cv)) (sv_dbnow (cv_sv cv))
        \<lparr>rc_ID = i, rc_UserID = uid, rc_SourceID = src, rc_Username = name, rc_EncryptedSecret = encrypted,
         rc_CreatedAt = 0, rc_UpdatedAt = 0\<rparr> a s1 = (Inr v, (db1, s2))" by blast
  from SaveRegistryCredential_Inr [OF s'] obtain row where us: "t_users db1 = t_users db"
    and row: "find (\<lambda>x. rc_UserID x = uid \<and> rc_SourceID x = src) (t_credentials db1) = Some row"
      "rc_ID row = i" "rc_Username row = name" "rc_EncryptedSecret row = encrypted"
    using db by auto
  have "Decrypt (rs_crypto rs) (rs_keyring rs) i uid src encrypted = Inr secret"
  proof (rule Decrypt_sealed [OF assms(2) e assms(3,4,7)])
    fix key nonce
    assume "length nonce = cr_NonceSize (cv_crypto cv)" and d: "\<And>r' u' s'. Decrypt (cv_crypto cv) (rs_keyring rs) r' u' s' encrypted =
      (case cr_Open (cv_crypto cv) key nonce (cr_Seal (cv_crypto cv) key nonce secret (secretAssociatedData (cv_crypto cv) i uid src))
          (secretAssociatedData (cv_crypto cv) r' u' s') of Inl _ \<Rightarrow> unavailable | Inr plaintext \<Rightarrow> Inr plaintext)"
    then show ?thesis using assms(2) by (simp add: assms(5) crypto_ok_def)
  qed
  then have d: "Decrypt (rs_crypto rs) (rs_keyring rs) (rc_ID row) uid src (rc_EncryptedSecret row) = Inr secret"
    by (simp only: row)
  have 1: "SQL_FindUserByID (sv_faults (rs_sv rs)) uid (db1, m) = (Inr (Some u), (db1, m + 2))"
    by (simp add: working_lookups [OF assms(6)] us assms(11))
  have 2: "findRegistryCredential (sv_faults (rs_sv rs)) uid src (db1, m + 2) = (Inr (Some row), (db1, Suc (m + 2)))"
    by (simp add: working_credential [OF assms(6)] row(1))
  show ?thesis
    by (simp add: ConnectorFor_def andthen_def assms(8-10,12-15) 1 [simplified] 2 [simplified] d row(3) ret_def fail_def split: sum.split)
qed

section \<open>Own credentials only\<close>

text \<open>Both functions go on with an enabled user only.\<close>

lemma andthen_enabled:
  assumes "andthen m (\<lambda>user. if (case user of None \<Rightarrow> True | Some u \<Rightarrow> \<not> Enabled u) then fail e else k) s = (Inr x, s')"
  obtains u s1 where "m s = (Inr (Some u), s1)" "Enabled u" "k s1 = (Inr x, s')"
proof -
  from assms obtain user s1 where m: "m s = (Inr user, s1)"
    and k: "(if (case user of None \<Rightarrow> True | Some u \<Rightarrow> \<not> Enabled u) then fail e else k) s1 = (Inr x, s')"
    by (auto simp only: andthen_Inr)
  from k m that show thesis by (cases user) (auto split: if_splits)
qed

text \<open>
  C13: a connector that ConnectorFor grants is the configured one of the source,
  marked anonymous or proxy, or is made with the credential that the database holds for this very
  user and source; anonymous clients get the configured one, for pulls from challenge sources
  only; disabled users get none; and the database is only read.
\<close>

theorem own_credentials_only:
  assumes "ConnectorFor rs client src operation (db, n) = (Inr (c, label), s')"
  shows "fst s' = db \<and> (\<exists>source. source_by_id (rs_sources rs) src = Some source \<and> cs_Enabled source
    \<and> (if label = ''current_user''
       then \<exists>cred secret connector. cred \<in> set (t_credentials db) \<and> rc_UserID cred = pr_ID client \<and> rc_SourceID cred = src
         \<and> Decrypt (rs_crypto rs) (rs_keyring rs) (rc_ID cred) (pr_ID client) src (rc_EncryptedSecret cred) = Inr secret
         \<and> rs_factory rs source (rc_Username cred) secret = Inr connector \<and> c = Some connector
       else c = rs_connectors rs src \<and> (label = ''proxy'' \<and> Strategy (cs_Auth source) = AuthStrategyProxy
         \<or> label = ''anonymous'' \<and> challenge_source source))
    \<and> (if pr_Kind client = KindLocalUser \<and> pr_ID client \<noteq> []
       then \<exists>u \<in> set (t_users db). usr_ID u = pr_ID client \<and> Enabled u
       else label = ''anonymous'' \<and> operation = OperationPull))"
proof -
  from assms obtain source where src: "source_by_id (rs_sources rs) src = Some source" "cs_Enabled source"
    by (auto simp: ConnectorFor_def split: option.splits if_splits)
  show ?thesis
  proof (cases "pr_Kind client = KindLocalUser \<and> pr_ID client \<noteq> []")
    case False
    with assms src show ?thesis by (auto simp: ConnectorFor_def split: if_splits)
  next
    case True
    with assms src have k: "andthen (SQL_FindUserByID (sv_faults (rs_sv rs)) (pr_ID client)) (\<lambda>user.
       if (case user of None \<Rightarrow> True | Some u \<Rightarrow> \<not> Enabled u)
       then fail (GoErr ''%w: local user is disabled'' [ErrAuthorization]) else (if Strategy (cs_Auth source) = AuthStrategyProxy then ret (rs_connectors rs src, ''proxy'')
       else
       andthen (findRegistryCredential (sv_faults (rs_sv rs)) (pr_ID client) src) (\<lambda>credential.
       case credential of
         None \<Rightarrow> if challenge_source source then ret (rs_connectors rs src, ''anonymous'')
            else fail (GoErr ''%w: no credential for source %s'' [ErrCredentialRequired])
       | Some c \<Rightarrow>
         (case Decrypt (rs_crypto rs) (rs_keyring rs) (rc_ID c) (pr_ID client) src (rc_EncryptedSecret c) of
            Inl _ \<Rightarrow> fail (GoErr ''%w: credential cannot be decrypted'' [ErrCredentialUnavailable])
          | Inr secret \<Rightarrow>
            (case rs_factory rs source (rc_Username c) secret of
               Inl _ \<Rightarrow> fail (GoErr ''%w: create request connector'' [ErrCredentialUnavailable])
             | Inr connector \<Rightarrow> ret (Some connector, ''current_user'')))))) (db, n) = (Inr (c, label), s')"
      by (simp add: ConnectorFor_def)
    obtain user s1 where u: "SQL_FindUserByID (sv_faults (rs_sv rs)) (pr_ID client) (db, n) = (Inr (Some user), s1)" "Enabled user"
      and rest: "(if Strategy (cs_Auth source) = AuthStrategyProxy then ret (rs_connectors rs src, ''proxy'')
       else
       andthen (findRegistryCredential (sv_faults (rs_sv rs)) (pr_ID client) src) (\<lambda>credential.
       case credential of
         None \<Rightarrow> if challenge_source source then ret (rs_connectors rs src, ''anonymous'')
            else fail (GoErr ''%w: no credential for source %s'' [ErrCredentialRequired])
       | Some c \<Rightarrow>
         (case Decrypt (rs_crypto rs) (rs_keyring rs) (rc_ID c) (pr_ID client) src (rc_EncryptedSecret c) of
            Inl _ \<Rightarrow> fail (GoErr ''%w: credential cannot be decrypted'' [ErrCredentialUnavailable])
          | Inr secret \<Rightarrow>
            (case rs_factory rs source (rc_Username c) secret of
               Inl _ \<Rightarrow> fail (GoErr ''%w: create request connector'' [ErrCredentialUnavailable])
             | Inr connector \<Rightarrow> ret (Some connector, ''current_user''))))) s1 = (Inr (c, label), s')"
      by (rule andthen_enabled [OF k])
    from find_user_Inr(1) [OF u(1)] have db: "fst s1 = db" "user \<in> set (t_users db)" "usr_ID user = pr_ID client"
      by (auto dest: find_SomeD)
    show ?thesis
    proof (cases "Strategy (cs_Auth source) = AuthStrategyProxy")
      case proxy: True
      with rest True src db u(2) show ?thesis by auto
    next
      case cred: False
      from rest [unfolded if_not_P [OF cred]] obtain x s2 where x: "findRegistryCredential (sv_faults (rs_sv rs)) (pr_ID client) src s1 = (Inr x, s2)"
        and r: "(case x of
         None \<Rightarrow> if challenge_source source then ret (rs_connectors rs src, ''anonymous'')
            else fail (GoErr ''%w: no credential for source %s'' [ErrCredentialRequired])
       | Some c \<Rightarrow>
         (case Decrypt (rs_crypto rs) (rs_keyring rs) (rc_ID c) (pr_ID client) src (rc_EncryptedSecret c) of
            Inl _ \<Rightarrow> fail (GoErr ''%w: credential cannot be decrypted'' [ErrCredentialUnavailable])
          | Inr secret \<Rightarrow>
            (case rs_factory rs source (rc_Username c) secret of
               Inl _ \<Rightarrow> fail (GoErr ''%w: create request connector'' [ErrCredentialUnavailable])
             | Inr connector \<Rightarrow> ret (Some connector, ''current_user'')))) s2 = (Inr (c, label), s')" by (auto simp: andthen_Inr)
      from find_credential_Inr [OF x] db have f: "fst s2 = db" "find (\<lambda>c. rc_UserID c = pr_ID client \<and> rc_SourceID c = src) (t_credentials db) = x"
        by simp_all
      show ?thesis
      proof (cases x)
        case None
        with r f True src db u(2) show ?thesis by (auto split: if_splits)
      next
        case (Some cr)
        with f(2) have "cr \<in> set (t_credentials db)" "rc_UserID cr = pr_ID client" "rc_SourceID cr = src" by (auto dest: find_SomeD)
        moreover from Some r obtain secret connector where
          "Decrypt (rs_crypto rs) (rs_keyring rs) (rc_ID cr) (pr_ID client) src (rc_EncryptedSecret cr) = Inr secret"
          "rs_factory rs source (rc_Username cr) secret = Inr connector" "c = Some connector" "label = ''current_user''" "s' = s2"
          by (auto split: sum.splits)
        ultimately show ?thesis using f(1) True src db(2,3) u(2) by auto
      qed
    qed
  qed
qed

section \<open>The cache\<close>

lemma AuthorizeCache_Inr:
  assumes "AuthorizeCache rs client b operation (db, n) = (Inr label, s')"
  shows "fst s' = db \<and> (if cb_Access b = CacheAccessChallenge \<and> operation = OperationPull then label = ''anonymous''
     else pr_Kind client = KindLocalUser \<and> (\<exists>u \<in> set (t_users db). usr_ID u = pr_ID client \<and> Enabled u)
       \<and> (cb_Access b = CacheAccessCurrentUserRequired \<longrightarrow> pr_ID client = cb_UserID b)
       \<and> (cb_Access b \<noteq> CacheAccessProxy \<longrightarrow> label = ''current_user''
            \<and> (\<exists>c \<in> set (t_credentials db). rc_UserID c = pr_ID client \<and> rc_SourceID c = cb_Source b)))"
proof (cases "cb_Access b = CacheAccessChallenge \<and> operation = OperationPull")
  case True
  with assms show ?thesis by (auto simp: AuthorizeCache_def split: option.splits if_splits)
next
  case False
  with assms have l: "pr_Kind client = KindLocalUser" "cb_Access b = CacheAccessCurrentUserRequired \<longrightarrow> pr_ID client = cb_UserID b"
    and m: "andthen (otherwise (sentinel_err ErrAuthorization) (SQL_FindUserByID (sv_faults (rs_sv rs)) (pr_ID client))) (\<lambda>user.
       if (case user of None \<Rightarrow> True | Some u \<Rightarrow> \<not> Enabled u) then fail (sentinel_err ErrAuthorization)
       else if cb_Access b = CacheAccessProxy then ret ''proxy''
       else
       andthen (findRegistryCredential (sv_faults (rs_sv rs)) (pr_ID client) (cb_Source b)) (\<lambda>credential.
       case credential of None \<Rightarrow> fail (sentinel_err ErrCredentialRequired) | Some _ \<Rightarrow> ret ''current_user'')) (db, n) = (Inr label, s')"
    unfolding AuthorizeCache_def by (simp_all split: option.splits if_splits)
  obtain user s1 where u0: "otherwise (sentinel_err ErrAuthorization) (SQL_FindUserByID (sv_faults (rs_sv rs)) (pr_ID client)) (db, n) = (Inr (Some user), s1)" "Enabled user"
    and rest: "(if cb_Access b = CacheAccessProxy then ret ''proxy''
       else
       andthen (findRegistryCredential (sv_faults (rs_sv rs)) (pr_ID client) (cb_Source b)) (\<lambda>credential.
       case credential of None \<Rightarrow> fail (sentinel_err ErrCredentialRequired) | Some _ \<Rightarrow> ret ''current_user'')) s1 = (Inr label, s')"
    by (rule andthen_enabled [OF m])
  then have u: "SQL_FindUserByID (sv_faults (rs_sv rs)) (pr_ID client) (db, n) = (Inr (Some user), s1)" "Enabled user" by simp_all
  from find_user_Inr(1) [OF u(1)] have db: "fst s1 = db" "user \<in> set (t_users db)" "usr_ID user = pr_ID client"
    by (auto dest: find_SomeD)
  have "fst s' = db \<and> (cb_Access b \<noteq> CacheAccessProxy \<longrightarrow> label = ''current_user''
            \<and> (\<exists>c \<in> set (t_credentials db). rc_UserID c = pr_ID client \<and> rc_SourceID c = cb_Source b))"
    using rest db by (auto simp: andthen_Inr split: if_splits option.splits dest!: find_credential_Inr dest: find_SomeD)
  with False l db(2,3) u(2) show ?thesis by auto
qed

section \<open>Instances\<close>

definition kx_source :: ConfigSource where
  "kx_source = \<lparr>cs_ID = ''harbor'', cs_Name = ''Harbor'', cs_Endpoint = ''https://harbor'', cs_Type = ''harbor'', cs_Enabled = True,
     cs_Auth = \<lparr>Strategy = [], TokenHosts = []\<rparr>,
     cs_UserCredentials = \<lparr>uc_Pull = True, uc_Push = True, VerificationRepository = [], Guidance = [], AllowInsecure = False\<rparr>\<rparr>"

definition kx_service :: CredentialService where
  "kx_service = \<lparr>cv_sv = ax_sv, cv_crypto = sx_crypto, cv_nonce = sx_random, cv_keyring = sx_old, cv_sources = [kx_source]\<rparr>"

definition kx_selector :: "FakeState Selector" where
  "kx_selector = \<lparr>rs_sv = ax_sv, rs_crypto = sx_crypto, rs_keyring = sx_new, rs_sources = [kx_source], rs_connectors = (\<lambda>_. None),
     rs_factory = (\<lambda>source username password. Inr (Fake_ops id (\<lambda>_. None) (username @ '':'' @ password)))\<rparr>"

definition kx_save :: "RegistryCredentialView result \<times> SqlState \<times> unit" where
  "kx_save = VerifyAndSave kx_service (\<lambda>_ n. (Inr (), n)) ''1'' ''harbor'' ''bob'' ''s3cret'' ((ax_db, 0), ())"

lemma kx_saved: "isOK (fst kx_save)"
  by code_simp

definition kx_client :: Principal where
  "kx_client = \<lparr>pr_Kind = KindLocalUser, pr_ID = ''1'', pr_Username = ''root''\<rparr>"

theorem saved_credential_is_used_witness:
  "\<exists>c. fst (ConnectorFor kx_selector kx_client ''harbor'' OperationPush (fst (fst (snd kx_save)), 0)) = Inr (Some c, ''current_user'')
     \<and> cn_Name c = ''bob:s3cret''"
proof -
  obtain view db1 n1 net1 where v: "VerifyAndSave kx_service (\<lambda>_ n. (Inr (), n)) ''1'' ''harbor'' ''bob'' ''s3cret'' ((ax_db, 0), ())
      = (Inr view, (db1, n1), net1)"
    using kx_saved unfolding kx_save_def
    by (cases "VerifyAndSave kx_service (\<lambda>_ n. (Inr (), n)) ''1'' ''harbor'' ''bob'' ''s3cret'' ((ax_db, 0), ())") (auto simp: isOK_iff)
  have a: "crypto_ok (cv_crypto kx_service)" "\<forall>k nonce. cv_nonce kx_service k = Inr nonce \<longrightarrow> length nonce = k"
    "ValidString (kr_activeKeyID (cv_keyring kx_service))" "rs_crypto kx_selector = cv_crypto kx_service" "working (rs_sv kx_selector)"
    "map_of (kr_keys (rs_keyring kx_selector)) (kr_activeKeyID (cv_keyring kx_service))
       = map_of (kr_keys (cv_keyring kx_service)) (kr_activeKeyID (cv_keyring kx_service))"
    "source_by_id (rs_sources kx_selector) ''harbor'' = Some kx_source" "cs_Enabled kx_source"
    "Strategy (cs_Auth kx_source) \<noteq> AuthStrategyProxy" "find (\<lambda>u. usr_ID u = ''1'') (t_users ax_db) = Some ax_user" "Enabled ax_user"
    "''1'' \<noteq> []" "pr_Kind kx_client = KindLocalUser" "pr_ID kx_client = ''1''"
    by (simp_all add: kx_service_def kx_selector_def sx_crypto_ok sx_random_def ax_simps sx_old_def sx_new_def ValidString_ascii
        kx_source_def source_by_id_def AuthStrategyProxy_def kx_client_def)
  have d: "fst (fst (snd kx_save)) = db1" by (simp add: kx_save_def v)
  from saved_credential_is_used [OF v a, of OperationPush 0] show ?thesis
    by (simp add: d) (simp add: kx_selector_def Fake_ops_def)
qed

lemma kx_plain: "isOK (fst (ConnectorFor kx_selector kx_client ''harbor'' OperationPush (ax_db, 0)))"
  by code_simp

theorem own_credentials_only_witness:
  "\<exists>s. ConnectorFor kx_selector kx_client ''harbor'' OperationPush (ax_db, 0) = (Inr (None, ''anonymous''), s)"
proof -
  let ?c = "ConnectorFor kx_selector kx_client ''harbor'' OperationPush (ax_db, 0)"
  obtain c label s where c: "?c = (Inr (c, label), s)" using kx_plain by (cases ?c) (auto simp: isOK_iff)
  have "rs_connectors kx_selector ''harbor'' = None" "rs_sources kx_selector = [kx_source]" "t_credentials ax_db = []"
    "Strategy (cs_Auth kx_source) = []" by (simp_all add: kx_selector_def ax_db_def empty_db_def kx_source_def)
  with own_credentials_only [OF c] have "c = None" "label = ''anonymous''"
    by (auto simp: source_by_id_def kx_source_def AuthStrategyProxy_def split: if_splits)
  with c show ?thesis by simp
qed

end
