(* ===== verification/HTTP_Server.thy ===== *)
theory HTTP_Server
  imports Pull_Resolver Push_Resolver Passwords
begin

text \<open>
  What the HTTP handlers use of Go's standard library: decimal numbers (strconv), host and port
  (net), and net/http requests and responses. A handler is a function from the request and the
  server's state to the response it writes and the new state; the response is the status, the
  headers in the order they were set, the cookies, and the body as the value that is encoded.
\<close>

section \<open>Decimal numbers\<close>

text \<open>strconv.FormatInt in base 10.\<close>

definition FormatInt :: "int \<Rightarrow> string" where
  "FormatInt i = (if i < 0 then CHR ''-'' # FormatUint (nat (- i)) else FormatUint (nat i))"

text \<open>strconv.ParseInt with base 10 and 64 bits, and strconv.Atoi where int has 64 bits.\<close>

definition ParseInt :: "string \<Rightarrow> int result" where
  "ParseInt s =
    (let (neg, digits) = (case s of [] \<Rightarrow> (False, s)
           | c # cs \<Rightarrow> if c = CHR ''-'' then (True, cs) else if c = CHR ''+'' then (False, cs) else (False, s));
         i = (if neg then - int (parse_digits digits) else int (parse_digits digits)) in
     if digits = [] \<or> \<not> list_all is_digit digits then Inl (errorf ''invalid syntax'')
     else if i < - (2 ^ 63) \<or> i \<ge> 2 ^ 63 then Inl (errorf ''value out of range'')
     else Inr i)"

lemma ParseInt_FormatInt: "- (2 ^ 63) \<le> i \<Longrightarrow> i < 2 ^ 63 \<Longrightarrow> ParseInt (FormatInt i) = Inr i"
proof (cases "i < 0")
  case True
  moreover assume "- (2 ^ 63) \<le> i" "i < 2 ^ 63"
  ultimately show ?thesis using FormatUint_digits [of "nat (- i)"]
    by (simp add: ParseInt_def FormatInt_def parse_FormatUint list_all_iff)
next
  case False
  moreover assume "- (2 ^ 63) \<le> i" "i < 2 ^ 63"
  moreover obtain c cs where c: "FormatUint (nat i) = c # cs" by (cases "FormatUint (nat i)") auto
  moreover have "is_digit c" "\<forall>x \<in> set cs. is_digit x" using FormatUint_digits [of "nat i"] c by auto
  moreover from this(1) have "c \<noteq> CHR ''-''" "c \<noteq> CHR ''+''" by (auto simp: is_digit_def)
  moreover have "parse_digits (c # cs) = nat i" using parse_FormatUint [of "nat i"] c by simp
  ultimately show ?thesis by (simp add: ParseInt_def FormatInt_def list_all_iff)
qed

section \<open>Hosts and ports\<close>

text \<open>The position of the last colon, or None.\<close>

definition LastColon :: "string \<Rightarrow> nat option" where
  "LastColon s = (if CHR '':'' \<in> set s
     then Some (length s - 1 - length (takeWhile (\<lambda>c. c \<noteq> CHR '':'') (rev s))) else None)"

text \<open>net.SplitHostPort.\<close>

definition SplitHostPort :: "string \<Rightarrow> (string \<times> string) result" where
  "SplitHostPort s =
    (case LastColon s of None \<Rightarrow> Inl (errorf ''missing port in address'')
     | Some i \<Rightarrow>
       if hd s = CHR ''[''
       then (case Index s '']'' of None \<Rightarrow> Inl (errorf ''missing ']' in address'')
         | Some end \<Rightarrow>
           if end + 1 = length s then Inl (errorf ''missing port in address'')
           else if end + 1 \<noteq> i then Inl (errorf (if s ! (end + 1) = CHR '':'' then ''too many colons in address'' else ''missing port in address''))
           else if CHR ''['' \<in> set (drop 1 s) then Inl (errorf ''unexpected '[' in address'')
           else if CHR '']'' \<in> set (drop (end + 1) s) then Inl (errorf ''unexpected ']' in address'')
           else Inr (take (end - 1) (drop 1 s), drop (i + 1) s))
       else if CHR '':'' \<in> set (take i s) then Inl (errorf ''too many colons in address'')
       else if CHR ''['' \<in> set s then Inl (errorf ''unexpected '[' in address'')
       else if CHR '']'' \<in> set s then Inl (errorf ''unexpected ']' in address'')
       else Inr (take i s, drop (i + 1) s))"

definition JoinHostPort :: "string \<Rightarrow> string \<Rightarrow> string" where
  "JoinHostPort host port =
    (if CHR '':'' \<in> set host then ''['' @ host @ '']:'' @ port else host @ '':'' @ port)"

section \<open>Requests and responses\<close>

text \<open>
  A request as net/http hands it over: the decoded path and query, headers under their
  canonical names, the parsed cookies and Basic credentials, and the body.
\<close>

record HRequest =
  hreq_Method :: string
  hreq_Path :: string
  hreq_Query :: "(string \<times> string list) list"
  hreq_Header :: "(string \<times> string) list"
  hreq_Cookies :: "(string \<times> string) list"
  hreq_BasicAuth :: "(string \<times> string) option"
  hreq_RemoteAddr :: string
  hreq_Host :: string
  hreq_Scheme :: string
  hreq_TLS :: bool
  hreq_Body :: Reader

record Cookie =
  ck_Name :: string
  ck_Value :: string
  ck_HttpOnly :: bool
  ck_MaxAge :: int

record 'b HResponse =
  hres_Status :: int
  hres_Header :: "(string \<times> string) list"
  hres_Cookies :: "Cookie list"
  hres_Body :: 'b

text \<open>Header.Get and Values.Get: the empty string when there is none.\<close>

definition header :: "HRequest \<Rightarrow> string \<Rightarrow> string" where
  "header r k = (case map_of (hreq_Header r) k of None \<Rightarrow> [] | Some v \<Rightarrow> v)"

definition query_value :: "HRequest \<Rightarrow> string \<Rightarrow> string" where
  "query_value r k = (case map_of (hreq_Query r) k of Some (v # vs) \<Rightarrow> v | _ \<Rightarrow> [])"

definition response_header :: "'b HResponse \<Rightarrow> string \<Rightarrow> string option" where
  "response_header r k = map_of (hres_Header r) k"

type_synonym headers = "(string \<times> string) list"

definition set_header :: "string \<Rightarrow> string \<Rightarrow> headers \<Rightarrow> headers" where
  "set_header k v h = AList.update k v h"

definition respond :: "headers \<Rightarrow> int \<Rightarrow> 'b \<Rightarrow> 'b HResponse" where
  "respond h status body = \<lparr>hres_Status = status, hres_Header = h, hres_Cookies = [], hres_Body = body\<rparr>"

lemma respond_simps [simp]:
  "hres_Status (respond h st b) = st" "hres_Header (respond h st b) = h" "hres_Cookies (respond h st b) = []"
  "hres_Body (respond h st b) = b" "response_header (respond h st b) k = map_of h k"
  by (simp_all add: respond_def response_header_def)

lemma map_of_set_header [simp]: "map_of (set_header k v h) k' = (if k' = k then Some v else map_of h k')"
  by (simp add: set_header_def update_conv')

text \<open>io.Copy into a buffer: what was read before the end or an error, and the error.\<close>

fun Copy_to :: "Reader \<Rightarrow> string \<times> goerr option" where
  "Copy_to [] = ([], None)"
| "Copy_to ((d, er) # rs) =
     (case er of Some EOF \<Rightarrow> (d, None)
      | Some (ReadErr e) \<Rightarrow> (d, Some e)
      | None \<Rightarrow> (case Copy_to rs of (c, e) \<Rightarrow> (d @ c, e)))"

lemma ReadAll_Copy_to: "ReadAll r = (case snd (Copy_to r) of None \<Rightarrow> Inr (fst (Copy_to r)) | Some e \<Rightarrow> Inl e)"
proof (induction r rule: Copy_to.induct)
  case (2 d er rs)
  show ?case
  proof (cases er)
    case None
    with 2 show ?thesis by (cases "Copy_to rs"; cases "snd (Copy_to rs)") simp_all
  next
    case (Some e)
    then show ?thesis by (cases e) simp_all
  qed
qed simp

text \<open>time.Duration.Round to whole seconds, the seconds of a Retry-After header.\<close>

definition Round :: "duration \<Rightarrow> duration \<Rightarrow> duration" where
  "Round d m =
    (if m \<le> 0 then d
     else if d < 0 then (let r = - d mod m in if r + r < m then d + r else if d - m + r < min_duration then min_duration else d - m + r)
     else let r = d mod m in if r + r < m then d - r else if d + m - r > max_duration then max_duration else d + m - r)"

end
