(* ===== verification/Gateway.thy ===== *)
theory Gateway
  imports HTTP_Server Rate_Limit
begin

text \<open>
  The registry HTTP API (internal/gateway/server.go): paths and scopes, the challenge and the
  token endpoint, authentication with the failure limiter, manifests, blobs and upload sessions,
  and the status of every error. The resolvers, the store and the authenticator are operations
  on a world 'w; a request is handled in one step, as the mutex of the uploads and the
  sequential use of one session by a client allow.
\<close>

section \<open>The server\<close>

record 'w Authenticator =
  ga_Issue :: "string \<Rightarrow> string \<Rightarrow> string \<Rightarrow> string list \<Rightarrow> 'w \<Rightarrow> (string \<times> time) result \<times> 'w"
  ga_Authenticate :: "string \<Rightarrow> string \<Rightarrow> string \<Rightarrow> 'w \<Rightarrow> Principal result \<times> 'w"

text \<open>EqualFold is strings.EqualFold, whose folding of characters comes from the Unicode tables.\<close>

record 'w Gateway =
  gw_puller :: "(ResolverPullRequest \<Rightarrow> 'w \<Rightarrow> PullResult result \<times> 'w) option"
  gw_blobPuller :: "(BlobRequest \<Rightarrow> 'w \<Rightarrow> BlobResult result \<times> 'w) option"
  gw_pusher :: "(ResolverPushRequest \<Rightarrow> 'w \<Rightarrow> PushResult result \<times> 'w) option"
  gw_store :: "string \<Rightarrow> Reader \<Rightarrow> 'w \<Rightarrow> Descriptor result \<times> 'w"
  gw_authenticator :: "'w Authenticator option"
  gw_now :: "nat \<Rightarrow> time"
  gw_unicode :: unicode
  gw_EqualFold :: "string \<Rightarrow> string \<Rightarrow> bool"
  gw_hash :: "string \<Rightarrow> string"
  gw_unmarshal :: "string \<Rightarrow> RawManifest result"

record uploadSession =
  us_repository :: string
  us_body :: string

record 'w GatewayState =
  gs_world :: 'w
  gs_limiter :: "FailureLimiter option"
  gs_uploads :: "string \<Rightarrow> uploadSession option"
  gs_nextID :: "64 word"
  gs_tick :: nat

text \<open>NewServer: the options leave the server without a store, or with one.\<close>

definition NewGateway ::
  "(string \<Rightarrow> Reader \<Rightarrow> 'w \<Rightarrow> Descriptor result \<times> 'w) option \<Rightarrow> 'w Gateway \<Rightarrow> FailureLimiter option \<Rightarrow> 'w
     \<Rightarrow> ('w Gateway \<times> 'w GatewayState) result" where
  "NewGateway store g limiter w =
    (case store of None \<Rightarrow> Inl (errorf ''content store is required'')
     | Some put \<Rightarrow> Inr (g\<lparr>gw_store := put\<rparr>,
         \<lparr>gs_world = w, gs_limiter = limiter, gs_uploads = (\<lambda>_. None), gs_nextID = 0, gs_tick = 0\<rparr>))"

definition in_world :: "('w \<Rightarrow> 'a \<times> 'w) \<Rightarrow> 'w GatewayState \<Rightarrow> 'a \<times> 'w GatewayState" where
  "in_world f s = (case f (gs_world s) of (x, w) \<Rightarrow> (x, s\<lparr>gs_world := w\<rparr>))"

definition now_of :: "'w Gateway \<Rightarrow> 'w GatewayState \<Rightarrow> time \<times> 'w GatewayState" where
  "now_of g s = (gw_now g (gs_tick s), s\<lparr>gs_tick := Suc (gs_tick s)\<rparr>)"

definition limiter_Allow :: "'w Gateway \<Rightarrow> string list \<Rightarrow> 'w GatewayState \<Rightarrow> (bool \<times> duration) \<times> 'w GatewayState" where
  "limiter_Allow g keys s =
    (case now_of g s of (t, s) \<Rightarrow> case Allow t (gs_limiter s) keys of (a, l) \<Rightarrow> (a, s\<lparr>gs_limiter := l\<rparr>))"

definition limiter_Failure :: "'w Gateway \<Rightarrow> string list \<Rightarrow> 'w GatewayState \<Rightarrow> 'w GatewayState" where
  "limiter_Failure g keys s = (case now_of g s of (t, s) \<Rightarrow> s\<lparr>gs_limiter := Failure t (gs_limiter s) keys\<rparr>)"

definition limiter_Success :: "string list \<Rightarrow> 'w GatewayState \<Rightarrow> 'w GatewayState" where
  "limiter_Success keys s = s\<lparr>gs_limiter := Success (gs_limiter s) keys\<rparr>"

section \<open>Responses\<close>

text \<open>GError code message stands for the JSON error document, GToken for the token document.\<close>

datatype gateway_body =
    GNone | GBytes string | GStream Reader | GError string string | GToken string int time

type_synonym gateway_response = "gateway_body HResponse"

definition writeOCIError :: "headers \<Rightarrow> int \<Rightarrow> string \<Rightarrow> string \<Rightarrow> gateway_response" where
  "writeOCIError h status code message =
    respond (set_header ''Content-Type'' ''application/json'' h) status (GError code message)"

definition writePullError :: "headers \<Rightarrow> goerr \<Rightarrow> gateway_response" where
  "writePullError h err =
    (if errors_Is err ErrCredentialRequired
     then writeOCIError h 401 ''UNAUTHORIZED'' ''a credential for the selected registry is required''
     else if errors_Is err ErrCredentialUnavailable
     then writeOCIError h 503 ''UNAVAILABLE'' ''the selected registry credential is unavailable''
     else if errors_Is err ErrAuthentication
     then writeOCIError h 401 ''UNAUTHORIZED'' ''the selected registry rejected the credential''
     else if errors_Is err ErrAuthorization
     then writeOCIError h 403 ''DENIED'' ''the selected registry denied the requested operation''
     else if errors_Is err ErrUnauthorized then writeOCIError h 403 ''DENIED'' (err_text err)
     else if errors_Is err ErrResolutionNotFound \<or> errors_Is err ErrNoRoute
     then writeOCIError h 404 ''MANIFEST_UNKNOWN'' (err_text err)
     else if errors_Is err ErrSourceUnavailable then writeOCIError h 502 ''UNAVAILABLE'' (err_text err)
     else writeOCIError h 500 ''UNKNOWN'' (err_text err))"

definition writePushError :: "headers \<Rightarrow> goerr \<Rightarrow> gateway_response" where
  "writePushError h err =
    (if errors_Is err ErrCredentialRequired
     then writeOCIError h 401 ''UNAUTHORIZED'' ''a credential for the selected registry is required''
     else if errors_Is err ErrCredentialUnavailable
     then writeOCIError h 503 ''UNAVAILABLE'' ''the selected registry credential is unavailable''
     else if errors_Is err ErrAuthentication
     then writeOCIError h 401 ''UNAUTHORIZED'' ''the selected registry rejected the credential''
     else if errors_Is err ErrAuthorization
     then writeOCIError h 403 ''DENIED'' ''the selected registry denied the requested operation''
     else if errors_Is err ErrPushDenied \<or> errors_Is err ErrUnauthorized
     then writeOCIError h 403 ''DENIED'' (err_text err)
     else if errors_Is err ErrStagedBlobMissing then writeOCIError h 400 ''BLOB_UNKNOWN'' (err_text err)
     else if errors_Is err ErrManifestDigestMismatch then writeOCIError h 400 ''MANIFEST_INVALID'' (err_text err)
     else if errors_Is err ErrSourceUnavailable then writeOCIError h 502 ''UNAVAILABLE'' (err_text err)
     else writeOCIError h 500 ''UNKNOWN'' (err_text err))"

text \<open>The size of a body is a length, never negative.\<close>

definition uploadRange :: "nat \<Rightarrow> string" where
  "uploadRange n = (if n = 0 then ''0-0'' else ''0-'' @ FormatInt (int n - 1))"

definition writeManifest :: "headers \<Rightarrow> HRequest \<Rightarrow> Manifest \<Rightarrow> gateway_response" where
  "writeManifest h r m =
    (let mediaType = (if rd_MediaType m = [] then ''application/vnd.oci.image.manifest.v1+json'' else rd_MediaType m);
         h = set_header ''Content-Length'' (FormatInt (int (length (Content m))))
              (set_header ''Docker-Content-Digest'' (rd_Digest m) (set_header ''Content-Type'' mediaType h)) in
     respond h 200 (if hreq_Method r \<noteq> ''HEAD'' then GBytes (Content m) else GNone))"

section \<open>Paths and scopes\<close>

text \<open>The loop over the two markers: the first that occurs decides.\<close>

definition parseV2Path :: "string \<Rightarrow> (string \<times> string \<times> string) option" where
  "parseV2Path path =
    (if \<not> HasPrefix path ''/v2/'' then None
     else
       let trimmed = TrimPrefix path ''/v2/'';
           at = (\<lambda>marker index.
             let repo = take index trimmed; action = Trim marker ''/''; rest = drop (index + length marker) trimmed in
             if repo \<noteq> [] \<and> rest \<noteq> [] then Some (repo, action, rest) else None) in
       case Index trimmed ''/manifests/'' of Some index \<Rightarrow> at ''/manifests/'' index
       | None \<Rightarrow> (case Index trimmed ''/blobs/'' of Some index \<Rightarrow> at ''/blobs/'' index | None \<Rightarrow> None))"

definition requestScope :: "HRequest \<Rightarrow> string \<times> string list" where
  "requestScope r =
    (if hreq_Path r = ''/v2/'' then ([], [])
     else case parseV2Path (hreq_Path r) of None \<Rightarrow> ([], [])
       | Some (repo, _, _) \<Rightarrow>
         if hreq_Method r = ''GET'' \<or> hreq_Method r = ''HEAD'' then (repo, [''pull'']) else (repo, [''push'']))"

definition parseTokenScope :: "string \<Rightarrow> (string \<times> string list) option" where
  "parseTokenScope scope =
    (if scope = [] then Some ([], [])
     else case Split CHR '':'' scope of
         [kind, repo, actions] \<Rightarrow>
           if kind \<noteq> ''repository'' \<or> repo = [] then None
           else if list_ex (\<lambda>a. a \<noteq> ''pull'' \<and> a \<noteq> ''push'') (Split CHR '','' actions) then None
           else Some (repo, Split CHR '','' actions)
       | _ \<Rightarrow> None)"

definition gatewayAuthenticationRateKeys :: "unicode \<Rightarrow> string \<Rightarrow> string \<Rightarrow> string list" where
  "gatewayAuthenticationRateKeys U remoteAddress username =
    (let host = (case SplitHostPort remoteAddress of Inl _ \<Rightarrow> remoteAddress | Inr (host, _) \<Rightarrow> host) in
     [''docker:address:'' @ host, ''docker:account:'' @ ToLower U (TrimSpace username)])"

definition challenge_text :: "string \<Rightarrow> string \<Rightarrow> string \<Rightarrow> string list \<Rightarrow> string" where
  "challenge_text scheme host repo actions =
    ''Bearer realm='' @ [CHR 0x22] @ scheme @ ''://'' @ host @ ''/auth/token'' @ [CHR 0x22]
      @ '',service='' @ [CHR 0x22] @ ''regstair'' @ [CHR 0x22]
    @ (if repo \<noteq> [] \<and> actions \<noteq> []
       then '',scope='' @ [CHR 0x22] @ ''repository:'' @ repo @ '':'' @ Join '','' actions @ [CHR 0x22] else [])"

definition writeAuthChallenge :: "'w Gateway \<Rightarrow> headers \<Rightarrow> HRequest \<Rightarrow> string \<Rightarrow> string list \<Rightarrow> gateway_response" where
  "writeAuthChallenge g h r repo actions =
    (let scheme = (if hreq_TLS r \<or> gw_EqualFold g (header r ''X-Forwarded-Proto'') ''https'' then ''https'' else ''http'') in
     writeOCIError (set_header ''WWW-Authenticate'' (challenge_text scheme (hreq_Host r) repo actions) h)
       401 ''UNAUTHORIZED'' ''authentication required'')"

definition too_many_requests :: "headers \<Rightarrow> duration \<Rightarrow> gateway_response" where
  "too_many_requests h retry =
    writeOCIError (set_header ''Retry-After'' (FormatInt (max (quo (Round retry second) second) 1)) h)
      429 ''TOOMANYREQUESTS'' ''authentication temporarily unavailable''"

section \<open>Authentication\<close>

text \<open>Inl is the response of a refused request, Inr the principal of the context, if one was set.\<close>

definition gateway_authenticate ::
  "'w Gateway \<Rightarrow> headers \<Rightarrow> HRequest \<Rightarrow> 'w GatewayState \<Rightarrow> (gateway_response + Principal option) \<times> 'w GatewayState" where
  "gateway_authenticate g h r s =
    (case gw_authenticator g of None \<Rightarrow> (Inr None, s)
     | Some a \<Rightarrow>
       (case requestScope r of (repo, actions) \<Rightarrow>
        let action = (if length actions > 0 then hd actions else []);
            authorization = header r ''Authorization'' in
        if \<not> HasPrefix authorization ''Bearer '' then (Inl (writeAuthChallenge g h r repo actions), s)
        else
        (case in_world (ga_Authenticate a (TrimSpace (TrimPrefix authorization ''Bearer '')) repo action) s of (res, s) \<Rightarrow>
         case res of
           Inr client \<Rightarrow>
             if pr_Kind client = KindAnonymous then (Inr (Some client), s)
             else
             let keys = gatewayAuthenticationRateKeys (gw_unicode g) (hreq_RemoteAddr r) (pr_Username client) in
             (case limiter_Allow g keys s of ((allowed, retry), s) \<Rightarrow>
              if \<not> allowed then (Inl (too_many_requests h retry), s)
              else (Inr (Some client), limiter_Success keys s))
         | Inl _ \<Rightarrow>
             let keys = gatewayAuthenticationRateKeys (gw_unicode g) (hreq_RemoteAddr r) [] in
             (case limiter_Allow g keys s of ((allowed, retry), s) \<Rightarrow>
              if \<not> allowed then (Inl (too_many_requests h retry), s)
              else (Inl (writeAuthChallenge g h r repo actions), limiter_Failure g keys s)))))"

definition requestPrincipal :: "Principal option \<Rightarrow> Principal" where
  "requestPrincipal ctx = (case ctx of None \<Rightarrow> Anonymous | Some p \<Rightarrow> p)"

text \<open>
  The token endpoint. None is the nil dereference of a server without an authenticator; seconds
  of a duration are counted in whole ones.
\<close>

definition token_headers :: headers where
  "token_headers = [(''Cache-Control'', ''no-store''), (''Pragma'', ''no-cache'')]"

definition ServeTokenHTTP ::
  "'w Gateway \<Rightarrow> HRequest \<Rightarrow> 'w GatewayState \<Rightarrow> gateway_response option \<times> 'w GatewayState" where
  "ServeTokenHTTP g r s =
    (let h = token_headers in
     if hreq_Method r \<noteq> ''GET'' then (Some (writeOCIError h 405 ''UNSUPPORTED'' ''method not allowed''), s)
     else if query_value r ''service'' \<noteq> [] \<and> query_value r ''service'' \<noteq> ''regstair''
     then (Some (writeOCIError h 400 ''DENIED'' ''invalid token service''), s)
     else
     (case parseTokenScope (query_value r ''scope'') of
        None \<Rightarrow> (Some (writeOCIError h 400 ''DENIED'' ''invalid repository scope''), s)
      | Some (repo, actions) \<Rightarrow>
        (case (case hreq_BasicAuth r of None \<Rightarrow> ([], []) | Some up \<Rightarrow> up) of (username, secret) \<Rightarrow>
         let keys = gatewayAuthenticationRateKeys (gw_unicode g) (hreq_RemoteAddr r) username in
         (case (if username \<noteq> [] then limiter_Allow g keys s else ((True, 0), s)) of ((allowed, retry), s) \<Rightarrow>
          if \<not> allowed then (Some (too_many_requests h retry), s)
          else
          (case gw_authenticator g of None \<Rightarrow> (None, s)
           | Some a \<Rightarrow>
             (case in_world (ga_Issue a username secret repo actions) s of
                (Inl _, s) \<Rightarrow>
                  (Some (writeAuthChallenge g h r repo actions),
                   if username \<noteq> [] then limiter_Failure g keys s else s)
              | (Inr (token, expiresAt), s) \<Rightarrow>
                  let s = (if username \<noteq> [] then limiter_Success keys s else s) in
                  (case now_of g s of (until, s) \<Rightarrow> case now_of g s of (issued, s) \<Rightarrow>
                   (Some (respond (set_header ''Content-Type'' ''application/json'' h) 200
                      (GToken token (max (quo (time_Sub expiresAt until) second) 1) issued)), s)))))))) "

section \<open>Manifests and blobs\<close>

definition handleManifest ::
  "'w Gateway \<Rightarrow> headers \<Rightarrow> HRequest \<Rightarrow> Principal option \<Rightarrow> string \<Rightarrow> string \<Rightarrow> 'w GatewayState
     \<Rightarrow> gateway_response \<times> 'w GatewayState" where
  "handleManifest g h r ctx repo reference s =
    (if reference = [] then (writeOCIError h 404 ''MANIFEST_UNKNOWN'' ''manifest reference is required'', s)
     else if hreq_Method r = ''GET'' \<or> hreq_Method r = ''HEAD'' then
       (case gw_puller g of
          None \<Rightarrow> (writeOCIError h 503 ''UNAVAILABLE'' ''pull resolver is not configured'', s)
        | Some pull \<Rightarrow>
          (case in_world (pull \<lparr>rq_Repository = repo, rq_Reference = reference, rq_Principal = requestPrincipal ctx\<rparr>) s of
             (Inl err, s) \<Rightarrow> (writePullError h err, s)
           | (Inr res, s) \<Rightarrow> (writeManifest h r (pres_Manifest res), s)))
     else if hreq_Method r = ''PUT'' then
       (case gw_pusher g of
          None \<Rightarrow> (writeOCIError h 503 ''UNAVAILABLE'' ''push resolver is not configured'', s)
        | Some push \<Rightarrow>
          (case ReadAll (hreq_Body r) of
             Inl _ \<Rightarrow> (writeOCIError h 400 ''MANIFEST_INVALID'' ''could not read manifest'', s)
           | Inr body \<Rightarrow>
             (case ParseManifest (gw_hash g) (gw_unmarshal g) body of
                Inl err \<Rightarrow> (writeOCIError h 400 ''MANIFEST_INVALID'' (err_text err), s)
              | Inr manifest \<Rightarrow>
                (case in_world (push \<lparr>pq_Repository = repo, pq_Reference = reference, pq_Manifest = manifest,
                     pq_Principal = requestPrincipal ctx\<rparr>) s of
                   (Inl err, s) \<Rightarrow> (writePushError h err, s)
                 | (Inr res, s) \<Rightarrow>
                   (respond (set_header ''Location'' (''/v2/'' @ repo @ ''/manifests/'' @ reference)
                      (set_header ''Docker-Content-Digest'' (psr_ManifestDigest res) h)) 201 GNone, s)))))
     else (writeOCIError h 405 ''UNSUPPORTED'' ''method not allowed'', s))"

definition handleBlob ::
  "'w Gateway \<Rightarrow> headers \<Rightarrow> HRequest \<Rightarrow> Principal option \<Rightarrow> string \<Rightarrow> string \<Rightarrow> 'w GatewayState
     \<Rightarrow> gateway_response \<times> 'w GatewayState" where
  "handleBlob g h r ctx repo digest s =
    (if digest = [] then (writeOCIError h 404 ''BLOB_UNKNOWN'' ''blob digest is required'', s)
     else if hreq_Method r \<noteq> ''GET'' \<and> hreq_Method r \<noteq> ''HEAD''
     then (writeOCIError h 405 ''UNSUPPORTED'' ''method not allowed'', s)
     else
     (case gw_blobPuller g of
        None \<Rightarrow> (writeOCIError h 503 ''UNAVAILABLE'' ''repository-aware blob resolver is not configured'', s)
      | Some openBlob \<Rightarrow>
        (case in_world (openBlob \<lparr>br_Repository = repo, br_Digest = digest, br_Principal = requestPrincipal ctx\<rparr>) s of
           (Inl err, s) \<Rightarrow>
             if errors_Is err ErrBlobNotFound then (writeOCIError h 404 ''BLOB_UNKNOWN'' ''blob not found'', s)
             else (writePullError h err, s)
         | (Inr res, s) \<Rightarrow>
             let h = set_header ''Content-Type'' ''application/octet-stream'' (set_header ''Docker-Content-Digest'' digest h);
                 h = (if bres_Size res > 0 then set_header ''Content-Length'' (FormatInt (bres_Size res)) h else h) in
             (respond h 200 (if hreq_Method r = ''HEAD'' then GNone else GStream (bres_Content res)), s))))"

section \<open>Uploads\<close>

definition handleStartUpload ::
  "headers \<Rightarrow> HRequest \<Rightarrow> string \<Rightarrow> 'w GatewayState \<Rightarrow> gateway_response \<times> 'w GatewayState" where
  "handleStartUpload h r repo s =
    (if hreq_Method r \<noteq> ''POST'' then (writeOCIError h 405 ''UNSUPPORTED'' ''method not allowed'', s)
     else
     let n = gs_nextID s + 1; i = FormatUint (unat n);
         s = s\<lparr>gs_nextID := n, gs_uploads := (gs_uploads s)(i \<mapsto> \<lparr>us_repository = repo, us_body = []\<rparr>)\<rparr> in
     (respond (set_header ''Docker-Upload-UUID'' i (set_header ''Range'' ''0-0''
        (set_header ''Location'' (''/v2/'' @ repo @ ''/blobs/uploads/'' @ i) h))) 202 GNone, s))"

text \<open>Appending the request body to the buffer of a session, kept even when reading fails.\<close>

definition append_body :: "string \<Rightarrow> uploadSession \<Rightarrow> HRequest \<Rightarrow> 'w GatewayState \<Rightarrow> goerr option \<times> string \<times> 'w GatewayState" where
  "append_body i session r s =
    (case Copy_to (hreq_Body r) of (c, err) \<Rightarrow>
      let body = us_body session @ c in
      (err, body, s\<lparr>gs_uploads := (gs_uploads s)(i \<mapsto> session\<lparr>us_body := body\<rparr>)\<rparr>))"

definition deleteUpload :: "string \<Rightarrow> 'w GatewayState \<Rightarrow> 'w GatewayState" where
  "deleteUpload i s = s\<lparr>gs_uploads := (gs_uploads s)(i := None)\<rparr>"

definition handleUpload ::
  "'w Gateway \<Rightarrow> headers \<Rightarrow> HRequest \<Rightarrow> string \<Rightarrow> string \<Rightarrow> 'w GatewayState \<Rightarrow> gateway_response \<times> 'w GatewayState" where
  "handleUpload g h r repo i s =
    (case gs_uploads s i of
       None \<Rightarrow> (writeOCIError h 404 ''BLOB_UPLOAD_UNKNOWN'' ''upload session not found'', s)
     | Some session \<Rightarrow>
       if us_repository session \<noteq> repo
       then (writeOCIError h 404 ''BLOB_UPLOAD_UNKNOWN'' ''upload session not found'', s)
       else if hreq_Method r = ''PATCH'' then
         (case append_body i session r s of
            (Some _, _, s) \<Rightarrow> (writeOCIError h 400 ''BLOB_UPLOAD_INVALID'' ''could not append upload content'', s)
          | (None, body, s) \<Rightarrow>
            (respond (set_header ''Docker-Upload-UUID'' i (set_header ''Range'' (uploadRange (length body))
               (set_header ''Location'' (hreq_Path r) h))) 202 GNone, s))
       else if hreq_Method r = ''PUT'' then
         (let digest = query_value r ''digest'' in
          if digest = [] then (writeOCIError h 400 ''DIGEST_INVALID'' ''digest query parameter is required'', s)
          else
          (case append_body i session r s of
             (Some _, _, s) \<Rightarrow> (writeOCIError h 400 ''BLOB_UPLOAD_INVALID'' ''could not complete upload'', s)
           | (None, body, s) \<Rightarrow>
             (case in_world (gw_store g digest (bytes_NewReader body)) s of
                (Inl err, s) \<Rightarrow> (writeOCIError h 400 ''DIGEST_INVALID'' (err_text err), s)
              | (Inr _, s) \<Rightarrow>
                (respond (set_header ''Location'' (''/v2/'' @ repo @ ''/blobs/'' @ digest)
                      (set_header ''Docker-Content-Digest'' digest h)) 201 GNone, deleteUpload i s))))
       else (writeOCIError h 405 ''UNSUPPORTED'' ''method not allowed'', s))"

section \<open>Dispatch\<close>

definition api_headers :: headers where
  "api_headers = [(''Docker-Distribution-API-Version'', ''registry/2.0'')]"

definition dispatch ::
  "'w Gateway \<Rightarrow> headers \<Rightarrow> HRequest \<Rightarrow> Principal option \<Rightarrow> 'w GatewayState \<Rightarrow> gateway_response \<times> 'w GatewayState" where
  "dispatch g h r ctx s =
    (if hreq_Path r = ''/v2/'' then
       (if hreq_Method r \<noteq> ''GET'' \<and> hreq_Method r \<noteq> ''HEAD''
        then (writeOCIError h 405 ''UNSUPPORTED'' ''method not allowed'', s)
        else (respond h 200 GNone, s))
     else
     (case parseV2Path (hreq_Path r) of
        None \<Rightarrow> (writeOCIError h 404 ''NAME_UNKNOWN'' ''unsupported registry route'', s)
      | Some (repo, action, rest) \<Rightarrow>
        if action = ''manifests'' then handleManifest g h r ctx repo rest s
        else if action = ''blobs'' then
          (if rest = ''uploads/'' then handleStartUpload h r repo s
           else if HasPrefix rest ''uploads/'' then handleUpload g h r repo (TrimPrefix rest ''uploads/'') s
           else handleBlob g h r ctx repo rest s)
        else (writeOCIError h 404 ''NAME_UNKNOWN'' ''unsupported registry route'', s)))"

definition Gateway_ServeHTTP ::
  "'w Gateway \<Rightarrow> HRequest \<Rightarrow> 'w GatewayState \<Rightarrow> gateway_response \<times> 'w GatewayState" where
  "Gateway_ServeHTTP g r s =
    (case gateway_authenticate g api_headers r s of
       (Inl response, s) \<Rightarrow> (response, s)
     | (Inr ctx, s) \<Rightarrow> dispatch g api_headers r ctx s)"

end
