(* ===== verification/Gateway_Properties.thy ===== *)
theory Gateway_Properties
  imports Gateway HTTP_Connector_Properties Rate_Limit_Properties
begin

text \<open>
  Properties of the registry API: the form of every response, the challenge that names the scope
  of a request, the token a request acts for, the content of upload sessions, and the failure
  counters of rejected tokens.
\<close>

section \<open>Paths\<close>

lemma Trim_markers [simp]: "Trim ''/manifests/'' ''/'' = ''manifests''" "Trim ''/blobs/'' ''/'' = ''blobs''"
  by (simp_all add: Trim_def)

lemma v2_prefix [simp]:
  "TrimPrefix (''/v2/'' @ t) ''/v2/'' = t" "HasPrefix (''/v2/'' @ t) ''/v2/''"
  "TrimPrefix (CHR ''/'' # CHR ''v'' # CHR ''2'' # CHR ''/'' # t) ''/v2/'' = t"
  by (simp_all add: TrimPrefix_def)

lemma parseV2Path_Some:
  assumes "parseV2Path path = Some (repo, action, rest)"
  shows "path = ''/v2/'' @ repo @ ''/'' @ action @ ''/'' @ rest" "repo \<noteq> []" "rest \<noteq> []"
    "action = ''manifests'' \<or> action = ''blobs''"
proof -
  let ?t = "TrimPrefix path ''/v2/''"
  have p: "path = ''/v2/'' @ ?t" using assms by (auto simp: parseV2Path_def TrimPrefix_def prefix_def split: if_splits)
  consider (m) n where "Index ?t ''/manifests/'' = Some n" "repo = take n ?t" "action = ''manifests''" "rest = drop (n + 11) ?t" "repo \<noteq> []" "rest \<noteq> []"
    | (b) n where "Index ?t ''/blobs/'' = Some n" "repo = take n ?t" "action = ''blobs''" "rest = drop (n + 7) ?t" "repo \<noteq> []" "rest \<noteq> []"
    using assms by (auto simp: parseV2Path_def Let_def numeral_eq_Suc split: if_splits option.splits)
  then have "?t = repo @ ''/'' @ action @ ''/'' @ rest \<and> repo \<noteq> [] \<and> rest \<noteq> [] \<and> (action = ''manifests'' \<or> action = ''blobs'')"
  proof cases
    case m
    with Index_append [OF m(1)] show ?thesis by (simp add: eval_nat_numeral)
  next
    case b
    with Index_append [OF b(1)] show ?thesis by (simp add: eval_nat_numeral)
  qed
  with p show "path = ''/v2/'' @ repo @ ''/'' @ action @ ''/'' @ rest" "repo \<noteq> []" "rest \<noteq> []"
    "action = ''manifests'' \<or> action = ''blobs''" by (metis append.assoc)+
qed

lemma Index_append_tail:
  assumes "sub \<noteq> []" "last sub \<notin> set t"
  shows "Index (s @ t) sub = Index s sub"
proof (induction s)
  case Nil
  have "\<not> prefix sub (drop n t)" for n
  proof
    assume "prefix sub (drop n t)"
    then have "set sub \<subseteq> set t" by (meson set_drop_subset set_mono_prefix subset_trans)
    with assms show False using last_in_set by blast
  qed
  then have "Index (drop n t) sub = None" for n
  proof (induction "length t - n" arbitrary: n)
    case 0
    then show ?case using assms(1) by simp
  next
    case (Suc k)
    then have d: "drop n t = t ! n # drop (Suc n) t" by (simp add: Cons_nth_drop_Suc)
    have "Index (drop (Suc n) t) sub = None" using Suc by simp
    with Suc.prems [of n] show ?case by (simp add: d)
  qed
  from this [of 0] show ?case using assms(1) by simp
next
  case (Cons c s)
  have "prefix sub (c # s @ t) \<longleftrightarrow> prefix sub (c # s)"
  proof
    assume p: "prefix sub (c # s @ t)"
    show "prefix sub (c # s)"
    proof (rule ccontr)
      assume "\<not> prefix sub (c # s)"
      with p obtain u where "sub = c # s @ u" "prefix u t"
        by (metis append_Cons prefix_append prefix_order.refl)
      moreover with \<open>\<not> prefix sub (c # s)\<close> have "u \<noteq> []" by auto
      ultimately show False using assms(2) set_mono_prefix last_in_set by fastforce
    qed
  qed (metis append_Cons prefix_prefix)
  with Cons show ?case by simp
qed

lemma parse_upload_path:
  assumes "parseV2Path (''/v2/'' @ repo @ ''/blobs/uploads/'') = Some (repo, ''blobs'', ''uploads/'')" "CHR ''/'' \<notin> set i"
  shows "parseV2Path (''/v2/'' @ repo @ ''/blobs/uploads/'' @ i) = Some (repo, ''blobs'', ''uploads/'' @ i)"
proof -
  let ?t = "repo @ ''/blobs/uploads/''"
  have m: "Index ?t ''/manifests/'' = None" using assms(1)
    by (auto simp: parseV2Path_def Let_def split: option.splits if_splits)
  then obtain n where b: "Index ?t ''/blobs/'' = Some n" "take n ?t = repo"
    using assms(1) by (auto simp: parseV2Path_def Let_def split: option.splits if_splits)
  have ne: "repo \<noteq> []" using parseV2Path_Some [OF assms(1)] by simp
  have "n \<le> length ?t" using Index_Some [OF b(1)] by simp
  then have n: "n = length repo" using b(2) by (metis length_take min.absorb2)
  have "Index (?t @ i) ''/manifests/'' = None" "Index (?t @ i) ''/blobs/'' = Some (length repo)"
    using Index_append_tail [of "''/manifests/''" i ?t] Index_append_tail [of "''/blobs/''" i ?t] assms(2) m b(1) n by simp_all
  with ne show ?thesis by (simp add: parseV2Path_def Let_def)
qed

section \<open>The form of a response\<close>

definition well_formed :: "gateway_response \<Rightarrow> bool" where
  "well_formed resp \<longleftrightarrow>
     hres_Status resp \<in> {200, 201, 202, 400, 401, 403, 404, 405, 429, 500, 502, 503}
     \<and> (hres_Status resp \<ge> 400 \<longleftrightarrow> (\<exists>code message. hres_Body resp = GError code message))
     \<and> (hres_Status resp \<ge> 400 \<longrightarrow> response_header resp ''Content-Type'' = Some ''application/json'')"

lemma writeOCIError_form [simp]:
  "hres_Status (writeOCIError h st code m) = st" "hres_Body (writeOCIError h st code m) = GError code m"
  "response_header (writeOCIError h st code m) k = (if k = ''Content-Type'' then Some ''application/json'' else map_of h k)"
  by (simp_all add: writeOCIError_def)

lemma well_formed_error: "well_formed (writeOCIError h st code m) \<longleftrightarrow> st \<in> {400, 401, 403, 404, 405, 429, 500, 502, 503}"
  by (auto simp: well_formed_def)

lemma well_formed_ok: "(\<And>c m. b \<noteq> GError c m) \<Longrightarrow> well_formed (respond h st b) \<longleftrightarrow> st \<in> {200, 201, 202}"
  by (auto simp: well_formed_def)

definition versioned :: "headers \<Rightarrow> bool" where
  "versioned h \<longleftrightarrow> map_of h ''Docker-Distribution-API-Version'' = Some ''registry/2.0''"

definition framed :: "gateway_response \<Rightarrow> bool" where
  "framed resp \<longleftrightarrow> well_formed resp \<and> versioned (hres_Header resp)"

lemma versioned_simps [simp]:
  "versioned api_headers" "k \<noteq> ''Docker-Distribution-API-Version'' \<Longrightarrow> versioned (set_header k v h) \<longleftrightarrow> versioned h"
  by (auto simp: versioned_def api_headers_def)

lemma framed_error: "versioned h \<Longrightarrow> framed (writeOCIError h st code m) \<longleftrightarrow> st \<in> {400, 401, 403, 404, 405, 429, 500, 502, 503}"
  by (simp add: framed_def well_formed_error) (simp add: writeOCIError_def)

lemma framed_ok: "(\<And>c m. b \<noteq> GError c m) \<Longrightarrow> versioned h \<Longrightarrow> framed (respond h st b) \<longleftrightarrow> st \<in> {200, 201, 202}"
  by (simp add: framed_def well_formed_ok)

lemma framed_helpers [simp]:
  assumes "versioned h"
  shows "framed (writePullError h e)" "framed (writePushError h e)" "framed (writeManifest h r m)"
    "framed (writeAuthChallenge g h r repo actions)" "framed (too_many_requests h retry)"
  using assms by (simp_all add: writePullError_def writePushError_def writeManifest_def writeAuthChallenge_def
      too_many_requests_def Let_def framed_error framed_ok)

lemma framed_handleManifest [simp]: "framed (fst (handleManifest g api_headers r ctx repo ref s))"
  by (simp add: handleManifest_def framed_error framed_ok split: option.split prod.split sum.split)

lemma framed_handleBlob [simp]: "framed (fst (handleBlob g api_headers r ctx repo ref s))"
  by (simp add: handleBlob_def framed_error framed_ok Let_def split: option.split prod.split sum.split)

lemma framed_handleStartUpload [simp]: "framed (fst (handleStartUpload api_headers r repo s))"
  by (simp add: handleStartUpload_def framed_error framed_ok Let_def)

lemma framed_handleUpload [simp]: "framed (fst (handleUpload g api_headers r repo i s))"
  by (simp add: handleUpload_def framed_error framed_ok Let_def split: option.split prod.split sum.split)

lemma framed_authenticate: "gateway_authenticate g api_headers r s = (Inl resp, s') \<Longrightarrow> framed resp"
  by (auto simp: gateway_authenticate_def Let_def split: option.splits prod.splits sum.splits if_splits)

text \<open>
  Every request gets a response with one of twelve status codes and the
  version header of the registry API; the status is an error exactly when the body is an OCI
  error document, which is announced as JSON.
\<close>

theorem responses_have_form: "framed (fst (Gateway_ServeHTTP g r s))"
  by (auto simp: Gateway_ServeHTTP_def dispatch_def framed_error framed_ok dest: framed_authenticate
      split: prod.split sum.split option.split)

section \<open>The token a request acts for\<close>

lemma in_world_eq: "in_world f s = (x, s') \<longleftrightarrow> (\<exists>w. f (gs_world s) = (x, w) \<and> s' = s\<lparr>gs_world := w\<rparr>)"
  by (auto simp: in_world_def split: prod.splits)

definition same_server :: "'w GatewayState \<Rightarrow> 'w GatewayState \<Rightarrow> bool" where
  "same_server s s' \<longleftrightarrow> gs_world s' = gs_world s \<and> gs_uploads s' = gs_uploads s \<and> gs_nextID s' = gs_nextID s"

lemma limiter_keeps [simp]:
  "same_server s (limiter_Failure g keys s)" "same_server s (limiter_Success keys s)"
  "same_server s (snd (limiter_Allow g keys s))" "same_server s (snd (now_of g s))"
  by (auto simp: same_server_def limiter_Allow_def limiter_Failure_def limiter_Success_def now_of_def split: prod.splits)

lemma limiter_fields [simp]:
  "gs_world (limiter_Failure g keys s) = gs_world s" "gs_uploads (limiter_Failure g keys s) = gs_uploads s"
  "gs_nextID (limiter_Failure g keys s) = gs_nextID s"
  "gs_world (limiter_Success keys s) = gs_world s" "gs_uploads (limiter_Success keys s) = gs_uploads s"
  "gs_nextID (limiter_Success keys s) = gs_nextID s"
  using limiter_keeps(1) [of s g keys] limiter_keeps(2) [of s keys] by (auto simp: same_server_def)

lemma limiter_Allow_keeps: "limiter_Allow g keys s = (x, s') \<Longrightarrow> same_server s s'"
  using limiter_keeps(3) [of s g keys] by simp

text \<open>The token of a request, and the action it has to be made for.\<close>

definition bearer_token :: "HRequest \<Rightarrow> string" where
  "bearer_token r = TrimSpace (TrimPrefix (header r ''Authorization'') ''Bearer '')"

definition scope_action :: "HRequest \<Rightarrow> string" where
  "scope_action r = (case snd (requestScope r) of [] \<Rightarrow> [] | a # _ \<Rightarrow> a)"

definition token_check :: "'w Authenticator \<Rightarrow> HRequest \<Rightarrow> 'w \<Rightarrow> Principal result \<times> 'w" where
  "token_check a r w = ga_Authenticate a (bearer_token r) (fst (requestScope r)) (scope_action r) w"

lemma authenticate_cases:
  assumes "gw_authenticator g = Some a" "gateway_authenticate g h r s = (res, s')"
  shows "gs_uploads s' = gs_uploads s \<and> gs_nextID s' = gs_nextID s \<and>
    (case res of Inl resp \<Rightarrow> gs_world s' = gs_world s \<or> gs_world s' = snd (token_check a r (gs_world s))
     | Inr ctx \<Rightarrow> HasPrefix (header r ''Authorization'') ''Bearer ''
         \<and> (\<exists>p. ctx = Some p \<and> token_check a r (gs_world s) = (Inr p, gs_world s')))"
proof (cases "HasPrefix (header r ''Authorization'') ''Bearer ''")
  case False
  with assms show ?thesis by (auto simp: gateway_authenticate_def Let_def split: prod.splits)
next
  case True
  have action: "(if length (snd (requestScope r)) > 0 then hd (snd (requestScope r)) else []) = scope_action r"
    by (simp add: scope_action_def split: list.split)
  obtain x w where c: "token_check a r (gs_world s) = (x, w)" by (cases "token_check a r (gs_world s)")
  then have i: "in_world (ga_Authenticate a (bearer_token r) (fst (requestScope r)) (scope_action r)) s = (x, s\<lparr>gs_world := w\<rparr>)"
    by (simp add: in_world_eq token_check_def)
  show ?thesis
    using assms True i c action
    by (cases x) (auto simp: gateway_authenticate_def Let_def bearer_token_def same_server_def
          split: prod.splits if_splits dest!: limiter_Allow_keeps)
qed

text \<open>What a handler may do to the world for a repository and a principal, and to the uploads.\<close>

definition pulled :: "'w Gateway \<Rightarrow> Principal \<Rightarrow> string \<Rightarrow> 'w \<Rightarrow> 'w \<Rightarrow> bool" where
  "pulled g p repo w w' \<longleftrightarrow>
     (\<exists>pull ref. gw_puller g = Some pull \<and> w' = snd (pull \<lparr>rq_Repository = repo, rq_Reference = ref, rq_Principal = p\<rparr> w))
     \<or> (\<exists>openBlob d. gw_blobPuller g = Some openBlob \<and> w' = snd (openBlob \<lparr>br_Repository = repo, br_Digest = d, br_Principal = p\<rparr> w))"

definition pushed :: "'w Gateway \<Rightarrow> Principal \<Rightarrow> string \<Rightarrow> 'w \<Rightarrow> 'w \<Rightarrow> bool" where
  "pushed g p repo w w' \<longleftrightarrow>
     (\<exists>push ref m. gw_pusher g = Some push \<and>
        w' = snd (push \<lparr>pq_Repository = repo, pq_Reference = ref, pq_Manifest = m, pq_Principal = p\<rparr> w))"

definition stored_upload :: "'w Gateway \<Rightarrow> string \<Rightarrow> 'w GatewayState \<Rightarrow> 'w \<Rightarrow> bool" where
  "stored_upload g repo s w' \<longleftrightarrow>
     (\<exists>i session d c. gs_uploads s i = Some session \<and> us_repository session = repo
        \<and> w' = snd (gw_store g d (bytes_NewReader (us_body session @ c)) (gs_world s)))"

definition uploads_of :: "string \<Rightarrow> 'w GatewayState \<Rightarrow> 'w GatewayState \<Rightarrow> bool" where
  "uploads_of repo s s' \<longleftrightarrow> (\<forall>i. gs_uploads s' i \<noteq> gs_uploads s i \<longrightarrow>
     (case gs_uploads s' i of None \<Rightarrow> True | Some u \<Rightarrow> us_repository u = repo)
     \<and> (case gs_uploads s i of None \<Rightarrow> True | Some u \<Rightarrow> us_repository u = repo) \<or> i = FormatUint (unat (gs_nextID s + 1)))"

lemma handleManifest_effect:
  assumes "handleManifest g h r ctx repo ref s = (resp, s')"
  shows "gs_uploads s' = gs_uploads s \<and> gs_nextID s' = gs_nextID s \<and>
    (gs_world s' = gs_world s
     \<or> hreq_Method r \<in> {''GET'', ''HEAD''} \<and> pulled g (requestPrincipal ctx) repo (gs_world s) (gs_world s')
     \<or> hreq_Method r = ''PUT'' \<and> pushed g (requestPrincipal ctx) repo (gs_world s) (gs_world s'))"
proof (cases "hreq_Method r = ''GET'' \<or> hreq_Method r = ''HEAD''")
  case True
  with assms show ?thesis
    by (auto simp: handleManifest_def in_world_eq pulled_def split: if_splits option.splits prod.splits sum.splits)
      (metis snd_conv)+
next
  case False
  with assms show ?thesis
    by (auto simp: handleManifest_def in_world_eq pushed_def split: if_splits option.splits prod.splits sum.splits)
      (metis snd_conv)+
qed

lemma handleBlob_effect:
  assumes "handleBlob g h r ctx repo d s = (resp, s')"
  shows "gs_uploads s' = gs_uploads s \<and> gs_nextID s' = gs_nextID s \<and>
    (gs_world s' = gs_world s
     \<or> hreq_Method r \<in> {''GET'', ''HEAD''} \<and> pulled g (requestPrincipal ctx) repo (gs_world s) (gs_world s'))"
  using assms
  by (auto simp: handleBlob_def in_world_eq pulled_def Let_def split: if_splits option.splits prod.splits sum.splits)
    (metis snd_conv)+

lemma append_body_eq:
  "append_body i session r s = (err, body, s') \<longleftrightarrow> err = snd (Copy_to (hreq_Body r)) \<and> body = us_body session @ fst (Copy_to (hreq_Body r))
     \<and> s' = s\<lparr>gs_uploads := (gs_uploads s)(i \<mapsto> session\<lparr>us_body := body\<rparr>)\<rparr>"
  by (auto simp: append_body_def Let_def split: prod.splits)

text \<open>The branches of handleUpload.\<close>

abbreviation with_body :: "string \<Rightarrow> uploadSession \<Rightarrow> string \<Rightarrow> 'w GatewayState \<Rightarrow> 'w GatewayState" where
  "with_body i u c s \<equiv> s\<lparr>gs_uploads := (gs_uploads s)(i \<mapsto> u\<lparr>us_body := us_body u @ c\<rparr>)\<rparr>"

lemma handleUpload_unknown:
  "gs_uploads s i = None \<or> us_repository (the (gs_uploads s i)) \<noteq> repo \<Longrightarrow>
     handleUpload g h r repo i s = (writeOCIError h 404 ''BLOB_UPLOAD_UNKNOWN'' ''upload session not found'', s)"
  by (auto simp: handleUpload_def split: option.split)

lemma handleUpload_PATCH:
  assumes "gs_uploads s i = Some u" "us_repository u = repo" "hreq_Method r = ''PATCH''" "Copy_to (hreq_Body r) = (c, e)"
  shows "snd (handleUpload g h r repo i s) = with_body i u c s"
    and "hres_Status (fst (handleUpload g h r repo i s)) = (if e = None then 202 else 400)"
  using assms by (cases e; simp add: handleUpload_def append_body_def Let_def)+

lemma handleUpload_PUT_refused:
  assumes "gs_uploads s i = Some u" "us_repository u = repo" "hreq_Method r = ''PUT''" "query_value r ''digest'' = []"
  shows "handleUpload g h r repo i s = (writeOCIError h 400 ''DIGEST_INVALID'' ''digest query parameter is required'', s)"
  using assms by (simp add: handleUpload_def Let_def)

lemma handleUpload_PUT_broken:
  assumes "gs_uploads s i = Some u" "us_repository u = repo" "hreq_Method r = ''PUT''" "query_value r ''digest'' \<noteq> []"
    "Copy_to (hreq_Body r) = (c, Some e)"
  shows "snd (handleUpload g h r repo i s) = with_body i u c s"
  using assms by (simp add: handleUpload_def append_body_def Let_def)

lemma handleUpload_PUT:
  assumes "gs_uploads s i = Some u" "us_repository u = repo" "hreq_Method r = ''PUT''" "query_value r ''digest'' \<noteq> []"
    "Copy_to (hreq_Body r) = (c, None)"
    "gw_store g (query_value r ''digest'') (bytes_NewReader (us_body u @ c)) (gs_world s) = (x, w)"
  shows "snd (handleUpload g h r repo i s) =
      (case x of Inl _ \<Rightarrow> (with_body i u c s)\<lparr>gs_world := w\<rparr>
       | Inr _ \<Rightarrow> s\<lparr>gs_world := w, gs_uploads := (gs_uploads s)(i := None)\<rparr>)"
    and "hres_Status (fst (handleUpload g h r repo i s)) = (case x of Inl _ \<Rightarrow> 400 | Inr _ \<Rightarrow> 201)"
  using assms by (cases x; simp add: handleUpload_def append_body_def Let_def in_world_def deleteUpload_def)+

lemma handleUpload_other:
  assumes "hreq_Method r \<noteq> ''PATCH''" "hreq_Method r \<noteq> ''PUT''" shows "snd (handleUpload g h r repo i s) = s"
  using assms by (simp add: handleUpload_def split: option.split)

lemma handleUpload_effect:
  assumes "handleUpload g h r repo i s = (resp, s')"
  shows "gs_nextID s' = gs_nextID s \<and> (gs_uploads s' = gs_uploads s \<or> hreq_Method r \<in> {''PATCH'', ''PUT''})
    \<and> (\<forall>j. j \<noteq> i \<longrightarrow> gs_uploads s' j = gs_uploads s j)
    \<and> (gs_uploads s' i \<noteq> gs_uploads s i \<longrightarrow> (\<exists>u. gs_uploads s i = Some u \<and> us_repository u = repo)
        \<and> (\<forall>u. gs_uploads s' i = Some u \<longrightarrow> us_repository u = repo))
    \<and> (gs_world s' = gs_world s \<or> hreq_Method r = ''PUT'' \<and> stored_upload g repo s (gs_world s'))"
    (is "?P s'")
proof -
  have s': "s' = snd (handleUpload g h r repo i s)" using assms by simp
  obtain c e where c: "Copy_to (hreq_Body r) = (c, e)" by fastforce
  have same: "?P s" by simp
  have body: "?P (with_body i u c s)" if "gs_uploads s i = Some u" "us_repository u = repo" "hreq_Method r \<in> {''PATCH'', ''PUT''}" for u
    using that by auto
  show ?thesis
  proof (cases "gs_uploads s i = None \<or> us_repository (the (gs_uploads s i)) \<noteq> repo")
    case True
    then have "s' = s" by (simp add: s' handleUpload_unknown)
    with same show ?thesis by simp
  next
    case False
    then obtain u where u: "gs_uploads s i = Some u" "us_repository u = repo" by auto
    consider (patch) "hreq_Method r = ''PATCH''" | (put) "hreq_Method r = ''PUT''"
      | (other) "hreq_Method r \<noteq> ''PATCH''" "hreq_Method r \<noteq> ''PUT''" by blast
    then show ?thesis
    proof cases
      case patch
      with body [OF u] show ?thesis by (simp only: s' handleUpload_PATCH(1) [OF u patch c]) simp
    next
      case put
      show ?thesis
      proof (cases "query_value r ''digest'' = []")
        case True
        then have "s' = s" by (simp add: s' handleUpload_PUT_refused [OF u put])
        with same show ?thesis by simp
      next
        case d: False
        show ?thesis
        proof (cases e)
          case None
          obtain x w where x: "gw_store g (query_value r ''digest'') (bytes_NewReader (us_body u @ c)) (gs_world s) = (x, w)" by fastforce
          then have "stored_upload g repo s w" unfolding stored_upload_def using u by (metis snd_conv)
          then show ?thesis using u put
            by (simp add: s' handleUpload_PUT(1) [OF u put d c [unfolded None] x] split: sum.split)
        next
          case (Some er)
          with body [OF u] put c show ?thesis by (simp only: s' handleUpload_PUT_broken [OF u put d]) simp
        qed
      qed
    next
      case other
      then have "s' = s" by (simp add: s' handleUpload_other)
      with same show ?thesis by simp
    qed
  qed
qed

lemma handleUpload_uploads:
  assumes "handleUpload g h r repo i s = (resp, s')"
  shows "uploads_of repo s s'"
proof -
  note e = handleUpload_effect [OF assms]
  have "(case gs_uploads s' j of None \<Rightarrow> True | Some u \<Rightarrow> us_repository u = repo)
      \<and> (case gs_uploads s j of None \<Rightarrow> True | Some u \<Rightarrow> us_repository u = repo)" if "gs_uploads s' j \<noteq> gs_uploads s j" for j
  proof -
    from e that have ji: "j = i" by blast
    from e that obtain u where u: "gs_uploads s j = Some u" "us_repository u = repo"
      and n: "\<And>u. gs_uploads s' j = Some u \<Longrightarrow> us_repository u = repo" unfolding ji by blast
    from n have "case gs_uploads s' j of None \<Rightarrow> True | Some u \<Rightarrow> us_repository u = repo" by (cases "gs_uploads s' j") simp_all
    with u show ?thesis by simp
  qed
  then show ?thesis by (simp add: uploads_of_def)
qed

text \<open>What a dispatched request did: nothing, or what its method is for.\<close>

definition read_only :: "HRequest \<Rightarrow> bool" where
  "read_only r \<longleftrightarrow> hreq_Method r \<in> {''GET'', ''HEAD''}"

definition effect_of :: "'w Gateway \<Rightarrow> HRequest \<Rightarrow> Principal \<Rightarrow> string \<Rightarrow> 'w GatewayState \<Rightarrow> 'w GatewayState \<Rightarrow> bool" where
  "effect_of g r p repo s s' \<longleftrightarrow>
    (if read_only r
     then gs_uploads s' = gs_uploads s \<and> gs_nextID s' = gs_nextID s \<and> pulled g p repo (gs_world s) (gs_world s')
     else uploads_of repo s s' \<and> (gs_world s' = gs_world s \<or> pushed g p repo (gs_world s) (gs_world s')
        \<or> stored_upload g repo s (gs_world s')))"

lemma dispatch_effect:
  assumes "dispatch g h r ctx s = (resp, s')"
  shows "same_server s s' \<or> (\<exists>repo action rest. hreq_Path r \<noteq> ''/v2/'' \<and> parseV2Path (hreq_Path r) = Some (repo, action, rest)
    \<and> effect_of g r (requestPrincipal ctx) repo s s')"
proof (cases "hreq_Path r = ''/v2/'' \<or> parseV2Path (hreq_Path r) = None")
  case True
  with assms show ?thesis by (auto simp: dispatch_def same_server_def split: if_splits)
next
  case False
  then obtain repo action rest where path: "parseV2Path (hreq_Path r) = Some (repo, action, rest)" by auto
  have "same_server s s' \<or> effect_of g r (requestPrincipal ctx) repo s s'"
  proof (cases "action = ''manifests''")
    case True
    with assms False path have "handleManifest g h r ctx repo rest s = (resp, s')" by (simp add: dispatch_def)
    from handleManifest_effect [OF this] show ?thesis
      by (auto simp: same_server_def effect_of_def uploads_of_def read_only_def)
  next
    case nm: False
    then have b: "action = ''blobs''" using parseV2Path_Some(4) [OF path] by blast
    consider (start) "handleStartUpload h r repo s = (resp, s')"
      | (upload) i where "handleUpload g h r repo i s = (resp, s')"
      | (blob) "handleBlob g h r ctx repo rest s = (resp, s')"
      using assms False path b by (auto simp: dispatch_def split: if_splits)
    then show ?thesis
    proof cases
      case start
      then have "s' = s \<or> \<not> read_only r \<and> gs_world s' = gs_world s
          \<and> (\<exists>u. gs_uploads s' = (gs_uploads s)(FormatUint (unat (gs_nextID s + 1)) \<mapsto> u))"
        by (auto simp: handleStartUpload_def Let_def read_only_def split: if_splits)
      then show ?thesis by (auto simp: same_server_def effect_of_def uploads_of_def)
    next
      case upload
      show ?thesis
      proof (cases "hreq_Method r \<in> {''PATCH'', ''PUT''}")
        case True
        then have "\<not> read_only r" by (auto simp: read_only_def)
        with handleUpload_effect [OF upload] handleUpload_uploads [OF upload] show ?thesis by (simp add: effect_of_def) blast
      next
        case False
        with handleUpload_effect [OF upload] show ?thesis unfolding same_server_def by blast
      qed
    next
      case blob
      from handleBlob_effect [OF this] show ?thesis by (auto simp: same_server_def effect_of_def read_only_def)
    qed
  qed
  with False path show ?thesis by blast
qed

text \<open>
  C5: with an authenticator, a request changes the world (beyond
  what checking its token does) or an upload session only when its bearer token was accepted for
  the repository of its own path. A GET or HEAD was accepted for pull, and only pulls or opens a
  blob in that repository for the principal of the token; any other request was accepted for
  push, and only pushes to that repository for that principal, stores an upload of that
  repository, or changes its upload sessions.
\<close>

theorem requests_act_for_their_token:
  assumes "gw_authenticator g = Some a" and "Gateway_ServeHTTP g r s = (resp, s')"
  shows "gs_uploads s' = gs_uploads s \<and> gs_nextID s' = gs_nextID s
      \<and> gs_world s' \<in> {gs_world s, snd (token_check a r (gs_world s))}
    \<or> (\<exists>p s1 repo action rest. HasPrefix (header r ''Authorization'') ''Bearer ''
        \<and> parseV2Path (hreq_Path r) = Some (repo, action, rest)
        \<and> ga_Authenticate a (bearer_token r) repo (if read_only r then ''pull'' else ''push'') (gs_world s) = (Inr p, gs_world s1)
        \<and> gs_uploads s1 = gs_uploads s \<and> gs_nextID s1 = gs_nextID s \<and> effect_of g r p repo s1 s')"
proof -
  obtain res s1 where auth: "gateway_authenticate g api_headers r s = (res, s1)" by fastforce
  note ac = authenticate_cases [OF assms(1) auth]
  show ?thesis
  proof (cases res)
    case (Inl refused)
    with ac assms(2) auth show ?thesis by (auto simp: Gateway_ServeHTTP_def)
  next
    case (Inr ctx)
    with ac obtain p where p: "ctx = Some p" "token_check a r (gs_world s) = (Inr p, gs_world s1)"
      and b: "HasPrefix (header r ''Authorization'') ''Bearer ''"
      and k: "gs_uploads s1 = gs_uploads s" "gs_nextID s1 = gs_nextID s" by auto
    have "dispatch g api_headers r ctx s1 = (resp, s')" using assms(2) auth Inr by (simp add: Gateway_ServeHTTP_def)
    from dispatch_effect [OF this] show ?thesis
    proof (elim disjE exE conjE)
      assume "same_server s1 s'"
      with p k show ?thesis by (simp add: same_server_def)
    next
      fix repo action rest
      assume path: "hreq_Path r \<noteq> ''/v2/''" "parseV2Path (hreq_Path r) = Some (repo, action, rest)"
        and e: "effect_of g r (requestPrincipal ctx) repo s1 s'"
      have "requestScope r = (repo, [if read_only r then ''pull'' else ''push''])"
        using path by (auto simp: requestScope_def read_only_def)
      with p(2) have t: "ga_Authenticate a (bearer_token r) repo (if read_only r then ''pull'' else ''push'') (gs_world s) = (Inr p, gs_world s1)"
        by (simp add: token_check_def scope_action_def)
      have "effect_of g r p repo s1 s'" using e p(1) by (simp add: requestPrincipal_def)
      with b path(2) t k show ?thesis by blast
    qed
  qed
qed

section \<open>Upload sessions\<close>

definition serve :: "'w Gateway \<Rightarrow> HRequest \<Rightarrow> 'w GatewayState \<Rightarrow> 'w GatewayState" where
  "serve g r s = snd (Gateway_ServeHTTP g r s)"

fun serve_all :: "'w Gateway \<Rightarrow> HRequest list \<Rightarrow> 'w GatewayState \<Rightarrow> 'w GatewayState" where
  "serve_all g [] s = s"
| "serve_all g (r # rs) s = serve_all g rs (serve g r s)"

definition accepted :: "'w Gateway \<Rightarrow> HRequest \<Rightarrow> 'w GatewayState \<Rightarrow> bool" where
  "accepted g r s \<longleftrightarrow> (case fst (gateway_authenticate g api_headers r s) of Inl _ \<Rightarrow> False | Inr _ \<Rightarrow> True)"

definition upload_path :: "string \<Rightarrow> string \<Rightarrow> string" where
  "upload_path repo i = ''/v2/'' @ repo @ ''/blobs/uploads/'' @ i"

text \<open>What a request appends to the session of a path, and a sequence of requests.\<close>

definition chunk :: "'w Gateway \<Rightarrow> string \<Rightarrow> HRequest \<Rightarrow> 'w GatewayState \<Rightarrow> string" where
  "chunk g path r s =
    (if hreq_Path r = path \<and> hreq_Method r = ''PATCH'' \<and> accepted g r s then fst (Copy_to (hreq_Body r)) else [])"

fun chunks :: "'w Gateway \<Rightarrow> string \<Rightarrow> HRequest list \<Rightarrow> 'w GatewayState \<Rightarrow> string" where
  "chunks g path [] s = []"
| "chunks g path (r # rs) s = chunk g path r s @ chunks g path rs (serve g r s)"

lemma authenticate_keeps:
  assumes "gateway_authenticate g h r s = (res, s')"
  shows "gs_uploads s' = gs_uploads s" "gs_nextID s' = gs_nextID s"
proof -
  have "gs_uploads s' = gs_uploads s \<and> gs_nextID s' = gs_nextID s"
  proof (cases "gw_authenticator g")
    case None
    with assms show ?thesis by (simp add: gateway_authenticate_def)
  next
    case (Some a)
    show ?thesis using authenticate_cases [OF Some assms] by blast
  qed
  then show "gs_uploads s' = gs_uploads s" "gs_nextID s' = gs_nextID s" by simp_all
qed

lemma serve_accepted:
  "accepted g r s \<Longrightarrow> \<exists>ctx s1. gateway_authenticate g api_headers r s = (Inr ctx, s1)
     \<and> Gateway_ServeHTTP g r s = dispatch g api_headers r ctx s1"
  "\<not> accepted g r s \<Longrightarrow> gs_uploads (serve g r s) = gs_uploads s \<and> gs_nextID (serve g r s) = gs_nextID s"
  by (auto simp: accepted_def serve_def Gateway_ServeHTTP_def dest: authenticate_keeps split: prod.splits sum.splits)

lemma digit_strings:
  "FormatUint n \<noteq> []" "CHR ''/'' \<notin> set (FormatUint n)"
  using FormatUint_digits [of n] by (auto simp: is_digit_def)

lemma dispatch_upload:
  assumes "parseV2Path (hreq_Path r) = Some (repo, ''blobs'', ''uploads/'' @ i)" "i \<noteq> []" "hreq_Path r \<noteq> ''/v2/''"
  shows "dispatch g h r ctx s = handleUpload g h r repo i s"
  using assms by (simp add: dispatch_def TrimPrefix_def)

lemma upload_path_unique:
  "parseV2Path path = Some (repo, ''blobs'', ''uploads/'' @ i) \<Longrightarrow> path = upload_path repo i"
  using parseV2Path_Some(1) [of path repo "''blobs''" "''uploads/'' @ i"] by (simp add: upload_path_def)

lemma upload_step:
  assumes u: "gs_uploads s (FormatUint k) = Some u" "us_repository u = repo" "k \<le> unat (gs_nextID s)"
    and n: "unat (gs_nextID s) + 1 < 2 ^ 64"
    and path: "parseV2Path (upload_path repo (FormatUint k)) = Some (repo, ''blobs'', ''uploads/'' @ FormatUint k)"
    and put: "\<not> (hreq_Path r = upload_path repo (FormatUint k) \<and> hreq_Method r = ''PUT'')"
  shows "gs_uploads (serve g r s) (FormatUint k) = Some (u\<lparr>us_body := us_body u @ chunk g (upload_path repo (FormatUint k)) r s\<rparr>)
    \<and> unat (gs_nextID s) \<le> unat (gs_nextID (serve g r s)) \<and> unat (gs_nextID (serve g r s)) \<le> unat (gs_nextID s) + 1"
proof (cases "accepted g r s")
  case False
  with serve_accepted(2) [OF False] u show ?thesis by (simp add: chunk_def)
next
  case True
  let ?i = "FormatUint k"
  have n1: "unat (gs_nextID s + 1) = unat (gs_nextID s) + 1"
    using n by (simp add: unat_plus_if' unsigned_1)
  from serve_accepted(1) [OF True] obtain ctx s1 where auth: "gateway_authenticate g api_headers r s = (Inr ctx, s1)"
    and sv: "Gateway_ServeHTTP g r s = dispatch g api_headers r ctx s1" by blast
  obtain resp s' where d: "dispatch g api_headers r ctx s1 = (resp, s')" by fastforce
  have s': "serve g r s = s'" by (simp add: serve_def sv d)
  note k = authenticate_keeps [OF auth]
  show ?thesis
  proof (cases "hreq_Path r = upload_path repo ?i")
    case same: True
    have "hreq_Path r \<noteq> ''/v2/''" unfolding same upload_path_def by simp
    with path same have "dispatch g api_headers r ctx s1 = handleUpload g api_headers r repo ?i s1"
      by (intro dispatch_upload) (simp_all only: digit_strings not_False_eq_True)
    with d have h: "s' = snd (handleUpload g api_headers r repo ?i s1)" by (metis snd_conv)
    have u1: "gs_uploads s1 ?i = Some u" using k u by simp
    obtain c e where c: "Copy_to (hreq_Body r) = (c, e)" by fastforce
    show ?thesis
    proof (cases "hreq_Method r = ''PATCH''")
      case patch: True
      have "s' = with_body ?i u c s1" unfolding h by (rule handleUpload_PATCH(1) [OF u1 u(2) patch c])
      moreover have "chunk g (upload_path repo ?i) r s = c" by (simp add: chunk_def same patch True c)
      ultimately show ?thesis using k by (simp add: s')
    next
      case False
      with put same have "s' = s1" unfolding h by (intro handleUpload_other) auto
      moreover have "chunk g (upload_path repo ?i) r s = []" by (simp add: chunk_def False)
      ultimately show ?thesis using u1 k by (simp add: s')
    qed
  next
    case other: False
    have c: "chunk g (upload_path repo ?i) r s = []" using other by (simp add: chunk_def)
    have goal: ?thesis if "gs_uploads s' ?i = gs_uploads s1 ?i" "gs_nextID s' = gs_nextID s1 \<or> gs_nextID s' = gs_nextID s1 + 1"
      using that u k n1 by (auto simp: s' c)
    from dispatch_effect [OF d] show ?thesis
    proof (elim disjE exE conjE)
      assume "same_server s1 s'"
      then show ?thesis by (intro goal) (simp_all add: same_server_def)
    next
      fix repo' action rest
      assume np: "hreq_Path r \<noteq> ''/v2/''" and p': "parseV2Path (hreq_Path r) = Some (repo', action, rest)"
        and e: "effect_of g r (requestPrincipal ctx) repo' s1 s'"
      show ?thesis
      proof (cases "action = ''blobs'' \<and> HasPrefix rest ''uploads/''")
        case False
        then have "handleManifest g api_headers r ctx repo' rest s1 = (resp, s') \<or> handleBlob g api_headers r ctx repo' rest s1 = (resp, s')"
          using d np p' parseV2Path_Some(4) [OF p'] by (auto simp: dispatch_def split: if_splits)
        then show ?thesis using handleManifest_effect [of g api_headers r ctx repo' rest s1 resp s']
            handleBlob_effect [of g api_headers r ctx repo' rest s1 resp s'] by (intro goal) auto
      next
        case True
        then obtain j where j: "rest = ''uploads/'' @ j" by (auto simp: prefix_def)
        show ?thesis
        proof (cases "j = []")
          case True
          then have "handleStartUpload api_headers r repo' s1 = (resp, s')" using d np p' j \<open>action = ''blobs'' \<and> _\<close> by (simp add: dispatch_def)
          moreover have "?i \<noteq> FormatUint (unat (gs_nextID s1 + 1))" using u(3) n1 k by (simp add: FormatUint_inj)
          ultimately show ?thesis by (intro goal) (auto simp: handleStartUpload_def Let_def split: if_splits)
        next
          case nj: False
          have ab: "action = ''blobs''" using True by simp
          have h: "handleUpload g api_headers r repo' j s1 = (resp, s')"
            using d by (simp only: dispatch_upload [OF p' [unfolded j ab] nj np])
          have "j \<noteq> ?i \<or> repo' \<noteq> repo" using upload_path_unique [OF p' [unfolded j ab]] other by blast
          then have "gs_uploads s' ?i = gs_uploads s1 ?i"
          proof
            assume "repo' \<noteq> repo"
            then show ?thesis using handleUpload_effect [OF h] handleUpload_unknown [of s1 j repo' g api_headers r] h u k
              by (cases "j = ?i") auto
          qed (use handleUpload_effect [OF h] in auto)
          then show ?thesis using handleUpload_effect [OF h] by (intro goal) auto
        qed
      qed
    qed
  qed
qed

lemma upload_steps:
  assumes "gs_uploads s (FormatUint k) = Some u" "us_repository u = repo" "k \<le> unat (gs_nextID s)"
    and "unat (gs_nextID s) + length rs < 2 ^ 64"
    and "parseV2Path (upload_path repo (FormatUint k)) = Some (repo, ''blobs'', ''uploads/'' @ FormatUint k)"
    and "\<forall>r \<in> set rs. \<not> (hreq_Path r = upload_path repo (FormatUint k) \<and> hreq_Method r = ''PUT'')"
  shows "gs_uploads (serve_all g rs s) (FormatUint k) = Some (u\<lparr>us_body := us_body u @ chunks g (upload_path repo (FormatUint k)) rs s\<rparr>)"
  using assms
proof (induction rs arbitrary: s u)
  case (Cons r rs)
  from Cons.prems upload_step [of s k u repo r g]
  have step: "gs_uploads (serve g r s) (FormatUint k) = Some (u\<lparr>us_body := us_body u @ chunk g (upload_path repo (FormatUint k)) r s\<rparr>)"
    "unat (gs_nextID s) \<le> unat (gs_nextID (serve g r s))" "unat (gs_nextID (serve g r s)) \<le> unat (gs_nextID s) + 1" by auto
  from Cons.IH [OF step(1)] step(2,3) Cons.prems show ?case by simp
qed simp

lemma refusal_status [simp]:
  "hres_Status (writeAuthChallenge g h r repo actions) = 401" "hres_Status (too_many_requests h retry) = 429"
  by (simp_all add: writeAuthChallenge_def too_many_requests_def Let_def)

lemma refused_status:
  "gateway_authenticate g h r s = (Inl resp, s') \<Longrightarrow> hres_Status resp \<in> {401, 429}"
  by (auto simp: gateway_authenticate_def Let_def split: option.splits prod.splits sum.splits if_splits)


section \<open>The challenge\<close>

lemma escaped_plain: "CHR 0x22 \<notin> set s \<Longrightarrow> CHR 0x5C \<notin> set s \<Longrightarrow> escaped s = s"
  by (induction s) auto

definition quotable :: "string \<Rightarrow> bool" where
  "quotable s \<longleftrightarrow> CHR 0x22 \<notin> set s \<and> CHR 0x5C \<notin> set s"

lemma challenge_is_rendered:
  assumes "quotable host" "quotable repo" "quotable scheme" "repo \<noteq> []" "a \<in> {''pull'', ''push''}"
  shows "challenge_text scheme host repo [a] = render_challenge (scheme @ ''://'' @ host @ ''/auth/token'') ''regstair'' (''repository:'' @ repo @ '':'' @ a)"
proof -
  have e: "escaped (xs @ ys) = escaped xs @ escaped ys" for xs ys by (induction xs) auto
  have "escaped a = a" using assms(5) by auto
  with assms show ?thesis
    by (simp add: challenge_text_def render_challenge_def render_param_def e escaped_plain quotable_def)
qed

lemma parse_rendered_scope:
  assumes "CHR '':'' \<notin> set repo" "repo \<noteq> []" "a \<in> {''pull'', ''push''}"
  shows "parseTokenScope (''repository:'' @ repo @ '':'' @ a) = Some (repo, [a])"
proof -
  have "Split CHR '':'' (''repository'' @ CHR '':'' # repo @ CHR '':'' # a) = [''repository'', repo, a]"
    using assms by (subst Split_append) (auto simp: Split_append Split_none)
  moreover have "Split CHR '','' a = [a]" using assms(3) by auto
  ultimately show ?thesis using assms by (simp add: parseTokenScope_def)
qed


section \<open>The failure counters of tokens\<close>

lemma limiter_Allow_refused:
  assumes "gs_limiter s = Some l" "0 < maxFailures l" "0 < gw_now g (gs_tick s)" "k \<in> set keys"
    "key_blocked l (gw_now g (gs_tick s)) k"
  shows "\<exists>retry s'. limiter_Allow g keys s = ((False, retry), s')"
proof -
  have "\<not> fst (fst (Allow (gw_now g (gs_tick s)) (Some l) keys))"
    using assms(2-5) by (subst Allow_iff) (auto simp: key_blocked_def)
  then show ?thesis using assms(1)
    by (auto simp: limiter_Allow_def now_of_def split: prod.split)
qed

text \<open>
  A rejected token is counted for the address and for the account of the empty name, which all
  rejected tokens share: while that account is blocked, a rejected token from any address is
  answered 429 instead of the challenge that would let its client log in again.
\<close>

lemma rejected_tokens_share_an_account:
  assumes "gw_authenticator g = Some a" "token_check a r (gs_world s) = (Inl e, w)"
    and "HasPrefix (header r ''Authorization'') ''Bearer ''"
    and "gs_limiter s = Some l" "0 < maxFailures l" "0 < gw_now g (gs_tick s)"
    and "key_blocked l (gw_now g (gs_tick s)) ''docker:account:''"
  shows "hres_Status (fst (Gateway_ServeHTTP g r s)) = 429"
proof -
  have action: "(if length (snd (requestScope r)) > 0 then hd (snd (requestScope r)) else []) = scope_action r"
    by (simp add: scope_action_def split: list.split)
  have i: "in_world (ga_Authenticate a (bearer_token r) (fst (requestScope r)) (scope_action r)) s = (Inl e, s\<lparr>gs_world := w\<rparr>)"
    using assms(2) by (simp add: in_world_eq token_check_def)
  let ?keys = "gatewayAuthenticationRateKeys (gw_unicode g) (hreq_RemoteAddr r) []"
  have "''docker:account:'' \<in> set ?keys"
    by (simp add: gatewayAuthenticationRateKeys_def TrimSpace_def trim_segs_def ToLower_def)
  with limiter_Allow_refused [of "s\<lparr>gs_world := w\<rparr>" l g "''docker:account:''" ?keys] assms(4-7)
  obtain retry s' where "limiter_Allow g ?keys (s\<lparr>gs_world := w\<rparr>) = ((False, retry), s')" by auto
  with i action assms(1,3) have "gateway_authenticate g api_headers r s = (Inl (too_many_requests api_headers retry), s')"
    by (auto simp: gateway_authenticate_def Let_def bearer_token_def split: prod.splits)
  then show ?thesis by (simp add: Gateway_ServeHTTP_def)
qed

section \<open>Instances\<close>

text \<open>A store that takes a blob under the digest that is its content, and two tokens.\<close>

definition gx_user :: Principal where
  "gx_user = \<lparr>pr_Kind = KindLocalUser, pr_ID = ''1'', pr_Username = ''ann''\<rparr>"

definition gx :: "(string \<times> string) list Gateway" where
  "gx = \<lparr>gw_puller = None, gw_blobPuller = None, gw_pusher = None,
     gw_store = (\<lambda>d rd w. case ReadAll rd of Inl e \<Rightarrow> (Inl e, w)
        | Inr c \<Rightarrow> if d = c then (Inr \<lparr>d_Digest = d, d_Size = int (length c)\<rparr>, (d, c) # w) else (Inl (sentinel_err ErrContentDigestMismatch), w)),
     gw_authenticator = Some \<lparr>ga_Issue = (\<lambda>u p repo acts w. (Inl (errorf ''no token''), w)),
        ga_Authenticate = (\<lambda>t repo act w. (if t = ''t'' then Inr gx_user else Inl (errorf ''bad token''), w))\<rparr>,
     gw_now = (\<lambda>n. int n + 1), gw_unicode = ascii_unicode, gw_EqualFold = (=), gw_hash = id,
     gw_unmarshal = (\<lambda>_. Inl (errorf ''no manifest''))\<rparr>"

definition gx_request :: "string \<Rightarrow> string \<Rightarrow> string \<Rightarrow> HRequest" where
  "gx_request verb path body = \<lparr>hreq_Method = verb, hreq_Path = path, hreq_Query = [(''digest'', [''abc''])],
     hreq_Header = [(''Authorization'', ''Bearer t'')], hreq_Cookies = [], hreq_BasicAuth = None, hreq_RemoteAddr = ''192.0.2.1:7'',
     hreq_Host = ''reg.test'', hreq_Scheme = [], hreq_TLS = False, hreq_Body = [(body, None)]\<rparr>"

definition gx_start :: HRequest where "gx_start = gx_request ''POST'' ''/v2/app/blobs/uploads/'' []"
definition gx_patch :: HRequest where "gx_patch = gx_request ''PATCH'' ''/v2/app/blobs/uploads/1'' ''ab''"
definition gx_put :: HRequest where "gx_put = gx_request ''PUT'' ''/v2/app/blobs/uploads/1'' ''c''"
definition gx_get :: HRequest where "gx_get = (gx_request ''GET'' ''/v2/app/manifests/v1'' [])\<lparr>hreq_Header := []\<rparr>"

definition gx_s0 :: "(string \<times> string) list GatewayState" where
  "gx_s0 = \<lparr>gs_world = [], gs_limiter = None, gs_uploads = (\<lambda>_. None), gs_nextID = 0, gs_tick = 0\<rparr>"

definition gx_s1 :: "(string \<times> string) list GatewayState" where "gx_s1 = snd (Gateway_ServeHTTP gx gx_start gx_s0)"
definition gx_s2 :: "(string \<times> string) list GatewayState" where
  "gx_s2 = snd (gateway_authenticate gx api_headers gx_put (serve_all gx [gx_patch] gx_s1))"

lemma gx_started:
  "Gateway_ServeHTTP gx gx_start gx_s0 = (fst (Gateway_ServeHTTP gx gx_start gx_s0), gx_s1)"
  "hres_Status (fst (Gateway_ServeHTTP gx gx_start gx_s0)) = 202"
  "response_header (fst (Gateway_ServeHTTP gx gx_start gx_s0)) ''Docker-Upload-UUID'' = Some ''1''"
  "parseV2Path (hreq_Path gx_start) = Some (''app'', ''blobs'', ''uploads/'')"
  "unat (gs_nextID gx_s1) = 1"
  by (simp add: gx_s1_def) code_simp+

lemma gx_finished:
  "gateway_authenticate gx api_headers gx_put (serve_all gx [gx_patch] gx_s1) = (Inr (Some gx_user), gx_s2)"
  "chunks gx (upload_path ''app'' ''1'') [gx_patch] gx_s1 = ''ab''" "gs_world gx_s2 = []"
  by (simp add: gx_s2_def prod_eq_iff) code_simp+


definition gx_auth :: "(string \<times> string) list Authenticator" where "gx_auth = the (gw_authenticator gx)"

theorem requests_act_for_their_token_witness:
  "gs_uploads gx_s1 ''1'' \<noteq> None \<and> (\<exists>p repo. ga_Authenticate gx_auth ''t'' repo ''push'' [] = (Inr p, []) \<and> repo = ''app'')"
proof -
  have a: "gw_authenticator gx = Some gx_auth" by (simp add: gx_auth_def gx_def)
  have u: "gs_uploads gx_s1 ''1'' \<noteq> None" "gs_uploads gx_s0 ''1'' = None" "bearer_token gx_start = ''t''" "\<not> read_only gx_start" "gs_world gx_s0 = []"
    "gs_world gx_s1 = []"
    by code_simp+
  from requests_act_for_their_token [OF a gx_started(1)] u gx_started(4) show ?thesis
    by (auto simp: gx_auth_def gx_def)
qed


end
