(* ===== verification/Admin_Views.thy ===== *)
theory Admin_Views
  imports Credentials SQLite_Repository HTTP_Server
begin

unbundle bit_operations_syntax

text \<open>
  The read side of the administration API (internal/admin/server.go) as functions of the
  configuration and of repository records: registries, sources and artifacts, the labels and
  details of audit events, the details of a request, and the query of the request history with
  its cursors. An absent key of a Go map reads as the empty string.
\<close>

section \<open>Registries and sources\<close>

record RegistryView =
  rgv_ID :: string
  rgv_Name :: string
  rgv_Endpoint :: string
  rgv_Pull :: bool
  rgv_Push :: bool
  rgv_VerificationRepository :: string
  rgv_Guidance :: string
  rgv_Routes :: "string list"

definition route_pulls :: "string \<Rightarrow> ConfigRoute \<Rightarrow> bool" where
  "route_pulls sourceID route \<longleftrightarrow> sourceID \<in> set (pull_Sources (cr_Pull route))"

definition route_pushes :: "string \<Rightarrow> ConfigRoute \<Rightarrow> bool" where
  "route_pushes sourceID route \<longleftrightarrow> push_Destination (cr_Push route) = sourceID \<and> \<not> push_Deny (cr_Push route)"

definition configuredRegistryViews :: "Config \<Rightarrow> RegistryView list" where
  "configuredRegistryViews cfg =
    map (\<lambda>source. \<lparr>rgv_ID = cs_ID source, rgv_Name = cs_Name source, rgv_Endpoint = cs_Endpoint source,
        rgv_Pull = list_ex (route_pulls (cs_ID source)) (cfg_Routes cfg),
        rgv_Push = list_ex (route_pushes (cs_ID source)) (cfg_Routes cfg),
        rgv_VerificationRepository = VerificationRepository (cs_UserCredentials source),
        rgv_Guidance = Guidance (cs_UserCredentials source),
        rgv_Routes = map cr_Name (filter (\<lambda>route. route_pulls (cs_ID source) route \<or> route_pushes (cs_ID source) route)
          (cfg_Routes cfg))\<rparr>)
      (filter cs_Enabled (cfg_Sources cfg))"

record SourceView =
  sv_ID :: string
  sv_Name :: string
  sv_Endpoint :: string
  sv_Type :: string
  sv_Enabled :: bool
  sv_UserCredentials :: UserCredentials
  sv_Routes :: "string list"

text \<open>Unlike the registry view, a source view also lists routes that deny pushing to it.\<close>

definition sourceRouteNames :: "Config \<Rightarrow> string \<Rightarrow> string list" where
  "sourceRouteNames cfg sourceID =
    map cr_Name (filter (\<lambda>route. push_Destination (cr_Push route) = sourceID \<or> route_pulls sourceID route)
      (cfg_Routes cfg))"

definition sourceViews :: "Config \<Rightarrow> SourceView list" where
  "sourceViews cfg =
    map (\<lambda>source. \<lparr>sv_ID = cs_ID source, sv_Name = cs_Name source, sv_Endpoint = cs_Endpoint source,
        sv_Type = cs_Type source, sv_Enabled = cs_Enabled source, sv_UserCredentials = cs_UserCredentials source,
        sv_Routes = sourceRouteNames cfg (cs_ID source)\<rparr>) (cfg_Sources cfg)"

record Artifact =
  ar_LogicalReference :: string
  ar_Mapping :: TagMapping

definition artifactsFromMappings :: "TagMapping list \<Rightarrow> Artifact list" where
  "artifactsFromMappings mappings =
    map (\<lambda>m. \<lparr>ar_LogicalReference = tm_LogicalRepository m @ '':'' @ tm_Tag m, ar_Mapping = m\<rparr>) mappings"

section \<open>The audit log\<close>

definition audit_action_labels :: "(string \<times> string) list" where
  "audit_action_labels =
    [(''user.bootstrap'', ''Created first administrator''), (''user.created'', ''Created user''),
     (''user.updated'', ''Updated user''), (''user.disabled'', ''Disabled user''),
     (''user.access_changed'', ''Changed user access''), (''user.password_changed'', ''Changed own password''),
     (''user.password_reset'', ''Reset user password''), (''docker_token.created'', ''Created Docker token''),
     (''docker_token.revoked'', ''Revoked Docker token''), (''credential.created'', ''Saved registry credential''),
     (''credential.replaced'', ''Replaced registry credential''), (''credential.deleted'', ''Removed registry credential''),
     (''credential.verification_failed'', ''Credential verification failed'')]"

definition auditActionLabel :: "string \<Rightarrow> string" where
  "auditActionLabel action =
    (case map_of audit_action_labels action of Some label \<Rightarrow> label | None \<Rightarrow> ''Recorded security event'')"

definition detail_of :: "AuditEvent \<Rightarrow> string \<Rightarrow> string" where
  "detail_of event k = (case map_of (au_Details event) k of None \<Rightarrow> [] | Some v \<Rightarrow> v)"

definition auditSafeDetail :: "AuditEvent \<Rightarrow> string" where
  "auditSafeDetail event =
    (if detail_of event ''error_classification'' \<noteq> [] then detail_of event ''error_classification''
     else
     let previous = detail_of event ''previous_access''; new = detail_of event ''new_access'';
         enabled = detail_of event ''enabled''; source = detail_of event ''source_id'';
         parts = (if previous \<noteq> [] \<and> new \<noteq> [] \<and> previous \<noteq> new then [''Access: '' @ previous @ '' to '' @ new]
                  else if new \<noteq> [] then [''Access: '' @ new] else [])
               @ (if enabled \<noteq> [] then [''Enabled: '' @ enabled] else []) in
     if length parts > 0 then Join ''; '' parts
     else if source \<noteq> [] then ''Registry '' @ source
     else [])"

record AuditEventView =
  av_ID :: int
  av_Timestamp :: time
  av_Action :: string
  av_ActionLabel :: string
  av_Outcome :: string
  av_Actor :: string
  av_Target :: string
  av_Detail :: string
  av_CorrelationID :: string

text \<open>The map filled in a loop over the users; a later user with the same identifier wins.\<close>

definition user_labels :: "User list \<Rightarrow> string \<Rightarrow> string" where
  "user_labels users i =
    (case map_of (rev (map (\<lambda>u. (usr_ID u, if DisplayName u = [] then Username u else DisplayName u)) users)) i of
       None \<Rightarrow> [] | Some label \<Rightarrow> label)"

definition audit_view :: "User list \<Rightarrow> AuditEvent \<Rightarrow> AuditEventView" where
  "audit_view users event =
    (let actor = user_labels users (au_ActorUserID event); target = user_labels users (au_TargetID event) in
     \<lparr>av_ID = au_ID event, av_Timestamp = au_Timestamp event, av_Action = au_Action event,
      av_ActionLabel = auditActionLabel (au_Action event), av_Outcome = au_Outcome event,
      av_Actor = (if actor = [] then au_ActorRole event else actor),
      av_Target = (if target = [] then TrimSpace (au_TargetType event @ '' '' @ au_TargetID event) else target),
      av_Detail = auditSafeDetail event, av_CorrelationID = au_CorrelationID event\<rparr>)"

section \<open>One request\<close>

definition credentialDisplay :: "string \<Rightarrow> string" where
  "credentialDisplay source =
    (if source = [] \<or> source = ''anonymous'' then ''No upstream credential''
     else if source = ''proxy'' then ''Shared registry credential''
     else if source = ''current_user'' then ''Current user credential''
     else ''Credential policy'')"

text \<open>rdv_DurationMicros is what the code divides by 1000 as a floating-point number.\<close>

record RequestDetailView =
  rdv_ID :: int
  rdv_Timestamp :: time
  rdv_Operation :: string
  rdv_LogicalReference :: string
  rdv_Status :: string
  rdv_ClientIdentity :: string
  rdv_MatchedRoute :: string
  rdv_SourceOrDestination :: string
  rdv_CacheResult :: string
  rdv_Credential :: string
  rdv_DurationMicros :: int
  rdv_BytesTransferred :: int
  rdv_ErrorClassification :: string
  rdv_Explanation :: "explanation list"

definition requestDetailView :: "RequestEvent \<Rightarrow> RequestDetailView" where
  "requestDetailView event =
    \<lparr>rdv_ID = ev_ID event, rdv_Timestamp = ev_Timestamp event, rdv_Operation = ev_Operation event,
     rdv_LogicalReference = ev_LogicalReference event, rdv_Status = ev_Status event,
     rdv_ClientIdentity = ev_ClientIdentity event, rdv_MatchedRoute = ev_MatchedRoute event,
     rdv_SourceOrDestination = ev_SourceOrDestination event, rdv_CacheResult = ev_CacheResult event,
     rdv_Credential = credentialDisplay (ev_CredentialSource event),
     rdv_DurationMicros = quo (ev_Duration event) 1000, rdv_BytesTransferred = ev_BytesTransferred event,
     rdv_ErrorClassification = ev_ErrorClassification event, rdv_Explanation = ev_Explanation event\<rparr>"

section \<open>Cursors\<close>

text \<open>binary.BigEndian.PutUint64 and Uint64, the latter on the eight bytes it is given.\<close>

definition PutUint64 :: "64 word \<Rightarrow> string" where
  "PutUint64 w = map (\<lambda>i. char_of (unat (drop_bit i w))) [56, 48, 40, 32, 24, 16, 8, 0]"

definition Uint64 :: "string \<Rightarrow> 64 word" where
  "Uint64 s = foldl (\<lambda>w c. push_bit 8 w OR of_char c) 0 s"

lemma of_char_byte: "(of_char (char_of (n::nat)) :: 64 word) = take_bit 8 (of_nat n)"
proof -
  have "(of_char (char_of n) :: 64 word) = of_nat (of_char (char_of n) :: nat)" by (simp only: of_nat_of_char)
  also have "(of_char (char_of n) :: nat) = take_bit 8 n" by (simp add: of_char_of take_bit_eq_mod)
  finally show ?thesis by (simp add: take_bit_of_nat)
qed

lemma next_byte: "push_bit 8 (drop_bit (i + 8) w) OR take_bit 8 (drop_bit i w) = drop_bit i (w :: 64 word)"
  by (rule bit_word_eqI) (auto simp: bit_simps not_less add.commute dest: bit_imp_le_length)

lemma Uint64_PutUint64 [simp]: "Uint64 (PutUint64 w) = w"
proof -
  have "drop_bit 64 w = 0" by (rule bit_word_eqI) (auto simp: bit_simps dest: bit_imp_le_length)
  then show ?thesis
    using next_byte [of 56 w] next_byte [of 48 w] next_byte [of 40 w] next_byte [of 32 w] next_byte [of 24 w]
      next_byte [of 16 w] next_byte [of 8 w] next_byte [of 0 w]
    by (simp add: Uint64_def PutUint64_def of_char_byte del: of_char_of)
qed

lemma length_PutUint64 [simp]: "length (PutUint64 w) = 8"
  by (simp add: PutUint64_def)

definition encodeRequestCursor :: "RequestEventCursor \<Rightarrow> string" where
  "encodeRequestCursor cursor =
    RawURL_Encode (PutUint64 (word_of_int (cur_Timestamp cursor)) @ PutUint64 (word_of_int (cur_ID cursor)))"

definition decodeRequestCursor :: "string \<Rightarrow> RequestEventCursor result" where
  "decodeRequestCursor raw =
    (if length raw > 64 \<or> ContainsAny raw [CHR 0x0D, CHR 0x0A] then Inl (errorf ''invalid cursor encoding'')
     else
     (case RawURL_Decode raw of Inl _ \<Rightarrow> Inl (errorf ''invalid cursor encoding'')
      | Inr buffer \<Rightarrow>
        if length buffer \<noteq> 16 then Inl (errorf ''invalid cursor encoding'')
        else
        let timestampNanos = sint (Uint64 (take 8 buffer)); i = sint (Uint64 (drop 8 buffer)) in
        if timestampNanos \<le> 0 \<or> i \<le> 0 then Inl (errorf ''invalid cursor values'')
        else Inr \<lparr>cur_Timestamp = timestampNanos, cur_ID = i\<rparr>))"

lemma length_sextets: "length (sextets xs) \<le> 2 * length xs"
  by (induction xs rule: sextets.induct) auto

lemma cursor_round_trip:
  assumes "0 < cur_Timestamp c" "cur_Timestamp c < 2 ^ 63" "0 < cur_ID c" "cur_ID c < 2 ^ 63"
  shows "decodeRequestCursor (encodeRequestCursor c) = Inr c"
proof -
  define buf where "buf = PutUint64 (word_of_int (cur_Timestamp c)) @ PutUint64 (word_of_int (cur_ID c))"
  have "length (RawURL_Encode buf) \<le> 32"
    using length_sextets [of "map of_char buf"] by (simp add: RawURL_Encode_def base64_encode_def buf_def)
  moreover have "\<not> ContainsAny (RawURL_Encode buf) [CHR 0x0D, CHR 0x0A]"
    using base64_chars [OF alphabets(2), of buf] alphabets(5)
    by (auto simp: ContainsAny_def list_ex_iff RawURL_Encode_def)
  moreover have "sint (word_of_int x :: 64 word) = x" if "0 < x" "x < 2 ^ 63" for x
    using that by (simp add: sint_sbintrunc' signed_take_bit_int_eq_self)
  ultimately show ?thesis using assms
    by (simp add: decodeRequestCursor_def encodeRequestCursor_def buf_def [symmetric]) (simp add: buf_def)
qed

section \<open>The query of the request history\<close>

text \<open>time.Parse with RFC 3339, and with minutes in UTC.\<close>

record TimeParsers =
  tp_RFC3339 :: "string \<Rightarrow> time result"
  tp_Minutes :: "string \<Rightarrow> time result"

definition parseFilterTime :: "TimeParsers \<Rightarrow> string \<Rightarrow> time result" where
  "parseFilterTime tp raw = (case tp_RFC3339 tp raw of Inr t \<Rightarrow> Inr t | Inl _ \<Rightarrow> tp_Minutes tp raw)"

text \<open>A block of the parser: a parameter that is present is checked and put into the query.\<close>

definition if_present ::
  "string \<Rightarrow> (string \<Rightarrow> RequestEventQuery \<Rightarrow> RequestEventQuery result) \<Rightarrow> RequestEventQuery result \<Rightarrow> RequestEventQuery result" where
  "if_present raw f res = (case res of Inl e \<Rightarrow> Inl e | Inr q \<Rightarrow> if raw = [] then Inr q else f raw q)"

definition set_filter :: "(RequestEventFilter \<Rightarrow> RequestEventFilter) \<Rightarrow> RequestEventQuery \<Rightarrow> RequestEventQuery" where
  "set_filter f q = q\<lparr>q_Filter := f (q_Filter q)\<rparr>"

definition relative_window :: "string \<Rightarrow> duration option" where
  "relative_window raw = map_of [(''1h'', hour), (''24h'', 24 * hour), (''7d'', 7 * 24 * hour)] raw"

definition query_texts :: "HRequest \<Rightarrow> RequestEventFilter" where
  "query_texts r = no_filter
    \<lparr>f_ClientIdentity := query_value r ''client_identity'', f_CredentialSource := query_value r ''credential'',
     f_Route := query_value r ''route'', f_SourceOrDestination := query_value r ''source'',
     f_ErrorClassification := query_value r ''error_classification'', f_ReferenceContains := query_value r ''reference''\<rparr>"

text \<open>The six length checks share their message, so the order of the map does not show.\<close>

definition texts_too_long :: "RequestEventFilter \<Rightarrow> bool" where
  "texts_too_long f \<longleftrightarrow> list_ex (\<lambda>s. length s > 256)
     [f_ClientIdentity f, f_CredentialSource f, f_Route f, f_SourceOrDestination f, f_ErrorClassification f, f_ReferenceContains f]"

definition check_time_order :: "RequestEventQuery result \<Rightarrow> RequestEventQuery result" where
  "check_time_order res = (case res of Inl e \<Rightarrow> Inl e | Inr q \<Rightarrow>
     if \<not> IsZero (f_After (q_Filter q)) \<and> \<not> IsZero (f_Before (q_Filter q)) \<and> \<not> f_After (q_Filter q) < f_Before (q_Filter q)
     then Inl (errorf ''after timestamp must be before before timestamp'') else Inr q)"

definition parse_choices :: "HRequest \<Rightarrow> RequestEventQuery result \<Rightarrow> RequestEventQuery result" where
  "parse_choices r q0 =
    (let q1 = if_present (query_value r ''operation'') (\<lambda>raw q.
           if raw \<noteq> OperationPull \<and> raw \<noteq> OperationPush then Inl (errorf ''invalid operation'')
           else Inr (set_filter (\<lambda>f. f\<lparr>f_Operation := raw\<rparr>) q)) q0;
         q2 = if_present (query_value r ''status'') (\<lambda>raw q.
           if raw \<noteq> StatusSuccess \<and> raw \<noteq> StatusDenied \<and> raw \<noteq> StatusError then Inl (errorf ''invalid status'')
           else Inr (set_filter (\<lambda>f. f\<lparr>f_Status := raw\<rparr>) q)) q1;
         q3 = if_present (query_value r ''cache'') (\<lambda>raw q.
           if raw \<noteq> CacheHit \<and> raw \<noteq> CacheMiss \<and> raw \<noteq> CacheBypassed then Inl (errorf ''invalid cache result'')
           else Inr (set_filter (\<lambda>f. f\<lparr>f_CacheResult := raw\<rparr>) q)) q2 in
     if_present (query_value r ''credential'') (\<lambda>raw q.
       if raw \<noteq> ''anonymous'' \<and> raw \<noteq> ''current_user'' then Inl (errorf ''invalid credential source'') else Inr q) q3)"

definition parse_ranges :: "TimeParsers \<Rightarrow> time \<Rightarrow> HRequest \<Rightarrow> RequestEventQuery result \<Rightarrow> RequestEventQuery result" where
  "parse_ranges tp now r q0 =
    (let q1 = if_present (query_value r ''window'') (\<lambda>raw q.
           if query_value r ''after'' \<noteq> [] \<or> query_value r ''before'' \<noteq> []
           then Inl (errorf ''relative and absolute time filters cannot be combined'')
           else (case relative_window raw of None \<Rightarrow> Inl (errorf ''invalid relative time window'')
             | Some d \<Rightarrow> Inr (set_filter (\<lambda>f. f\<lparr>f_After := now - d\<rparr>) q))) q0;
         q2 = if_present (query_value r ''sort'') (\<lambda>raw q.
           if raw \<noteq> ''oldest'' then Inl (errorf ''invalid sort order'') else Inr (q\<lparr>q_OldestFirst := True\<rparr>)) q1;
         q3 = if_present (query_value r ''limit'') (\<lambda>raw q.
           case ParseInt raw of Inl _ \<Rightarrow> Inl (errorf ''invalid limit'')
           | Inr limit \<Rightarrow> if limit < 1 \<or> limit > 100 then Inl (errorf ''invalid limit'') else Inr (q\<lparr>q_Limit := limit\<rparr>)) q2;
         q4 = if_present (query_value r ''after'') (\<lambda>raw q.
           case parseFilterTime tp raw of Inl _ \<Rightarrow> Inl (errorf ''invalid after timestamp'')
           | Inr t \<Rightarrow> Inr (set_filter (\<lambda>f. f\<lparr>f_After := t\<rparr>) q)) q3 in
     if_present (query_value r ''before'') (\<lambda>raw q.
       case parseFilterTime tp raw of Inl _ \<Rightarrow> Inl (errorf ''invalid before timestamp'')
       | Inr t \<Rightarrow> Inr (set_filter (\<lambda>f. f\<lparr>f_Before := t\<rparr>) q)) q4)"

definition parseRequestEventQuery :: "TimeParsers \<Rightarrow> time \<Rightarrow> HRequest \<Rightarrow> int \<Rightarrow> RequestEventQuery result" where
  "parseRequestEventQuery tp now r defaultLimit =
    (if texts_too_long (query_texts r) then Inl (errorf ''%s is too long'')
     else
     if_present (query_value r ''cursor'') (\<lambda>raw q.
       case decodeRequestCursor raw of Inl _ \<Rightarrow> Inl (errorf ''invalid cursor'')
       | Inr cursor \<Rightarrow> Inr (q\<lparr>q_Cursor := Some cursor\<rparr>))
     (check_time_order (parse_ranges tp now r (parse_choices r
       (Inr \<lparr>q_Filter = query_texts r, q_Limit = defaultLimit, q_Cursor = None, q_OldestFirst = False\<rparr>)))))"

end
