(* ===== verification/Admin.thy ===== *)
theory Admin
  imports Admin_Views Rate_Limit
begin

text \<open>
  The administration API (internal/admin/server.go): first-run setup, login, sessions and their
  CSRF tokens, the access rules of the paths, and every handler. A request is handled by one
  function from the server's state to the response and the new state; the k-th call that reads
  the clock or the random source meets the k-th value of each. A response of None stands for the
  nil dereference of a server without authentication services; the server of the program always
  has them.
\<close>

section \<open>The server\<close>

text \<open>io.LimitReader.\<close>

fun LimitReader :: "nat \<Rightarrow> Reader \<Rightarrow> Reader" where
  "LimitReader n [] = []"
| "LimitReader n ((d, er) # rs) =
     (if n = 0 then [([], Some EOF)]
      else if length d > n then [(take n d, None), ([], Some EOF)]
      else (d, er) # LimitReader (n - length d) rs)"

text \<open>json.Decoder with unknown fields disallowed, for each struct that a handler decodes.\<close>

record AdminDecoders =
  dec_setup :: "Reader \<Rightarrow> (string \<times> string \<times> string \<times> string) result"
  dec_login :: "Reader \<Rightarrow> (string \<times> string) result"
  dec_password :: "Reader \<Rightarrow> (string \<times> string) result"
  dec_token :: "Reader \<Rightarrow> (string \<times> int) result"
  dec_credential :: "Reader \<Rightarrow> (string \<times> string) result"
  dec_confirm :: "Reader \<Rightarrow> bool result"
  dec_user :: "Reader \<Rightarrow> NewUser result"
  dec_edit :: "Reader \<Rightarrow> UserEdit result"
  dec_reset :: "Reader \<Rightarrow> string result"

text \<open>Accounts, sessions, administration and Docker tokens are always there; Credentials may be nil.\<close>

record 'n AuthConfig =
  ac_lifetimes :: SessionLifetimes
  ac_credentials :: "(CredentialService \<times> (VerificationRequest \<Rightarrow> 'n \<Rightarrow> unit result \<times> 'n)) option"

text \<open>Of a connector only Health is called here.\<close>

record ('s, 'n) AdminServer =
  ad_config :: Config
  ad_store :: "'s Store option"
  ad_auth :: "'n AuthConfig option"
  ad_connectors :: "string \<Rightarrow> ('n \<Rightarrow> unit result \<times> 'n) option"
  ad_setupToken :: string
  ad_services :: Services
  ad_now :: "nat \<Rightarrow> time"
  ad_dbnow :: "nat \<Rightarrow> time"
  ad_random :: "nat \<Rightarrow> nat \<Rightarrow> nat \<Rightarrow> string result"
  ad_bytes :: "nat \<Rightarrow> nat \<Rightarrow> string result"
  ad_metaFaults :: SqlFaults
  ad_json :: JsonColumns
  ad_decode :: AdminDecoders
  ad_asset :: "string \<Rightarrow> string result"
  ad_unicode :: unicode
  ad_EqualFold :: "string \<Rightarrow> string \<Rightarrow> bool"
  ad_ParseURL :: "string \<Rightarrow> URL result"
  ad_times :: TimeParsers

record ('s, 'n) AdminState =
  as_sec :: SqlState
  as_meta :: "MetaDB \<times> nat"
  as_store :: 's
  as_net :: 'n
  as_limiter :: "FailureLimiter option"
  as_tick :: nat

definition services_at :: "('s, 'n) AdminServer \<Rightarrow> nat \<Rightarrow> Services" where
  "services_at ad k = (ad_services ad)
    \<lparr>sv_now := ad_now ad k, sv_dbnow := ad_dbnow ad k, sv_random := ad_random ad k,
     sv_hasher := (sv_hasher (ad_services ad))\<lparr>ph_random := ad_bytes ad k\<rparr>\<rparr>"

definition credentials_at :: "('s, 'n) AdminServer \<Rightarrow> CredentialService \<Rightarrow> nat \<Rightarrow> CredentialService" where
  "credentials_at ad cv k = cv\<lparr>cv_sv := services_at ad k, cv_nonce := ad_bytes ad k\<rparr>"

text \<open>A call of a service, of the metadata repository, of the clock, of the random source.\<close>

definition sec :: "('s, 'n) AdminServer \<Rightarrow> (Services \<Rightarrow> 'a sqlm) \<Rightarrow> ('s, 'n) AdminState \<Rightarrow> 'a result \<times> ('s, 'n) AdminState" where
  "sec ad f s = (case f (services_at ad (as_tick s)) (as_sec s) of
     (x, q) \<Rightarrow> (x, s\<lparr>as_sec := q, as_tick := Suc (as_tick s)\<rparr>))"

definition meta :: "'a metam \<Rightarrow> ('s, 'n) AdminState \<Rightarrow> 'a result \<times> ('s, 'n) AdminState" where
  "meta f s = (case f (as_meta s) of (x, q) \<Rightarrow> (x, s\<lparr>as_meta := q\<rparr>))"

definition clock :: "('s, 'n) AdminServer \<Rightarrow> ('s, 'n) AdminState \<Rightarrow> time \<times> ('s, 'n) AdminState" where
  "clock ad s = (ad_now ad (as_tick s), s\<lparr>as_tick := Suc (as_tick s)\<rparr>)"

definition random_bytes :: "('s, 'n) AdminServer \<Rightarrow> nat \<Rightarrow> ('s, 'n) AdminState \<Rightarrow> string result \<times> ('s, 'n) AdminState" where
  "random_bytes ad n s = (ad_bytes ad (as_tick s) n, s\<lparr>as_tick := Suc (as_tick s)\<rparr>)"

section \<open>Responses\<close>

text \<open>
  The JSON documents of the API. Password and token hashes are not encoded (their tag is "-"):
  a written user or token has them empty.
\<close>

datatype admin_body =
    ANone | AError string | ACodedError string string
  | ARequired bool | ASetup string | ALogin User string
  | AAccount "User option" | AUsers "User list"
  | ATokens "DockerToken list" | AIssued IssuedDockerToken
  | ACredentials "RegistryCredentialView list" | ACredential RegistryCredentialView
  | AHealth | ASources "SourceView list" | ARoutes "ConfigRoute list" | ARegistries "RegistryView list"
  | ASourceHealth "(string \<times> string) list" time
  | ARequests "RequestEvent list" string | ARequest RequestDetailView "ProvenanceRecord option"
  | AProvenance ProvenanceRecord | AArtifacts "Artifact list" | ABlobs "Descriptor list"
  | AAudit "AuditEventView list" "(string \<times> string) list"
  | APage string | AAsset string string | ARedirect string

type_synonym admin_response = "admin_body HResponse"
type_synonym ('s, 'n) handler = "('s, 'n) AdminState \<Rightarrow> admin_response option \<times> ('s, 'n) AdminState"

definition reply :: "admin_response \<Rightarrow> ('s, 'n) handler" where "reply resp s = (Some resp, s)"
definition crash :: "('s, 'n) handler" where "crash s = (None, s)"

definition public_user :: "User \<Rightarrow> User" where "public_user u = u\<lparr>PasswordHash := []\<rparr>"
definition public_token :: "DockerToken \<Rightarrow> DockerToken" where "public_token t = t\<lparr>dt_TokenHash := []\<rparr>"

definition writeJSON :: "headers \<Rightarrow> int \<Rightarrow> admin_body \<Rightarrow> admin_response" where
  "writeJSON h status body = respond (set_header ''Content-Type'' ''application/json'' h) status body"

definition writeError :: "headers \<Rightarrow> int \<Rightarrow> string \<Rightarrow> admin_response" where
  "writeError h status message = writeJSON h status (AError message)"

text \<open>http.Redirect with 303; the page of a GET is its link.\<close>

definition redirect :: "headers \<Rightarrow> HRequest \<Rightarrow> string \<Rightarrow> admin_response" where
  "redirect h r url =
    respond (let h = set_header ''Location'' url h in
       if hreq_Method r = ''GET'' \<or> hreq_Method r = ''HEAD'' then set_header ''Content-Type'' ''text/html; charset=utf-8'' h else h)
     303 (if hreq_Method r = ''GET'' then ARedirect url else ANone)"

definition csp :: "string \<Rightarrow> string" where
  "csp style = ''default-src 'none'; script-src 'self'; style-src 'self'' @ [CHR 0x27] @ style
     @ ''; img-src 'self' data:; connect-src 'self'; base-uri 'none'; frame-ancestors 'none'; form-action 'self'' @ [CHR 0x27]"

definition setSecurityHeaders :: headers where
  "setSecurityHeaders =
    [(''Content-Security-Policy'', csp []),
     (''Permissions-Policy'', ''camera=(), geolocation=(), microphone=()''),
     (''Referrer-Policy'', ''no-referrer''), (''X-Content-Type-Options'', ''nosniff''), (''X-Frame-Options'', ''DENY'')]"

text \<open>Cookies have the path "/", Secure and SameSite strict; twelve hours, or -1 to delete.\<close>

definition setSessionCookie :: "string \<Rightarrow> Cookie" where
  "setSessionCookie secret = \<lparr>ck_Name = ''regstair_session'', ck_Value = secret, ck_HttpOnly = True, ck_MaxAge = 12 * 60 * 60\<rparr>"

definition setCSRFCookie :: "string \<Rightarrow> Cookie" where
  "setCSRFCookie token = \<lparr>ck_Name = ''regstair_csrf'', ck_Value = token, ck_HttpOnly = False, ck_MaxAge = 12 * 60 * 60\<rparr>"

definition clearSessionCookie :: "Cookie list" where
  "clearSessionCookie =
    [\<lparr>ck_Name = ''regstair_session'', ck_Value = [], ck_HttpOnly = True, ck_MaxAge = -1\<rparr>,
     \<lparr>ck_Name = ''regstair_csrf'', ck_Value = [], ck_HttpOnly = False, ck_MaxAge = -1\<rparr>]"

definition with_cookies :: "Cookie list \<Rightarrow> admin_response \<Rightarrow> admin_response" where
  "with_cookies cs resp = resp\<lparr>hres_Cookies := cs\<rparr>"

definition noContent :: "headers \<Rightarrow> admin_response" where "noContent h = respond h 204 ANone"

definition read_request :: "HRequest \<Rightarrow> bool" where
  "read_request r \<longleftrightarrow> hreq_Method r = ''GET'' \<or> hreq_Method r = ''HEAD''"

definition methodNotAllowed :: "headers \<Rightarrow> admin_response" where
  "methodNotAllowed h = writeError h 405 ''method not allowed''"

text \<open>readMethod, in front of the handler it guards.\<close>

definition readMethod :: "headers \<Rightarrow> HRequest \<Rightarrow> ('s, 'n) handler \<Rightarrow> ('s, 'n) handler" where
  "readMethod h r k = (if read_request r then k else reply (methodNotAllowed h))"

definition decodeJSON :: "(Reader \<Rightarrow> 'a result) \<Rightarrow> HRequest \<Rightarrow> 'a result" where
  "decodeJSON decoder r = decoder (LimitReader (64 * 1024) (hreq_Body r))"

definition cookie :: "HRequest \<Rightarrow> string \<Rightarrow> string option" where
  "cookie r name = map_of (hreq_Cookies r) name"

section \<open>Pages and assets\<close>

text \<open>bytes.ReplaceAll of a non-empty text.\<close>

function ReplaceAll :: "string \<Rightarrow> string \<Rightarrow> string \<Rightarrow> string" where
  "ReplaceAll old new [] = []"
| "ReplaceAll old new (c # cs) =
     (if old \<noteq> [] \<and> HasPrefix (c # cs) old then new @ ReplaceAll old new (drop (length old) (c # cs))
      else c # ReplaceAll old new cs)"
  by pat_completeness auto
termination by (relation "measure (\<lambda>(old, new, s). length s)") (auto simp: neq_Nil_conv)

definition handleApplication :: "('s, 'n) AdminServer \<Rightarrow> headers \<Rightarrow> HRequest \<Rightarrow> ('s, 'n) handler" where
  "handleApplication ad h r s =
    (if \<not> read_request r then reply (methodNotAllowed h) s
     else
     (case ad_asset ad ''frontend-dist/index.html'' of
        Inl _ \<Rightarrow> reply (writeError h 500 ''application bundle unavailable'') s
      | Inr body \<Rightarrow>
        (case random_bytes ad 18 s of
           (Inl _, s) \<Rightarrow> reply (writeError h 500 ''application security initialization failed'') s
         | (Inr nonceBytes, s) \<Rightarrow>
           let nonce = RawURL_Encode nonceBytes;
               body = ReplaceAll ''__REGSTAIR_CSP_NONCE__'' nonce body;
               h = set_header ''Content-Security-Policy'' (csp ('' 'nonce-'' @ nonce @ [CHR 0x27])) h;
               h = set_header ''Cache-Control'' ''no-cache'' (set_header ''Content-Type'' ''text/html; charset=utf-8'' h) in
           reply (respond h 200 (if hreq_Method r \<noteq> ''HEAD'' then APage body else ANone)) s)))"

text \<open>http.ServeContent answers range and conditional requests itself; here it is the content it is given.\<close>

definition handleApplicationAsset :: "('s, 'n) AdminServer \<Rightarrow> headers \<Rightarrow> HRequest \<Rightarrow> ('s, 'n) handler" where
  "handleApplicationAsset ad h r =
    (if \<not> read_request r then reply (methodNotAllowed h)
     else
     let assetPath = TrimPrefix (hreq_Path r) ''/'' in
     (case ad_asset ad (''frontend-dist/'' @ assetPath) of
        Inl _ \<Rightarrow> reply (writeError h 404 ''application asset not found'')
      | Inr body \<Rightarrow> reply (respond (set_header ''Cache-Control'' ''public, max-age=31536000, immutable'' h) 200
          (AAsset assetPath body))))"

definition isApplicationPagePath :: "string \<Rightarrow> bool" where
  "isApplicationPagePath path \<longleftrightarrow> HasPrefix path ''/requests/''
     \<or> path \<in> {''/'', ''/requests'', ''/routes'', ''/sources'', ''/cache'', ''/account'', ''/registry-access'',
         ''/admin/users'', ''/admin/audit''}"

definition adminOnlyPath :: "string \<Rightarrow> bool" where
  "adminOnlyPath path \<longleftrightarrow>
     \<not> (path = ''/'' \<or> path = ''/account'' \<or> path = ''/registry-access'' \<or> path = ''/admin/api/account''
        \<or> HasPrefix path ''/admin/api/account/'' \<or> path = ''/admin/api/registries'' \<or> path = ''/admin/api/logout'')"

definition isAllowedMutationPath :: "string \<Rightarrow> bool" where
  "isAllowedMutationPath path \<longleftrightarrow> path = ''/admin/api/setup'' \<or> path = ''/admin/api/login'' \<or> path = ''/admin/api/logout''
     \<or> path = ''/admin/api/account/password'' \<or> HasPrefix path ''/admin/api/account/docker-tokens''
     \<or> HasPrefix path ''/admin/api/account/registry-credentials/'' \<or> path = ''/admin/api/users''
     \<or> HasPrefix path ''/admin/api/users/''"

section \<open>First-run setup\<close>

definition bootstrapRequired :: "('s, 'n) AdminServer \<Rightarrow> ('s, 'n) AdminState \<Rightarrow> bool \<times> ('s, 'n) AdminState" where
  "bootstrapRequired ad s =
    (case sec ad (\<lambda>sv. SQL_ListUsers (sv_faults sv)) s of
       (Inl _, s) \<Rightarrow> (False, s) | (Inr users, s) \<Rightarrow> (users = [], s))"

definition requestScheme :: "HRequest \<Rightarrow> string" where
  "requestScheme r =
    (if hreq_Scheme r \<noteq> [] then hreq_Scheme r
     else
     let forwarded = TrimSpace (hd (Split CHR '','' (header r ''X-Forwarded-Proto''))) in
     if forwarded \<noteq> [] then forwarded
     else if hreq_TLS r then ''https'' else ''http'')"

definition sameOrigin :: "('s, 'n) AdminServer \<Rightarrow> HRequest \<Rightarrow> bool" where
  "sameOrigin ad r =
    (let origin = header r ''Origin'' in
     if origin = [] then True
     else (case ad_ParseURL ad origin of Inl _ \<Rightarrow> False
       | Inr parsed \<Rightarrow> ad_EqualFold ad (u_Host parsed) (hreq_Host r) \<and> u_Scheme parsed = requestScheme r))"

text \<open>A session for a user who was just created or has just logged in.\<close>

definition session_response ::
  "('s, 'n) AdminServer \<Rightarrow> 'n AuthConfig \<Rightarrow> headers \<Rightarrow> int \<Rightarrow> string \<Rightarrow> User \<Rightarrow> ('s, 'n) handler" where
  "session_response ad a h status failed user s =
    (case sec ad (\<lambda>sv. Session_Create sv (ac_lifetimes a) (usr_ID user)) s of
       (Inl _, s) \<Rightarrow> reply (writeError h 500 failed) s
     | (Inr issued, s) \<Rightarrow>
       reply (with_cookies [setSessionCookie (iw_Secret issued), setCSRFCookie (iw_CSRFToken issued)]
         (writeJSON h status (ALogin (public_user user) (iw_CSRFToken issued)))) s)"

definition handleSetup :: "('s, 'n) AdminServer \<Rightarrow> headers \<Rightarrow> HRequest \<Rightarrow> ('s, 'n) handler" where
  "handleSetup ad h r s =
    (if read_request r then reply (writeJSON h 200 (ASetup (ad_setupToken ad))) s
     else if hreq_Method r \<noteq> ''POST'' then reply (methodNotAllowed h) s
     else if header r ''X-Regstair-Setup-Token'' \<noteq> ad_setupToken ad \<or> \<not> sameOrigin ad r
     then reply (writeError h 403 ''invalid first-run setup request'') s
     else
     (case decodeJSON (dec_setup (ad_decode ad)) r of
        Inl _ \<Rightarrow> reply (writeError h 400 ''invalid request'') s
      | Inr (username, password, displayName, email) \<Rightarrow>
        (case ad_auth ad of None \<Rightarrow> crash s
         | Some a \<Rightarrow>
           (case sec ad (\<lambda>sv. BootstrapAdminWithProfile sv username password displayName email) s of
              (Inl err, s) \<Rightarrow>
                reply (if errors_Is err ErrConflict then writeError h 409 ''first-run setup has already completed''
                   else if errors_Is err ErrPasswordPolicy then writeError h 400 ''password must contain 15 to 128 characters''
                   else writeError h 400 ''administrator details were not accepted'') s
            | (Inr None, s) \<Rightarrow> crash s
            | (Inr (Some user), s) \<Rightarrow>
                session_response ad a h 201 ''administrator created; sign in to continue'' user s))))"

text \<open>handleFirstRun: None lets the request through.\<close>

definition handleFirstRun :: "('s, 'n) AdminServer \<Rightarrow> headers \<Rightarrow> HRequest \<Rightarrow> ('s, 'n) handler option" where
  "handleFirstRun ad h r =
    (let path = hreq_Path r in
     if path = ''/'' \<or> path = ''/login'' then Some (reply (redirect h r ''/setup''))
     else if path = ''/setup'' then Some (handleApplication ad h r)
     else if path = ''/admin/api/setup'' then Some (handleSetup ad h r)
     else if path = ''/admin/api/health'' then None
     else if HasPrefix path ''/admin/''
     then Some (reply (writeJSON h 428 (ACodedError ''setup_required'' ''Complete first-run setup before using Regstair.'')))
     else None)"

section \<open>Login and sessions\<close>

definition authenticationRateKeys :: "unicode \<Rightarrow> string \<Rightarrow> string \<Rightarrow> string \<Rightarrow> string list" where
  "authenticationRateKeys U surface remoteAddress username =
    (let host = (case SplitHostPort remoteAddress of Inl _ \<Rightarrow> remoteAddress | Inr (host, _) \<Rightarrow> host) in
     [surface @ '':address:'' @ host, surface @ '':account:'' @ ToLower U (TrimSpace username)])"

definition login_Allow :: "('s, 'n) AdminServer \<Rightarrow> string list \<Rightarrow> ('s, 'n) AdminState \<Rightarrow> (bool \<times> duration) \<times> ('s, 'n) AdminState" where
  "login_Allow ad keys s =
    (case clock ad s of (t, s) \<Rightarrow> case Allow t (as_limiter s) keys of (a, l) \<Rightarrow> (a, s\<lparr>as_limiter := l\<rparr>))"

definition login_Failure :: "('s, 'n) AdminServer \<Rightarrow> string list \<Rightarrow> ('s, 'n) AdminState \<Rightarrow> ('s, 'n) AdminState" where
  "login_Failure ad keys s = (case clock ad s of (t, s) \<Rightarrow> s\<lparr>as_limiter := Failure t (as_limiter s) keys\<rparr>)"

definition login_Success :: "string list \<Rightarrow> ('s, 'n) AdminState \<Rightarrow> ('s, 'n) AdminState" where
  "login_Success keys s = s\<lparr>as_limiter := Success (as_limiter s) keys\<rparr>"

definition handleLogin :: "('s, 'n) AdminServer \<Rightarrow> headers \<Rightarrow> HRequest \<Rightarrow> ('s, 'n) handler" where
  "handleLogin ad h r s =
    (if hreq_Method r \<noteq> ''POST'' then reply (methodNotAllowed h) s
     else
     (case decodeJSON (dec_login (ad_decode ad)) r of
        Inl _ \<Rightarrow> reply (writeError h 400 ''invalid request'') s
      | Inr (username, password) \<Rightarrow>
        let keys = authenticationRateKeys (ad_unicode ad) ''admin'' (hreq_RemoteAddr r) username in
        (case login_Allow ad keys s of ((allowed, retry), s) \<Rightarrow>
         if \<not> allowed
         then reply (writeError (set_header ''Retry-After'' (FormatInt (max (quo retry second) 1)) h)
                429 ''invalid username or password'') s
         else
         (case ad_auth ad of None \<Rightarrow> crash s
          | Some a \<Rightarrow>
            (case sec ad (\<lambda>sv. AuthenticateWeb sv username password) s of
               (Inl _, s) \<Rightarrow> reply (writeError h 401 ''invalid username or password'') (login_Failure ad keys s)
             | (Inr user, s) \<Rightarrow>
               session_response ad a h 200 ''could not create session'' user (login_Success keys s))))))"

text \<open>Inl is the response of a refused request (None a nil dereference).\<close>

definition requireUser ::
  "('s, 'n) AdminServer \<Rightarrow> headers \<Rightarrow> HRequest \<Rightarrow> ('s, 'n) AdminState
     \<Rightarrow> (admin_response option + User) \<times> ('s, 'n) AdminState" where
  "requireUser ad h r s =
    (case cookie r ''regstair_session'' of
       None \<Rightarrow> (Inl (Some (writeError h 401 ''authentication required'')), s)
     | Some secret \<Rightarrow>
       (case ad_auth ad of None \<Rightarrow> (Inl None, s)
        | Some a \<Rightarrow>
          (case sec ad (\<lambda>sv. Session_Authenticate sv secret) s of
             (Inl _, s) \<Rightarrow> (Inl (Some (with_cookies clearSessionCookie (writeError h 401 ''authentication required''))), s)
           | (Inr user, s) \<Rightarrow> (Inr user, s))))"

text \<open>requireCSRF in front of the rest of a handler.\<close>

definition requireCSRF :: "('s, 'n) AdminServer \<Rightarrow> headers \<Rightarrow> HRequest \<Rightarrow> ('s, 'n) handler \<Rightarrow> ('s, 'n) handler" where
  "requireCSRF ad h r k s =
    (case cookie r ''regstair_session'' of
       None \<Rightarrow> reply (writeError h 401 ''authentication required'') s
     | Some secret \<Rightarrow>
       (case ad_auth ad of None \<Rightarrow> crash s
        | Some a \<Rightarrow>
          (case sec ad (\<lambda>sv. Session_Validate sv secret (header r ''X-CSRF-Token'')) s of
             (Inl _, s) \<Rightarrow> reply (writeError h 403 ''invalid CSRF token'') s
           | (Inr _, s) \<Rightarrow> k s)))"

text \<open>currentUser(r.Context()).ID and s.auth, whose nil is dereferenced.\<close>

definition with_user :: "User option \<Rightarrow> (User \<Rightarrow> ('s, 'n) handler) \<Rightarrow> ('s, 'n) handler" where
  "with_user user k = (case user of None \<Rightarrow> crash | Some u \<Rightarrow> k u)"

definition with_auth :: "('s, 'n) AdminServer \<Rightarrow> ('n AuthConfig \<Rightarrow> ('s, 'n) handler) \<Rightarrow> ('s, 'n) handler" where
  "with_auth ad k = (case ad_auth ad of None \<Rightarrow> crash | Some a \<Rightarrow> k a)"

text \<open>A call whose error gives one response and whose result another.\<close>

definition answering ::
  "('a result \<times> ('s, 'n) AdminState) \<Rightarrow> (goerr \<Rightarrow> admin_response) \<Rightarrow> ('a \<Rightarrow> admin_response) \<Rightarrow> admin_response option \<times> ('s, 'n) AdminState" where
  "answering outcome bad good = (case outcome of (Inl err, s) \<Rightarrow> reply (bad err) s | (Inr x, s) \<Rightarrow> reply (good x) s)"

definition decoding ::
  "(Reader \<Rightarrow> 'a result) \<Rightarrow> headers \<Rightarrow> HRequest \<Rightarrow> ('a \<Rightarrow> ('s, 'n) handler) \<Rightarrow> ('s, 'n) handler" where
  "decoding decoder h r k =
    (case decodeJSON decoder r of Inl _ \<Rightarrow> reply (writeError h 400 ''invalid request'') | Inr input \<Rightarrow> k input)"

section \<open>The account of the current user\<close>

definition handleAccount :: "headers \<Rightarrow> HRequest \<Rightarrow> User option \<Rightarrow> ('s, 'n) handler" where
  "handleAccount h r user = readMethod h r (reply (writeJSON h 200 (AAccount (map_option public_user user))))"

definition handleLogout :: "('s, 'n) AdminServer \<Rightarrow> headers \<Rightarrow> HRequest \<Rightarrow> ('s, 'n) handler" where
  "handleLogout ad h r =
    (if hreq_Method r \<noteq> ''POST'' then reply (methodNotAllowed h)
     else requireCSRF ad h r (\<lambda>s.
       case sec ad (\<lambda>sv. Session_Revoke sv (case cookie r ''regstair_session'' of None \<Rightarrow> [] | Some secret \<Rightarrow> secret)) s of
         (_, s) \<Rightarrow> reply (with_cookies clearSessionCookie (noContent h)) s))"

definition handlePasswordChange :: "('s, 'n) AdminServer \<Rightarrow> headers \<Rightarrow> HRequest \<Rightarrow> User option \<Rightarrow> ('s, 'n) handler" where
  "handlePasswordChange ad h r user =
    (if hreq_Method r \<noteq> ''POST'' then reply (methodNotAllowed h)
     else requireCSRF ad h r (decoding (dec_password (ad_decode ad)) h r (\<lambda>(current, new). with_user user (\<lambda>u s.
       answering (sec ad (\<lambda>sv. ChangePassword sv (usr_ID u) current new) s)
         (\<lambda>_. writeError h 400 ''password change failed'') (\<lambda>_. with_cookies clearSessionCookie (noContent h))))))"

text \<open>time.Duration(days) * 24 * time.Hour wraps around.\<close>

definition days_lifetime :: "int \<Rightarrow> duration" where
  "days_lifetime days = int64 (days * 24 * hour)"

definition handleDockerTokens :: "('s, 'n) AdminServer \<Rightarrow> headers \<Rightarrow> HRequest \<Rightarrow> User option \<Rightarrow> ('s, 'n) handler" where
  "handleDockerTokens ad h r user =
    (if read_request r then with_auth ad (\<lambda>_. with_user user (\<lambda>u s.
       answering (sec ad (\<lambda>sv. Token_List sv (usr_ID u)) s)
         (\<lambda>_. writeError h 500 ''could not list Docker tokens'') (\<lambda>tokens. writeJSON h 200 (ATokens (map public_token tokens)))))
     else if hreq_Method r \<noteq> ''POST'' then reply (methodNotAllowed h)
     else requireCSRF ad h r (decoding (dec_token (ad_decode ad)) h r (\<lambda>(label, days). with_user user (\<lambda>u s.
       answering (sec ad (\<lambda>sv. Token_Issue sv (usr_ID u) label (days_lifetime (if days = 0 then 30 else days))) s)
         (\<lambda>_. writeError h 400 ''Docker token request was not accepted'')
         (\<lambda>issued. writeJSON h 201 (AIssued (issued\<lparr>is_Token := public_token (is_Token issued)\<rparr>)))))))"

definition handleDockerTokenMutation :: "('s, 'n) AdminServer \<Rightarrow> headers \<Rightarrow> HRequest \<Rightarrow> User option \<Rightarrow> ('s, 'n) handler" where
  "handleDockerTokenMutation ad h r user =
    (if hreq_Method r \<noteq> ''DELETE'' then reply (methodNotAllowed h)
     else requireCSRF ad h r (
       let i = TrimPrefix (hreq_Path r) ''/admin/api/account/docker-tokens/'' in
       if i = [] \<or> CHR ''/'' \<in> set i then reply (writeError h 404 ''token not found'')
       else with_user user (\<lambda>u s.
         answering (sec ad (\<lambda>sv. RevokeForUser sv (usr_ID u) i) s)
           (\<lambda>_. writeError h 500 ''could not revoke Docker token'') (\<lambda>_. noContent h))))"

section \<open>Registry credentials\<close>

text \<open>The messages of the public errors, by their codes.\<close>

definition public_messages :: "(string \<times> string) list" where
  "public_messages =
    [(''invalid_credentials'', ''The registry rejected these credentials.''),
     (''insufficient_permission'', ''The credentials do not have the required registry permissions.''),
     (''registry_unavailable'', ''The registry is currently unavailable.''),
     (''verification_configuration_invalid'', ''Registry credential verification is not configured correctly.''),
     (''registry_failure'', ''The registry could not verify these credentials.''),
     (''confirmation_required'', ''Credential removal requires confirmation.'')]"

definition writeCredentialError :: "headers \<Rightarrow> goerr \<Rightarrow> admin_response" where
  "writeCredentialError h err =
    (case map_of public_messages (err_text err) of
       Some message \<Rightarrow> writeJSON h 400 (ACodedError (err_text err) message)
     | None \<Rightarrow> writeJSON h 500 (ACodedError ''internal_error'' ''The credential operation could not be completed.''))"

definition handleRegistryCredentials :: "('s, 'n) AdminServer \<Rightarrow> headers \<Rightarrow> HRequest \<Rightarrow> User option \<Rightarrow> ('s, 'n) handler" where
  "handleRegistryCredentials ad h r user = readMethod h r (with_auth ad (\<lambda>a.
    case ac_credentials a of None \<Rightarrow> reply (writeError h 503 ''registry credential storage is unavailable'')
    | Some (cv, _) \<Rightarrow> with_user user (\<lambda>u s.
        answering (sec ad (\<lambda>sv. Credential_List (cv\<lparr>cv_sv := sv\<rparr>) (usr_ID u)) s)
          (\<lambda>_. writeError h 500 ''could not list registry credentials'') (\<lambda>views. writeJSON h 200 (ACredentials views)))))"

definition verify_and_save ::
  "('s, 'n) AdminServer \<Rightarrow> CredentialService \<Rightarrow> (VerificationRequest \<Rightarrow> 'n \<Rightarrow> unit result \<times> 'n)
     \<Rightarrow> string \<Rightarrow> string \<Rightarrow> string \<Rightarrow> string \<Rightarrow> ('s, 'n) AdminState \<Rightarrow> RegistryCredentialView result \<times> ('s, 'n) AdminState" where
  "verify_and_save ad cv verifier userID sourceID username secret s =
    (case VerifyAndSave (credentials_at ad cv (as_tick s)) verifier userID sourceID username secret (as_sec s, as_net s) of
       (x, q, net) \<Rightarrow> (x, s\<lparr>as_sec := q, as_net := net, as_tick := Suc (as_tick s)\<rparr>))"

definition handleRegistryCredentialMutation ::
  "('s, 'n) AdminServer \<Rightarrow> headers \<Rightarrow> HRequest \<Rightarrow> User option \<Rightarrow> ('s, 'n) handler" where
  "handleRegistryCredentialMutation ad h r user = with_auth ad (\<lambda>a.
    case ac_credentials a of None \<Rightarrow> reply (writeError h 503 ''registry credential storage is unavailable'')
    | Some (cv, verifier) \<Rightarrow> requireCSRF ad h r (
      let parts = Split CHR ''/'' (TrimPrefix (hreq_Path r) ''/admin/api/account/registry-credentials/'') in
        if length parts = 2 \<and> parts ! 0 \<noteq> [] \<and> parts ! 1 = ''verify-and-save'' \<and> hreq_Method r = ''POST''
        then decoding (dec_credential (ad_decode ad)) h r (\<lambda>(username, secret). with_user user (\<lambda>u s.
          answering (verify_and_save ad cv verifier (usr_ID u) (parts ! 0) username secret s)
            (writeCredentialError h) (\<lambda>view. writeJSON h 200 (ACredential view))))
        else if length parts = 1 \<and> parts ! 0 \<noteq> [] \<and> hreq_Method r = ''DELETE''
        then decoding (dec_confirm (ad_decode ad)) h r (\<lambda>confirm. with_user user (\<lambda>u s.
          answering (sec ad (\<lambda>sv. Credential_Remove (cv\<lparr>cv_sv := sv\<rparr>) (usr_ID u) (parts ! 0) confirm) s)
            (writeCredentialError h) (\<lambda>_. noContent h)))
        else reply (methodNotAllowed h)))"

section \<open>Administration of accounts\<close>

definition writeAccountMutationError :: "headers \<Rightarrow> goerr \<Rightarrow> admin_response" where
  "writeAccountMutationError h err =
    (if errors_Is err ErrForbidden then writeError h 403 ''administrator access required''
     else if errors_Is err ErrLastAdministrator
     then writeError h 400 ''the last enabled administrator cannot be changed; create or promote another administrator first''
     else if errors_Is err ErrPasswordPolicy then writeError h 400 ''password must contain 15 to 128 characters''
     else if errors_Is err ErrConflict then writeError h 400 ''the account changed or conflicts with an existing account''
     else if errors_Is err ErrInvalidRecord then writeError h 400 ''account details were not accepted''
     else writeError h 500 ''the account operation could not be completed'')"

text \<open>json null for a nil user of Create; user not found for the other two.\<close>

definition written_user :: "headers \<Rightarrow> int \<Rightarrow> User option \<Rightarrow> admin_response" where
  "written_user h status user = writeJSON h status (AAccount (map_option public_user user))"

definition found_user :: "headers \<Rightarrow> User option \<Rightarrow> admin_response" where
  "found_user h user = (case user of None \<Rightarrow> writeError h 404 ''user not found'' | Some u \<Rightarrow> written_user h 200 (Some u))"

definition handleUsers :: "('s, 'n) AdminServer \<Rightarrow> headers \<Rightarrow> HRequest \<Rightarrow> User option \<Rightarrow> ('s, 'n) handler" where
  "handleUsers ad h r user =
    (case user of None \<Rightarrow> reply (writeError h 403 ''administrator access required'')
     | Some actor \<Rightarrow>
       if Access actor \<noteq> UserAccessAdmin then reply (writeError h 403 ''administrator access required'')
       else if read_request r then with_auth ad (\<lambda>_ s.
         answering (sec ad (\<lambda>sv. Admin_List sv (usr_ID actor)) s)
           (\<lambda>_. writeError h 403 ''administrator access required'') (\<lambda>users. writeJSON h 200 (AUsers (map public_user users))))
       else if hreq_Method r = ''POST''
       then requireCSRF ad h r (decoding (dec_user (ad_decode ad)) h r (\<lambda>input s.
         answering (sec ad (\<lambda>sv. Admin_Create sv (usr_ID actor) input) s) (writeAccountMutationError h) (written_user h 201)))
       else reply (methodNotAllowed h))"

definition handleUserMutation :: "('s, 'n) AdminServer \<Rightarrow> headers \<Rightarrow> HRequest \<Rightarrow> User option \<Rightarrow> ('s, 'n) handler" where
  "handleUserMutation ad h r user =
    (case user of None \<Rightarrow> reply (writeError h 403 ''administrator access required'')
     | Some actor \<Rightarrow>
       if Access actor \<noteq> UserAccessAdmin then reply (writeError h 403 ''administrator access required'')
       else
       let parts = Split CHR ''/'' (TrimPrefix (hreq_Path r) ''/admin/api/users/'') in
       if parts = [] \<or> hd parts = [] \<or> length parts > 2 then reply (writeError h 404 ''admin route not found'')
       else requireCSRF ad h r (
         if length parts = 1 \<and> hreq_Method r = ''PATCH''
         then decoding (dec_edit (ad_decode ad)) h r (\<lambda>input s.
           answering (sec ad (\<lambda>sv. Admin_Edit sv (usr_ID actor) (hd parts) input) s) (writeAccountMutationError h) (found_user h))
         else if length parts = 2 \<and> parts ! 1 = ''password'' \<and> hreq_Method r = ''POST''
         then decoding (dec_reset (ad_decode ad)) h r (\<lambda>password s.
           answering (sec ad (\<lambda>sv. Admin_ResetPassword sv (usr_ID actor) (hd parts) password) s) (writeAccountMutationError h) (found_user h))
         else reply (methodNotAllowed h)))"

section \<open>Reading\<close>

definition handleSourceHealth_loop ::
  "('s, 'n) AdminServer \<Rightarrow> ConfigSource list \<Rightarrow> 'n \<Rightarrow> (string \<times> string) list \<times> 'n" where
  "handleSourceHealth_loop ad sources net =
    foldl (\<lambda>(views, net) source.
      case (if \<not> cs_Enabled source then (''disabled'', net)
            else case ad_connectors ad (cs_ID source) of None \<Rightarrow> (''not_configured'', net)
              | Some health \<Rightarrow> (case health net of (Inr _, net) \<Rightarrow> (''healthy'', net) | (Inl _, net) \<Rightarrow> (''unavailable'', net))) of
        (status, net) \<Rightarrow> (views @ [(cs_ID source, status)], net)) ([], net) sources"

definition handleSourceHealth :: "('s, 'n) AdminServer \<Rightarrow> headers \<Rightarrow> HRequest \<Rightarrow> ('s, 'n) handler" where
  "handleSourceHealth ad h r = readMethod h r (\<lambda>s.
    case clock ad s of (now, s) \<Rightarrow>
    case handleSourceHealth_loop ad (cfg_Sources (ad_config ad)) (as_net s) of (views, net) \<Rightarrow>
      reply (writeJSON h 200 (ASourceHealth views now)) (s\<lparr>as_net := net\<rparr>))"

text \<open>The errors of both reads are dropped: no events, no labels.\<close>

definition handleAudit :: "('s, 'n) AdminServer \<Rightarrow> headers \<Rightarrow> HRequest \<Rightarrow> ('s, 'n) handler" where
  "handleAudit ad h r = readMethod h r (\<lambda>s.
    case sec ad (\<lambda>sv. ListAuditEvents (sv_faults sv) 100) s of (events, s) \<Rightarrow>
    case sec ad (\<lambda>sv. SQL_ListUsers (sv_faults sv)) s of (users, s) \<Rightarrow>
      reply (writeJSON h 200 (AAudit
        (map (audit_view (case users of Inl _ \<Rightarrow> [] | Inr us \<Rightarrow> us)) (case events of Inl _ \<Rightarrow> [] | Inr es \<Rightarrow> es))
        audit_action_labels)) s)"

definition handleRequests :: "('s, 'n) AdminServer \<Rightarrow> headers \<Rightarrow> HRequest \<Rightarrow> ('s, 'n) handler" where
  "handleRequests ad h r s =
    (case clock ad s of (now, s) \<Rightarrow>
     case parseRequestEventQuery (ad_times ad) now r 50 of
       Inl err \<Rightarrow> reply (writeError h 400 (err_text err)) s
     | Inr q \<Rightarrow>
       answering (meta (SQL_QueryRequestEvents (ad_metaFaults ad) (ad_json ad) q) s)
         (\<lambda>_. writeError h 500 ''could not query requests'')
         (\<lambda>page. writeJSON h 200 (ARequests (Events page)
            (case Next page of None \<Rightarrow> [] | Some c \<Rightarrow> encodeRequestCursor c))))"

definition handleRequestDetail :: "('s, 'n) AdminServer \<Rightarrow> headers \<Rightarrow> HRequest \<Rightarrow> ('s, 'n) handler" where
  "handleRequestDetail ad h r = readMethod h r (\<lambda>s.
    case ParseInt (TrimPrefix (hreq_Path r) ''/admin/api/requests/'') of
      Inl _ \<Rightarrow> reply (writeError h 400 ''invalid request id'') s
    | Inr i \<Rightarrow>
      if i \<le> 0 then reply (writeError h 400 ''invalid request id'') s
      else
      (case meta (SQL_FindRequestEventByID (ad_metaFaults ad) (ad_json ad) i) s of
         (Inl _, s) \<Rightarrow> reply (writeError h 500 ''could not load request detail'') s
       | (Inr None, s) \<Rightarrow> reply (writeError h 404 ''request not found'') s
       | (Inr (Some event), s) \<Rightarrow>
         answering (meta (SQL_FindProvenance (ad_metaFaults ad) (ev_LogicalReference event)) s)
           (\<lambda>_. writeError h 500 ''could not load request provenance'')
           (\<lambda>provenance. writeJSON h 200 (ARequest (requestDetailView event) provenance))))"

definition handleProvenance :: "('s, 'n) AdminServer \<Rightarrow> headers \<Rightarrow> HRequest \<Rightarrow> ('s, 'n) handler" where
  "handleProvenance ad h r s =
    (if query_value r ''reference'' = [] then reply (writeError h 400 ''reference is required'') s
     else answering (meta (SQL_FindProvenance (ad_metaFaults ad) (query_value r ''reference'')) s)
       (\<lambda>_. writeError h 500 ''could not find provenance'')
       (\<lambda>record. case record of None \<Rightarrow> writeError h 404 ''provenance not found''
          | Some p \<Rightarrow> writeJSON h 200 (AProvenance p)))"

definition handleArtifacts :: "('s, 'n) AdminServer \<Rightarrow> headers \<Rightarrow> ('s, 'n) handler" where
  "handleArtifacts ad h s =
    answering (meta (SQL_ListTagMappings (ad_metaFaults ad) (ad_json ad)) s)
      (\<lambda>_. writeError h 500 ''could not list artifacts'') (\<lambda>mappings. writeJSON h 200 (AArtifacts (artifactsFromMappings mappings)))"

definition handleCache :: "('s, 'n) AdminServer \<Rightarrow> headers \<Rightarrow> ('s, 'n) handler" where
  "handleCache ad h s =
    (case ad_store ad of None \<Rightarrow> reply (writeError h 503 ''content store is not configured'') s
     | Some store \<Rightarrow>
       (case st_ListBlobs store (as_store s) of
          (Inl _, q) \<Rightarrow> reply (writeError h 500 ''could not list cached content'') (s\<lparr>as_store := q\<rparr>)
        | (Inr descs, q) \<Rightarrow> reply (writeJSON h 200 (ABlobs descs)) (s\<lparr>as_store := q\<rparr>)))"

section \<open>Routing\<close>

definition requiresSession :: "('s, 'n) AdminServer \<Rightarrow> HRequest \<Rightarrow> ('s, 'n) AdminState \<Rightarrow> bool \<times> ('s, 'n) AdminState" where
  "requiresSession ad r s =
    (let path = hreq_Path r in
     if path = ''/login'' \<or> path = ''/admin/api/login'' \<or> path = ''/regstair-logo.png''
       \<or> HasPrefix path ''/admin/static/'' \<or> HasPrefix path ''/assets/'' then (False, s)
     else if path = ''/admin/api/account'' \<or> HasPrefix path ''/admin/api/account/'' \<or> path = ''/admin/api/users''
       \<or> HasPrefix path ''/admin/api/users/'' \<or> path = ''/admin/api/registries'' then (True, s)
     else
     (case sec ad (\<lambda>sv. SQL_ListUsers (sv_faults sv)) s of
        (Inl _, s) \<Rightarrow> (True, s) | (Inr users, s) \<Rightarrow> (users \<noteq> [], s)))"

definition route_path :: "('s, 'n) AdminServer \<Rightarrow> headers \<Rightarrow> HRequest \<Rightarrow> User option \<Rightarrow> ('s, 'n) handler" where
  "route_path ad h r user =
    (let path = hreq_Path r in
     if path = ''/'' \<or> path \<in> {''/requests'', ''/routes'', ''/sources'', ''/cache'', ''/account'', ''/registry-access'',
          ''/admin/users'', ''/admin/audit''} then handleApplication ad h r
     else if path = ''/admin/api/health'' then readMethod h r (reply (writeJSON h 200 AHealth))
     else if path = ''/admin/api/account'' then handleAccount h r user
     else if path = ''/admin/api/logout'' then handleLogout ad h r
     else if path = ''/admin/api/account/password'' then handlePasswordChange ad h r user
     else if path = ''/admin/api/account/docker-tokens'' then handleDockerTokens ad h r user
     else if path = ''/admin/api/account/registry-credentials'' then handleRegistryCredentials ad h r user
     else if path = ''/admin/api/users'' then handleUsers ad h r user
     else if path = ''/admin/api/audit'' then handleAudit ad h r
     else if path = ''/admin/api/sources'' then reply (writeJSON h 200 (ASources (sourceViews (ad_config ad))))
     else if path = ''/admin/api/routes'' then reply (writeJSON h 200 (ARoutes (cfg_Routes (ad_config ad))))
     else if path = ''/admin/api/registries''
     then readMethod h r (reply (writeJSON h 200 (ARegistries (configuredRegistryViews (ad_config ad)))))
     else if path = ''/admin/api/source-health'' then handleSourceHealth ad h r
     else if path = ''/admin/api/requests'' then handleRequests ad h r
     else if path = ''/admin/api/provenance'' then handleProvenance ad h r
     else if path = ''/admin/api/artifacts'' then handleArtifacts ad h
     else if path = ''/admin/api/cache'' then handleCache ad h
     else reply (writeError h 404 ''admin route not found''))"

definition admin_route :: "('s, 'n) AdminServer \<Rightarrow> headers \<Rightarrow> HRequest \<Rightarrow> User option \<Rightarrow> ('s, 'n) handler" where
  "admin_route ad h r user =
    (let path = hreq_Path r in
     if \<not> isAllowedMutationPath path \<and> \<not> read_request r then reply (methodNotAllowed h)
     else if HasPrefix path ''/admin/api/users/'' then handleUserMutation ad h r user
     else if HasPrefix path ''/admin/api/account/registry-credentials/'' then handleRegistryCredentialMutation ad h r user
     else if HasPrefix path ''/admin/api/account/docker-tokens/'' then handleDockerTokenMutation ad h r user
     else if HasPrefix path ''/admin/api/requests/'' then handleRequestDetail ad h r
     else if HasPrefix path ''/requests/'' then handleApplication ad h r
     else if HasPrefix path ''/assets/'' then handleApplicationAsset ad h r
     else if path = ''/regstair-logo.png'' then handleApplicationAsset ad h r
     else route_path ad h r user)"

text \<open>The access rules of a request that needs a session.\<close>

definition with_session :: "('s, 'n) AdminServer \<Rightarrow> headers \<Rightarrow> HRequest \<Rightarrow> ('s, 'n) handler" where
  "with_session ad h r s =
    (if isApplicationPagePath (hreq_Path r) \<and> hreq_Method r = ''GET'' \<and> cookie r ''regstair_session'' = None
     then reply (redirect h r ''/login'') s
     else
     (case requireUser ad h r s of
        (Inl refused, s) \<Rightarrow> (refused, s)
      | (Inr user, s) \<Rightarrow>
        if isApplicationPagePath (hreq_Path r) \<and> Access user \<noteq> UserAccessAdmin \<and> hreq_Path r \<noteq> ''/account''
          \<and> hreq_Path r \<noteq> ''/registry-access''
        then reply (redirect h r ''/registry-access'') s
        else if adminOnlyPath (hreq_Path r) \<and> Access user \<noteq> UserAccessAdmin
        then reply (writeError h 403 ''administrator access required'') s
        else admin_route ad h r (Some user) s))"

definition after_setup :: "('s, 'n) AdminServer \<Rightarrow> headers \<Rightarrow> HRequest \<Rightarrow> ('s, 'n) handler" where
  "after_setup ad h r s =
    (if ad_auth ad \<noteq> None \<and> hreq_Path r = ''/admin/api/login'' then handleLogin ad h r s
     else if hreq_Path r = ''/login'' then handleApplication ad h r s
     else if ad_auth ad = None then admin_route ad h r None s
     else
     (case requiresSession ad r s of
        (True, s) \<Rightarrow> with_session ad h r s
      | (False, s) \<Rightarrow> admin_route ad h r None s))"

definition Admin_ServeHTTP :: "('s, 'n) AdminServer \<Rightarrow> HRequest \<Rightarrow> ('s, 'n) handler" where
  "Admin_ServeHTTP ad r s =
    (let h = setSecurityHeaders in
     case (if ad_auth ad = None then (False, s) else bootstrapRequired ad s) of
       (True, s) \<Rightarrow>
         let h = set_header ''X-Regstair-Bootstrap-Required'' ''true'' h in
         (case handleFirstRun ad h r of Some handle \<Rightarrow> handle s | None \<Rightarrow> after_setup ad h r s)
     | (False, s) \<Rightarrow>
         if hreq_Path r = ''/setup'' then reply (redirect h r ''/login'') s
         else if hreq_Path r = ''/admin/api/setup''
         then reply (if read_request r then writeJSON h 200 (ARequired False)
                else writeError h 409 ''first-run setup has already completed'') s
         else after_setup ad h r s)"

text \<open>NewServer: None is the panic when the random source fails.\<close>

definition NewAdminServer :: "(nat \<Rightarrow> string result) \<Rightarrow> ('s, 'n) AdminServer \<Rightarrow> ('s, 'n) AdminServer option" where
  "NewAdminServer random ad =
    (case random 32 of Inl _ \<Rightarrow> None | Inr setupToken \<Rightarrow> Some (ad\<lparr>ad_setupToken := RawURL_Encode setupToken\<rparr>))"

end
