(* ===== verification/Admin_Invariants.thy ===== *)
theory Admin_Invariants
  imports Admin Accounts_Properties
begin

text \<open>
  Reasoning about the administration API: what the services keep of the security tables, rules
  for what handlers do, and from them what every request does: the form of its response, that the
  tables only change through the program's calls, and who may have changed them.
\<close>

section \<open>The services over the tables\<close>

lemma preorder_sec_reach [simp, intro]: "preorder sec_reach"
proof -
  have "sec_reach a b \<Longrightarrow> sec_reach b c \<Longrightarrow> sec_reach a c" for a b c
    by (rotate_tac, induction rule: sec_reach.induct) (auto intro: sec_reach.call)
  then show ?thesis by (auto simp: preorder_def reflp_def transp_def intro: sec_reach.start)
qed

lemma keeps_lift [keeps_intros]: "preorder R \<Longrightarrow> keeps R (lift r)"
  by (cases r) (auto simp: lift_def intro: keeps_intros)

lemma keeps_prod [keeps_intros]: "keeps R (f (fst p) (snd p)) \<Longrightarrow> keeps R (case p of (x, y) \<Rightarrow> f x y)"
  by (simp add: case_prod_beta)

lemma keeps_lookup [keeps_intros]:
  "preorder R \<Longrightarrow> keeps R (SQL_FindUserByID F i)" "preorder R \<Longrightarrow> keeps R (SQL_FindUserByUsername F i)"
  "preorder R \<Longrightarrow> keeps R (FindDockerTokenByHash F h)" "preorder R \<Longrightarrow> keeps R (FindWebSessionByHash F h)"
  "preorder R \<Longrightarrow> keeps R (SQL_ListUsers F)" "preorder R \<Longrightarrow> keeps R (ListDockerTokensForUser F i)"
  "preorder R \<Longrightarrow> keeps R (ListRegistryCredentialsForUser F i)" "preorder R \<Longrightarrow> keeps R (ListAuditEvents F n)"
  unfolding SQL_FindUserByID_def SQL_FindUserByUsername_def findUser_def FindDockerTokenByHash_def
    FindWebSessionByHash_def SQL_ListUsers_def ListDockerTokensForUser_def ListRegistryCredentialsForUser_def ListAuditEvents_def
  by (auto intro!: keeps_intros)

text \<open>What only reads keeps every relation.\<close>

lemma keeps_reading [keeps_intros]:
  assumes "preorder R"
  shows "keeps R (admin_authorize sv i)" "keeps R (Admin_List sv i)" "keeps R (Token_List sv i)"
    "keeps R (AuthenticateWeb sv name password)" "keeps R (session_authenticate sv secret)"
    "keeps R (Session_Authenticate sv secret)" "keeps R (Session_Validate sv secret csrf)" "keeps R (Credential_List cv i)"
proof -
  show a: "keeps R (admin_authorize sv i)"
    unfolding admin_authorize_def by (intro keeps_intros assms)
  show "keeps R (Admin_List sv i)" "keeps R (Token_List sv i)" "keeps R (Credential_List cv i)"
    unfolding Admin_List_def Token_List_def Credential_List_def by (intro keeps_intros a assms)+
  show "keeps R (AuthenticateWeb sv name password)" unfolding AuthenticateWeb_def by (intro keeps_intros assms)
  show s: "keeps R (session_authenticate sv secret)" unfolding session_authenticate_def by (intro keeps_intros assms)
  show "keeps R (Session_Authenticate sv secret)" "keeps R (Session_Validate sv secret csrf)"
    unfolding Session_Authenticate_def Session_Validate_def by (intro keeps_intros s assms)+
qed

lemma reach_call: "(\<And>s. snd (m s) = sec_step F now c s) \<Longrightarrow> keeps sec_reach m"
  using sec_reach.call [OF sec_reach.start] unfolding keeps_def by (metis prod.collapse)

lemma reach_calls [keeps_intros]:
  "keeps sec_reach (SQL_BootstrapAdmin F now u a)" "keeps sec_reach (CreateUserWithAudit F now u a)"
  "keeps sec_reach (UpdateUserSecurity F now u t b a)" "keeps sec_reach (ChangeUserPassword F now i t h a)"
  "keeps sec_reach (CreateDockerTokenWithAudit F now tok a)" "keeps sec_reach (RevokeDockerTokenWithAudit F i j t a)"
  "keeps sec_reach (CreateWebSession F now w)" "keeps sec_reach (RevokeWebSession F now i t)"
  "keeps sec_reach (SaveRegistryCredential F now c a)" "keeps sec_reach (DeleteRegistryCredential F now i j a)"
  "keeps sec_reach (RecordAuditEvent F now a)"
  by (rule reach_call, rule sec_step.simps [symmetric])+

lemma reach_services [keeps_intros]:
  "keeps sec_reach (BootstrapAdminWithProfile sv name password display email)"
  "keeps sec_reach (ChangePassword sv i old new)" "keeps sec_reach (Token_Issue sv i label life)"
  "keeps sec_reach (RevokeForUser sv i j)" "keeps sec_reach (Session_Create sv l i)"
  "keeps sec_reach (Session_Revoke sv secret)" "keeps sec_reach (Admin_Create sv i user)"
  "keeps sec_reach (Admin_Update sv i u t)" "keeps sec_reach (Credential_Remove cv i src b)" "keeps sec_reach (save_credential cv i src name secret)"
  unfolding BootstrapAdminWithProfile_def ChangePassword_def Token_Issue_def RevokeForUser_def Session_Create_def
    Session_Revoke_def Admin_Create_def Admin_Update_def Credential_Remove_def save_credential_def Let_def
  by (intro keeps_intros preorder_sec_reach)+

lemma reach_edits [keeps_intros]:
  "keeps sec_reach (Admin_Edit sv i uid edit)" "keeps sec_reach (Admin_ResetPassword sv i uid password)"
  unfolding Admin_Edit_def Admin_ResetPassword_def by (intro keeps_intros preorder_sec_reach)+

lemma reach_VerifyAndSave:
  "VerifyAndSave cv verifier i src name secret (s, net) = (x, s', net') \<Longrightarrow> sec_reach (fst s) (fst s')"
  by (auto simp: VerifyAndSave_def Let_def sec_reach.start split: option.splits if_splits prod.splits sum.splits
      intro: keeps_snd [OF reach_calls(11)] dest: keepsD [OF reach_services(10)])


section \<open>What handlers do\<close>

definition ends :: "(('s, 'n) AdminState \<Rightarrow> admin_response option \<Rightarrow> ('s, 'n) AdminState \<Rightarrow> bool) \<Rightarrow> ('s, 'n) handler \<Rightarrow> bool" where
  "ends P k \<longleftrightarrow> (\<forall>s. P s (fst (k s)) (snd (k s)))"

definition secured :: "headers \<Rightarrow> bool" where
  "secured h \<longleftrightarrow> (\<exists>style. map_of h ''Content-Security-Policy'' = Some (csp style))
     \<and> map_of h ''Permissions-Policy'' = Some ''camera=(), geolocation=(), microphone=()''
     \<and> map_of h ''Referrer-Policy'' = Some ''no-referrer'' \<and> map_of h ''X-Content-Type-Options'' = Some ''nosniff''
     \<and> map_of h ''X-Frame-Options'' = Some ''DENY''"

lemma secured_set [simp]:
  "secured setSecurityHeaders"
  "secured (set_header ''Content-Type'' v h) = secured h"
  "secured (set_header ''Location'' v h) = secured h"
  "secured (set_header ''Cache-Control'' v h) = secured h"
  "secured (set_header ''Retry-After'' v h) = secured h"
  "secured (set_header ''X-Regstair-Bootstrap-Required'' v h) = secured h"
  "secured h \<Longrightarrow> secured (set_header ''Content-Security-Policy'' (csp v) h)"
  by (auto simp: secured_def setSecurityHeaders_def)

definition admin_statuses :: "int set" where
  "admin_statuses = {200, 201, 204, 303, 400, 401, 403, 404, 405, 409, 428, 429, 500, 503}"

lemma admin_statuses [simp]:
  "200 \<in> admin_statuses" "201 \<in> admin_statuses" "204 \<in> admin_statuses" "303 \<in> admin_statuses" "400 \<in> admin_statuses"
  "401 \<in> admin_statuses" "403 \<in> admin_statuses" "404 \<in> admin_statuses" "405 \<in> admin_statuses" "409 \<in> admin_statuses"
  "428 \<in> admin_statuses" "429 \<in> admin_statuses" "500 \<in> admin_statuses" "503 \<in> admin_statuses"
  by (simp_all add: admin_statuses_def)

text \<open>The users and tokens a body shows.\<close>

fun shown_users :: "admin_body \<Rightarrow> User list" where
  "shown_users (ALogin u t) = [u]"
| "shown_users (AAccount (Some u)) = [u]"
| "shown_users (AUsers us) = us"
| "shown_users b = []"

fun shown_tokens :: "admin_body \<Rightarrow> DockerToken list" where
  "shown_tokens (ATokens ts) = ts"
| "shown_tokens (AIssued i) = [is_Token i]"
| "shown_tokens b = []"

fun error_body :: "admin_body \<Rightarrow> bool" where
  "error_body (AError m) = True"
| "error_body (ACodedError c m) = True"
| "error_body b = False"

definition formed :: "admin_response \<Rightarrow> bool" where
  "formed resp \<longleftrightarrow> hres_Status resp \<in> admin_statuses \<and> secured (hres_Header resp)
     \<and> (400 \<le> hres_Status resp \<longleftrightarrow> error_body (hres_Body resp))
     \<and> (\<forall>u \<in> set (shown_users (hres_Body resp)). PasswordHash u = [])
     \<and> (\<forall>t \<in> set (shown_tokens (hres_Body resp)). dt_TokenHash t = [])"

lemma formed_with_cookies [simp]: "formed (with_cookies cs resp) = formed resp"
  by (simp add: formed_def with_cookies_def)

lemma formed_respond: "formed (respond h st b) \<longleftrightarrow> st \<in> admin_statuses \<and> secured h \<and> (400 \<le> st \<longleftrightarrow> error_body b)
    \<and> (\<forall>u \<in> set (shown_users b). PasswordHash u = []) \<and> (\<forall>t \<in> set (shown_tokens b). dt_TokenHash t = [])"
  by (simp add: formed_def)

lemma formed_error [simp]: "secured h \<Longrightarrow> st \<in> admin_statuses \<Longrightarrow> 400 \<le> st \<Longrightarrow> formed (writeError h st m)"
  "secured h \<Longrightarrow> formed (methodNotAllowed h)"
  by (simp_all add: writeError_def writeJSON_def formed_respond methodNotAllowed_def)

lemma formed_json [simp]: "formed (writeJSON h st b) \<longleftrightarrow> st \<in> admin_statuses \<and> secured h \<and> (400 \<le> st \<longleftrightarrow> error_body b)
    \<and> (\<forall>u \<in> set (shown_users b). PasswordHash u = []) \<and> (\<forall>t \<in> set (shown_tokens b). dt_TokenHash t = [])"
  by (simp add: writeJSON_def formed_respond)

lemma shown_option [simp]: "u \<in> set (shown_users (AAccount x)) \<longleftrightarrow> x = Some u"
  by (cases x) auto

lemma public_simps [simp]: "PasswordHash (public_user u) = []" "dt_TokenHash (public_token t) = []"
  by (simp_all add: public_user_def public_token_def)

lemma formed_others [simp]: "secured h \<Longrightarrow> formed (redirect h r url)" "secured h \<Longrightarrow> formed (noContent h)"
  "secured h \<Longrightarrow> formed (writeCredentialError h err)" "secured h \<Longrightarrow> formed (writeAccountMutationError h err)"
  "secured h \<Longrightarrow> st = 200 \<or> st = 201 \<Longrightarrow> formed (written_user h st x)" "secured h \<Longrightarrow> formed (found_user h x)"
proof -
  show w: "secured h \<Longrightarrow> st = 200 \<or> st = 201 \<Longrightarrow> formed (written_user h st x)" for st :: int and x
    by (auto simp: written_user_def public_user_def)
  show "secured h \<Longrightarrow> formed (found_user h x)" using w by (auto simp: found_user_def split: option.split)
qed (auto simp: redirect_def noContent_def writeCredentialError_def writeAccountMutationError_def 
      formed_respond Let_def split: option.split)

text \<open>
  The session cookie and the CSRF token of a request, as they stand in the database at the k-th
  clock reading: the user they act for.
\<close>

definition session_of :: "('s, 'n) AdminServer \<Rightarrow> HRequest \<Rightarrow> SecDB \<Rightarrow> nat \<Rightarrow> User \<Rightarrow> WebSession \<Rightarrow> bool" where
  "session_of ad r db k u w \<longleftrightarrow> (\<exists>secret. cookie r ''regstair_session'' = Some secret
     \<and> session_found db (sv_sha256 (ad_services ad) secret) = Some w \<and> session_live (ad_now ad k) w
     \<and> find (\<lambda>v. usr_ID v = ws_UserID w) (t_users db) = Some u \<and> Enabled u)"

definition csrf_of :: "('s, 'n) AdminServer \<Rightarrow> HRequest \<Rightarrow> WebSession \<Rightarrow> bool" where
  "csrf_of ad r w \<longleftrightarrow> sv_sha256 (ad_services ad) (header r ''X-CSRF-Token'') = ws_CSRFTokenHash w"

abbreviation db_of :: "('s, 'n) AdminState \<Rightarrow> SecDB" where "db_of s \<equiv> fst (as_sec s)"

text \<open>What every handler behind the access rules does.\<close>

definition behaves :: "('s, 'n) AdminServer \<Rightarrow> HRequest \<Rightarrow> ('s, 'n) AdminState \<Rightarrow> admin_response option \<Rightarrow> ('s, 'n) AdminState \<Rightarrow> bool" where
  "behaves ad r s resp s' \<longleftrightarrow> (\<exists>x. resp = Some x \<and> formed x) \<and> sec_reach (db_of s) (db_of s') \<and> as_tick s \<le> as_tick s'
     \<and> fst (as_meta s') = fst (as_meta s)
     \<and> (db_of s' = db_of s \<or> \<not> read_request r \<and> (\<exists>k u w. as_tick s \<le> k \<and> k < as_tick s' \<and> session_of ad r (db_of s) k u w \<and> csrf_of ad r w))"

definition writes :: "HRequest \<Rightarrow> ('s, 'n) AdminState \<Rightarrow> admin_response option \<Rightarrow> ('s, 'n) AdminState \<Rightarrow> bool" where
  "writes r s resp s' \<longleftrightarrow> (\<exists>x. resp = Some x \<and> formed x) \<and> sec_reach (db_of s) (db_of s') \<and> as_tick s \<le> as_tick s'
     \<and> fst (as_meta s') = fst (as_meta s) \<and> (read_request r \<longrightarrow> db_of s' = db_of s)"

definition reads :: "('s, 'n) AdminState \<Rightarrow> admin_response option \<Rightarrow> ('s, 'n) AdminState \<Rightarrow> bool" where
  "reads s resp s' \<longleftrightarrow> (\<exists>x. resp = Some x \<and> formed x) \<and> db_of s' = db_of s \<and> as_tick s \<le> as_tick s'
     \<and> fst (as_meta s') = fst (as_meta s)"

named_theorems handler_intros \<open>rules for what handlers do\<close>

lemma ends_reads:
  "ends reads k \<Longrightarrow> ends (behaves ad r) k" "ends reads k \<Longrightarrow> ends (writes r) k"
  by (auto simp: ends_def behaves_def writes_def reads_def intro: sec_reach.start)

lemma reads_reply [handler_intros]: "formed x \<Longrightarrow> ends reads (reply x)"
  by (auto simp: ends_def reads_def reply_def)

lemma sec_result:
  assumes "sec ad f s = (x, s')" "\<And>sv. keeps R (f sv)"
  shows "R (db_of s) (db_of s') \<and> as_tick s' = Suc (as_tick s) \<and> as_meta s' = as_meta s"
  using assms(1) keepsD [OF assms(2), of "services_at ad (as_tick s)" "as_sec s"]
  by (cases "f (services_at ad (as_tick s)) (as_sec s)") (auto simp: sec_def)

lemma reads_answering [handler_intros]:
  assumes "\<And>sv. keeps (=) (f sv)" "\<And>e. formed (bad e)" "\<And>x. formed (good x)"
  shows "ends reads (\<lambda>s. answering (sec ad f s) bad good)"
  using sec_result [where R = "(=)" and f = f, OF _ assms(1)] assms(2,3)
  by (fastforce simp: ends_def reads_def answering_def reply_def split: prod.split sum.split)

lemma writes_answering [handler_intros]:
  assumes "\<not> read_request r" "\<And>sv. keeps sec_reach (f sv)" "\<And>e. formed (bad e)" "\<And>x. formed (good x)"
  shows "ends (writes r) (\<lambda>s. answering (sec ad f s) bad good)"
  using sec_result [where R = sec_reach and f = f, OF _ assms(2)] assms(1,3,4)
  by (fastforce simp: ends_def writes_def answering_def reply_def split: prod.split sum.split)

lemma reads_meta [handler_intros]:
  assumes "keeps (=) f" "\<And>e. formed (bad e)" "\<And>x. formed (good x)"
  shows "ends (reads :: ('s, 'n) AdminState \<Rightarrow> _) (\<lambda>s. answering (meta f s) bad good)"
  unfolding ends_def
proof
  fix s :: "('s, 'n) AdminState"
  obtain x q where "f (as_meta s) = (x, q)" by (cases "f (as_meta s)")
  with keepsD [OF assms(1) this] assms(2,3)
  show "reads s (fst (answering (meta f s) bad good)) (snd (answering (meta f s) bad good))"
    by (auto simp: reads_def answering_def meta_def reply_def split: sum.split)
qed

lemma ends_decoding [handler_intros]:
  "secured h \<Longrightarrow> (\<And>x. ends (writes r) (k x)) \<Longrightarrow> ends (writes r) (decoding d h r' k)"
  by (cases "decodeJSON d r'") (simp_all add: decoding_def ends_reads(2) reads_reply)

lemma ends_user [handler_intros]: "(\<And>u. ends P (k u)) \<Longrightarrow> user \<noteq> None \<Longrightarrow> ends P (with_user user k)"
  by (auto simp: with_user_def)

lemma ends_auth [handler_intros]: "(\<And>a. ends P (k a)) \<Longrightarrow> ad_auth ad \<noteq> None \<Longrightarrow> ends P (with_auth ad k)"
  by (auto simp: with_auth_def)

lemma ends_readMethod [handler_intros]: "secured h \<Longrightarrow> ends reads k \<Longrightarrow> ends reads (readMethod h r k)"
  by (auto simp: readMethod_def intro: reads_reply)

lemma session_authenticate_of:
  assumes "session_authenticate (services_at ad k) secret q = (Inr (u, w), q')" "cookie r ''regstair_session'' = Some secret"
  shows "session_of ad r (fst q) k u w"
proof -
  have "session_live (ad_now ad k) w"
    using assms(1) by (clarsimp simp: session_authenticate_def andthen_Inr, clarsimp split: option.splits,
        clarsimp simp: andthen_Inr split: if_splits, clarsimp split: option.splits, clarsimp split: if_splits)
      (simp add: services_at_def)
  then show ?thesis using session_authenticate_Inr [OF assms(1)] assms(2) by (auto simp: session_of_def services_at_def)
qed

lemma Session_Validate_Inr:
  assumes "sec ad (\<lambda>sv. Session_Validate sv secret (header r ''X-CSRF-Token'')) s = (Inr u, s')" "cookie r ''regstair_session'' = Some secret"
  shows "\<exists>w. session_of ad r (db_of s) (as_tick s) u w \<and> csrf_of ad r w"
proof -
  from assms(1) obtain w q where q: "session_authenticate (services_at ad (as_tick s)) secret (as_sec s) = (Inr (u, w), q)"
    "equalBytes (sv_sha256 (ad_services ad) (header r ''X-CSRF-Token'')) (ws_CSRFTokenHash w)"
    by (auto simp: sec_def Session_Validate_def andthen_Inr services_at_def split: prod.splits if_splits)
  then show ?thesis using session_authenticate_of [OF q(1) assms(2)] by (auto simp: csrf_of_def equalBytes_iff)
qed

lemma ends_csrf [handler_intros]:
  fixes ad :: "('s, 'n) AdminServer"
  assumes "ends (writes r) k" "secured h" "ad_auth ad \<noteq> None"
  shows "ends (behaves ad r) (requireCSRF ad h r k)"
  unfolding ends_def
proof
  fix s :: "('s, 'n) AdminState"
  show "behaves ad r s (fst (requireCSRF ad h r k s)) (snd (requireCSRF ad h r k s))"
  proof (cases "cookie r ''regstair_session''")
    case None
    have "ends (behaves ad r) (reply (writeError h 401 ''authentication required''))"
      using assms(2) by (intro ends_reads(1) reads_reply) simp
    with None show ?thesis by (simp add: requireCSRF_def ends_def)
  next
    case (Some secret)
    obtain a where a: "ad_auth ad = Some a" using assms(3) by auto
    obtain x s1 where v: "sec ad (\<lambda>sv. Session_Validate sv secret (header r ''X-CSRF-Token'')) s = (x, s1)" by fastforce
    have "db_of s = db_of s1 \<and> as_tick s1 = Suc (as_tick s) \<and> as_meta s1 = as_meta s"
      by (rule sec_result [OF v]) (intro keeps_intros preorder_eq)
    then have s1: "db_of s1 = db_of s" "as_tick s1 = Suc (as_tick s)" "as_meta s1 = as_meta s" by simp_all
    show ?thesis
    proof (cases x)
      case (Inl e)
      then show ?thesis using v s1 a Some assms(2)
        by (auto simp: requireCSRF_def reply_def behaves_def intro: sec_reach.start)
    next
      case (Inr u)
      with v Some obtain w where w: "session_of ad r (db_of s) (as_tick s) u w" "csrf_of ad r w"
        using Session_Validate_Inr by blast
      have "writes r s1 (fst (k s1)) (snd (k s1))" using assms(1) by (simp add: ends_def)
      then show ?thesis using Inr v s1 a Some w by (fastforce simp: requireCSRF_def behaves_def writes_def)
    qed
  qed
qed


section \<open>Every handler\<close>

lemma read_methods [simp]: "hreq_Method r = ''POST'' \<Longrightarrow> \<not> read_request r" "hreq_Method r = ''DELETE'' \<Longrightarrow> \<not> read_request r"
  "hreq_Method r = ''PATCH'' \<Longrightarrow> \<not> read_request r"
  by (simp_all add: read_request_def)

lemmas doing = ends_csrf ends_decoding ends_user ends_auth writes_answering keeps_intros
  ends_reads [OF reads_reply] ends_reads(1) [OF reads_answering] ends_reads(1) [OF ends_readMethod] reads_reply reads_answering reads_meta

lemma reads_application [handler_intros]: "secured h \<Longrightarrow> ends reads (handleApplication ad h r)"
  by (auto simp: ends_def reads_def handleApplication_def reply_def random_bytes_def formed_respond Let_def
      split: sum.split prod.split)

lemma reads_asset [handler_intros]: "secured h \<Longrightarrow> ends reads (handleApplicationAsset ad h r)"
  by (auto simp: handleApplicationAsset_def Let_def formed_respond intro!: reads_reply split: sum.split)

lemma behaves_account:
  assumes [simp]: "secured h" and [simp]: "ad_auth ad = Some a0" and [simp]: "user = Some u0"
  shows "ends (behaves ad r) (handleAccount h r user)"
    and "ends (behaves ad r) (handlePasswordChange ad h r user)"
    and "ends (behaves ad r) (handleDockerTokens ad h r user)"
    and "ends (behaves ad r) (handleDockerTokenMutation ad h r user)"
    and "ends (behaves ad r) (handleRegistryCredentials ad h r user)"
  unfolding handleAccount_def handlePasswordChange_def handleDockerTokens_def handleDockerTokenMutation_def Let_def
    handleRegistryCredentials_def
  by (auto simp: case_prod_beta intro!: doing split: option.split)

lemma behaves_logout:
  fixes ad :: "('s, 'n) AdminServer"
  assumes [simp]: "secured h" and [simp]: "ad_auth ad = Some a0"
  shows "ends (behaves ad r) (handleLogout ad h r)"
proof -
  have "ends (writes r) (\<lambda>s. case sec ad (\<lambda>sv. Session_Revoke sv secret) s of
         (_, s) \<Rightarrow> reply (with_cookies clearSessionCookie (noContent h)) s)" if "\<not> read_request r" for secret
  proof -
    have "ends (writes r) (\<lambda>s. answering (sec ad (\<lambda>sv. Session_Revoke sv secret) s)
        (\<lambda>_. with_cookies clearSessionCookie (noContent h)) (\<lambda>_. with_cookies clearSessionCookie (noContent h)))"
      using that by (auto intro!: doing)
    moreover have "(\<lambda>s. answering (sec ad (\<lambda>sv. Session_Revoke sv secret) s)
        (\<lambda>_. with_cookies clearSessionCookie (noContent h)) (\<lambda>_. with_cookies clearSessionCookie (noContent h)))
      = (\<lambda>s :: ('s, 'n) AdminState. case sec ad (\<lambda>sv. Session_Revoke sv secret) s of
         (_, s) \<Rightarrow> reply (with_cookies clearSessionCookie (noContent h)) s)"
      by (auto simp: fun_eq_iff answering_def split: prod.split sum.split)
    ultimately show ?thesis by simp
  qed
  then show ?thesis unfolding handleLogout_def by (auto intro!: doing)
qed


lemma writes_verify:
  assumes "\<not> read_request r" "\<And>e. formed (bad e)" "\<And>x. formed (good x)"
  shows "ends (writes r) (\<lambda>s. answering (verify_and_save ad cv verifier i src name secret s) bad good)"
  using assms by (auto simp: ends_def writes_def answering_def reply_def verify_and_save_def split: prod.split sum.split
      dest!: reach_VerifyAndSave)

lemma behaves_credentials:
  assumes [simp]: "secured h" and [simp]: "ad_auth ad = Some a0" and [simp]: "user = Some u0"
  shows "ends (behaves ad r) (handleRegistryCredentialMutation ad h r user)"
  unfolding handleRegistryCredentialMutation_def Let_def
  by (auto simp: case_prod_beta intro!: doing writes_verify split: option.split)

lemma behaves_users:
  assumes [simp]: "secured h" and [simp]: "ad_auth ad = Some a0"
  shows "ends (behaves ad r) (handleUsers ad h r user)"
    and "ends (behaves ad r) (handleUserMutation ad h r user)"
  unfolding handleUsers_def handleUserMutation_def Let_def
  by (auto intro!: doing reach_edits split: option.split)

lemma keeps_meta [keeps_intros]:
  "keeps (=) (SQL_QueryRequestEvents F jc q)" "keeps (=) (SQL_FindRequestEventByID F jc i)"
  "keeps (=) (SQL_FindProvenance F ref)" "keeps (=) (SQL_ListTagMappings F jc)"
proof -
  have c: "keeps (=) (ctx_err F)" "keeps (=) (lift_result r)" for F and r :: "'z result"
    unfolding ctx_err_def lift_result_def by (auto intro!: keeps_intros split: sum.split)
  show "keeps (=) (SQL_QueryRequestEvents F jc q)" "keeps (=) (SQL_FindRequestEventByID F jc i)"
    "keeps (=) (SQL_FindProvenance F ref)" "keeps (=) (SQL_ListTagMappings F jc)"
    unfolding SQL_QueryRequestEvents_def SQL_FindRequestEventByID_def SQL_FindProvenance_def SQL_ListTagMappings_def Let_def
    by (intro keeps_intros c preorder_eq)+
qed

lemma reads_sec:
  assumes "\<And>sv. keeps (=) (f sv)" "\<And>x. ends reads (k x)"
  shows "ends (reads :: ('s, 'n) AdminState \<Rightarrow> _) (\<lambda>s. case sec ad f s of (x, s) \<Rightarrow> k x s)"
  unfolding ends_def
proof
  fix s :: "('s, 'n) AdminState"
  obtain x s1 where f: "sec ad f s = (x, s1)" by fastforce
  have "reads s1 (fst (k x s1)) (snd (k x s1))" using assms(2) [of x] by (simp add: ends_def)
  with sec_result [OF f assms(1)] f
  show "reads s (fst (case sec ad f s of (x, s) \<Rightarrow> k x s)) (snd (case sec ad f s of (x, s) \<Rightarrow> k x s))"
    by (auto simp: reads_def)
qed

lemma reads_meta_bind:
  assumes "keeps (=) f" "\<And>x. ends reads (k x)"
  shows "ends (reads :: ('s, 'n) AdminState \<Rightarrow> _) (\<lambda>s. case meta f s of (x, s) \<Rightarrow> k x s)"
  unfolding ends_def
proof
  fix s :: "('s, 'n) AdminState"
  obtain x q where f: "f (as_meta s) = (x, q)" by (cases "f (as_meta s)")
  have "reads (s\<lparr>as_meta := q\<rparr>) (fst (k x (s\<lparr>as_meta := q\<rparr>))) (snd (k x (s\<lparr>as_meta := q\<rparr>)))"
    using assms(2) [of x] by (simp add: ends_def)
  with keepsD [OF assms(1) f] f
  show "reads s (fst (case meta f s of (x, s) \<Rightarrow> k x s)) (snd (case meta f s of (x, s) \<Rightarrow> k x s))"
    by (auto simp: reads_def meta_def)
qed

lemma reads_clock: "(\<And>x. ends reads (k x)) \<Longrightarrow> ends reads (\<lambda>s. case clock ad s of (x, s) \<Rightarrow> k x s)"
  unfolding ends_def
proof (rule allI)
  fix s :: "('a, 'b) AdminState"
  assume k: "\<And>x. \<forall>s. reads s (fst (k x s)) (snd (k x s))"
  let ?s = "s\<lparr>as_tick := Suc (as_tick s)\<rparr>"
  have "reads ?s (fst (k (ad_now ad (as_tick s)) ?s)) (snd (k (ad_now ad (as_tick s)) ?s))" using k by blast
  then show "reads s (fst (case clock ad s of (x, s) \<Rightarrow> k x s)) (snd (case clock ad s of (x, s) \<Rightarrow> k x s))"
    by (auto simp: reads_def clock_def)
qed

lemma ends_if: "(b \<Longrightarrow> ends P f) \<Longrightarrow> (\<not> b \<Longrightarrow> ends P g) \<Longrightarrow> ends P (\<lambda>s. if b then f s else g s)"
  by (cases b) simp_all

lemma ends_sum: "(\<And>e. ends P (f e)) \<Longrightarrow> (\<And>x. ends P (g x)) \<Longrightarrow> ends P (\<lambda>s. case r of Inl e \<Rightarrow> f e s | Inr x \<Rightarrow> g x s)"
  by (cases r) auto

lemma ends_option: "ends P f \<Longrightarrow> (\<And>x. ends P (g x)) \<Longrightarrow> ends P (\<lambda>s. case r of None \<Rightarrow> f s | Some x \<Rightarrow> g x s)"
  by (cases r) auto

lemma reads_views [handler_intros]:
  assumes [simp]: "secured h"
  shows "ends reads (handleSourceHealth ad h r)" "ends reads (handleAudit ad h r)" "ends reads (handleRequests ad h r)"
    "ends reads (handleRequestDetail ad h r)" "ends reads (handleProvenance ad h r)" "ends reads (handleArtifacts ad h)"
    "ends reads (handleCache ad h)"
proof -
  show "ends reads (handleSourceHealth ad h r)" unfolding handleSourceHealth_def
    by (intro ends_readMethod reads_clock) (auto simp: ends_def reads_def reply_def split: prod.split)
  show "ends reads (handleAudit ad h r)" unfolding handleAudit_def
    by (intro ends_readMethod reads_sec keeps_intros) (auto intro!: reads_reply)
  show "ends reads (handleRequests ad h r)" unfolding handleRequests_def
    by (auto intro!: reads_clock ends_sum reads_reply reads_meta keeps_meta)
  show "ends reads (handleProvenance ad h r)" unfolding handleProvenance_def
    by (auto intro!: ends_if reads_reply reads_meta keeps_meta split: option.split)
  show "ends reads (handleArtifacts ad h)" unfolding handleArtifacts_def by (auto intro!: reads_meta keeps_meta)
  show "ends reads (handleCache ad h)" unfolding handleCache_def
    by (auto simp: ends_def reads_def reply_def split: option.split sum.split prod.split)
  show "ends reads (handleRequestDetail ad h r)" unfolding handleRequestDetail_def
    by (auto intro!: ends_readMethod ends_sum ends_if reads_reply reads_meta_bind ends_option reads_meta keeps_meta)
qed


section \<open>The access rules\<close>

lemma ends_None_account: "secured h \<Longrightarrow> ends reads (handleAccount h r user)"
  unfolding handleAccount_def by (auto intro!: ends_readMethod reads_reply)

text \<open>Who may be absent where: the handlers of the account paths need a user.\<close>

definition account_path :: "string \<Rightarrow> bool" where
  "account_path path \<longleftrightarrow> HasPrefix path ''/admin/api/account/''"

lemma account_paths:
  "account_path ''/admin/api/account/password''" "account_path ''/admin/api/account/docker-tokens''"
  "account_path ''/admin/api/account/registry-credentials''"
  "HasPrefix path ''/admin/api/account/registry-credentials/'' \<Longrightarrow> account_path path"
  "HasPrefix path ''/admin/api/account/docker-tokens/'' \<Longrightarrow> account_path path"
  by (auto simp: account_path_def prefix_def)

lemma ends_choice: "(b \<Longrightarrow> ends P f) \<Longrightarrow> (\<not> b \<Longrightarrow> ends P g) \<Longrightarrow> ends P (if b then f else g)"
  by simp

lemma behaves_user:
  assumes "secured h" "ad_auth ad \<noteq> None" "user \<noteq> None"
  shows "ends (behaves ad r) (handlePasswordChange ad h r user)" "ends (behaves ad r) (handleDockerTokens ad h r user)"
    "ends (behaves ad r) (handleDockerTokenMutation ad h r user)" "ends (behaves ad r) (handleRegistryCredentials ad h r user)"
    "ends (behaves ad r) (handleRegistryCredentialMutation ad h r user)"
  using assms behaves_account [where ad = ad and h = h and user = user] behaves_credentials [where ad = ad and h = h and user = user]
  by auto

lemma behaves_any:
  assumes "secured h" "ad_auth ad \<noteq> None"
  shows "ends (behaves ad r) (handleLogout ad h r)" "ends (behaves ad r) (handleUsers ad h r user)"
    "ends (behaves ad r) (handleUserMutation ad h r user)" "ends (behaves ad r) (handleAccount h r user)"
    "ends (behaves ad r) (readMethod h r (reply (writeJSON h 200 AHealth)))"
    "ends (behaves ad r) (readMethod h r (reply (writeJSON h 200 (ARegistries v))))"
    "ends (behaves ad r) (reply (writeJSON h 200 (ASources sv)))" "ends (behaves ad r) (reply (writeJSON h 200 (ARoutes rs)))"
    "ends (behaves ad r) (reply (writeError h 404 m))" "ends (behaves ad r) (reply (methodNotAllowed h))"
proof -
  from assms(2) obtain a where "ad_auth ad = Some a" by auto
  then show "ends (behaves ad r) (handleLogout ad h r)" "ends (behaves ad r) (handleUsers ad h r user)"
    "ends (behaves ad r) (handleUserMutation ad h r user)"
    by (simp_all add: behaves_logout behaves_users assms(1))
qed (use assms(1) in \<open>auto intro!: ends_reads(1) ends_None_account ends_readMethod reads_reply\<close>)

lemma behaves_route_path:
  assumes "secured h" "ad_auth ad \<noteq> None" and u: "account_path (hreq_Path r) \<Longrightarrow> user \<noteq> None"
  shows "ends (behaves ad r) (route_path ad h r user)"
  unfolding route_path_def Let_def
  by (intro ends_choice behaves_any behaves_user ends_reads(1) [OF reads_application] ends_reads(1) [OF reads_views(1)]
      ends_reads(1) [OF reads_views(2)] ends_reads(1) [OF reads_views(3)] ends_reads(1) [OF reads_views(5)]
      ends_reads(1) [OF reads_views(6)] ends_reads(1) [OF reads_views(7)] assms(1,2))
    (rule u, simp only: account_paths)+

lemma behaves_admin_route:
  assumes "secured h" "ad_auth ad \<noteq> None" and u: "account_path (hreq_Path r) \<Longrightarrow> user \<noteq> None"
  shows "ends (behaves ad r) (admin_route ad h r user)"
  unfolding admin_route_def Let_def
  by (intro ends_choice behaves_route_path behaves_any behaves_user ends_reads(1) [OF reads_application] ends_reads(1) [OF reads_asset]
      ends_reads(1) [OF reads_views(4)] assms(1,2))
    (rule u, simp add: account_paths)+


text \<open>Requests that go through the access rules.\<close>

definition acts :: "('s, 'n) AdminServer \<Rightarrow> HRequest \<Rightarrow> ('s, 'n) AdminState \<Rightarrow> admin_response option \<Rightarrow> ('s, 'n) AdminState \<Rightarrow> bool" where
  "acts ad r s resp s' \<longleftrightarrow> (\<exists>x. resp = Some x \<and> formed x) \<and> sec_reach (db_of s) (db_of s') \<and> as_tick s \<le> as_tick s'
     \<and> fst (as_meta s') = fst (as_meta s)
     \<and> (db_of s' = db_of s \<or> \<not> read_request r \<and> isAllowedMutationPath (hreq_Path r)
         \<and> (\<exists>k u w. as_tick s \<le> k \<and> k < as_tick s' \<and> session_of ad r (db_of s) k u w \<and> csrf_of ad r w
             \<and> (adminOnlyPath (hreq_Path r) \<longrightarrow> Access u = UserAccessAdmin)))"

lemma session_of_unique: "session_of ad r db k u w \<Longrightarrow> session_of ad r db k' u' w' \<Longrightarrow> u' = u \<and> w' = w"
  by (auto simp: session_of_def)

lemma route_mutates:
  "fst (as_sec (snd (admin_route ad h r user s))) \<noteq> db_of s \<Longrightarrow> read_request r \<or> isAllowedMutationPath (hreq_Path r)"
  by (rule ccontr) (simp add: admin_route_def reply_def)

lemma requireUser_result:
  assumes "requireUser ad h r s = (x, s1)" "secured h" "ad_auth ad \<noteq> None"
  shows "db_of s1 = db_of s \<and> as_meta s1 = as_meta s \<and> as_tick s \<le> as_tick s1
    \<and> (case x of Inl resp \<Rightarrow> \<exists>y. resp = Some y \<and> formed y
        | Inr u \<Rightarrow> as_tick s < as_tick s1 \<and> (\<exists>w. session_of ad r (db_of s) (as_tick s) u w))"
proof (cases "cookie r ''regstair_session''")
  case None
  then show ?thesis using assms by (auto simp: requireUser_def)
next
  case (Some secret)
  obtain y s2 where v: "sec ad (\<lambda>sv. Session_Authenticate sv secret) s = (y, s2)" by fastforce
  have k: "db_of s = db_of s2 \<and> as_tick s2 = Suc (as_tick s) \<and> as_meta s2 = as_meta s"
    by (rule sec_result [OF v]) (intro keeps_intros preorder_eq)
  have "\<exists>w. session_of ad r (db_of s) (as_tick s) u w" if "y = Inr u" for u
  proof -
    from v that obtain w q where "session_authenticate (services_at ad (as_tick s)) secret (as_sec s) = (Inr (u, w), q)"
      by (auto simp: sec_def Session_Authenticate_def andthen_Inr split: prod.splits)
    then show ?thesis using session_authenticate_of [OF _ Some] by blast
  qed
  with assms Some v k show ?thesis by (auto simp: requireUser_def split: sum.splits)
qed

lemma with_session_acts:
  fixes ad :: "('s, 'n) AdminServer"
  assumes [simp]: "secured h" and auth: "ad_auth ad \<noteq> None"
  shows "ends (acts ad r) (with_session ad h r)"
  unfolding ends_def
proof
  fix s :: "('s, 'n) AdminState"
  have same: "acts ad r s (fst (reply x s1)) (snd (reply x s1))"
    if "formed x" "db_of s1 = db_of s" "as_tick s \<le> as_tick s1" "as_meta s1 = as_meta s" for x s1
    using that by (auto simp: acts_def reply_def intro: sec_reach.start)
  obtain x s1 where u: "requireUser ad h r s = (x, s1)" by fastforce
  note res = requireUser_result [OF u assms]
  show "acts ad r s (fst (with_session ad h r s)) (snd (with_session ad h r s))"
  proof (cases x)
    case (Inl resp)
    with res have "acts ad r s resp s1" by (auto simp: acts_def intro: sec_reach.start)
    then show ?thesis using Inl u by (auto simp: with_session_def intro: same)
  next
    case (Inr user)
    with res obtain w where w: "session_of ad r (db_of s) (as_tick s) user w" and tick: "as_tick s < as_tick s1"
      and keep: "db_of s1 = db_of s" "as_meta s1 = as_meta s" by auto
    obtain y s2 where route: "admin_route ad h r (Some user) s1 = (y, s2)" by (cases "admin_route ad h r (Some user) s1")
    with behaves_admin_route [OF assms, of r "Some user"] have b: "behaves ad r s1 y s2" by (auto simp: ends_def dest: spec [of _ s1])
    have "acts ad r s y s2" if admin: "adminOnlyPath (hreq_Path r) \<longrightarrow> Access user = UserAccessAdmin"
    proof (cases "db_of s2 = db_of s")
      case True
      with b keep tick show ?thesis by (auto simp: acts_def behaves_def)
    next
      case False
      with b keep obtain k u w' where c: "\<not> read_request r" "as_tick s1 \<le> k" "k < as_tick s2"
        "session_of ad r (db_of s) k u w'" "csrf_of ad r w'" by (auto simp: behaves_def)
      moreover have "u = user" using session_of_unique [OF w c(4)] by simp
      moreover have "isAllowedMutationPath (hreq_Path r)"
        using route_mutates [of ad h r "Some user" s1] route c(1) False keep by simp
      ultimately have "\<exists>k u w. as_tick s \<le> k \<and> k < as_tick s2 \<and> session_of ad r (db_of s) k u w \<and> csrf_of ad r w
          \<and> (adminOnlyPath (hreq_Path r) \<longrightarrow> Access u = UserAccessAdmin)"
        using tick admin by (intro exI [of _ k] exI [of _ user] exI [of _ w']) auto
      then show ?thesis using b keep tick c(1) \<open>isAllowedMutationPath (hreq_Path r)\<close> by (auto simp: acts_def behaves_def)
    qed
    then show ?thesis using Inr u keep tick route by (auto simp: with_session_def intro: same)
  qed
qed


section \<open>All requests\<close>

definition steps :: "('s, 'n) AdminState \<Rightarrow> admin_response option \<Rightarrow> ('s, 'n) AdminState \<Rightarrow> bool" where
  "steps s resp s' \<longleftrightarrow> (\<exists>x. resp = Some x \<and> formed x) \<and> sec_reach (db_of s) (db_of s') \<and> as_tick s \<le> as_tick s'
     \<and> fst (as_meta s') = fst (as_meta s)"

lemma steps_from:
  "behaves ad r s resp s' \<Longrightarrow> steps s resp s'" "writes r s resp s' \<Longrightarrow> steps s resp s'" "reads s resp s' \<Longrightarrow> steps s resp s'"
  "acts ad r s resp s' \<Longrightarrow> steps s resp s'"
  by (auto simp: steps_def behaves_def writes_def reads_def acts_def intro: sec_reach.start)

lemma steps_after:
  assumes "steps s1 resp s'" "db_of s1 = db_of s" "as_tick s \<le> as_tick s1" "as_meta s1 = as_meta s" shows "steps s resp s'"
  using assms by (auto simp: steps_def)

lemma BootstrapAdmin_Some: "SQL_BootstrapAdmin F now u a s = (Inr x, s') \<Longrightarrow> x \<noteq> None"
  unfolding SQL_BootstrapAdmin_def
  by (auto simp: after_check_Inr results Let_def split: if_splits elim!: transaction_Inr)

lemma Bootstrap_Some: "BootstrapAdminWithProfile sv name password display email s = (Inr x, s') \<Longrightarrow> x \<noteq> None"
  by (auto simp: BootstrapAdminWithProfile_def Let_def andthen_Inr lift_Inr split: if_splits dest: BootstrapAdmin_Some)

lemma AuthenticateWeb_Inr:
  "AuthenticateWeb sv name password s = (Inr u, s') \<Longrightarrow> fst s' = fst s \<and> Enabled u \<and> sv_verify sv (PasswordHash u) password
     \<and> find (\<lambda>u. Username u = name) (t_users (fst s)) = Some u"
  by (clarsimp simp: AuthenticateWeb_def andthen_Inr, clarsimp split: option.splits, clarsimp split: if_splits)
     (auto dest!: find_user_Inr)

lemma ListUsers_Inr: "SQL_ListUsers F s = (Inr us, s') \<Longrightarrow> (us = [] \<longleftrightarrow> t_users (fst s) = [])"
  by (auto simp: SQL_ListUsers_def results) (metis length_0_conv length_sort)

text \<open>The user whose name and password a login carries.\<close>

definition login_of :: "('s, 'n) AdminServer \<Rightarrow> HRequest \<Rightarrow> SecDB \<Rightarrow> nat \<Rightarrow> User \<Rightarrow> bool" where
  "login_of ad r db k u \<longleftrightarrow> (\<exists>name password. decodeJSON (dec_login (ad_decode ad)) r = Inr (name, password)
     \<and> find (\<lambda>u. Username u = name) (t_users db) = Some u \<and> Enabled u \<and> sv_verify (services_at ad k) (PasswordHash u) password)"

lemma session_response_steps:
  assumes "secured h" "st = 200 \<or> st = 201"
  shows "steps s (fst (session_response ad a h st failed user s)) (snd (session_response ad a h st failed user s))"
proof -
  obtain x s1 where c: "sec ad (\<lambda>sv. Session_Create sv (ac_lifetimes a) (usr_ID user)) s = (x, s1)" by fastforce
  have "sec_reach (db_of s) (db_of s1) \<and> as_tick s1 = Suc (as_tick s) \<and> as_meta s1 = as_meta s"
    by (rule sec_result [OF c]) (intro keeps_intros)
  with assms c show ?thesis by (auto simp: session_response_def steps_def reply_def split: sum.split)
qed

lemma steps_reply: "formed x \<Longrightarrow> steps s (fst (reply x s)) (snd (reply x s))"
  by (auto simp: steps_def reply_def intro: sec_reach.start)

lemma login_limiter_keeps:
  "login_Allow ad keys s = (x, s1) \<Longrightarrow> db_of s1 = db_of s \<and> as_meta s1 = as_meta s \<and> as_tick s1 = Suc (as_tick s)"
  "db_of (login_Failure ad keys s) = db_of s \<and> as_meta (login_Failure ad keys s) = as_meta s \<and> as_tick s \<le> as_tick (login_Failure ad keys s)"
  "db_of (login_Success keys s) = db_of s \<and> as_meta (login_Success keys s) = as_meta s \<and> as_tick (login_Success keys s) = as_tick s"
  by (auto simp: login_Allow_def login_Failure_def login_Success_def clock_def split: prod.splits)

lemma handleLogin_steps:
  assumes "secured h" "ad_auth ad \<noteq> None" "handleLogin ad h r s = (resp, s')"
  shows "steps s resp s' \<and> (db_of s' = db_of s \<or> \<not> read_request r
    \<and> (\<exists>k u. as_tick s \<le> k \<and> k < as_tick s' \<and> login_of ad r (db_of s) k u))"
proof -
  obtain a where a: "ad_auth ad = Some a" using assms(2) by auto
  show ?thesis
  proof (cases "hreq_Method r = ''POST''")
    case False
    then show ?thesis using assms by (auto simp: handleLogin_def reply_def steps_def intro: sec_reach.start)
  next
    case post: True
    show ?thesis
    proof (cases "decodeJSON (dec_login (ad_decode ad)) r")
      case (Inl e)
      then show ?thesis using assms post by (auto simp: handleLogin_def reply_def steps_def intro: sec_reach.start)
    next
      case (Inr input)
      obtain name password where input: "input = (name, password)" by fastforce
      let ?keys = "authenticationRateKeys (ad_unicode ad) ''admin'' (hreq_RemoteAddr r) name"
      obtain allowed retry s1 where l: "login_Allow ad ?keys s = ((allowed, retry), s1)" by (metis surj_pair)
      obtain x s2 where w: "sec ad (\<lambda>sv. AuthenticateWeb sv name password) s1 = (x, s2)" by fastforce
      have s2: "db_of s1 = db_of s2 \<and> as_tick s2 = Suc (as_tick s1) \<and> as_meta s2 = as_meta s1"
        by (rule sec_result [OF w]) (intro keeps_intros preorder_eq)
      have h: "(resp, s') = (if \<not> allowed
           then reply (writeError (set_header ''Retry-After'' (FormatInt (max (quo retry second) 1)) h) 429 ''invalid username or password'') s1
           else case x of Inl _ \<Rightarrow> reply (writeError h 401 ''invalid username or password'') (login_Failure ad ?keys s2)
             | Inr u \<Rightarrow> session_response ad a h 200 ''could not create session'' u (login_Success ?keys s2))"
        using assms(3) w by (cases allowed; cases x) (simp_all add: handleLogin_def post Inr input l a)
      show ?thesis
      proof (cases "\<not> allowed \<or> \<not> isOK x")
        case True
        then show ?thesis using h s2 login_limiter_keeps(1) [OF l] login_limiter_keeps(2) [of ad ?keys s2] w assms(1)
          by (auto simp: reply_def steps_def isOK_def intro: sec_reach.start split: if_splits sum.splits)
      next
        case False
        then obtain u where u: "x = Inr u" "allowed" by (auto simp: isOK_iff)
        have "login_of ad r (db_of s) (as_tick s1) u"
          using w u(1) AuthenticateWeb_Inr [of "services_at ad (as_tick s1)" name password "as_sec s1" u] login_limiter_keeps(1) [OF l] Inr input
          by (auto simp: login_of_def sec_def split: prod.splits)
        moreover have "session_response ad a h 200 ''could not create session'' u (login_Success ?keys s2) = (resp, s')"
          using h u by simp
        with session_response_steps [OF assms(1), of 200 "login_Success ?keys s2" ad a "''could not create session''" u]
        have "steps (login_Success ?keys s2) resp s'" by simp
        then have "steps s resp s' \<and> as_tick s1 < as_tick s'"
          using s2 login_limiter_keeps(1) [OF l] login_limiter_keeps(3) [of ?keys s2] by (auto simp: steps_def)
        ultimately show ?thesis using post login_limiter_keeps(1) [OF l] by (auto intro!: exI [of _ "as_tick s1"])
      qed
    qed
  qed
qed


lemma handleSetup_steps:
  assumes [simp]: "secured h" and "ad_auth ad \<noteq> None"
  shows "steps s (fst (handleSetup ad h r s)) (snd (handleSetup ad h r s))"
proof -
  obtain a where a: "ad_auth ad = Some a" using assms(2) by auto
  show ?thesis
  proof (cases "read_request r \<or> hreq_Method r \<noteq> ''POST'' \<or> header r ''X-Regstair-Setup-Token'' \<noteq> ad_setupToken ad
      \<or> \<not> sameOrigin ad r \<or> \<not> isOK (decodeJSON (dec_setup (ad_decode ad)) r)")
    case True
    then show ?thesis by (auto simp: handleSetup_def isOK_def intro!: steps_reply split: sum.splits)
  next
    case False
    then obtain name password display email where d: "decodeJSON (dec_setup (ad_decode ad)) r = Inr (name, password, display, email)"
      by (auto simp: isOK_iff)
    obtain x s1 where c: "sec ad (\<lambda>sv. BootstrapAdminWithProfile sv name password display email) s = (x, s1)" by fastforce
    have s1: "sec_reach (db_of s) (db_of s1) \<and> as_tick s1 = Suc (as_tick s) \<and> as_meta s1 = as_meta s"
      by (rule sec_result [OF c]) (intro keeps_intros)
    have "x \<noteq> Inr None" using c by (auto simp: sec_def dest: Bootstrap_Some split: prod.splits)
    then consider e where "x = Inl e" | u where "x = Inr (Some u)" by (cases x) auto
    then show ?thesis
    proof cases
      case 1
      then show ?thesis using False s1 c by (auto simp: handleSetup_def d a reply_def steps_def)
    next
      case (2 u)
      have "handleSetup ad h r s = session_response ad a h 201 ''administrator created; sign in to continue'' u s1"
        using False c 2 by (simp add: handleSetup_def d a)
      moreover have "steps s1 (fst (session_response ad a h 201 m u s1)) (snd (session_response ad a h 201 m u s1))" for m
        by (rule session_response_steps) simp_all
      ultimately show ?thesis using s1 by (auto simp: steps_def dest: preorder_trans [OF preorder_sec_reach] Suc_leD)
    qed
  qed
qed

text \<open>Who may have changed the security tables.\<close>

definition authorised :: "('s, 'n) AdminServer \<Rightarrow> HRequest \<Rightarrow> ('s, 'n) AdminState \<Rightarrow> ('s, 'n) AdminState \<Rightarrow> bool" where
  "authorised ad r s s' \<longleftrightarrow> \<not> read_request r \<and>
     (hreq_Path r = ''/admin/api/login'' \<and> (\<exists>k u. as_tick s \<le> k \<and> k < as_tick s' \<and> login_of ad r (db_of s) k u)
      \<or> isAllowedMutationPath (hreq_Path r)
        \<and> (\<exists>k u w. as_tick s \<le> k \<and> k < as_tick s' \<and> session_of ad r (db_of s) k u w \<and> csrf_of ad r w
           \<and> (adminOnlyPath (hreq_Path r) \<longrightarrow> Access u = UserAccessAdmin)))"

lemma authorised_mono: "authorised ad r s s' \<Longrightarrow> db_of s = db_of s0 \<Longrightarrow> as_tick s0 \<le> as_tick s \<Longrightarrow> authorised ad r s0 s'"
  by (simp add: authorised_def) (blast intro: order.trans)

definition public_path :: "string \<Rightarrow> bool" where
  "public_path path \<longleftrightarrow> path = ''/login'' \<or> path = ''/regstair-logo.png'' \<or> HasPrefix path ''/admin/static/''
     \<or> HasPrefix path ''/assets/''"

lemma api_paths: "isAllowedMutationPath path \<Longrightarrow> HasPrefix path ''/admin/api/''" "account_path path \<Longrightarrow> HasPrefix path ''/admin/api/''"
proof -
  have t: "HasPrefix path p" if "HasPrefix path q" "HasPrefix q p" for p q
    using that by (rule prefix_order.trans [rotated])
  show "isAllowedMutationPath path \<Longrightarrow> HasPrefix path ''/admin/api/''"
    unfolding isAllowedMutationPath_def by (elim disjE; (erule t)?) simp_all
  show "account_path path \<Longrightarrow> HasPrefix path ''/admin/api/''"
    unfolding account_path_def by (erule t) simp
qed

lemma public_paths: "public_path path \<Longrightarrow> \<not> HasPrefix path ''/admin/api/''"
proof
  assume p: "public_path path" and api: "HasPrefix path ''/admin/api/''"
  have "HasPrefix ''/admin/api/'' q \<or> HasPrefix q ''/admin/api/''" if "HasPrefix path q" for q
    using prefix_same_cases [OF that api] by blast
  from p this [of "''/admin/static/''"] this [of "''/assets/''"] show False
    unfolding public_path_def by (elim disjE) (use api in simp_all)
qed

lemma requiresSession_result:
  assumes "requiresSession ad r s = (b, s1)"
  shows "db_of s1 = db_of s \<and> as_tick s \<le> as_tick s1 \<and> as_meta s1 = as_meta s
    \<and> (\<not> b \<longrightarrow> \<not> account_path (hreq_Path r))
    \<and> (\<not> b \<longrightarrow> t_users (db_of s) \<noteq> [] \<longrightarrow> hreq_Path r \<noteq> ''/admin/api/login'' \<longrightarrow> \<not> isAllowedMutationPath (hreq_Path r))"
proof -
  obtain x s2 where c: "sec ad (\<lambda>sv. SQL_ListUsers (sv_faults sv)) s = (x, s2)" by fastforce
  have s2: "db_of s = db_of s2 \<and> as_tick s2 = Suc (as_tick s) \<and> as_meta s2 = as_meta s"
    by (rule sec_result [OF c]) (intro keeps_intros preorder_eq)
  have e: "x = Inr [] \<Longrightarrow> t_users (db_of s) = []"
    using c by (auto simp: sec_def dest: ListUsers_Inr split: prod.splits)
  have l: "\<not> account_path ''/admin/api/login''" by (simp add: account_path_def)
  show ?thesis
  proof (cases "hreq_Path r = ''/admin/api/login'' \<or> public_path (hreq_Path r)")
    case True
    with assms have "b = False" "s1 = s" by (auto simp: requiresSession_def Let_def public_path_def)
    then show ?thesis using True public_paths api_paths l by auto
  next
    case False
    then have "\<not> (hreq_Path r = ''/login'' \<or> hreq_Path r = ''/admin/api/login'' \<or> hreq_Path r = ''/regstair-logo.png''
       \<or> HasPrefix (hreq_Path r) ''/admin/static/'' \<or> HasPrefix (hreq_Path r) ''/assets/'')"
      by (simp only: public_path_def de_Morgan_disj not_False_eq_True simp_thms)
    with assms c s2 e show ?thesis
      by (cases x) (auto simp: requiresSession_def Let_def account_path_def split: if_splits)
  qed
qed


lemma after_setup_result:
  assumes "after_setup ad h r s = (resp, s')" and h: "secured h" and auth: "ad_auth ad \<noteq> None"
  shows "steps s resp s' \<and> (t_users (db_of s) \<noteq> [] \<longrightarrow> db_of s' = db_of s \<or> authorised ad r s s')"
proof (cases "hreq_Path r = ''/admin/api/login''")
  case True
  with assms(1) auth have "handleLogin ad h r s = (resp, s')" by (simp add: after_setup_def)
  from handleLogin_steps [OF h auth this] True show ?thesis by (auto simp: authorised_def)
next
  case login: False
  obtain b s1 where req: "requiresSession ad r s = (b, s1)" by fastforce
  note q = requiresSession_result [OF req]
  consider "hreq_Path r = ''/login''" | "hreq_Path r \<noteq> ''/login''" "b" | "hreq_Path r \<noteq> ''/login''" "\<not> b" by blast
  then show ?thesis
  proof cases
    case 1
    then have "handleApplication ad h r s = (resp, s')" using assms(1) login auth by (simp add: after_setup_def)
    with reads_application [OF h, of ad r] have "reads s resp s'" by (auto simp: ends_def dest: spec [of _ s])
    then show ?thesis using steps_from(3) by (auto simp: reads_def)
  next
    case 2
    then have "with_session ad h r s1 = (resp, s')" using assms(1) login auth req by (simp add: after_setup_def)
    with with_session_acts [OF h auth, of r] have a: "acts ad r s1 resp s'" by (auto simp: ends_def dest: spec [of _ s1])
    then have "db_of s' = db_of s1 \<or> authorised ad r s1 s'" unfolding acts_def authorised_def by blast
    then show ?thesis using steps_after [OF steps_from(4) [OF a], of s] q authorised_mono [of ad r s1 s' s] by auto
  next
    case 3
    then have route: "admin_route ad h r None s1 = (resp, s')" using assms(1) login auth req by (simp add: after_setup_def)
    with behaves_admin_route [OF h auth, of r None] q 3 have b: "behaves ad r s1 resp s'"
      by (auto simp: ends_def dest: spec [of _ s1])
    have "db_of s' = db_of s1" if "t_users (db_of s) \<noteq> []"
      using b route_mutates [of ad h r None s1] route q 3 login that by (auto simp: behaves_def)
    then show ?thesis using steps_after [OF steps_from(1) [OF b]] q by auto
  qed
qed

lemma handleFirstRun_steps:
  assumes "handleFirstRun ad h r = Some handle" "secured h" "ad_auth ad \<noteq> None"
  shows "steps s (fst (handle s)) (snd (handle s))"
proof -
  have "steps s (fst (handleApplication ad h r s)) (snd (handleApplication ad h r s))"
    using reads_application [OF assms(2), of ad r] by (auto simp: ends_def intro: steps_from(3))
  with assms handleSetup_steps [OF assms(2,3), of s r] show ?thesis
    by (auto simp: handleFirstRun_def Let_def intro!: steps_reply split: if_splits)
qed

lemma serve_result:
  assumes "Admin_ServeHTTP ad r s = (resp, s')" and auth: "ad_auth ad \<noteq> None"
  shows "steps s resp s' \<and> (t_users (db_of s) \<noteq> [] \<longrightarrow> db_of s' = db_of s \<or> authorised ad r s s')"
proof -
  let ?b = "set_header ''X-Regstair-Bootstrap-Required'' ''true'' setSecurityHeaders"
  obtain b s1 where boot: "bootstrapRequired ad s = (b, s1)" by fastforce
  obtain x s2 where c: "sec ad (\<lambda>sv. SQL_ListUsers (sv_faults sv)) s = (x, s2)" by fastforce
  have "db_of s = db_of s2 \<and> as_tick s2 = Suc (as_tick s) \<and> as_meta s2 = as_meta s"
    by (rule sec_result [OF c]) (intro keeps_intros preorder_eq)
  then have keep: "db_of s1 = db_of s" "as_tick s \<le> as_tick s1" "as_meta s1 = as_meta s"
    using boot c by (auto simp: bootstrapRequired_def split: sum.splits)
  have empty: "t_users (db_of s) = []" if b
    using boot c that by (auto simp: bootstrapRequired_def sec_def dest: ListUsers_Inr split: sum.splits prod.splits)
  have later: ?thesis if "after_setup ad h r s1 = (resp, s')" "secured h" for h
    using after_setup_result [OF that auth] steps_after [OF _ keep] authorised_mono [of ad r s1 s' s] keep by auto
  have now: ?thesis if "reply y s1 = (resp, s')" "formed y" for y
    using that steps_after [OF steps_reply [OF that(2), of s1] keep] keep by (auto simp: reply_def)
  show ?thesis
  proof (cases b)
    case True
    show ?thesis
    proof (cases "handleFirstRun ad ?b r")
      case None
      with assms(1) auth boot True later [of ?b] show ?thesis by (auto simp: Admin_ServeHTTP_def Let_def)
    next
      case (Some handle)
      with assms(1) auth boot True have "handle s1 = (resp, s')" by (auto simp: Admin_ServeHTTP_def Let_def)
      with handleFirstRun_steps [OF Some _ auth, of s1] have "steps s1 resp s'" by simp
      then show ?thesis using empty True steps_after [OF _ keep] by simp
    qed
  next
    case False
    with assms(1) auth boot show ?thesis
      by (auto simp: Admin_ServeHTTP_def Let_def split: if_splits elim!: later now)
  qed
qed

end
