(* ===== verification/Admin_Example.thy ===== *)
theory Admin_Example
  imports Admin_Invariants SQLite_Security_Properties
begin

text \<open>
  One concrete server of the administration API, on which the properties are shown to apply: a
  working database and clock, one user root, and a first login.
\<close>

section \<open>A concrete server\<close>

text \<open>A working server whose one user is root; the setup and login forms carry root and its password.\<close>

definition wad :: "(unit, unit) AdminServer" where
  "wad = \<lparr>ad_config = \<lparr>cfg_Version = 1, cfg_Sources = [], cfg_Routes = []\<rparr>, ad_store = None,
     ad_auth = Some \<lparr>ac_lifetimes = \<lparr>sl_idle = 30, sl_absolute = 60\<rparr>, ac_credentials = None\<rparr>,
     ad_connectors = (\<lambda>_. None), ad_setupToken = ''setup'', ad_services = ax_sv, ad_now = (\<lambda>_. 100), ad_dbnow = (\<lambda>_. 100),
     ad_random = (\<lambda>_. sv_random ax_sv), ad_bytes = (\<lambda>_. ph_random px_hasher), ad_metaFaults = (\<lambda>_. None),
     ad_json = \<lparr>jc_Explanation = (\<lambda>_. Inr []), jc_readExplanation = (\<lambda>_. Inr []), jc_Digests = (\<lambda>_. Inr []), jc_readDigests = (\<lambda>_. Inr [])\<rparr>,
     ad_decode = \<lparr>dec_setup = (\<lambda>_. Inr (''root'', ''correct horse battery'', ''Root'', [])),
       dec_login = (\<lambda>_. Inr (''root'', ''correct horse battery'')), dec_password = (\<lambda>_. Inl (errorf [])), dec_token = (\<lambda>_. Inl (errorf [])),
       dec_credential = (\<lambda>_. Inl (errorf [])), dec_confirm = (\<lambda>_. Inr True), dec_user = (\<lambda>_. Inl (errorf [])),
       dec_edit = (\<lambda>_. Inl (errorf [])), dec_reset = (\<lambda>_. Inl (errorf []))\<rparr>,
     ad_asset = (\<lambda>_. Inr []), ad_unicode = ascii_unicode,
     ad_EqualFold = (=), ad_ParseURL = (\<lambda>_. Inl (errorf [])),
     ad_times = \<lparr>tp_RFC3339 = (\<lambda>_. Inl (errorf [])), tp_Minutes = (\<lambda>_. Inl (errorf []))\<rparr>\<rparr>"

definition wst :: "SecDB \<Rightarrow> (unit, unit) AdminState" where
  "wst db = \<lparr>as_sec = (db, 0), as_meta = (empty_meta, 0), as_store = (), as_net = (), as_limiter = None, as_tick = 0\<rparr>"

definition wreq :: "string \<Rightarrow> string \<Rightarrow> (string \<times> string) list \<Rightarrow> HRequest" where
  "wreq m p cs = \<lparr>hreq_Method = m, hreq_Path = p, hreq_Query = [], hreq_Header = [(''X-Regstair-Setup-Token'', ''setup'')], hreq_Cookies = cs,
     hreq_BasicAuth = None, hreq_RemoteAddr = ''10.0.0.1:5000'', hreq_Host = ''localhost'', hreq_Scheme = [], hreq_TLS = True, hreq_Body = []\<rparr>"

lemma wad_services [simp]: "services_at wad k = ax_sv" "ad_services wad = ax_sv"
  by (simp_all add: services_at_def wad_def ax_sv_def)

lemma wad_simps [simp]: "ad_auth wad = Some \<lparr>ac_lifetimes = \<lparr>sl_idle = 30, sl_absolute = 60\<rparr>, ac_credentials = None\<rparr>"
  "ad_now wad k = 100" "ad_setupToken wad = ''setup''"
  by (simp_all add: wad_def)

lemma wst_simps [simp]: "as_sec (wst db) = (db, 0)" "as_tick (wst db) = 0"
  by (simp_all add: wst_def)

definition root_user :: User where "root_user = ax_user\<lparr>PasswordHash := cx_hash ''correct horse battery''\<rparr>"

lemma root_simps: "t_users cx_db = [root_user]" "usr_ID root_user = ''1''" "Username root_user = ''root''" "Enabled root_user"
  "keys_ok (t_users cx_db)" "t_sessions cx_db = []"
  by (simp_all add: cx_db_def ax_db_def ax_user_def root_user_def keys_ok_def empty_db_def)

lemma root_verify: "sv_verify ax_sv (PasswordHash root_user) ''correct horse battery''"
proof -
  have a: "sizes_ok px_argon px_hasher" "params_fit (ph_params px_hasher)"
    by (auto simp: sizes_ok_def px_argon_def px_hasher_def params_fit_def DefaultPasswordParams_def)
  have "Hash px_argon px_hasher ''correct horse battery'' = Inr (cx_hash ''correct horse battery'')"
    using cx_hash [OF cx_valid(1)] by (simp add: sv_hash_def ax_sv_def)
  then have "sv_verify ax_sv (cx_hash ''correct horse battery'') ''correct horse battery''"
    by (rule Verify_own [OF a]) (simp add: sv_verify_def ax_sv_def)
  then show ?thesis by (simp add: root_user_def ax_user_def)
qed

lemma ax_create:
  assumes "t_sessions db = []" "usr_ID ` set (t_users db) = {i}" "i \<noteq> []" "0 < sl_idle L" "0 < sl_absolute L"
  shows "\<exists>issued w. Session_Create ax_sv L i (db, n) = (Inr issued, db\<lparr>t_sessions := [w]\<rparr>, Suc n)"
proof -
  have n: "min a 32 + (32 - a) = 32" for a :: nat by simp
  have h: "hex_EncodeToString (replicate 16 (CHR ''i'')) \<noteq> []" by code_simp
  show ?thesis using assms
    by (simp add: Session_Create_def andthen_def lift_def ax_sv_def randomID_def randomSecret_def ret_def CreateWebSession_def
      after_check_def wrapping_def sql_def insert_session_def validateWebSession_def Let_def fail_def n h) auto
qed

text \<open>A server with this database, clock and login form, whatever else it is made of.\<close>

definition standard :: "('s, 'n) AdminServer \<Rightarrow> bool" where
  "standard ad \<longleftrightarrow> (\<forall>k. services_at ad k = ax_sv) \<and> ad_services ad = ax_sv \<and> (\<forall>k. ad_now ad k = 100)
     \<and> dec_login (ad_decode ad) = (\<lambda>_. Inr (''root'', ''correct horse battery''))"

lemma standardD: "standard ad \<Longrightarrow> services_at ad k = ax_sv" "standard ad \<Longrightarrow> ad_services ad = ax_sv" "standard ad \<Longrightarrow> ad_now ad k = 100"
   "standard ad \<Longrightarrow> decodeJSON (dec_login (ad_decode ad)) r = Inr (''root'', ''correct horse battery'')"
  by (auto simp: standard_def decodeJSON_def)

lemma standard_boot: "standard ad \<Longrightarrow>
  bootstrapRequired ad s = (t_users (db_of s) = [], s\<lparr>as_sec := (db_of s, Suc (snd (as_sec s))), as_tick := Suc (as_tick s)\<rparr>)"
proof -
  assume S: "standard ad"
  have "length (sort_key Username us) = length us" for us by simp
  then have "(sort_key Username us = []) = (us = [])" for us by (metis length_0_conv)
  then show ?thesis by (simp add: bootstrapRequired_def sec_def SQL_ListUsers_def wrapping_def query_def sql_def standardD [OF S]) (simp add: ax_sv_def)
qed

lemma standard_signs_in:
  assumes S: "standard ad" and "0 < sl_idle (ac_lifetimes a)" "0 < sl_absolute (ac_lifetimes a)"
    and that: "t_sessions (db_of s) = []" "t_users (db_of s) = [u]" "usr_ID u \<noteq> []"
  shows "\<exists>resp s1 w t. session_response ad a h st failed u s = (Some resp, s1)
     \<and> hres_Status resp = st \<and> hres_Body resp = ALogin (public_user u) t \<and> as_tick s1 = Suc (as_tick s) \<and> db_of s1 = (db_of s)\<lparr>t_sessions := [w]\<rparr>"
proof -
  have "usr_ID ` set (t_users (db_of s)) = {usr_ID u}" using that by simp
  from ax_create [OF that(1) this that(3) assms(2,3), of "snd (as_sec s)"]
  obtain issued w where "Session_Create ax_sv (ac_lifetimes a) (usr_ID u) (as_sec s)
      = (Inr issued, (db_of s)\<lparr>t_sessions := [w]\<rparr>, Suc (snd (as_sec s)))"
    unfolding prod.collapse by blast
  then show ?thesis by (simp add: session_response_def sec_def reply_def with_cookies_def writeJSON_def standardD [OF S]) (rule exI [of _ w], rule refl)
qed

lemma wad_standard: "standard wad"
  by (simp add: standard_def) (simp add: wad_def)

definition w_login :: HRequest where "w_login = wreq ''POST'' ''/admin/api/login'' []"

lemma standard_login:
  assumes S: "standard ad" and a: "ad_auth ad = Some a" and s: "as_sec s = (cx_db, n)" "as_limiter s = None"
  shows "Admin_ServeHTTP ad w_login s
    = session_response ad a setSecurityHeaders 200
        ''could not create session'' root_user (s\<lparr>as_sec := (cx_db, Suc (Suc (Suc n))), as_tick := Suc (Suc (Suc (as_tick s))), as_limiter := None\<rparr>)"
proof -
  have v: "AuthenticateWeb ax_sv ''root'' ''correct horse battery'' (cx_db, n) = (Inr root_user, cx_db, n + 2)" for n
    by (simp add: AuthenticateWeb_def andthen_def working_lookups [OF ax_simps(6)] root_simps root_verify ret_def)
  have m: "hreq_Method w_login = ''POST''" "hreq_Path w_login = ''/admin/api/login''" by (simp_all add: w_login_def wreq_def)
  show ?thesis
    by (simp add: Admin_ServeHTTP_def Let_def standard_boot [OF S] root_simps after_setup_def handleLogin_def m standardD [OF S] login_Allow_def clock_def
        s a Allow_def sec_def v login_Success_def Success_def)
qed


lemma w_login_eval:
  "Admin_ServeHTTP wad w_login (wst cx_db)
    = session_response wad \<lparr>ac_lifetimes = \<lparr>sl_idle = 30, sl_absolute = 60\<rparr>, ac_credentials = None\<rparr> setSecurityHeaders 200
        ''could not create session'' root_user ((wst cx_db)\<lparr>as_sec := (cx_db, Suc (Suc (Suc 0))), as_tick := Suc (Suc (Suc 0))\<rparr>)"
  by (simp add: standard_login [OF wad_standard wad_simps(1)] wst_def)

lemma w_login: "\<exists>resp s1 w t. Admin_ServeHTTP wad w_login (wst cx_db) = (Some resp, s1) \<and> hres_Status resp = 200
    \<and> hres_Body resp = ALogin (public_user root_user) t
    \<and> db_of s1 = cx_db\<lparr>t_sessions := [w]\<rparr>"
  unfolding w_login_eval
  using standard_signs_in [OF wad_standard, of "\<lparr>ac_lifetimes = \<lparr>sl_idle = 30, sl_absolute = 60\<rparr>, ac_credentials = None\<rparr>" "(wst cx_db)\<lparr>as_sec := (cx_db, Suc (Suc (Suc 0))), as_tick := Suc (Suc (Suc 0))\<rparr>" root_user
      setSecurityHeaders 200 "''could not create session''"]
  by (auto simp: root_simps)

definition w_account :: "(string \<times> string) list \<Rightarrow> HRequest" where "w_account cs = wreq ''GET'' ''/admin/api/account'' cs"

lemma w_requests: "hreq_Path w_login = ''/admin/api/login''" "hreq_Path (w_account cs) = ''/admin/api/account''"
  "hreq_Method (w_account cs) = ''GET''" "hreq_Cookies (w_account cs) = cs"
  by (simp_all add: w_login_def w_account_def wreq_def)

definition w_logout :: "(string \<times> string) list \<Rightarrow> string \<Rightarrow> HRequest" where
  "w_logout cs csrf = (wreq ''POST'' ''/admin/api/logout'' cs)\<lparr>hreq_Header := [(''X-CSRF-Token'', csrf)]\<rparr>"

lemma w_logout_simps: "hreq_Path (w_logout cs csrf) = ''/admin/api/logout''" "hreq_Method (w_logout cs csrf) = ''POST''"
  "hreq_Cookies (w_logout cs csrf) = cs" "header (w_logout cs csrf) ''X-CSRF-Token'' = csrf"
  by (simp_all add: w_logout_def wreq_def header_def)

lemma boot_user:
  "\<exists>u db. BootstrapAdminWithProfile ax_sv ''root'' ''correct horse battery'' ''Root'' [] (empty_db, n) = (Inr (Some u), db, n + 5)
    \<and> usr_ID u \<noteq> [] \<and> t_users db = [u] \<and> t_sessions db = []"
proof -
  have t: "TrimSpace ''root'' = ''root''" "TrimSpace ''Root'' = ''Root''" "TrimSpace [] = []"
    "TrimSpace (hex_EncodeToString (replicate 16 (CHR ''i''))) = hex_EncodeToString (replicate 16 (CHR ''i''))"
    "hex_EncodeToString (replicate 16 (CHR ''i'')) \<noteq> []" by code_simp+
  have F: "sv_faults ax_sv k = None" "sv_dbnow ax_sv = 100" "sv_random ax_sv 0 16 = Inr (replicate 16 (CHR ''i''))" for k by (simp_all add: ax_sv_def)
  have v: "ValidateAuditDetails [] = Inr ()" by code_simp
  show ?thesis
    by (simp add: BootstrapAdminWithProfile_def t Let_def andthen_def lift_def cx_hash [OF cx_valid(1)] cx_hash_ne randomID_def F ret_def
      SQL_BootstrapAdmin_def after_check_def validateUser_def validateAuditEvent_def user_audit_def v transaction_def
      wrapping_def query_def sql_def insert_user_def insertAuditEvent_def empty_db_def)
qed

definition w_setup :: HRequest where "w_setup = wreq ''POST'' ''/admin/api/setup'' []"
definition w_users :: "(string \<times> string) list \<Rightarrow> HRequest" where "w_users cs = wreq ''GET'' ''/admin/api/users'' cs"

lemma w_setup: "\<exists>resp s1. Admin_ServeHTTP wad w_setup (wst empty_db) = (Some resp, s1) \<and> hres_Status resp = 201"
proof -
  have d: "decodeJSON (dec_setup (ad_decode wad)) r = Inr (''root'', ''correct horse battery'', ''Root'', [])" for r
    by (simp add: decodeJSON_def wad_def)
  have m: "hreq_Method w_setup = ''POST''" "hreq_Path w_setup = ''/admin/api/setup''" "header w_setup ''X-Regstair-Setup-Token'' = ''setup''"
    "header w_setup ''Origin'' = []" by (simp_all add: w_setup_def wreq_def header_def)
  have e: "t_users empty_db = []" by (simp add: empty_db_def)
  obtain u db where b: "BootstrapAdminWithProfile ax_sv ''root'' ''correct horse battery'' ''Root'' [] (empty_db, Suc 0) = (Inr (Some u), db, Suc 0 + 5)"
    "usr_ID u \<noteq> []" "t_users db = [u]" "t_sessions db = []" using boot_user by blast
  let ?s = "(wst empty_db)\<lparr>as_sec := (db, Suc 0 + 5), as_tick := Suc (Suc 0)\<rparr>"
  have "Admin_ServeHTTP wad w_setup (wst empty_db)
    = session_response wad \<lparr>ac_lifetimes = \<lparr>sl_idle = 30, sl_absolute = 60\<rparr>, ac_credentials = None\<rparr>
        (set_header ''X-Regstair-Bootstrap-Required'' ''true'' setSecurityHeaders) 201
        ''administrator created; sign in to continue'' u ?s"
    by (simp add: Admin_ServeHTTP_def Let_def standard_boot [OF wad_standard] e handleFirstRun_def m handleSetup_def read_request_def d sameOrigin_def sec_def b wst_def)
  then show ?thesis using standard_signs_in [OF wad_standard, of "\<lparr>ac_lifetimes = \<lparr>sl_idle = 30, sl_absolute = 60\<rparr>, ac_credentials = None\<rparr>" ?s u "set_header ''X-Regstair-Bootstrap-Required'' ''true'' setSecurityHeaders" 201
      "''administrator created; sign in to continue''"] b by auto
qed

end
