(* ===== verification/Admin_Properties.thy ===== *)
theory Admin_Properties
  imports Admin_Example
begin

text \<open>
  Properties of the administration API: the form of its responses, who may change the security
  tables and who sees what, the first run, and the pages of the request history.
\<close>

section \<open>Responses\<close>



section \<open>Changes\<close>



section \<open>Reading\<close>

text \<open>Documents for anyone, and what a user may see of the others.\<close>

fun public_body :: "admin_body \<Rightarrow> bool" where
  "public_body (ASetup t) = False"
| "public_body (ALogin u t) = False"
| "public_body (AAccount u) = False"
| "public_body (AUsers us) = False"
| "public_body (ATokens ts) = False"
| "public_body (AIssued i) = False"
| "public_body (ACredentials cs) = False"
| "public_body (ACredential c) = False"
| "public_body (ASources vs) = False"
| "public_body (ARoutes rs) = False"
| "public_body (ARegistries vs) = False"
| "public_body (ASourceHealth vs t) = False"
| "public_body (ARequests es c) = False"
| "public_body (ARequest v p) = False"
| "public_body (AProvenance p) = False"
| "public_body (AArtifacts xs) = False"
| "public_body (ABlobs bs) = False"
| "public_body (AAudit es ls) = False"
| "public_body b = True"

fun sees :: "User \<Rightarrow> admin_body \<Rightarrow> bool" where
  "sees u (ASetup t) = False"
| "sees u (ALogin x t) = False"
| "sees u (ATokens ts) = (\<forall>t \<in> set ts. dt_UserID t = usr_ID u)"
| "sees u (AIssued i) = (dt_UserID (is_Token i) = usr_ID u)"
| "sees u (AAccount x) = (Access u = UserAccessAdmin \<or> x = Some (public_user u))"
| "sees u (ACredentials cs) = True"
| "sees u (ACredential c) = True"
| "sees u (ARegistries vs) = True"
| "sees u b = (public_body b \<or> Access u = UserAccessAdmin)"

definition shows_only :: "(admin_body \<Rightarrow> bool) \<Rightarrow> ('s, 'n) handler \<Rightarrow> bool" where
  "shows_only Q k \<longleftrightarrow> (\<forall>s x. fst (k s) = Some x \<longrightarrow> Q (hres_Body x))"

named_theorems shows_intros \<open>rules for what handlers show\<close>

lemma body_simps [simp]:
  "hres_Body (writeJSON h st b) = b" "hres_Body (writeError h st m) = AError m" "hres_Body (methodNotAllowed h) = AError ''method not allowed''"
  "hres_Body (with_cookies cs resp) = hres_Body resp" "hres_Body (noContent h) = ANone"
  by (simp_all add: writeJSON_def writeError_def methodNotAllowed_def with_cookies_def noContent_def)

lemma shows_reply [shows_intros]: "Q (hres_Body x) \<Longrightarrow> shows_only Q (reply x)"
  by (simp add: shows_only_def reply_def)

lemma shows_answering [shows_intros]:
  "(\<And>e. Q (hres_Body (bad e))) \<Longrightarrow> (\<And>sv q x q'. f sv q = (Inr x, q') \<Longrightarrow> Q (hres_Body (good x)))
    \<Longrightarrow> shows_only Q (\<lambda>s. answering (sec ad f s) bad good)"
  by (auto simp: shows_only_def answering_def sec_def reply_def split: prod.splits sum.splits)

lemma shows_decoding [shows_intros]: "Q (AError ''invalid request'') \<Longrightarrow> (\<And>x. shows_only Q (k x)) \<Longrightarrow> shows_only Q (decoding d h r k)"
  by (auto simp: decoding_def intro!: shows_reply split: sum.split)

lemma shows_user [shows_intros]: "shows_only Q (k u) \<Longrightarrow> shows_only Q (with_user (Some u) k)"
  by (simp add: with_user_def)

lemma shows_auth [shows_intros]: "(\<And>a. shows_only Q (k a)) \<Longrightarrow> shows_only Q (with_auth ad k)"
  by (auto simp: with_auth_def shows_only_def crash_def split: option.split)

lemma shows_readMethod [shows_intros]: "Q (AError ''method not allowed'') \<Longrightarrow> shows_only Q k \<Longrightarrow> shows_only Q (readMethod h r k)"
  by (auto simp: readMethod_def intro!: shows_reply)

lemma shows_csrf [shows_intros]:
  "Q (AError ''authentication required'') \<Longrightarrow> Q (AError ''invalid CSRF token'') \<Longrightarrow> shows_only Q k \<Longrightarrow> shows_only Q (requireCSRF ad h r k)"
  by (auto simp: shows_only_def requireCSRF_def reply_def crash_def split: option.split sum.splits prod.splits)

lemma shows_if [shows_intros]: "(b \<Longrightarrow> shows_only Q f) \<Longrightarrow> (\<not> b \<Longrightarrow> shows_only Q g) \<Longrightarrow> shows_only Q (if b then f else g)"
  by simp

lemma shows_application: "shows_only public_body (handleApplication ad h r)" "shows_only (sees u) (handleApplication ad h r)"
  by (auto simp: shows_only_def handleApplication_def reply_def Let_def split: if_splits sum.splits prod.splits)

lemma shows_asset: "shows_only public_body (handleApplicationAsset ad h r)" "shows_only (sees u) (handleApplicationAsset ad h r)"
  by (auto simp: shows_only_def handleApplicationAsset_def reply_def Let_def split: if_splits sum.splits)

lemma Token_List_owner: "Token_List sv i q = (Inr ts, q') \<Longrightarrow> t \<in> set ts \<Longrightarrow> dt_UserID t = i"
  by (auto simp: Token_List_def ListDockerTokensForUser_def results)

lemma Token_Issue_owner: "Token_Issue sv i label life q = (Inr issued, q') \<Longrightarrow> dt_UserID (is_Token issued) = i"
  by (auto simp: Token_Issue_def Let_def andthen_Inr lift_Inr split: if_splits dest!: CreateDockerTokenWithAudit_Inr)

lemma shows_verify [shows_intros]:
  "(\<And>e. Q (hres_Body (bad e))) \<Longrightarrow> (\<And>x. Q (hres_Body (good x)))
    \<Longrightarrow> shows_only Q (\<lambda>s. answering (verify_and_save ad cv v i src name secret s) bad good)"
  by (auto simp: shows_only_def answering_def reply_def split: prod.splits sum.splits)

lemma shows_meta [shows_intros]:
  "(\<And>e. Q (hres_Body (bad e))) \<Longrightarrow> (\<And>x. Q (hres_Body (good x))) \<Longrightarrow> shows_only Q (\<lambda>s. answering (meta f s) bad good)"
  by (auto simp: shows_only_def answering_def reply_def split: prod.splits sum.splits)

lemma shows_bind [shows_intros]:
  "(\<And>x. shows_only Q (k x)) \<Longrightarrow> shows_only Q (\<lambda>s. case sec ad f s of (x, s) \<Rightarrow> k x s)"
  "(\<And>x. shows_only Q (k x)) \<Longrightarrow> shows_only Q (\<lambda>s. case meta g s of (x, s) \<Rightarrow> k x s)"
  "(\<And>x. shows_only Q (k' x)) \<Longrightarrow> shows_only Q (\<lambda>s. case clock ad s of (x, s) \<Rightarrow> k' x s)"
  by (auto simp: shows_only_def split: prod.splits)

lemma shows_cases [shows_intros]:
  "(\<And>e. shows_only Q (f e)) \<Longrightarrow> (\<And>x. shows_only Q (g x)) \<Longrightarrow> shows_only Q (\<lambda>s. case r of Inl e \<Rightarrow> f e s | Inr x \<Rightarrow> g x s)"
  "shows_only Q f' \<Longrightarrow> (\<And>x. shows_only Q (g x)) \<Longrightarrow> shows_only Q (\<lambda>s. case o' of None \<Rightarrow> f' s | Some x \<Rightarrow> g x s)"
  "(b \<Longrightarrow> shows_only Q f') \<Longrightarrow> (\<not> b \<Longrightarrow> shows_only Q g') \<Longrightarrow> shows_only Q (\<lambda>s. if b then f' s else g' s)"
  by (auto simp: shows_only_def split: sum.splits option.splits)

lemma shows_later [shows_intros]: "Q (hres_Body x) \<Longrightarrow> shows_only Q (\<lambda>s. reply x (f s))"
  by (simp add: shows_only_def reply_def)

lemma error_bodies [simp]:
  "hres_Body (writeCredentialError h e) = (case map_of public_messages (err_text e) of
     Some m \<Rightarrow> ACodedError (err_text e) m | None \<Rightarrow> ACodedError ''internal_error'' ''The credential operation could not be completed.'')"
  "public_body (hres_Body (writeAccountMutationError h e))" "sees u (hres_Body (writeAccountMutationError h e))"
  "hres_Body (written_user h st x) = AAccount (map_option public_user x)"
  by (auto simp: writeCredentialError_def writeAccountMutationError_def written_user_def split: option.split)

lemma shows_own:
  "shows_only (sees u) (handleAccount h r (Some u))" "shows_only (sees u) (handleLogout ad h r)"
  "shows_only (sees u) (handlePasswordChange ad h r (Some u))" "shows_only (sees u) (handleDockerTokens ad h r (Some u))"
  "shows_only (sees u) (handleDockerTokenMutation ad h r (Some u))" "shows_only (sees u) (handleRegistryCredentials ad h r (Some u))"
  "shows_only (sees u) (handleRegistryCredentialMutation ad h r (Some u))"
  unfolding handleAccount_def handleLogout_def handlePasswordChange_def handleDockerTokens_def handleDockerTokenMutation_def
    handleRegistryCredentials_def handleRegistryCredentialMutation_def Let_def
  by (auto simp: case_prod_beta public_token_def intro!: shows_intros dest: Token_List_owner Token_Issue_owner split: option.split)

lemma shows_admin:
  assumes "Access u = UserAccessAdmin"
  shows "shows_only (sees u) (handleSourceHealth ad h r)" "shows_only (sees u) (handleAudit ad h r)" "shows_only (sees u) (handleRequests ad h r)"
    "shows_only (sees u) (handleRequestDetail ad h r)" "shows_only (sees u) (handleProvenance ad h r)" "shows_only (sees u) (handleArtifacts ad h)"
    "shows_only (sees u) (handleCache ad h)"
  unfolding handleSourceHealth_def handleAudit_def handleRequests_def handleRequestDetail_def handleProvenance_def
    handleArtifacts_def handleCache_def
  by (intro shows_intros; auto simp: assms shows_only_def reply_def split: option.splits sum.splits prod.splits if_splits)+

lemma shows_users:
  "shows_only (sees u) (handleUsers ad h r (Some u))" "shows_only (sees u) (handleUserMutation ad h r (Some u))"
  unfolding handleUsers_def handleUserMutation_def found_user_def Let_def
  by (auto intro!: shows_intros split: option.split)

text \<open>The routes, for a user who may be on the path, and for a path without a session.\<close>

lemma shows_route:
  assumes "adminOnlyPath (hreq_Path r) \<Longrightarrow> Access u = UserAccessAdmin"
  shows "shows_only (sees u) (route_path ad h r (Some u))"
proof -
  have a: "shows_only (sees u) k" if "hreq_Path r = path" "adminOnlyPath path" "Access u = UserAccessAdmin \<Longrightarrow> shows_only (sees u) k"
    for path and k :: "('a, 'b) handler"
    using assms that by simp
  show ?thesis unfolding route_path_def Let_def
    by (intro shows_if shows_own shows_users shows_application shows_readMethod)
      ((rule shows_reply)?, (simp; fail) | (erule a, simp add: adminOnlyPath_def, (intro shows_admin shows_reply; simp)))+
qed

lemma prefix_apart: "HasPrefix path p \<Longrightarrow> HasPrefix path q \<Longrightarrow> HasPrefix p q \<or> HasPrefix q p"
  by (rule prefix_same_cases)

lemma admin_prefixes:
  assumes "HasPrefix path ''/admin/api/requests/''" shows "adminOnlyPath path"
proof -
  have "\<not> HasPrefix path ''/admin/api/account/''"
    using prefix_apart [OF assms, of "''/admin/api/account/''"] by auto
  then show ?thesis using assms by (auto simp: adminOnlyPath_def)
qed

lemma shows_admin_route:
  assumes "adminOnlyPath (hreq_Path r) \<Longrightarrow> Access u = UserAccessAdmin"
  shows "shows_only (sees u) (admin_route ad h r (Some u))"
  unfolding admin_route_def Let_def
  by (intro shows_if shows_own shows_users shows_application shows_asset shows_route assms shows_reply)
    (simp_all add: shows_admin(4) admin_prefixes assms)

lemma shows_public_route:
  assumes "public_path (hreq_Path r)"
  shows "shows_only public_body (admin_route ad h r None)"
proof -
  have api: "\<not> HasPrefix (hreq_Path r) p" if "HasPrefix p ''/admin/api/''" for p
    using public_paths [OF assms] that prefix_order.trans by blast
  have other: "hreq_Path r \<noteq> p" if "HasPrefix p ''/admin/api/''" for p
    using public_paths [OF assms] that by metis
  show ?thesis unfolding admin_route_def route_path_def Let_def
    by (intro shows_if shows_application shows_asset shows_reply) (simp_all add: api other)
qed

definition entitled :: "('s, 'n) AdminServer \<Rightarrow> HRequest \<Rightarrow> SecDB \<Rightarrow> nat \<Rightarrow> admin_body \<Rightarrow> bool" where
  "entitled ad r db n b \<longleftrightarrow> public_body b
     \<or> (\<exists>k u w. n \<le> k \<and> session_of ad r db k u w \<and> sees u b)
     \<or> hreq_Path r = ''/admin/api/login'' \<and> (\<exists>k u t. n \<le> k \<and> login_of ad r db k u \<and> b = ALogin (public_user u) t)"

lemma entitled_earlier: "entitled ad r db n b \<Longrightarrow> m \<le> n \<Longrightarrow> entitled ad r db m b"
  unfolding entitled_def using le_trans [of m n] by blast

lemma entitled_intros:
  "public_body b \<Longrightarrow> entitled ad r db n b" "session_of ad r db n u w \<Longrightarrow> sees u b \<Longrightarrow> entitled ad r db n b"
  unfolding entitled_def by blast+

lemma shows_session:
  assumes "with_session ad h r s = (Some resp, s')" "secured h" "ad_auth ad \<noteq> None"
  shows "entitled ad r (db_of s) (as_tick s) (hres_Body resp)"
proof -
  obtain x s1 where u: "requireUser ad h r s = (x, s1)" by fastforce
  note res = requireUser_result [OF u assms(2,3)]
  show ?thesis
  proof (cases x)
    case (Inl y)
    then show ?thesis using assms(1) u
      by (auto simp: with_session_def requireUser_def reply_def redirect_def intro!: entitled_intros(1) split: if_splits option.splits sum.splits prod.splits)
  next
    case (Inr user)
    have "sees user (hres_Body resp)" if "admin_route ad h r (Some user) s1 = (Some resp, s')"
      "adminOnlyPath (hreq_Path r) \<Longrightarrow> Access user = UserAccessAdmin"
      using shows_admin_route [where r = r and ad = ad and h = h, OF that(2)] that(1) by (auto simp: shows_only_def dest: spec [of _ s1])
    with Inr res have "entitled ad r (db_of s) (as_tick s) (hres_Body resp)" if "admin_route ad h r (Some user) s1 = (Some resp, s')"
      "adminOnlyPath (hreq_Path r) \<Longrightarrow> Access user = UserAccessAdmin" using that by (auto intro: entitled_intros(2))
    with Inr u assms(1) show ?thesis
      by (auto simp: with_session_def reply_def redirect_def intro!: entitled_intros(1) split: if_splits)
  qed
qed


lemma session_response_shows:
  assumes "session_response ad a h st failed u s = (Some resp, s')"
  shows "public_body (hres_Body resp) \<or> (\<exists>t. hres_Body resp = ALogin (public_user u) t)"
  using assms by (auto simp: session_response_def reply_def split: prod.splits sum.splits)

lemma login_shows:
  assumes "handleLogin ad h r s = (Some resp, s')"
  shows "public_body (hres_Body resp)
    \<or> (\<exists>k u t. as_tick s \<le> k \<and> login_of ad r (db_of s) k u \<and> hres_Body resp = ALogin (public_user u) t)"
proof (cases "hreq_Method r = ''POST''")
  case False
  then show ?thesis using assms by (auto simp: handleLogin_def reply_def)
next
  case post: True
  show ?thesis
  proof (cases "decodeJSON (dec_login (ad_decode ad)) r")
    case (Inl e)
    then show ?thesis using assms post by (auto simp: handleLogin_def reply_def)
  next
    case (Inr input)
    obtain name password where input: "input = (name, password)" by fastforce
    let ?keys = "authenticationRateKeys (ad_unicode ad) ''admin'' (hreq_RemoteAddr r) name"
    obtain allowed retry s1 where l: "login_Allow ad ?keys s = ((allowed, retry), s1)" by (metis surj_pair)
    obtain x s2 where w: "sec ad (\<lambda>sv. AuthenticateWeb sv name password) s1 = (x, s2)" by fastforce
    show ?thesis
    proof (cases "allowed \<and> ad_auth ad \<noteq> None \<and> isOK x")
      case False
      then show ?thesis using assms post Inr input l w
        by (auto simp: handleLogin_def Let_def reply_def crash_def isOK_def split: if_splits option.splits sum.splits)
    next
      case True
      then obtain a u where a: "ad_auth ad = Some a" and u: "x = Inr u" "allowed" by (auto simp: isOK_iff)
      have "login_of ad r (db_of s) (as_tick s1) u"
        using w u(1) AuthenticateWeb_Inr [of "services_at ad (as_tick s1)" name password "as_sec s1" u] login_limiter_keeps(1) [OF l] Inr input
        by (auto simp: login_of_def sec_def split: prod.splits)
      moreover have "session_response ad a h 200 ''could not create session'' u (login_Success ?keys s2) = (Some resp, s')"
        using assms w u by (simp add: handleLogin_def post Inr input l a)
      moreover have "as_tick s \<le> as_tick s1" using login_limiter_keeps(1) [OF l] by simp
      ultimately show ?thesis using session_response_shows [of ad a h 200 "''could not create session''" u] by blast
    qed
  qed
qed

lemma requiresSession_public:
  assumes "requiresSession ad r s = (False, s1)" "t_users (db_of s) \<noteq> []" "hreq_Path r \<noteq> ''/admin/api/login''"
  shows "public_path (hreq_Path r)"
proof (rule ccontr)
  assume "\<not> public_path (hreq_Path r)"
  with assms(3) have p: "\<not> (hreq_Path r = ''/login'' \<or> hreq_Path r = ''/admin/api/login'' \<or> hreq_Path r = ''/regstair-logo.png''
       \<or> HasPrefix (hreq_Path r) ''/admin/static/'' \<or> HasPrefix (hreq_Path r) ''/assets/'')"
    by (simp only: public_path_def de_Morgan_disj not_False_eq_True simp_thms)
  obtain x s2 where c: "sec ad (\<lambda>sv. SQL_ListUsers (sv_faults sv)) s = (x, s2)" by fastforce
  have "x \<noteq> Inr []" using c assms(2) by (auto simp: sec_def dest: ListUsers_Inr split: prod.splits)
  with p c assms(1) show False by (cases x) (auto simp: requiresSession_def Let_def split: if_splits)
qed

lemma after_setup_shows:
  assumes "after_setup ad h r s = (Some resp, s')" and h: "secured h" and auth: "ad_auth ad \<noteq> None" and users: "t_users (db_of s) \<noteq> []"
  shows "entitled ad r (db_of s) (as_tick s) (hres_Body resp)"
proof (cases "hreq_Path r = ''/admin/api/login''")
  case True
  with assms(1) auth have "handleLogin ad h r s = (Some resp, s')" by (simp add: after_setup_def)
  from login_shows [OF this] True show ?thesis unfolding entitled_def by blast
next
  case login: False
  obtain b s1 where req: "requiresSession ad r s = (b, s1)" by fastforce
  note q = requiresSession_result [OF req]
  consider "hreq_Path r = ''/login''" | "hreq_Path r \<noteq> ''/login''" "b" | "hreq_Path r \<noteq> ''/login''" "\<not> b" by blast
  then show ?thesis
  proof cases
    case 1
    then have "handleApplication ad h r s = (Some resp, s')" using assms(1) login auth by (simp add: after_setup_def)
    with shows_application(1) [of ad h r] show ?thesis by (auto simp: entitled_def shows_only_def dest: spec [of _ s])
  next
    case 2
    then have "with_session ad h r s1 = (Some resp, s')" using assms(1) login auth req by (simp add: after_setup_def)
    from shows_session [OF this h auth] q show ?thesis by (simp add: entitled_earlier)
  next
    case 3
    then have route: "admin_route ad h r None s1 = (Some resp, s')" using assms(1) login auth req by (simp add: after_setup_def)
    have "public_path (hreq_Path r)" using req 3 login users by (auto intro: requiresSession_public)
    with shows_public_route [of r ad h] route show ?thesis by (auto simp: entitled_def shows_only_def dest: spec [of _ s1])
  qed
qed



section \<open>First-run setup\<close>

definition serve_all :: "('s, 'n) AdminServer \<Rightarrow> HRequest list \<Rightarrow> ('s, 'n) AdminState \<Rightarrow> ('s, 'n) AdminState" where
  "serve_all ad rs s = fold (\<lambda>r s. snd (Admin_ServeHTTP ad r s)) rs s"

lemma serve_all_reach: "ad_auth ad \<noteq> None \<Longrightarrow> sec_reach (db_of s) (db_of (serve_all ad rs s))"
proof (induction rs arbitrary: s)
  case Nil
  then show ?case by (simp add: serve_all_def sec_reach.start)
next
  case (Cons r rs)
  let ?s = "snd (Admin_ServeHTTP ad r s)"
  have "steps s (fst (Admin_ServeHTTP ad r s)) ?s" using serve_result [of ad r s] Cons.prems by simp
  with Cons.IH [OF Cons.prems, of ?s] show ?case
    by (auto simp: serve_all_def steps_def intro: preorder_trans [OF preorder_sec_reach])
qed

lemma users_stay: "t_users (fst s) \<noteq> [] \<Longrightarrow> t_users (fst (sec_step F now c s)) \<noteq> []"
proof (cases "fst (sec_step F now c s) = fst s")
  case False
  assume users: "t_users (fst s) \<noteq> []"
  show ?thesis
  proof (cases c)
    case (BootstrapCall u a)
    with False BootstrapAdmin_effect [of F now u a s, OF surjective_pairing] show ?thesis by auto
  next
    case (CreateUserCall u a)
    with False CreateUserWithAudit_effect [of F now u a s, OF surjective_pairing] show ?thesis by auto
  next
    case (UpdateUserCall u t inval a)
    with False have "fst (snd (UpdateUserSecurity F now u t inval a s)) \<noteq> fst s" by simp
    from UpdateUserSecurity_effect [OF surjective_pairing this] users UpdateUserCall show ?thesis by auto
  next
    case (PasswordCall uid t h a)
    with False have "fst (snd (ChangeUserPassword F now uid t h a s)) \<noteq> fst s" by simp
    from ChangeUserPassword_effect [OF surjective_pairing this] users PasswordCall show ?thesis by auto
  qed (use users keeps_same_users [THEN keeps_snd, of s] in \<open>simp_all add: same_users_def\<close>)
qed simp

lemma sec_reach_users:
  assumes "sec_reach db db'" shows "users_inv db \<Longrightarrow> users_inv db'" and "t_users db \<noteq> [] \<Longrightarrow> t_users db' \<noteq> []"
proof -
  have p: "preorder (\<lambda>db db'. users_inv db \<longrightarrow> users_inv db')" "preorder (\<lambda>db db'. t_users db \<noteq> [] \<longrightarrow> t_users db' \<noteq> [])"
    by (auto simp: preorder_def reflp_def transp_def)
  show "users_inv db \<Longrightarrow> users_inv db'" using sec_reach_keeps [OF assms p(1)] users_inv_step by blast
  have "t_users db \<noteq> [] \<longrightarrow> t_users db' \<noteq> []"
    by (rule sec_reach_keeps [OF assms p(2)]) (use users_stay in blast)
  then show "t_users db \<noteq> [] \<Longrightarrow> t_users db' \<noteq> []" by simp
qed

text \<open>
  C10: once there is a user, no sequence of requests to the administration API,
  whoever sends them and whatever calls of the database fail, leaves it without an enabled
  administrator or opens the first-run setup again: a request to create the administrator is
  refused as a conflict and changes no user, and the setup token is not given away.
\<close>

theorem setup_is_final:
  assumes "ad_auth ad = Some a" and "sec_reach empty_db (db_of s)" and "t_users (db_of s) \<noteq> []"
  shows "(\<exists>u \<in> set (t_users (db_of (serve_all ad rs s))). Enabled u \<and> Access u = UserAccessAdmin)
    \<and> (let s' = serve_all ad rs s; create = r\<lparr>hreq_Path := ''/admin/api/setup'', hreq_Method := ''POST''\<rparr> in
         fst (Admin_ServeHTTP ad create s') = Some (writeError setSecurityHeaders 409 ''first-run setup has already completed'')
         \<and> db_of (snd (Admin_ServeHTTP ad create s')) = db_of s')
    \<and> fst (Admin_ServeHTTP ad (r\<lparr>hreq_Path := ''/admin/api/setup'', hreq_Method := ''GET''\<rparr>) (serve_all ad rs s))
        = Some (writeJSON setSecurityHeaders 200 (ARequired False))"
proof -
  let ?s = "serve_all ad rs s"
  have reach: "sec_reach (db_of s) (db_of ?s)" using serve_all_reach assms(1) by blast
  have "users_inv empty_db" by (simp add: users_inv_def empty_db_def keys_ok_def)
  then have inv: "users_inv (db_of ?s)" using sec_reach_users(1) assms(2) reach by blast
  have users: "t_users (db_of ?s) \<noteq> []" using sec_reach_users(2) [OF reach] assms(3) by simp
  from inv users have admin: "\<exists>u \<in> set (t_users (db_of ?s)). Enabled u \<and> Access u = UserAccessAdmin"
    by (auto simp: users_inv_def enabled_admins_def filter_empty_conv)
  obtain b s1 where boot: "bootstrapRequired ad ?s = (b, s1)" by fastforce
  obtain x s2 where c: "sec ad (\<lambda>sv. SQL_ListUsers (sv_faults sv)) ?s = (x, s2)" by fastforce
  have "db_of ?s = db_of s2 \<and> as_tick s2 = Suc (as_tick ?s) \<and> as_meta s2 = as_meta ?s"
    by (rule sec_result [OF c]) (intro keeps_intros preorder_eq)
  then have "db_of s1 = db_of ?s" using boot c by (auto simp: bootstrapRequired_def split: sum.splits)
  moreover have "\<not> b"
    using boot c users by (auto simp: bootstrapRequired_def sec_def dest: ListUsers_Inr split: sum.splits prod.splits)
  ultimately show ?thesis using admin boot assms(1) by (simp add: Admin_ServeHTTP_def read_request_def reply_def)
qed

theorem setup_is_final_witness:
  "\<exists>u \<in> set (t_users (db_of (serve_all wad [w_login, w_login] (wst wx_db)))). Enabled u \<and> Access u = UserAccessAdmin"
  using setup_is_final [OF wad_simps(1), of "wst wx_db" "[w_login, w_login]"] wx_db_reach wx_db_user by auto

end
