(* ===== verification/Admin_Login_Properties.thy ===== *)
theory Admin_Login_Properties
  imports Admin_Properties
begin

text \<open>
  Signing in: the session that the first-run setup and a login open, as the next request with its
  cookies meets it.
\<close>

section \<open>The session of a response\<close>

text \<open>The browser sends back the cookies that a response set.\<close>

definition carries :: "HRequest \<Rightarrow> admin_response \<Rightarrow> bool" where
  "carries r resp \<longleftrightarrow> hreq_Cookies r = map (\<lambda>c. (ck_Name c, ck_Value c)) (hres_Cookies resp)"

lemma services_at_simps [simp]:
  "sv_sha256 (services_at ad k) = sv_sha256 (ad_services ad)" "sv_now (services_at ad k) = ad_now ad k"
  "sv_faults (services_at ad k) = sv_faults (ad_services ad)"
  by (simp_all add: services_at_def)

lemma working_services: "working (ad_services ad) \<Longrightarrow> working (services_at ad k)"
  by (simp add: working_def)

lemma find_user: "keys_ok us \<Longrightarrow> u \<in> set us \<Longrightarrow> find (\<lambda>v. usr_ID v = usr_ID u) us = Some u"
  by (auto simp: keys_ok_def find_Some_iff in_set_conv_nth distinct_conv_nth)

lemma issued_session:
  assumes "session_response ad a h st failed u s = (Some resp, s1)" "hres_Status resp \<noteq> 500"
    and users: "keys_ok (t_users (db_of s))" "u \<in> set (t_users (db_of s))" "Enabled u"
  shows "t_users (db_of s1) = t_users (db_of s) \<and> as_tick s1 = Suc (as_tick s) \<and> hres_Status resp = st
    \<and> (\<exists>secret csrf w. hres_Body resp = ALogin (public_user u) csrf
        \<and> hres_Cookies resp = [setSessionCookie secret, setCSRFCookie csrf]
        \<and> session_found (db_of s1) (sv_sha256 (ad_services ad) secret) = Some w
        \<and> ws_UserID w = usr_ID u \<and> ws_CSRFTokenHash w = sv_sha256 (ad_services ad) csrf \<and> ws_RevokedAt w = 0
        \<and> session_end w = ad_now ad (as_tick s) + min (sl_idle (ac_lifetimes a)) (sl_absolute (ac_lifetimes a)))"
proof -
  let ?sv = "services_at ad (as_tick s)"
  obtain x q where c: "Session_Create ?sv (ac_lifetimes a) (usr_ID u) (as_sec s) = (x, q)"
    by (cases "Session_Create ?sv (ac_lifetimes a) (usr_ID u) (as_sec s)")
  with assms(1,2) obtain issued where x: "x = Inr issued"
    and resp: "resp = with_cookies [setSessionCookie (iw_Secret issued), setCSRFCookie (iw_CSRFToken issued)]
         (writeJSON h st (ALogin (public_user u) (iw_CSRFToken issued)))"
    and s1: "s1 = s\<lparr>as_sec := q, as_tick := Suc (as_tick s)\<rparr>"
    by (auto simp: session_response_def sec_def reply_def writeError_def writeJSON_def split: sum.splits)
  from c x obtain i secret csrf w where
    w: "CreateWebSession (sv_faults ?sv) (sv_dbnow ?sv)
        \<lparr>ws_ID = i, ws_UserID = usr_ID u, ws_TokenHash = sv_sha256 ?sv secret, ws_CSRFTokenHash = sv_sha256 ?sv csrf,
         ws_CreatedAt = 0, ws_LastSeenAt = 0, ws_IdleExpiresAt = sv_now ?sv + sl_idle (ac_lifetimes a),
         ws_AbsoluteExpiresAt = sv_now ?sv + sl_absolute (ac_lifetimes a), ws_RevokedAt = 0\<rparr> (as_sec s) = (Inr w, q)"
    and issued: "iw_Secret issued = secret" "iw_CSRFToken issued = csrf"
    by (auto simp: Session_Create_def andthen_Inr lift_Inr)
  from CreateWebSession_Inr [OF w] obtain c ls where
    wc: "w = \<lparr>ws_ID = i, ws_UserID = usr_ID u, ws_TokenHash = sv_sha256 ?sv secret, ws_CSRFTokenHash = sv_sha256 ?sv csrf,
         ws_CreatedAt = c, ws_LastSeenAt = ls, ws_IdleExpiresAt = sv_now ?sv + sl_idle (ac_lifetimes a),
         ws_AbsoluteExpiresAt = sv_now ?sv + sl_absolute (ac_lifetimes a), ws_RevokedAt = 0\<rparr>"
    and us: "t_users (fst q) = t_users (db_of s)" and ss: "t_sessions (fst q) = t_sessions (db_of s) @ [w]"
    and none: "session_found (db_of s) (sv_sha256 ?sv secret) = None" by auto
  have f: "session_found (fst q) (sv_sha256 (ad_services ad) secret) = Some w" using none by (simp add: ss find_append wc)
  show ?thesis
    by (intro conjI exI [of _ secret] exI [of _ csrf] exI [of _ w])
      (simp_all add: resp s1 issued us f, simp_all add: wc session_end_def min_def with_cookies_def writeJSON_def)
qed

lemma session_accepted:
  assumes "carries r resp" "hres_Cookies resp = [setSessionCookie secret, setCSRFCookie csrf]"
    and "session_found (db_of s) (sv_sha256 (ad_services ad) secret) = Some w" "ws_UserID w = usr_ID u" "ws_RevokedAt w = 0"
    and "ad_now ad (as_tick s) < session_end w"
    and "keys_ok (t_users (db_of s))" "u \<in> set (t_users (db_of s))" "Enabled u"
    and "working (ad_services ad)" "ad_auth ad \<noteq> None"
  shows "fst (requireUser ad h r s) = Inr u"
proof -
  have k: "cookie r ''regstair_session'' = Some secret"
    using assms(1,2) by (simp add: cookie_def carries_def setSessionCookie_def setCSRFCookie_def)
  have l: "session_live (ad_now ad (as_tick s)) w" using assms(5,6) by (simp add: session_live_def session_end_def)
  note lk = working_lookups [OF working_services [OF assms(10)], unfolded services_at_simps]
  have "fst (Session_Authenticate (services_at ad (as_tick s)) secret (as_sec s)) = Inr u"
    using assms(3,4,9) l find_user [OF assms(7,8)]
    by (simp add: Session_Authenticate_def session_authenticate_def andthen_def ret_def lk)
  then show ?thesis using k assms(11)
    by (auto simp: requireUser_def sec_def split: prod.split sum.split option.split)
qed

text \<open>The access rules once there is a user.\<close>

lemma serve_with_session:
  assumes "ad_auth ad \<noteq> None" "t_users (db_of s) \<noteq> []" "hreq_Path r \<noteq> ''/setup''" "hreq_Path r \<noteq> ''/admin/api/setup''"
  shows "\<exists>s1. db_of s1 = db_of s \<and> as_tick s1 = Suc (as_tick s) \<and> Admin_ServeHTTP ad r s = after_setup ad setSecurityHeaders r s1"
proof -
  obtain x s1 where c: "sec ad (\<lambda>sv. SQL_ListUsers (sv_faults sv)) s = (x, s1)" by fastforce
  have "db_of s = db_of s1 \<and> as_tick s1 = Suc (as_tick s) \<and> as_meta s1 = as_meta s"
    by (rule sec_result [OF c]) (intro keeps_intros preorder_eq)
  moreover have "x \<noteq> Inr []" using c assms(2) by (auto simp: sec_def dest: ListUsers_Inr split: prod.splits)
  then have "bootstrapRequired ad s = (False, s1)" using c by (auto simp: bootstrapRequired_def split: sum.split)
  ultimately show ?thesis using assms(1,3,4) by (auto simp: Admin_ServeHTTP_def Let_def intro!: exI [of _ s1])
qed

lemma login_answer:
  assumes "handleLogin ad h r s = (Some resp, s1)" "hres_Status resp = 200" "ad_auth ad = Some a"
  shows "\<exists>k u failed s2. login_of ad r (db_of s) k u \<and> db_of s2 = db_of s
    \<and> session_response ad a h 200 failed u s2 = (Some resp, s1)"
proof -
  from assms obtain name password where d: "decodeJSON (dec_login (ad_decode ad)) r = Inr (name, password)" "hreq_Method r = ''POST''"
    by (auto simp: handleLogin_def reply_def writeError_def writeJSON_def methodNotAllowed_def split: if_splits sum.splits)
  let ?keys = "authenticationRateKeys (ad_unicode ad) ''admin'' (hreq_RemoteAddr r) name"
  obtain allowed retry s2 where l: "login_Allow ad ?keys s = ((allowed, retry), s2)" by (metis surj_pair)
  obtain x s3 where w: "sec ad (\<lambda>sv. AuthenticateWeb sv name password) s2 = (x, s3)" by fastforce
  have s3: "db_of s2 = db_of s3 \<and> as_tick s3 = Suc (as_tick s2) \<and> as_meta s3 = as_meta s2"
    by (rule sec_result [OF w]) (intro keeps_intros preorder_eq)
  from assms(1,2) d l w assms(3) obtain u where u: "x = Inr u"
    and resp: "session_response ad a h 200 ''could not create session'' u (login_Success ?keys s3) = (Some resp, s1)"
    by (auto simp: handleLogin_def Let_def reply_def writeError_def writeJSON_def split: if_splits sum.splits)
  have "login_of ad r (db_of s) (as_tick s2) u"
    using w u(1) AuthenticateWeb_Inr [of "services_at ad (as_tick s2)" name password "as_sec s2" u] login_limiter_keeps(1) [OF l] d
    by (auto simp: login_of_def sec_def split: prod.splits)
  moreover have "db_of (login_Success ?keys s3) = db_of s"
    using s3 login_limiter_keeps(1) [OF l] login_limiter_keeps(3) [of ?keys s3] by simp
  ultimately show ?thesis using resp by blast
qed

lemma login_of_user: "login_of ad r db k u \<Longrightarrow> u \<in> set (t_users db) \<and> Enabled u"
  by (auto simp: login_of_def dest: find_SomeD)

lemma account_shown:
  assumes "fst (requireUser ad h r s) = Inr u" "hreq_Path r = ''/admin/api/account''" "hreq_Method r = ''GET''" "ad_auth ad \<noteq> None"
  shows "fst (after_setup ad h r s) = Some (writeJSON h 200 (AAccount (Some (public_user u))))"
proof -
  obtain s1 where "requireUser ad h r s = (Inr u, s1)" using assms(1) by (cases "requireUser ad h r s") auto
  then show ?thesis using assms(2-4)
    by (auto simp: after_setup_def requiresSession_def with_session_def isApplicationPagePath_def adminOnlyPath_def admin_route_def
        isAllowedMutationPath_def read_request_def route_path_def handleAccount_def readMethod_def reply_def)
qed

text \<open>
  C20: a login that is answered 200 carried the name and password of an enabled
  user, shows that user, and sets cookies with which the next request, until the idle or the
  absolute lifetime counted from the login is over, is answered with the account of that very user.
\<close>

theorem login_opens_account:
  assumes "ad_auth ad = Some a" and "working (ad_services ad)" and "keys_ok (t_users (db_of s))" and "t_users (db_of s) \<noteq> []"
    and "hreq_Path r = ''/admin/api/login''" and "Admin_ServeHTTP ad r s = (Some resp, s1)" and "hres_Status resp = 200"
    and "hreq_Path r2 = ''/admin/api/account''" and "hreq_Method r2 = ''GET''" and "carries r2 resp" and "db_of s2 = db_of s1"
    and "ad_now ad (Suc (as_tick s2)) < ad_now ad (as_tick s1 - 1) + min (sl_idle (ac_lifetimes a)) (sl_absolute (ac_lifetimes a))"
  shows "\<exists>k u t. login_of ad r (db_of s) k u \<and> hres_Body resp = ALogin (public_user u) t
    \<and> fst (Admin_ServeHTTP ad r2 s2) = Some (writeJSON setSecurityHeaders 200 (AAccount (Some (public_user u))))"
proof -
  from assms(1,4,5) obtain s0 where s0: "db_of s0 = db_of s" "Admin_ServeHTTP ad r s = after_setup ad setSecurityHeaders r s0"
    using serve_with_session [of ad s r] by auto
  with assms(1,5,6) have "handleLogin ad setSecurityHeaders r s0 = (Some resp, s1)" by (simp add: after_setup_def)
  from login_answer [OF this assms(7,1)] obtain k u failed s3 where u: "login_of ad r (db_of s) k u" and s3: "db_of s3 = db_of s"
    and r: "session_response ad a setSecurityHeaders 200 failed u s3 = (Some resp, s1)" using s0(1) by auto
  note user = login_of_user [OF u]
  have "hres_Status resp \<noteq> 500" "keys_ok (t_users (db_of s3))" "u \<in> set (t_users (db_of s3))" "Enabled u"
    using assms(3,7) user s3 by simp_all
  from issued_session [OF r this, unfolded s3] obtain secret csrf w where
    i: "t_users (db_of s1) = t_users (db_of s)" "as_tick s1 = Suc (as_tick s3)" "hres_Body resp = ALogin (public_user u) csrf"
      "hres_Cookies resp = [setSessionCookie secret, setCSRFCookie csrf]"
      "session_found (db_of s1) (sv_sha256 (ad_services ad) secret) = Some w"
      "ws_UserID w = usr_ID u" "ws_RevokedAt w = 0"
      "session_end w = ad_now ad (as_tick s3) + min (sl_idle (ac_lifetimes a)) (sl_absolute (ac_lifetimes a))" by blast
  have ne: "t_users (db_of s2) \<noteq> []" using assms(4,11) i(1) by simp
  from serve_with_session [OF _ ne, of ad r2] assms(1,8) obtain s4 where
    s4: "db_of s4 = db_of s2" "as_tick s4 = Suc (as_tick s2)" "Admin_ServeHTTP ad r2 s2 = after_setup ad setSecurityHeaders r2 s4" by auto
  have db: "db_of s4 = db_of s1" "t_users (db_of s1) = t_users (db_of s)" using s4(1) assms(11) i(1) by simp_all
  have "ad_now ad (as_tick s4) < session_end w" using assms(12) by (simp only: s4(2) i(2) i(8) diff_Suc_1)
  from session_accepted [OF assms(10) i(4), of ad s4 w u] this i(5-7) db user assms(1-3)
  have "fst (requireUser ad setSecurityHeaders r2 s4) = Inr u" by simp
  from account_shown [OF this assms(8,9)] assms(1) s4(3) u i(3) show ?thesis by auto
qed

lemma w_login_session:
  assumes "Admin_ServeHTTP wad w_login (wst cx_db) = (Some resp, s1)" "hres_Status resp = 200"
  shows "\<exists>secret csrf w. hres_Cookies resp = [setSessionCookie secret, setCSRFCookie csrf] \<and> t_users (db_of s1) = [root_user]
    \<and> session_found (db_of s1) (sv_sha256 (ad_services wad) secret) = Some w \<and> ws_UserID w = usr_ID root_user
    \<and> ws_CSRFTokenHash w = sv_sha256 (ad_services wad) csrf \<and> ws_RevokedAt w = 0 \<and> session_end w = 130"
proof -
  let ?s = "(wst cx_db)\<lparr>as_sec := (cx_db, Suc (Suc (Suc 0))), as_tick := Suc (Suc (Suc 0))\<rparr>"
  have "keys_ok (t_users (db_of ?s))" "root_user \<in> set (t_users (db_of ?s))" "hres_Status resp \<noteq> 500"
    using root_simps(1,5) assms(2) by simp_all
  from issued_session [OF assms(1) [unfolded w_login_eval] this(3,1,2) root_simps(4)] root_simps(1) show ?thesis by auto
qed

theorem login_opens_account_witness:
  "\<exists>resp s1 u. Admin_ServeHTTP wad w_login (wst cx_db) = (Some resp, s1)
     \<and> fst (Admin_ServeHTTP wad (w_account (map (\<lambda>c. (ck_Name c, ck_Value c)) (hres_Cookies resp))) s1)
         = Some (writeJSON setSecurityHeaders 200 (AAccount (Some (public_user u))))"
proof -
  obtain resp s1 w where s1: "Admin_ServeHTTP wad w_login (wst cx_db) = (Some resp, s1)" "hres_Status resp = 200"
    using w_login by blast
  let ?r = "w_account (map (\<lambda>c. (ck_Name c, ck_Value c)) (hres_Cookies resp))"
  have "carries ?r resp" by (simp add: carries_def w_requests)
  from login_opens_account [OF wad_simps(1) _ _ _ w_requests(1) s1 w_requests(2,3) this refl] s1(1)
  show ?thesis by (simp add: root_simps(1) root_simps(5) [unfolded root_simps(1)] ax_simps) blast
qed

section \<open>Signing out\<close>

lemma dead_session:
  assumes "session_found db (sv_sha256 (ad_services ad) secret) = Some w" "ws_RevokedAt w \<noteq> 0" "sec_reach db (db_of s)"
    and "cookie r ''regstair_session'' = Some secret"
  shows "\<not> session_of ad r (db_of s) k u v" and "ad_auth ad \<noteq> None \<Longrightarrow>
    fst (requireUser ad h r s) = Inl (Some (with_cookies clearSessionCookie (writeError h 401 ''authentication required'')))"
proof -
  from web_sessions.stays [OF assms(3,1)] assms(2) obtain w' where
    w': "session_found (db_of s) (sv_sha256 (ad_services ad) secret) = Some w'" "ws_RevokedAt w' \<noteq> 0" by auto
  then show "\<not> session_of ad r (db_of s) k u v" for k u v
    using assms(4) by (auto simp: session_of_def session_live_def)
  then have "sec ad (\<lambda>sv. Session_Authenticate sv secret) s \<noteq> (Inr u, s1)" for u s1
    using session_authenticate_of [OF _ assms(4), of ad "as_tick s" "as_sec s"]
    by (auto simp: sec_def Session_Authenticate_def andthen_Inr split: prod.splits)
  then show "ad_auth ad \<noteq> None \<Longrightarrow>
    fst (requireUser ad h r s) = Inl (Some (with_cookies clearSessionCookie (writeError h 401 ''authentication required'')))"
    using assms(4) by (auto simp: requireUser_def split: prod.splits sum.splits)
qed

lemma logout_revokes:
  assumes "handleLogout ad h r s = (Some resp, s1)" "hres_Status resp = 204" "ad_auth ad = Some a"
    and "working (ad_services ad)" "\<And>k. 0 < ad_now ad k"
  shows "\<exists>secret u w w'. cookie r ''regstair_session'' = Some secret \<and> session_of ad r (db_of s) (as_tick s) u w
    \<and> session_found (db_of s1) (sv_sha256 (ad_services ad) secret) = Some w' \<and> ws_RevokedAt w' \<noteq> 0"
proof -
  from assms(1-3) obtain secret where c: "cookie r ''regstair_session'' = Some secret" "hreq_Method r = ''POST''"
    by (auto simp: handleLogout_def requireCSRF_def reply_def writeError_def writeJSON_def methodNotAllowed_def split: if_splits option.splits)
  obtain x s2 where v: "sec ad (\<lambda>sv. Session_Validate sv secret (header r ''X-CSRF-Token'')) s = (x, s2)" by fastforce
  have s2: "db_of s = db_of s2 \<and> as_tick s2 = Suc (as_tick s) \<and> as_meta s2 = as_meta s"
    by (rule sec_result [OF v]) (intro keeps_intros preorder_eq)
  from assms(1-3) c v obtain u where x: "x = Inr u"
    by (auto simp: handleLogout_def requireCSRF_def reply_def writeError_def writeJSON_def split: sum.splits)
  from Session_Validate_Inr [OF v [unfolded x] c(1)] obtain w where w: "session_of ad r (db_of s) (as_tick s) u w" by blast
  then have f: "session_found (db_of s2) (sv_sha256 (ad_services ad) secret) = Some w" using c(1) s2 by (auto simp: session_of_def)
  let ?sv = "services_at ad (as_tick s2)"
  let ?f = "\<lambda>v. if ws_ID v = ws_ID w \<and> ws_RevokedAt v = 0 then v\<lparr>ws_RevokedAt := ad_now ad (as_tick s2)\<rparr> else v"
  have F: "sv_faults (ad_services ad) k = None" for k using assms(4) by (simp add: working_def)
  have n: "ad_now ad (as_tick s2) \<noteq> 0" using assms(5) [of "as_tick s2"] by simp
  have "fst (snd (Session_Revoke ?sv secret (as_sec s2))) = (db_of s2)\<lparr>t_sessions := map ?f (t_sessions (db_of s2))\<rparr>"
    using f n by (simp add: Session_Revoke_def andthen_def FindWebSessionByHash_def RevokeWebSession_def Let_def wrapping_def
        query_def sql_def F revoke_sessions_def ret_def)
  then have s1: "db_of s1 = (db_of s2)\<lparr>t_sessions := map ?f (t_sessions (db_of s2))\<rparr>"
    using assms(1,3) c v x by (auto simp: handleLogout_def requireCSRF_def reply_def sec_def split: prod.splits)
  then have t: "t_sessions (db_of s1) = map ?f (t_sessions (db_of s2))" by simp
  have same: "(\<lambda>v. ws_TokenHash v = sv_sha256 (ad_services ad) secret) \<circ> ?f = (\<lambda>v. ws_TokenHash v = sv_sha256 (ad_services ad) secret)"
    by (rule ext) auto
  have "session_found (db_of s1) (sv_sha256 (ad_services ad) secret) = Some (?f w)"
    unfolding t find_map same f by (rule option.map)
  moreover have "ws_RevokedAt (?f w) \<noteq> 0" using n by auto
  ultimately show ?thesis using c(1) w by blast
qed

lemma logout_answer:
  assumes "cookie r ''regstair_session'' = Some secret" "hreq_Method r = ''POST''"
    and "session_found (db_of s) (sv_sha256 (ad_services ad) secret) = Some w" "ws_UserID w = usr_ID u" "ws_RevokedAt w = 0"
    and "ad_now ad (as_tick s) < session_end w" and "sv_sha256 (ad_services ad) (header r ''X-CSRF-Token'') = ws_CSRFTokenHash w"
    and "keys_ok (t_users (db_of s))" "u \<in> set (t_users (db_of s))" "Enabled u"
    and "working (ad_services ad)" "ad_auth ad \<noteq> None"
  shows "fst (handleLogout ad h r s) = Some (with_cookies clearSessionCookie (noContent h))"
proof -
  have l: "session_live (ad_now ad (as_tick s)) w" using assms(5,6) by (simp add: session_live_def session_end_def)
  note lk = working_lookups [OF working_services [OF assms(11)], unfolded services_at_simps]
  have "fst (Session_Validate (services_at ad (as_tick s)) secret (header r ''X-CSRF-Token'') (as_sec s)) = Inr u"
    using assms(3,4,7,10) l find_user [OF assms(8,9)]
    by (simp add: Session_Validate_def session_authenticate_def andthen_def ret_def lk equalBytes_iff)
  then have "fst (sec ad (\<lambda>sv. Session_Validate sv secret (header r ''X-CSRF-Token'')) s) = Inr u"
    by (auto simp: sec_def split: prod.split)
  then show ?thesis using assms(1,2,12)
    by (auto simp: handleLogout_def requireCSRF_def reply_def split: prod.split sum.split option.split)
qed

text \<open>
  After a logout that is answered 204 with a working database, no request
  with the same session cookie is accepted, in no later state of the server: there is no session
  for it, and it is answered 401 with the cookies cleared.
\<close>

theorem logout_ends_session:
  assumes "ad_auth ad = Some a" and "working (ad_services ad)" and "\<And>k. 0 < ad_now ad k"
    and "hreq_Path r = ''/admin/api/logout''" and "Admin_ServeHTTP ad r s = (Some resp, s1)" and "hres_Status resp = 204"
    and "t_users (db_of s) \<noteq> []" and "sec_reach (db_of s1) (db_of s2)" and "hreq_Cookies r2 = hreq_Cookies r"
  shows "\<not> session_of ad r2 (db_of s2) k u w
    \<and> fst (Admin_ServeHTTP ad (r2\<lparr>hreq_Path := ''/admin/api/account''\<rparr>) s2)
        = Some (with_cookies clearSessionCookie (writeError setSecurityHeaders 401 ''authentication required''))"
proof -
  from assms(1,4,7) obtain s0 where s0: "db_of s0 = db_of s" "Admin_ServeHTTP ad r s = after_setup ad setSecurityHeaders r s0"
    using serve_with_session [of ad s r] by auto
  let ?h = setSecurityHeaders
  obtain b s3 where req: "requiresSession ad r s0 = (b, s3)" by fastforce
  have b: "b" using requiresSession_public [of ad r s0 s3] req s0(1) assms(4,7) by (cases b) (auto simp: public_path_def)
  with req s0(2) assms(1,4,5) have ws: "with_session ad ?h r s3 = (Some resp, s1)" by (simp add: after_setup_def)
  obtain x s4 where u: "requireUser ad ?h r s3 = (x, s4)" by fastforce
  note res = requireUser_result [OF u secured_set(1)]
  from ws u assms(4,6) have "handleLogout ad ?h r s4 = (Some resp, s1)"
    by (cases x) (auto simp: with_session_def isApplicationPagePath_def adminOnlyPath_def admin_route_def isAllowedMutationPath_def
        route_path_def requireUser_def reply_def writeError_def writeJSON_def redirect_def with_cookies_def
        split: if_splits option.splits sum.splits prod.splits)
  from logout_revokes [OF this assms(6,1,2,3)] obtain secret w' where
    w': "cookie r ''regstair_session'' = Some secret" "session_found (db_of s1) (sv_sha256 (ad_services ad) secret) = Some w'"
      "ws_RevokedAt w' \<noteq> 0" by blast
  have c2: "cookie r2 ''regstair_session'' = Some secret" "cookie (r2\<lparr>hreq_Path := ''/admin/api/account''\<rparr>) ''regstair_session'' = Some secret"
    using w'(1) assms(9) by (simp_all add: cookie_def)
  have "sec_reach (db_of s) (db_of s1)" using serve_result [OF assms(5)] assms(1) by (simp add: steps_def)
  then have "t_users (db_of s2) \<noteq> []" using sec_reach_users(2) assms(7,8) by blast
  from serve_with_session [OF _ this, of ad "r2\<lparr>hreq_Path := ''/admin/api/account''\<rparr>"] assms(1) obtain s5 where
    s5: "db_of s5 = db_of s2" "Admin_ServeHTTP ad (r2\<lparr>hreq_Path := ''/admin/api/account''\<rparr>) s2
       = after_setup ad ?h (r2\<lparr>hreq_Path := ''/admin/api/account''\<rparr>) s5" by auto
  have "sec_reach (db_of s1) (db_of s5)" using assms(8) s5(1) by simp
  from dead_session(2) [OF w'(2,3) this c2(2), of ?h] assms(1) obtain s6 where
    "requireUser ad ?h (r2\<lparr>hreq_Path := ''/admin/api/account''\<rparr>) s5
       = (Inl (Some (with_cookies clearSessionCookie (writeError ?h 401 ''authentication required''))), s6)"
    by (cases "requireUser ad ?h (r2\<lparr>hreq_Path := ''/admin/api/account''\<rparr>) s5") auto
  then show ?thesis using dead_session(1) [OF w'(2,3) assms(8) c2(1)] s5(2) assms(1)
    by (simp add: after_setup_def requiresSession_def with_session_def isApplicationPagePath_def)
qed

theorem logout_ends_session_witness:
  "\<exists>resp s1 csrf out s2. Admin_ServeHTTP wad w_login (wst cx_db) = (Some resp, s1)
     \<and> Admin_ServeHTTP wad (w_logout (map (\<lambda>c. (ck_Name c, ck_Value c)) (hres_Cookies resp)) csrf) s1 = (Some out, s2)
     \<and> hres_Status out = 204
     \<and> fst (Admin_ServeHTTP wad ((w_account (map (\<lambda>c. (ck_Name c, ck_Value c)) (hres_Cookies resp)))\<lparr>hreq_Path := ''/admin/api/account''\<rparr>) s2)
         = Some (with_cookies clearSessionCookie (writeError setSecurityHeaders 401 ''authentication required''))"
proof -
  obtain resp s1 where s1: "Admin_ServeHTTP wad w_login (wst cx_db) = (Some resp, s1)" "hres_Status resp = 200"
    using w_login by blast
  from w_login_session [OF this] obtain secret csrf w where
    i: "hres_Cookies resp = [setSessionCookie secret, setCSRFCookie csrf]" "t_users (db_of s1) = [root_user]"
      "session_found (db_of s1) (sv_sha256 (ad_services wad) secret) = Some w" "ws_UserID w = usr_ID root_user"
      "ws_CSRFTokenHash w = sv_sha256 (ad_services wad) csrf" "ws_RevokedAt w = 0" "session_end w = 130" by blast
  let ?cs = "map (\<lambda>c. (ck_Name c, ck_Value c)) (hres_Cookies resp)"
  let ?r = "w_logout ?cs csrf"
  have c: "carries ?r resp" by (simp add: carries_def w_logout_simps)
  have k: "cookie ?r ''regstair_session'' = Some secret"
    by (simp add: cookie_def w_logout_simps i(1) setSessionCookie_def setCSRFCookie_def)
  have ne: "t_users (db_of s1) \<noteq> []" using i(2) by simp
  from serve_with_session [OF _ ne, of wad ?r] obtain s3 where
    s3: "db_of s3 = db_of s1" "Admin_ServeHTTP wad ?r s1 = after_setup wad setSecurityHeaders ?r s3" by (auto simp: w_logout_simps)
  obtain b s4 where q: "requiresSession wad ?r s3 = (b, s4)" by fastforce
  have db4: "db_of s4 = db_of s1" using requiresSession_result [OF q] s3(1) by simp
  have b: "b" using requiresSession_public [of wad ?r s3 s4] q s3(1) ne by (cases b) (auto simp: public_path_def w_logout_simps)
  have key: "keys_ok [root_user]" "root_user \<in> set [root_user]" using root_simps(1,5) by simp_all
  have wk: "working (ad_services wad)" by (simp add: ax_simps)
  have live: "ad_now wad j < session_end w" for j using i(7) by simp
  have "fst (requireUser wad setSecurityHeaders ?r s4) = Inr root_user"
    by (rule session_accepted [OF c i(1) _ i(4) i(6) live _ _ root_simps(4) wk]) (use i db4 key in simp_all)
  then obtain s5 where u: "requireUser wad setSecurityHeaders ?r s4 = (Inr root_user, s5)"
    by (cases "requireUser wad setSecurityHeaders ?r s4") auto
  from requireUser_result [OF u] have db5: "db_of s5 = db_of s1" using db4 by simp
  have "fst (handleLogout wad setSecurityHeaders ?r s5) = Some (with_cookies clearSessionCookie (noContent setSecurityHeaders))"
    by (rule logout_answer [OF k w_logout_simps(2) _ i(4) i(6) live _ _ _ root_simps(4) wk]) (use i db5 key w_logout_simps(4) in simp_all)
  moreover have "Admin_ServeHTTP wad ?r s1 = handleLogout wad setSecurityHeaders ?r s5"
    using s3(2) q b u by (simp add: after_setup_def w_logout_simps with_session_def isApplicationPagePath_def adminOnlyPath_def
        admin_route_def isAllowedMutationPath_def route_path_def)
  ultimately obtain out s2 where out: "Admin_ServeHTTP wad ?r s1 = (Some out, s2)" "hres_Status out = 204"
    by (cases "handleLogout wad setSecurityHeaders ?r s5") (auto simp: with_cookies_def noContent_def)
  have now: "0 < ad_now wad j" for j by simp
  have "hreq_Cookies (w_account ?cs) = hreq_Cookies ?r" by (simp add: w_requests w_logout_simps)
  from logout_ends_session [OF wad_simps(1) wk now w_logout_simps(1) out ne sec_reach.start this] s1(1) out
  show ?thesis by blast
qed

section \<open>The first administrator\<close>

lemma Bootstrap_Inr:
  assumes "BootstrapAdminWithProfile sv name password display email q = (Inr (Some u), q')"
  shows "t_users (fst q) = [] \<and> t_users (fst q') = [u] \<and> Username u = TrimSpace name \<and> DisplayName u = TrimSpace display
    \<and> Email u = TrimSpace email \<and> Access u = UserAccessAdmin \<and> Enabled u \<and> sv_hash sv password = Inr (PasswordHash u)"
proof -
  from assms obtain hash i where hash: "sv_hash sv password = Inr hash"
    and b: "SQL_BootstrapAdmin (sv_faults sv) (sv_dbnow sv)
       \<lparr>usr_ID = i, Username = TrimSpace name, PasswordHash = hash, DisplayName = TrimSpace display,
        Email = TrimSpace email, Access = UserAccessAdmin, Enabled = True, usr_CreatedAt = 0, usr_UpdatedAt = 0\<rparr>
       ((user_audit [] ''user.bootstrap'' ''user'' i)\<lparr>au_ActorRole := ''system''\<rparr>) q = (Inr (Some u), q')"
    by (auto simp: BootstrapAdminWithProfile_def Let_def andthen_Inr lift_Inr split: if_splits)
  from b have "t_users (fst q) = [] \<and> t_users (fst q') = [u] \<and> u = \<lparr>usr_ID = i, Username = TrimSpace name, PasswordHash = hash,
      DisplayName = TrimSpace display, Email = TrimSpace email, Access = UserAccessAdmin, Enabled = True,
      usr_CreatedAt = sv_dbnow sv, usr_UpdatedAt = sv_dbnow sv\<rparr>"
    unfolding SQL_BootstrapAdmin_def
    by (auto simp: after_check_Inr results Let_def split: if_splits elim!: transaction_Inr
        dest!: insert_user_Inr insertAuditEvent_tables)
  then show ?thesis using hash by simp
qed

lemma setup_answer:
  assumes "handleSetup ad h r s = (Some resp, s1)" "hres_Status resp = 201" "ad_auth ad = Some a"
  shows "\<exists>name password display email u failed s2.
      header r ''X-Regstair-Setup-Token'' = ad_setupToken ad \<and> sameOrigin ad r
      \<and> decodeJSON (dec_setup (ad_decode ad)) r = Inr (name, password, display, email)
      \<and> sec ad (\<lambda>sv. BootstrapAdminWithProfile sv name password display email) s = (Inr (Some u), s2)
      \<and> session_response ad a h 201 failed u s2 = (Some resp, s1)"
  using assms
  by (auto simp: handleSetup_def reply_def writeError_def writeJSON_def methodNotAllowed_def crash_def
      split: if_splits sum.splits prod.splits option.splits)

lemma users_listed:
  assumes "requireUser ad h r s = (Inr u, s0)" "hreq_Path r = ''/admin/api/users''" "hreq_Method r = ''GET''" "ad_auth ad \<noteq> None"
    and "Access u = UserAccessAdmin" "Enabled u" "db_of s0 = db_of s" "keys_ok (t_users (db_of s))" "u \<in> set (t_users (db_of s))"
    and "working (ad_services ad)"
  shows "fst (after_setup ad h r s) = Some (writeJSON h 200 (AUsers (map public_user (sort_key Username (t_users (db_of s))))))"
proof -
  note lk = working_lookups [OF working_services [OF assms(10)], unfolded services_at_simps]
  have "fst (Admin_List (services_at ad (as_tick s0)) (usr_ID u) (as_sec s0)) = Inr (sort_key Username (t_users (db_of s)))"
    using assms(5-10) find_user [OF assms(8,9)]
    by (simp add: Admin_List_def admin_authorize_def andthen_def lk ret_def SQL_ListUsers_def wrapping_def query_def sql_def working_def)
  then have "fst (sec ad (\<lambda>sv. Admin_List sv (usr_ID u)) s0) = Inr (sort_key Username (t_users (db_of s)))"
    by (auto simp: sec_def split: prod.split)
  then show ?thesis using assms(1-5)
    by (auto simp: after_setup_def requiresSession_def with_session_def isApplicationPagePath_def adminOnlyPath_def admin_route_def
        isAllowedMutationPath_def read_request_def route_path_def handleUsers_def with_auth_def answering_def reply_def
        split: prod.split sum.split)
qed

text \<open>
  A request to the first-run setup that is answered 201 came from the same origin with
  the setup token of this server, while there was no user; it leaves exactly one user, an enabled
  administrator with the name, profile and password of the request, and sets cookies with which the
  next request is answered as this administrator's: the list of users is this user.
\<close>

theorem first_run:
  assumes "ad_auth ad = Some a" and "working (ad_services ad)" and "t_users (db_of s) = []"
    and "hreq_Path r = ''/admin/api/setup''" and "Admin_ServeHTTP ad r s = (Some resp, s1)" and "hres_Status resp = 201"
    and "hreq_Path r2 = ''/admin/api/users''" and "hreq_Method r2 = ''GET''" and "carries r2 resp"
    and "ad_now ad (Suc (as_tick s1)) < ad_now ad (as_tick s1 - 1) + min (sl_idle (ac_lifetimes a)) (sl_absolute (ac_lifetimes a))"
  shows "header r ''X-Regstair-Setup-Token'' = ad_setupToken ad \<and> sameOrigin ad r
    \<and> (\<exists>name password display email u k. decodeJSON (dec_setup (ad_decode ad)) r = Inr (name, password, display, email)
        \<and> t_users (db_of s1) = [u] \<and> Username u = TrimSpace name \<and> DisplayName u = TrimSpace display \<and> Email u = TrimSpace email
        \<and> Access u = UserAccessAdmin \<and> Enabled u \<and> sv_hash (services_at ad k) password = Inr (PasswordHash u)
        \<and> fst (Admin_ServeHTTP ad r2 s1) = Some (writeJSON setSecurityHeaders 200 (AUsers [public_user u])))"
proof -
  let ?h = "set_header ''X-Regstair-Bootstrap-Required'' ''true'' setSecurityHeaders"
  have F: "sv_faults (ad_services ad) k = None" for k using assms(2) by (simp add: working_def)
  obtain s0 where s0: "bootstrapRequired ad s = (True, s0)" "db_of s0 = db_of s"
    using assms(3) by (simp add: bootstrapRequired_def sec_def SQL_ListUsers_def wrapping_def query_def sql_def F)
  with assms(1,4,5) have "handleSetup ad ?h r s0 = (Some resp, s1)"
    by (simp add: Admin_ServeHTTP_def Let_def handleFirstRun_def)
  from setup_answer [OF this assms(6,1)] obtain name password display email u failed s2 where
    req: "header r ''X-Regstair-Setup-Token'' = ad_setupToken ad" "sameOrigin ad r"
      "decodeJSON (dec_setup (ad_decode ad)) r = Inr (name, password, display, email)"
    and boot: "sec ad (\<lambda>sv. BootstrapAdminWithProfile sv name password display email) s0 = (Inr (Some u), s2)"
    and r: "session_response ad a ?h 201 failed u s2 = (Some resp, s1)" by blast
  from boot Bootstrap_Inr [of "services_at ad (as_tick s0)" name password display email "as_sec s0" u]
  have u: "t_users (db_of s2) = [u]" "Username u = TrimSpace name" "DisplayName u = TrimSpace display" "Email u = TrimSpace email"
    "Access u = UserAccessAdmin" "Enabled u" "sv_hash (services_at ad (as_tick s0)) password = Inr (PasswordHash u)"
    by (auto simp: sec_def split: prod.splits)
  have keys: "keys_ok (t_users (db_of s2))" "u \<in> set (t_users (db_of s2))" by (simp_all add: u(1) keys_ok_def)
  have "hres_Status resp \<noteq> 500" using assms(6) by simp
  from issued_session [OF r this keys u(6)] obtain secret csrf w where
    i: "t_users (db_of s1) = t_users (db_of s2)" "as_tick s1 = Suc (as_tick s2)"
      "hres_Cookies resp = [setSessionCookie secret, setCSRFCookie csrf]"
      "session_found (db_of s1) (sv_sha256 (ad_services ad) secret) = Some w"
      "ws_UserID w = usr_ID u" "ws_RevokedAt w = 0"
      "session_end w = ad_now ad (as_tick s2) + min (sl_idle (ac_lifetimes a)) (sl_absolute (ac_lifetimes a))" by blast
  have ne: "t_users (db_of s1) \<noteq> []" using i(1) u(1) by simp
  from serve_with_session [OF _ ne, of ad r2] assms(1,7) obtain s4 where
    s4: "db_of s4 = db_of s1" "as_tick s4 = Suc (as_tick s1)" "Admin_ServeHTTP ad r2 s1 = after_setup ad setSecurityHeaders r2 s4" by auto
  have "ad_now ad (as_tick s4) < session_end w" using assms(10) by (simp only: s4(2) i(2) i(7) diff_Suc_1)
  from session_accepted [OF assms(9) i(3), of ad s4 w u] this i(1,4-6) s4(1) keys u(6) assms(1,2)
  have "fst (requireUser ad setSecurityHeaders r2 s4) = Inr u" by simp
  then obtain s5 where s5: "requireUser ad setSecurityHeaders r2 s4 = (Inr u, s5)" by (cases "requireUser ad setSecurityHeaders r2 s4") auto
  from requireUser_result [OF this] assms(1) have "db_of s5 = db_of s4" by simp
  from users_listed [OF s5 assms(7,8) _ u(5,6) this] assms(1,2) keys s4(1) i(1)
  have "fst (after_setup ad setSecurityHeaders r2 s4) = Some (writeJSON setSecurityHeaders 200 (AUsers [public_user u]))"
    by (simp add: u(1))
  then show ?thesis using req u i(1) s4(3) by auto
qed

theorem first_run_witness:
  "\<exists>resp s1 u. Admin_ServeHTTP wad w_setup (wst empty_db) = (Some resp, s1) \<and> t_users (db_of s1) = [u]
     \<and> fst (Admin_ServeHTTP wad (w_users (map (\<lambda>c. (ck_Name c, ck_Value c)) (hres_Cookies resp))) s1)
         = Some (writeJSON setSecurityHeaders 200 (AUsers [public_user u]))"
proof -
  obtain resp s1 where s1: "Admin_ServeHTTP wad w_setup (wst empty_db) = (Some resp, s1)" "hres_Status resp = 201"
    using w_setup by blast
  let ?r = "w_users (map (\<lambda>c. (ck_Name c, ck_Value c)) (hres_Cookies resp))"
  have r: "hreq_Path w_setup = ''/admin/api/setup''" "hreq_Path ?r = ''/admin/api/users''" "hreq_Method ?r = ''GET''" "carries ?r resp"
    by (simp_all add: w_setup_def w_users_def wreq_def carries_def)
  from first_run [OF wad_simps(1) _ _ r(1) s1 r(2-4)] s1(1)
  show ?thesis by (simp add: ax_simps empty_db_def) blast
qed

end
