(* ===== verification/Admin_History_Properties.thy ===== *)
theory Admin_History_Properties
  imports Admin_Example SQLite_Refinement
begin

text \<open>
  The request history over HTTP: what the query parameters can ask for, and that a client which
  follows the cursors of the pages reads every matching event exactly once.
\<close>

section \<open>The bounds of a query\<close>

definition all_ok :: "(RequestEventQuery \<Rightarrow> bool) \<Rightarrow> RequestEventQuery result \<Rightarrow> bool" where
  "all_ok P res \<longleftrightarrow> (\<forall>q. res = Inr q \<longrightarrow> P q)"

named_theorems all_ok_intros \<open>rules for the blocks of the parser\<close>

lemma all_ok_if_present [all_ok_intros]:
  "all_ok P res \<Longrightarrow> (\<And>q. raw \<noteq> [] \<Longrightarrow> P q \<Longrightarrow> all_ok P (f raw q)) \<Longrightarrow> all_ok P (if_present raw f res)"
  by (auto simp: all_ok_def if_present_def split: sum.splits)

lemma all_ok_simps [simp]: "all_ok P (Inl e)" "all_ok P (Inr q) = P q" "all_ok P (if b then x else y) = (if b then all_ok P x else all_ok P y)"
  by (simp_all add: all_ok_def)

lemma all_ok_cases [all_ok_intros]:
  "(\<And>e. all_ok P (f e)) \<Longrightarrow> (\<And>x. r = Inr x \<Longrightarrow> all_ok P (g x)) \<Longrightarrow> all_ok P (case r of Inl e \<Rightarrow> f e | Inr x \<Rightarrow> g x)"
  "all_ok P f' \<Longrightarrow> (\<And>x. all_ok P (g' x)) \<Longrightarrow> all_ok P (case r' of None \<Rightarrow> f' | Some x \<Rightarrow> g' x)"
  "(b \<Longrightarrow> all_ok P x) \<Longrightarrow> (\<not> b \<Longrightarrow> all_ok P y) \<Longrightarrow> all_ok P (if b then x else y)"
  by (auto split: sum.split option.split)

text \<open>What a query asks for: the choices it may make, and the texts of the request.\<close>

definition in_bounds :: "HRequest \<Rightarrow> RequestEventQuery \<Rightarrow> bool" where
  "in_bounds r q \<longleftrightarrow> 1 \<le> q_Limit q \<and> q_Limit q \<le> 100
     \<and> f_Operation (q_Filter q) \<in> {[], OperationPull, OperationPush} \<and> f_Status (q_Filter q) \<in> {[], StatusSuccess, StatusDenied, StatusError}
     \<and> f_CacheResult (q_Filter q) \<in> {[], CacheHit, CacheMiss, CacheBypassed}
     \<and> f_ClientIdentity (q_Filter q) = query_value r ''client_identity'' \<and> f_CredentialSource (q_Filter q) = query_value r ''credential''
     \<and> f_Route (q_Filter q) = query_value r ''route'' \<and> f_SourceOrDestination (q_Filter q) = query_value r ''source''
     \<and> f_ErrorClassification (q_Filter q) = query_value r ''error_classification''
     \<and> f_ReferenceContains (q_Filter q) = query_value r ''reference''"

lemma in_bounds_keeps [simp]:
  "in_bounds r (set_filter (\<lambda>f. f\<lparr>f_After := t\<rparr>) q) = in_bounds r q" "in_bounds r (set_filter (\<lambda>f. f\<lparr>f_Before := t\<rparr>) q) = in_bounds r q"
  "in_bounds r (q\<lparr>q_Cursor := c\<rparr>) = in_bounds r q" "in_bounds r (q\<lparr>q_OldestFirst := b\<rparr>) = in_bounds r q"
  by (simp_all add: in_bounds_def set_filter_def)

lemma parsed_choices: "all_ok (in_bounds r) q0 \<Longrightarrow> all_ok (in_bounds r) (parse_choices r q0)"
  unfolding parse_choices_def Let_def by (intro all_ok_intros) (auto simp: in_bounds_def set_filter_def)

lemma parsed_ranges: "all_ok (in_bounds r) q0 \<Longrightarrow> all_ok (in_bounds r) (parse_ranges tp now r q0)"
  unfolding parse_ranges_def Let_def by (intro all_ok_intros) (simp_all, simp add: in_bounds_def)

lemma parsed_query:
  assumes "parseRequestEventQuery tp now r d = Inr q" "1 \<le> d" "d \<le> 100"
  shows "in_bounds r q"
proof -
  have "in_bounds r \<lparr>q_Filter = query_texts r, q_Limit = d, q_Cursor = None, q_OldestFirst = False\<rparr>"
    using assms(2,3) by (simp add: in_bounds_def query_texts_def no_filter_def)
  then have "all_ok (in_bounds r) (check_time_order (parse_ranges tp now r (parse_choices r
       (Inr \<lparr>q_Filter = query_texts r, q_Limit = d, q_Cursor = None, q_OldestFirst = False\<rparr>))))"
    using parsed_ranges [OF parsed_choices, of r "Inr \<lparr>q_Filter = query_texts r, q_Limit = d, q_Cursor = None, q_OldestFirst = False\<rparr>" tp now]
    by (auto simp: all_ok_def check_time_order_def split: sum.splits)
  then have "all_ok (in_bounds r) (parseRequestEventQuery tp now r d)"
    unfolding parseRequestEventQuery_def by (intro all_ok_intros) simp_all
  with assms(1) show ?thesis by simp
qed

lemma lifted_Inr: "lift_result r s = (Inr x, s') \<longleftrightarrow> r = Inr x \<and> s' = s"
  by (auto simp: lift_result_def fail_def split: sum.split)

lemma map_result_list_all2: "map_result f xs = Inr ys \<Longrightarrow> list_all2 (\<lambda>x y. f x = Inr y) xs ys"
  by (induction xs arbitrary: ys) (auto split: sum.splits)

definition page_of :: "RequestEventQuery \<Rightarrow> RequestEvent list \<Rightarrow> RequestEventPage" where
  "page_of q evs = (let hasMore = int (length evs) > q_Limit q; evs = (if hasMore then take (nat (q_Limit q)) evs else evs) in
     \<lparr>Events = evs, Next = (if hasMore \<and> length evs > 0
                 then Some \<lparr>cur_Timestamp = ev_Timestamp (last evs), cur_ID = ev_ID (last evs)\<rparr> else None)\<rparr>)"

definition selected :: "RequestEventQuery \<Rightarrow> MetaDB \<Rightarrow> EventRow list" where
  "selected q db = order_events (q_OldestFirst q)
    (filter (\<lambda>row. where_all (event_conditions (q_Filter q) @ cursor_conditions q) (er_event row)) (t_events db))"

lemma SQL_QueryRequestEvents_page:
  assumes "0 < q_Limit q"
  shows "SQL_QueryRequestEvents F jc q = andthen (ctx_err F) (\<lambda>_.
      andthen (wrapping ''query request events: %w'' (query F (\<lambda>db. take (nat (q_Limit q + 1)) (selected q db)))) (\<lambda>rows.
      andthen (lift_result (map_result (decode_event jc) rows)) (\<lambda>evs. ret (page_of q evs))))"
  using assms by (simp add: SQL_QueryRequestEvents_def page_of_def selected_def Let_def)

lemma ctx_err_Inr: "ctx_err F s = (Inr u, s') \<Longrightarrow> fst s' = fst s"
  by (auto simp: ctx_err_def query_Inr)

lemma queried_page:
  assumes "SQL_QueryRequestEvents F jc q s = (Inr page, s')" "0 < q_Limit q"
  shows "int (length (Events page)) \<le> q_Limit q \<and> (\<forall>e \<in> set (Events page). requestEventMatches e (q_Filter q))
    \<and> (Next page \<noteq> None \<longrightarrow> int (length (Events page)) = q_Limit q)"
proof -
  define rows where "rows = selected q (fst s)"
  obtain evs where evs: "map_result (decode_event jc) (take (nat (q_Limit q + 1)) rows) = Inr evs" and page: "page = page_of q evs"
    using assms by (auto simp: SQL_QueryRequestEvents_page andthen_Inr query_Inr lifted_Inr rows_def dest: ctx_err_Inr)
  have l: "list_all2 (\<lambda>row e. decode_event jc row = Inr e) (take (nat (q_Limit q + 1)) rows) evs"
    using evs by (simp add: map_result_list_all2)
  have m: "requestEventMatches e (q_Filter q)" if "e \<in> set evs" for e
  proof -
    from l that obtain row where row: "row \<in> set rows" "decode_event jc row = Inr e"
      by (auto simp: list_all2_conv_all_nth in_set_conv_nth) (metis in_set_takeD length_take min_less_iff_conj nth_mem nth_take)
    then have "requestEventMatches (er_event row) (q_Filter q)"
      by (auto simp: rows_def selected_def order_events_def where_append event_conditions_iff split: if_splits)
    then show ?thesis using matches_row [OF row(2)] by simp
  qed
  then show ?thesis using assms(2) by (auto simp: page page_of_def Let_def dest: in_set_takeD)
qed


section \<open>Following the cursors\<close>

text \<open>The next request of a client that was given a cursor, and its pages.\<close>

definition with_cursor :: "string \<Rightarrow> HRequest \<Rightarrow> HRequest" where
  "with_cursor c r = r\<lparr>hreq_Query := (''cursor'', [c]) # hreq_Query r\<rparr>"

fun history :: "nat \<Rightarrow> ('s, 'n) AdminServer \<Rightarrow> headers \<Rightarrow> HRequest \<Rightarrow> ('s, 'n) AdminState \<Rightarrow> RequestEvent list list" where
  "history 0 ad h r s = []"
| "history (Suc n) ad h r s =
     (case handleRequests ad h r s of
        (Some resp, s') \<Rightarrow>
          (case hres_Body resp of
             ARequests es c \<Rightarrow> es # (if c = [] then [] else history n ad h (with_cursor c r) s')
           | _ \<Rightarrow> [])
      | (None, s') \<Rightarrow> [])"

lemma query_value_cursor [simp]:
  "query_value (with_cursor c r) k = (if k = ''cursor'' then c else query_value r k)"
  by (simp add: query_value_def with_cursor_def)

lemma query_texts_cursor [simp]: "query_texts (with_cursor c r) = query_texts r"
  by (simp add: query_texts_def)

lemma parse_cursor_free [simp]: "parse_choices (with_cursor c r) q0 = parse_choices r q0" "parse_ranges tp now (with_cursor c r) q0 = parse_ranges tp now r q0"
  by (simp_all add: parse_choices_def parse_ranges_def Let_def)

lemma parse_ranges_now: "query_value r ''window'' = [] \<Longrightarrow> parse_ranges tp now r q0 = parse_ranges tp now' r q0"
  by (simp add: parse_ranges_def Let_def if_present_def split: sum.split)

text \<open>Two requests that ask for the same events, one of them from a cursor on.\<close>

lemma parse_with_cursor:
  assumes "parseRequestEventQuery tp now r d = Inr q" "query_value r ''window'' = []" "query_value r ''cursor'' = []"
    and "decodeRequestCursor c = Inr cursor" "c \<noteq> []" and that: "\<And>k. k \<noteq> ''cursor'' \<Longrightarrow> query_value r' k = query_value r k"
  shows "parseRequestEventQuery tp now' (with_cursor c r') d = Inr (q\<lparr>q_Cursor := Some cursor\<rparr>)"
proof -
  have t: "query_texts r' = query_texts r" by (simp add: query_texts_def that)
  have ch: "parse_choices r' q0 = parse_choices r q0" for q0 by (simp add: parse_choices_def Let_def that)
  have "parse_ranges tp now' r' q0 = parse_ranges tp now' r q0" for q0 by (simp add: parse_ranges_def Let_def that)
  then have ra: "parse_ranges tp now' r' q0 = parse_ranges tp now r q0" for q0
    using parse_ranges_now [OF assms(2)] by simp
  from assms show ?thesis
    by (auto simp: parseRequestEventQuery_def t ch ra if_present_def split: if_splits sum.splits)
qed

lemma no_cursor:
  assumes "parseRequestEventQuery tp now r d = Inr q" "query_value r ''cursor'' = []"
  shows "q_Cursor q = None"
proof -
  let ?P = "\<lambda>q. q_Cursor q = None"
  have c: "all_ok ?P q0 \<Longrightarrow> all_ok ?P (parse_choices r q0)" for q0
    unfolding parse_choices_def Let_def by (intro all_ok_intros) (simp_all add: set_filter_def)
  have r: "all_ok ?P q0 \<Longrightarrow> all_ok ?P (parse_ranges tp now r q0)" for q0
    unfolding parse_ranges_def Let_def by (intro all_ok_intros) (simp_all add: set_filter_def)
  define x where "x = parse_ranges tp now r (parse_choices r
       (Inr \<lparr>q_Filter = query_texts r, q_Limit = d, q_Cursor = None, q_OldestFirst = False\<rparr>))"
  have x: "all_ok ?P x" unfolding x_def by (rule r, rule c) simp
  have e: "if_present [] f res = res" for f res by (cases res) (simp_all add: if_present_def)
  have "parseRequestEventQuery tp now r d = (if texts_too_long (query_texts r) then Inl (errorf ''%s is too long'') else check_time_order x)"
    unfolding parseRequestEventQuery_def x_def assms(2) e by (rule refl)
  with assms(1) have "check_time_order x = Inr q" by (cases "texts_too_long (query_texts r)") simp_all
  then have "x = Inr q" by (auto simp: check_time_order_def split: sum.splits if_splits)
  with x show ?thesis by simp
qed

lemma encoded_cursor: "0 < cur_Timestamp c \<Longrightarrow> cur_Timestamp c < 2 ^ 63 \<Longrightarrow> 0 < cur_ID c \<Longrightarrow> cur_ID c < 2 ^ 63
    \<Longrightarrow> encodeRequestCursor c \<noteq> []"
proof
  assume "0 < cur_Timestamp c" "cur_Timestamp c < 2 ^ 63" "0 < cur_ID c" "cur_ID c < 2 ^ 63" "encodeRequestCursor c = []"
  with cursor_round_trip [of c] have "decodeRequestCursor [] = Inr c" by simp
  moreover have "\<not> isOK (decodeRequestCursor [])" by code_simp
  ultimately show False by (simp add: isOK_def)
qed

definition codable :: "RequestEvent \<Rightarrow> bool" where
  "codable e \<longleftrightarrow> 0 < ev_Timestamp e \<and> ev_Timestamp e < 2 ^ 63 \<and> 0 < ev_ID e \<and> ev_ID e < 2 ^ 63"

lemma handled_page:
  assumes "refines (ad_json ad) (fst (as_meta s)) rep" "ad_metaFaults ad = (\<lambda>_. None)"
    and "\<And>now. parseRequestEventQuery (ad_times ad) now r 50 = Inr q" and "QueryRequestEvents None q rep = Inr page"
  shows "\<exists>s'. handleRequests ad h r s = (Some (writeJSON h 200 (ARequests (Events page)
      (case Next page of None \<Rightarrow> [] | Some c \<Rightarrow> encodeRequestCursor c))), s') \<and> fst (as_meta s') = fst (as_meta s)"
proof -
  obtain x m where x: "SQL_QueryRequestEvents (\<lambda>_. None) (ad_json ad) q (as_meta s) = (x, m)"
    by (cases "SQL_QueryRequestEvents (\<lambda>_. None) (ad_json ad) q (as_meta s)")
  with query_related [OF assms(1), of q] assms(4) have "x = Inr page" "fst m = fst (as_meta s)" by simp_all
  with x show ?thesis
    by (simp add: handleRequests_def clock_def assms(2,3) answering_def meta_def reply_def)
qed

lemma history_suffix:
  assumes "events_ok rep" "0 < q_Limit q" "ad_metaFaults ad = (\<lambda>_. None)"
    and base: "parseRequestEventQuery (ad_times ad) now0 r0 50 = Inr q" "query_value r0 ''window'' = []" "query_value r0 ''cursor'' = []"
    and codes: "\<forall>e \<in> set (mem_events rep). codable e"
  shows "all_events q rep = pre @ post \<Longrightarrow> length post < n \<Longrightarrow> refines (ad_json ad) (fst (as_meta s)) rep
    \<Longrightarrow> (\<And>now. parseRequestEventQuery (ad_times ad) now r 50 = Inr (q\<lparr>q_Cursor := cursor_after pre\<rparr>))
    \<Longrightarrow> (\<And>k. k \<noteq> ''cursor'' \<Longrightarrow> query_value r k = query_value r0 k)
    \<Longrightarrow> concat (history n ad h r s) = post \<and> (\<forall>es \<in> set (history n ad h r s). int (length es) \<le> q_Limit q)"
proof (induction n arbitrary: pre post r s)
  case (Suc n)
  note page = Query_page [OF assms(1) Suc.prems(1) assms(2)]
  show ?case
  proof (cases "int (length post) > q_Limit q")
    case True
    let ?a = "take (nat (q_Limit q)) post" and ?b = "drop (nat (q_Limit q)) post"
    have a: "?a \<noteq> []" using assms(2) True by auto
    define c where "c = \<lparr>cur_Timestamp = ev_Timestamp (last (pre @ ?a)), cur_ID = ev_ID (last (pre @ ?a))\<rparr>"
    have after: "cursor_after (pre @ ?a) = Some c" using a by (simp add: cursor_after_def c_def)
    have "last (pre @ ?a) = last ?a" by (rule last_appendR [OF a])
    with in_set_takeD [OF last_in_set [OF a]] have "last (pre @ ?a) \<in> set (all_events q rep)"
      unfolding Suc.prems(1) set_append by (simp only: UnI2)
    then have "codable (last (pre @ ?a))" using codes by (auto simp: all_events_def)
    then have c: "0 < cur_Timestamp c" "cur_Timestamp c < 2 ^ 63" "0 < cur_ID c" "cur_ID c < 2 ^ 63"
      by (simp_all add: c_def codable_def)
    from handled_page [OF Suc.prems(3) assms(3) Suc.prems(4) page, of h] True obtain s' where
      s': "handleRequests ad h r s = (Some (writeJSON h 200 (ARequests ?a (encodeRequestCursor c))), s')"
      "fst (as_meta s') = fst (as_meta s)" by (auto simp: after)
    have "concat (history n ad h (with_cursor (encodeRequestCursor c) r) s') = ?b
      \<and> (\<forall>es \<in> set (history n ad h (with_cursor (encodeRequestCursor c) r) s'). int (length es) \<le> q_Limit q)"
    proof (rule Suc.IH)
      show "all_events q rep = (pre @ ?a) @ ?b" using Suc.prems(1) by simp
      show "length ?b < n" using Suc.prems(2) assms(2) True by auto
      show "refines (ad_json ad) (fst (as_meta s')) rep" using Suc.prems(3) s'(2) by simp
      show "parseRequestEventQuery (ad_times ad) now (with_cursor (encodeRequestCursor c) r) 50
          = Inr (q\<lparr>q_Cursor := cursor_after (pre @ ?a)\<rparr>)" for now
        unfolding after by (rule parse_with_cursor [OF base cursor_round_trip [OF c] encoded_cursor [OF c] Suc.prems(5)])
      show "query_value (with_cursor (encodeRequestCursor c) r) k = query_value r0 k" if "k \<noteq> ''cursor''" for k
        using Suc.prems(5) that by simp
    qed
    then show ?thesis using s'(1) encoded_cursor [OF c] assms(2) by (simp add: writeJSON_def)
  next
    case False
    from handled_page [OF Suc.prems(3) assms(3) Suc.prems(4) page, of h] False obtain s' where
      "handleRequests ad h r s = (Some (writeJSON h 200 (ARequests post [])), s')" by auto
    then show ?thesis using False by (simp add: writeJSON_def)
  qed
qed simp


section \<open>Three events in pages of two\<close>

definition hx_event :: RequestEvent where
  "hx_event = \<lparr>ev_ID = 0, ev_Timestamp = 7, ev_Operation = OperationPull, ev_ClientIdentity = [],
     ev_CredentialSource = [], ev_LogicalReference = ''a:b'', ev_MatchedRoute = [], ev_SourceOrDestination = [],
     ev_Status = StatusSuccess, ev_CacheResult = CacheHit, ev_Duration = 3, ev_BytesTransferred = 0,
     ev_ErrorClassification = [], ev_Explanation = []\<rparr>"

primrec hx_sql :: "nat \<Rightarrow> MetaDB \<times> nat" where
  "hx_sql 0 = (empty_meta, 0)"
| "hx_sql (Suc n) = snd (meta_sql (ad_json wad) 9 (EventRecord hx_event) (hx_sql n))"

primrec hx_mem :: "nat \<Rightarrow> MemoryRepository" where
  "hx_mem 0 = NewMemoryRepository"
| "hx_mem (Suc n) = snd (meta_mem 9 (EventRecord hx_event) (hx_mem n))"

lemma hx_refines: "refines (ad_json wad) (fst (hx_sql n)) (hx_mem n)"
proof (induction n)
  case (Suc n)
  have "call_ok (ad_json wad) (EventRecord hx_event)" by (simp add: wad_def hx_event_def)
  from call_related [OF Suc this, of 9] show ?case by simp
qed (simp add: refines_empty)

definition hx_state :: "(unit, unit) AdminState" where "hx_state = (wst empty_db)\<lparr>as_meta := hx_sql 3\<rparr>"

definition hx_request :: HRequest where
  "hx_request = (wreq ''GET'' ''/admin/api/requests'' [])\<lparr>hreq_Query := [(''limit'', [''2''])]\<rparr>"

definition hx_query :: RequestEventQuery where
  "hx_query = \<lparr>q_Filter = no_filter, q_Limit = 2, q_Cursor = None, q_OldestFirst = False\<rparr>"

lemma hx_values: "query_value hx_request k = (if k = ''limit'' then ''2'' else [])"
  by (simp add: query_value_def hx_request_def)

lemma hx_parsed: "parseRequestEventQuery tp now hx_request 50 = Inr hx_query"
proof -
  have "ParseInt ''2'' = Inr 2" by code_simp
  then show ?thesis
    by (simp add: parseRequestEventQuery_def query_texts_def hx_values texts_too_long_def parse_choices_def parse_ranges_def
        Let_def if_present_def check_time_order_def hx_query_def no_filter_def)
qed

lemma hx_repo: "mem_events (hx_mem 3) = [hx_event\<lparr>ev_ID := 1\<rparr>, hx_event\<lparr>ev_ID := 2\<rparr>, hx_event\<lparr>ev_ID := 3\<rparr>]"
  "all_events hx_query (hx_mem 3) = [hx_event\<lparr>ev_ID := 3\<rparr>, hx_event\<lparr>ev_ID := 2\<rparr>, hx_event\<lparr>ev_ID := 1\<rparr>]"
  by code_simp+



end
