(* ===== verification/File_System.thy ===== *)
theory File_System
  imports SQLite_Invariants Content_Store
begin

text \<open>
  What the commands use of the operating system: slash-separated paths (path/filepath), a tree of
  files with the calls of package os, and command-line flags (package flag). A path denotes the
  node at its cleaned form; a symbolic link is a leaf that is never followed, and the links of the
  directories above a path are not modelled. The n-th call may fail with any error, in which case
  it changes nothing, but for a failed write, which may have written a part of its data.
\<close>

unbundle bit_operations_syntax

section \<open>Paths\<close>

text \<open>A cleaned path: whether it is rooted, and its elements.\<close>

type_synonym loc = "bool \<times> string list"

fun clean_parts :: "bool \<Rightarrow> string list \<Rightarrow> string list \<Rightarrow> string list" where
  "clean_parts rooted out [] = rev out"
| "clean_parts rooted out (p # ps) =
     (if p = [] \<or> p = ''.'' then clean_parts rooted out ps
      else if p = ''..'' then
        (if out \<noteq> [] \<and> hd out \<noteq> ''..'' then clean_parts rooted (tl out) ps
         else if rooted then clean_parts rooted out ps
         else clean_parts rooted (''..'' # out) ps)
      else clean_parts rooted (p # out) ps)"

definition IsAbs :: "string \<Rightarrow> bool" where
  "IsAbs p \<longleftrightarrow> HasPrefix p ''/''"

definition locate :: "string \<Rightarrow> loc" where
  "locate p = (IsAbs p, clean_parts (IsAbs p) [] (Split CHR ''/'' p))"

definition loc_path :: "loc \<Rightarrow> string" where
  "loc_path l = (if fst l then ''/'' @ Join ''/'' (snd l) else if snd l = [] then ''.'' else Join ''/'' (snd l))"

text \<open>filepath.Clean, filepath.Join of two elements, and filepath.Dir.\<close>

definition Clean :: "string \<Rightarrow> string" where
  "Clean p = loc_path (locate p)"

definition filepath_Join :: "string \<Rightarrow> string \<Rightarrow> string" where
  "filepath_Join a b = (if a \<noteq> [] then Clean (a @ ''/'' @ b) else if b \<noteq> [] then Clean b else [])"

definition filepath_Dir :: "string \<Rightarrow> string" where
  "filepath_Dir p = Clean (rev (dropWhile (\<lambda>c. c \<noteq> CHR ''/'') (rev p)))"

subsection \<open>Elements that mean themselves\<close>

definition ordinary :: "string \<Rightarrow> bool" where
  "ordinary p \<longleftrightarrow> p \<noteq> [] \<and> p \<noteq> ''.'' \<and> p \<noteq> ''..'' \<and> CHR ''/'' \<notin> set p"

text \<open>The elements of cleaned paths: dot-dot at most at the front, and not below the root.\<close>

definition clean_loc :: "loc \<Rightarrow> bool" where
  "clean_loc l \<longleftrightarrow> (\<exists>n ds. snd l = replicate n ''..'' @ ds \<and> (fst l \<longrightarrow> n = 0) \<and> list_all ordinary ds)"

lemma Split_app: "Split c (a @ c # b) = Split c a @ Split c b"
proof (induction a)
  case (Cons x a)
  then show ?case by (cases "Split c a") auto
qed simp

lemma clean_parts_append: "clean_parts r out (xs @ ys) = clean_parts r (rev (clean_parts r out xs)) ys"
  by (induction r out xs rule: clean_parts.induct) auto

lemma clean_parts_ordinary: "list_all ordinary ds \<Longrightarrow> clean_parts r out ds = rev out @ ds"
  by (induction ds arbitrary: out) (auto simp: ordinary_def)

lemma clean_parts_dots: "\<not> r \<Longrightarrow> set out \<subseteq> {''..''} \<Longrightarrow> clean_parts r out (replicate n ''..'' @ ds) = clean_parts r (replicate n ''..'' @ out) ds"
proof (induction n arbitrary: out)
  case (Suc n)
  have "out = [] \<or> hd out = ''..''" using Suc.prems(2) by (cases out) auto
  then show ?case using Suc by (auto simp: replicate_app_Cons_same)
qed simp

lemma clean_parts_clean:
  assumes "\<forall>p \<in> set ps. CHR ''/'' \<notin> set p" "clean_loc (r, rev out)"
  shows "clean_loc (r, clean_parts r out ps)"
  using assms
proof (induction r out ps rule: clean_parts.induct)
  case (2 r out p ps)
  from 2(7) obtain n ds where o: "rev out = replicate n ''..'' @ ds" "r \<longrightarrow> n = 0" "list_all ordinary ds"
    by (auto simp: clean_loc_def)
  have t: "clean_loc (r, rev (tl out))" if "out \<noteq> []" "hd out \<noteq> ''..''"
  proof -
    have "ds \<noteq> []"
    proof
      assume "ds = []"
      then have "out = replicate n ''..''" using o(1) by (metis append_Nil2 rev_replicate rev_rev_ident)
      then show False using that by (cases n) auto
    qed
    then obtain es e where e: "ds = es @ [e]" by (metis rev_exhaust)
    then have "out = e # rev (replicate n ''..'' @ es)" using o(1)
      by (metis append.assoc append_Cons append_Nil rev.simps(2) rev_append rev_rev_ident rev_singleton_conv)
    then have "rev (tl out) = replicate n ''..'' @ es" by simp
    then show ?thesis using o(2,3) e by (auto simp: clean_loc_def)
  qed
  have d: "clean_loc (False, rev out @ [''..''])" if "\<not> (out \<noteq> [] \<and> hd out \<noteq> ''..'')" "\<not> r"
  proof -
    have "ds = []"
    proof (rule ccontr)
      assume "ds \<noteq> []"
      then have "last (rev out) \<in> set ds" "out \<noteq> []" using o(1) by auto
      then have "hd out \<in> set ds" by (simp add: last_rev)
      then show False using that o(3) \<open>out \<noteq> []\<close> by (auto simp: list_all_iff ordinary_def)
    qed
    then have "rev out @ [''..''] = replicate (Suc n) ''..'' @ []" using o(1) by (simp add: replicate_append_same)
    then show ?thesis unfolding clean_loc_def snd_conv by fastforce
  qed
  have a: "clean_loc (r, rev out @ [p])" if "ordinary p"
    using o that unfolding clean_loc_def by (auto intro!: exI [of _ n] exI [of _ "ds @ [p]"])
  have "ordinary p" if "p \<noteq> []" "p \<noteq> ''.''" "p \<noteq> ''..''" using that 2(6) by (simp add: ordinary_def)
  with 2 t d a show ?case by auto
qed simp

lemma locate_clean [simp]: "clean_loc (locate p)"
  unfolding locate_def by (rule clean_parts_clean) (auto dest: Split_no_sep simp: clean_loc_def)

lemma Join_slash_ne: "ws \<noteq> [] \<Longrightarrow> hd ws \<noteq> [] \<Longrightarrow> hd (Join sep ws) = hd (hd ws) \<and> Join sep ws \<noteq> []"
  by (cases ws; cases "tl ws") auto

lemma clean_loc_parts:
  assumes "clean_loc (r, cs)" shows "clean_parts r [] cs = cs"
proof -
  from assms obtain n ds where o: "cs = replicate n ''..'' @ ds" "r \<longrightarrow> n = 0" "list_all ordinary ds"
    by (auto simp: clean_loc_def)
  show ?thesis
  proof (cases r)
    case True
    with o show ?thesis by (simp add: clean_parts_ordinary)
  next
    case False
    then show ?thesis using clean_parts_dots [of r "[]" n ds] o by (simp add: clean_parts_ordinary)
  qed
qed

lemma clean_loc_elements: "clean_loc (r, cs) \<Longrightarrow> c \<in> set cs \<Longrightarrow> c \<noteq> [] \<and> CHR ''/'' \<notin> set c"
proof -
  assume "clean_loc (r, cs)" "c \<in> set cs"
  moreover from this(1) obtain n ds where "cs = replicate n ''..'' @ ds" "list_all ordinary ds" unfolding clean_loc_def by auto
  ultimately have "c = ''..'' \<or> ordinary c" by (auto simp: list_all_iff)
  then show ?thesis by (auto simp: ordinary_def)
qed

lemma locate_path: "clean_loc l \<Longrightarrow> locate (loc_path l) = l"
proof (cases l)
  case (Pair r cs)
  assume c: "clean_loc l"
  then have e: "\<And>c. c \<in> set cs \<Longrightarrow> c \<noteq> [] \<and> CHR ''/'' \<notin> set c" using clean_loc_elements Pair by blast
  show ?thesis
  proof (cases "cs = []")
    case True
    have "locate ''/'' = (True, [])" "locate ''.'' = (False, [])" by code_simp+
    with True Pair show ?thesis by (auto simp: loc_path_def)
  next
    case False
    have s: "Split CHR ''/'' (Join ''/'' cs) = cs" using Split_Join [OF False] e by blast
    have h: "hd (Join ''/'' cs) = hd (hd cs)" "Join ''/'' cs \<noteq> []"
      using Join_slash_ne [OF False] e [of "hd cs"] False by auto
    have "hd (hd cs) \<noteq> CHR ''/''" using e [of "hd cs"] False by (metis hd_in_set list.set_sel(1))
    then have i: "\<not> IsAbs (Join ''/'' cs)" using h by (cases "Join ''/'' cs") (auto simp: IsAbs_def)
    show ?thesis
    proof (cases r)
      case True
      then show ?thesis using False Pair s clean_loc_parts c by (simp add: loc_path_def locate_def IsAbs_def)
    next
      case f: False
      then show ?thesis using False Pair s i clean_loc_parts c by (simp add: loc_path_def locate_def)
    qed
  qed
qed

lemma locate_Clean [simp]: "locate (Clean p) = locate p"
  by (simp add: Clean_def locate_path)

lemma locate_append: "a \<noteq> [] \<Longrightarrow> locate (a @ ''/'' @ b) = (fst (locate a), clean_parts (fst (locate a)) (rev (snd (locate a))) (Split CHR ''/'' b))"
proof -
  assume "a \<noteq> []"
  then have "IsAbs (a @ ''/'' @ b) = IsAbs a" by (cases a) (auto simp: IsAbs_def)
  then show ?thesis by (simp add: locate_def Split_app clean_parts_append)
qed

text \<open>A path below a directory.\<close>

lemma locate_below:
  assumes "ds \<noteq> []" "list_all ordinary ds"
  shows "locate (filepath_Join a (Join ''/'' ds)) = (fst (locate a), snd (locate a) @ ds)"
proof -
  have s: "Split CHR ''/'' (Join ''/'' ds) = ds"
    using Split_Join [OF assms(1)] assms(2) by (auto simp: list_all_iff ordinary_def)
  show ?thesis
  proof (cases "a = []")
    case True
    have o: "hd ds \<noteq> []" "CHR ''/'' \<notin> set (hd ds)" using assms by (cases ds; simp add: ordinary_def)+
    then have "hd (hd ds) \<noteq> CHR ''/''" by (metis hd_in_set)
    then have "\<not> IsAbs (Join ''/'' ds)" "Join ''/'' ds \<noteq> []" using Join_slash_ne [OF assms(1) o(1), of "''/''"]
      by (cases "Join ''/'' ds"; simp add: IsAbs_def)+
    moreover have "locate [] = (False, [])" by code_simp
    moreover from this have "locate (Join ''/'' ds) = (False, ds)" if "\<not> IsAbs (Join ''/'' ds)"
      using that s clean_parts_ordinary [OF assms(2)] by (simp add: locate_def)
    ultimately show ?thesis using True by (simp add: filepath_Join_def)
  next
    case False
    then show ?thesis using clean_parts_ordinary [OF assms(2)] locate_append [OF False] s by (simp add: filepath_Join_def)
  qed
qed

lemma Join_ordinary_ne: "ds \<noteq> [] \<Longrightarrow> list_all ordinary ds \<Longrightarrow> Join ''/'' ds \<noteq> []"
  using Join_slash_ne [of ds "''/''"] by (cases ds) (auto simp: ordinary_def)

lemma locate_slash: "a \<noteq> [] \<Longrightarrow> locate (a @ ''/'') = locate a"
  using locate_append [of a "[]"] by simp

lemma clean_loc_append: "clean_loc (r, cs) \<Longrightarrow> list_all ordinary ds \<Longrightarrow> clean_loc (r, cs @ ds)"
proof -
  assume "clean_loc (r, cs)" and d: "list_all ordinary ds"
  then obtain n es where "cs = replicate n ''..'' @ es" "r \<longrightarrow> n = 0" "list_all ordinary es" unfolding clean_loc_def by auto
  then have "cs @ ds = replicate n ''..'' @ (es @ ds) \<and> (r \<longrightarrow> n = 0) \<and> list_all ordinary (es @ ds)" using d by simp
  then show ?thesis unfolding clean_loc_def fst_conv snd_conv by blast
qed

lemma Join_snoc: "cs \<noteq> [] \<Longrightarrow> Join sep (cs @ [c]) = Join sep cs @ sep @ c"
  by (induction sep cs rule: Join.induct) auto

lemma Dir_loc_path:
  assumes "clean_loc (r, cs)" "ordinary c" shows "locate (filepath_Dir (loc_path (r, cs @ [c]))) = (r, cs)"
proof -
  have s: "CHR ''/'' \<notin> set c" using assms(2) by (simp add: ordinary_def)
  have d: "rev (dropWhile (\<lambda>x. x \<noteq> CHR ''/'') (rev (x @ c))) = rev (dropWhile (\<lambda>x. x \<noteq> CHR ''/'') (rev x))" for x
    unfolding rev_append by (subst dropWhile_append2) (use s in auto)
  show ?thesis
  proof (cases "cs = []")
    case True
    have "locate ''/'' = (True, [])" "locate [] = (False, [])" by code_simp+
    moreover have "rev (dropWhile (\<lambda>x. x \<noteq> CHR ''/'') (rev c)) = []" using d [of "[]"] by simp
    then have "filepath_Dir c = Clean []" by (simp only: filepath_Dir_def)
    ultimately show ?thesis using True d [of "''/''"] by (simp add: loc_path_def) (simp add: filepath_Dir_def)
  next
    case False
    have "hd cs \<noteq> []" using clean_loc_elements [OF assms(1)] False by (metis hd_in_set)
    then have ne: "loc_path (r, cs) \<noteq> []" using False Join_slash_ne [of cs "''/''"] by (simp add: loc_path_def)
    have "loc_path (r, cs @ [c]) = (loc_path (r, cs) @ ''/'') @ c" using False by (simp add: loc_path_def Join_snoc)
    then have "filepath_Dir (loc_path (r, cs @ [c])) = Clean (loc_path (r, cs) @ ''/'')"
      unfolding filepath_Dir_def by (simp only: d) simp
    then show ?thesis using ne assms(1) by (simp add: locate_slash locate_path)
  qed
qed

lemma Dir_below:
  assumes "list_all ordinary (ds @ [d])"
  shows "locate (filepath_Dir (filepath_Join a (Join ''/'' (ds @ [d])))) = (fst (locate a), snd (locate a) @ ds)"
proof -
  let ?l = "(fst (locate a), snd (locate a) @ ds)"
  have "clean_loc ?l" using locate_clean [of a] clean_loc_append [of _ _ ds] assms by (cases "locate a") auto
  moreover have "ordinary d" using assms by simp
  moreover have "filepath_Join a (Join ''/'' (ds @ [d])) = loc_path (locate (filepath_Join a (Join ''/'' (ds @ [d]))))"
    using Join_ordinary_ne [OF _ assms] by (simp add: filepath_Join_def) (simp add: Clean_def)
  with locate_below [OF _ assms, of a]
  have "filepath_Join a (Join ''/'' (ds @ [d])) = loc_path (fst (locate a), (snd (locate a) @ ds) @ [d])" by simp
  ultimately show ?thesis using Dir_loc_path [of "fst (locate a)" "snd (locate a) @ ds" d] by simp
qed

text \<open>A cleaned name with a leading element.\<close>

lemma Clean_prefix:
  assumes "HasPrefix (Clean p) (w @ ''/'')" "ordinary w" "\<not> IsAbs p"
  obtains ds where "list_all ordinary ds" "TrimPrefix (Clean p) (w @ ''/'') = Join ''/'' ds" "ds \<noteq> []"
proof -
  obtain r cs where l: "locate p = (r, cs)" by (cases "locate p")
  have r: "\<not> r" using assms(3) l by (simp add: locate_def)
  have c: "clean_loc (r, cs)" using l locate_clean [of p] by simp
  have e: "\<And>c. c \<in> set cs \<Longrightarrow> c \<noteq> [] \<and> CHR ''/'' \<notin> set c" using clean_loc_elements c by blast
  from assms(1) obtain rest where j: "Clean p = w @ CHR ''/'' # rest" by (auto simp: prefix_def)
  then have ne: "cs \<noteq> []" using l r assms(2) by (auto simp: Clean_def loc_path_def ordinary_def Cons_eq_append_conv)
  then have J: "Join ''/'' cs = w @ CHR ''/'' # rest" using j l r by (simp add: Clean_def loc_path_def)
  have "Split CHR ''/'' (Join ''/'' cs) = cs" using Split_Join [OF ne] e by blast
  then have cs: "cs = w # Split CHR ''/'' rest" using Split_append assms(2) J by (simp add: ordinary_def)
  obtain n ds where o: "cs = replicate n ''..'' @ ds" "list_all ordinary ds" using c by (auto simp: clean_loc_def)
  have "n = 0" using o cs assms(2) by (cases n) (auto simp: ordinary_def)
  then have "list_all ordinary (Split CHR ''/'' rest)" using o cs by (metis append_Nil list.pred_inject(2) replicate_0)
  moreover have "TrimPrefix (Clean p) (w @ ''/'') = rest" using j TrimPrefix_append [of "w @ ''/''" rest] by simp
  ultimately show thesis using that [of "Split CHR ''/'' rest"] by simp
qed

section \<open>Files\<close>

datatype node = RegNode string int | DirNode | LinkNode string | OtherNode

type_synonym Files = "(loc \<times> node) list"
type_synonym 'a osm = "(Files, 'a) dbm"

text \<open>The root, the working directory and the directories above it are always there.\<close>

definition node_at :: "Files \<Rightarrow> loc \<Rightarrow> node option" where
  "node_at fs l = (if list_all (\<lambda>c. c = ''..'') (snd l) then Some DirNode else map_of fs l)"

record OSFaults =
  os_err :: "nat \<Rightarrow> goerr option"
  os_short :: "nat \<Rightarrow> nat"

definition not_exist :: goerr where "not_exist = GoErr ''file does not exist'' [ErrNotExist]"

definition Lstat :: "OSFaults \<Rightarrow> string \<Rightarrow> node osm" where
  "Lstat F p = sql (os_err F) (\<lambda>fs. case node_at fs (locate p) of None \<Rightarrow> Inl not_exist | Some n \<Rightarrow> Inr (n, fs))"

text \<open>A link leads nowhere.\<close>

definition Stat :: "OSFaults \<Rightarrow> string \<Rightarrow> node osm" where
  "Stat F p = sql (os_err F) (\<lambda>fs. case node_at fs (locate p) of None \<Rightarrow> Inl not_exist
     | Some (LinkNode _) \<Rightarrow> Inl not_exist | Some n \<Rightarrow> Inr (n, fs))"

definition ReadFile :: "OSFaults \<Rightarrow> string \<Rightarrow> string osm" where
  "ReadFile F p = sql (os_err F) (\<lambda>fs. case node_at fs (locate p) of Some (RegNode c m) \<Rightarrow> Inr (c, fs)
     | Some DirNode \<Rightarrow> Inl (errorf ''is a directory'') | Some OtherNode \<Rightarrow> Inl (errorf ''cannot read'') | _ \<Rightarrow> Inl not_exist)"

text \<open>os.ReadDir: the number of entries.\<close>

definition ReadDir :: "OSFaults \<Rightarrow> string \<Rightarrow> nat osm" where
  "ReadDir F p = sql (os_err F) (\<lambda>fs. case node_at fs (locate p) of
       Some DirNode \<Rightarrow> Inr (length (filter (\<lambda>l. snd l \<noteq> [] \<and> (fst l, butlast (snd l)) = locate p) (map fst fs)), fs)
     | Some (LinkNode _) \<Rightarrow> Inl not_exist | None \<Rightarrow> Inl not_exist | Some _ \<Rightarrow> Inl (errorf ''not a directory''))"

definition make_dir :: "OSFaults \<Rightarrow> loc \<Rightarrow> unit osm" where
  "make_dir F l = sql (os_err F) (\<lambda>fs. case node_at fs l of Some DirNode \<Rightarrow> Inr ((), fs)
     | Some _ \<Rightarrow> Inl (errorf ''not a directory'') | None \<Rightarrow> Inr ((), fs @ [(l, DirNode)]))"

fun make_dirs :: "OSFaults \<Rightarrow> loc list \<Rightarrow> unit osm" where
  "make_dirs F [] = ret ()"
| "make_dirs F (l # ls) = andthen (make_dir F l) (\<lambda>_. make_dirs F ls)"

text \<open>The path and the directories above it, the outermost first.\<close>

definition ancestors :: "loc \<Rightarrow> loc list" where
  "ancestors l = map (\<lambda>i. (fst l, take i (snd l))) [1..<Suc (length (snd l))]"

definition MkdirAll :: "OSFaults \<Rightarrow> string \<Rightarrow> unit osm" where
  "MkdirAll F p = make_dirs F (ancestors (locate p))"

definition parent :: "loc \<Rightarrow> loc" where "parent l = (fst l, butlast (snd l))"

text \<open>os.OpenFile with O_WRONLY, O_CREATE and O_EXCL, writing to the new file, and Close.\<close>

definition create_at :: "OSFaults \<Rightarrow> loc \<Rightarrow> int \<Rightarrow> unit osm" where
  "create_at F l mode = sql (os_err F) (\<lambda>fs.
     if node_at fs l \<noteq> None then Inl (errorf ''file exists'')
     else if node_at fs (parent l) \<noteq> Some DirNode then Inl not_exist
     else Inr ((), fs @ [(l, RegNode [] mode)]))"

definition CreateExclusive :: "OSFaults \<Rightarrow> string \<Rightarrow> int \<Rightarrow> unit osm" where
  "CreateExclusive F p mode = create_at F (locate p) mode"

fun node_append :: "string \<Rightarrow> node \<Rightarrow> node" where
  "node_append d (RegNode c m) = RegNode (c @ d) m"
| "node_append d n = n"

definition change_at :: "loc \<Rightarrow> (node \<Rightarrow> node) \<Rightarrow> Files \<Rightarrow> Files" where
  "change_at l f fs = map (\<lambda>(k, n). (k, if k = l then f n else n)) fs"

definition Write :: "OSFaults \<Rightarrow> string \<Rightarrow> string \<Rightarrow> unit osm" where
  "Write F p d s =
    (case os_err F (snd s) of
       Some e \<Rightarrow> (Inl e, change_at (locate p) (node_append (take (os_short F (snd s)) d)) (fst s), Suc (snd s))
     | None \<Rightarrow> (Inr (), change_at (locate p) (node_append d) (fst s), Suc (snd s)))"

text \<open>Chmod and Sync of an open file.\<close>

definition Chmod :: "OSFaults \<Rightarrow> string \<Rightarrow> int \<Rightarrow> unit osm" where
  "Chmod F p mode = sql (os_err F) (\<lambda>fs. Inr ((), change_at (locate p) (\<lambda>n. case n of RegNode c _ \<Rightarrow> RegNode c mode | _ \<Rightarrow> n) fs))"

definition Sync :: "OSFaults \<Rightarrow> unit osm" where
  "Sync F = query (os_err F) (\<lambda>_. ())"

definition Close :: "OSFaults \<Rightarrow> unit osm" where
  "Close F = query (os_err F) (\<lambda>_. ())"

definition Remove :: "OSFaults \<Rightarrow> string \<Rightarrow> unit osm" where
  "Remove F p = sql (os_err F) (\<lambda>fs. if node_at fs (locate p) = None then Inl not_exist
     else Inr ((), filter (\<lambda>(k, n). k \<noteq> locate p) fs))"

definition Rename :: "OSFaults \<Rightarrow> string \<Rightarrow> string \<Rightarrow> unit osm" where
  "Rename F a b = sql (os_err F) (\<lambda>fs. case node_at fs (locate a) of None \<Rightarrow> Inl not_exist
     | Some n \<Rightarrow> Inr ((), (locate b, n) # filter (\<lambda>(k, n). k \<noteq> locate a \<and> k \<noteq> locate b) fs))"

text \<open>A step that does not call the system, and a call whose error is not looked at.\<close>

definition returning :: "'a result \<Rightarrow> 'a osm" where
  "returning r = (case r of Inl e \<Rightarrow> fail e | Inr x \<Rightarrow> ret x)"

definition ignoring :: "'a osm \<Rightarrow> unit osm" where
  "ignoring m s = (Inr (), snd (m s))"

section \<open>What the calls do\<close>

lemma map_of_change_at [simp]: "map_of (change_at l f fs) k = (if k = l then map_option f (map_of fs k) else map_of fs k)"
  by (induction fs) (auto simp: change_at_def)

lemma change_at_keys [simp]: "map fst (change_at l f fs) = map fst fs"
  by (simp add: change_at_def comp_def split_beta)

lemma node_at_None: "node_at fs l = None \<longleftrightarrow> \<not> list_all (\<lambda>c. c = ''..'') (snd l) \<and> map_of fs l = None"
  by (simp add: node_at_def)

lemma node_at_cong: "map_of fs l = map_of fs' l \<Longrightarrow> node_at fs l = node_at fs' l"
  by (simp add: node_at_def)

text \<open>The files of A may be added, as directories and private files; nothing else changes.\<close>

definition private_node :: "node \<Rightarrow> bool" where
  "private_node n \<longleftrightarrow> n = DirNode \<or> (\<exists>c m. n = RegNode c (m AND 448))"

definition grows :: "loc set \<Rightarrow> Files \<Rightarrow> Files \<Rightarrow> bool" where
  "grows A fs fs' \<longleftrightarrow> (\<forall>l. map_of fs' l = map_of fs l
     \<or> map_of fs l = None \<and> l \<in> A \<and> (case map_of fs' l of None \<Rightarrow> False | Some n \<Rightarrow> private_node n))"

lemma growsD:
  assumes "grows A fs fs'"
  shows "map_of fs' l = map_of fs l \<or> map_of fs l = None \<and> l \<in> A
    \<and> (\<exists>n. map_of fs' l = Some n \<and> (n = DirNode \<or> (\<exists>c m. n = RegNode c (m AND 448))))"
proof -
  from assms have "map_of fs' l = map_of fs l
     \<or> map_of fs l = None \<and> l \<in> A \<and> (case map_of fs' l of None \<Rightarrow> False | Some n \<Rightarrow> private_node n)"
    unfolding grows_def by blast
  then show ?thesis by (cases "map_of fs' l") (simp_all add: private_node_def)
qed

text \<open>Only the file of l may change.\<close>

definition same_but :: "loc \<Rightarrow> Files \<Rightarrow> Files \<Rightarrow> bool" where
  "same_but l fs fs' \<longleftrightarrow> (\<forall>k. k = l \<or> map_of fs' k = map_of fs k)"

lemma same_butD: "same_but l fs fs' \<Longrightarrow> k \<noteq> l \<Longrightarrow> map_of fs' k = map_of fs k"
  unfolding same_but_def by blast

lemma same_but_change [simp]: "same_but l fs (change_at l f fs)"
  unfolding same_but_def map_of_change_at by presburger

lemma preorder_grows [simp, intro]: "preorder (grows A)"
  unfolding preorder_def reflp_def transp_def grows_def by (auto split: option.splits) metis+

lemma preorder_same_but [simp, intro]: "preorder (same_but l)"
  unfolding preorder_def reflp_def transp_def same_but_def by metis

lemma make_dir_grows: "l \<in> A \<Longrightarrow> keeps (grows A) (make_dir F l)"
  unfolding make_dir_def by (rule keeps_sql)
    (auto simp: grows_def private_node_def map_add_def node_at_None split: option.splits node.splits if_splits)

lemma make_dirs_grows: "set ls \<subseteq> A \<Longrightarrow> keeps (grows A) (make_dirs F ls)"
  by (induction ls) (auto intro!: keeps_intros make_dir_grows)

lemma MkdirAll_grows: "set (ancestors (locate p)) \<subseteq> A \<Longrightarrow> keeps (grows A) (MkdirAll F p)"
  by (simp add: MkdirAll_def make_dirs_grows)

lemma calls_keep [keeps_intros]:
  assumes "preorder R"
  shows "keeps R (Stat F p)" "keeps R (Lstat F p)" "keeps R (ReadFile F p)" "keeps R (ReadDir F p)" "keeps R (Close F)"
    "keeps R (Sync F)" "keeps R (returning x)"
  using assms by (auto simp: Stat_def Lstat_def ReadFile_def ReadDir_def Close_def Sync_def returning_def intro!: keeps_intros keeps_sql split: option.splits node.splits sum.splits)

text \<open>A system in which no call fails.\<close>

definition fault_free :: OSFaults where "fault_free = \<lparr>os_err = (\<lambda>_. None), os_short = (\<lambda>_. 0)\<rparr>"

lemma fault_free_simps [simp]: "os_err fault_free n = None" "os_short fault_free n = 0"
  by (simp_all add: fault_free_def)

section \<open>Flags\<close>

text \<open>strconv.ParseBool, and FlagSet.Parse over string and boolean flags, whose values are kept by name.\<close>

definition ParseBool :: "string \<Rightarrow> bool result" where
  "ParseBool s =
    (if s \<in> {''1'', ''t'', ''T'', ''true'', ''TRUE'', ''True''} then Inr True
     else if s \<in> {''0'', ''f'', ''F'', ''false'', ''FALSE'', ''False''} then Inr False
     else Inl (errorf ''invalid syntax''))"

definition bool_value :: "bool \<Rightarrow> string" where "bool_value b = (if b then ''true'' else ''false'')"

datatype flag_kind = StringFlag | BoolFlag

fun parse_flags :: "(string \<times> flag_kind) list \<Rightarrow> (string \<times> string) list \<Rightarrow> string list \<Rightarrow> (string \<times> string) list result" where
  "parse_flags defs vals [] = Inr vals"
| "parse_flags defs vals (s # args) =
     (if length s < 2 \<or> hd s \<noteq> CHR ''-'' \<or> s = ''--'' then Inr vals
      else
      let body = (if s ! 1 = CHR ''-'' then drop 2 s else drop 1 s) in
      if body = [] \<or> hd body = CHR ''-'' \<or> hd body = CHR ''='' then Inl (errorf ''bad flag syntax: %s'')
      else
      (case (case Cut body CHR ''='' of None \<Rightarrow> (body, None) | Some (a, b) \<Rightarrow> (a, Some b)) of (name, val) \<Rightarrow>
       case map_of defs name of
         None \<Rightarrow> Inl (errorf (if name = ''help'' \<or> name = ''h'' then ''flag: help requested'' else ''flag provided but not defined: -%s''))
       | Some BoolFlag \<Rightarrow>
           (case val of None \<Rightarrow> parse_flags defs (AList.update name (bool_value True) vals) args
            | Some v \<Rightarrow>
              (case ParseBool v of Inl _ \<Rightarrow> Inl (errorf ''invalid boolean value %q for -%s: %v'')
               | Inr b \<Rightarrow> parse_flags defs (AList.update name (bool_value b) vals) args))
       | Some StringFlag \<Rightarrow>
           (case val of Some v \<Rightarrow> parse_flags defs (AList.update name v vals) args
            | None \<Rightarrow>
              (case args of [] \<Rightarrow> Inl (errorf ''flag needs an argument: -%s'')
               | v # args \<Rightarrow> parse_flags defs (AList.update name v vals) args))))"

definition flag :: "(string \<times> string) list \<Rightarrow> string \<Rightarrow> string" where
  "flag vals name = (case map_of vals name of None \<Rightarrow> [] | Some v \<Rightarrow> v)"

text \<open>The flags of a command that has only string flags, with their defaults.\<close>

definition string_flags :: "(string \<times> string) list \<Rightarrow> string list \<Rightarrow> (string \<times> string) list result" where
  "string_flags defaults args = parse_flags (map (\<lambda>(n, v). (n, StringFlag)) defaults) defaults args"

end
