(* ===== verification/App.thy ===== *)
theory App
  imports Admin Gateway OCI_Tokens Credentials HTTP_Connector File_System
begin

text \<open>
  The application (internal/app/app.go, internal/security/http.go): New puts the components
  together, the mux hands a request to the registry API, the administration, the probes or the CA
  certificate, and the plain HTTP listener redirects to HTTPS. The services, clocks and random
  sources of an AdminServer, the HTTP environment of the connectors, the URL functions of net/url
  and the opening of the store and the database are parameters.
\<close>

section \<open>Options\<close>

record Options =
  opt_ConfigPath :: string
  opt_ContentRoot :: string
  opt_MetadataPath :: string
  opt_ListenAddr :: string
  opt_StubSources :: bool
  opt_StubFixtures :: bool
  opt_CredentialKeyID :: string
  opt_CredentialKeyFile :: string
  opt_HTTPSListenAddr :: string
  opt_TLSCertFile :: string
  opt_TLSKeyFile :: string
  opt_TLSCAFile :: string
  opt_HTTPSRedirectPort :: string

definition metadataPath :: "Options \<Rightarrow> string" where
  "metadataPath o1 = (if opt_MetadataPath o1 \<noteq> [] then opt_MetadataPath o1
     else filepath_Join (opt_ContentRoot o1) ''metadata/regstair.db'')"

definition zeroDigest :: string where "zeroDigest = ''sha256:'' @ replicate 64 (CHR ''0'')"

section \<open>Upstream registries\<close>

text \<open>The token cache of each HTTP connector, the stub registries with their call counters, and the network.\<close>

record 'n Upstream =
  up_caches :: "string \<Rightarrow> string \<Rightarrow> cachedToken option"
  up_fakes :: "string \<Rightarrow> FakeState"
  up_net :: 'n

datatype built = BuiltFake FakeConnector | BuiltHTTP HTTPConnector

definition digestBytes :: "(string \<Rightarrow> string) \<Rightarrow> string \<Rightarrow> string" where
  "digestBytes H body = sha_name (H body)"

definition quoted :: "string \<Rightarrow> string" where "quoted s = [CHR 0x22] @ s @ [CHR 0x22]"

definition fixture_body :: "string \<Rightarrow> string" where
  "fixture_body blobDigest =
     ''{'' @ quoted ''schemaVersion'' @ '':2,'' @ quoted ''config'' @ '':{'' @ quoted ''digest'' @ '':'' @ quoted blobDigest
     @ ''},'' @ quoted ''layers'' @ '':[{'' @ quoted ''digest'' @ '':'' @ quoted blobDigest @ ''}]}''"

definition addStubFixtures :: "(string \<Rightarrow> string) \<Rightarrow> FakeConnector \<Rightarrow> FakeConnector" where
  "addStubFixtures H connector =
    (let blob = ''hello regstair''; blobDigest = digestBytes H blob; body = fixture_body blobDigest in
     AddManifest ''library/nginx'' ''1.27''
       \<lparr>rd_MediaType = ''application/vnd.oci.image.manifest.v1+json'', rd_Digest = digestBytes H body,
        rd_Size = int (length body), Content = body, BlobDigests = [blobDigest]\<rparr>
       (AddBlob blobDigest blob connector))"

text \<open>The connectors are a Go map, an association list.\<close>

fun buildConnectors ::
  "'n HTTPEnv \<Rightarrow> (string \<Rightarrow> string) \<Rightarrow> Options \<Rightarrow> (string \<times> built) list \<Rightarrow> ConfigSource list \<Rightarrow> (string \<times> built) list result" where
  "buildConnectors env H options connectors [] = Inr connectors"
| "buildConnectors env H options connectors (source # sources) =
     (if \<not> cs_Enabled source then buildConnectors env H options connectors sources
      else if opt_StubSources options then
        let connector = NewFakeConnector (cs_ID source);
            connector = (if opt_StubFixtures options then addStubFixtures H connector else connector) in
        buildConnectors env H options (AList.update (cs_ID source) (BuiltFake connector) connectors) sources
      else
      (case NewHTTPConnector env (cs_ID source) (cs_Endpoint source) None False (TokenHosts (cs_Auth source)) of
         Inl e \<Rightarrow> Inl (wrapf ''create connector %q: %w'' e)
       | Inr connector \<Rightarrow> buildConnectors env H options (AList.update (cs_ID source) (BuiltHTTP connector) connectors) sources))"

text \<open>A connector whose state is a part of another.\<close>

definition on_part :: "('v \<Rightarrow> 'w) \<Rightarrow> ('w \<Rightarrow> 'v \<Rightarrow> 'v) \<Rightarrow> ('w \<Rightarrow> 'a \<times> 'w) \<Rightarrow> 'v \<Rightarrow> 'a \<times> 'v" where
  "on_part get put f v = (case f (get v) of (x, w) \<Rightarrow> (x, put w v))"

definition mounted :: "('v \<Rightarrow> 'w) \<Rightarrow> ('w \<Rightarrow> 'v \<Rightarrow> 'v) \<Rightarrow> 'w Connector \<Rightarrow> 'v Connector" where
  "mounted get put C =
    \<lparr>cn_Name = cn_Name C, cn_Health = (\<lambda>v. cn_Health C (get v)),
     cn_ResolveManifest = (\<lambda>v repo ref. on_part get put (\<lambda>w. cn_ResolveManifest C w repo ref) v),
     cn_OpenBlob = (\<lambda>v repo d. on_part get put (\<lambda>w. cn_OpenBlob C w repo d) v),
     cn_PutBlob = (\<lambda>v repo d r. on_part get put (\<lambda>w. cn_PutBlob C w repo d r) v),
     cn_PutManifest = (\<lambda>v repo ref m. on_part get put (\<lambda>w. cn_PutManifest C w repo ref m) v)\<rparr>"

definition cache_of :: "string \<Rightarrow> 'n Upstream \<Rightarrow> 'n HTTPState" where "cache_of i v = (up_caches v i, up_net v)"
definition set_cache :: "string \<Rightarrow> 'n HTTPState \<Rightarrow> 'n Upstream \<Rightarrow> 'n Upstream" where
  "set_cache i st v = v\<lparr>up_caches := (up_caches v)(i := fst st), up_net := snd st\<rparr>"
definition set_fake :: "string \<Rightarrow> FakeState \<Rightarrow> 'n Upstream \<Rightarrow> 'n Upstream" where
  "set_fake i st v = v\<lparr>up_fakes := (up_fakes v)(i := st)\<rparr>"

definition built_connector ::
  "'n HTTPEnv \<Rightarrow> (string \<Rightarrow> string) \<Rightarrow> (nat \<Rightarrow> goerr option) \<Rightarrow> string \<Rightarrow> built \<Rightarrow> 'n Upstream Connector" where
  "built_connector env H cx i b =
    (case b of BuiltFake c \<Rightarrow> mounted (\<lambda>v. up_fakes v i) (set_fake i) (Fake_ops H cx (fk_name c))
     | BuiltHTTP c \<Rightarrow> mounted (cache_of i) (set_cache i) (HTTP_ops env c))"

definition built_health ::
  "'n HTTPEnv \<Rightarrow> (nat \<Rightarrow> goerr option) \<Rightarrow> string \<Rightarrow> built \<Rightarrow> 'n Upstream \<Rightarrow> unit result \<times> 'n Upstream" where
  "built_health env cx i b v =
    (case b of BuiltFake _ \<Rightarrow> (case up_fakes v i of (c, n) \<Rightarrow> (Fake_Health (cx n) c, set_fake i (c, Suc n) v))
     | BuiltHTTP c \<Rightarrow> (case HTTP_Health env c (cache_of i v) of (x, st) \<Rightarrow> (x, set_cache i st v)))"

text \<open>
  A connector made for a user's credential lives for one request; it starts without tokens, and a
  token it gets serves one operation here, where the code keeps it for the rest of the request.
\<close>

definition made_connector ::
  "'n HTTPEnv \<Rightarrow> ConfigSource \<Rightarrow> string \<Rightarrow> string \<Rightarrow> 'n Upstream Connector result" where
  "made_connector env source username password =
    (case runtime_factory env source username password of Inl e \<Rightarrow> Inl e
     | Inr c \<Rightarrow> Inr (mounted (\<lambda>v. (\<lambda>_. None, up_net v)) (\<lambda>st v. v\<lparr>up_net := snd st\<rparr>) (HTTP_ops env c)))"

section \<open>The application\<close>

text \<open>
  ae_admin holds the services, clocks, random sources and decoders of the program; its configuration,
  store and connectors are put in by New. ae_cx is ctx.Err() at the n-th call of a stub.
\<close>

record ('s, 'n) AppEnv =
  ae_LoadFile :: "string \<Rightarrow> Config result"
  ae_NewFileStore :: "string \<Rightarrow> 's Store result"
  ae_NewSQLiteRepository :: "string \<Rightarrow> unit result"
  ae_admin :: "('s, 'n Upstream) AdminServer"
  ae_http :: "'n HTTPEnv"
  ae_harbor :: "VerificationRequest \<Rightarrow> 'n Upstream \<Rightarrow> unit result \<times> 'n Upstream"
  ae_crypto :: Crypto
  ae_oci :: OCITokenService
  ae_random :: "nat \<Rightarrow> nat \<Rightarrow> string result"
  ae_os :: OSFaults
  ae_cx :: "nat \<Rightarrow> goerr option"
  ae_hash :: "string \<Rightarrow> string"
  ae_unmarshal :: "string \<Rightarrow> RawManifest result"
  ae_Canceled :: "goerr \<Rightarrow> bool"
  ae_EscapedPath :: "HRequest \<Rightarrow> string"
  ae_PathUnescape :: "string \<Rightarrow> string"
  ae_URL :: "string \<Rightarrow> HRequest \<Rightarrow> string"
  ae_MovedURL :: "string \<Rightarrow> HRequest \<Rightarrow> string"
  ae_MuxStatus :: int

record ('s, 'n) App =
  app_listenAddr :: string
  app_store :: "'s Store"
  app_gateway :: "('s, 'n Upstream) AdminState Gateway"
  app_admin :: "('s, 'n Upstream) AdminServer"
  app_metadataPath :: string
  app_credentialKeyring :: "SecretKeyring option"
  app_httpsListenAddr :: string
  app_tlsCertFile :: string
  app_tlsKeyFile :: string
  app_tlsCAFile :: string
  app_httpsRedirectPort :: string

record ('s, 'n) AppState =
  ap_gateway :: "('s, 'n Upstream) AdminState GatewayState"
  ap_files :: "Files \<times> nat"

section \<open>The resolvers of the program\<close>

text \<open>What the metadata repository of the resolvers and the credential selector share.\<close>

type_synonym AppMeta = "SqlState \<times> MetaDB \<times> nat"

definition on_meta :: "'a metam \<Rightarrow> AppMeta \<Rightarrow> 'a result \<times> AppMeta" where
  "on_meta f m = (case f (snd m) of (x, q) \<Rightarrow> (x, (fst m, q)))"

definition app_repository :: "('s, 'n Upstream) AdminServer \<Rightarrow> time \<Rightarrow> AppMeta Repository" where
  "app_repository ad now = (let F = ad_metaFaults ad; jc = ad_json ad in
    \<lparr>mr_RecordRequestEvent = (\<lambda>m e. on_meta (SQL_RecordRequestEvent F jc now e) m),
     mr_RecordProvenance = (\<lambda>m p. on_meta (SQL_RecordProvenance F now p) m),
     mr_RecordTagMapping = (\<lambda>m t. on_meta (SQL_RecordTagMapping F jc now t) m),
     mr_FindTagMapping = (\<lambda>m repo tag. on_meta (SQL_FindTagMapping F jc repo tag) m),
     mr_RecordCacheBindings = (\<lambda>m bs. on_meta (SQL_RecordCacheBindings F now bs) m),
     mr_ListCacheBindings = (\<lambda>m repo route d. on_meta (SQL_ListCacheBindings F repo route d) m)\<rparr>)"

definition on_sec :: "(SqlState, 'w) ConnectorProvider \<Rightarrow> (AppMeta, 'w) ConnectorProvider" where
  "on_sec p = \<lparr>cp_ConnectorFor = (\<lambda>m client source operation. case cp_ConnectorFor p (fst m) client source operation of
       (x, q) \<Rightarrow> (x, (q, snd m))),
     cp_AuthorizeCache = (\<lambda>m client binding operation. case cp_AuthorizeCache p (fst m) client binding operation of
       (x, q) \<Rightarrow> (x, (q, snd m)))\<rparr>"

definition app_resolver ::
  "('s, 'n) AppEnv \<Rightarrow> ('s, 'n Upstream) AdminServer \<Rightarrow> 's Store \<Rightarrow> Engine \<Rightarrow> SecretKeyring option
     \<Rightarrow> (string \<Rightarrow> 'n Upstream Connector option) \<Rightarrow> ('s, 'n Upstream) AdminState \<Rightarrow> ('s, AppMeta, 'n Upstream) Resolver" where
  "app_resolver E ad store engine keyring connectors s =
    \<lparr>r_policy = engine, r_store = store, r_metadata = app_repository ad (ad_dbnow ad (as_tick s)), r_connectors = connectors,
     r_provider = map_option (\<lambda>k. on_sec (runtime_provider
       \<lparr>rs_sv = services_at ad (as_tick s), rs_crypto = ae_crypto E, rs_keyring = k, rs_sources = cfg_Sources (ad_config ad),
        rs_connectors = connectors, rs_factory = made_connector (ae_http E)\<rparr>)) keyring,
     r_authorizer = Some RouteAuthorizer_Authorize, r_now = ad_now ad, r_unicode = ad_unicode ad,
     r_hash = ae_hash E, r_unmarshal = ae_unmarshal E\<rparr>"

definition resolving ::
  "(('s, AppMeta, 'w) World \<Rightarrow> 'a \<times> ('s, AppMeta, 'w) World) \<Rightarrow> ('s, 'w) AdminState \<Rightarrow> 'a \<times> ('s, 'w) AdminState" where
  "resolving f s =
    (case f \<lparr>w_store = as_store s, w_meta = (as_sec s, as_meta s), w_up = as_net s, w_tick = as_tick s\<rparr> of
       (x, w) \<Rightarrow> (x, s\<lparr>as_sec := fst (w_meta w), as_meta := snd (w_meta w), as_store := w_store w, as_net := w_up w,
                       as_tick := Suc (w_tick w)\<rparr>))"

definition app_authenticator :: "OCITokenService \<Rightarrow> ('s, 'n Upstream) AdminServer \<Rightarrow> ('s, 'n Upstream) AdminState Authenticator" where
  "app_authenticator oci ad =
    \<lparr>ga_Issue = (\<lambda>username secret repo actions. sec ad (\<lambda>sv. OCI_Issue (oci\<lparr>oci_now := sv_now sv\<rparr>) sv username secret repo actions)),
     ga_Authenticate = (\<lambda>raw repo action. sec ad (\<lambda>sv. OCI_Authenticate (oci\<lparr>oci_now := sv_now sv\<rparr>) sv raw repo action))\<rparr>"

definition app_gateway_server ::
  "('s, 'n) AppEnv \<Rightarrow> OCITokenService \<Rightarrow> ('s, 'n Upstream) AdminServer \<Rightarrow> 's Store \<Rightarrow> Engine \<Rightarrow> SecretKeyring option
     \<Rightarrow> (string \<Rightarrow> 'n Upstream Connector option) \<Rightarrow> ('s, 'n Upstream) AdminState Gateway" where
  "app_gateway_server E oci ad store engine keyring connectors =
    (let r = app_resolver E ad store engine keyring connectors in
     \<lparr>gw_puller = Some (\<lambda>req s. resolving (Resolver_Pull (r s) req) s),
      gw_blobPuller = Some (\<lambda>req s. resolving (Resolver_OpenBlob (r s) req) s),
      gw_pusher = Some (\<lambda>req s. resolving (Resolver_Push (r s) req) s),
      gw_store = (\<lambda>digest content s. case st_PutBlob store (as_store s) digest content of (x, q) \<Rightarrow> (x, s\<lparr>as_store := q\<rparr>)),
      gw_authenticator = Some (app_authenticator oci ad), gw_now = ad_now ad, gw_unicode = ad_unicode ad,
      gw_EqualFold = ad_EqualFold ad, gw_hash = ae_hash E, gw_unmarshal = ae_unmarshal E\<rparr>)"

section \<open>New\<close>

text \<open>
  The order of the checks is the code's; a failing random source of the administration server is a
  panic, None. The initial state is what the opened store, database and files hold.
\<close>

definition app_keyring :: "('s, 'n) AppEnv \<Rightarrow> Options \<Rightarrow> Files \<times> nat \<Rightarrow> SecretKeyring option result \<times> Files \<times> nat" where
  "app_keyring E options f =
    (if opt_CredentialKeyID options = [] then (Inr None, f)
     else if opt_CredentialKeyFile options = []
     then (Inl (errorf ''credential key file is required when credential key id is configured''), f)
     else
     (case LoadSecretKeyring (\<lambda>p. fst (ReadFile (ae_os E) p f)) (opt_CredentialKeyID options)
             [(opt_CredentialKeyID options, opt_CredentialKeyFile options)] of
        Inl e \<Rightarrow> (Inl e, (fst f, Suc (snd f))) | Inr k \<Rightarrow> (Inr (Some k), (fst f, Suc (snd f)))))"

definition app_admin_server ::
  "('s, 'n) AppEnv \<Rightarrow> Config \<Rightarrow> 's Store \<Rightarrow> SecretKeyring option \<Rightarrow> (string \<times> built) list \<Rightarrow> ('s, 'n Upstream) AdminServer" where
  "app_admin_server E config store keyring connectors = (ae_admin E)
    \<lparr>ad_config := config, ad_store := Some store,
     ad_auth := Some \<lparr>ac_lifetimes = \<lparr>sl_idle = 30 * minute, sl_absolute = 12 * hour\<rparr>,
       ac_credentials = map_option (\<lambda>k. (\<lparr>cv_sv = ad_services (ae_admin E), cv_crypto = ae_crypto E, cv_nonce = ad_bytes (ae_admin E) 0,
          cv_keyring = k, cv_sources = cfg_Sources config\<rparr>, ae_harbor E)) keyring\<rparr>,
     ad_connectors := (\<lambda>i. map_option (built_health (ae_http E) (ae_cx E) i) (map_of connectors i))\<rparr>"

definition initial_fakes :: "(string \<times> built) list \<Rightarrow> string \<Rightarrow> FakeState" where
  "initial_fakes connectors i = (case map_of connectors i of Some (BuiltFake c) \<Rightarrow> (c, 0) | _ \<Rightarrow> (NewFakeConnector i, 0))"

definition NewApp ::
  "('s, 'n) AppEnv \<Rightarrow> Options \<Rightarrow> ('s, 'n Upstream) AdminState \<Rightarrow> Files \<times> nat
     \<Rightarrow> (('s, 'n) App \<times> ('s, 'n) AppState) result option" where
  "NewApp E options s f =
    (if opt_ConfigPath options = [] then Some (Inl (errorf ''config path is required''))
     else if opt_ContentRoot options = [] then Some (Inl (errorf ''content root is required''))
     else
     let listenAddr = (if opt_ListenAddr options = [] then '':80'' else opt_ListenAddr options) in
     case ae_LoadFile E (opt_ConfigPath options) of Inl e \<Rightarrow> Some (Inl e)
     | Inr fileConfig \<Rightarrow>
     (case Config_PolicyConfig (ad_unicode (ae_admin E)) (ad_ParseURL (ae_admin E)) fileConfig of Inl e \<Rightarrow> Some (Inl e)
     | Inr policyConfig \<Rightarrow>
     (case NewEngine (ad_unicode (ae_admin E)) policyConfig of Inl e \<Rightarrow> Some (Inl e)
     | Inr policyEngine \<Rightarrow>
     (case ae_NewFileStore E (opt_ContentRoot options) of Inl e \<Rightarrow> Some (Inl e)
     | Inr store \<Rightarrow>
     (case ae_NewSQLiteRepository E (metadataPath options) of Inl e \<Rightarrow> Some (Inl e)
     | Inr _ \<Rightarrow>
     (case sec (ae_admin E) (\<lambda>sv. SQL_ListUsers (sv_faults sv)) s of
        (Inl e, s) \<Rightarrow> Some (Inl (wrapf ''inspect local account bootstrap state: %w'' e))
     | (Inr _, s) \<Rightarrow>
     (case NewOCITokenService (ae_random E 0) (ae_oci E) of
        Inl e \<Rightarrow> Some (Inl (wrapf ''initialize OCI token service: %w'' e))
     | Inr oci \<Rightarrow>
     (case app_keyring E options f of (Inl e, f) \<Rightarrow> Some (Inl e)
     | (Inr keyring, f) \<Rightarrow>
     (case buildConnectors (ae_http E) (ae_hash E) options [] (cfg_Sources fileConfig) of Inl e \<Rightarrow> Some (Inl e)
     | Inr connectors \<Rightarrow>
     (case NewAdminServer (ae_random E 1) (app_admin_server E fileConfig store keyring connectors) of None \<Rightarrow> None
     | Some ad \<Rightarrow>
       let ops = (\<lambda>i. map_option (built_connector (ae_http E) (ae_hash E) (ae_cx E) i) (map_of connectors i));
           limiter = NewFailureLimiter 5 (5 * minute) (15 * minute);
           s = s\<lparr>as_limiter := Some limiter, as_net := (as_net s)\<lparr>up_caches := (\<lambda>_ _. None), up_fakes := initial_fakes connectors\<rparr>\<rparr> in
       if opt_HTTPSListenAddr options \<noteq> []
          \<and> (opt_TLSCertFile options = [] \<or> opt_TLSKeyFile options = [] \<or> opt_TLSCAFile options = [])
       then Some (Inl (errorf ''HTTPS requires TLS certificate, key, and CA files''))
       else Some (Inr
         (\<lparr>app_listenAddr = listenAddr, app_store = store,
           app_gateway = app_gateway_server E oci ad store policyEngine keyring ops, app_admin = ad,
           app_metadataPath = metadataPath options, app_credentialKeyring = keyring,
           app_httpsListenAddr = opt_HTTPSListenAddr options, app_tlsCertFile = opt_TLSCertFile options,
           app_tlsKeyFile = opt_TLSKeyFile options, app_tlsCAFile = opt_TLSCAFile options,
           app_httpsRedirectPort = opt_HTTPSRedirectPort options\<rparr>,
          \<lparr>ap_gateway = \<lparr>gs_world = s, gs_limiter = Some limiter, gs_uploads = (\<lambda>_. None), gs_nextID = 0, gs_tick = 0\<rparr>,
           ap_files = f\<rparr>))))))))))))"

section \<open>Handlers\<close>

datatype app_body = FromGateway gateway_body | FromAdmin admin_body
  | AppJSON "(string \<times> string) list" | AppText string | AppFile string | AppLink string | AppEmpty
  | AppError string string

type_synonym app_response = "app_body HResponse"

definition with_body :: "('a \<Rightarrow> 'b) \<Rightarrow> 'a HResponse \<Rightarrow> 'b HResponse" where
  "with_body f r = \<lparr>hres_Status = hres_Status r, hres_Header = hres_Header r, hres_Cookies = hres_Cookies r, hres_Body = f (hres_Body r)\<rparr>"

text \<open>http.Error, writeJSON and http.Redirect to a whole URL.\<close>

definition http_Error :: "int \<Rightarrow> string \<Rightarrow> app_response" where
  "http_Error status message =
    respond [(''Content-Type'', ''text/plain; charset=utf-8''), (''X-Content-Type-Options'', ''nosniff'')] status (AppText message)"

definition app_writeJSON :: "int \<Rightarrow> (string \<times> string) list \<Rightarrow> app_response" where
  "app_writeJSON status value = respond [(''Content-Type'', ''application/json'')] status (AppJSON value)"

definition http_Redirect :: "HRequest \<Rightarrow> string \<Rightarrow> int \<Rightarrow> app_response" where
  "http_Redirect r url status =
    respond ((if hreq_Method r = ''GET'' \<or> hreq_Method r = ''HEAD'' then [(''Content-Type'', ''text/html; charset=utf-8'')] else [])
        @ [(''Location'', url)]) status
      (if hreq_Method r = ''GET'' then AppLink url else AppEmpty)"

definition handleHealth :: "HRequest \<Rightarrow> app_response" where
  "handleHealth r = (if \<not> read_request r then http_Error 405 ''method not allowed'' else app_writeJSON 200 [(''status'', ''ok'')])"

definition not_ready :: "string \<Rightarrow> app_response" where
  "not_ready component = app_writeJSON 503 [(''status'', ''not_ready''), (''component'', component)]"

fun ready_credentials :: "Crypto \<Rightarrow> SecretKeyring option \<Rightarrow> RegistryCredential list \<Rightarrow> bool" where
  "ready_credentials C keyring [] = True"
| "ready_credentials C keyring (c # cs) =
     (case keyring of None \<Rightarrow> False
      | Some k \<Rightarrow> isOK (Decrypt C k (rc_ID c) (rc_UserID c) (rc_SourceID c) (rc_EncryptedSecret c)) \<and> ready_credentials C keyring cs)"

text \<open>The loop over the users: None when every credential can be read, else what is not ready.\<close>

fun ready_users ::
  "Crypto \<Rightarrow> ('s, 'n) AdminServer \<Rightarrow> SecretKeyring option \<Rightarrow> User list \<Rightarrow> ('s, 'n) AdminState \<Rightarrow> string option \<times> ('s, 'n) AdminState" where
  "ready_users C ad keyring [] s = (None, s)"
| "ready_users C ad keyring (u # us) s =
     (case sec ad (\<lambda>sv. ListRegistryCredentialsForUser (sv_faults sv) (usr_ID u)) s of
        (Inl _, s) \<Rightarrow> (Some ''metadata'', s)
      | (Inr cs, s) \<Rightarrow> if ready_credentials C keyring cs then ready_users C ad keyring us s else (Some ''credential_key'', s))"

definition handleReady ::
  "('s, 'n) AppEnv \<Rightarrow> ('s, 'n) App \<Rightarrow> HRequest \<Rightarrow> ('s, 'n Upstream) AdminState \<Rightarrow> app_response \<times> ('s, 'n Upstream) AdminState" where
  "handleReady E a r s =
    (if \<not> read_request r then (http_Error 405 ''method not allowed'', s)
     else
     (case sec (app_admin a) (\<lambda>sv. SQL_ListUsers (sv_faults sv)) s of
        (Inl _, s) \<Rightarrow> (not_ready ''metadata'', s)
      | (Inr users, s) \<Rightarrow>
        (case ready_users (ae_crypto E) (app_admin a) (app_credentialKeyring a) users s of
           (Some component, s) \<Rightarrow> (not_ready component, s)
         | (None, s) \<Rightarrow>
           (case st_HasBlob (app_store a) (as_store s) zeroDigest of (found, q) \<Rightarrow>
            let s = s\<lparr>as_store := q\<rparr> in
            (case found of Inl err \<Rightarrow> if \<not> ae_Canceled E err then (not_ready ''content'', s)
                 else (app_writeJSON 200 [(''status'', ''ready'')], s)
             | Inr _ \<Rightarrow> (app_writeJSON 200 [(''status'', ''ready'')], s))))))"

definition handleCACertificate :: "('s, 'n) AppEnv \<Rightarrow> ('s, 'n) App \<Rightarrow> HRequest \<Rightarrow> Files \<times> nat \<Rightarrow> app_response \<times> Files \<times> nat" where
  "handleCACertificate E a r f =
    (if \<not> read_request r then (http_Error 405 ''method not allowed'', f)
     else
     (case ReadFile (ae_os E) (app_tlsCAFile a) f of
        (Inl _, f) \<Rightarrow> (http_Error 503 ''CA certificate unavailable'', f)
      | (Inr contents, f) \<Rightarrow>
        (respond [(''Content-Type'', ''application/x-x509-ca-cert''),
           (''Content-Disposition'', ''attachment; filename='' @ quoted ''regstair-ca.crt''),
           (''Cache-Control'', ''public, max-age=3600'')] 200 (AppFile contents), f)))"

section \<open>The mux\<close>

datatype route = ToGateway | ToToken | ToAdmin | ToHealth | ToReady | ToCA

text \<open>
  The patterns of http.ServeMux by their segments, the more specific first; a subtree ends in a
  slash. The path of a request is the escaped one.
\<close>

definition mux_patterns :: "('s, 'n) App \<Rightarrow> (string list \<times> bool \<times> route) list" where
  "mux_patterns a =
    [([''auth'', ''token''], False, ToToken), ([''healthz''], False, ToHealth), ([''readyz''], False, ToReady)]
    @ (if app_tlsCAFile a \<noteq> [] then [([''regstair-ca.crt''], False, ToCA)] else [])
    @ [([''admin'', ''api''], True, ToAdmin), ([''v2''], True, ToGateway), ([''admin''], True, ToAdmin), ([], True, ToAdmin)]"

definition mux_match :: "('s, 'n) AppEnv \<Rightarrow> ('s, 'n) App \<Rightarrow> string \<Rightarrow> (string list \<times> bool \<times> route) option" where
  "mux_match E a path =
    (if path = [] then None
     else let segments = map (ae_PathUnescape E) (Split CHR ''/'' (drop 1 path)) in
       find (\<lambda>(ps, subtree, _). if subtree then length ps < length segments \<and> take (length ps) segments = ps else segments = ps)
         (mux_patterns a))"

text \<open>exactMatch: a pattern without a trailing slash, or a subtree at its root.\<close>

definition exact_match :: "(string list \<times> bool \<times> route) option \<Rightarrow> string \<Rightarrow> bool" where
  "exact_match m path =
    (case m of None \<Rightarrow> False
     | Some (ps, subtree, _) \<Rightarrow> if \<not> subtree then True
         else HasSuffix path ''/'' \<and> Suc (length ps) = length (filter (\<lambda>c. c = CHR ''/'') path))"

definition cleanPath :: "string \<Rightarrow> string" where
  "cleanPath p0 =
    (if p0 = [] then ''/''
     else let p = (if hd p0 \<noteq> CHR ''/'' then CHR ''/'' # p0 else p0); np = Clean p in
       if last p = CHR ''/'' \<and> np \<noteq> ''/'' then np @ ''/'' else np)"

text \<open>findHandler: a handler, no handler, or a redirect to another path.\<close>

definition findHandler :: "('s, 'n) AppEnv \<Rightarrow> ('s, 'n) App \<Rightarrow> HRequest \<Rightarrow> string + route option" where
  "findHandler E a r =
    (let escaped = ae_EscapedPath E r;
         path = (if hreq_Method r = ''CONNECT'' then escaped else cleanPath escaped);
         m = mux_match E a path in
     if \<not> exact_match m path \<and> \<not> HasSuffix path ''/'' \<and> path \<noteq> [] \<and> exact_match (mux_match E a (path @ ''/'')) (path @ ''/'')
     then Inl (ae_MovedURL E (cleanPath (hreq_Path r) @ ''/'') r)
     else if path \<noteq> escaped then Inl (ae_MovedURL E path r)
     else Inr (map_option (\<lambda>(_, _, route). route) m))"

definition in_gateway :: "('s, 'n) AppState \<Rightarrow> ('a \<times> ('s, 'n Upstream) AdminState GatewayState) \<Rightarrow> 'a \<times> ('s, 'n) AppState" where
  "in_gateway s p = (fst p, s\<lparr>ap_gateway := snd p\<rparr>)"

definition in_admin :: "('s, 'n) AppState \<Rightarrow> ('a \<times> ('s, 'n Upstream) AdminState) \<Rightarrow> 'a \<times> ('s, 'n) AppState" where
  "in_admin s p = (fst p, s\<lparr>ap_gateway := (ap_gateway s)\<lparr>gs_world := snd p\<rparr>\<rparr>)"

text \<open>The outcome is a response, or a panic with the headers that were set before it.\<close>

definition serve_route ::
  "('s, 'n) AppEnv \<Rightarrow> ('s, 'n) App \<Rightarrow> route \<Rightarrow> HRequest \<Rightarrow> ('s, 'n) AppState \<Rightarrow> (headers + app_response) \<times> ('s, 'n) AppState" where
  "serve_route E a route r s =
    (let w = gs_world (ap_gateway s) in
     case route of
       ToGateway \<Rightarrow> (case in_gateway s (Gateway_ServeHTTP (app_gateway a) r (ap_gateway s)) of (resp, s) \<Rightarrow>
         (Inr (with_body FromGateway resp), s))
     | ToToken \<Rightarrow> (case in_gateway s (ServeTokenHTTP (app_gateway a) r (ap_gateway s)) of
         (None, s) \<Rightarrow> (Inl token_headers, s) | (Some resp, s) \<Rightarrow> (Inr (with_body FromGateway resp), s))
     | ToAdmin \<Rightarrow> (case in_admin s (Admin_ServeHTTP (app_admin a) r w) of
         (None, s) \<Rightarrow> (Inl setSecurityHeaders, s) | (Some resp, s) \<Rightarrow> (Inr (with_body FromAdmin resp), s))
     | ToHealth \<Rightarrow> (Inr (handleHealth r), s)
     | ToReady \<Rightarrow> (case in_admin s (handleReady E a r w) of (resp, s) \<Rightarrow> (Inr resp, s))
     | ToCA \<Rightarrow> (case handleCACertificate E a r (ap_files s) of (resp, f) \<Rightarrow> (Inr resp, s\<lparr>ap_files := f\<rparr>)))"

definition serve_mux ::
  "('s, 'n) AppEnv \<Rightarrow> ('s, 'n) App \<Rightarrow> HRequest \<Rightarrow> ('s, 'n) AppState \<Rightarrow> (headers + app_response) \<times> ('s, 'n) AppState" where
  "serve_mux E a r s =
    (case findHandler E a r of
       Inl url \<Rightarrow> (Inr (http_Redirect r url (ae_MuxStatus E)), s)
     | Inr None \<Rightarrow> (Inr (http_Error 404 ''404 page not found''), s)
     | Inr (Some route) \<Rightarrow> serve_route E a route r s)"

section \<open>Listeners\<close>

definition RecoverHTTP ::
  "(HRequest \<Rightarrow> 't \<Rightarrow> (headers + app_response) \<times> 't) \<Rightarrow> HRequest \<Rightarrow> 't \<Rightarrow> app_response \<times> 't" where
  "RecoverHTTP handler r s =
    (case handler r s of
       (Inr resp, s) \<Rightarrow> (resp, s)
     | (Inl h, s) \<Rightarrow> (respond (set_header ''Content-Type'' ''application/json'' h) 500
         (AppError ''internal_error'' ''The request could not be completed.''), s))"

definition app_handler :: "('s, 'n) AppEnv \<Rightarrow> ('s, 'n) App \<Rightarrow> HRequest \<Rightarrow> ('s, 'n) AppState \<Rightarrow> app_response \<times> ('s, 'n) AppState" where
  "app_handler E a = RecoverHTTP (serve_mux E a)"

definition redirectHost :: "string \<Rightarrow> string \<Rightarrow> string \<Rightarrow> string" where
  "redirectHost requestHost listenAddr publicPort =
    (let host = (case SplitHostPort requestHost of Inr (parsed, _) \<Rightarrow> parsed
           | Inl _ \<Rightarrow> if HasPrefix requestHost ''['' \<and> HasSuffix requestHost '']''
               then Trim requestHost ''[]''
               else requestHost);
         port = (if publicPort \<noteq> [] then Some publicPort else case SplitHostPort listenAddr of Inl _ \<Rightarrow> None | Inr (_, port) \<Rightarrow> Some port) in
     case port of None \<Rightarrow> host
     | Some port \<Rightarrow> if port = [] \<or> port = ''443'' then host else JoinHostPort host port)"

definition httpHandler :: "('s, 'n) AppEnv \<Rightarrow> ('s, 'n) App \<Rightarrow> HRequest \<Rightarrow> ('s, 'n) AppState \<Rightarrow> app_response \<times> ('s, 'n) AppState" where
  "httpHandler E a r s =
    (if app_httpsListenAddr a = [] then app_handler E a r s
     else if hreq_Path r \<in> {''/healthz'', ''/readyz'', ''/regstair-ca.crt''} then app_handler E a r s
     else (http_Redirect r (ae_URL E (redirectHost (hreq_Host r) (app_httpsListenAddr a) (app_httpsRedirectPort a)) r) 308, s))"

end
