(* ===== verification/Resolver_Metadata.thy ===== *)
theory Resolver_Metadata
  imports Pull_Resolver Push_Resolver SQLite_Invariants
begin

text \<open>
  What the resolvers do to the metadata: a relation that every call of the repository and of the
  connector provider keeps is kept by whole pulls, pushes and openings of blobs.
\<close>

section \<open>Steps of the world\<close>

definition mkeeps :: "('m \<Rightarrow> 'm \<Rightarrow> bool) \<Rightarrow> (('s, 'm, 'w) World \<Rightarrow> 'a \<times> ('s, 'm, 'w) World) \<Rightarrow> bool" where
  "mkeeps R f \<longleftrightarrow> (\<forall>w. R (w_meta w) (w_meta (snd (f w))))"

lemma mkeepsD: "mkeeps R f \<Longrightarrow> f w = (x, w') \<Longrightarrow> R (w_meta w) (w_meta w')"
  unfolding mkeeps_def by (metis snd_conv)

named_theorems mkeeps_intros

lemma mkeeps_bind [mkeeps_intros]:
  assumes "preorder R" "mkeeps R f" "\<And>x. mkeeps R (g x)"
  shows "mkeeps R (\<lambda>w. case f w of (x, w) \<Rightarrow> g x w)"
  unfolding mkeeps_def
proof
  fix w
  obtain x w1 where f: "f w = (x, w1)" by (metis surj_pair)
  have "R (w_meta w) (w_meta w1)" using mkeepsD [OF assms(2) f] .
  moreover have "R (w_meta w1) (w_meta (snd (g x w1)))" using assms(3) unfolding mkeeps_def by blast
  ultimately show "R (w_meta w) (w_meta (snd (case f w of (x, w) \<Rightarrow> g x w)))"
    using preorder_trans [OF assms(1)] f by simp
qed

lemma mkeeps_ret [mkeeps_intros]: "preorder R \<Longrightarrow> mkeeps R (\<lambda>w. (x, w))"
  by (simp add: mkeeps_def)

lemma mkeeps_if [mkeeps_intros]: "(b \<Longrightarrow> mkeeps R f) \<Longrightarrow> (\<not> b \<Longrightarrow> mkeeps R g) \<Longrightarrow> mkeeps R (\<lambda>w. if b then f w else g w)"
  by (cases b) simp_all

lemma mkeeps_sum [mkeeps_intros]:
  "(\<And>e. mkeeps R (f e)) \<Longrightarrow> (\<And>y. mkeeps R (g y)) \<Longrightarrow> mkeeps R (\<lambda>w. case s of Inl e \<Rightarrow> f e w | Inr y \<Rightarrow> g y w)"
  by (cases s) simp_all

lemma mkeeps_option [mkeeps_intros]:
  "mkeeps R f \<Longrightarrow> (\<And>z. q = Some z \<Longrightarrow> mkeeps R (g z)) \<Longrightarrow> mkeeps R (\<lambda>w. case q of None \<Rightarrow> f w | Some z \<Rightarrow> g z w)"
  by (cases q) simp_all

lemma mkeeps_prod [mkeeps_intros]: "(\<And>a b. mkeeps R (f a b)) \<Longrightarrow> mkeeps R (\<lambda>w. case p of (a, b) \<Rightarrow> f a b w)"
  by (cases p) simp

lemma mkeeps_Let [mkeeps_intros]: "mkeeps R (f v) \<Longrightarrow> mkeeps R (\<lambda>w. let x = v in f x w)"
  by simp

lemma mkeeps_calls [mkeeps_intros]:
  assumes "preorder R"
  shows "mkeeps R (read_now r)" "mkeeps R (store_put r d c)" "mkeeps R (store_open r d)" "mkeeps R (store_list r)" "mkeeps R (with_up u)"
  unfolding mkeeps_def read_now_def store_put_def store_open_def store_list_def with_up_def split_beta
  by (simp_all add: preorder_refl [OF assms])

lemma mkeeps_meta: "(\<And>m. R m (snd (f m))) \<Longrightarrow> mkeeps R (with_meta f)"
  by (simp add: mkeeps_def with_meta_def split_beta)

section \<open>The contract\<close>

locale metadata_contract =
  fixes r :: "('s, 'm, 'w) Resolver" and R :: "'m \<Rightarrow> 'm \<Rightarrow> bool"
  assumes order: "preorder R"
    and event: "R m (snd (mr_RecordRequestEvent (r_metadata r) m e))"
    and provenance: "R m (snd (mr_RecordProvenance (r_metadata r) m p))"
    and tag: "R m (snd (mr_RecordTagMapping (r_metadata r) m t))"
    and find_tag: "R m (snd (mr_FindTagMapping (r_metadata r) m repo name))"
    and bindings: "R m (snd (mr_RecordCacheBindings (r_metadata r) m bs))"
    and list_bindings: "R m (snd (mr_ListCacheBindings (r_metadata r) m repo name d))"
    and connector: "r_provider r = Some q \<Longrightarrow> R m (snd (cp_ConnectorFor q m client src operation))"
    and cache: "r_provider r = Some q \<Longrightarrow> R m (snd (cp_AuthorizeCache q m client b operation))"
begin

lemmas calls = order event provenance tag find_tag bindings list_bindings

lemma records:
  "mkeeps R (recordUnauthorizedPull r st q d)" "mkeeps R (recordCacheHit r st q d res)" "mkeeps R (recordFailedPull r st q d c)"
  "mkeeps R (recordSuccessfulPull r st q d res)" "mkeeps R (recordCacheBindings r q d s man cr)"
  "mkeeps R (recordRejectedPush r st pq e)" "mkeeps R (recordFailedPush r st pq pd e c2)" "mkeeps R (recordUnauthorizedPush r st pq pd)"
  "mkeeps R (recordSuccessfulPush r st pq pd pres)"
  unfolding recordUnauthorizedPull_def [abs_def] recordCacheHit_def [abs_def] recordFailedPull_def [abs_def] recordSuccessfulPull_def [abs_def]
    recordCacheBindings_def [abs_def] recordRejectedPush_def [abs_def] recordFailedPush_def [abs_def] recordUnauthorizedPush_def [abs_def]
    recordSuccessfulPush_def [abs_def]
  by (intro mkeeps_intros mkeeps_meta calls)+

lemma cacheBlobs_keep: "mkeeps R (cacheBlobs r C repo ds)"
proof (induction ds)
  case (Cons d ds)
  have "cacheBlobs r C repo (d # ds) = (\<lambda>w. case with_up (\<lambda>u. cn_OpenBlob C u repo d) w of (x, w) \<Rightarrow>
      case x of Inl e \<Rightarrow> (Inl (wrapf ''open source blob %s: %w'' e), w)
      | Inr rc \<Rightarrow> case store_put r d (bs_Reader rc) w of (y, w) \<Rightarrow> case y of Inl e \<Rightarrow> (Inl (wrapf ''cache blob %s: %w'' e), w)
      | Inr _ \<Rightarrow> case bs_Close rc of Some e \<Rightarrow> (Inl (wrapf ''close source blob %s: %w'' e), w) | None \<Rightarrow> cacheBlobs r C repo ds w)"
    by (rule ext) simp
  then show ?case using Cons by simp (intro mkeeps_intros order)
qed (simp add: mkeeps_def order)

lemma authorizeBindings_keep: "mkeeps R (authorizeBindings r p d den bs)"
proof (induction bs arbitrary: den)
  case Nil
  then show ?case by (auto simp: mkeeps_def order split: option.splits)
next
  case (Cons b bs)
  have "authorizeBindings r p d den (b # bs) = (\<lambda>w. if \<not> containsString (CandidateSources d) (cb_Source b) then authorizeBindings r p d den bs w
      else if cb_Access b = CacheAccessChallenge then (Inr (Some (b, ''anonymous'')), w)
      else case r_provider r of None \<Rightarrow> authorizeBindings r p d (Some (sentinel_err ErrCredentialRequired)) bs w
        | Some q \<Rightarrow> case with_meta (\<lambda>m. cp_AuthorizeCache q m p b OperationPull) w of (x, w) \<Rightarrow>
          case x of Inl e \<Rightarrow> authorizeBindings r p d (Some e) bs w | Inr c \<Rightarrow> (Inr (Some (b, c)), w))"
    by (rule ext) (auto split: sum.splits prod.splits option.splits)
  then show ?case using Cons by simp (intro mkeeps_intros mkeeps_meta order cache)
qed

lemma authorizeCachedObject_keep: "mkeeps R (authorizeCachedObject r p d digest)"
  unfolding authorizeCachedObject_def [abs_def] by (intro mkeeps_intros mkeeps_meta calls authorizeBindings_keep)

lemma tryCache_keep: "mkeeps R (tryCache r st q d)"
  unfolding tryCache_def [abs_def] tryCacheDigest_def [abs_def] tryCacheTag_def [abs_def] cache_hit_def [abs_def] cachedManifestByDigest_def [abs_def]
  by (intro mkeeps_intros mkeeps_meta calls records authorizeCachedObject_keep)

lemma connectors_keep: "mkeeps R (connector_for r p i operation)" "mkeeps R (push_destination r p i)"
  unfolding connector_for_def [abs_def] push_destination_def [abs_def] by (intro mkeeps_intros mkeeps_meta order connector; simp)+

lemma try_source_keep: "mkeeps R (try_source r st q d i s)"
  unfolding try_source_def [abs_def] accept_manifest_def [abs_def] cacheManifest_def [abs_def]
  by (intro mkeeps_intros order records cacheBlobs_keep connectors_keep)

lemma try_sources_keep: "mkeeps R (try_sources r st q d i e ss)"
proof (induction ss arbitrary: i e)
  case (Cons s ss)
  have "R (w_meta w) (w_meta (snd (try_sources r st q d i e (s # ss) w)))" for w
  proof -
    obtain x w1 where t: "try_source r st q d i s w = (x, w1)" by (metis surj_pair)
    have 1: "R (w_meta w) (w_meta w1)" using mkeepsD [OF try_source_keep t] .
    show ?thesis
    proof (cases x)
      case (Continue e')
      have "R (w_meta w1) (w_meta (snd (try_sources r st q d (Suc i) (Some e') ss w1)))" using Cons by (simp add: mkeeps_def)
      then show ?thesis using Continue t preorder_trans [OF order 1] by simp
    qed (use t 1 in simp_all)
  qed
  then show ?case by (simp add: mkeeps_def)
qed (simp add: mkeeps_def order)

theorem pull: "mkeeps R (Resolver_Pull r q)"
  unfolding Resolver_Pull_def [abs_def] pull_sources_def [abs_def] by (intro mkeeps_intros order records tryCache_keep try_sources_keep)

theorem open_blob: "mkeeps R (Resolver_OpenBlob r q)"
  unfolding Resolver_OpenBlob_def [abs_def] by (intro mkeeps_intros order authorizeCachedObject_keep)

lemma publishBlobs_keep: "mkeeps R (publishBlobs r C repo ds)"
proof (induction ds)
  case (Cons d ds)
  have "publishBlobs r C repo (d # ds) = (\<lambda>w. case publishBlob r C repo d w of (x, w) \<Rightarrow>
      case x of Inl e \<Rightarrow> (Inl e, w) | Inr _ \<Rightarrow> publishBlobs r C repo ds w)" by (rule ext) simp
  moreover have "mkeeps R (publishBlob r C repo d)" unfolding publishBlob_def [abs_def] by (intro mkeeps_intros order)
  ultimately show ?case using Cons by simp (intro mkeeps_intros order)
qed (simp add: mkeeps_def order)

theorem push: "mkeeps R (Resolver_Push r q)"
  unfolding Resolver_Push_def [abs_def] publish_def [abs_def] fail_push_def [abs_def] verifyAndStoreManifest_def [abs_def]
  by (intro mkeeps_intros order records publishBlobs_keep connectors_keep)

end

end
