(* ===== verification/App_Example.thy ===== *)
theory App_Example
  imports App Admin_Example OCI_Properties
begin

text \<open>
  One concrete application, on which the properties are shown to apply: the working server and the
  user root of the administration's example behind the mux, with HTTPS and no upstream registry.
\<close>

section \<open>A concrete application\<close>

definition x_http :: "unit HTTPEnv" where
  "x_http = \<lparr>he_Parse = (\<lambda>_. Inl (errorf [])), he_String = (\<lambda>_. []), he_SetQuery = (\<lambda>u _. u), he_QueryEscape = (\<lambda>x. x),
     he_Join = (@), he_NewRequest = (\<lambda>_ _. None), he_Do = (\<lambda>_ n. (Inl (errorf []), n)), he_Now = (\<lambda>_. 100),
     he_DecodeToken = (\<lambda>_. Inl (errorf [])), he_DecodeBase64 = (\<lambda>_. Inl (errorf [])), he_DecodeClaims = (\<lambda>_. Inl (errorf [])),
     he_ParseInt = (\<lambda>_. Inl (errorf [])), he_Unmarshal = (\<lambda>_. Inl (errorf [])), he_Unicode = ascii_unicode, he_Hash = (\<lambda>x. x)\<rparr>"

definition x_store :: "unit Store" where
  "x_store = \<lparr>st_PutBlob = (\<lambda>s _ _. (Inl (errorf []), s)), st_OpenBlob = (\<lambda>s _. (Inl (errorf []), s)),
     st_HasBlob = (\<lambda>s _. (Inr False, s)), st_ListBlobs = (\<lambda>s. (Inr [], s))\<rparr>"

definition x_admin :: "(unit, unit Upstream) AdminServer" where
  "x_admin = \<lparr>ad_config = ad_config wad, ad_store = None, ad_auth = None,
     ad_connectors = (\<lambda>_. None), ad_setupToken = [], ad_services = ax_sv, ad_now = ad_now wad, ad_dbnow = ad_dbnow wad,
     ad_random = ad_random wad, ad_bytes = ad_bytes wad, ad_metaFaults = ad_metaFaults wad, ad_json = ad_json wad,
     ad_decode = ad_decode wad, ad_asset = ad_asset wad, ad_unicode = ad_unicode wad,
     ad_EqualFold = (=), ad_ParseURL = ad_ParseURL wad, ad_times = ad_times wad\<rparr>"

definition x_env :: "(unit, unit) AppEnv" where
  "x_env = \<lparr>ae_LoadFile = (\<lambda>_. Inr (ad_config wad)), ae_NewFileStore = (\<lambda>_. Inr x_store), ae_NewSQLiteRepository = (\<lambda>_. Inr ()),
     ae_admin = x_admin, ae_http = x_http, ae_harbor = (\<lambda>_ n. (Inl (errorf []), n)), ae_crypto = sx_crypto, ae_oci = ox_oci,
     ae_random = (\<lambda>_. sv_random ax_sv 0), ae_os = fault_free, ae_cx = (\<lambda>_. None), ae_hash = (\<lambda>x. x),
     ae_unmarshal = (\<lambda>_. Inl (errorf [])), ae_Canceled = (\<lambda>_. False), ae_EscapedPath = hreq_Path, ae_PathUnescape = (\<lambda>x. x),
     ae_URL = (\<lambda>host r. ''https://'' @ host @ hreq_Path r), ae_MovedURL = (\<lambda>p r. p), ae_MuxStatus = 301\<rparr>"

definition x_options :: Options where
  "x_options = \<lparr>opt_ConfigPath = ''regstair.yaml'', opt_ContentRoot = ''/content'', opt_MetadataPath = [], opt_ListenAddr = [],
     opt_StubSources = False, opt_StubFixtures = False, opt_CredentialKeyID = [], opt_CredentialKeyFile = [],
     opt_HTTPSListenAddr = '':443'', opt_TLSCertFile = ''/tls/server.crt'', opt_TLSKeyFile = ''/tls/server.key'',
     opt_TLSCAFile = ''/tls/ca.crt'', opt_HTTPSRedirectPort = []\<rparr>"

definition x_state :: "SecDB \<Rightarrow> (unit, unit Upstream) AdminState" where
  "x_state db = \<lparr>as_sec = (db, 0), as_meta = (empty_meta, 0), as_store = (),
     as_net = \<lparr>up_caches = (\<lambda>_ _. None), up_fakes = (\<lambda>_. (NewFakeConnector [], 0)), up_net = ()\<rparr>, as_limiter = None, as_tick = 0\<rparr>"

lemma x_simps: "ad_unicode x_admin = ascii_unicode" "services_at x_admin k = ax_sv" "ad_services x_admin = ax_sv" "ad_decode x_admin = ad_decode wad"
  "ad_now x_admin = ad_now wad" "ad_bytes x_admin = ad_bytes wad" "cfg_Sources (ad_config wad) = []"
  by (simp_all add: x_admin_def wad_def services_at_def) (simp add: ax_sv_def)

lemma x_more: "ad_dbnow x_admin = (\<lambda>_. 100)" "ad_random x_admin = (\<lambda>_. sv_random ax_sv)" "ad_bytes wad = (\<lambda>_. ph_random px_hasher)"
  by (simp_all add: x_admin_def wad_def)

lemma x_wad: "dec_login (ad_decode wad) = (\<lambda>_. Inr (''root'', ''correct horse battery''))" by (simp add: wad_def)

lemma x_env_simps: "ae_EscapedPath x_env = hreq_Path" "ae_PathUnescape x_env = (\<lambda>x. x)" "ae_LoadFile x_env p = Inr (ad_config wad)"
  "ae_NewFileStore x_env p = Inr x_store" "ae_NewSQLiteRepository x_env p = Inr ()" "ae_admin x_env = x_admin" "ae_oci x_env = ox_oci"
  "ae_random x_env k = sv_random ax_sv 0"
  by (simp_all add: x_env_def)

lemma x_options_simps: "opt_ConfigPath x_options = ''regstair.yaml''" "opt_ContentRoot x_options = ''/content''" "opt_CredentialKeyID x_options = []"
  "opt_HTTPSListenAddr x_options = '':443''" "opt_TLSCertFile x_options = ''/tls/server.crt''" "opt_TLSKeyFile x_options = ''/tls/server.key''"
  "opt_TLSCAFile x_options = ''/tls/ca.crt''" "opt_HTTPSRedirectPort x_options = []"
  by (simp_all add: x_options_def)

lemma x_new: "\<exists>a st. NewApp x_env x_options s f = Some (Inr (a, st)) \<and> app_httpsListenAddr a = '':443'' \<and> app_tlsCAFile a = ''/tls/ca.crt''
   \<and> standard (app_admin a) \<and> ad_auth (app_admin a) = Some \<lparr>ac_lifetimes = \<lparr>sl_idle = 30 * minute, sl_absolute = 12 * hour\<rparr>, ac_credentials = None\<rparr>
   \<and> app_httpsRedirectPort a = [] \<and> app_store a = x_store \<and> app_credentialKeyring a = None"
proof -
  have sv: "services_at x_admin k = ax_sv" for k by (simp add: services_at_def x_admin_def wad_def ax_sv_def)
  have c: "Config_PolicyConfig ascii_unicode p (ad_config wad) = Inr \<lparr>pc_Sources = [], pc_Routes = []\<rparr>"
     "NewEngine ascii_unicode \<lparr>pc_Sources = [], pc_Routes = []\<rparr> = Inr \<lparr>routes = []\<rparr>" for p by (simp_all add: Config_PolicyConfig_def validateConfig_def wad_def validateRoutes_def validateSources_def
        policy_config_def NewEngine_def)
  obtain us s1 where l: "sec x_admin (\<lambda>sv. SQL_ListUsers (sv_faults sv)) s = (Inr us, s1)"
    by (simp add: sec_def SQL_ListUsers_def wrapping_def query_def sql_def sv) (simp add: ax_sv_def)
  have o: "NewOCITokenService r ox_oci = Inr ox_oci" for r by (simp add: NewOCITokenService_def ox_oci_def)
  have r: "sv_random ax_sv 0 32 = Inr (replicate 32 (CHR ''i''))" by (simp add: ax_sv_def)
  show ?thesis
    by (simp add: NewApp_def x_options_simps x_env_simps x_simps c l o app_keyring_def r NewAdminServer_def app_admin_server_def Let_def
        standard_def services_at_def x_more) (simp add: x_wad, simp add: ax_sv_def)
qed

lemma x_paths: "cleanPath ''/admin/api/login'' = ''/admin/api/login''" "Split CHR ''/'' ''admin/api/login'' = [''admin'', ''api'', ''login'']"
  by code_simp+

lemma x_find: "findHandler x_env a w_login = Inr (Some ToAdmin)"
  by (simp add: findHandler_def x_env_simps w_requests x_paths Let_def mux_match_def mux_patterns_def exact_match_def suffix_def)
     (auto simp: w_login_def wreq_def)

end
