(* ===== verification/App_Properties.thy ===== *)
theory App_Properties
  imports App_Invariants App_Example
begin

text \<open>
  The assembled application: which requests can change accounts, what the plain HTTP listener
  does when there is HTTPS, and what a readiness probe means.
\<close>

section \<open>The registry API in the application\<close>

definition tables_same :: "('s, 'n) AdminState \<Rightarrow> ('s, 'n) AdminState \<Rightarrow> bool" where
  "tables_same w w' \<longleftrightarrow> db_of w' = db_of w"

lemma preorder_tables_same: "preorder tables_same"
  by (auto simp: preorder_def reflp_def transp_def tables_same_def)

lemma keeps_sum: "(\<And>e. keeps R (f e)) \<Longrightarrow> (\<And>y. keeps R (g y)) \<Longrightarrow> keeps R (case x of Inl e \<Rightarrow> f e | Inr y \<Rightarrow> g y)"
  by (cases x) simp_all

lemma selector_reads:
  "keeps (=) (ConnectorFor rs client i operation)" "keeps (=) (AuthorizeCache rs client b operation)"
  unfolding ConnectorFor_def AuthorizeCache_def
  by (intro keeps_intros keeps_sum keeps_findCredential preorder_eq)+

lemma tokens_read:
  "keeps (=) (OCI_Issue oci sv name secret repo actions)" "keeps (=) (OCI_Authenticate oci sv raw repo action)"
  unfolding OCI_Issue_def OCI_Authenticate_def AuthenticateWithToken_def ValidateHash_def Let_def
  by (intro keeps_intros keeps_sum preorder_eq)+

lemma keeps_eq_fst: "keeps (=) m \<Longrightarrow> fst (snd (m s)) = fst s"
  by (drule keeps_snd [of _ _ s]) simp

interpretation app_resolution: metadata_contract "app_resolver E ad store engine keyring ops s" "\<lambda>m m'. fst (fst m') = fst (fst m)"
  for E ad store engine keyring ops s
proof
  show "preorder (\<lambda>m m'. fst (fst m') = fst (fst m))" by (auto simp: preorder_def reflp_def transp_def)
next
  fix q m client src operation
  assume "r_provider (app_resolver E ad store engine keyring ops s) = Some q"
  then obtain rs where q: "q = on_sec (runtime_provider rs)" by (auto simp: app_resolver_def)
  show "fst (fst (snd (cp_ConnectorFor q m client src operation))) = fst (fst m)"
    using keeps_eq_fst [OF selector_reads(1), of rs client src operation "fst m"]
    by (simp add: q on_sec_def runtime_provider_def split_beta)
next
  fix q m client b operation
  assume "r_provider (app_resolver E ad store engine keyring ops s) = Some q"
  then obtain rs where q: "q = on_sec (runtime_provider rs)" by (auto simp: app_resolver_def)
  show "fst (fst (snd (cp_AuthorizeCache q m client b operation))) = fst (fst m)"
    using keeps_eq_fst [OF selector_reads(2), of rs client b operation "fst m"]
    by (simp add: q on_sec_def runtime_provider_def split_beta)
qed (simp_all add: app_resolver_def app_repository_def on_meta_def Let_def split_beta)

lemma resolving_tables: "mkeeps (\<lambda>m m'. fst (fst m') = fst (fst m)) f \<Longrightarrow> tables_same s (snd (resolving f s))"
  unfolding tables_same_def resolving_def split_beta mkeeps_def
  by (drule spec [of _ "\<lparr>w_store = as_store s, w_meta = (as_sec s, as_meta s), w_up = as_net s, w_tick = as_tick s\<rparr>"]) simp

lemma sec_reading: "(\<And>sv. keeps (=) (f sv)) \<Longrightarrow> sec ad f s = (x, s') \<Longrightarrow> db_of s' = db_of s"
  using sec_result [of ad f s x s' "(=)"] by simp

interpretation app_registry: gateway_contract "app_gateway_server E oci ad store engine keyring ops" tables_same
  for E oci ad store engine keyring ops
proof
  fix a name secret repo actions w
  assume "gw_authenticator (app_gateway_server E oci ad store engine keyring ops) = Some a"
  then have a: "a = app_authenticator oci ad" by (simp add: app_gateway_server_def Let_def)
  show "tables_same w (snd (ga_Issue a name secret repo actions w))"
    using sec_reading [OF tokens_read(1) surjective_pairing] by (simp add: a app_authenticator_def tables_same_def)
next
  fix a raw repo action w
  assume "gw_authenticator (app_gateway_server E oci ad store engine keyring ops) = Some a"
  then have a: "a = app_authenticator oci ad" by (simp add: app_gateway_server_def Let_def)
  show "tables_same w (snd (ga_Authenticate a raw repo action w))"
    using sec_reading [OF tokens_read(2) surjective_pairing] by (simp add: a app_authenticator_def tables_same_def)
qed (auto simp: app_gateway_server_def Let_def split_beta preorder_tables_same
      intro: resolving_tables app_resolution.pull app_resolution.open_blob app_resolution.push simp del: split_paired_All, simp add: tables_same_def)

section \<open>What New builds\<close>

definition assembled :: "('s, 'n) AppEnv \<Rightarrow> ('s, 'n) App \<Rightarrow> bool" where
  "assembled E a \<longleftrightarrow> (\<exists>oci store engine keyring ops. app_gateway a = app_gateway_server E oci (app_admin a) store engine keyring ops)
     \<and> ad_auth (app_admin a) \<noteq> None \<and> (app_httpsListenAddr a \<noteq> [] \<longrightarrow> app_tlsCAFile a \<noteq> [])"

lemma assembledI:
  "app_gateway a = app_gateway_server E oci ad store engine keyring ops \<Longrightarrow> app_admin a = ad \<Longrightarrow> ad_auth ad \<noteq> None
     \<Longrightarrow> (app_httpsListenAddr a \<noteq> [] \<Longrightarrow> app_tlsCAFile a \<noteq> []) \<Longrightarrow> assembled E a"
  unfolding assembled_def by blast

lemma NewAdminServer_auth: "NewAdminServer random (app_admin_server E c store k cs) = Some ad \<Longrightarrow> ad_auth ad \<noteq> None"
  by (auto simp: NewAdminServer_def app_admin_server_def split: sum.splits)

lemma built_assembled:
  assumes "NewAdminServer random (app_admin_server E c store0 k0 cs) = Some ad" "https = [] \<or> ca \<noteq> []"
  shows "assembled E \<lparr>app_listenAddr = l, app_store = store, app_gateway = app_gateway_server E oci ad store engine keyring ops,
    app_admin = ad, app_metadataPath = m, app_credentialKeyring = keyring, app_httpsListenAddr = https, app_tlsCertFile = cert,
    app_tlsKeyFile = key, app_tlsCAFile = ca, app_httpsRedirectPort = port\<rparr>"
  by (rule assembledI [where oci = oci and ad = ad and store = store and engine = engine and keyring = keyring and ops = ops])
    (use assms NewAdminServer_auth [OF assms(1)] in simp_all)

lemma NewApp_assembled: "NewApp E options s f = Some (Inr (a, st)) \<Longrightarrow> assembled E a"
  unfolding NewApp_def Let_def
  by (simp split: if_splits sum.splits prod.splits option.splits) (use built_assembled in blast)+

abbreviation tables :: "('s, 'n) AppState \<Rightarrow> SecDB" where "tables s \<equiv> db_of (gs_world (ap_gateway s))"

lemma ready_users_reads: "ready_users C ad keyring us s = (x, s') \<Longrightarrow> db_of s' = db_of s"
proof (induction us arbitrary: s)
  case (Cons u us)
  obtain y s1 where c: "sec ad (\<lambda>sv. ListRegistryCredentialsForUser (sv_faults sv) (usr_ID u)) s = (y, s1)" by (metis surj_pair)
  have "db_of s1 = db_of s" by (rule sec_reading [OF _ c]) (intro keeps_intros preorder_eq)
  with Cons c show ?case by (auto split: sum.splits if_splits)
qed simp

lemma handleReady_reads: "handleReady E a r s = (resp, s') \<Longrightarrow> db_of s' = db_of s"
proof -
  assume h: "handleReady E a r s = (resp, s')"
  obtain y s1 where c: "sec (app_admin a) (\<lambda>sv. SQL_ListUsers (sv_faults sv)) s = (y, s1)" by (metis surj_pair)
  have "db_of s1 = db_of s" by (rule sec_reading [OF _ c]) (intro keeps_intros preorder_eq)
  then show ?thesis using h c
    by (auto simp: handleReady_def Let_def dest!: ready_users_reads split: if_splits sum.splits prod.splits option.splits)
qed

lemma route_reads:
  assumes "assembled E a" "serve_route E a route r s = (out, s')" "route \<noteq> ToAdmin"
  shows "tables s' = tables s"
proof -
  obtain oci store engine keyring ops where g: "app_gateway a = app_gateway_server E oci (app_admin a) store engine keyring ops"
    using assms(1) unfolding assembled_def by blast
  note sv = app_registry.serving [of E oci "app_admin a" store engine keyring ops, folded g]
    and tk = app_registry.issuing_tokens [of E oci "app_admin a" store engine keyring ops, folded g]
  obtain x g1 where x: "Gateway_ServeHTTP (app_gateway a) r (ap_gateway s) = (x, g1)" by (metis surj_pair)
  obtain y g2 where y: "ServeTokenHTTP (app_gateway a) r (ap_gateway s) = (y, g2)" by (metis surj_pair)
  obtain z w where z: "handleReady E a r (gs_world (ap_gateway s)) = (z, w)" by (metis surj_pair)
  from assms(2,3) sv [OF x] tk [OF y] handleReady_reads [OF z] x y z show ?thesis
    by (cases route) (auto simp: serve_route_def in_gateway_def in_admin_def tables_same_def split: option.splits prod.splits)
qed

section \<open>Who can change accounts\<close>



section \<open>The plain listener\<close>

text \<open>What is documented of URL.EscapedPath and of unescaping, for a path of one element.\<close>

definition paths_ok :: "('s, 'n) AppEnv \<Rightarrow> bool" where
  "paths_ok E \<longleftrightarrow> ae_PathUnescape E ''.'' = ''.'' \<and> ae_PathUnescape E ''..'' = ''..''
     \<and> (\<forall>r p. hreq_Path r = CHR ''/'' # p \<and> p \<noteq> [] \<and> CHR ''/'' \<notin> set p
          \<longrightarrow> (\<exists>e. e \<noteq> [] \<and> ae_EscapedPath E r = CHR ''/'' # e \<and> CHR ''/'' \<notin> set e \<and> ae_PathUnescape E e = p))"

lemma probe_route:
  assumes "paths_ok E" "app_tlsCAFile a \<noteq> []" "hreq_Path r \<in> {''/healthz'', ''/readyz'', ''/regstair-ca.crt''}"
  shows "\<exists>route \<in> {ToHealth, ToReady, ToCA}. findHandler E a r = Inr (Some route)"
proof -
  obtain p where p: "hreq_Path r = CHR ''/'' # p" "p \<in> {''healthz'', ''readyz'', ''regstair-ca.crt''}" using assms(3) by auto
  then have "p \<noteq> []" "CHR ''/'' \<notin> set p" by auto
  then obtain e where e: "e \<noteq> []" "ae_EscapedPath E r = CHR ''/'' # e" "CHR ''/'' \<notin> set e" "ae_PathUnescape E e = p"
    using assms(1) p(1) unfolding paths_ok_def by blast
  have n: "e \<noteq> ''.''" "e \<noteq> ''..''" using e(4) p(2) assms(1) by (auto simp: paths_ok_def)
  have s: "Split CHR ''/'' e = [e]" using e(3) by (induction e) auto
  have l: "last (CHR ''/'' # e) \<noteq> CHR ''/''" using e(1,3) by (metis last_ConsR last_in_set)
  have "locate (CHR ''/'' # e) = (True, [e])" using e n s by (simp add: locate_def IsAbs_def)
  then have c: "cleanPath (CHR ''/'' # e) = CHR ''/'' # e" using l by (simp add: cleanPath_def Let_def Clean_def loc_path_def)
  have m: "\<exists>route \<in> {ToHealth, ToReady, ToCA}. mux_match E a (CHR ''/'' # e) = Some ([p], False, route)"
    using p(2) e(4) s assms(2) by (auto simp: mux_match_def mux_patterns_def)
  then show ?thesis using e(2) c by (auto simp: findHandler_def Let_def exact_match_def)
qed

text \<open>What is not the probe's business: accounts, request history, upload sessions, limiters and upstream registries.\<close>

definition untouched_app :: "('s, 'n) AppState \<Rightarrow> ('s, 'n) AppState \<Rightarrow> bool" where
  "untouched_app s s' \<longleftrightarrow> tables s' = tables s \<and> as_meta (gs_world (ap_gateway s')) = as_meta (gs_world (ap_gateway s))
     \<and> as_net (gs_world (ap_gateway s')) = as_net (gs_world (ap_gateway s))
     \<and> as_limiter (gs_world (ap_gateway s')) = as_limiter (gs_world (ap_gateway s))
     \<and> gs_uploads (ap_gateway s') = gs_uploads (ap_gateway s) \<and> gs_nextID (ap_gateway s') = gs_nextID (ap_gateway s)
     \<and> gs_limiter (ap_gateway s') = gs_limiter (ap_gateway s) \<and> fst (ap_files s') = fst (ap_files s)"

fun own_body :: "app_body \<Rightarrow> bool" where
  "own_body (FromGateway b) = False" | "own_body (FromAdmin b) = False" | "own_body b = True"

lemma sec_outside: "sec ad f s = (x, s') \<Longrightarrow> as_meta s' = as_meta s \<and> as_net s' = as_net s \<and> as_limiter s' = as_limiter s \<and> as_store s' = as_store s"
  by (auto simp: sec_def split: prod.splits)

lemma ready_users_outside:
  "ready_users C ad keyring us s = (x, s') \<Longrightarrow> as_meta s' = as_meta s \<and> as_net s' = as_net s \<and> as_limiter s' = as_limiter s \<and> as_store s' = as_store s"
proof (induction us arbitrary: s)
  case (Cons u us)
  obtain y s1 where c: "sec ad (\<lambda>sv. ListRegistryCredentialsForUser (sv_faults sv) (usr_ID u)) s = (y, s1)" by (metis surj_pair)
  with Cons sec_outside [OF c] show ?case by (auto split: sum.splits if_splits)
qed simp

lemma handleReady_outside:
  assumes "handleReady E a r w = (resp, w')"
  shows "as_meta w' = as_meta w \<and> as_net w' = as_net w \<and> as_limiter w' = as_limiter w \<and> own_body (hres_Body resp) \<and> hres_Status resp \<in> {200, 405, 503}"
  using assms
  by (auto simp: handleReady_def Let_def http_Error_def app_writeJSON_def not_ready_def dest!: ready_users_outside sec_outside
        split: if_splits sum.splits prod.splits option.splits)

lemma probe_outside:
  assumes "serve_route E a route r s = (out, s')" "route \<in> {ToHealth, ToReady, ToCA}"
  shows "untouched_app s s' \<and> (\<exists>resp. out = Inr resp \<and> own_body (hres_Body resp) \<and> hres_Status resp \<in> {200, 405, 503})"
proof -
  obtain z w where z: "handleReady E a r (gs_world (ap_gateway s)) = (z, w)" by (metis surj_pair)
  obtain y f where y: "handleCACertificate E a r (ap_files s) = (y, f)" by (metis surj_pair)
  have ca: "fst f = fst (ap_files s) \<and> own_body (hres_Body y) \<and> hres_Status y \<in> {200, 405, 503}"
    using y keeps_snd [OF calls_keep(3) [OF preorder_eq, of "ae_os E" "app_tlsCAFile a"], of "ap_files s"]
    by (auto simp: handleCACertificate_def http_Error_def split: if_splits prod.splits sum.splits)
  show ?thesis using assms z y ca handleReady_outside [OF z] handleReady_reads [OF z]
    by (auto simp: serve_route_def in_admin_def untouched_app_def handleHealth_def http_Error_def app_writeJSON_def)
qed

text \<open>
  C35: when the application serves HTTPS, a request to its plain HTTP listener touches no
  account, history, upload session, limiter or upstream registry, and its response carries no document of the
  registry or of the administration: it is a probe or the CA certificate, answered with 200, 405 or 503, or a
  permanent redirect of the same URL to the HTTPS host, with which the state does not change at all.
\<close>

theorem plain_listener_is_harmless:
  assumes "NewApp E options s0 f = Some (Inr (a, st))" and "app_httpsListenAddr a \<noteq> []" and "paths_ok E"
    and "httpHandler E a r s = (resp, s')"
  shows "untouched_app s s' \<and> own_body (hres_Body resp)
    \<and> (hreq_Path r \<in> {''/healthz'', ''/readyz'', ''/regstair-ca.crt''} \<and> hres_Status resp \<in> {200, 405, 503}
       \<or> hres_Status resp = 308 \<and> s' = s
         \<and> response_header resp ''Location'' = Some (ae_URL E (redirectHost (hreq_Host r) (app_httpsListenAddr a) (app_httpsRedirectPort a)) r))"
proof (cases "hreq_Path r \<in> {''/healthz'', ''/readyz'', ''/regstair-ca.crt''}")
  case True
  have "app_tlsCAFile a \<noteq> []" using NewApp_assembled [OF assms(1)] assms(2) by (simp add: assembled_def)
  then obtain route where f: "route \<in> {ToHealth, ToReady, ToCA}" "findHandler E a r = Inr (Some route)"
    using probe_route [OF assms(3) _ True] by blast
  obtain out s1 where o: "serve_route E a route r s = (out, s1)" by (metis surj_pair)
  have "app_handler E a r s = (resp, s')" using assms(2,4) True by (auto simp: httpHandler_def)
  then show ?thesis using probe_outside [OF o f(1)] o f(2) True by (auto simp: app_handler_def RecoverHTTP_def serve_mux_def)
next
  case False
  with assms(2,4) show ?thesis by (auto simp: httpHandler_def http_Redirect_def untouched_app_def)
qed

lemma paths_ok_x: "paths_ok x_env" by (auto simp: paths_ok_def x_env_simps)

theorem plain_listener_is_harmless_witness:
  "\<exists>a st resp. NewApp x_env x_options (x_state cx_db) ([], 0) = Some (Inr (a, st)) \<and> httpHandler x_env a (wreq ''GET'' ''/v2/'' []) st = (resp, st)
     \<and> hres_Status resp = 308 \<and> response_header resp ''Location'' = Some ''https://localhost/v2/''"
proof -
  obtain a st where a: "NewApp x_env x_options (x_state cx_db) ([], 0) = Some (Inr (a, st))" "app_httpsListenAddr a = '':443''"
    "app_httpsRedirectPort a = []" using x_new by blast
  have h: "app_httpsListenAddr a \<noteq> []" by (simp add: a(2))
  obtain resp s' where r: "httpHandler x_env a (wreq ''GET'' ''/v2/'' []) st = (resp, s')" by (metis surj_pair)
  have q: "hreq_Path (wreq ''GET'' ''/v2/'' []) = ''/v2/''" "hreq_Host (wreq ''GET'' ''/v2/'' []) = ''localhost''" by (simp_all add: wreq_def)
  have n: "\<not> hreq_Path (wreq ''GET'' ''/v2/'' []) \<in> {''/healthz'', ''/readyz'', ''/regstair-ca.crt''}" by (simp add: q)
  have u: "ae_URL x_env (redirectHost ''localhost'' '':443'' []) (wreq ''GET'' ''/v2/'' []) = ''https://localhost/v2/''"
  proof -
    have "redirectHost ''localhost'' '':443'' [] = ''localhost''" by code_simp
    then show ?thesis by (simp add: x_env_def q)
  qed
  from plain_listener_is_harmless [OF a(1) h paths_ok_x r] n have "hres_Status resp = 308" "s' = st"
    "response_header resp ''Location'' = Some (ae_URL x_env (redirectHost ''localhost'' '':443'' []) (wreq ''GET'' ''/v2/'' []))"
    unfolding a(2,3) q(2) by blast+
  then show ?thesis unfolding u using a(1) r by blast
qed

section \<open>Readiness\<close>

definition usable_credentials :: "Crypto \<Rightarrow> SecretKeyring option \<Rightarrow> SecDB \<Rightarrow> bool" where
  "usable_credentials C keyring db \<longleftrightarrow> (\<forall>c \<in> set (t_credentials db). rc_UserID c \<in> usr_ID ` set (t_users db) \<longrightarrow>
     (\<exists>k. keyring = Some k \<and> isOK (Decrypt C k (rc_ID c) (rc_UserID c) (rc_SourceID c) (rc_EncryptedSecret c))))"

definition usable_store :: "('s, 'n) AppEnv \<Rightarrow> ('s, 'n) App \<Rightarrow> 's \<Rightarrow> bool" where
  "usable_store E a q \<longleftrightarrow> (case fst (st_HasBlob (app_store a) q zeroDigest) of Inl e \<Rightarrow> ae_Canceled E e | Inr _ \<Rightarrow> True)"

lemma ready_credentials_iff:
  "ready_credentials C keyring cs \<longleftrightarrow> (\<forall>c \<in> set cs. \<exists>k. keyring = Some k
     \<and> isOK (Decrypt C k (rc_ID c) (rc_UserID c) (rc_SourceID c) (rc_EncryptedSecret c)))"
  by (induction cs) (auto split: option.splits)

lemma list_credentials_result:
  assumes "sec ad (\<lambda>sv. ListRegistryCredentialsForUser (sv_faults sv) i) s = (y, s')"
  shows "y = Inr cs \<Longrightarrow> set cs = {c \<in> set (t_credentials (db_of s)). rc_UserID c = i}"
    and "sv_faults (ad_services ad) = (\<lambda>_. None) \<Longrightarrow> \<exists>cs. y = Inr cs"
  using assms by (auto simp: sec_def ListRegistryCredentialsForUser_def wrapping_def query_def sql_def services_at_def
      split: prod.splits option.splits)

lemma list_users_result:
  assumes "sec ad (\<lambda>sv. SQL_ListUsers (sv_faults sv)) s = (y, s')"
  shows "y = Inr us \<Longrightarrow> set us = set (t_users (db_of s))" and "sv_faults (ad_services ad) = (\<lambda>_. None) \<Longrightarrow> \<exists>us. y = Inr us"
  using assms by (auto simp: sec_def SQL_ListUsers_def wrapping_def query_def sql_def services_at_def split: prod.splits option.splits)

definition readable_by :: "Crypto \<Rightarrow> SecretKeyring option \<Rightarrow> User list \<Rightarrow> SecDB \<Rightarrow> bool" where
  "readable_by C keyring us db \<longleftrightarrow> (\<forall>u \<in> set us. \<forall>c \<in> set (t_credentials db). rc_UserID c = usr_ID u \<longrightarrow>
     (\<exists>k. keyring = Some k \<and> isOK (Decrypt C k (rc_ID c) (rc_UserID c) (rc_SourceID c) (rc_EncryptedSecret c))))"

lemma ready_users_None:
  "ready_users C ad keyring us s = (x, s') \<Longrightarrow> (x = None \<longrightarrow> readable_by C keyring us (db_of s))
    \<and> (sv_faults (ad_services ad) = (\<lambda>_. None) \<and> readable_by C keyring us (db_of s) \<longrightarrow> x = None)"
proof (induction us arbitrary: s)
  case (Cons u us)
  obtain y s1 where c: "sec ad (\<lambda>sv. ListRegistryCredentialsForUser (sv_faults sv) (usr_ID u)) s = (y, s1)" by (metis surj_pair)
  have k: "db_of s1 = db_of s" by (rule sec_reading [OF _ c]) (intro keeps_intros preorder_eq)
  note l = list_credentials_result [OF c]
  have r: "readable_by C keyring (u # us) (db_of s) \<longleftrightarrow> ready_credentials C keyring cs \<and> readable_by C keyring us (db_of s)" if "y = Inr cs" for cs
    using l(1) [OF that] by (auto simp: readable_by_def ready_credentials_iff)
  show ?case
  proof (cases y)
    case (Inl e)
    with Cons.prems c l(2) show ?thesis by auto
  next
    case (Inr cs)
    with Cons.IH [of s1] Cons.prems c k r [OF Inr] show ?thesis by (auto split: if_splits)
  qed
qed (simp add: readable_by_def)



end
