(* ===== verification/TLS_Identity.thy ===== *)
theory TLS_Identity
  imports File_System
begin

text \<open>
  The TLS identity of the server (internal/tlsidentity/identity.go): a local certificate authority
  and a server certificate in four files. Certificates and keys (crypto/x509, crypto/tls,
  crypto/ecdsa, encoding/pem), IP addresses (net), calendar years and random numbers are a
  parameter; crypto/rand does not fail.
\<close>

section \<open>Certificates\<close>

record Template =
  tc_SerialNumber :: int
  tc_CommonName :: string
  tc_DNSNames :: "string list"
  tc_IPAddresses :: "string list"
  tc_NotBefore :: time
  tc_NotAfter :: time
  tc_IsCA :: bool
  tc_KeyUsage :: "string list"
  tc_ExtKeyUsage :: "string list"

text \<open>The parent of a new certificate is a template or a parsed certificate.\<close>

datatype 'c issuer = FromTemplate Template | FromCertificate 'c

text \<open>
  'c is a parsed certificate, 'k a private key; x_KeyPair is tls.X509KeyPair on the contents of the
  two files, with the encoding of the leaf and its key. An IP address is its bytes.
\<close>

record ('c, 'k) X509 =
  x_KeyPair :: "string \<Rightarrow> string \<Rightarrow> (string \<times> 'k) result"
  x_ParseCertificate :: "string \<Rightarrow> 'c result"
  x_Verify :: "'c \<Rightarrow> 'c \<Rightarrow> unit result"
  x_VerifyHostname :: "'c \<Rightarrow> string \<Rightarrow> unit result"
  x_DNSNames :: "'c \<Rightarrow> string list"
  x_IPAddresses :: "'c \<Rightarrow> string list"
  x_Signer :: "'k \<Rightarrow> bool"
  x_Public :: "'k \<Rightarrow> string"
  x_GenerateKey :: "nat \<Rightarrow> 'k result"
  x_serial :: "nat \<Rightarrow> int"
  x_CreateCertificate :: "Template \<Rightarrow> 'c issuer \<Rightarrow> string \<Rightarrow> 'k \<Rightarrow> string result"
  x_MarshalKey :: "'k \<Rightarrow> string result"
  x_PEM :: "string \<Rightarrow> string \<Rightarrow> string"
  x_ParseIP :: "string \<Rightarrow> string option"
  x_IPString :: "string \<Rightarrow> string"
  x_AddYears :: "time \<Rightarrow> int \<Rightarrow> time"
  x_now :: time
  x_temp :: string

record Identity =
  id_CACertFile :: string
  id_CAKeyFile :: string
  id_CertFile :: string
  id_KeyFile :: string

definition identity_in :: "string \<Rightarrow> Identity" where
  "identity_in dir = \<lparr>id_CACertFile = filepath_Join dir ''regstair-ca.crt'', id_CAKeyFile = filepath_Join dir ''regstair-ca.key'',
     id_CertFile = filepath_Join dir ''regstair.crt'', id_KeyFile = filepath_Join dir ''regstair.key''\<rparr>"

definition identity_files :: "Identity \<Rightarrow> string list" where
  "identity_files i = [id_CACertFile i, id_CAKeyFile i, id_CertFile i, id_KeyFile i]"

section \<open>Hosts\<close>

fun normalize_from :: "('c, 'k) X509 \<Rightarrow> string set \<Rightarrow> string list \<Rightarrow> string list \<times> string list" where
  "normalize_from X seen [] = ([], [])"
| "normalize_from X seen (raw # hosts) =
     (let host = TrimSpace raw in
      if host = [] \<or> host \<in> seen then normalize_from X seen hosts
      else
      (case normalize_from X (insert host seen) hosts of (dns, ips) \<Rightarrow>
       case x_ParseIP X host of Some ip \<Rightarrow> (dns, ip # ips) | None \<Rightarrow> (host # dns, ips)))"

definition normalizeHosts :: "('c, 'k) X509 \<Rightarrow> string list \<Rightarrow> string list \<times> string list" where
  "normalizeHosts X hosts = normalize_from X {} hosts"

text \<open>There is a name or an address when this is called.\<close>

definition firstName :: "('c, 'k) X509 \<Rightarrow> string list \<Rightarrow> string list \<Rightarrow> string" where
  "firstName X dns ips = (if dns \<noteq> [] then hd dns else x_IPString X (hd ips))"

definition serverCertificateTemplate :: "('c, 'k) X509 \<Rightarrow> nat \<Rightarrow> string list \<Rightarrow> string list \<Rightarrow> Template" where
  "serverCertificateTemplate X k dnsNames ipAddresses =
    \<lparr>tc_SerialNumber = x_serial X k, tc_CommonName = firstName X dnsNames ipAddresses, tc_DNSNames = dnsNames,
     tc_IPAddresses = ipAddresses, tc_NotBefore = x_now X - 5 * minute, tc_NotAfter = x_AddYears X (x_now X) 1,
     tc_IsCA = False, tc_KeyUsage = [''DigitalSignature''], tc_ExtKeyUsage = [''ServerAuth'']\<rparr>"

definition caTemplate :: "('c, 'k) X509 \<Rightarrow> Template" where
  "caTemplate X =
    \<lparr>tc_SerialNumber = x_serial X 0, tc_CommonName = ''Regstair Local CA'', tc_DNSNames = [], tc_IPAddresses = [],
     tc_NotBefore = x_now X - 5 * minute, tc_NotAfter = x_AddYears X (x_now X) 10, tc_IsCA = True,
     tc_KeyUsage = [''CertSign'', ''CRLSign'', ''DigitalSignature''], tc_ExtKeyUsage = []\<rparr>"

section \<open>Files\<close>

definition LoadX509KeyPair :: "('c, 'k) X509 \<Rightarrow> OSFaults \<Rightarrow> string \<Rightarrow> string \<Rightarrow> (string \<times> 'k) osm" where
  "LoadX509KeyPair X F certFile keyFile =
    andthen (ReadFile F certFile) (\<lambda>cert. andthen (ReadFile F keyFile) (\<lambda>key. returning (x_KeyPair X cert key)))"

text \<open>A step after which, if it fails, the open file is closed.\<close>

definition closing :: "OSFaults \<Rightarrow> 'a osm \<Rightarrow> 'a osm" where
  "closing F m s = (case m s of (Inl e, s) \<Rightarrow> (Inl e, snd (Close F s)) | (Inr x, s) \<Rightarrow> (Inr x, s))"

definition writeExclusivePEM :: "('c, 'k) X509 \<Rightarrow> OSFaults \<Rightarrow> string \<Rightarrow> string \<Rightarrow> string \<Rightarrow> int \<Rightarrow> unit osm" where
  "writeExclusivePEM X F path kind der mode =
    andthen (CreateExclusive F path mode) (\<lambda>_.
    andthen (closing F (Write F path (x_PEM X kind der))) (\<lambda>_. Close F))"

text \<open>os.CreateTemp makes a new file with mode 0600 in the directory of the path.\<close>

definition temp_path :: "('c, 'k) X509 \<Rightarrow> string \<Rightarrow> string" where
  "temp_path X path = filepath_Join (filepath_Dir path) (''.regstair-cert-'' @ x_temp X)"

definition replacePEM :: "('c, 'k) X509 \<Rightarrow> OSFaults \<Rightarrow> string \<Rightarrow> string \<Rightarrow> string \<Rightarrow> int \<Rightarrow> unit osm" where
  "replacePEM X F path kind der mode =
    (let temporary = temp_path X path in
     andthen (CreateExclusive F temporary 384) (\<lambda>_ s.
       case andthen (closing F (Chmod F temporary mode)) (\<lambda>_.
            andthen (closing F (Write F temporary (x_PEM X kind der))) (\<lambda>_.
            andthen (closing F (Sync F)) (\<lambda>_.
            andthen (Close F) (\<lambda>_. Rename F temporary path)))) s of
         (r, s) \<Rightarrow> (r, snd (ignoring (Remove F temporary) s))))"

section \<open>Ensure\<close>

fun count_existing :: "OSFaults \<Rightarrow> nat \<Rightarrow> string list \<Rightarrow> nat osm" where
  "count_existing F n [] = ret n"
| "count_existing F n (path # paths) = (\<lambda>s.
     case Stat F path s of
       (Inr _, s) \<Rightarrow> count_existing F (Suc n) paths s
     | (Inl e, s) \<Rightarrow> if errors_Is e ErrNotExist then count_existing F n paths s else (Inl e, s))"

definition covers_hosts :: "('c, 'k) X509 \<Rightarrow> bool \<Rightarrow> 'c \<Rightarrow> string list \<Rightarrow> bool" where
  "covers_hosts X exact leaf hosts =
    (list_all (\<lambda>raw. let host = TrimSpace raw in host = [] \<or> isOK (x_VerifyHostname X leaf host)) hosts
     \<and> \<not> (exact \<and> length (x_DNSNames X leaf) + length (x_IPAddresses X leaf)
         \<noteq> length (fst (normalizeHosts X hosts)) + length (snd (normalizeHosts X hosts))))"

text \<open>A complete identity: it is loaded and verified, and reissued when it does not cover the hosts.\<close>

definition reuse_identity :: "('c, 'k) X509 \<Rightarrow> OSFaults \<Rightarrow> bool \<Rightarrow> Identity \<Rightarrow> string list \<Rightarrow> Identity osm" where
  "reuse_identity X F exact identity hosts =
    andthen (wrapping ''load existing TLS server identity: %w'' (LoadX509KeyPair X F (id_CertFile identity) (id_KeyFile identity))) (\<lambda>(serverDER, serverKey).
    andthen (wrapping ''load existing TLS certificate authority: %w'' (LoadX509KeyPair X F (id_CACertFile identity) (id_CAKeyFile identity))) (\<lambda>(caDER, caKey).
    andthen (wrapping ''parse existing TLS server certificate: %w'' (returning (x_ParseCertificate X serverDER))) (\<lambda>leaf.
    andthen (wrapping ''parse existing TLS certificate authority: %w'' (returning (x_ParseCertificate X caDER))) (\<lambda>ca.
    andthen (wrapping ''verify existing TLS server certificate against local CA: %w'' (returning (x_Verify X leaf ca))) (\<lambda>_.
    if covers_hosts X exact leaf hosts then ret identity
    else if \<not> x_Signer X serverKey then fail (errorf ''existing TLS server key cannot sign certificates'')
    else if \<not> x_Signer X caKey then fail (errorf ''existing TLS certificate authority key cannot sign certificates'')
    else
    let (dnsNames, ipAddresses) = normalizeHosts X hosts in
    andthen (wrapping ''reissue TLS server certificate: %w'' (returning
        (x_CreateCertificate X (serverCertificateTemplate X 0 dnsNames ipAddresses) (FromCertificate ca) (x_Public X serverKey) caKey))) (\<lambda>der.
    andthen (wrapping ''replace TLS server certificate: %w'' (replacePEM X F (id_CertFile identity) ''CERTIFICATE'' der 420)) (\<lambda>_.
    ret identity)))))))"

definition create_identity :: "('c, 'k) X509 \<Rightarrow> OSFaults \<Rightarrow> string \<Rightarrow> Identity \<Rightarrow> string list \<Rightarrow> string list \<Rightarrow> Identity osm" where
  "create_identity X F dir identity dnsNames ipAddresses =
    andthen (MkdirAll F dir) (\<lambda>_.
    andthen (returning (x_GenerateKey X 0)) (\<lambda>caKey.
    andthen (returning (x_CreateCertificate X (caTemplate X) (FromTemplate (caTemplate X)) (x_Public X caKey) caKey)) (\<lambda>caDER.
    andthen (returning (x_GenerateKey X 1)) (\<lambda>serverKey.
    andthen (returning (x_CreateCertificate X (serverCertificateTemplate X 1 dnsNames ipAddresses) (FromTemplate (caTemplate X))
        (x_Public X serverKey) caKey)) (\<lambda>serverDER.
    andthen (returning (x_MarshalKey X caKey)) (\<lambda>caKeyDER.
    andthen (returning (x_MarshalKey X serverKey)) (\<lambda>serverKeyDER.
    andthen (writeExclusivePEM X F (id_CACertFile identity) ''CERTIFICATE'' caDER 420) (\<lambda>_.
    andthen (writeExclusivePEM X F (id_CAKeyFile identity) ''PRIVATE KEY'' caKeyDER 384) (\<lambda>_.
    andthen (writeExclusivePEM X F (id_CertFile identity) ''CERTIFICATE'' serverDER 420) (\<lambda>_.
    andthen (writeExclusivePEM X F (id_KeyFile identity) ''PRIVATE KEY'' serverKeyDER 384) (\<lambda>_.
    ret identity)))))))))))"

definition ensure :: "('c, 'k) X509 \<Rightarrow> OSFaults \<Rightarrow> string \<Rightarrow> string list \<Rightarrow> bool \<Rightarrow> Identity osm" where
  "ensure X F dir hosts exact =
    (let identity = identity_in dir; (dnsNames, ipAddresses) = normalizeHosts X hosts in
     if dnsNames = [] \<and> ipAddresses = [] then fail (errorf ''at least one TLS DNS name or IP address is required'')
     else
     andthen (count_existing F 0 (identity_files identity)) (\<lambda>existing.
     if existing > 0 then
       (if existing \<noteq> 4 then fail (errorf ''TLS identity in %s is incomplete'') else reuse_identity X F exact identity hosts)
     else create_identity X F dir identity dnsNames ipAddresses))"

definition Ensure :: "('c, 'k) X509 \<Rightarrow> OSFaults \<Rightarrow> string \<Rightarrow> string list \<Rightarrow> Identity osm" where
  "Ensure X F dir hosts = ensure X F dir hosts False"

definition EnsureExact :: "('c, 'k) X509 \<Rightarrow> OSFaults \<Rightarrow> string \<Rightarrow> string list \<Rightarrow> Identity osm" where
  "EnsureExact X F dir hosts = ensure X F dir hosts True"

section \<open>The addresses of the host\<close>

text \<open>What package net tells of an interface and of an address: ParseCIDR, ParseIP and the kinds of an IP.\<close>

record NetInterface =
  ni_Name :: string
  ni_Up :: bool
  ni_Loopback :: bool
  ni_Addrs :: "string list result"

record NetLib =
  nl_ParseCIDR :: "string \<Rightarrow> string option"
  nl_ParseIP :: "string \<Rightarrow> string option"
  nl_IsLoopback :: "string \<Rightarrow> bool"
  nl_IsLinkLocalUnicast :: "string \<Rightarrow> bool"
  nl_IsLinkLocalMulticast :: "string \<Rightarrow> bool"
  nl_IsUnspecified :: "string \<Rightarrow> bool"
  nl_String :: "string \<Rightarrow> string"

definition ignoredLinuxInterface :: "string \<Rightarrow> bool" where
  "ignoredLinuxInterface name \<longleftrightarrow> name = ''docker0'' \<or> HasPrefix name ''br-'' \<or> HasPrefix name ''veth'' \<or> HasPrefix name ''virbr''"

fun usable_from :: "NetLib \<Rightarrow> string set \<Rightarrow> string list \<Rightarrow> string list" where
  "usable_from N seen [] = []"
| "usable_from N seen (address # addresses) =
     (case (case nl_ParseCIDR N address of Some ip \<Rightarrow> Some ip | None \<Rightarrow> nl_ParseIP N address) of
        None \<Rightarrow> usable_from N seen addresses
      | Some ip \<Rightarrow>
        if nl_IsLoopback N ip \<or> nl_IsLinkLocalUnicast N ip \<or> nl_IsLinkLocalMulticast N ip \<or> nl_IsUnspecified N ip
        then usable_from N seen addresses
        else if nl_String N ip \<in> seen then usable_from N seen addresses
        else nl_String N ip # usable_from N (insert (nl_String N ip) seen) addresses)"

definition usableAddressStrings :: "NetLib \<Rightarrow> string list \<Rightarrow> string list" where
  "usableAddressStrings N addresses = usable_from N {} addresses"

fun collect_addresses :: "NetInterface list \<Rightarrow> string list result" where
  "collect_addresses [] = Inr []"
| "collect_addresses (i # is) =
     (if \<not> ni_Up i \<or> ni_Loopback i \<or> ignoredLinuxInterface (ni_Name i) then collect_addresses is
      else
      (case ni_Addrs i of Inl e \<Rightarrow> Inl (wrapf ''list addresses for interface %s: %w'' e)
       | Inr as \<Rightarrow> (case collect_addresses is of Inl e \<Rightarrow> Inl e | Inr bs \<Rightarrow> Inr (as @ bs))))"

definition DiscoverHostAddresses :: "NetLib \<Rightarrow> NetInterface list result \<Rightarrow> string list result" where
  "DiscoverHostAddresses N interfaces =
    (case interfaces of Inl e \<Rightarrow> Inl (wrapf ''list host network interfaces: %w'' e)
     | Inr is \<Rightarrow> (case collect_addresses is of Inl e \<Rightarrow> Inl e | Inr as \<Rightarrow> Inr (usableAddressStrings N as)))"

end
