(* ===== verification/Backup.thy ===== *)
theory Backup
  imports File_System
begin

unbundle bit_operations_syntax

text \<open>
  The offline backup and restore commands (cmd/regstair/backup.go) over the files of File_System.
  The formats of archive/tar, compress/gzip and encoding/json are a parameter: the bytes of an
  archive as a function of its entries, and what a reader makes of bytes.
\<close>

section \<open>Archives\<close>

datatype tarType = TypeReg | TypeRegA | TypeDir | TypeOther

record TarHeader =
  th_Name :: string
  th_Typeflag :: tarType
  th_Mode :: int
  th_Size :: int

record backupManifest =
  bm_Version :: int
  bm_CreatedAt :: time
  bm_Contents :: "string list"
  bm_KeyNotice :: string

text \<open>
  av_flushed is what has reached the file while the entries were written, av_bytes the file after
  the writers are closed. A reader finds entries, whose content may end in an error, and then the
  end of the archive or an error; or it finds no compressed data at all.
\<close>

type_synonym tarStream = "(TarHeader \<times> string \<times> goerr option) list \<times> goerr option"

record Archive =
  av_flushed :: "(TarHeader \<times> string) list \<Rightarrow> string"
  av_bytes :: "(TarHeader \<times> string) list \<Rightarrow> string"
  av_open :: "string \<Rightarrow> tarStream result"
  av_marshal :: "backupManifest \<Rightarrow> string result"
  av_decode :: "string \<times> goerr option \<Rightarrow> backupManifest result"

section \<open>Backup\<close>

definition set_content :: "string \<Rightarrow> node \<Rightarrow> node" where
  "set_content c n = (case n of RegNode _ m \<Rightarrow> RegNode c m | _ \<Rightarrow> n)"

definition flush :: "Archive \<Rightarrow> OSFaults \<Rightarrow> string \<Rightarrow> (TarHeader \<times> string) list \<Rightarrow> unit osm" where
  "flush A F output es = sql (os_err F) (\<lambda>fs. Inr ((), change_at (locate output) (set_content (av_flushed A es)) fs))"

text \<open>WriteHeader finishes the entry before it, whose content must have the size of its header.\<close>

definition complete_last :: "(TarHeader \<times> string) list \<Rightarrow> bool" where
  "complete_last es \<longleftrightarrow> es = [] \<or> th_Size (fst (last es)) = int (length (snd (last es)))"

definition WriteHeader :: "Archive \<Rightarrow> OSFaults \<Rightarrow> string \<Rightarrow> TarHeader \<Rightarrow> (TarHeader \<times> string) list \<Rightarrow> unit osm" where
  "WriteHeader A F output h es =
    (if complete_last es then flush A F output (es @ [(h, [])]) else fail (errorf ''archive/tar: missed writing %d bytes''))"

definition WriteContent ::
  "Archive \<Rightarrow> OSFaults \<Rightarrow> string \<Rightarrow> TarHeader \<Rightarrow> string \<Rightarrow> (TarHeader \<times> string) list \<Rightarrow> (TarHeader \<times> string) list osm" where
  "WriteContent A F output h c es =
    (if int (length c) > th_Size h then fail (errorf ''archive/tar: write too long'')
     else andthen (flush A F output (es @ [(h, c)])) (\<lambda>_. ret (es @ [(h, c)])))"

definition writeTarBytes ::
  "Archive \<Rightarrow> OSFaults \<Rightarrow> string \<Rightarrow> string \<Rightarrow> int \<Rightarrow> string \<Rightarrow> (TarHeader \<times> string) list \<Rightarrow> (TarHeader \<times> string) list osm" where
  "writeTarBytes A F output name mode contents es =
    (let h = \<lparr>th_Name = name, th_Typeflag = TypeReg, th_Mode = mode, th_Size = int (length contents)\<rparr> in
     andthen (WriteHeader A F output h es) (\<lambda>_. WriteContent A F output h contents es))"

text \<open>tar.FileInfoHeader, with the name already replaced; directories of the program have mode 0700.\<close>

definition FileInfoHeader :: "node \<Rightarrow> string \<Rightarrow> TarHeader result" where
  "FileInfoHeader n name =
    (case n of RegNode c m \<Rightarrow> Inr \<lparr>th_Name = name, th_Typeflag = TypeReg, th_Mode = m, th_Size = int (length c)\<rparr>
     | DirNode \<Rightarrow> Inr \<lparr>th_Name = name, th_Typeflag = TypeDir, th_Mode = 448, th_Size = 0\<rparr>
     | LinkNode _ \<Rightarrow> Inr \<lparr>th_Name = name, th_Typeflag = TypeOther, th_Mode = 511, th_Size = 0\<rparr>
     | OtherNode \<Rightarrow> Inl (errorf ''archive/tar: sockets not supported''))"

definition writeTarFile ::
  "Archive \<Rightarrow> OSFaults \<Rightarrow> string \<Rightarrow> string \<Rightarrow> string \<Rightarrow> (TarHeader \<times> string) list \<Rightarrow> (TarHeader \<times> string) list osm" where
  "writeTarFile A F output source name es =
    andthen (Lstat F source) (\<lambda>info.
    case FileInfoHeader info name of Inl e \<Rightarrow> fail e
    | Inr h \<Rightarrow>
      andthen (WriteHeader A F output h es) (\<lambda>_.
      if info = DirNode then ret (es @ [(h, [])])
      else andthen (ReadFile F source) (\<lambda>c. WriteContent A F output h c es)))"

text \<open>
  filepath.WalkDir visits the paths below its root element by element in the order of their names,
  a directory before what it holds.
\<close>

definition below :: "Files \<Rightarrow> loc \<Rightarrow> string list list" where
  "below fs root = sort (filter (\<lambda>ds. ds \<noteq> [] \<and> list_all ordinary ds)
     (map (\<lambda>l. drop (length (snd root)) (snd l)) (filter (\<lambda>l. fst l = fst root \<and> prefix (snd root) (snd l)) (map fst fs))))"

fun backup_walk ::
  "Archive \<Rightarrow> OSFaults \<Rightarrow> string \<Rightarrow> string \<Rightarrow> string list list \<Rightarrow> (TarHeader \<times> string) list \<Rightarrow> (TarHeader \<times> string) list osm" where
  "backup_walk A F output contentRoot [] es = ret es"
| "backup_walk A F output contentRoot (r # rs) es =
     (let relative = Join ''/'' r; path = filepath_Join contentRoot relative in
      andthen (query (os_err F) (\<lambda>fs. case node_at fs (locate path) of Some (LinkNode _) \<Rightarrow> True | _ \<Rightarrow> False)) (\<lambda>link.
      if link then fail (errorf ''backup refuses symbolic link %q'')
      else andthen (writeTarFile A F output path (filepath_Join ''content'' relative) es) (\<lambda>es.
        backup_walk A F output contentRoot rs es)))"

definition new_manifest :: "time \<Rightarrow> backupManifest" where
  "new_manifest now = \<lparr>bm_Version = 1, bm_CreatedAt = now, bm_Contents = [''config/regstair.yaml'', ''content/''],
     bm_KeyNotice = ''Credential encryption keys are intentionally excluded and must be backed up separately.''\<rparr>"

definition backup_entries ::
  "Archive \<Rightarrow> time \<Rightarrow> OSFaults \<Rightarrow> string \<Rightarrow> string \<Rightarrow> string \<Rightarrow> (TarHeader \<times> string) list osm" where
  "backup_entries A now F contentRoot configPath output =
    andthen (after_check (case av_marshal A (new_manifest now) of Inl e \<Rightarrow> Inl e | Inr _ \<Rightarrow> Inr ()) (ret ())) (\<lambda>_.
    andthen (writeTarBytes A F output ''manifest.json'' 384
       (case av_marshal A (new_manifest now) of Inl _ \<Rightarrow> [] | Inr encoded \<Rightarrow> encoded) []) (\<lambda>es.
    andthen (writeTarFile A F output configPath ''config/regstair.yaml'' es) (\<lambda>es.
    andthen (query (os_err F) (\<lambda>fs. below fs (locate contentRoot))) (\<lambda>rs.
    backup_walk A F output contentRoot rs es))))"

text \<open>tw.Close, gz.Close and file.Close.\<close>

definition close_archive :: "Archive \<Rightarrow> OSFaults \<Rightarrow> string \<Rightarrow> (TarHeader \<times> string) list \<Rightarrow> unit osm" where
  "close_archive A F output es =
    (if complete_last es
     then andthen (sql (os_err F) (\<lambda>fs. Inr ((), change_at (locate output) (set_content (av_bytes A es)) fs))) (\<lambda>_.
       andthen (Close F) (\<lambda>_. Close F))
     else fail (errorf ''archive/tar: missed writing %d bytes''))"

text \<open>After a failure the deferred function closes the file and removes it.\<close>

definition write_backup ::
  "Archive \<Rightarrow> time \<Rightarrow> OSFaults \<Rightarrow> string \<Rightarrow> string \<Rightarrow> string \<Rightarrow> unit osm" where
  "write_backup A now F contentRoot configPath output s =
    (case andthen (backup_entries A now F contentRoot configPath output) (close_archive A F output) s of
       (Inr _, s) \<Rightarrow> (Inr (), s)
     | (Inl e, s) \<Rightarrow> (Inl (wrapf ''write backup: %w'' e), snd (andthen (ignoring (Close F)) (\<lambda>_. ignoring (Remove F output)) s)))"

text \<open>A path that must not be there.\<close>

definition absent :: "OSFaults \<Rightarrow> string \<Rightarrow> goerr \<Rightarrow> unit osm" where
  "absent F p e s =
    (case Stat F p s of (Inr _, s) \<Rightarrow> (Inl e, s)
     | (Inl err, s) \<Rightarrow> if errors_Is err ErrNotExist then (Inr (), s) else (Inl e, s))"

definition backup_flags :: "(string \<times> string) list" where
  "backup_flags = [(''content-root'', ''/var/lib/regstair/content''), (''config'', ''/etc/regstair/regstair.yaml''), (''output'', [])]"

definition runAdminBackup :: "Archive \<Rightarrow> time \<Rightarrow> OSFaults \<Rightarrow> string list \<Rightarrow> unit osm" where
  "runAdminBackup A now F args =
    (case string_flags backup_flags args of Inl e \<Rightarrow> fail e
     | Inr fl \<Rightarrow>
       let contentRoot = flag fl ''content-root''; configPath = flag fl ''config''; output = flag fl ''output'' in
       if contentRoot = [] \<or> configPath = [] \<or> output = [] then fail (errorf ''content-root, config, and output are required'')
       else
       andthen (absent F output (errorf ''backup output must not already exist'')) (\<lambda>_.
       andthen (otherwise (errorf ''content root is unavailable'') (Stat F contentRoot)) (\<lambda>info.
       if info \<noteq> DirNode then fail (errorf ''content root is unavailable'')
       else
       andthen (otherwise (errorf ''configuration file is unavailable'') (Stat F configPath)) (\<lambda>info.
       if (case info of RegNode _ _ \<Rightarrow> False | _ \<Rightarrow> True) then fail (errorf ''configuration file is unavailable'')
       else
       andthen (wrapping ''create backup: %w'' (CreateExclusive F output 384)) (\<lambda>_.
       write_backup A now F contentRoot configPath output)))))"

section \<open>Restore\<close>

text \<open>io.CopyN into a new file, and Close.\<close>

definition copy_entry :: "OSFaults \<Rightarrow> TarHeader \<Rightarrow> string \<times> goerr option \<Rightarrow> string \<Rightarrow> unit osm" where
  "copy_entry F h content target s =
    (case Write F target (take (nat (th_Size h)) (fst content)) s of
       (Inl e, s) \<Rightarrow> (Inl e, snd (Close F s))
     | (Inr _, s) \<Rightarrow>
       if int (length (fst content)) < th_Size h
       then (Inl (case snd content of None \<Rightarrow> errorf ''EOF'' | Some e \<Rightarrow> e), snd (Close F s))
       else Close F s)"

definition restoreTarFile :: "OSFaults \<Rightarrow> TarHeader \<Rightarrow> string \<times> goerr option \<Rightarrow> string \<Rightarrow> unit osm" where
  "restoreTarFile F h content target =
    (case th_Typeflag h of
       TypeDir \<Rightarrow> MkdirAll F target
     | TypeOther \<Rightarrow> fail (errorf ''backup contains unsupported entry type'')
     | _ \<Rightarrow>
       andthen (MkdirAll F (filepath_Dir target)) (\<lambda>_.
       andthen (CreateExclusive F target (th_Mode h AND 448)) (\<lambda>_.
       copy_entry F h content target)))"

definition pathAbsentOrEmptyDir :: "OSFaults \<Rightarrow> string \<Rightarrow> bool osm" where
  "pathAbsentOrEmptyDir F p s =
    (case ReadDir F p s of (Inl e, s) \<Rightarrow> (Inr (errors_Is e ErrNotExist), s) | (Inr n, s) \<Rightarrow> (Inr (n = 0), s))"

text \<open>The first bytes of an entry, as a LimitReader shows them.\<close>

definition limited :: "nat \<Rightarrow> string \<times> goerr option \<Rightarrow> string \<times> goerr option" where
  "limited n content = (if length (fst content) \<ge> n then (take n (fst content), None) else content)"

fun restore_entries ::
  "Archive \<Rightarrow> OSFaults \<Rightarrow> string \<Rightarrow> string \<Rightarrow> bool \<times> bool \<Rightarrow> (TarHeader \<times> string \<times> goerr option) list \<Rightarrow> goerr option \<Rightarrow> (bool \<times> bool) osm" where
  "restore_entries A F contentRoot configOutput seen [] final =
     andthen (wrapping ''read backup: %w'' (query (os_err F) (\<lambda>_. ()))) (\<lambda>_.
     case final of None \<Rightarrow> ret seen | Some e \<Rightarrow> fail (wrapf ''read backup: %w'' e))"
| "restore_entries A F contentRoot configOutput seen ((h, content) # es) final =
     andthen (wrapping ''read backup: %w'' (query (os_err F) (\<lambda>_. ()))) (\<lambda>_.
     let name = Clean (th_Name h) in
     if name = ''.'' \<or> HasPrefix name ''../'' \<or> IsAbs (th_Name h) then fail (errorf ''backup contains unsafe path'')
     else if name = ''manifest.json'' then
       (case av_decode A (limited 65536 content) of
          Inl _ \<Rightarrow> fail (errorf ''backup manifest is invalid'')
        | Inr m \<Rightarrow> if bm_Version m \<noteq> 1 then fail (errorf ''backup manifest is invalid'')
            else restore_entries A F contentRoot configOutput (True, snd seen) es final)
     else if name = ''config/regstair.yaml'' then
       andthen (restoreTarFile F h content configOutput) (\<lambda>_.
       restore_entries A F contentRoot configOutput (fst seen, True) es final)
     else if HasPrefix name ''content/'' then
       let relative = TrimPrefix name ''content/'' in
       if relative = [] then restore_entries A F contentRoot configOutput seen es final
       else
       andthen (restoreTarFile F h content (filepath_Join contentRoot relative)) (\<lambda>_.
       restore_entries A F contentRoot configOutput seen es final)
     else fail (errorf ''backup contains unexpected entry %q''))"

definition restore_flags :: "(string \<times> string) list" where
  "restore_flags = [(''archive'', []), (''content-root'', ''/var/lib/regstair/content''), (''config-output'', [])]"

definition restore_archive :: "Archive \<Rightarrow> OSFaults \<Rightarrow> string \<Rightarrow> string \<Rightarrow> string \<Rightarrow> unit osm" where
  "restore_archive A F archive contentRoot configOutput =
    andthen (wrapping ''open backup: %w'' (ReadFile F archive)) (\<lambda>bytes.
    andthen (wrapping ''open compressed backup: %w'' (case av_open A bytes of Inl e \<Rightarrow> fail e | Inr t \<Rightarrow> ret t)) (\<lambda>(es, final).
    andthen (MkdirAll F contentRoot) (\<lambda>_.
    andthen (MkdirAll F (filepath_Dir configOutput)) (\<lambda>_.
    andthen (restore_entries A F contentRoot configOutput (False, False) es final) (\<lambda>(seenManifest, seenConfig).
    if \<not> seenManifest \<or> \<not> seenConfig then fail (errorf ''backup is incomplete'') else ret ())))))"

definition runAdminRestore :: "Archive \<Rightarrow> OSFaults \<Rightarrow> string list \<Rightarrow> unit osm" where
  "runAdminRestore A F args =
    (case string_flags restore_flags args of Inl e \<Rightarrow> fail e
     | Inr fl \<Rightarrow>
       let archive = flag fl ''archive''; contentRoot = flag fl ''content-root''; configOutput = flag fl ''config-output'' in
       if archive = [] \<or> contentRoot = [] \<or> configOutput = [] then fail (errorf ''archive, content-root, and config-output are required'')
       else
       andthen (pathAbsentOrEmptyDir F contentRoot) (\<lambda>free.
       if \<not> free then fail (errorf ''restore content root must be absent or empty'')
       else
       andthen (absent F configOutput (errorf ''restore configuration output must not exist'')) (\<lambda>_.
       restore_archive A F archive contentRoot configOutput)))"

end
