(* ===== verification/Commands.thy ===== *)
theory Commands
  imports App TLS_Identity Backup
begin

text \<open>
  The commands of the program (cmd/regstair/main.go): preparing the TLS identity, creating and
  rotating the key of the stored credentials, recovering an administrator's password, and the choice
  between them and the server. A command works on the files and the database of the machine, whose
  calls are counted together and may each fail. Opening the database, what ends the server and random
  numbers are parameters; the log is not modelled.
\<close>

section \<open>The machine\<close>

type_synonym Machine = "Files \<times> SecDB"
type_synonym 'a cmd = "(Machine, 'a) dbm"

definition on_files :: "'a osm \<Rightarrow> 'a cmd" where
  "on_files m s = (case m (fst (fst s), snd s) of (x, fs, n) \<Rightarrow> (x, (fs, snd (fst s)), n))"

definition on_db :: "'a sqlm \<Rightarrow> 'a cmd" where
  "on_db m s = (case m (snd (fst s), snd s) of (x, db, n) \<Rightarrow> (x, (fst (fst s), db), n))"

text \<open>
  ce_Open is NewSQLiteRepository; ce_nonce gives the random bytes of the n-th encryption, ce_salt
  those of the password hash and ce_key those of a new credential key. ce_run is run on the files
  and the database of the machine.
\<close>

record ('c, 'k) CommandEnv =
  ce_os :: OSFaults
  ce_sql :: SqlFaults
  ce_Open :: "string \<Rightarrow> unit result"
  ce_dbnow :: time
  ce_crypto :: Crypto
  ce_nonce :: "nat \<Rightarrow> nat \<Rightarrow> string result"
  ce_argon :: Argon2
  ce_salt :: "nat \<Rightarrow> string result"
  ce_key :: "nat \<Rightarrow> string result"
  ce_x509 :: "('c, 'k) X509"
  ce_net :: NetLib
  ce_interfaces :: "NetInterface list result"
  ce_archive :: Archive
  ce_now :: time
  ce_Getenv :: "string \<Rightarrow> string"
  ce_run :: "Options \<Rightarrow> unit cmd"

section \<open>TLS\<close>

definition tls_flags :: "(string \<times> string) list" where
  "tls_flags = [(''dir'', ''/var/lib/regstair/tls''), (''hosts'', ''localhost,127.0.0.1,::1,regstair'')]"

definition runTLSInit :: "('c, 'k) CommandEnv \<Rightarrow> string list \<Rightarrow> unit osm" where
  "runTLSInit E args =
    (case string_flags tls_flags args of Inl e \<Rightarrow> fail e
     | Inr fl \<Rightarrow>
       (case DiscoverHostAddresses (ce_net E) (ce_interfaces E) of Inl e \<Rightarrow> fail e
        | Inr discovered \<Rightarrow>
          let hosts = Split CHR '','' (flag fl ''hosts'') @ discovered in
          andthen (EnsureExact (ce_x509 E) (ce_os E) (flag fl ''dir'') hosts) (\<lambda>_. ret ())))"

definition configureTLS :: "('c, 'k) CommandEnv \<Rightarrow> Options \<Rightarrow> string \<Rightarrow> string \<Rightarrow> Options osm" where
  "configureTLS E options tlsDir tlsHosts =
    (if opt_HTTPSListenAddr options = [] then ret options
     else
     let provided = length (filter (\<lambda>path. path \<noteq> []) [opt_TLSCertFile options, opt_TLSKeyFile options, opt_TLSCAFile options]) in
     if provided > 0 then
       if provided \<noteq> 3 then fail (errorf ''tls-cert-file, tls-key-file, and tls-ca-file must be supplied together'')
       else
       andthen (wrapping ''load operator TLS identity: %w''
         (LoadX509KeyPair (ce_x509 E) (ce_os E) (opt_TLSCertFile options) (opt_TLSKeyFile options))) (\<lambda>_. ret options)
     else
     andthen (Ensure (ce_x509 E) (ce_os E) tlsDir (Split CHR '','' tlsHosts)) (\<lambda>identity.
     ret (options\<lparr>opt_TLSCertFile := id_CertFile identity, opt_TLSKeyFile := id_KeyFile identity,
       opt_TLSCAFile := id_CACertFile identity\<rparr>)))"

section \<open>The credential key\<close>

definition create_key :: "OSFaults \<Rightarrow> string \<Rightarrow> string \<Rightarrow> unit osm" where
  "create_key F path key =
    andthen (wrapping ''create credential key: %w'' (CreateExclusive F path 384)) (\<lambda>_.
    andthen (wrapping ''write credential key: %w'' (closing F (Write F path key))) (\<lambda>_.
    wrapping ''close credential key: %w'' (Close F)))"

definition ensureCredentialKey :: "(nat \<Rightarrow> string result) \<Rightarrow> OSFaults \<Rightarrow> string \<Rightarrow> unit osm" where
  "ensureCredentialKey random F path s =
    (case Stat F path s of
       (Inr info, s) \<Rightarrow>
         (case info of RegNode _ _ \<Rightarrow> (Inr (), s) | _ \<Rightarrow> (Inl (errorf ''credential key path is not a regular file''), s))
     | (Inl err, s) \<Rightarrow>
         if \<not> errors_Is err ErrNotExist then (Inl (wrapf ''inspect credential key: %w'' err), s)
         else
         andthen (wrapping ''create credential key directory: %w'' (MkdirAll F (filepath_Dir path))) (\<lambda>_.
         case random 32 of Inl e \<Rightarrow> fail (wrapf ''generate credential key: %w'' e)
         | Inr key \<Rightarrow> create_key F path key) s)"

text \<open>LoadSecretKeyring with the reads of its files as calls.\<close>

definition load_keyring :: "OSFaults \<Rightarrow> string \<Rightarrow> (string \<times> string) list \<Rightarrow> SecretKeyring osm" where
  "load_keyring F activeKeyID keyFiles s =
    (LoadSecretKeyring (\<lambda>p. fst (ReadFile F p (fst s, snd s + length (takeWhile (\<lambda>f. snd f \<noteq> p) keyFiles)))) activeKeyID keyFiles,
     (fst s, snd s + length keyFiles))"

section \<open>Rotating the credential key\<close>

text \<open>The loop over the credentials of a user; k counts the encryptions of the command.\<close>

fun rotate_credentials ::
  "Crypto \<Rightarrow> (nat \<Rightarrow> nat \<Rightarrow> string result) \<Rightarrow> SecretKeyring \<Rightarrow> SecretKeyring \<Rightarrow> nat \<Rightarrow> (string \<times> string) list
     \<Rightarrow> RegistryCredential list \<Rightarrow> (nat \<times> (string \<times> string) list) result" where
  "rotate_credentials C nonce keyring newOnly k replacements [] = Inr (k, replacements)"
| "rotate_credentials C nonce keyring newOnly k replacements (c # cs) =
     (case Reencrypt C (nonce k) keyring (rc_ID c) (rc_UserID c) (rc_SourceID c) (rc_EncryptedSecret c) of
        Inl _ \<Rightarrow> Inl (errorf ''credential %q cannot be decrypted with the supplied old key'')
      | Inr rotated \<Rightarrow>
        (case Decrypt C newOnly (rc_ID c) (rc_UserID c) (rc_SourceID c) rotated of
           Inl e \<Rightarrow> Inl (wrapf ''verify rotated credential %q: %w'' e)
         | Inr _ \<Rightarrow> rotate_credentials C nonce keyring newOnly (Suc k) (AList.update (rc_ID c) rotated replacements) cs))"

fun rotate_users ::
  "('c, 'k) CommandEnv \<Rightarrow> SecretKeyring \<Rightarrow> SecretKeyring \<Rightarrow> nat \<Rightarrow> (string \<times> string) list \<Rightarrow> User list
     \<Rightarrow> (string \<times> string) list sqlm" where
  "rotate_users E keyring newOnly k replacements [] = ret replacements"
| "rotate_users E keyring newOnly k replacements (user # users) =
     andthen (ListRegistryCredentialsForUser (ce_sql E) (usr_ID user)) (\<lambda>credentials.
     case rotate_credentials (ce_crypto E) (ce_nonce E) keyring newOnly k replacements credentials of Inl e \<Rightarrow> fail e
     | Inr (k, replacements) \<Rightarrow> rotate_users E keyring newOnly k replacements users)"

definition rotate_flags :: "(string \<times> string) list" where
  "rotate_flags = [(''metadata-path'', ''/var/lib/regstair/content/metadata/regstair.db''), (''old-key-id'', []), (''old-key-file'', []),
     (''new-key-id'', []), (''new-key-file'', [])]"

definition rotation_audit :: "string \<Rightarrow> string \<Rightarrow> nat \<Rightarrow> AuditEvent" where
  "rotation_audit oldKeyID newKeyID n =
    \<lparr>au_ID = 0, au_Timestamp = 0, au_ActorUserID = [], au_ActorRole = ''system'', au_Action = ''credential.key_rotated'',
     au_TargetType = ''credential_key'', au_TargetID = newKeyID, au_Outcome = ''success'', au_CorrelationID = [], au_RemoteAddress = [],
     au_Details = [(''previous_key_id'', oldKeyID), (''new_key_id'', newKeyID), (''credential_count'', FormatUint n)]\<rparr>"

definition runAdminRotateCredentialKey :: "('c, 'k) CommandEnv \<Rightarrow> string list \<Rightarrow> unit cmd" where
  "runAdminRotateCredentialKey E args =
    (case string_flags rotate_flags args of Inl e \<Rightarrow> fail e
     | Inr fl \<Rightarrow>
       let oldKeyID = flag fl ''old-key-id''; oldKeyFile = flag fl ''old-key-file'';
           newKeyID = flag fl ''new-key-id''; newKeyFile = flag fl ''new-key-file'' in
       if oldKeyID = [] \<or> oldKeyFile = [] \<or> newKeyID = [] \<or> newKeyFile = [] \<or> oldKeyID = newKeyID
       then fail (errorf ''distinct old and new key ids and files are required'')
       else
       andthen (on_files (load_keyring (ce_os E) newKeyID [(oldKeyID, oldKeyFile), (newKeyID, newKeyFile)])) (\<lambda>keyring.
       andthen (on_files (load_keyring (ce_os E) newKeyID [(newKeyID, newKeyFile)])) (\<lambda>newOnly.
       after_check (ce_Open E (flag fl ''metadata-path'')) (
       andthen (on_db (SQL_ListUsers (ce_sql E))) (\<lambda>users.
       andthen (on_db (rotate_users E keyring newOnly 0 [] users)) (\<lambda>replacements.
       andthen (on_db (RotateRegistryCredentialSecrets (ce_sql E) (ce_dbnow E) replacements
         (rotation_audit oldKeyID newKeyID (length replacements)))) (\<lambda>_. ret ())))))))"

section \<open>Recovering a password\<close>

definition reset_flags :: "(string \<times> string) list" where
  "reset_flags = [(''metadata-path'', ''/var/lib/regstair/content/metadata/regstair.db''), (''username'', []), (''password-file'', [])]"

definition recovery_audit :: "string \<Rightarrow> AuditEvent" where
  "recovery_audit userID =
    \<lparr>au_ID = 0, au_Timestamp = 0, au_ActorUserID = [], au_ActorRole = ''system'', au_Action = ''user.password_recovered'',
     au_TargetType = ''user'', au_TargetID = userID, au_Outcome = ''success'', au_CorrelationID = [], au_RemoteAddress = [],
     au_Details = []\<rparr>"

text \<open>A nil user from ChangeUserPassword would panic when it is logged.\<close>

definition recover_password :: "('c, 'k) CommandEnv \<Rightarrow> string \<Rightarrow> string \<Rightarrow> unit sqlm" where
  "recover_password E username password =
    andthen (SQL_FindUserByUsername (ce_sql E) username) (\<lambda>found.
    case found of None \<Rightarrow> fail (errorf ''enabled or disabled administrator %q was not found'')
    | Some user \<Rightarrow>
      if Access user \<noteq> UserAccessAdmin then fail (errorf ''enabled or disabled administrator %q was not found'')
      else
      (case Hash (ce_argon E) \<lparr>ph_params = DefaultPasswordParams, ph_random = ce_salt E\<rparr> password of Inl e \<Rightarrow> fail e
       | Inr hash \<Rightarrow>
         andthen (ChangeUserPassword (ce_sql E) (ce_dbnow E) (usr_ID user) (usr_UpdatedAt user) hash (recovery_audit (usr_ID user))) (\<lambda>updated.
         case updated of None \<Rightarrow> fail (errorf ''invalid memory address or nil pointer dereference'') | Some _ \<Rightarrow> ret ())))"

definition runAdminResetPassword :: "('c, 'k) CommandEnv \<Rightarrow> string list \<Rightarrow> unit cmd" where
  "runAdminResetPassword E args =
    (case string_flags reset_flags args of Inl e \<Rightarrow> fail e
     | Inr fl \<Rightarrow>
       let username = flag fl ''username''; passwordFile = flag fl ''password-file'' in
       if username = [] \<or> passwordFile = [] then fail (errorf ''username and password-file are required'')
       else
       andthen (on_files (wrapping ''read replacement password file: %w'' (ReadFile (ce_os E) passwordFile))) (\<lambda>contents.
       let password = TrimSuffix (TrimSuffix contents [CHR 0x0A]) [CHR 0x0D] in
       after_check (ce_Open E (flag fl ''metadata-path'')) (on_db (recover_password E username password))))"

section \<open>Running the server\<close>

text \<open>
  What the select of run receives first: the end of a listener, with its error if any, or a signal,
  after which the two servers are shut down one after the other. None is a panic in New.
\<close>

datatype process_event = ListenerEnded "goerr option" | Signalled "goerr option" "goerr option"

definition outcome :: "goerr option \<Rightarrow> unit result" where
  "outcome err = (case err of None \<Rightarrow> Inr () | Some e \<Rightarrow> Inl e)"

definition run ::
  "('s, 'n) AppEnv \<Rightarrow> process_event \<Rightarrow> Options \<Rightarrow> ('s, 'n Upstream) AdminState \<Rightarrow> Files \<times> nat \<Rightarrow> unit result option" where
  "run E event options s f =
    (case NewApp E options s f of
       None \<Rightarrow> None
     | Some (Inl e) \<Rightarrow> Some (Inl e)
     | Some (Inr (application, _)) \<Rightarrow>
       (case event of
          ListenerEnded err \<Rightarrow> Some (outcome err)
        | Signalled err tlsErr \<Rightarrow>
          (case err of Some e \<Rightarrow> Some (Inl e)
           | None \<Rightarrow> if app_httpsListenAddr application \<noteq> [] then Some (outcome tlsErr) else Some (Inr ()))))"

section \<open>Main\<close>

text \<open>The flags of the server with their defaults, in the order of the code.\<close>

definition server_flags :: "(string \<Rightarrow> string) \<Rightarrow> (string \<times> flag_kind \<times> string) list" where
  "server_flags Getenv =
    [(''config'', StringFlag, ''config/regstair.example.yaml''),
     (''content-root'', StringFlag, ''/var/lib/regstair/content''),
     (''metadata-path'', StringFlag, []),
     (''listen'', StringFlag, '':80''),
     (''https-listen'', StringFlag, '':443''),
     (''https-public-port'', StringFlag, []),
     (''tls-dir'', StringFlag, ''/var/lib/regstair/tls''),
     (''tls-hosts'', StringFlag, ''localhost,127.0.0.1,::1,regstair''),
     (''tls-cert-file'', StringFlag, Getenv ''REGSTAIR_TLS_CERT_FILE''),
     (''tls-key-file'', StringFlag, Getenv ''REGSTAIR_TLS_KEY_FILE''),
     (''tls-ca-file'', StringFlag, Getenv ''REGSTAIR_TLS_CA_FILE''),
     (''stub-sources'', BoolFlag, bool_value False),
     (''stub-fixtures'', BoolFlag, bool_value False),
     (''credential-key-id'', StringFlag, []),
     (''credential-key-file'', StringFlag, []),
     (''generate-credential-key'', BoolFlag, bool_value False)]"

definition options_of :: "(string \<times> string) list \<Rightarrow> Options" where
  "options_of fl =
    \<lparr>opt_ConfigPath = flag fl ''config'', opt_ContentRoot = flag fl ''content-root'', opt_MetadataPath = flag fl ''metadata-path'',
     opt_ListenAddr = flag fl ''listen'', opt_StubSources = (flag fl ''stub-sources'' = bool_value True),
     opt_StubFixtures = (flag fl ''stub-fixtures'' = bool_value True), opt_CredentialKeyID = flag fl ''credential-key-id'',
     opt_CredentialKeyFile = flag fl ''credential-key-file'', opt_HTTPSListenAddr = flag fl ''https-listen'',
     opt_TLSCertFile = flag fl ''tls-cert-file'', opt_TLSKeyFile = flag fl ''tls-key-file'', opt_TLSCAFile = flag fl ''tls-ca-file'',
     opt_HTTPSRedirectPort = flag fl ''https-public-port''\<rparr>"

text \<open>What main does once its flags are read.\<close>

definition start :: "('c, 'k) CommandEnv \<Rightarrow> (string \<times> string) list \<Rightarrow> unit cmd" where
  "start E fl =
    andthen (on_files (configureTLS E (options_of fl) (flag fl ''tls-dir'') (flag fl ''tls-hosts''))) (\<lambda>options.
    andthen (if flag fl ''generate-credential-key'' = bool_value True then
        if opt_CredentialKeyID options = [] \<or> opt_CredentialKeyFile options = []
        then fail (errorf ''credential-key-id and credential-key-file are required'')
        else on_files (ensureCredentialKey (ce_key E) (ce_os E) (opt_CredentialKeyFile options))
      else ret ()) (\<lambda>_.
    ce_run E options))"

definition exit_status :: "'a result \<times> 's \<Rightarrow> int \<times> 's" where
  "exit_status p = (case fst p of Inl _ \<Rightarrow> 1 | Inr _ \<Rightarrow> 0, snd p)"

text \<open>os.Args holds the name of the program; flag.Parse ends the program by itself.\<close>

definition main :: "('c, 'k) CommandEnv \<Rightarrow> string list \<Rightarrow> Machine \<times> nat \<Rightarrow> int \<times> Machine \<times> nat" where
  "main E argv s =
    (let named = (\<lambda>a b. length argv \<ge> 3 \<and> argv ! 1 = a \<and> argv ! 2 = b); args = drop 3 argv in
     if named ''tls'' ''init'' then exit_status (on_files (runTLSInit E args) s)
     else if named ''admin'' ''reset-password'' then exit_status (runAdminResetPassword E args s)
     else if named ''admin'' ''rotate-credential-key'' then exit_status (runAdminRotateCredentialKey E args s)
     else if named ''admin'' ''backup'' then exit_status (on_files (runAdminBackup (ce_archive E) (ce_now E) (ce_os E) args) s)
     else if named ''admin'' ''restore'' then exit_status (on_files (runAdminRestore (ce_archive E) (ce_os E) args) s)
     else
     (case parse_flags (map (\<lambda>(n, k, v). (n, k)) (server_flags (ce_Getenv E))) (map (\<lambda>(n, k, v). (n, v)) (server_flags (ce_Getenv E)))
             (drop 1 argv) of
        Inl e \<Rightarrow> (if e = errorf ''flag: help requested'' then 0 else 2, s)
      | Inr fl \<Rightarrow> exit_status (start E fl s)))"

end
