(* ===== verification/Backup_Properties.thy ===== *)
theory Backup_Properties
  imports Backup Secrets
begin

text \<open>
  Where a restore may write, what a backup leaves behind and holds, and that restoring a backup
  brings the files back.
\<close>

section \<open>Where a restore writes\<close>

text \<open>The configuration file, what lies below the content root, and the directories on the way to both.\<close>

definition restore_area :: "string \<Rightarrow> string \<Rightarrow> loc set" where
  "restore_area contentRoot configOutput =
     {locate configOutput}
     \<union> {l. fst l = fst (locate contentRoot) \<and> (\<exists>ds. snd l = snd (locate contentRoot) @ ds \<and> list_all ordinary ds)}
     \<union> set (ancestors (locate contentRoot)) \<union> set (ancestors (locate configOutput))
     \<union> set (ancestors (locate (filepath_Dir configOutput)))"

lemma ancestors_member: "k \<in> set (ancestors l) \<longleftrightarrow> fst k = fst l \<and> snd k \<noteq> [] \<and> prefix (snd k) (snd l)"
proof -
  have "k \<in> set (ancestors l)" if "fst k = fst l" "snd k \<noteq> []" "prefix (snd k) (snd l)"
    using that by (cases k) (auto simp: ancestors_def prefix_def image_iff intro!: bexI [of _ "length (snd k)"] Suc_leI)
  moreover have "fst k = fst l \<and> snd k \<noteq> [] \<and> prefix (snd k) (snd l)" if "k \<in> set (ancestors l)"
    using that by (auto simp: ancestors_def take_is_prefix)
  ultimately show ?thesis by blast
qed

text \<open>The directory of a path below the content root.\<close>

lemma below_area:
  assumes "list_all ordinary ds" shows "set (ancestors (fst (locate a), snd (locate a) @ ds)) \<subseteq> restore_area a c"
proof
  fix k assume "k \<in> set (ancestors (fst (locate a), snd (locate a) @ ds))"
  then have k: "fst k = fst (locate a)" "snd k \<noteq> []" "prefix (snd k) (snd (locate a) @ ds)" by (auto simp: ancestors_member)
  from k(3) consider "prefix (snd k) (snd (locate a))" | es where "snd k = snd (locate a) @ es" "prefix es ds"
    by (auto simp: prefix_append)
  then show "k \<in> restore_area a c"
  proof cases
    case 1
    with k show ?thesis by (auto simp: restore_area_def ancestors_member)
  next
    case 2
    then have "list_all ordinary es" using assms by (auto simp: prefix_def)
    with 2 k show ?thesis by (cases k) (auto simp: restore_area_def)
  qed
qed

text \<open>A file that was just created is filled; its mode is the owner's part of what was asked for.\<close>

lemma create_fill_grows:
  assumes "locate t \<in> A" and fill: "\<And>s1. \<exists>d. fst (snd (fill s1)) = change_at (locate t) (node_append d) (fst s1)"
  shows "keeps (grows A) (andthen (CreateExclusive F t (m AND 448)) (\<lambda>_. fill))"
  unfolding keeps_def
proof
  fix s :: "Files \<times> nat"
  obtain res s1 where c: "CreateExclusive F t (m AND 448) s = (res, s1)" by (metis surj_pair)
  show "grows A (fst s) (fst (snd (andthen (CreateExclusive F t (m AND 448)) (\<lambda>_. fill) s)))"
  proof (cases res)
    case (Inl e)
    with c have "fst s1 = fst s" by (auto simp: CreateExclusive_def create_at_def sql_def split: option.splits if_splits)
    with c Inl show ?thesis by (simp add: andthen_def)
  next
    case (Inr u)
    with c have n: "node_at (fst s) (locate t) = None" and f: "fst s1 = fst s @ [(locate t, RegNode [] (m AND 448))]"
      by (auto simp: CreateExclusive_def create_at_def sql_def split: option.splits if_splits)
    obtain d where "fst (snd (fill s1)) = change_at (locate t) (node_append d) (fst s1)" using fill by blast
    then show ?thesis using c Inr n f assms(1)
      by (auto simp: andthen_def grows_def node_at_None map_add_def private_node_def split: option.splits)
  qed
qed

lemma Close_files: "fst (snd (Close F s)) = fst s"
  by (auto simp: Close_def query_def sql_def split: option.splits)

lemma Write_fills: "\<exists>d'. fst (snd (Write F t d s)) = change_at (locate t) (node_append d') (fst s)"
  by (auto simp: Write_def Let_def split: option.splits)

lemma copy_entry_fills: "\<exists>d. fst (snd (copy_entry F h c t s)) = change_at (locate t) (node_append d) (fst s)"
  using Write_fills [of F t "take (nat (th_Size h)) (fst c)" s] by (auto simp: copy_entry_def Close_files split: prod.splits sum.splits)

lemma restoreTarFile_grows:
  assumes "locate t \<in> A" "set (ancestors (locate t)) \<subseteq> A" "set (ancestors (locate (filepath_Dir t))) \<subseteq> A"
  shows "keeps (grows A) (restoreTarFile F h c t)"
  using assms by (cases "th_Typeflag h") (auto simp: restoreTarFile_def intro!: keeps_intros MkdirAll_grows create_fill_grows copy_entry_fills)


lemma restore_config_grows: "keeps (grows (restore_area a c)) (restoreTarFile F h content c)"
  by (rule restoreTarFile_grows) (auto simp: restore_area_def)

lemma restore_content_grows:
  assumes "a \<noteq> []" "HasPrefix (Clean p) ''content/''" "\<not> IsAbs p"
  shows "keeps (grows (restore_area a c)) (restoreTarFile F h content (filepath_Join a (TrimPrefix (Clean p) ''content/'')))"
proof -
  have o: "ordinary ''content''" by code_simp
  obtain ds where ds: "list_all ordinary ds" "TrimPrefix (Clean p) ''content/'' = Join ''/'' ds" "ds \<noteq> []"
    using Clean_prefix [where p = p and w = "''content''"] assms o by auto
  then obtain es e where e: "ds = es @ [e]" by (metis rev_exhaust)
  let ?t = "filepath_Join a (Join ''/'' ds)"
  have t: "locate ?t = (fst (locate a), snd (locate a) @ ds)" using ds by (simp add: locate_below)
  have d: "locate (filepath_Dir ?t) = (fst (locate a), snd (locate a) @ es)" using Dir_below [of es e a] ds e by simp
  have "locate ?t \<in> restore_area a c" unfolding t restore_area_def using ds(1) by auto
  moreover have "set (ancestors (locate ?t)) \<subseteq> restore_area a c" unfolding t using ds(1) by (rule below_area)
  moreover have "set (ancestors (locate (filepath_Dir ?t))) \<subseteq> restore_area a c" unfolding d using ds(1) e by (intro below_area) simp
  ultimately show ?thesis unfolding ds(2) by (rule restoreTarFile_grows)
qed

lemma restore_entries_grows:
  assumes "contentRoot \<noteq> []"
  shows "keeps (grows (restore_area contentRoot configOutput)) (restore_entries A F contentRoot configOutput seen es final)"
proof (induction es arbitrary: seen)
  case Nil
  show ?case unfolding restore_entries.simps by (cases final) (auto intro!: keeps_intros)
next
  case (Cons x es)
  obtain h content where x: "x = (h, content)" by (cases x)
  have c: "keeps (grows (restore_area contentRoot configOutput)) (restoreTarFile F h content (filepath_Join contentRoot (TrimPrefix (Clean (th_Name h)) ''content/'')))"
    if "HasPrefix (Clean (th_Name h)) ''content/''" "\<not> IsAbs (th_Name h)"
    using assms that by (rule restore_content_grows)
  show ?case unfolding x restore_entries.simps Let_def
    by (intro keeps_intros preorder_grows Cons.IH restore_config_grows c; (cases "av_decode A (limited 65536 content)")?) (auto intro!: keeps_intros Cons.IH)
qed

lemma restore_grows:
  assumes "contentRoot \<noteq> []"
  shows "keeps (grows (restore_area contentRoot configOutput)) (restore_archive A F archive contentRoot configOutput)"
proof -
  have "set (ancestors (locate contentRoot)) \<subseteq> restore_area contentRoot configOutput"
    "set (ancestors (locate (filepath_Dir configOutput))) \<subseteq> restore_area contentRoot configOutput" by (auto simp: restore_area_def)
  then show ?thesis unfolding restore_archive_def
    by (intro keeps_intros preorder_grows; (clarsimp split: sum.splits)?) 
      (auto intro!: keeps_intros MkdirAll_grows restore_entries_grows assms)
qed

lemma checks_grow:
  assumes "preorder R" shows "keeps R (pathAbsentOrEmptyDir F p)" "keeps R (absent F p e)"
proof -
  have "fst (snd (pathAbsentOrEmptyDir F p s)) = fst (snd (ReadDir F p s))" "fst (snd (absent F p e s)) = fst (snd (Stat F p s))" for s
    by (auto simp: pathAbsentOrEmptyDir_def absent_def split: prod.splits sum.splits)
  then show "keeps R (pathAbsentOrEmptyDir F p)" "keeps R (absent F p e)"
    using calls_keep(1,4) [OF assms, of F p] by (simp_all add: keeps_def)
qed

definition restore_target :: "string list \<Rightarrow> loc set" where
  "restore_target args = (case string_flags restore_flags args of Inl _ \<Rightarrow> {}
     | Inr fl \<Rightarrow> restore_area (flag fl ''content-root'') (flag fl ''config-output''))"

lemma runAdminRestore_grows: "keeps (grows (restore_target args)) (runAdminRestore A F args)"
  unfolding runAdminRestore_def restore_target_def
  by (cases "string_flags restore_flags args") (auto simp: Let_def intro!: keeps_intros checks_grow restore_grows)

text \<open>
  C30: a restore of any archive, under any failures, changes and removes no file that is
  there; what it adds lies below the content root, or is the configuration file or a directory on the way to
  either, and is open to its owner only.\<close>

theorem restore_stays_inside:
  "map_of (fst (snd (runAdminRestore A F args s))) l = map_of (fst s) l
     \<or> map_of (fst s) l = None \<and> l \<in> restore_target args
       \<and> (\<exists>n. map_of (fst (snd (runAdminRestore A F args s))) l = Some n \<and> (n = DirNode \<or> (\<exists>c m. n = RegNode c (m AND 448))))"
  using growsD [OF keeps_snd [OF runAdminRestore_grows [of args A F], where s = s], of l] .

section \<open>What a backup holds\<close>

definition at :: "string \<Rightarrow> string list \<Rightarrow> loc" where "at root ds = (fst (locate root), snd (locate root) @ ds)"

text \<open>The entry of a file or directory, by its path below the content root.\<close>

definition tree_entry :: "Files \<Rightarrow> string \<Rightarrow> string list \<Rightarrow> TarHeader \<times> string" where
  "tree_entry fs root ds = (case map_of fs (at root ds) of
       Some (RegNode c m) \<Rightarrow> (\<lparr>th_Name = ''content/'' @ Join ''/'' ds, th_Typeflag = TypeReg, th_Mode = m, th_Size = int (length c)\<rparr>, c)
     | _ \<Rightarrow> (\<lparr>th_Name = ''content/'' @ Join ''/'' ds, th_Typeflag = TypeDir, th_Mode = 448, th_Size = 0\<rparr>, []))"

definition config_entry :: "string \<Rightarrow> int \<Rightarrow> TarHeader \<times> string" where
  "config_entry c m = (\<lparr>th_Name = ''config/regstair.yaml'', th_Typeflag = TypeReg, th_Mode = m, th_Size = int (length c)\<rparr>, c)"

definition manifest_entry :: "string \<Rightarrow> TarHeader \<times> string" where
  "manifest_entry c = (\<lparr>th_Name = ''manifest.json'', th_Typeflag = TypeReg, th_Mode = 384, th_Size = int (length c)\<rparr>, c)"

lemma set_below: "set (below fs (locate root)) = {ds. ds \<noteq> [] \<and> list_all ordinary ds \<and> at root ds \<in> fst ` set fs}"
  unfolding below_def at_def by (auto simp: prefix_def image_iff) (metis fst_conv prod.collapse)+

lemma sql_call_Inr: "sql F f s = (Inr x, s') \<longleftrightarrow> F (snd s) = None \<and> f (fst s) = Inr (x, fst s') \<and> snd s' = Suc (snd s)"
  by (cases s') (auto simp: sql_def split: option.splits sum.splits)

lemma at_node: "ds \<noteq> [] \<Longrightarrow> list_all ordinary ds \<Longrightarrow> node_at fs (at root ds) = map_of fs (at root ds)"
  by (cases ds) (auto simp: node_at_def at_def ordinary_def)

lemma content_name: "ds \<noteq> [] \<Longrightarrow> list_all ordinary ds \<Longrightarrow> filepath_Join ''content'' (Join ''/'' ds) = ''content/'' @ Join ''/'' ds"
proof -
  assume d: "ds \<noteq> []" "list_all ordinary ds"
  have "locate ''content'' = (False, [''content''])" by code_simp
  then have "locate (filepath_Join ''content'' (Join ''/'' ds)) = (False, ''content'' # ds)" using locate_below [of ds "''content''"] d by simp
  moreover have "filepath_Join ''content'' (Join ''/'' ds) = loc_path (locate (filepath_Join ''content'' (Join ''/'' ds)))"
    by (simp add: filepath_Join_def) (simp add: Clean_def)
  ultimately have "filepath_Join ''content'' (Join ''/'' ds) = loc_path (False, ''content'' # ds)" by simp
  then show ?thesis using d(1) by (cases ds) (simp_all add: loc_path_def)
qed

lemma flush_Inr: "flush A F out es s = (Inr u, s') \<Longrightarrow> same_but (locate out) (fst s) (fst s')"
  unfolding flush_def sql_call_Inr by (metis Pair_inject same_but_change sum.inject(2))

lemma same_but_trans: "same_but l a b \<Longrightarrow> same_but l b c \<Longrightarrow> same_but l a c"
  by (rule preorder_trans [OF preorder_same_but])

lemma same_but_node: "same_but l a b \<Longrightarrow> k \<noteq> l \<Longrightarrow> node_at b k = node_at a k"
  by (rule node_at_cong) (rule same_butD)

lemma Lstat_Inr: "Lstat F p s = (Inr n, s') \<longleftrightarrow> os_err F (snd s) = None \<and> node_at (fst s) (locate p) = Some n \<and> s' = (fst s, Suc (snd s))"
  by (cases s') (auto simp: Lstat_def sql_call_Inr split: option.splits)

lemma ReadFile_Inr: "ReadFile F p s = (Inr c, s') \<longleftrightarrow> os_err F (snd s) = None \<and> (\<exists>m. node_at (fst s) (locate p) = Some (RegNode c m)) \<and> s' = (fst s, Suc (snd s))"
  by (cases s') (auto simp: ReadFile_def sql_call_Inr split: option.splits node.splits)

lemma WriteContent_Inr:
  "WriteContent A F out h c es s = (Inr es', s') \<Longrightarrow> es' = es @ [(h, c)] \<and> same_but (locate out) (fst s) (fst s')"
  by (auto simp: WriteContent_def andthen_Inr ret_def fail_def split: if_splits dest!: flush_Inr)

lemma WriteHeader_Inr: "WriteHeader A F out h es s = (Inr u, s') \<Longrightarrow> same_but (locate out) (fst s) (fst s')"
  by (auto simp: WriteHeader_def fail_def split: if_splits dest!: flush_Inr)

fun node_entry :: "node \<Rightarrow> string \<Rightarrow> TarHeader \<times> string" where
  "node_entry (RegNode c m) name = (\<lparr>th_Name = name, th_Typeflag = TypeReg, th_Mode = m, th_Size = int (length c)\<rparr>, c)"
| "node_entry _ name = (\<lparr>th_Name = name, th_Typeflag = TypeDir, th_Mode = 448, th_Size = 0\<rparr>, [])"

definition plain_node :: "node \<Rightarrow> bool" where "plain_node n \<longleftrightarrow> n = DirNode \<or> (\<exists>c m. n = RegNode c m)"

lemma writeTarFile_Inr:
  assumes "writeTarFile A F out source name es s = (Inr es', s')" "locate source \<noteq> locate out"
  shows "\<exists>n. node_at (fst s) (locate source) = Some n \<and> plain_node n \<and> es' = es @ [node_entry n name] \<and> same_but (locate out) (fst s) (fst s')"
proof -
  from assms(1) obtain n s1 where n: "node_at (fst s) (locate source) = Some n" and s1: "fst s1 = fst s"
    and k: "(case FileInfoHeader n name of Inl e \<Rightarrow> fail e
      | Inr h \<Rightarrow> andthen (WriteHeader A F out h es) (\<lambda>_.
        if n = DirNode then ret (es @ [(h, [])]) else andthen (ReadFile F source) (\<lambda>c. WriteContent A F out h c es))) s1 = (Inr es', s')"
    by (auto simp: writeTarFile_def andthen_Inr Lstat_Inr)
  then obtain h s2 where h: "FileInfoHeader n name = Inr h" and w: "WriteHeader A F out h es s1 = (Inr (), s2)"
    and r: "(if n = DirNode then ret (es @ [(h, [])]) else andthen (ReadFile F source) (\<lambda>c. WriteContent A F out h c es)) s2 = (Inr es', s')"
    by (auto simp: andthen_Inr fail_def split: sum.splits)
  have b: "same_but (locate out) (fst s) (fst s2)" using WriteHeader_Inr [OF w] s1 by simp
  show ?thesis
  proof (cases "n = DirNode")
    case True
    with r h b n show ?thesis by (auto simp: ret_def FileInfoHeader_def plain_node_def)
  next
    case False
    with r obtain c s3 where rd: "ReadFile F source s2 = (Inr c, s3)" and wc: "WriteContent A F out h c es s3 = (Inr es', s')"
      by (auto simp: andthen_Inr)
    from rd obtain m where "node_at (fst s2) (locate source) = Some (RegNode c m)" "fst s3 = fst s2" by (auto simp: ReadFile_Inr)
    moreover from this(1) have "n = RegNode c m" using same_but_node [OF b assms(2)] n by simp
    ultimately show ?thesis using WriteContent_Inr [OF wc] same_but_trans [OF b] h n
      by (auto simp: FileInfoHeader_def plain_node_def)
  qed
qed

lemma tree_entry_node: "map_of fs (at root ds) = Some n \<Longrightarrow> plain_node n \<Longrightarrow> tree_entry fs root ds = node_entry n (''content/'' @ Join ''/'' ds)"
  by (auto simp: tree_entry_def plain_node_def)

lemma backup_walk_Inr:
  assumes "backup_walk A F out root rs es s = (Inr es', s')" "root \<noteq> []"
    and "\<forall>r \<in> set rs. r \<noteq> [] \<and> list_all ordinary r \<and> at root r \<noteq> locate out"
  shows "es' = es @ map (tree_entry (fst s) root) rs \<and> same_but (locate out) (fst s) (fst s')
    \<and> (\<forall>r \<in> set rs. \<exists>n. map_of (fst s) (at root r) = Some n \<and> plain_node n)"
  using assms(1,3)
proof (induction rs arbitrary: es s)
  case Nil
  then show ?case by (auto simp: ret_def same_but_def)
next
  case (Cons r rs)
  have r: "r \<noteq> []" "list_all ordinary r" "at root r \<noteq> locate out" using Cons.prems(2) by auto
  have l: "locate (filepath_Join root (Join ''/'' r)) = at root r" using locate_below [OF r(1,2)] by (simp add: at_def)
  from Cons.prems(1) obtain es1 s1 s2 where s1: "fst s1 = fst s"
    and w: "writeTarFile A F out (filepath_Join root (Join ''/'' r)) (''content/'' @ Join ''/'' r) es s1 = (Inr es1, s2)"
    and k: "backup_walk A F out root rs es1 s2 = (Inr es', s')"
    by (auto simp: Let_def andthen_Inr query_def sql_call_Inr fail_def content_name [OF r(1,2)] split: if_splits)
  from writeTarFile_Inr [OF w] l r(3) s1 obtain n where n: "node_at (fst s) (at root r) = Some n" "plain_node n"
    "es1 = es @ [node_entry n (''content/'' @ Join ''/'' r)]" and b: "same_but (locate out) (fst s) (fst s2)" by auto
  have m: "map_of (fst s) (at root r) = Some n" using n(1) at_node [OF r(1,2)] by simp
  have e: "map_of (fst s2) (at root q) = map_of (fst s) (at root q)" if "q \<in> set rs" for q
    using same_butD [OF b] Cons.prems(2) that by auto
  then have t: "map (tree_entry (fst s2) root) rs = map (tree_entry (fst s) root) rs" by (simp add: tree_entry_def)
  show ?case using Cons.IH [OF k] Cons.prems(2) same_but_trans [OF b] n m e t tree_entry_node [OF m n(2)] by auto
qed

text \<open>Writing to the archive: no file comes or goes, and the archive stays a file of its mode.\<close>

definition writing :: "loc \<Rightarrow> Files \<Rightarrow> Files \<Rightarrow> bool" where
  "writing l fs fs' \<longleftrightarrow> map fst fs' = map fst fs
     \<and> (\<forall>m. (\<exists>c. map_of fs l = Some (RegNode c m)) \<longrightarrow> (\<exists>c. map_of fs' l = Some (RegNode c m)))"

lemma preorder_writing [simp, intro]: "preorder (writing l)"
  by (auto simp: preorder_def reflp_def transp_def writing_def)

lemma flush_writing: "keeps (writing (locate out)) (flush A F out es)"
  unfolding flush_def
  by (rule keeps_sql) (auto simp: writing_def set_content_def)

lemma headers_writing: "keeps (writing (locate out)) (WriteHeader A F out h es)" "keeps (writing (locate out)) (WriteContent A F out h c es)"
  unfolding WriteHeader_def WriteContent_def by (auto intro!: keeps_intros flush_writing)

lemma writeTarFile_writing: "keeps (writing (locate out)) (writeTarFile A F out source name es)"
proof -
  have "keeps (writing (locate out)) (case FileInfoHeader info name of Inl e \<Rightarrow> fail e
      | Inr h \<Rightarrow> andthen (WriteHeader A F out h es) (\<lambda>_. if info = DirNode then ret (es @ [(h, [])])
          else andthen (ReadFile F source) (\<lambda>c. WriteContent A F out h c es)))" for info
    by (cases "FileInfoHeader info name") (auto intro!: keeps_intros headers_writing)
  then show ?thesis unfolding writeTarFile_def by (intro keeps_intros preorder_writing)
qed

lemma backup_walk_writing: "keeps (writing (locate out)) (backup_walk A F out root rs es)"
  by (induction rs arbitrary: es) (auto simp: Let_def intro!: keeps_intros writeTarFile_writing)

lemma backup_entries_writing: "keeps (writing (locate out)) (backup_entries A now F root cfg out)"
  unfolding backup_entries_def writeTarBytes_def Let_def
  by (intro keeps_intros preorder_writing headers_writing writeTarFile_writing backup_walk_writing)

lemma query_call_Inr: "query F f s = (Inr x, s') \<longleftrightarrow> F (snd s) = None \<and> x = f (fst s) \<and> s' = (fst s, Suc (snd s))"
  by (cases s') (auto simp: query_def sql_call_Inr)

lemma below_keys: "map fst a = map fst b \<Longrightarrow> below a l = below b l"
  by (simp add: below_def)

lemma below_snoc:
  assumes "\<forall>ds. ds \<noteq> [] \<and> list_all ordinary ds \<longrightarrow> l \<noteq> at root ds"
  shows "below (fs @ [(l, x)]) (locate root) = below fs (locate root)"
proof -
  have "\<not> (drop (length (snd (locate root))) (snd l) \<noteq> [] \<and> list_all ordinary (drop (length (snd (locate root))) (snd l)))"
    if "fst l = fst (locate root)" "prefix (snd (locate root)) (snd l)"
  proof -
    from that have "l = at root (drop (length (snd (locate root))) (snd l))" by (cases l) (auto simp: at_def prefix_def)
    then show ?thesis using assms by blast
  qed
  then show ?thesis by (auto simp: below_def)
qed

text \<open>The entries of a finished backup.\<close>

lemma backup_entries_Inr:
  assumes "backup_entries A now F root cfg out s = (Inr es, s')" "root \<noteq> []" "locate cfg \<noteq> locate out"
    and "\<forall>ds. ds \<noteq> [] \<and> list_all ordinary ds \<longrightarrow> locate out \<noteq> at root ds"
  obtains p n where "av_marshal A (new_manifest now) = Inr p" "node_at (fst s) (locate cfg) = Some n" "plain_node n"
    "es = manifest_entry p # node_entry n ''config/regstair.yaml'' # map (tree_entry (fst s) root) (below (fst s) (locate root))"
    "same_but (locate out) (fst s) (fst s')"
    "\<forall>r \<in> set (below (fst s) (locate root)). \<exists>n. map_of (fst s) (at root r) = Some n \<and> plain_node n"
proof -
  from assms(1) obtain p s1 e1 s2 e2 s3 s4 where p: "av_marshal A (new_manifest now) = Inr p"
    and b: "writeTarBytes A F out ''manifest.json'' 384 p [] s = (Inr e1, s1)"
    and c: "writeTarFile A F out cfg ''config/regstair.yaml'' e1 s1 = (Inr e2, s2)"
    and w: "backup_walk A F out root (below (fst s2) (locate root)) e2 s3 = (Inr es, s')" and s3: "fst s3 = fst s2"
    by (auto simp: backup_entries_def andthen_Inr after_check_def ret_def fail_def query_call_Inr split: sum.splits)
  from b obtain sh where h: "WriteHeader A F out (fst (manifest_entry p)) [] s = (Inr (), sh)"
    and wc: "WriteContent A F out (fst (manifest_entry p)) p [] sh = (Inr e1, s1)"
    by (auto simp: writeTarBytes_def Let_def andthen_Inr manifest_entry_def)
  have e1: "e1 = [manifest_entry p]" and s1: "same_but (locate out) (fst s) (fst s1)"
    using WriteContent_Inr [OF wc] same_but_trans [OF WriteHeader_Inr [OF h]] by (auto simp: manifest_entry_def)
  from writeTarFile_Inr [OF c assms(3)] obtain n where n: "node_at (fst s1) (locate cfg) = Some n" "plain_node n"
    "e2 = e1 @ [node_entry n ''config/regstair.yaml'']" and s2: "same_but (locate out) (fst s1) (fst s2)" by auto
  have s02: "same_but (locate out) (fst s) (fst s2)" using s1 s2 by (rule same_but_trans)
  have w1: "keeps (writing (locate out)) (writeTarBytes A F out ''manifest.json'' 384 p [])"
    unfolding writeTarBytes_def Let_def by (intro keeps_intros preorder_writing headers_writing)
  have "map fst (fst s2) = map fst (fst s)"
    using keepsD [OF w1 b] keepsD [OF writeTarFile_writing c] by (simp add: writing_def)
  then have bl: "below (fst s2) (locate root) = below (fst s) (locate root)" by (rule below_keys)
  have at: "map_of (fst s2) (at root r) = map_of (fst s) (at root r)" if "r \<in> set (below (fst s) (locate root))" for r
    using same_butD [OF s02, of "at root r"] that assms(4) by (auto simp: set_below)
  then have "map (tree_entry (fst s3) root) (below (fst s) (locate root)) = map (tree_entry (fst s) root) (below (fst s) (locate root))"
    by (simp add: tree_entry_def s3)
  moreover have "\<forall>r \<in> set (below (fst s2) (locate root)). r \<noteq> [] \<and> list_all ordinary r \<and> at root r \<noteq> locate out"
    using assms(4) by (simp add: set_below) metis
  from backup_walk_Inr [OF w assms(2) this] have
    "es = e2 @ map (tree_entry (fst s3) root) (below (fst s2) (locate root)) \<and> same_but (locate out) (fst s3) (fst s')
    \<and> (\<forall>r \<in> set (below (fst s2) (locate root)). \<exists>n. map_of (fst s3) (at root r) = Some n \<and> plain_node n)" .
  moreover have "node_at (fst s) (locate cfg) = Some n" using n(1) same_but_node [OF s1 assms(3)] by simp
  ultimately show thesis using that [of p n] p n e1 bl s3 at same_but_trans [OF s02] by auto
qed

lemma absent_Inr: "absent F p e s = (Inr u, s') \<Longrightarrow> fst s' = fst s"
  by (auto simp: absent_def Stat_def sql_def split: prod.splits sum.splits option.splits if_splits node.splits)

lemma Stat_Inr: "Stat F p s = (Inr n, s') \<Longrightarrow> fst s' = fst s \<and> node_at (fst s) (locate p) = Some n"
  by (auto simp: Stat_def sql_call_Inr split: option.splits node.splits)


text \<open>A finished backup.\<close>

definition apart :: "string \<Rightarrow> string \<Rightarrow> bool" where
  "apart root p \<longleftrightarrow> \<not> (fst (locate p) = fst (locate root) \<and> prefix (snd (locate root)) (snd (locate p)))"

lemma apart_at: "apart root p \<Longrightarrow> locate p \<noteq> at root ds"
proof
  assume a: "apart root p" and e: "locate p = at root ds"
  have "fst (locate p) = fst (locate root)" "prefix (snd (locate root)) (snd (locate p))" unfolding e by (simp_all add: at_def)
  then show False using a by (simp add: apart_def)
qed

lemma runAdminBackup_Inr:
  assumes "runAdminBackup A now F args s = (Inr u, s')" "string_flags backup_flags args = Inr fl"
    and "root = flag fl ''content-root''" "cfg = flag fl ''config''" "out = flag fl ''output''" "apart root out"
  obtains p c m where "av_marshal A (new_manifest now) = Inr p" "map_of (fst s) (locate cfg) = Some (RegNode c m)"
    "node_at (fst s) (locate out) = None" "same_but (locate out) (fst s) (fst s')"
    "map_of (fst s') (locate out) = Some (RegNode (av_bytes A
       (manifest_entry p # config_entry c m # map (tree_entry (fst s) root) (below (fst s) (locate root)))) 384)"
    "\<forall>r \<in> set (below (fst s) (locate root)). \<exists>n. map_of (fst s) (at root r) = Some n \<and> plain_node n" "root \<noteq> []"
proof -
  have ap: "\<forall>ds. ds \<noteq> [] \<and> list_all ordinary ds \<longrightarrow> locate out \<noteq> at root ds"
    using apart_at [OF assms(6)] by blast
  from assms(1,2) obtain s1 s2 s3 s4 c m where ne: "root \<noteq> []"
    and a: "absent F out (errorf ''backup output must not already exist'') s = (Inr (), s1)"
    and r: "Stat F root s1 = (Inr DirNode, s2)" and c: "Stat F cfg s2 = (Inr (RegNode c m), s3)"
    and cr: "CreateExclusive F out 384 s3 = (Inr (), s4)" and wr: "write_backup A now F root cfg out s4 = (Inr u, s')"
    unfolding runAdminBackup_def
    by (auto simp: Let_def andthen_Inr assms(3-5)[symmetric] otherwise_Inr fail_def split: if_splits node.splits)
  have f: "fst s3 = fst s" and cn: "node_at (fst s) (locate cfg) = Some (RegNode c m)"
    using absent_Inr [OF a] Stat_Inr [OF r] Stat_Inr [OF c] by auto
  from cr have o: "node_at (fst s) (locate out) = None" and s4: "fst s4 = fst s @ [(locate out, RegNode [] 384)]"
    by (auto simp: CreateExclusive_def create_at_def sql_call_Inr f split: if_splits)
  have oc: "locate cfg \<noteq> locate out" using cn o by auto
  have cm: "map_of (fst s) (locate cfg) = Some (RegNode c m)" using cn by (auto simp: node_at_def split: if_splits)
  have on: "map_of (fst s) (locate out) = None" using o by (simp add: node_at_None)
  have sb: "same_but (locate out) (fst s) (fst s4)" unfolding s4 same_but_def by (auto simp: map_add_def split: option.splits)
  from wr obtain es s5 where es: "backup_entries A now F root cfg out s4 = (Inr es, s5)" and cl: "close_archive A F out es s5 = (Inr (), s')"
    by (auto simp: write_backup_def andthen_Inr split: prod.splits sum.splits)
  obtain p n where p: "av_marshal A (new_manifest now) = Inr p" and n: "node_at (fst s4) (locate cfg) = Some n"
    and e: "es = manifest_entry p # node_entry n ''config/regstair.yaml'' # map (tree_entry (fst s4) root) (below (fst s4) (locate root))"
    and s5: "same_but (locate out) (fst s4) (fst s5)"
    and pl: "\<forall>r \<in> set (below (fst s4) (locate root)). \<exists>n. map_of (fst s4) (at root r) = Some n \<and> plain_node n"
    using backup_entries_Inr [OF es ne oc ap] by blast
  have n: "n = RegNode c m" using n same_but_node [OF sb oc] cn by simp
  have bl: "below (fst s4) (locate root) = below (fst s) (locate root)" unfolding s4 by (rule below_snoc [OF ap])
  have m4: "map_of (fst s4) (at root r) = map_of (fst s) (at root r)" if "r \<in> set (below (fst s) (locate root))" for r
  proof -
    from that have "r \<noteq> []" "list_all ordinary r" by (simp_all add: set_below)
    then have "at root r \<noteq> locate out" using ap by metis
    then show ?thesis by (rule same_butD [OF sb])
  qed
  have t: "map (tree_entry (fst s4) root) (below (fst s) (locate root)) = map (tree_entry (fst s) root) (below (fst s) (locate root))"
    using m4 by (simp add: tree_entry_def)
  have "map_of (fst s4) (locate out) = Some (RegNode [] 384)" unfolding s4 using on by (simp add: map_add_def)
  then obtain d where d: "map_of (fst s5) (locate out) = Some (RegNode d 384)"
    using keepsD [OF backup_entries_writing es] by (auto simp: writing_def)
  have s': "fst s' = change_at (locate out) (set_content (av_bytes A es)) (fst s5)"
    using cl by (auto simp: close_archive_def andthen_Inr sql_call_Inr Close_def query_call_Inr fail_def split: if_splits)
  then have "same_but (locate out) (fst s5) (fst s')" by simp
  then have sb': "same_but (locate out) (fst s) (fst s')" using sb s5 same_but_trans by blast
  have o': "map_of (fst s') (locate out) = Some (RegNode (av_bytes A
       (manifest_entry p # config_entry c m # map (tree_entry (fst s) root) (below (fst s) (locate root)))) 384)"
    unfolding s' using d by (simp add: set_content_def e n bl t config_entry_def)
  show thesis using that [OF p cm o sb' o' _ ne] pl m4 unfolding bl by auto
qed

section \<open>Restoring a backup\<close>

definition private_copy :: "node \<Rightarrow> node" where
  "private_copy n = (case n of RegNode c m \<Rightarrow> RegNode c (m AND 448) | _ \<Rightarrow> DirNode)"

definition passable :: "Files \<Rightarrow> loc \<Rightarrow> bool" where
  "passable fs l \<longleftrightarrow> node_at fs l = None \<or> node_at fs l = Some DirNode"

definition with_dirs :: "Files \<Rightarrow> loc list \<Rightarrow> Files \<Rightarrow> bool" where
  "with_dirs fs ls fs' \<longleftrightarrow> (\<forall>l. map_of fs' l = (if l \<in> set ls \<and> node_at fs l = None then Some DirNode else map_of fs l))"

lemma with_dirsD: "with_dirs fs ls fs' \<Longrightarrow> map_of fs' l = (if l \<in> set ls \<and> node_at fs l = None then Some DirNode else map_of fs l)"
  unfolding with_dirs_def by blast

lemma with_dirs_node: "with_dirs fs ls fs' \<Longrightarrow> node_at fs' l = (if l \<in> set ls \<and> node_at fs l = None then Some DirNode else node_at fs l)"
proof -
  assume "with_dirs fs ls fs'"
  then have "map_of fs' l = (if l \<in> set ls \<and> node_at fs l = None then Some DirNode else map_of fs l)" unfolding with_dirs_def by blast
  then show ?thesis by (auto simp: node_at_def)
qed

lemma make_dirs_working:
  "\<forall>l \<in> set ls. passable fs l \<Longrightarrow> \<exists>fs' n'. make_dirs fault_free ls (fs, n) = (Inr (), fs', n') \<and> with_dirs fs ls fs'"
proof (induction ls arbitrary: fs n)
  case Nil
  then show ?case by (simp add: ret_def with_dirs_def)
next
  case (Cons l ls)
  define fs1 where "fs1 = (if node_at fs l = None then fs @ [(l, DirNode)] else fs)"
  have m: "make_dir fault_free l (fs, n) = (Inr (), fs1, Suc n)" using Cons.prems
    by (auto simp: make_dir_def sql_def fault_free_def passable_def fs1_def)
  have w1: "with_dirs fs [l] fs1" unfolding with_dirs_def fs1_def by (auto simp: node_at_None map_add_def split: option.splits)
  then have n1: "node_at fs1 k = (if k = l \<and> node_at fs l = None then Some DirNode else node_at fs k)" for k
    using with_dirs_node [OF w1, of k] by (cases "k = l") simp_all
  then have "\<forall>k \<in> set ls. passable fs1 k" using Cons.prems by (auto simp: passable_def)
  from Cons.IH [OF this, of "Suc n"] obtain fs2 n2 where 2: "make_dirs fault_free ls (fs1, Suc n) = (Inr (), fs2, n2)" "with_dirs fs1 ls fs2"
    by blast
  have "map_of fs2 k = (if k \<in> set (l # ls) \<and> node_at fs k = None then Some DirNode else map_of fs k)" for k
  proof -
    have "map_of fs2 k = (if k \<in> set ls \<and> node_at fs1 k = None then Some DirNode else map_of fs1 k)"
      "map_of fs1 k = (if k \<in> set [l] \<and> node_at fs k = None then Some DirNode else map_of fs k)"
      using 2(2) w1 unfolding with_dirs_def by blast+
    then show ?thesis using n1 [of k] by auto
  qed
  then show ?case using m 2(1) by (auto simp: andthen_def with_dirs_def)
qed

lemma MkdirAll_working:
  "\<forall>l \<in> set (ancestors (locate p)). passable fs l \<Longrightarrow> \<exists>fs' n'. MkdirAll fault_free p (fs, n) = (Inr (), fs', n') \<and> with_dirs fs (ancestors (locate p)) fs'"
  unfolding MkdirAll_def by (rule make_dirs_working)

lemma after_dirs: "with_dirs fs (ancestors l) fs' \<Longrightarrow> \<forall>k \<in> set (ancestors l). passable fs k \<Longrightarrow> node_at fs' l = Some DirNode"
proof (cases "snd l = []")
  case False
  assume w: "with_dirs fs (ancestors l) fs'" and p: "\<forall>k \<in> set (ancestors l). passable fs k"
  have "l \<in> set (ancestors l)" using False by (simp add: ancestors_member)
  then show ?thesis using with_dirs_node [OF w, of l] p by (auto simp: passable_def)
qed (simp add: node_at_def)

text \<open>Restoring one regular file.\<close>

lemma restore_file_working:
  assumes "th_Typeflag h = TypeReg" "th_Size h = int (length c)" "locate (filepath_Dir t) = parent (locate t)" "snd (locate t) \<noteq> []"
    and "\<forall>l \<in> set (ancestors (parent (locate t))). passable fs l" "node_at fs (locate t) = None"
  shows "\<exists>fs' n'. restoreTarFile fault_free h (c, None) t (fs, n) = (Inr (), fs', n')
    \<and> (\<forall>l. map_of fs' l = (if l = locate t then Some (RegNode c (th_Mode h AND 448))
         else if l \<in> set (ancestors (parent (locate t))) \<and> node_at fs l = None then Some DirNode else map_of fs l))"
proof -
  have nt: "locate t \<notin> set (ancestors (parent (locate t)))"
  proof
    assume "locate t \<in> set (ancestors (parent (locate t)))"
    then have "prefix (snd (locate t)) (butlast (snd (locate t)))" by (simp add: ancestors_member parent_def)
    then have "length (snd (locate t)) \<le> length (butlast (snd (locate t)))" by (rule prefix_length_le)
    moreover have "length (butlast (snd (locate t))) < length (snd (locate t))" using assms(4) by simp
    ultimately show False by linarith
  qed
  from MkdirAll_working [of "filepath_Dir t" fs n] assms(3,5) obtain fs1 n1
    where m: "MkdirAll fault_free (filepath_Dir t) (fs, n) = (Inr (), fs1, n1)" and w: "with_dirs fs (ancestors (parent (locate t))) fs1"
    by auto
  have d: "node_at fs1 (parent (locate t)) = Some DirNode" using after_dirs [OF w] assms(5) by blast
  have t1: "node_at fs1 (locate t) = None" using with_dirs_node [OF w, of "locate t"] nt assms(6) by simp
  have mt: "map_of fs1 (locate t) = None" using t1 by (simp add: node_at_None)
  let ?fs2 = "fs1 @ [(locate t, RegNode [] (th_Mode h AND 448))]"
  let ?fs3 = "change_at (locate t) (node_append c) ?fs2"
  have cr: "CreateExclusive fault_free t (th_Mode h AND 448) (fs1, n1) = (Inr (), ?fs2, Suc n1)"
    using t1 d by (simp add: CreateExclusive_def create_at_def sql_def fault_free_def)
  have cp: "copy_entry fault_free h (c, None) t (?fs2, Suc n1) = (Inr (), ?fs3, Suc (Suc (Suc n1)))"
    using assms(2) by (simp add: copy_entry_def Write_def Close_def query_def sql_def fault_free_def)
  have "map_of ?fs3 l = (if l = locate t then Some (RegNode c (th_Mode h AND 448))
      else if l \<in> set (ancestors (parent (locate t))) \<and> node_at fs l = None then Some DirNode else map_of fs l)" for l
  proof -
    have "map_of fs1 l = (if l \<in> set (ancestors (parent (locate t))) \<and> node_at fs l = None then Some DirNode else map_of fs l)"
      using w unfolding with_dirs_def by blast
    then show ?thesis using mt by (auto simp: map_add_def split: option.splits)
  qed
  then show ?thesis using assms(1) m cr cp by (simp add: restoreTarFile_def andthen_def)
qed

text \<open>
  Restoring a part of a tree: what is there below the new root is a copy of the source, files only
  those of the entries got; nothing changes elsewhere.
\<close>

definition closed_tree :: "Files \<Rightarrow> string \<Rightarrow> bool" where
  "closed_tree fs root \<longleftrightarrow> (\<forall>ds e. ds \<noteq> [] \<and> list_all ordinary (ds @ [e]) \<and> map_of fs (at root (ds @ [e])) \<noteq> None
     \<longrightarrow> map_of fs (at root ds) = Some DirNode)"

definition partial_copy :: "Files \<Rightarrow> string \<Rightarrow> string \<Rightarrow> Files \<Rightarrow> string list set \<Rightarrow> Files \<Rightarrow> bool" where
  "partial_copy src root root2 base got fs \<longleftrightarrow>
     (\<forall>ds. ds \<noteq> [] \<and> list_all ordinary ds \<longrightarrow>
        (if ds \<in> got then map_of fs (at root2 ds) = map_option private_copy (map_of src (at root ds))
         else map_of fs (at root2 ds) = None \<or> map_of fs (at root2 ds) = Some DirNode \<and> map_of src (at root ds) = Some DirNode))
     \<and> (\<forall>l. (\<forall>ds. ds \<noteq> [] \<and> list_all ordinary ds \<longrightarrow> l \<noteq> at root2 ds) \<longrightarrow> map_of fs l = map_of base l)
     \<and> (\<forall>k \<in> set (ancestors (locate root2)). node_at fs k = Some DirNode)"

lemma closed_prefix:
  assumes "closed_tree fs root" "list_all ordinary (ds @ es)" "ds \<noteq> []" "map_of fs (at root (ds @ es)) \<noteq> None" "es \<noteq> []"
  shows "map_of fs (at root ds) = Some DirNode"
  using assms(2,4,5)
proof (induction es rule: rev_induct)
  case (snoc e es)
  have "map_of fs (at root (ds @ es)) = Some DirNode"
    using assms(1,3) snoc.prems unfolding closed_tree_def
    by (metis append.assoc append_is_Nil_conv)
  then show ?case using snoc by (cases "es = []") auto
qed simp

lemma ancestors_at:
  assumes "k \<in> set (ancestors (at root2 ds))" "list_all ordinary ds"
  shows "k \<in> set (ancestors (locate root2)) \<or> (\<exists>es. es \<noteq> [] \<and> prefix es ds \<and> k = at root2 es)"
proof -
  from assms(1) have k: "fst k = fst (locate root2)" "snd k \<noteq> []" "prefix (snd k) (snd (locate root2) @ ds)"
    by (auto simp: ancestors_member at_def)
  from k(3) consider "prefix (snd k) (snd (locate root2))" | es where "snd k = snd (locate root2) @ es" "prefix es ds"
    by (auto simp: prefix_append)
  then show ?thesis
  proof cases
    case (2 es)
    then show ?thesis using k by (cases "es = []") (auto simp: ancestors_member at_def prod_eq_iff)
  qed (use k in \<open>auto simp: ancestors_member\<close>)
qed

lemma partial_copy_dirs:
  assumes "partial_copy src root root2 base got fs" "closed_tree src root" "list_all ordinary ds"
    and "ds = [] \<or> map_of src (at root ds) = Some DirNode" "k \<in> set (ancestors (at root2 ds))"
  shows "node_at fs k = Some DirNode
    \<or> node_at fs k = None \<and> (\<exists>qs. qs \<noteq> [] \<and> list_all ordinary qs \<and> k = at root2 qs \<and> map_of src (at root qs) = Some DirNode)"
proof -
  from ancestors_at [OF assms(5,3)] show ?thesis
  proof
    assume "k \<in> set (ancestors (locate root2))"
    then show ?thesis using assms(1) unfolding partial_copy_def by blast
  next
    assume "\<exists>qs. qs \<noteq> [] \<and> prefix qs ds \<and> k = at root2 qs"
    then obtain qs rs where q: "qs \<noteq> []" "ds = qs @ rs" "k = at root2 qs" by (auto simp: prefix_def)
    have oq: "list_all ordinary qs" using assms(3) q by simp
    have d: "map_of src (at root qs) = Some DirNode"
      using closed_prefix [OF assms(2), of qs rs] q assms(3,4) by (cases "rs = []") auto
    have "map_of fs (at root2 qs) = None \<or> map_of fs (at root2 qs) = Some DirNode"
      using assms(1) q(1) oq d unfolding partial_copy_def by (cases "qs \<in> got") (auto simp: private_copy_def)
    then show ?thesis using q d oq at_node [OF q(1) oq, of fs root2] by auto
  qed
qed

lemma at_inj: "at r a = at r b \<longleftrightarrow> a = b"
  by (simp add: at_def)

text \<open>One more entry restored.\<close>

lemma partial_copy_step:
  assumes p: "partial_copy src root root2 base got fs" and r: "r \<noteq> []" "list_all ordinary r"
    and n: "map_of src (at root r) = Some n" "map_of fs' (at root2 r) = Some (private_copy n)"
    and m: "\<And>l. l \<noteq> at root2 r \<Longrightarrow> map_of fs' l = map_of fs l \<or> map_of fs' l = Some DirNode \<and> node_at fs l = None
        \<and> (\<exists>qs. qs \<noteq> [] \<and> list_all ordinary qs \<and> l = at root2 qs \<and> map_of src (at root qs) = Some DirNode)"
    and d: "at root2 r \<in> set (ancestors (locate root2)) \<Longrightarrow> False"
  shows "partial_copy src root root2 base (insert r got) fs'"
  unfolding partial_copy_def
proof (intro conjI allI impI ballI)
  fix ds assume ds: "ds \<noteq> [] \<and> list_all ordinary ds"
  have p1: "if ds \<in> got then map_of fs (at root2 ds) = map_option private_copy (map_of src (at root ds))
     else map_of fs (at root2 ds) = None \<or> map_of fs (at root2 ds) = Some DirNode \<and> map_of src (at root ds) = Some DirNode"
    using p ds unfolding partial_copy_def by blast
  show "if ds \<in> insert r got then map_of fs' (at root2 ds) = map_option private_copy (map_of src (at root ds))
     else map_of fs' (at root2 ds) = None \<or> map_of fs' (at root2 ds) = Some DirNode \<and> map_of src (at root ds) = Some DirNode"
  proof (cases "ds = r")
    case True
    then show ?thesis using n by simp
  next
    case False
    then have "map_of fs' (at root2 ds) = map_of fs (at root2 ds) \<or> map_of fs' (at root2 ds) = Some DirNode \<and> map_of fs (at root2 ds) = None
        \<and> map_of src (at root ds) = Some DirNode"
      using m [of "at root2 ds"] by (auto simp: at_inj node_at_None)
    then show ?thesis using p1 False by (auto simp: private_copy_def split: if_splits)
  qed
next
  fix l assume l: "\<forall>ds. ds \<noteq> [] \<and> list_all ordinary ds \<longrightarrow> l \<noteq> at root2 ds"
  then have "map_of fs' l = map_of fs l" using m [of l] r by blast
  then show "map_of fs' l = map_of base l" using p l unfolding partial_copy_def by metis
next
  fix k assume k: "k \<in> set (ancestors (locate root2))"
  then have "node_at fs k = Some DirNode" using p unfolding partial_copy_def by blast
  moreover have "k \<noteq> at root2 r" using k d by blast
  ultimately show "node_at fs' k = Some DirNode" using m [of k] by (auto simp: node_at_def split: if_splits)
qed

lemma restore_entry_copies:
  assumes p: "partial_copy src root root2 base got fs" and c: "closed_tree src root" and r: "r \<noteq> []" "list_all ordinary r" "r \<notin> got"
    and n: "map_of src (at root r) = Some n" "plain_node n" and ne: "root2 \<noteq> []" and e: "node_entry n name = (h, cs)"
  shows "\<exists>fs' k'. restoreTarFile fault_free h (cs, None) (filepath_Join root2 (Join ''/'' r)) (fs, k) = (Inr (), fs', k')
    \<and> partial_copy src root root2 base (insert r got) fs'"
proof -
  let ?t = "filepath_Join root2 (Join ''/'' r)"
  have t: "locate ?t = at root2 r" using locate_below [OF r(1,2)] by (simp add: at_def)
  have na: "at root2 r \<notin> set (ancestors (locate root2))"
    using r(1) by (auto simp: ancestors_member at_def dest: prefix_length_le)
  have free: "map_of fs (at root2 r) = None \<or> map_of fs (at root2 r) = Some DirNode \<and> n = DirNode"
    using p r n(1) unfolding partial_copy_def by force
  show ?thesis
  proof (cases "n = DirNode")
    case True
    have a: "node_at fs k = Some DirNode \<or> node_at fs k = None \<and> (\<exists>qs. qs \<noteq> [] \<and> list_all ordinary qs \<and> k = at root2 qs \<and> map_of src (at root qs) = Some DirNode)"
      if "k \<in> set (ancestors (at root2 r))" for k
      using partial_copy_dirs [OF p c r(2) _ that] n(1) True by simp
    then have "\<forall>k \<in> set (ancestors (locate ?t)). passable fs k" unfolding t passable_def by blast
    from MkdirAll_working [OF this] obtain fs' k' where m: "MkdirAll fault_free ?t (fs, k) = (Inr (), fs', k')"
      and w: "with_dirs fs (ancestors (at root2 r)) fs'" unfolding t by blast
    have "at root2 r \<in> set (ancestors (at root2 r))" using r(1) by (simp add: ancestors_member at_def)
    then have "map_of fs' (at root2 r) = Some DirNode"
      using with_dirsD [OF w, of "at root2 r"] free at_node [OF r(1,2), of fs root2] True by auto
    moreover have "map_of fs' l = map_of fs l \<or> map_of fs' l = Some DirNode \<and> node_at fs l = None
        \<and> (\<exists>qs. qs \<noteq> [] \<and> list_all ordinary qs \<and> l = at root2 qs \<and> map_of src (at root qs) = Some DirNode)" for l
      using w a [of l] unfolding with_dirs_def by (metis option.distinct(1))
    ultimately have "partial_copy src root root2 base (insert r got) fs'"
      using partial_copy_step [OF p r(1,2) n(1), of fs'] True na by (simp add: private_copy_def)
    moreover have "restoreTarFile fault_free h (cs, None) ?t = MkdirAll fault_free ?t" using e True by (auto simp: restoreTarFile_def)
    ultimately show ?thesis using m by simp
  next
    case False
    then obtain c0 m0 where nn: "n = RegNode c0 m0" using n(2) by (auto simp: plain_node_def)
    obtain ds d where ds: "r = ds @ [d]" using r(1) by (metis rev_exhaust)
    have o: "list_all ordinary ds" using r(2) ds by simp
    have par: "parent (locate ?t) = at root2 ds" using t unfolding ds by (simp add: parent_def at_def butlast_append)
    have dir: "locate (filepath_Dir ?t) = parent (locate ?t)" unfolding par using Dir_below [of ds d] r(2) ds by (simp add: at_def)
    have src: "ds = [] \<or> map_of src (at root ds) = Some DirNode"
      using c r(2) n(1) ds unfolding closed_tree_def by (metis option.distinct(1))
    have a: "node_at fs k = Some DirNode \<or> node_at fs k = None \<and> (\<exists>qs. qs \<noteq> [] \<and> list_all ordinary qs \<and> k = at root2 qs \<and> map_of src (at root qs) = Some DirNode)"
      if "k \<in> set (ancestors (at root2 ds))" for k
      using partial_copy_dirs [OF p c o src that] .
    have h: "th_Typeflag h = TypeReg" "th_Size h = int (length cs)" "cs = c0" "th_Mode h = m0" using e nn by auto
    have "\<forall>k \<in> set (ancestors (parent (locate ?t))). passable fs k" unfolding par passable_def using a by blast
    moreover have "node_at fs (locate ?t) = None" unfolding t using free False at_node [OF r(1,2)] by simp
    moreover have "snd (locate ?t) \<noteq> []" unfolding t using r(1) by (simp add: at_def)
    ultimately obtain fs' k' where f: "restoreTarFile fault_free h (cs, None) ?t (fs, k) = (Inr (), fs', k')"
      and m: "\<And>l. map_of fs' l = (if l = at root2 r then Some (RegNode cs (th_Mode h AND 448))
         else if l \<in> set (ancestors (at root2 ds)) \<and> node_at fs l = None then Some DirNode else map_of fs l)"
      using restore_file_working [OF h(1,2) dir, of fs k] unfolding par unfolding t by blast
    have "map_of fs' l = map_of fs l \<or> map_of fs' l = Some DirNode \<and> node_at fs l = None
        \<and> (\<exists>qs. qs \<noteq> [] \<and> list_all ordinary qs \<and> l = at root2 qs \<and> map_of src (at root qs) = Some DirNode)" if "l \<noteq> at root2 r" for l
      using m [of l] a [of l] that by auto
    then have "partial_copy src root root2 base (insert r got) fs'"
      using partial_copy_step [OF p r(1,2) n(1), of fs'] na m [of "at root2 r"] nn h by (simp add: private_copy_def)
    with f show ?thesis by blast
  qed
qed

lemma restore_entries_content:
  assumes "Clean (th_Name h) = ''content/'' @ J" "\<not> IsAbs (th_Name h)" "J \<noteq> []"
  shows "restore_entries A F root2 cfg seen ((h, content) # es) final =
    andthen (wrapping ''read backup: %w'' (query (os_err F) (\<lambda>_. ()))) (\<lambda>_.
    andthen (restoreTarFile F h content (filepath_Join root2 J)) (\<lambda>_. restore_entries A F root2 cfg seen es final))"
proof -
  have "TrimPrefix (''content/'' @ J) ''content/'' = J" by (rule TrimPrefix_append)
  moreover obtain x where x: "x = ''content/'' @ J" by blast
  moreover have "x \<noteq> ''.''" "\<not> HasPrefix x ''../''" "x \<noteq> ''manifest.json''" "x \<noteq> ''config/regstair.yaml''" "HasPrefix x ''content/''"
    unfolding x by auto
  ultimately show ?thesis using assms unfolding restore_entries.simps Let_def assms(1) x [symmetric] by simp
qed

lemma restore_tree_copies:
  assumes "closed_tree src root" "root2 \<noteq> []"
    and "\<forall>r \<in> set rs. r \<noteq> [] \<and> list_all ordinary r \<and> (\<exists>n. map_of src (at root r) = Some n \<and> plain_node n)" "distinct rs"
    and "partial_copy src root root2 base got fs" "got \<inter> set rs = {}"
  shows "\<exists>fs' k'. restore_entries A fault_free root2 cfg seen (map (\<lambda>r. case tree_entry src root r of (h, c) \<Rightarrow> (h, c, None)) rs) None (fs, k)
      = (Inr seen, fs', k') \<and> partial_copy src root root2 base (got \<union> set rs) fs'"
  using assms(3-6)
proof (induction rs arbitrary: got fs k)
  case Nil
  then show ?case by (auto simp: andthen_def query_def sql_def fault_free_def wrapping_def ret_def)
next
  case (Cons r rs)
  obtain n where r: "r \<noteq> []" "list_all ordinary r" and n: "map_of src (at root r) = Some n" "plain_node n" using Cons.prems(1) by auto
  obtain h c where e: "node_entry n (''content/'' @ Join ''/'' r) = (h, c)" by fastforce
  have t: "tree_entry src root r = (h, c)" using tree_entry_node [OF n] e by simp
  have nm: "th_Name h = ''content/'' @ Join ''/'' r" using e n(2) by (auto simp: plain_node_def)
  have cl: "Clean (th_Name h) = ''content/'' @ Join ''/'' r"
    using content_name [OF r] unfolding nm by (simp add: filepath_Join_def)
  have ab: "\<not> IsAbs (th_Name h)" unfolding nm by (simp add: IsAbs_def)
  have jr: "Join ''/'' r \<noteq> []" using Join_slash_ne [OF r(1)] r by (cases r) (auto simp: ordinary_def)
  have nd: "r \<notin> got" using Cons.prems(4) by auto
  obtain fs1 k1 where f: "restoreTarFile fault_free h (c, None) (filepath_Join root2 (Join ''/'' r)) (fs, Suc k) = (Inr (), fs1, k1)"
    and p1: "partial_copy src root root2 base (insert r got) fs1"
    using restore_entry_copies [OF Cons.prems(3) assms(1) r nd n assms(2) e, of "Suc k"] by blast
  have "insert r got \<inter> set rs = {}" using Cons.prems(2,4) by auto
  then obtain fs2 k2 where g: "restore_entries A fault_free root2 cfg seen (map (\<lambda>r. case tree_entry src root r of (h, c) \<Rightarrow> (h, c, None)) rs) None (fs1, k1)
      = (Inr seen, fs2, k2)" and p2: "partial_copy src root root2 base (insert r got \<union> set rs) fs2"
    using Cons.IH [of "insert r got" fs1 k1] Cons.prems(1,2) p1 by auto
  have "restore_entries A fault_free root2 cfg seen (map (\<lambda>r. case tree_entry src root r of (h, c) \<Rightarrow> (h, c, None)) (r # rs)) None (fs, k)
      = (Inr seen, fs2, k2)"
    unfolding list.map t prod.case restore_entries_content [OF cl ab jr]
    using f g by (simp add: andthen_def query_def sql_def wrapping_def)
  then show ?case using p2 by auto
qed

text \<open>What is documented of the formats: finished archives and manifests are read back.\<close>

definition archive_ok :: "Archive \<Rightarrow> time \<Rightarrow> bool" where
  "archive_ok A now \<longleftrightarrow>
     (\<forall>es. (\<forall>(h, c) \<in> set es. th_Typeflag h \<in> {TypeReg, TypeDir} \<and> th_Size h = int (length c))
        \<longrightarrow> av_open A (av_bytes A es) = Inr (map (\<lambda>(h, c). (h, c, None)) es, None))
     \<and> (\<forall>p. av_marshal A (new_manifest now) = Inr p \<longrightarrow> length p \<le> 65536 \<and> av_decode A (p, None) = Inr (new_manifest now))"

text \<open>A place for a restored tree and configuration: nothing is there, and directories can be made on the way.\<close>

definition fresh_target :: "Files \<Rightarrow> string \<Rightarrow> string \<Rightarrow> bool" where
  "fresh_target fs root cfg \<longleftrightarrow>
     root \<noteq> [] \<and> cfg \<noteq> [] \<and> snd (locate cfg) \<noteq> [] \<and> locate (filepath_Dir cfg) = parent (locate cfg)
     \<and> \<not> list_all (\<lambda>c. c = ''..'') (snd (locate root)) \<and> \<not> list_all (\<lambda>c. c = ''..'') (snd (locate cfg))
     \<and> apart root cfg \<and> apart cfg root
     \<and> (\<forall>l \<in> fst ` set fs. fst l = fst (locate root) \<longrightarrow> \<not> prefix (snd (locate root)) (snd l)) \<and> locate cfg \<notin> fst ` set fs
     \<and> (\<forall>k \<in> set (ancestors (parent (locate root))) \<union> set (ancestors (parent (locate cfg))). passable fs k)"

lemma backup_types:
  "\<forall>(h, c) \<in> set (manifest_entry p # config_entry c0 m # map (tree_entry fs root) rs). th_Typeflag h \<in> {TypeReg, TypeDir} \<and> th_Size h = int (length c)"
  by (auto simp: manifest_entry_def config_entry_def tree_entry_def split: option.splits node.splits)

lemma absent_working: "node_at fs (locate p) = None \<Longrightarrow> absent fault_free p e (fs, n) = (Inr (), fs, Suc n)"
  by (simp add: absent_def Stat_def sql_def fault_free_def not_exist_def)

lemma free_working: "node_at fs (locate p) = None \<Longrightarrow> pathAbsentOrEmptyDir fault_free p (fs, n) = (Inr True, fs, Suc n)"
  by (simp add: pathAbsentOrEmptyDir_def ReadDir_def sql_def fault_free_def not_exist_def)

lemma fresh_none: "fresh_target fs root cfg \<Longrightarrow> map_of fs (fst (locate root), snd (locate root) @ ds) = None"
  unfolding fresh_target_def map_of_eq_None_iff by fastforce

lemma ancestors_self: "k \<in> set (ancestors l) \<longleftrightarrow> k \<in> set (ancestors (parent l)) \<or> k = l \<and> snd l \<noteq> []"
proof -
  obtain r cs where l: "l = (r, cs)" by (cases l)
  show ?thesis
  proof (cases cs rule: rev_cases)
    case Nil
    then show ?thesis using l by (auto simp: ancestors_member parent_def)
  next
    case (snoc ys y)
    then show ?thesis using l by (cases k) (auto simp: ancestors_member parent_def)
  qed
qed

lemma distinct_below: "distinct (map fst fs) \<Longrightarrow> distinct (below fs l)"
proof -
  assume d: "distinct (map fst fs)"
  obtain ks where ks: "ks = map fst fs" by blast
  have "inj_on (\<lambda>k. drop (length (snd l)) (snd k)) (set (filter (\<lambda>k. fst k = fst l \<and> prefix (snd l) (snd k)) ks))"
    by (auto simp: inj_on_def prefix_def)
  then have "distinct (map (\<lambda>k. drop (length (snd l)) (snd k)) (filter (\<lambda>k. fst k = fst l \<and> prefix (snd l) (snd k)) ks))"
    using d unfolding distinct_map ks [symmetric] by simp
  then show ?thesis unfolding below_def ks [symmetric] distinct_sort by (rule distinct_filter)
qed

text \<open>What a restore does before the tree: the root, the directory of the configuration, and the configuration.\<close>

lemma restore_start:
  assumes f: "fresh_target fs root2 cfg2"
  obtains fs2 fs3 fs4 n2 n3 n4 where "MkdirAll fault_free root2 (fs, n) = (Inr (), fs2, n2)"
    "MkdirAll fault_free (filepath_Dir cfg2) (fs2, n2) = (Inr (), fs3, n3)"
    "restoreTarFile fault_free (fst (config_entry c m)) (c, None) cfg2 (fs3, Suc (Suc n3)) = (Inr (), fs4, n4)"
    "partial_copy src root root2 fs4 {} fs4" "map_of fs4 (locate cfg2) = Some (RegNode c (m AND 448))"
proof -
  note F = f[unfolded fresh_target_def]
  have R: "node_at fs (locate root2) = None" using fresh_none [OF f, of "[]"] F by (simp add: node_at_def)
  have C: "node_at fs (locate cfg2) = None" using F by (auto simp: node_at_def map_of_eq_None_iff)
  have pR: "\<forall>k \<in> set (ancestors (locate root2)). passable fs k" using F R ancestors_self [of _ "locate root2"] by (auto simp: passable_def)
  from MkdirAll_working [OF pR, of n] obtain fs2 n2 where m2: "MkdirAll fault_free root2 (fs, n) = (Inr (), fs2, n2)"
    and w2: "with_dirs fs (ancestors (locate root2)) fs2" by blast
  have pC: "\<forall>k \<in> set (ancestors (locate (filepath_Dir cfg2))). passable fs2 k"
    using F with_dirs_node [OF w2] by (auto simp: passable_def)
  from MkdirAll_working [OF pC, of n2] obtain fs3 n3 where m3: "MkdirAll fault_free (filepath_Dir cfg2) (fs2, n2) = (Inr (), fs3, n3)"
    and w3: "with_dirs fs2 (ancestors (parent (locate cfg2))) fs3" using F by auto
  have long: "k \<in> set (ancestors (parent l)) \<Longrightarrow> snd l \<noteq> [] \<Longrightarrow> length (snd k) < length (snd l)" for k l
  proof -
    assume "k \<in> set (ancestors (parent l))" "snd l \<noteq> []"
    then have "length (snd k) \<le> length (butlast (snd l))" "length (butlast (snd l)) < length (snd l)"
      by (auto simp: ancestors_member parent_def dest: prefix_length_le)
    then show ?thesis by linarith
  qed
  have nC: "locate cfg2 \<notin> set (ancestors (locate root2))" "locate cfg2 \<notin> set (ancestors (parent (locate cfg2)))"
    using F long [of "locate cfg2" "locate cfg2"] by (auto simp: ancestors_member apart_def)
  have C3: "node_at fs3 (locate cfg2) = None" using with_dirs_node [OF w3] with_dirs_node [OF w2] nC C by simp
  have p3: "\<forall>k \<in> set (ancestors (parent (locate cfg2))). passable fs3 k"
    using with_dirs_node [OF w3] pC F by (auto simp: passable_def)
  have d3: "node_at fs3 k = Some DirNode" if "k \<in> set (ancestors (parent (locate cfg2)))" for k
    using with_dirs_node [OF w3, of k] that pC F by (auto simp: passable_def)
  obtain fs4 n4 where m4: "restoreTarFile fault_free (fst (config_entry c m)) (c, None) cfg2 (fs3, Suc (Suc n3)) = (Inr (), fs4, n4)"
    and w4: "\<And>l. map_of fs4 l = (if l = locate cfg2 then Some (RegNode c (m AND 448))
         else if l \<in> set (ancestors (parent (locate cfg2))) \<and> node_at fs3 l = None then Some DirNode else map_of fs3 l)"
    using restore_file_working [of "fst (config_entry c m)" c cfg2 fs3 "Suc (Suc n3)"] F p3 C3 by (auto simp: config_entry_def)
  have w4: "map_of fs4 l = (if l = locate cfg2 then Some (RegNode c (m AND 448)) else map_of fs3 l)" for l
    using w4 [of l] d3 [of l] by (cases "l \<in> set (ancestors (parent (locate cfg2)))") simp_all
  have none: "map_of fs4 (at root2 ds) = None" if ds: "ds \<noteq> []" "list_all ordinary ds" for ds
  proof -
    have "at root2 ds \<noteq> locate cfg2" using F apart_at [of root2 cfg2 ds] by metis
    moreover have "at root2 ds \<notin> set (ancestors (parent (locate cfg2)))"
    proof
      assume "at root2 ds \<in> set (ancestors (parent (locate cfg2)))"
      then have "fst (locate cfg2) = fst (locate root2)" "prefix (snd (locate root2) @ ds) (butlast (snd (locate cfg2)))"
        by (auto simp: ancestors_member at_def parent_def)
      then have "prefix (snd (locate root2)) (snd (locate cfg2))"
        by (meson append_prefixD prefix_order.trans prefixeq_butlast)
      then show False using F \<open>fst (locate cfg2) = fst (locate root2)\<close> by (simp add: apart_def)
    qed
    moreover have "at root2 ds \<notin> set (ancestors (locate root2))" using ds(1) by (auto simp: ancestors_member at_def dest: prefix_length_le)
    ultimately show ?thesis using with_dirsD [OF w3, of "at root2 ds"] with_dirsD [OF w2, of "at root2 ds"] fresh_none [OF f, of ds]
      by (simp add: w4 at_def)
  qed
  have dR: "node_at fs4 k = Some DirNode" if k: "k \<in> set (ancestors (locate root2))" for k
  proof -
    have "node_at fs2 k = Some DirNode" using with_dirs_node [OF w2, of k] pR k by (auto simp: passable_def)
    then have "node_at fs3 k = Some DirNode" using with_dirs_node [OF w3, of k] by simp
    moreover have "k \<noteq> locate cfg2" using k nC(1) by metis
    then have "map_of fs4 k = map_of fs3 k" using w4 [of k] by simp
    ultimately show ?thesis using node_at_cong [of fs4 k fs3] by simp
  qed
  have "partial_copy src root root2 fs4 {} fs4" using none dR by (simp add: partial_copy_def)
  then show thesis using that [OF m2 m3 m4] w4 by simp
qed


text \<open>
  C31: a backup that succeeds, restored to a place where nothing is, brings back the
  configuration and, under the new content root, exactly the files and directories of the old one with their
  contents and the owner's part of their modes.\<close>

theorem backup_restore_round_trip:
  assumes "string_flags backup_flags args = Inr fl" "runAdminBackup A now F args (fs, n) = (Inr (), fs1, n1)" "archive_ok A now"
    and "distinct (map fst fs)" "closed_tree fs (flag fl ''content-root'')" "apart (flag fl ''content-root'') (flag fl ''output'')"
    and "string_flags restore_flags args2 = Inr fl2" "flag fl2 ''archive'' = flag fl ''output''"
    and "fresh_target fs1 (flag fl2 ''content-root'') (flag fl2 ''config-output'')"
  shows "\<exists>fs2 n2 c m. runAdminRestore A fault_free args2 (fs1, k) = (Inr (), fs2, n2)
    \<and> map_of fs (locate (flag fl ''config'')) = Some (RegNode c m)
    \<and> map_of fs2 (locate (flag fl2 ''config-output'')) = Some (RegNode c (m AND 448))
    \<and> (\<forall>ds \<in> {ds. ds \<noteq> [] \<and> list_all ordinary ds}.
         map_of fs2 (at (flag fl2 ''content-root'') ds) = map_option private_copy (map_of fs (at (flag fl ''content-root'') ds)))"
proof -
  let ?root = "flag fl ''content-root''" and ?cfg = "flag fl ''config''" and ?out = "flag fl ''output''"
  let ?root2 = "flag fl2 ''content-root''" and ?cfg2 = "flag fl2 ''config-output''"
  let ?rs = "below fs (locate ?root)"
  obtain p c m where p: "av_marshal A (new_manifest now) = Inr p" and c: "map_of fs (locate ?cfg) = Some (RegNode c m)"
    and o: "node_at fs (locate ?out) = None"
    and b: "map_of fs1 (locate ?out) = Some (RegNode (av_bytes A (manifest_entry p # config_entry c m # map (tree_entry fs ?root) ?rs)) 384)"
    and pl: "\<forall>r \<in> set ?rs. \<exists>n. map_of fs (at ?root r) = Some n \<and> plain_node n"
    by (rule runAdminBackup_Inr [OF assms(2,1) refl refl refl assms(6)]) simp
  have op: "av_open A (av_bytes A (manifest_entry p # config_entry c m # map (tree_entry fs ?root) ?rs))
      = Inr (map (\<lambda>(h, c). (h, c, None)) (manifest_entry p # config_entry c m # map (tree_entry fs ?root) ?rs), None)"
    using assms(3) backup_types unfolding archive_ok_def by blast
  have "length p \<le> 65536" "av_decode A (p, None) = Inr (new_manifest now)" using assms(3) p unfolding archive_ok_def by blast+
  then have dec: "av_decode A (limited 65536 (p, None)) = Inr (new_manifest now)" by (simp add: limited_def)
  note F = assms(9)[unfolded fresh_target_def]
  obtain fs2 fs3 fs4 n2 n3 n4 where m2: "MkdirAll fault_free ?root2 (fs1, Suc (Suc (Suc k))) = (Inr (), fs2, n2)"
    and m3: "MkdirAll fault_free (filepath_Dir ?cfg2) (fs2, n2) = (Inr (), fs3, n3)"
    and m4: "restoreTarFile fault_free (fst (config_entry c m)) (c, None) ?cfg2 (fs3, Suc (Suc n3)) = (Inr (), fs4, n4)"
    and pc: "partial_copy fs ?root ?root2 fs4 {} fs4" and c4: "map_of fs4 (locate ?cfg2) = Some (RegNode c (m AND 448))"
    by (rule restore_start [OF assms(9)])
  have rs: "\<forall>r \<in> set ?rs. r \<noteq> [] \<and> list_all ordinary r \<and> (\<exists>n. map_of fs (at ?root r) = Some n \<and> plain_node n)"
    using pl by (simp add: set_below)
  have ne: "?root2 \<noteq> []" using F by simp
  obtain fs5 n5 where r5: "restore_entries A fault_free ?root2 ?cfg2 (True, True) (map (\<lambda>r. case tree_entry fs ?root r of (h, c) \<Rightarrow> (h, c, None)) ?rs) None (fs4, n4)
      = (Inr (True, True), fs5, n5)" and p5: "partial_copy fs ?root ?root2 fs4 ({} \<union> set ?rs) fs5"
    using restore_tree_copies [OF assms(5) ne rs distinct_below [OF assms(4)] pc] by fastforce
  have nm: "Clean ''manifest.json'' = ''manifest.json''" "Clean ''config/regstair.yaml'' = ''config/regstair.yaml''"
    "\<not> IsAbs ''manifest.json''" "\<not> IsAbs ''config/regstair.yaml''" by code_simp+
  have re: "restore_entries A fault_free ?root2 ?cfg2 (False, False)
      (map (\<lambda>(h, c). (h, c, None)) (manifest_entry p # config_entry c m # map (tree_entry fs ?root) ?rs)) None (fs3, n3) = (Inr (True, True), fs5, n5)"
    using dec m4 r5 by (simp add: manifest_entry_def config_entry_def nm andthen_def wrapping_def query_def sql_def Let_def new_manifest_def comp_def)
  have arch: "restore_archive A fault_free ?out ?root2 ?cfg2 (fs1, Suc (Suc k)) = (Inr (), fs5, n5)"
  proof -
    have "node_at fs1 (locate ?out) = Some (RegNode (av_bytes A (manifest_entry p # config_entry c m # map (tree_entry fs ?root) ?rs)) 384)"
      using b o by (simp add: node_at_def split: if_splits)
    then show ?thesis using m2 m3 re op
      by (simp add: restore_archive_def andthen_def wrapping_def ReadFile_def sql_def ret_def)
  qed
  have R: "node_at fs1 (locate ?root2) = None" using fresh_none [OF assms(9), of "[]"] F by (simp add: node_at_def)
  have C: "node_at fs1 (locate ?cfg2) = None" using F by (auto simp: node_at_def map_of_eq_None_iff)
  have "?out \<noteq> []" using o by (auto simp: node_at_def locate_def)
  then have "runAdminRestore A fault_free args2 (fs1, k) = (Inr (), fs5, n5)"
    using assms(7,8) F arch free_working [OF R] absent_working [OF C] by (simp add: runAdminRestore_def Let_def andthen_def)
  moreover have "map_of fs5 (at ?root2 ds) = map_option private_copy (map_of fs (at ?root ds))" if ds: "ds \<in> {ds. ds \<noteq> [] \<and> list_all ordinary ds}" for ds
  proof -
    have "if ds \<in> set ?rs then map_of fs5 (at ?root2 ds) = map_option private_copy (map_of fs (at ?root ds))
         else map_of fs5 (at ?root2 ds) = None \<or> map_of fs5 (at ?root2 ds) = Some DirNode \<and> map_of fs (at ?root ds) = Some DirNode"
      using p5 ds unfolding partial_copy_def by auto
    moreover have "map_of fs (at ?root ds) = None" if "ds \<notin> set ?rs" using that ds by (simp add: set_below map_of_eq_None_iff)
    ultimately show ?thesis by (auto split: if_splits)
  qed
  moreover have "map_of fs5 (locate ?cfg2) = map_of fs4 (locate ?cfg2)"
  proof -
    have "\<forall>ds. ds \<noteq> [] \<and> list_all ordinary ds \<longrightarrow> locate ?cfg2 \<noteq> at ?root2 ds" using F apart_at [of ?root2 ?cfg2] by blast
    then show ?thesis using p5 unfolding partial_copy_def by blast
  qed
  ultimately show ?thesis using c c4 by auto
qed

section \<open>An instance\<close>

text \<open>A small store with its configuration, and a format whose archives are framed texts.\<close>

definition bx_files :: Files where
  "bx_files = [((True, [''c'']), DirNode), ((True, [''c'', ''db'']), RegNode ''rows'' 420), ((True, [''c'', ''b'']), DirNode),
     ((True, [''c'', ''b'', ''x'']), RegNode ''blob'' 384), ((True, [''r.yaml'']), RegNode ''version: 1'' 420)]"

definition bx_args :: "string list" where
  "bx_args = [''-content-root'', ''/c'', ''--config=/r.yaml'', ''-output'', ''/o.tgz'']"

definition bx_args2 :: "string list" where
  "bx_args2 = [''-archive'', ''/o.tgz'', ''-content-root'', ''/n/c'', ''-config-output'', ''/n/r.yaml'']"

fun bx_bits :: "nat \<Rightarrow> string" where
  "bx_bits n = (if n = 0 then [] else (if n mod 2 = 0 then CHR ''0'' else CHR ''1'') # bx_bits (n div 2))"

fun bx_unbits :: "string \<Rightarrow> nat" where
  "bx_unbits [] = 0" | "bx_unbits (c # cs) = (if c = CHR ''0'' then 0 else 1) + 2 * bx_unbits cs"

lemma bx_bits: "bx_unbits (bx_bits n) = n"
proof (induction n rule: bx_bits.induct)
  case (1 n)
  then have "n \<noteq> 0 \<Longrightarrow> bx_unbits (bx_bits (n div 2)) = n div 2" by simp
  then have "bx_unbits (bx_bits n) = (if n mod 2 = 0 then 0 else 1) + 2 * (n div 2)"
    by (subst bx_bits.simps) (auto simp del: bx_bits.simps)
  also have "\<dots> = n" by presburger
  finally show ?case .
qed

definition bx_entry :: "TarHeader \<times> string \<Rightarrow> string" where
  "bx_entry e = frames [th_Name (fst e), if th_Typeflag (fst e) = TypeDir then ''d'' else ''f'',
     if th_Mode (fst e) < 0 then ''-'' else [], bx_bits (nat \<bar>th_Mode (fst e)\<bar>), snd e]"

definition bx_unentry :: "string \<Rightarrow> TarHeader \<times> string \<times> goerr option" where
  "bx_unentry s = (case unframe s of
       [name, t, sign, bits, c] \<Rightarrow> (\<lparr>th_Name = name, th_Typeflag = (if t = ''d'' then TypeDir else TypeReg),
          th_Mode = (if sign = [] then int (bx_unbits bits) else - int (bx_unbits bits)), th_Size = int (length c)\<rparr>, c, None)
     | _ \<Rightarrow> (\<lparr>th_Name = [], th_Typeflag = TypeOther, th_Mode = 0, th_Size = 0\<rparr>, [], None))"

definition bx_archive :: Archive where
  "bx_archive = \<lparr>av_flushed = (\<lambda>_. []), av_bytes = (\<lambda>es. frames (map bx_entry es)),
     av_open = (\<lambda>b. Inr (map bx_unentry (unframe b), None)),
     av_marshal = (\<lambda>_. Inr ''{}''), av_decode = (\<lambda>_. Inr (new_manifest 0))\<rparr>"

lemma bx_unentry: "th_Typeflag h \<in> {TypeReg, TypeDir} \<Longrightarrow> th_Size h = int (length c) \<Longrightarrow> bx_unentry (bx_entry (h, c)) = (h, c, None)"
  by (cases h) (auto simp: bx_unentry_def bx_entry_def unframe_frames bx_bits simp del: bx_bits.simps)

lemma bx_codec: "archive_ok bx_archive 0"
proof -
  have "map bx_unentry (map bx_entry es) = map (\<lambda>(h, c). (h, c, None)) es"
    if "\<forall>(h, c) \<in> set es. th_Typeflag h \<in> {TypeReg, TypeDir} \<and> th_Size h = int (length c)" for es
    using that by (auto simp: bx_unentry)
  then show ?thesis by (auto simp: archive_ok_def bx_archive_def unframe_frames)
qed

lemma bx_run: "(case runAdminBackup \<lparr>av_flushed = f, av_bytes = g, av_open = opn, av_marshal = (\<lambda>_. Inr ''{}''), av_decode = d\<rparr> 0 fault_free bx_args (bx_files, 0) of
    (r, fs1, n1) \<Rightarrow> r = Inr () \<and> butlast fs1 = bx_files \<and> fst (last fs1) = (True, [''o.tgz'']) \<and> length fs1 = 6
      \<and> (case snd (last fs1) of RegNode _ _ \<Rightarrow> True | _ \<Rightarrow> False))"
  by code_simp

lemma bx_flags: "string_flags backup_flags bx_args = Inr [(''content-root'', ''/c''), (''config'', ''/r.yaml''), (''output'', ''/o.tgz'')]"
  "string_flags restore_flags bx_args2 = Inr [(''archive'', ''/o.tgz''), (''content-root'', ''/n/c''), (''config-output'', ''/n/r.yaml'')]"
  by code_simp+

lemma bx_paths: "locate ''/c'' = (True, [''c''])" "locate ''/o.tgz'' = (True, [''o.tgz''])" "locate ''/n/c'' = (True, [''n'', ''c''])"
  "locate ''/n/r.yaml'' = (True, [''n'', ''r.yaml''])" "filepath_Dir ''/n/r.yaml'' = ''/n''" "locate ''/n'' = (True, [''n''])" "locate ''/r.yaml'' = (True, [''r.yaml''])"
  by code_simp+

lemma bx_fresh: "fst x = (True, [''o.tgz'']) \<Longrightarrow> fresh_target (bx_files @ [x]) ''/n/c'' ''/n/r.yaml''"
  by (cases x) (simp add: fresh_target_def bx_paths parent_def apart_def bx_files_def ancestors_def passable_def node_at_def upt_rec)

lemma bx_closed: "closed_tree bx_files ''/c''"
  by (auto simp: closed_tree_def at_def bx_paths bx_files_def append_eq_Cons_conv Cons_eq_append_conv split: if_splits)

theorem backup_restore_round_trip_witness:
  "\<exists>fs1 n1 fs2 n2. runAdminBackup bx_archive 0 fault_free bx_args (bx_files, 0) = (Inr (), fs1, n1)
    \<and> runAdminRestore bx_archive fault_free bx_args2 (fs1, 0) = (Inr (), fs2, n2)
    \<and> map_of fs2 (True, [''n'', ''c'', ''b'', ''x'']) = Some (RegNode ''blob'' 384)
    \<and> map_of fs2 (True, [''n'', ''c'', ''db'']) = Some (RegNode ''rows'' 384)
    \<and> map_of fs2 (True, [''n'', ''r.yaml'']) = Some (RegNode ''version: 1'' 384)"
proof -
  obtain fs1 n1 where r: "runAdminBackup bx_archive 0 fault_free bx_args (bx_files, 0) = (Inr (), fs1, n1)"
    and b: "butlast fs1 = bx_files" and l: "fst (last fs1) = (True, [''o.tgz''])" and n: "length fs1 = 6"
    using bx_run [of "\<lambda>_. []" "\<lambda>es. frames (map bx_entry es)" "\<lambda>b. Inr (map bx_unentry (unframe b), None)" "\<lambda>_. Inr (new_manifest 0)"]
    unfolding bx_archive_def [symmetric] by (auto split: prod.splits)
  have f: "fs1 = bx_files @ [last fs1]" using b n by (metis append_butlast_last_id length_0_conv zero_neq_numeral)
  have fr: "fresh_target fs1 ''/n/c'' ''/n/r.yaml''" by (subst f) (rule bx_fresh [OF l])
  have d: "distinct (map fst bx_files)" by (simp add: bx_files_def)
  have a: "apart ''/c'' ''/o.tgz''" by (simp add: apart_def bx_paths)
  from backup_restore_round_trip [OF bx_flags(1) r bx_codec d _ _ bx_flags(2), of 0] obtain fs2 n2 c m where
    w: "runAdminRestore bx_archive fault_free bx_args2 (fs1, 0) = (Inr (), fs2, n2)" "map_of bx_files (locate ''/r.yaml'') = Some (RegNode c m)"
      "map_of fs2 (locate ''/n/r.yaml'') = Some (RegNode c (m AND 448))"
    and t: "\<forall>ds \<in> {ds. ds \<noteq> [] \<and> list_all ordinary ds}. map_of fs2 (at ''/n/c'' ds) = map_option private_copy (map_of bx_files (at ''/c'' ds))"
    using bx_closed a fr by (auto simp: flag_def)
  have o: "list_all ordinary [''b'', ''x'']" "list_all ordinary [''db'']" by code_simp+
  show ?thesis using r w o bspec [OF t, of "[''b'', ''x'']"] bspec [OF t, of "[''db'']"]
    by (auto simp: at_def bx_paths bx_files_def private_copy_def)
qed

end
