(* ===== verification/TLS_Properties.thy ===== *)
theory TLS_Properties
  imports TLS_Identity Secrets
begin

text \<open>
  What happens to an identity that is there, what a successful call leaves, and that a second call
  with the same hosts changes nothing.
\<close>

section \<open>Places\<close>

definition cert_loc :: "string \<Rightarrow> loc" where "cert_loc dir = (fst (locate dir), snd (locate dir) @ [''regstair.crt''])"
definition temp_loc :: "('c, 'k) X509 \<Rightarrow> string \<Rightarrow> loc" where
  "temp_loc X dir = (fst (locate dir), snd (locate dir) @ [''.regstair-cert-'' @ x_temp X])"

lemma identity_names: "ordinary ''regstair-ca.crt''" "ordinary ''regstair-ca.key''" "ordinary ''regstair.crt''" "ordinary ''regstair.key''"
  by code_simp+

lemma locate_in: "ordinary f \<Longrightarrow> locate (filepath_Join dir f) = (fst (locate dir), snd (locate dir) @ [f])"
  using locate_below [of "[f]" dir] by simp

lemma identity_locs:
  "map locate (identity_files (identity_in dir)) = map (\<lambda>f. (fst (locate dir), snd (locate dir) @ [f]))
     [''regstair-ca.crt'', ''regstair-ca.key'', ''regstair.crt'', ''regstair.key'']"
  by (simp add: identity_files_def identity_in_def locate_in identity_names)

lemma cert_path: "locate (id_CertFile (identity_in dir)) = cert_loc dir"
  by (simp add: identity_in_def locate_in identity_names cert_loc_def)

lemma temp_place:
  assumes "CHR ''/'' \<notin> set (x_temp X)"
  shows "locate (temp_path X (id_CertFile (identity_in dir))) = temp_loc X dir"
proof -
  have o: "ordinary (''.regstair-cert-'' @ x_temp X)" using assms by (simp add: ordinary_def)
  have "locate (filepath_Dir (filepath_Join dir ''regstair.crt'')) = locate dir"
    using Dir_below [of "[]" "''regstair.crt''" dir] identity_names by simp
  then show ?thesis using locate_in [OF o] by (simp add: temp_path_def identity_in_def temp_loc_def)
qed

lemma temp_not_cert: "temp_loc X dir \<noteq> cert_loc dir"
  by (simp add: temp_loc_def cert_loc_def)

section \<open>Replacing a file\<close>

lemma closing_keep: "keeps R m \<Longrightarrow> preorder R \<Longrightarrow> keeps R (closing F m)"
proof -
  assume m: "keeps R m" "preorder R"
  have "fst (snd (closing F m s)) = fst (snd (m s))" for s
    by (auto simp: closing_def Close_def query_def sql_def split: prod.splits sum.splits option.splits)
  then show ?thesis using m by (simp add: keeps_def)
qed

lemma Write_same_but: "keeps (same_but (locate p)) (Write F p d)"
  by (auto simp: keeps_def Write_def Let_def split: option.splits)

lemma Chmod_same_but: "keeps (same_but (locate p)) (Chmod F p m)"
  unfolding Chmod_def by (rule keeps_sql) auto

lemma fill_same_but:
  "keeps (same_but (locate t)) (andthen (closing F (Chmod F t mode)) (\<lambda>_. andthen (closing F (Write F t d)) (\<lambda>_.
     andthen (closing F (Sync F)) (\<lambda>_. Close F))))"
  by (intro keeps_intros closing_keep preorder_same_but Write_same_but Chmod_same_but calls_keep)

lemma closing_Inr: "closing F m s = (Inr x, s') \<longleftrightarrow> m s = (Inr x, s')"
  by (auto simp: closing_def split: prod.splits sum.splits)

lemma fill_Inr:
  assumes "andthen (closing F (Chmod F t mode)) (\<lambda>_. andthen (closing F (Write F t d)) (\<lambda>_.
     andthen (closing F (Sync F)) (\<lambda>_. Close F))) s = (Inr u, s')" "map_of (fst s) (locate t) = Some (RegNode [] m)"
  shows "map_of (fst s') (locate t) = Some (RegNode d mode)"
  using assms by (auto simp: andthen_Inr closing_Inr Chmod_def sql_def Write_def Sync_def Close_def query_def Let_def
      split: option.splits)

lemma map_of_filter_key: "map_of (filter (\<lambda>(k, n). P k) fs) l = (if P l then map_of fs l else None)"
  by (induction fs) auto

lemma Remove_same_but: "keeps (same_but (locate p)) (ignoring (Remove F p))"
  by (auto simp: keeps_def ignoring_def Remove_def sql_def same_but_def map_of_filter_key split: option.splits)

lemma andthen_assoc: "andthen m (\<lambda>x. andthen (k x) l) = andthen (andthen m k) l"
  by (rule ext) (auto simp: andthen_def split: prod.splits sum.splits)

text \<open>The replaced file has its old content or all of the new; the temporary file is the only other one touched.\<close>

lemma replacePEM_effect:
  assumes "replacePEM X F path kind der mode s = (r, s')" "locate (temp_path X path) \<noteq> locate path"
  shows "(l = locate path \<or> l = locate (temp_path X path) \<or> map_of (fst s') l = map_of (fst s) l)
    \<and> (map_of (fst s') (locate path) = map_of (fst s) (locate path) \<and> (\<forall>u. r \<noteq> Inr u)
       \<or> map_of (fst s') (locate path) = Some (RegNode (x_PEM X kind der) mode))
    \<and> (map_of (fst s) (locate (temp_path X path)) = None \<or> fst s' = fst s)"
proof -
  let ?t = "temp_path X path" and ?d = "x_PEM X kind der"
  let ?fill = "andthen (closing F (Chmod F ?t mode)) (\<lambda>_. andthen (closing F (Write F ?t ?d)) (\<lambda>_. andthen (closing F (Sync F)) (\<lambda>_. Close F)))"
  show ?thesis
  proof -
    obtain c s1 where Pair: "CreateExclusive F ?t 384 s = (c, s1)" by (metis surj_pair)
    show ?thesis
    proof (cases c)
      case (Inl e)
      with Pair have "fst s1 = fst s" by (auto simp: CreateExclusive_def create_at_def sql_def split: option.splits if_splits)
      with Pair Inl assms(1) show ?thesis by (auto simp: replacePEM_def andthen_def Let_def)
    next
      case (Inr u)
      with Pair have n: "node_at (fst s) (locate ?t) = None" and f1: "fst s1 = fst s @ [(locate ?t, RegNode [] 384)]"
        by (auto simp: CreateExclusive_def create_at_def sql_def split: option.splits if_splits)
      have m1: "map_of (fst s1) (locate ?t) = Some (RegNode [] 384)" using n unfolding f1 by (simp add: node_at_None map_add_def)
      have b1: "same_but (locate ?t) (fst s) (fst s1)" unfolding f1 same_but_def by (auto simp: map_add_def split: option.splits)
      obtain x s2 where x: "?fill s1 = (x, s2)" by (metis surj_pair)
      have b2: "same_but (locate ?t) (fst s) (fst s2)" using preorder_trans [OF preorder_same_but b1] keepsD [OF fill_same_but x] .
      define y where "y = (case x of Inl e \<Rightarrow> (Inl e, s2) | Inr _ \<Rightarrow> Rename F ?t path s2)"
      have r: "r = fst y" "same_but (locate ?t) (fst (snd y)) (fst s')"
      proof -
        have "replacePEM X F path kind der mode s = (fst y, snd (ignoring (Remove F ?t) (snd y)))"
          using Pair Inr x by (auto simp: replacePEM_def Let_def andthen_assoc [symmetric] y_def andthen_def split: sum.splits prod.splits)
        then show "r = fst y" "same_but (locate ?t) (fst (snd y)) (fst s')"
          using assms(1) keeps_snd [OF Remove_same_but [of ?t F], of "snd y"] by auto
      qed
      have "(l = locate path \<or> l = locate ?t \<or> map_of (fst (snd y)) l = map_of (fst s) l)
        \<and> (map_of (fst (snd y)) (locate path) = map_of (fst s) (locate path) \<and> (\<forall>u. fst y \<noteq> Inr u)
           \<or> map_of (fst (snd y)) (locate path) = Some (RegNode ?d mode))"
      proof (cases x)
        case Inl: (Inl e)
        then show ?thesis using same_butD [OF b2, of l] same_butD [OF b2, of "locate path"] assms(2) by (auto simp: y_def)
      next
        case Inr: (Inr u)
        have m2: "map_of (fst s2) (locate ?t) = Some (RegNode ?d mode)" using fill_Inr [OF _ m1] x Inr by blast
        have "node_at (fst s2) (locate ?t) = Some (RegNode ?d mode)" using m2 n by (simp add: node_at_def split: if_splits)
        then show ?thesis using same_butD [OF b2, of l] same_butD [OF b2, of "locate path"] assms(2) Inr
          by (auto simp: y_def Rename_def sql_def map_of_filter_key split: option.splits)
      qed
      then show ?thesis using r(1) same_butD [OF r(2), of l] same_butD [OF r(2), of "locate path"] assms(2) n
        unfolding node_at_None by metis
    qed
  qed
qed

section \<open>An identity that is there\<close>

definition reissued :: "('c, 'k) X509 \<Rightarrow> string list \<Rightarrow> string \<Rightarrow> bool" where
  "reissued X hosts der \<longleftrightarrow> (\<exists>ca serverKey caKey.
     x_CreateCertificate X (serverCertificateTemplate X 0 (fst (normalizeHosts X hosts)) (snd (normalizeHosts X hosts)))
       (FromCertificate ca) (x_Public X serverKey) caKey = Inr der)"

text \<open>No file that is there changes or goes, but for the server certificate, which may change to a complete new one.\<close>

definition keeps_identity :: "('c, 'k) X509 \<Rightarrow> string \<Rightarrow> string list \<Rightarrow> Files \<Rightarrow> Files \<Rightarrow> bool" where
  "keeps_identity X dir hosts fs fs' \<longleftrightarrow>
     (\<forall>l. map_of fs l = None \<or> map_of fs' l = map_of fs l
        \<or> l = cert_loc dir \<and> (\<exists>der. reissued X hosts der \<and> map_of fs' l = Some (RegNode (x_PEM X ''CERTIFICATE'' der) 420)))"

lemma preorder_keeps_identity [simp, intro]: "preorder (keeps_identity X dir hosts)"
  unfolding preorder_def
proof
  show "reflp (keeps_identity X dir hosts)" by (simp add: reflp_def keeps_identity_def)
  show "transp (keeps_identity X dir hosts)" unfolding transp_def
  proof (intro allI impI)
    fix a b c assume "keeps_identity X dir hosts a b" "keeps_identity X dir hosts b c"
    then have ab: "map_of a l = None \<or> map_of b l = map_of a l
        \<or> l = cert_loc dir \<and> (\<exists>der. reissued X hosts der \<and> map_of b l = Some (RegNode (x_PEM X ''CERTIFICATE'' der) 420))"
      and bc: "map_of b l = None \<or> map_of c l = map_of b l
        \<or> l = cert_loc dir \<and> (\<exists>der. reissued X hosts der \<and> map_of c l = Some (RegNode (x_PEM X ''CERTIFICATE'' der) 420))" for l
      unfolding keeps_identity_def by blast+
    show "keeps_identity X dir hosts a c" unfolding keeps_identity_def
    proof
      fix l
      show "map_of a l = None \<or> map_of c l = map_of a l
        \<or> l = cert_loc dir \<and> (\<exists>der. reissued X hosts der \<and> map_of c l = Some (RegNode (x_PEM X ''CERTIFICATE'' der) 420))"
        using ab [of l] bc [of l] by (cases "map_of b l") auto
    qed
  qed
qed

text \<open>A new file, whatever is written to it.\<close>

lemma create_keeps_identity:
  assumes "\<And>u. keeps (same_but (locate p)) (k u)"
  shows "keeps (keeps_identity X dir hosts) (andthen (CreateExclusive F p m) k)"
  unfolding keeps_def
proof
  fix s
  obtain c s1 where c: "CreateExclusive F p m s = (c, s1)" by (metis surj_pair)
  show "keeps_identity X dir hosts (fst s) (fst (snd (andthen (CreateExclusive F p m) k s)))"
  proof (cases c)
    case (Inl e)
    with c have "fst s1 = fst s" by (auto simp: CreateExclusive_def create_at_def sql_def split: option.splits if_splits)
    with c Inl show ?thesis by (simp add: andthen_def keeps_identity_def)
  next
    case (Inr u)
    with c have n: "map_of (fst s) (locate p) = None" and f1: "fst s1 = fst s @ [(locate p, RegNode [] m)]"
      by (auto simp: CreateExclusive_def create_at_def sql_def node_at_None split: option.splits if_splits)
    have "same_but (locate p) (fst s) (fst s1)" unfolding f1 same_but_def by (auto simp: map_add_def split: option.splits)
    then have "same_but (locate p) (fst s) (fst (snd (k u s1)))"
      using preorder_trans [OF preorder_same_but _ keeps_snd [OF assms, of s1 u]] by blast
    then have "map_of (fst s) l = None \<or> map_of (fst (snd (k u s1))) l = map_of (fst s) l" for l
      using n same_butD by (cases "l = locate p") auto
    then have "keeps_identity X dir hosts (fst s) (fst (snd (k u s1)))" unfolding keeps_identity_def by blast
    then show ?thesis using c Inr by (simp add: andthen_def)
  qed
qed

lemma make_dirs_keep_identity: "keeps (keeps_identity X dir hosts) (make_dirs F ls)"
proof (induction ls)
  case (Cons l ls)
  have "keeps (keeps_identity X dir hosts) (make_dir F l)" unfolding make_dir_def
    by (rule keeps_sql) (auto simp: keeps_identity_def map_add_def split: option.splits node.splits)
  with Cons show ?case by (auto intro!: keeps_intros)
qed (simp add: keeps_ret)

lemma LoadX509KeyPair_keep: "preorder R \<Longrightarrow> keeps R (LoadX509KeyPair X F c k)"
  unfolding LoadX509KeyPair_def by (intro keeps_intros calls_keep)

lemma replace_keeps_identity:
  assumes "CHR ''/'' \<notin> set (x_temp X)" "reissued X hosts der"
  shows "keeps (keeps_identity X dir hosts) (replacePEM X F (id_CertFile (identity_in dir)) ''CERTIFICATE'' der 420)"
  unfolding keeps_def
proof
  fix s
  obtain r s' where e: "replacePEM X F (id_CertFile (identity_in dir)) ''CERTIFICATE'' der 420 s = (r, s')" by (metis surj_pair)
  have t: "locate (temp_path X (id_CertFile (identity_in dir))) = temp_loc X dir" using assms(1) by (rule temp_place)
  have d: "locate (temp_path X (id_CertFile (identity_in dir))) \<noteq> locate (id_CertFile (identity_in dir))"
    unfolding t cert_path by (rule temp_not_cert)
  note E = replacePEM_effect [OF e d, unfolded t cert_path]
  show "keeps_identity X dir hosts (fst s) (fst (snd (replacePEM X F (id_CertFile (identity_in dir)) ''CERTIFICATE'' der 420 s)))"
    unfolding e keeps_identity_def fst_conv snd_conv
  proof
    fix l
    show "map_of (fst s) l = None \<or> map_of (fst s') l = map_of (fst s) l \<or> l = cert_loc dir
      \<and> (\<exists>der. reissued X hosts der \<and> map_of (fst s') l = Some (RegNode (x_PEM X ''CERTIFICATE'' der) 420))"
      using E [of l] assms(2) by auto
  qed
qed

lemma reuse_keeps_identity:
  assumes "CHR ''/'' \<notin> set (x_temp X)"
  shows "keeps (keeps_identity X dir hosts) (reuse_identity X F exact (identity_in dir) hosts)"
proof -
  have last: "keeps (keeps_identity X dir hosts) (andthen (wrapping a (returning
        (x_CreateCertificate X (serverCertificateTemplate X 0 (fst (normalizeHosts X hosts)) (snd (normalizeHosts X hosts))) (FromCertificate ca) (x_Public X serverKey) caKey)))
      (\<lambda>der. andthen (wrapping b (replacePEM X F (id_CertFile (identity_in dir)) ''CERTIFICATE'' der 420)) (\<lambda>_. ret i)))" for a b ca serverKey caKey i
  proof (cases "x_CreateCertificate X (serverCertificateTemplate X 0 (fst (normalizeHosts X hosts)) (snd (normalizeHosts X hosts))) (FromCertificate ca) (x_Public X serverKey) caKey")
    case (Inl e)
    then show ?thesis by (auto simp: keeps_def andthen_def wrapping_def returning_def fail_def)
  next
    case (Inr der)
    then have re: "reissued X hosts der" by (auto simp: reissued_def)
    have "andthen (wrapping a (returning (Inr der :: string result))) (\<lambda>der. andthen (wrapping b (replacePEM X F (id_CertFile (identity_in dir)) ''CERTIFICATE'' der 420)) (\<lambda>_. ret i))
      = andthen (wrapping b (replacePEM X F (id_CertFile (identity_in dir)) ''CERTIFICATE'' der 420)) (\<lambda>_. ret i)"
      by (rule ext) (simp add: andthen_def wrapping_def returning_def ret_def)
    then show ?thesis unfolding Inr by (simp only:) (intro keeps_intros preorder_keeps_identity replace_keeps_identity [OF assms re])
  qed
  show ?thesis unfolding reuse_identity_def split_beta Let_def
    by (intro keeps_intros preorder_keeps_identity LoadX509KeyPair_keep calls_keep last)
qed

lemma count_existing_keep: "preorder R \<Longrightarrow> keeps R (count_existing F n ps)"
proof (induction ps arbitrary: n)
  case (Cons p ps)
  have "R (fst s) (fst (snd (count_existing F n (p # ps) s)))" for s
  proof -
    obtain r s1 where e: "Stat F p s = (r, s1)" by (metis surj_pair)
    have f: "fst s1 = fst s" using e by (auto simp: Stat_def sql_def split: option.splits node.splits)
    have k: "R (fst s) (fst (snd (count_existing F k ps s1)))" for k
      using keeps_snd [OF Cons.IH [OF Cons.prems], of s1] f by simp
    show ?thesis using e f k Cons.prems by (cases r) auto
  qed
  then show ?case by (simp add: keeps_def)
qed (simp add: keeps_ret)

lemma writeExclusive_keeps_identity: "keeps (keeps_identity X dir hosts) (writeExclusivePEM X F p kind der mode)"
  unfolding writeExclusivePEM_def
  by (intro create_keeps_identity keeps_intros preorder_same_but closing_keep Write_same_but calls_keep)

lemma create_identity_keeps: "keeps (keeps_identity X dir hosts) (create_identity X F dir i dns ips)"
  unfolding create_identity_def MkdirAll_def
  by (intro keeps_intros preorder_keeps_identity make_dirs_keep_identity calls_keep writeExclusive_keeps_identity)

lemma ensure_keeps_identity:
  assumes "CHR ''/'' \<notin> set (x_temp X)" shows "keeps (keeps_identity X dir hosts) (ensure X F dir hosts exact)"
  unfolding ensure_def Let_def split_beta
  by (intro keeps_intros preorder_keeps_identity count_existing_keep reuse_keeps_identity [OF assms] create_identity_keeps)

text \<open>
  C32: under any failures, making sure of a TLS identity changes and removes no file
  that is there, keys and the certificate authority included, except for the server certificate, which is
  either left alone or replaced as a whole by one that was issued for exactly the given hosts.\<close>

theorem existing_identity_is_kept:
  assumes "CHR ''/'' \<notin> set (x_temp X)" "map_of (fst s) l = Some n" "ensure X F dir hosts exact s = (r, s')"
  shows "map_of (fst s') l = Some n
    \<or> l = cert_loc dir \<and> (\<exists>der. reissued X hosts der \<and> map_of (fst s') l = Some (RegNode (x_PEM X ''CERTIFICATE'' der) 420))"
proof -
  have "keeps_identity X dir hosts (fst s) (fst s')" using keepsD [OF ensure_keeps_identity [OF assms(1)] assms(3)] .
  then have "map_of (fst s) l = None \<or> map_of (fst s') l = map_of (fst s) l
        \<or> l = cert_loc dir \<and> (\<exists>der. reissued X hosts der \<and> map_of (fst s') l = Some (RegNode (x_PEM X ''CERTIFICATE'' der) 420))"
    unfolding keeps_identity_def by blast
  then show ?thesis using assms(2) by auto
qed


section \<open>What success means\<close>

lemma normalize_covers:
  assumes "raw \<in> set hosts" "TrimSpace raw \<noteq> []" "TrimSpace raw \<notin> seen"
  shows "case x_ParseIP X (TrimSpace raw) of Some ip \<Rightarrow> ip \<in> set (snd (normalize_from X seen hosts))
    | None \<Rightarrow> TrimSpace raw \<in> set (fst (normalize_from X seen hosts))"
  using assms
proof (induction hosts arbitrary: seen)
  case (Cons h hosts)
  obtain dns ips where n: "normalize_from X (insert (TrimSpace h) seen) hosts = (dns, ips)" by fastforce
  show ?case
  proof (cases "TrimSpace h = [] \<or> TrimSpace h \<in> seen")
    case True
    then have "raw \<in> set hosts" using Cons.prems by auto
    have e: "normalize_from X seen (h # hosts) = normalize_from X seen hosts" using True by (auto simp: Let_def)
    show ?thesis unfolding e using \<open>raw \<in> set hosts\<close> Cons.prems(2,3) by (rule Cons.IH)
  next
    case False
    show ?thesis
    proof (cases "TrimSpace raw = TrimSpace h")
      case True
      then show ?thesis using False n by (simp add: Let_def split: option.splits)
    next
      case f: False
      then have "raw \<in> set hosts" using Cons.prems(1) by auto
      then have "case x_ParseIP X (TrimSpace raw) of Some ip \<Rightarrow> ip \<in> set ips | None \<Rightarrow> TrimSpace raw \<in> set dns"
        using Cons.IH [of "insert (TrimSpace h) seen"] Cons.prems f unfolding n fst_conv snd_conv by simp
      then show ?thesis using False n by (simp add: Let_def split: option.splits)
    qed
  qed
qed simp

lemma normalize_only:
  "(\<forall>d \<in> set (fst (normalize_from X seen hosts)). d \<in> TrimSpace ` set hosts \<and> d \<notin> seen \<and> d \<noteq> [] \<and> x_ParseIP X d = None)
   \<and> (\<forall>ip \<in> set (snd (normalize_from X seen hosts)). \<exists>h \<in> TrimSpace ` set hosts. x_ParseIP X h = Some ip)
   \<and> distinct (fst (normalize_from X seen hosts))"
proof (induction hosts arbitrary: seen)
  case (Cons h hosts)
  show ?case
  proof (cases "TrimSpace h = [] \<or> TrimSpace h \<in> seen")
    case True
    then have "normalize_from X seen (h # hosts) = normalize_from X seen hosts" by (auto simp: Let_def)
    then show ?thesis using Cons [of seen] by auto
  next
    case False
    obtain dns ips where n: "normalize_from X (insert (TrimSpace h) seen) hosts = (dns, ips)" by fastforce
    have e: "normalize_from X seen (h # hosts) = (case x_ParseIP X (TrimSpace h) of Some ip \<Rightarrow> (dns, ip # ips) | None \<Rightarrow> (TrimSpace h # dns, ips))"
      using False n by (simp add: Let_def)
    show ?thesis using Cons [of "insert (TrimSpace h) seen"] False unfolding n e by (auto split: option.splits)
  qed
qed simp

text \<open>Success: the files are there, and the server certificate covers the hosts or was made for them.\<close>

definition is_file :: "Files \<Rightarrow> string \<Rightarrow> bool" where
  "is_file fs p \<longleftrightarrow> (case node_at fs (locate p) of Some (RegNode _ _) \<Rightarrow> True | _ \<Rightarrow> False)"

definition serves :: "('c, 'k) X509 \<Rightarrow> Files \<Rightarrow> Identity \<Rightarrow> string list \<Rightarrow> bool" where
  "serves X fs i hosts \<longleftrightarrow> (\<exists>cert m key m' der k ca leaf. node_at fs (locate (id_CertFile i)) = Some (RegNode cert m)
     \<and> node_at fs (locate (id_KeyFile i)) = Some (RegNode key m') \<and> x_KeyPair X cert key = Inr (der, k)
     \<and> x_ParseCertificate X der = Inr leaf \<and> x_Verify X leaf ca = Inr ()
     \<and> (\<forall>h \<in> set hosts. TrimSpace h = [] \<or> isOK (x_VerifyHostname X leaf (TrimSpace h))))"

definition made_for :: "('c, 'k) X509 \<Rightarrow> Files \<Rightarrow> Identity \<Rightarrow> string list \<Rightarrow> bool" where
  "made_for X fs i hosts \<longleftrightarrow> (\<exists>der m k sg pub key. x_CreateCertificate X
       (serverCertificateTemplate X k (fst (normalizeHosts X hosts)) (snd (normalizeHosts X hosts))) sg pub key = Inr der
     \<and> node_at fs (locate (id_CertFile i)) = Some (RegNode (x_PEM X ''CERTIFICATE'' der) m))"

lemma made_forI:
  "x_CreateCertificate X (serverCertificateTemplate X k (fst (normalizeHosts X hosts)) (snd (normalizeHosts X hosts))) sg pub key = Inr der
   \<Longrightarrow> node_at fs (locate (id_CertFile i)) = Some (RegNode (x_PEM X ''CERTIFICATE'' der) m) \<Longrightarrow> made_for X fs i hosts"
  unfolding made_for_def by blast

lemma returning_Inr: "returning r s = (Inr x, s') \<longleftrightarrow> r = Inr x \<and> s' = s"
  by (auto simp: returning_def ret_def fail_def split: sum.splits)

lemma ReadFile_Inr': "ReadFile F p s = (Inr c, s') \<Longrightarrow> fst s' = fst s \<and> (\<exists>m. node_at (fst s) (locate p) = Some (RegNode c m))"
  by (cases s') (auto simp: ReadFile_def sql_def split: option.splits node.splits)

lemma LoadX509KeyPair_Inr:
  "LoadX509KeyPair X F c k s = (Inr p, s') \<Longrightarrow> fst s' = fst s \<and> (\<exists>cert m kt m'. node_at (fst s) (locate c) = Some (RegNode cert m)
     \<and> node_at (fst s) (locate k) = Some (RegNode kt m') \<and> x_KeyPair X cert kt = Inr p)"
  unfolding LoadX509KeyPair_def andthen_Inr returning_Inr by (metis ReadFile_Inr')

lemma write_made:
  assumes "writeExclusivePEM X F p kind der mode s = (Inr u, s')"
  shows "node_at (fst s') (locate p) = Some (RegNode (x_PEM X kind der) mode) \<and> (locate q = locate p \<or> node_at (fst s') (locate q) = node_at (fst s) (locate q))"
proof -
  from assms obtain s1 s2 where c: "CreateExclusive F p mode s = (Inr (), s1)" and w: "Write F p (x_PEM X kind der) s1 = (Inr (), s2)"
    and s': "fst s' = fst s2"
    by (auto simp: writeExclusivePEM_def andthen_Inr closing_Inr Close_def query_def sql_def split: option.splits)
  from c have n: "node_at (fst s) (locate p) = None" and f1: "fst s1 = fst s @ [(locate p, RegNode [] mode)]"
    by (auto simp: CreateExclusive_def create_at_def sql_def split: option.splits if_splits)
  have f2: "fst s2 = change_at (locate p) (node_append (x_PEM X kind der)) (fst s1)" using w by (auto simp: Write_def Let_def split: option.splits)
  have p: "map_of (fst s') (locate p) = Some (RegNode (x_PEM X kind der) mode)" using n by (simp add: s' f2 f1 node_at_None map_add_def)
  have "map_of (fst s') (locate q) = map_of (fst s) (locate q)" if "locate q \<noteq> locate p"
    using that by (simp add: s' f2 f1 map_add_def split: option.splits)
  then show ?thesis using p n by (auto simp: node_at_def split: if_splits)
qed

lemma node_at_file: "node_at fs (locate p) = Some (RegNode c m) \<Longrightarrow> is_file fs p"
  by (simp add: is_file_def)

lemma reuse_Inr:
  assumes "reuse_identity X F exact i hosts s = (Inr j, s')"
  obtains (kept) "j = i" "fst s' = fst s" "serves X (fst s) i hosts" "list_all (is_file (fst s)) (identity_files i)"
    | (replaced) s1 der sg pub key where "j = i" "fst s1 = fst s" "list_all (is_file (fst s)) (identity_files i)"
        "x_CreateCertificate X (serverCertificateTemplate X 0 (fst (normalizeHosts X hosts)) (snd (normalizeHosts X hosts))) sg pub key = Inr der"
        "replacePEM X F (id_CertFile i) ''CERTIFICATE'' der 420 s1 = (Inr (), s')"
proof -
  from assms obtain p1 s1 p2 s2 leaf ca u where
    l1: "LoadX509KeyPair X F (id_CertFile i) (id_KeyFile i) s = (Inr p1, s1)"
    and l2: "LoadX509KeyPair X F (id_CACertFile i) (id_CAKeyFile i) s1 = (Inr p2, s2)"
    and p: "x_ParseCertificate X (fst p1) = Inr leaf" "x_Verify X leaf ca = Inr u"
    and r: "(if covers_hosts X exact leaf hosts then ret i
      else if \<not> x_Signer X (snd p1) then fail (errorf ''existing TLS server key cannot sign certificates'')
      else if \<not> x_Signer X (snd p2) then fail (errorf ''existing TLS certificate authority key cannot sign certificates'')
      else andthen (wrapping ''reissue TLS server certificate: %w'' (returning
          (x_CreateCertificate X (serverCertificateTemplate X 0 (fst (normalizeHosts X hosts)) (snd (normalizeHosts X hosts))) (FromCertificate ca) (x_Public X (snd p1)) (snd p2)))) (\<lambda>der.
        andthen (wrapping ''replace TLS server certificate: %w'' (replacePEM X F (id_CertFile i) ''CERTIFICATE'' der 420)) (\<lambda>_. ret i))) s2 = (Inr j, s')"
    unfolding reuse_identity_def andthen_Inr wrapping_Inr returning_Inr split_beta Let_def by blast
  from LoadX509KeyPair_Inr [OF l1] LoadX509KeyPair_Inr [OF l2] obtain cert m kt m' ac am ak am' where f: "fst s2 = fst s"
    and n: "node_at (fst s) (locate (id_CertFile i)) = Some (RegNode cert m)" "node_at (fst s) (locate (id_KeyFile i)) = Some (RegNode kt m')"
      "x_KeyPair X cert kt = Inr p1" "node_at (fst s) (locate (id_CACertFile i)) = Some (RegNode ac am)"
      "node_at (fst s) (locate (id_CAKeyFile i)) = Some (RegNode ak am')" by auto
  have fl: "list_all (is_file (fst s)) (identity_files i)" using n by (simp add: identity_files_def node_at_file)
  show thesis
  proof (cases "covers_hosts X exact leaf hosts")
    case True
    then have "\<forall>h \<in> set hosts. TrimSpace h = [] \<or> isOK (x_VerifyHostname X leaf (TrimSpace h))"
      by (simp add: covers_hosts_def list_all_iff Let_def)
    then have "serves X (fst s) i hosts" using n p unfolding serves_def by (metis old.unit.exhaust prod.collapse)
    then show thesis using kept True r f fl by (simp add: ret_def)
  next
    case False
    then show thesis using r f fl replaced [of s2] by (auto simp: fail_def andthen_Inr returning_Inr ret_def split: if_splits)
  qed
qed

lemma file_locs_apart: "p \<in> set (identity_files (identity_in dir)) \<Longrightarrow> locate p \<noteq> temp_loc X dir"
  by (auto simp: identity_files_def identity_in_def locate_in identity_names temp_loc_def)

lemma reuse_serves:
  assumes "CHR ''/'' \<notin> set (x_temp X)" "reuse_identity X F exact (identity_in dir) hosts s = (Inr i, s')"
  shows "i = identity_in dir \<and> list_all (is_file (fst s')) (identity_files i) \<and> (serves X (fst s') i hosts \<or> made_for X (fst s') i hosts)"
  using assms(2)
proof (cases rule: reuse_Inr)
  case kept
  then show ?thesis by simp
next
  case (replaced s1 der sg pub key)
  have t: "locate (temp_path X (id_CertFile (identity_in dir))) = temp_loc X dir" using assms(1) by (rule temp_place)
  have d: "locate (temp_path X (id_CertFile (identity_in dir))) \<noteq> locate (id_CertFile (identity_in dir))"
    unfolding t cert_path by (rule temp_not_cert)
  note E = replacePEM_effect [OF replaced(5) d, unfolded t cert_path]
  have c: "map_of (fst s') (cert_loc dir) = Some (RegNode (x_PEM X ''CERTIFICATE'' der) 420)" using E by simp
  have "ordinary ''regstair.crt''" by code_simp
  then have nc: "node_at (fst s') (cert_loc dir) = Some (RegNode (x_PEM X ''CERTIFICATE'' der) 420)"
    using c by (simp add: node_at_def cert_loc_def)
  have "is_file (fst s') p" if "p \<in> set (identity_files (identity_in dir))" for p
  proof (cases "locate p = cert_loc dir")
    case True
    then show ?thesis using nc by (simp add: is_file_def)
  next
    case False
    then have "map_of (fst s') (locate p) = map_of (fst s) (locate p)" using E [of "locate p"] file_locs_apart [OF that, of X] replaced(2) by simp
    then have "node_at (fst s') (locate p) = node_at (fst s) (locate p)" by (rule node_at_cong)
    then show ?thesis using replaced(3) that by (simp add: is_file_def list_all_iff)
  qed
  moreover have "made_for X (fst s') (identity_in dir) hosts"
    using made_forI [OF replaced(4)] nc by (simp add: cert_path)
  ultimately show ?thesis using replaced(1) by (simp add: list_all_iff)
qed

lemma create_serves:
  assumes "create_identity X F dir (identity_in dir) (fst (normalizeHosts X hosts)) (snd (normalizeHosts X hosts)) s = (Inr i, s')"
  shows "i = identity_in dir \<and> list_all (is_file (fst s')) (identity_files i) \<and> made_for X (fst s') i hosts"
proof -
  from assms obtain s1 s2 s3 s4 s5 caDER serverDER caKeyDER serverKeyDER sg pub key where i: "i = identity_in dir" "s5 = s'"
    and x: "x_CreateCertificate X (serverCertificateTemplate X 1 (fst (normalizeHosts X hosts)) (snd (normalizeHosts X hosts))) sg pub key = Inr serverDER"
    and w: "writeExclusivePEM X F (id_CACertFile i) ''CERTIFICATE'' caDER 420 s1 = (Inr (), s2)"
      "writeExclusivePEM X F (id_CAKeyFile i) ''PRIVATE KEY'' caKeyDER 384 s2 = (Inr (), s3)"
      "writeExclusivePEM X F (id_CertFile i) ''CERTIFICATE'' serverDER 420 s3 = (Inr (), s4)"
      "writeExclusivePEM X F (id_KeyFile i) ''PRIVATE KEY'' serverKeyDER 384 s4 = (Inr (), s5)"
    unfolding create_identity_def andthen_Inr returning_Inr ret_def by auto
  have d: "distinct (map locate (identity_files i))" unfolding i(1) identity_locs by simp
  note m = write_made [OF w(1)] write_made [OF w(2)] write_made [OF w(3)] write_made [OF w(4)]
  have n: "node_at (fst s5) (locate (id_CertFile i)) = Some (RegNode (x_PEM X ''CERTIFICATE'' serverDER) 420)"
    "node_at (fst s5) (locate (id_KeyFile i)) = Some (RegNode (x_PEM X ''PRIVATE KEY'' serverKeyDER) 384)"
    "node_at (fst s5) (locate (id_CACertFile i)) = Some (RegNode (x_PEM X ''CERTIFICATE'' caDER) 420)"
    "node_at (fst s5) (locate (id_CAKeyFile i)) = Some (RegNode (x_PEM X ''PRIVATE KEY'' caKeyDER) 384)"
    using d m by (auto simp: identity_files_def) metis+
  show ?thesis using i made_forI [OF x n(1)] n by (simp add: identity_files_def node_at_file)
qed

text \<open>
  C33: after a success the four files are there, and the server certificate
  verifies against a certificate authority for every given host, or was made for exactly the names and addresses
  among the hosts, of which every host that is not blank is one.\<close>

theorem ensured_identity_serves_its_hosts:
  assumes "CHR ''/'' \<notin> set (x_temp X)" "ensure X F dir hosts exact s = (Inr i, s')"
  shows "i = identity_in dir \<and> list_all (is_file (fst s')) (identity_files i)
    \<and> (serves X (fst s') i hosts \<or> made_for X (fst s') i hosts
        \<and> (\<forall>h \<in> {h \<in> set hosts. TrimSpace h \<noteq> []}. case x_ParseIP X (TrimSpace h) of
              Some ip \<Rightarrow> ip \<in> set (snd (normalizeHosts X hosts)) | None \<Rightarrow> TrimSpace h \<in> set (fst (normalizeHosts X hosts))))"
proof -
  have cov: "\<forall>h \<in> {h \<in> set hosts. TrimSpace h \<noteq> []}. case x_ParseIP X (TrimSpace h) of
      Some ip \<Rightarrow> ip \<in> set (snd (normalizeHosts X hosts)) | None \<Rightarrow> TrimSpace h \<in> set (fst (normalizeHosts X hosts))"
    unfolding normalizeHosts_def by (auto intro!: normalize_covers)
  obtain n s1 where c: "count_existing F 0 (identity_files (identity_in dir)) s = (Inr n, s1)"
    and k: "(if n > 0 then if n \<noteq> 4 then fail (errorf ''TLS identity in %s is incomplete'') else reuse_identity X F exact (identity_in dir) hosts
      else create_identity X F dir (identity_in dir) (fst (normalizeHosts X hosts)) (snd (normalizeHosts X hosts))) s1 = (Inr i, s')"
    using assms(2) by (auto simp: ensure_def Let_def split_beta andthen_Inr fail_def split: if_splits)
  show ?thesis
  proof (cases "n > 0")
    case True
    then have r: "reuse_identity X F exact (identity_in dir) hosts s1 = (Inr i, s')" using k by (auto simp: fail_def split: if_splits)
    show ?thesis using reuse_serves [OF assms(1) r] cov by blast
  next
    case False
    then have "create_identity X F dir (identity_in dir) (fst (normalizeHosts X hosts)) (snd (normalizeHosts X hosts)) s1 = (Inr i, s')" using k by simp
    from create_serves [OF this] cov show ?thesis by blast
  qed
qed

section \<open>An instance\<close>

text \<open>Certificates that are framed texts: the public key, which is the private one, the signer's, the names and addresses.\<close>

definition tx :: "(string list, string) X509" where
  "tx = \<lparr>x_KeyPair = (\<lambda>cert key. case unframe cert of k # _ \<Rightarrow> if k = key then Inr (cert, key) else Inl (errorf ''mismatch'') | _ \<Rightarrow> Inl (errorf ''malformed'')),
     x_ParseCertificate = (\<lambda>der. Inr (unframe der)),
     x_Verify = (\<lambda>leaf ca. if take 1 (drop 1 leaf) = take 1 ca then Inr () else Inl (errorf ''unknown authority'')),
     x_VerifyHostname = (\<lambda>c h. if h \<in> set (drop 2 c) then Inr () else Inl (errorf ''not valid for host'')),
     x_DNSNames = drop 2, x_IPAddresses = (\<lambda>_. []), x_Signer = (\<lambda>_. True), x_Public = (\<lambda>k. k),
     x_GenerateKey = (\<lambda>k. Inr (if k = 0 then ''ca'' else ''server'')), x_serial = (\<lambda>k. int k),
     x_CreateCertificate = (\<lambda>t _ pub key. Inr (frames (pub # key # tc_DNSNames t))), x_MarshalKey = Inr, x_PEM = (\<lambda>_ der. der),
     x_ParseIP = (\<lambda>_. None), x_IPString = (\<lambda>ip. ip), x_AddYears = (\<lambda>t y. t + y * 365 * 24 * hour), x_now = 0, x_temp = ''1''\<rparr>"

lemma tx_temp: "CHR ''/'' \<notin> set (x_temp tx)" by (simp add: tx_def)

lemma tx_first: "(case ensure tx fault_free ''/t'' [''a'', '' b ''] False ([], 0) of
    (r, s') \<Rightarrow> r = Inr (identity_in ''/t'') \<and> map_of (fst s') (True, [''t'', ''regstair.key'']) = Some (RegNode ''server'' 384))"
  by code_simp

lemma tx_second: "(case ensure tx fault_free ''/t'' [''c''] False (snd (ensure tx fault_free ''/t'' [''a'', '' b ''] False ([], 0))) of
    (r, s') \<Rightarrow> r = Inr (identity_in ''/t'') \<and> map_of (fst s') (True, [''t'', ''regstair.crt'']) = Some (RegNode (frames [''server'', ''ca'', ''c'']) 420))"
  by code_simp

theorem existing_identity_is_kept_witness:
  "\<exists>r s'. ensure tx fault_free ''/t'' [''c''] False (snd (ensure tx fault_free ''/t'' [''a'', '' b ''] False ([], 0))) = (r, s')
    \<and> map_of (fst s') (True, [''t'', ''regstair.key'']) = Some (RegNode ''server'' 384)"
proof -
  obtain r s' where e: "ensure tx fault_free ''/t'' [''c''] False (snd (ensure tx fault_free ''/t'' [''a'', '' b ''] False ([], 0))) = (r, s')"
    by (metis surj_pair)
  have k: "map_of (fst (snd (ensure tx fault_free ''/t'' [''a'', '' b ''] False ([], 0)))) (True, [''t'', ''regstair.key'']) = Some (RegNode ''server'' 384)"
    using tx_first by (auto split: prod.splits)
  have "(True, [''t'', ''regstair.key'']) \<noteq> cert_loc ''/t''" by code_simp
  then show ?thesis using existing_identity_is_kept [OF tx_temp k e] e by blast
qed

theorem ensured_identity_serves_its_hosts_witness:
  "\<exists>s'. ensure tx fault_free ''/t'' [''a'', '' b ''] False ([], 0) = (Inr (identity_in ''/t''), s')
    \<and> list_all (is_file (fst s')) (identity_files (identity_in ''/t''))"
proof -
  obtain s' where e: "ensure tx fault_free ''/t'' [''a'', '' b ''] False ([], 0) = (Inr (identity_in ''/t''), s')"
    using tx_first by (auto split: prod.splits)
  from ensured_identity_serves_its_hosts [OF tx_temp e] e show ?thesis by blast
qed

text \<open>With exact hosts only the numbers of names are compared: a certificate for a wildcard and another name is kept for
  two other hosts that the wildcard covers.\<close>

definition wild :: "(string list, string) X509" where
  "wild = tx\<lparr>x_VerifyHostname := (\<lambda>c h. if h \<in> set (drop 2 c) \<or> ''*.ex'' \<in> set (drop 2 c) \<and> HasSuffix h ''.ex'' then Inr () else Inl (errorf ''not valid for host''))\<rparr>"

lemma exact_compares_numbers:
  "covers_hosts wild True [''server'', ''ca'', ''*.ex'', ''old''] [''a.ex'', ''b.ex'']"
  by code_simp

end
