(* ===== verification/Commands_Example.thy ===== *)
theory Commands_Example
  imports Commands Admin_Example Backup_Properties TLS_Properties
begin

text \<open>
  One concrete machine, on which the properties of the commands are shown to apply: the user root
  with one stored credential, two key files and a file with a new password.
\<close>

section \<open>A concrete machine\<close>

definition cm_env :: "(string list, string) CommandEnv" where
  "cm_env = \<lparr>ce_os = fault_free, ce_sql = (\<lambda>_. None), ce_Open = (\<lambda>_. Inr ()), ce_dbnow = 100, ce_crypto = sx_crypto,
     ce_nonce = (\<lambda>_. sx_random), ce_argon = px_argon, ce_salt = ph_random px_hasher, ce_key = sx_random, ce_x509 = tx,
     ce_net = \<lparr>nl_ParseCIDR = (\<lambda>_. None), nl_ParseIP = (\<lambda>_. None), nl_IsLoopback = (\<lambda>_. False), nl_IsLinkLocalUnicast = (\<lambda>_. False),
       nl_IsLinkLocalMulticast = (\<lambda>_. False), nl_IsUnspecified = (\<lambda>_. False), nl_String = (\<lambda>ip. ip)\<rparr>,
     ce_interfaces = Inr [], ce_archive = bx_archive, ce_now = 0, ce_Getenv = (\<lambda>_. []), ce_run = (\<lambda>_. ret ())\<rparr>"

lemma cm_simps: "ce_os cm_env = fault_free" "ce_sql cm_env = (\<lambda>_. None)" "ce_Open cm_env p = Inr ()" "ce_dbnow cm_env = 100"
  "ce_crypto cm_env = sx_crypto" "ce_nonce cm_env k = sx_random" "ce_argon cm_env = px_argon" "ce_salt cm_env = ph_random px_hasher"
  by (simp_all add: cm_env_def)

definition cm_files :: Files where
  "cm_files = [((True, [''old'']), RegNode (replicate 32 (CHR ''a'')) 384), ((True, [''new'']), RegNode (replicate 32 (CHR ''b'')) 384),
     ((True, [''pw'']), RegNode (''battery horse correct'' @ [CHR 0x0A]) 384)]"

lemma cm_node: "node_at cm_files (locate ''/old'') = Some (RegNode (replicate 32 (CHR ''a'')) 384)"
  "node_at cm_files (locate ''/new'') = Some (RegNode (replicate 32 (CHR ''b'')) 384)"
  "node_at cm_files (locate ''/pw'') = Some (RegNode (''battery horse correct'' @ [CHR 0x0A]) 384)"
  by code_simp+

lemma cm_read: "node_at fs (locate p) = Some (RegNode c m) \<Longrightarrow> ReadFile fault_free p (fs, n) = (Inr c, (fs, Suc n))"
  by (simp add: ReadFile_def sql_def)

lemma cm_change:
  "\<exists>v s'. ChangeUserPassword (\<lambda>_. None) 100 (usr_ID root_user) (usr_UpdatedAt root_user) (c # h) (recovery_audit (usr_ID root_user)) (cx_db, n) = (Inr (Some v), s')"
  by (simp add: ChangeUserPassword_def recovery_audit_def root_user_def ax_user_def cx_db_def ax_db_def empty_db_def after_check_def validateAuditEvent_def
     transaction_def wrapping_def query_def sql_def andthen_def update_users_def revoke_identity_def revoke_sessions_def revoke_tokens_def insertAuditEvent_def ret_def Let_def)

lemma cm_hash: "Hash px_argon \<lparr>ph_params = DefaultPasswordParams, ph_random = ph_random px_hasher\<rparr> ''battery horse correct'' = Inr (cx_hash ''battery horse correct'')"
proof -
  have "\<lparr>ph_params = DefaultPasswordParams, ph_random = ph_random px_hasher\<rparr> = px_hasher" by (simp add: px_hasher_def)
  then show ?thesis using cx_hash [OF cx_valid(2)] by (simp add: sv_hash_def ax_sv_def)
qed

lemma cm_recovers: "\<exists>s'. runAdminResetPassword cm_env [''-username'', ''root'', ''-password-file'', ''/pw''] ((cm_files, cx_db), 0) = (Inr (), s')"
proof -
  have fl: "string_flags reset_flags [''-username'', ''root'', ''-password-file'', ''/pw'']
      = Inr [(''metadata-path'', ''/var/lib/regstair/content/metadata/regstair.db''), (''username'', ''root''), (''password-file'', ''/pw'')]"
    by code_simp
  have t: "TrimSuffix (TrimSuffix (''battery horse correct'' @ [CHR 0x0A]) [CHR 0x0A]) [CHR 0x0D] = ''battery horse correct''" by code_simp
  obtain c h where h: "cx_hash ''battery horse correct'' = c # h" using cx_hash_ne by (metis neq_Nil_conv)
  have f: "SQL_FindUserByUsername (\<lambda>_. None) ''root'' (cx_db, n) = (Inr (Some root_user), (cx_db, Suc (Suc n)))" for n
    by (simp add: SQL_FindUserByUsername_def findUser_def andthen_def wrapping_def query_def sql_def root_simps)
  have a: "Access root_user = UserAccessAdmin" by (simp add: root_user_def ax_user_def)
  have "\<exists>s'. recover_password cm_env ''root'' ''battery horse correct'' (cx_db, n) = (Inr (), s')" for n
    using cm_change [of c h "Suc (Suc n)"] by (auto simp: recover_password_def cm_simps f andthen_def a cm_hash h ret_def)
  then obtain db k where "recover_password cm_env ''root'' ''battery horse correct'' (cx_db, Suc 0) = (Inr (), db, k)" by (metis surj_pair)
  moreover have "TrimSuffix ''battery horse correct'' [CHR 0x0D] = ''battery horse correct''" by code_simp
  ultimately show ?thesis
    by (simp add: runAdminResetPassword_def fl Let_def flag_def andthen_def on_files_def wrapping_def cm_simps cm_read [OF cm_node(3)] t
        after_check_def on_db_def del: append.simps)
qed

definition cm_credential :: "string \<Rightarrow> RegistryCredential" where
  "cm_credential e = \<lparr>rc_ID = ''c1'', rc_UserID = ''1'', rc_SourceID = ''harbor'', rc_Username = ''bot'', rc_EncryptedSecret = e,
     rc_CreatedAt = 1, rc_UpdatedAt = 1\<rparr>"

definition cm_sealed :: "string \<Rightarrow> string \<Rightarrow> string" where
  "cm_sealed i key = frames [i, RawStd_Encode (replicate 12 (CHR ''n'')), RawStd_Encode (frames [key, replicate 12 (CHR ''n''), ''s3cret'',
     frames [''regstair-credential-v1'', ''c1'', ''1'', ''harbor'']])]"

lemma cm_seal:
  "map_of ks i = Some key \<Longrightarrow> length key = 32 \<Longrightarrow> Encrypt sx_crypto sx_random \<lparr>kr_activeKeyID = i, kr_keys = ks\<rparr> ''c1'' ''1'' ''harbor'' ''s3cret'' = Inr (cm_sealed i key)"
  by (simp add: Encrypt_def newGCM_def sx_random_def sx_crypto_def cm_sealed_def secretAssociatedData_def Let_def)

lemma cm_open:
  "map_of ks i = Some key \<Longrightarrow> length key = 32 \<Longrightarrow> Decrypt sx_crypto \<lparr>kr_activeKeyID = j, kr_keys = ks\<rparr> ''c1'' ''1'' ''harbor'' (cm_sealed i key) = Inr ''s3cret''"
  by (simp add: Decrypt_def newGCM_def sx_crypto_def cm_sealed_def secretAssociatedData_def unframe_frames)

definition cm_db :: SecDB where
  "cm_db = cx_db\<lparr>t_credentials := [cm_credential (cm_sealed ''2024'' (replicate 32 (CHR ''a'')))]\<rparr>"

definition cm_args :: "string list" where
  "cm_args = [''-old-key-id'', ''2024'', ''-old-key-file'', ''/old'', ''-new-key-id'', ''2025'', ''-new-key-file'', ''/new'']"

lemma cm_flags: "string_flags rotate_flags cm_args = Inr [(''metadata-path'', ''/var/lib/regstair/content/metadata/regstair.db''),
   (''old-key-id'', ''2024''), (''old-key-file'', ''/old''), (''new-key-id'', ''2025''), (''new-key-file'', ''/new'')]"
  by code_simp

lemma cm_keyrings:
  "load_keyring fault_free ''2025'' [(''2024'', ''/old''), (''2025'', ''/new'')] (cm_files, n)
    = (Inr \<lparr>kr_activeKeyID = ''2025'', kr_keys = [(''2024'', replicate 32 (CHR ''a'')), (''2025'', replicate 32 (CHR ''b''))]\<rparr>, (cm_files, n + 2))"
  "load_keyring fault_free ''2025'' [(''2025'', ''/new'')] (cm_files, n)
    = (Inr \<lparr>kr_activeKeyID = ''2025'', kr_keys = [(''2025'', replicate 32 (CHR ''b''))]\<rparr>, (cm_files, n + 1))"
  by (simp_all add: load_keyring_def LoadSecretKeyring_def cm_read [OF cm_node(1)] cm_read [OF cm_node(2)] decodeSecretKey_def NewSecretKeyring_def)

lemma cm_rotates: "\<exists>s'. runAdminRotateCredentialKey cm_env cm_args ((cm_files, cm_db), 0) = (Inr (), s')"
proof -
  let ?K = "\<lparr>kr_activeKeyID = ''2025'', kr_keys = [(''2024'', replicate 32 (CHR ''a'')), (''2025'', replicate 32 (CHR ''b''))]\<rparr>"
  let ?N = "\<lparr>kr_activeKeyID = ''2025'', kr_keys = [(''2025'', replicate 32 (CHR ''b''))]\<rparr>"
  let ?new = "cm_sealed ''2025'' (replicate 32 (CHR ''b''))"
  have u: "SQL_ListUsers (\<lambda>_. None) (cm_db, n) = (Inr [root_user], (cm_db, Suc n))" for n
    by (simp add: SQL_ListUsers_def wrapping_def query_def sql_def cm_db_def root_simps)
  have l: "ListRegistryCredentialsForUser (\<lambda>_. None) ''1'' (cm_db, n) = (Inr [cm_credential (cm_sealed ''2024'' (replicate 32 (CHR ''a'')))], (cm_db, Suc n))" for n
    by (simp add: ListRegistryCredentialsForUser_def wrapping_def query_def sql_def cm_db_def cm_credential_def)
  have r: "rotate_users cm_env ?K ?N 0 [] [root_user] (cm_db, n) = (Inr [(''c1'', ?new)], (cm_db, Suc n))" for n
    by (simp add: andthen_def cm_simps root_simps l ret_def Reencrypt_def cm_credential_def cm_open cm_seal)
  have ne: "?new \<noteq> []" by (simp add: cm_sealed_def frames_def frame_one_def)
  have v: "validateAuditEvent (rotation_audit ''2024'' ''2025'' (Suc 0)) = Inr ()" by code_simp
  have c: "t_credentials cm_db = [cm_credential (cm_sealed ''2024'' (replicate 32 (CHR ''a'')))]" by (simp add: cm_db_def)
  have "\<exists>m s'. RotateRegistryCredentialSecrets (\<lambda>_. None) 100 [(''c1'', ?new)] (rotation_audit ''2024'' ''2025'' 1) (cm_db, n) = (Inr m, s')" for n
    by (simp add: RotateRegistryCredentialSecrets_def v after_check_def transaction_def wrapping_def query_def sql_def andthen_def c ne ret_def
        insertAuditEvent_def Let_def) (simp add: cm_credential_def ne)
  then obtain m db k where "RotateRegistryCredentialSecrets (\<lambda>_. None) 100 [(''c1'', ?new)] (rotation_audit ''2024'' ''2025'' 1) (cm_db, Suc (Suc (Suc (Suc (Suc 0))))) = (Inr m, db, k)" by (metis surj_pair)
  then show ?thesis
    by (simp add: runAdminRotateCredentialKey_def cm_flags Let_def flag_def andthen_def on_files_def on_db_def cm_simps cm_keyrings after_check_def u r ret_def [abs_def]
       del: rotate_users.simps)
qed

end
