(* ===== verification/Commands_Properties.thy ===== *)
theory Commands_Properties
  imports Commands_Example
begin

text \<open>
  What the commands promise: a command that fails leaves the database alone, a rotation of the
  credential key keeps every secret and needs the new key only, a recovered password is for an
  administrator, and a credential key that is there is never overwritten.
\<close>

section \<open>Steps on the machine\<close>

lemma on_files_Inr: "on_files m s = (Inr x, s') \<longleftrightarrow> m (fst (fst s), snd s) = (Inr x, (fst (fst s'), snd s')) \<and> snd (fst s') = snd (fst s)"
  by (cases s') (auto simp: on_files_def split: prod.splits)

lemma on_db_Inr: "on_db m s = (Inr x, s') \<longleftrightarrow> m (snd (fst s), snd s) = (Inr x, (snd (fst s'), snd s')) \<and> fst (fst s') = fst (fst s)"
  by (cases s') (auto simp: on_db_def split: prod.splits)

text \<open>A step whose failure leaves everything as it was.\<close>

definition all_or_nothing :: "('d, 'a) dbm \<Rightarrow> bool" where
  "all_or_nothing m \<longleftrightarrow> (\<forall>s e s'. m s = (Inl e, s') \<longrightarrow> fst s' = fst s)"

named_theorems nothing_intros \<open>rules for steps that fail without effect\<close>

lemma nothing_reads: "keeps (=) m \<Longrightarrow> all_or_nothing m"
  by (auto simp: all_or_nothing_def dest: keepsD)

lemma nothing_fail [nothing_intros]: "all_or_nothing (fail e)"
  by (simp add: all_or_nothing_def fail_def)

lemma nothing_ret [nothing_intros]: "all_or_nothing (ret x)"
  by (simp add: all_or_nothing_def ret_def)

lemma nothingD: "all_or_nothing m \<Longrightarrow> m s = (Inl e, s') \<Longrightarrow> fst s' = fst s"
  unfolding all_or_nothing_def by blast

lemma nothing_wrapping [nothing_intros]: "all_or_nothing m \<Longrightarrow> all_or_nothing (wrapping t m)"
  unfolding all_or_nothing_def [of "wrapping t m"] wrapping_def by (auto dest!: nothingD split: sum.splits prod.splits)

lemma nothing_check [nothing_intros]: "all_or_nothing m \<Longrightarrow> all_or_nothing (after_check c m)"
  by (cases c) (simp_all add: after_check_def nothing_fail)

lemma nothing_transaction [nothing_intros]: "all_or_nothing (transaction F b c body)"
  unfolding all_or_nothing_def by (auto elim!: transaction_cases)

lemma nothing_then [nothing_intros]: "keeps (=) m \<Longrightarrow> (\<And>x. all_or_nothing (k x)) \<Longrightarrow> all_or_nothing (andthen m k)"
proof -
  assume m: "keeps (=) m" and k: "\<And>x. all_or_nothing (k x)"
  have "fst s' = fst s" if "andthen m k s = (Inl e, s')" for s e s'
  proof -
    obtain x s1 where c: "m s = (x, s1)" by (metis surj_pair)
    then show ?thesis using that keepsD [OF m c] nothingD [OF k] by (cases x) (auto simp: andthen_def)
  qed
  then show ?thesis unfolding all_or_nothing_def by blast
qed

lemma nothing_last [nothing_intros]: "all_or_nothing m \<Longrightarrow> all_or_nothing (andthen m (\<lambda>_. ret x))"
  unfolding all_or_nothing_def [of "andthen m k" for k] andthen_def ret_def by (auto dest!: nothingD split: sum.splits prod.splits)

lemma nothing_on_db [nothing_intros]: "all_or_nothing m \<Longrightarrow> all_or_nothing (on_db m)"
  by (force simp: all_or_nothing_def on_db_def split: prod.splits)

lemma nothing_case [nothing_intros]:
  "(\<And>e. all_or_nothing (f e)) \<Longrightarrow> (\<And>y. all_or_nothing (g y)) \<Longrightarrow> all_or_nothing (case x of Inl e \<Rightarrow> f e | Inr y \<Rightarrow> g y)"
  by (cases x) simp_all

lemma reads_on [keeps_intros]:
  "keeps (=) m \<Longrightarrow> keeps (=) (on_files m)" "keeps (=) m2 \<Longrightarrow> keeps (=) (on_db m2)"
  by (auto simp: keeps_def on_files_def on_db_def split: prod.splits) (metis fst_conv snd_conv)+

lemma reads_case: "(\<And>e. keeps (=) (f e)) \<Longrightarrow> (\<And>y. keeps (=) (g y)) \<Longrightarrow> keeps (=) (case x of Inl e \<Rightarrow> f e | Inr y \<Rightarrow> g y)"
  by (cases x) simp_all

section \<open>Loading keys\<close>

text \<open>The key in a file.\<close>

definition key_in :: "Files \<Rightarrow> string \<Rightarrow> string option" where
  "key_in fs p = (case node_at fs (locate p) of Some (RegNode c m) \<Rightarrow> (case decodeSecretKey c of Inl _ \<Rightarrow> None | Inr key \<Rightarrow> Some key) | _ \<Rightarrow> None)"

lemma load_keys_Inr:
  "(\<And>p c. read p = Inr c \<Longrightarrow> \<exists>m. node_at fs (locate p) = Some (RegNode c m)) \<Longrightarrow> load_keys read files = Inr keys
    \<Longrightarrow> map fst keys = map fst files \<and> (\<forall>i. map_of keys i = (case map_of files i of None \<Rightarrow> None | Some p \<Rightarrow> key_in fs p))"
proof (induction files arbitrary: keys)
  case (Cons f files)
  obtain i p where f: "f = (i, p)" by (cases f)
  from Cons.prems(2) obtain c key ks where r: "read p = Inr c" "decodeSecretKey c = Inr key" "load_keys read files = Inr ks" "keys = (i, key) # ks"
    by (auto simp: f split: if_splits sum.splits)
  from Cons.prems(1) [OF r(1)] r(2) have "key_in fs p = Some key" by (auto simp: key_in_def)
  with Cons.IH [OF Cons.prems(1) r(3)] r(4) show ?case by (auto simp: f)
qed simp

lemma load_keyring_Inr:
  assumes "load_keyring F active files s = (Inr k, s')"
  shows "fst s' = fst s \<and> kr_activeKeyID k = active
    \<and> (\<forall>i. map_of (kr_keys k) i = (case map_of files i of None \<Rightarrow> None | Some p \<Rightarrow> key_in (fst s) p))"
proof -
  let ?read = "\<lambda>p. fst (ReadFile F p (fst s, snd s + length (takeWhile (\<lambda>f. snd f \<noteq> p) files)))"
  from assms obtain keys where k: "load_keys ?read files = Inr keys" "NewSecretKeyring active keys = Inr k" "fst s' = fst s"
    by (auto simp: load_keyring_def LoadSecretKeyring_def split: sum.splits)
  have "\<exists>m. node_at (fst s) (locate p) = Some (RegNode c m)" if "?read p = Inr c" for p c
    using that ReadFile_Inr [of F p _ c] by (metis fst_conv prod.collapse)
  with load_keys_Inr [of ?read "fst s"] k show ?thesis by (simp add: NewSecretKeyring_Inr)
qed

lemma load_keyring_reads: "keeps (=) (load_keyring F active files)"
  by (simp add: keeps_def load_keyring_def)

section \<open>The rotation of the credential key\<close>

definition rotated :: "Crypto \<Rightarrow> (nat \<Rightarrow> nat \<Rightarrow> string result) \<Rightarrow> SecretKeyring \<Rightarrow> SecretKeyring \<Rightarrow> RegistryCredential \<Rightarrow> string \<Rightarrow> bool" where
  "rotated C nonce K N c r \<longleftrightarrow> (\<exists>k. Reencrypt C (nonce k) K (rc_ID c) (rc_UserID c) (rc_SourceID c) (rc_EncryptedSecret c) = Inr r)
     \<and> isOK (Decrypt C N (rc_ID c) (rc_UserID c) (rc_SourceID c) r)"

lemma rotate_credentials_Inr:
  "rotate_credentials C nonce K N k reps cs = Inr (k', reps') \<Longrightarrow> map_of reps' i = Some r
    \<Longrightarrow> map_of reps i = Some r \<or> (\<exists>c \<in> set cs. rc_ID c = i \<and> rotated C nonce K N c r)"
proof (induction cs arbitrary: k reps)
  case (Cons c cs)
  from Cons.prems(1) obtain x where x: "Reencrypt C (nonce k) K (rc_ID c) (rc_UserID c) (rc_SourceID c) (rc_EncryptedSecret c) = Inr x"
    "isOK (Decrypt C N (rc_ID c) (rc_UserID c) (rc_SourceID c) x)"
    "rotate_credentials C nonce K N (Suc k) (AList.update (rc_ID c) x reps) cs = Inr (k', reps')"
    by (auto simp: isOK_def split: sum.splits)
  from Cons.IH [OF x(3) Cons.prems(2)] x(1,2) show ?case by (auto simp: update_conv' rotated_def split: if_splits)
qed simp

lemma rotate_users_Inr:
  "rotate_users E K N k reps us s = (Inr reps', s') \<Longrightarrow> map_of reps' i = Some r
    \<Longrightarrow> map_of reps i = Some r \<or> (\<exists>c \<in> set (t_credentials (fst s)). rc_ID c = i \<and> rotated (ce_crypto E) (ce_nonce E) K N c r)"
proof (induction us arbitrary: k reps s)
  case (Cons u us)
  from Cons.prems(1) obtain cs s1 k1 reps1 where c: "ListRegistryCredentialsForUser (ce_sql E) (usr_ID u) s = (Inr cs, s1)"
    "rotate_credentials (ce_crypto E) (ce_nonce E) K N k reps cs = Inr (k1, reps1)" "rotate_users E K N k1 reps1 us s1 = (Inr reps', s')"
    by (clarsimp simp: andthen_Inr, clarsimp split: sum.splits prod.splits)
  have l: "fst s1 = fst s" "set cs \<subseteq> set (t_credentials (fst s))"
    using c(1) by (auto simp: ListRegistryCredentialsForUser_def query_Inr)
  from Cons.IH [OF c(3) Cons.prems(2)] rotate_credentials_Inr [OF c(2), of i r] l show ?case by auto
qed simp

lemma rotate_users_reads: "keeps (=) (rotate_users E K N k reps us)"
proof (induction us arbitrary: k reps)
  case (Cons u us)
  have "keeps (=) (case x of Inl e \<Rightarrow> fail e | Inr (k, reps) \<Rightarrow> rotate_users E K N k reps us)" for x
    using Cons.IH by (cases x) (auto intro: keeps_intros preorder_eq)
  moreover have "keeps (=) (ListRegistryCredentialsForUser (ce_sql E) (usr_ID u))"
    unfolding ListRegistryCredentialsForUser_def by (intro keeps_intros preorder_eq)
  ultimately show ?case by (simp add: keeps_andthen)
qed (simp add: keeps_ret)

lemma rotate_secrets_Inr:
  "rotate_secrets F reps ids s = (Inr u, s') \<Longrightarrow>
    fst s' = (fst s)\<lparr>t_credentials := map (\<lambda>c. if rc_ID c \<in> set ids then c\<lparr>rc_EncryptedSecret := the (map_of reps (rc_ID c))\<rparr> else c) (t_credentials (fst s))\<rparr>
    \<and> (\<forall>i \<in> set ids. map_of reps i \<noteq> None \<and> length (filter (\<lambda>c. rc_ID c = i) (t_credentials (fst s))) = 1)"
proof (induction ids arbitrary: s)
  case (Cons i ids)
  from Cons.prems obtain e where e: "map_of reps i = Some e" by (auto split: option.splits)
  let ?f = "\<lambda>c. if rc_ID c = i then c\<lparr>rc_EncryptedSecret := e\<rparr> else c"
  from Cons.prems obtain s1 where s1: "length (filter (\<lambda>c. rc_ID c = i) (t_credentials (fst s))) = 1"
    "fst s1 = (fst s)\<lparr>t_credentials := map ?f (t_credentials (fst s))\<rparr>" "rotate_secrets F reps ids s1 = (Inr u, s')"
    by (auto simp: e results split: if_splits)
  have f: "filter (\<lambda>c. rc_ID c = j) (map ?f xs) = map ?f (filter (\<lambda>c. rc_ID c = j) xs)" for j xs
    by (induction xs) auto
  from Cons.IH [OF s1(3)] s1(1) show ?case by (auto simp: s1(2) f e)
qed simp

lemma RotateRegistryCredentialSecrets_Inr:
  assumes "RotateRegistryCredentialSecrets F now reps a s = (Inr n, s')"
  shows "(\<exists>row. fst s' = (fst s)\<lparr>t_credentials := map (\<lambda>c. c\<lparr>rc_EncryptedSecret := the (map_of reps (rc_ID c))\<rparr>) (t_credentials (fst s)),
       t_audit := t_audit (fst s) @ [row], t_audit_seq := t_audit_seq (fst s) + 1\<rparr> \<and> written_for a row)
    \<and> (\<forall>c \<in> set (t_credentials (fst s)). map_of reps (rc_ID c) \<noteq> None)
    \<and> inj_on rc_ID (set (t_credentials (fst s))) \<and> validateAuditEvent a = Inr () \<and> length reps = length (t_credentials (fst s))"
proof -
  have v: "validateAuditEvent a = Inr ()" and t: "transaction F ''begin credential key rotation: %w'' ''commit credential key rotation: %w'' (
      andthen (wrapping ''list credentials for key rotation: %w'' (query F (\<lambda>db. sort (map rc_ID (t_credentials db))))) (\<lambda>ids.
      if length ids \<noteq> length reps then fail (GoErr ''%w: credential key rotation set changed'' [ErrConflict])
      else
      andthen (rotate_secrets F reps ids) (\<lambda>_.
      andthen (insertAuditEvent F a now) (\<lambda>_. ret (True, length ids))))) s = (Inr n, s')"
    using assms by (auto simp: RotateRegistryCredentialSecrets_def after_check_Inr isOK_iff)
  from t show ?thesis
  proof (rule transaction_Inr, goal_cases)
    case (1 k s2)
    from 1(1) obtain s1 x where r: "rotate_secrets F reps (sort (map rc_ID (t_credentials (fst s)))) (fst s, Suc k) = (Inr (), s1)"
      and i: "insertAuditEvent F a now s1 = (Inr x, s2)" and n: "length reps = length (t_credentials (fst s))"
      by (clarsimp simp: results) (clarsimp simp: results split: if_splits)
    have m: "map (\<lambda>c. if rc_ID c \<in> rc_ID ` set cs then f c else c) cs = map f cs" for f cs by auto
    have one: "inj_on rc_ID (set cs)" if "\<forall>i \<in> rc_ID ` set cs. length (filter (\<lambda>c. rc_ID c = i) cs) = 1" for cs
    proof (rule inj_onI)
      fix c c' assume c: "c \<in> set cs" "c' \<in> set cs" "rc_ID c = rc_ID c'"
      then have "length (filter (\<lambda>x. rc_ID x = rc_ID c) cs) = 1" using that by blast
      then obtain z where "filter (\<lambda>x. rc_ID x = rc_ID c) cs = [z]" by (auto simp: length_Suc_conv)
      moreover have "c \<in> set (filter (\<lambda>x. rc_ID x = rc_ID c) cs)" "c' \<in> set (filter (\<lambda>x. rc_ID x = rc_ID c) cs)" using c by auto
      ultimately show "c = c'" by (metis list.set(1,2) singletonD)
    qed
    from rotate_secrets_Inr [OF r] insertAuditEvent_Inr [OF i] v n one [of "t_credentials (fst s)"] show ?case
      by (auto simp: 1(2) m)
  next
    case (2 k s2)
    then show ?case by (auto simp: results split: if_splits)
  qed
qed


definition reads_secret :: "Crypto \<Rightarrow> SecretKeyring \<Rightarrow> RegistryCredential \<Rightarrow> string \<Rightarrow> bool" where
  "reads_secret C k c text \<longleftrightarrow> Decrypt C k (rc_ID c) (rc_UserID c) (rc_SourceID c) (rc_EncryptedSecret c) = Inr text"

lemma rotated_reads:
  assumes "crypto_ok C" "\<forall>k n nonce. random k n = Inr nonce \<longrightarrow> length nonce = n" "ValidString (kr_activeKeyID K)"
    and "map_of (kr_keys N) (kr_activeKeyID K) = map_of (kr_keys K) (kr_activeKeyID K)" and "rotated C random K N c r"
  shows "\<exists>text. reads_secret C K c text \<and> reads_secret C N (c\<lparr>rc_EncryptedSecret := r\<rparr>) text"
proof -
  from assms(5) obtain k secret where d: "Decrypt C K (rc_ID c) (rc_UserID c) (rc_SourceID c) (rc_EncryptedSecret c) = Inr secret"
    and e: "Encrypt C (random k) K (rc_ID c) (rc_UserID c) (rc_SourceID c) secret = Inr r"
    by (cases "Decrypt C K (rc_ID c) (rc_UserID c) (rc_SourceID c) (rc_EncryptedSecret c)") (auto simp: rotated_def Reencrypt_def)
  have l: "\<forall>n nonce. random k n = Inr nonce \<longrightarrow> length nonce = n" using assms(2) by blast
  have "Decrypt C N (rc_ID c) (rc_UserID c) (rc_SourceID c) r = Inr secret"
    by (rule Decrypt_sealed [OF assms(1) e l assms(3,4)]) (use assms(1) in \<open>simp add: crypto_ok_def\<close>)
  with d have "reads_secret C K c secret" "reads_secret C N (c\<lparr>rc_EncryptedSecret := r\<rparr>) secret" by (simp_all add: reads_secret_def)
  then show ?thesis by blast
qed

text \<open>What a rotation is to do to the database: the same rows, each with its secret sealed anew, and one audit record.\<close>

definition resealed :: "Crypto \<Rightarrow> SecretKeyring \<Rightarrow> SecretKeyring \<Rightarrow> AuditEvent \<Rightarrow> SecDB \<Rightarrow> SecDB \<Rightarrow> bool" where
  "resealed C K N a db db' \<longleftrightarrow> (\<exists>cs row. db' = db\<lparr>t_credentials := cs, t_audit := t_audit db @ [row], t_audit_seq := t_audit_seq db + 1\<rparr>
     \<and> written_for a row
     \<and> list_all2 (\<lambda>c c'. c' = c\<lparr>rc_EncryptedSecret := rc_EncryptedSecret c'\<rparr> \<and> (\<exists>text. reads_secret C K c text \<and> reads_secret C N c' text))
         (t_credentials db) cs)"

lemma resealed_map:
  assumes "db' = db\<lparr>t_credentials := map f (t_credentials db), t_audit := t_audit db @ [row], t_audit_seq := t_audit_seq db + 1\<rparr>" "written_for a row"
    and "\<And>c. c \<in> set (t_credentials db) \<Longrightarrow> f c = c\<lparr>rc_EncryptedSecret := rc_EncryptedSecret (f c)\<rparr> \<and> (\<exists>text. reads_secret C K c text \<and> reads_secret C N (f c) text)"
  shows "resealed C K N a db db'"
proof -
  have "list_all2 (\<lambda>c c'. c' = c\<lparr>rc_EncryptedSecret := rc_EncryptedSecret c'\<rparr> \<and> (\<exists>text. reads_secret C K c text \<and> reads_secret C N c' text))
     (t_credentials db) (map f (t_credentials db))"
    using assms(3) by (auto simp: list.rel_map list_all2_same)
  with assms(1,2) show ?thesis unfolding resealed_def by blast
qed

lemma two_keys: "map fst ks = [i, j] \<Longrightarrow> i \<noteq> j \<Longrightarrow> map_of ks i = Some a \<Longrightarrow> map_of ks j = Some b \<Longrightarrow> ks = [(i, a), (j, b)]"
  by (auto simp: map_eq_Cons_conv)

lemma load_keyring_names: "load_keyring F active files s = (Inr k, s') \<Longrightarrow> map fst (kr_keys k) = map fst files"
proof -
  let ?read = "\<lambda>p. fst (ReadFile F p (fst s, snd s + length (takeWhile (\<lambda>f. snd f \<noteq> p) files)))"
  have "load_keys r fs = Inr ks \<Longrightarrow> map fst ks = map fst fs" for r fs ks
    by (induction r fs arbitrary: ks rule: load_keys.induct) (auto split: if_splits sum.splits)
  then show "load_keyring F active files s = (Inr k, s') \<Longrightarrow> map fst (kr_keys k) = map fst files"
    by (auto simp: load_keyring_def LoadSecretKeyring_def NewSecretKeyring_Inr split: sum.splits)
qed

lemma load_keyring_active: "load_keyring F active files s = (Inr k, s') \<Longrightarrow> \<exists>key. map_of (kr_keys k) active = Some key \<and> kr_activeKeyID k = active"
  by (auto simp: load_keyring_def LoadSecretKeyring_def NewSecretKeyring_Inr split: sum.splits)

lemma keyring_eq: "kr_activeKeyID k = a \<Longrightarrow> kr_keys k = ks \<Longrightarrow> k = \<lparr>kr_activeKeyID = a, kr_keys = ks\<rparr>"
  by (cases k) simp

text \<open>The two keyrings of a rotation.\<close>

lemma rotation_keyrings:
  assumes "load_keyring F new [(old, oldFile), (new, newFile)] s = (Inr K, s1)" "load_keyring F new [(new, newFile)] s1 = (Inr N, s2)" "old \<noteq> new"
  obtains a b where "key_in (fst s) oldFile = Some a" "key_in (fst s) newFile = Some b"
    "K = \<lparr>kr_activeKeyID = new, kr_keys = [(old, a), (new, b)]\<rparr>" "N = \<lparr>kr_activeKeyID = new, kr_keys = [(new, b)]\<rparr>" "fst s2 = fst s"
proof -
  note K = load_keyring_Inr [OF assms(1)] load_keyring_names [OF assms(1)] load_keyring_active [OF assms(1)]
    and N = load_keyring_Inr [OF assms(2)] load_keyring_names [OF assms(2)] load_keyring_active [OF assms(2)]
  obtain b where b: "map_of (kr_keys K) new = Some b" "map_of (kr_keys N) new = Some b" "key_in (fst s) newFile = Some b"
    using K N assms(3) by auto
  obtain p q where "kr_keys K = [p, q]" "fst p = old" using K(2) by (auto simp: map_eq_Cons_conv)
  then obtain a where a: "map_of (kr_keys K) old = Some a" "key_in (fst s) oldFile = Some a" using K(1) by (cases p) (auto dest: spec [of _ old])
  have k: "kr_keys K = [(old, a), (new, b)]" by (rule two_keys) (use K(2) assms(3) a b in simp_all)
  have n: "kr_keys N = [(new, b)]" using N(2) b(2) by (auto simp: map_eq_Cons_conv)
  show thesis by (rule that [OF a(2) b(3)]) (use k n K(1) N(1) in \<open>simp_all add: keyring_eq\<close>)
qed

lemma rotation_audit_valid: "validateAuditEvent (rotation_audit old new n) = Inr () \<Longrightarrow> ValidString new"
  by (auto simp: validateAuditEvent_def rotation_audit_def ValidateAuditDetails_Inr safe_value_def split: if_splits sum.splits)

lemma nothing_if [nothing_intros]: "(P \<Longrightarrow> all_or_nothing a) \<Longrightarrow> (\<not> P \<Longrightarrow> all_or_nothing b) \<Longrightarrow> all_or_nothing (if P then a else b)"
  by simp

lemma rotate_failsafe: "all_or_nothing (RotateRegistryCredentialSecrets F now reps a)"
  unfolding RotateRegistryCredentialSecrets_def by (intro nothing_intros)

lemma list_users_reads: "keeps (=) (SQL_ListUsers F)"
  unfolding SQL_ListUsers_def by (intro keeps_intros preorder_eq)

lemma rotation_failsafe: "all_or_nothing (runAdminRotateCredentialKey E args)"
  unfolding runAdminRotateCredentialKey_def Let_def
  by (intro nothing_case nothing_if nothing_fail nothing_then nothing_check reads_on load_keyring_reads list_users_reads rotate_users_reads
      nothing_last nothing_on_db rotate_failsafe)

text \<open>The steps of a rotation that succeeds.\<close>

lemma rotation_steps:
  assumes "runAdminRotateCredentialKey E args s = (Inr (), s')"
  obtains fl a b us reps n m count where "string_flags rotate_flags args = Inr fl" "flag fl ''old-key-id'' \<noteq> flag fl ''new-key-id''"
    "key_in (fst (fst s)) (flag fl ''old-key-file'') = Some a" "key_in (fst (fst s)) (flag fl ''new-key-file'') = Some b"
    "rotate_users E \<lparr>kr_activeKeyID = flag fl ''new-key-id'', kr_keys = [(flag fl ''old-key-id'', a), (flag fl ''new-key-id'', b)]\<rparr>
        \<lparr>kr_activeKeyID = flag fl ''new-key-id'', kr_keys = [(flag fl ''new-key-id'', b)]\<rparr> 0 [] us (snd (fst s), n) = (Inr reps, (snd (fst s), m))"
    "RotateRegistryCredentialSecrets (ce_sql E) (ce_dbnow E) reps (rotation_audit (flag fl ''old-key-id'') (flag fl ''new-key-id'') (length reps))
        (snd (fst s), m) = (Inr count, (snd (fst s'), snd s'))" "fst (fst s') = fst (fst s)"
proof -
  from assms obtain fl where fl: "string_flags rotate_flags args = Inr fl"
    by (auto simp: runAdminRotateCredentialKey_def fail_def split: sum.splits)
  let ?old = "flag fl ''old-key-id''" and ?new = "flag fl ''new-key-id''"
  from assms fl obtain K s1 N s2 us s3 reps s4 n where ne: "?old \<noteq> ?new"
    and K: "on_files (load_keyring (ce_os E) ?new [(?old, flag fl ''old-key-file''), (?new, flag fl ''new-key-file'')]) s = (Inr K, s1)"
    and N: "on_files (load_keyring (ce_os E) ?new [(?new, flag fl ''new-key-file'')]) s1 = (Inr N, s2)"
    and us: "on_db (SQL_ListUsers (ce_sql E)) s2 = (Inr us, s3)"
    and reps: "on_db (rotate_users E K N 0 [] us) s3 = (Inr reps, s4)"
    and rot: "on_db (RotateRegistryCredentialSecrets (ce_sql E) (ce_dbnow E) reps (rotation_audit ?old ?new (length reps))) s4 = (Inr n, s')"
    by (clarsimp simp: runAdminRotateCredentialKey_def Let_def andthen_Inr after_check_Inr split: if_splits)
  from K N have K': "load_keyring (ce_os E) ?new [(?old, flag fl ''old-key-file''), (?new, flag fl ''new-key-file'')] (fst (fst s), snd s)
      = (Inr K, (fst (fst s1), snd s1))"
    and N': "load_keyring (ce_os E) ?new [(?new, flag fl ''new-key-file'')] (fst (fst s1), snd s1) = (Inr N, (fst (fst s2), snd s2))"
    and d: "snd (fst s2) = snd (fst s)" by (simp_all add: on_files_Inr)
  have e: "fst s3 = fst s2" "fst s4 = fst s3"
    using keepsD [OF reads_on(2) [OF list_users_reads] us] keepsD [OF reads_on(2) [OF rotate_users_reads] reps] by simp_all
  obtain a b where ab: "key_in (fst (fst s)) (flag fl ''old-key-file'') = Some a" "key_in (fst (fst s)) (flag fl ''new-key-file'') = Some b"
    "K = \<lparr>kr_activeKeyID = ?new, kr_keys = [(?old, a), (?new, b)]\<rparr>" "N = \<lparr>kr_activeKeyID = ?new, kr_keys = [(?new, b)]\<rparr>"
    and f2: "fst (fst s2) = fst (fst s)"
    using rotation_keyrings [OF K' N' ne] by auto
  from reps rot have "rotate_users E K N 0 [] us (snd (fst s), snd s3) = (Inr reps, (snd (fst s), snd s4))"
    "RotateRegistryCredentialSecrets (ce_sql E) (ce_dbnow E) reps (rotation_audit ?old ?new (length reps)) (snd (fst s), snd s4)
      = (Inr n, (snd (fst s'), snd s'))" "fst (fst s') = fst (fst s)" by (simp_all add: on_db_Inr e d f2)
  from that [OF fl ne ab(1,2) this(1) [unfolded ab(3,4)] this(2,3)] show thesis .
qed

text \<open>The loops and the transaction together.\<close>

lemma rotation_reseals:
  assumes "crypto_ok (ce_crypto E)" "\<forall>k n nonce. ce_nonce E k n = Inr nonce \<longrightarrow> length nonce = n"
    and "map_of (kr_keys N) new = map_of (kr_keys K) new" "kr_activeKeyID K = new"
    and "rotate_users E K N 0 [] us (db, n) = (Inr reps, (db, m))"
    and "RotateRegistryCredentialSecrets F now reps (rotation_audit old new (length reps)) (db, m) = (Inr count, (db', k))"
  shows "resealed (ce_crypto E) K N (rotation_audit old new (length (t_credentials db))) db db'"
proof -
  note r = RotateRegistryCredentialSecrets_Inr [OF assms(6), unfolded fst_conv]
  have v: "ValidString new" using r rotation_audit_valid by blast
  have own: "\<exists>text. reads_secret (ce_crypto E) K c text \<and> reads_secret (ce_crypto E) N (c\<lparr>rc_EncryptedSecret := the (map_of reps (rc_ID c))\<rparr>) text"
    if c: "c \<in> set (t_credentials db)" for c
  proof -
    obtain y where y: "map_of reps (rc_ID c) = Some y" using r c by blast
    obtain c' where c': "c' \<in> set (t_credentials db)" "rc_ID c' = rc_ID c" "rotated (ce_crypto E) (ce_nonce E) K N c' y"
      using rotate_users_Inr [OF assms(5) y] by auto
    then have "c' = c" using r c by (auto dest: inj_onD)
    then show ?thesis using rotated_reads [OF assms(1,2), of K N c y] c'(3) y v assms(3,4) by simp
  qed
  obtain row where row: "db' = db\<lparr>t_credentials := map (\<lambda>c. c\<lparr>rc_EncryptedSecret := the (map_of reps (rc_ID c))\<rparr>) (t_credentials db),
       t_audit := t_audit db @ [row], t_audit_seq := t_audit_seq db + 1\<rparr>"
     "written_for (rotation_audit old new (length (t_credentials db))) row"
    using r by (elim conjE exE) simp
  show ?thesis by (rule resealed_map [OF row]) (use own in simp)
qed

text \<open>
  C37: a rotation of the credential key is all or nothing. When it fails, the database and the
  files are as they were. When it succeeds, every stored credential of every user is still there, with its secret
  sealed anew: what the old and the new key together read from the old row, the new key alone reads from the new one;
  one audit record is appended and nothing else changes.
\<close>

theorem rotation_keeps_secrets:
  assumes "crypto_ok (ce_crypto E)" and "\<forall>k n nonce. ce_nonce E k n = Inr nonce \<longrightarrow> length nonce = n"
    and "runAdminRotateCredentialKey E args s = (x, s')"
  shows "(x \<noteq> Inr () \<longrightarrow> fst s' = fst s)
    \<and> (x = Inr () \<longrightarrow> (\<exists>fl a b. string_flags rotate_flags args = Inr fl
        \<and> key_in (fst (fst s)) (flag fl ''old-key-file'') = Some a \<and> key_in (fst (fst s)) (flag fl ''new-key-file'') = Some b
        \<and> fst (fst s') = fst (fst s)
        \<and> resealed (ce_crypto E) \<lparr>kr_activeKeyID = flag fl ''new-key-id'', kr_keys = [(flag fl ''old-key-id'', a), (flag fl ''new-key-id'', b)]\<rparr>
            \<lparr>kr_activeKeyID = flag fl ''new-key-id'', kr_keys = [(flag fl ''new-key-id'', b)]\<rparr>
            (rotation_audit (flag fl ''old-key-id'') (flag fl ''new-key-id'') (length (t_credentials (snd (fst s))))) (snd (fst s)) (snd (fst s'))))"
proof (intro conjI impI)
  assume "x \<noteq> Inr ()"
  then show "fst s' = fst s" using assms(3) nothingD [OF rotation_failsafe, of E args s _ s'] by (cases x) simp_all
next
  assume "x = Inr ()"
  with assms(3) have "runAdminRotateCredentialKey E args s = (Inr (), s')" by simp
  then show "\<exists>fl a b. string_flags rotate_flags args = Inr fl
        \<and> key_in (fst (fst s)) (flag fl ''old-key-file'') = Some a \<and> key_in (fst (fst s)) (flag fl ''new-key-file'') = Some b
        \<and> fst (fst s') = fst (fst s)
        \<and> resealed (ce_crypto E) \<lparr>kr_activeKeyID = flag fl ''new-key-id'', kr_keys = [(flag fl ''old-key-id'', a), (flag fl ''new-key-id'', b)]\<rparr>
            \<lparr>kr_activeKeyID = flag fl ''new-key-id'', kr_keys = [(flag fl ''new-key-id'', b)]\<rparr>
            (rotation_audit (flag fl ''old-key-id'') (flag fl ''new-key-id'') (length (t_credentials (snd (fst s))))) (snd (fst s)) (snd (fst s'))"
  proof (cases rule: rotation_steps)
    case steps: (1 fl a b us reps n m count)
    then show ?thesis
      by (intro exI [of _ fl] exI [of _ a] exI [of _ b] conjI) (simp_all add: rotation_reseals [OF assms(1,2) _ _ steps(5,6)])
  qed
qed

theorem rotation_keeps_secrets_witness:
  "\<exists>s' a b. runAdminRotateCredentialKey cm_env cm_args ((cm_files, cm_db), 0) = (Inr (), s')
     \<and> key_in cm_files ''/new'' = Some b
     \<and> resealed sx_crypto \<lparr>kr_activeKeyID = ''2025'', kr_keys = [(''2024'', a), (''2025'', b)]\<rparr> \<lparr>kr_activeKeyID = ''2025'', kr_keys = [(''2025'', b)]\<rparr>
        (rotation_audit ''2024'' ''2025'' 1) cm_db (snd (fst s'))"
proof -
  obtain s' where s': "runAdminRotateCredentialKey cm_env cm_args ((cm_files, cm_db), 0) = (Inr (), s')" using cm_rotates by blast
  have c: "crypto_ok (ce_crypto cm_env)" by (simp add: cm_simps sx_crypto_ok)
  have n: "\<forall>k n nonce. ce_nonce cm_env k n = Inr nonce \<longrightarrow> length nonce = n" by (simp add: cm_simps sx_random_def)
  have l: "length (t_credentials cm_db) = 1" by (simp add: cm_db_def)
  from rotation_keeps_secrets [OF c n s'] obtain a b where "key_in cm_files ''/new'' = Some b"
    "resealed sx_crypto \<lparr>kr_activeKeyID = ''2025'', kr_keys = [(''2024'', a), (''2025'', b)]\<rparr> \<lparr>kr_activeKeyID = ''2025'', kr_keys = [(''2025'', b)]\<rparr>
        (rotation_audit ''2024'' ''2025'' 1) cm_db (snd (fst s'))"
    by (simp add: cm_flags cm_simps flag_def l) blast
  with s' show ?thesis by blast
qed

section \<open>Recovering a password\<close>

lemma change_password_None: "ChangeUserPassword F now i t h a s = (Inr None, s') \<Longrightarrow> fst s' = fst s"
  unfolding ChangeUserPassword_def Let_def
  by (auto simp: after_check_Inr fail_Inr results split: if_splits option.splits elim!: transaction_Inr)

lemma change_password_failsafe:
  "all_or_nothing (andthen (ChangeUserPassword F now i t h a) (\<lambda>updated. case updated of None \<Rightarrow> fail e | Some _ \<Rightarrow> ret ()))"
proof -
  have c: "all_or_nothing (ChangeUserPassword F now i t h a)"
    unfolding ChangeUserPassword_def Let_def by (intro nothing_intros)
  show ?thesis
    unfolding all_or_nothing_def [of "andthen m k" for m k] andthen_def fail_def ret_def
    using nothingD [OF c] change_password_None by (auto split: sum.splits prod.splits option.splits)
qed

lemma find_user_reads: "keeps (=) (SQL_FindUserByUsername F name)"
  unfolding SQL_FindUserByUsername_def findUser_def by (intro keeps_intros preorder_eq)

lemma nothing_option: "(x = None \<Longrightarrow> all_or_nothing a) \<Longrightarrow> (\<And>y. all_or_nothing (f y)) \<Longrightarrow> all_or_nothing (case x of None \<Rightarrow> a | Some y \<Rightarrow> f y)"
  by (cases x) simp_all

lemma recovery_failsafe: "all_or_nothing (runAdminResetPassword E args)"
  unfolding runAdminResetPassword_def recover_password_def Let_def
  by (intro nothing_case nothing_if nothing_fail nothing_then nothing_check nothing_option nothing_on_db change_password_failsafe
      find_user_reads reads_on keeps_wrapping calls_keep preorder_eq)

lemma map_at: "xs = map f xs \<Longrightarrow> x \<in> set xs \<Longrightarrow> f x = x"
  by (induction xs) auto

lemma recover_password_Inr:
  assumes "recover_password E name password s = (Inr (), s')" "0 < ce_dbnow E"
  shows "\<exists>u h row. u \<in> set (t_users (fst s)) \<and> Username u = name \<and> Access u = UserAccessAdmin
    \<and> Hash (ce_argon E) \<lparr>ph_params = DefaultPasswordParams, ph_random = ce_salt E\<rparr> password = Inr h
    \<and> t_users (fst s') = map (\<lambda>v. if usr_ID v = usr_ID u \<and> usr_UpdatedAt v = usr_UpdatedAt u
         then v\<lparr>PasswordHash := h, usr_UpdatedAt := nextUpdatedAt (ce_dbnow E) (usr_UpdatedAt u)\<rparr> else v) (t_users (fst s))
    \<and> all_revoked (usr_ID u) (fst s') \<and> t_audit (fst s') = t_audit (fst s) @ [row] \<and> written_for (recovery_audit (usr_ID u)) row"
proof -
  from assms(1) obtain u s1 h v where u: "SQL_FindUserByUsername (ce_sql E) name s = (Inr (Some u), s1)" "Access u = UserAccessAdmin"
    and h: "Hash (ce_argon E) \<lparr>ph_params = DefaultPasswordParams, ph_random = ce_salt E\<rparr> password = Inr h"
    and c: "ChangeUserPassword (ce_sql E) (ce_dbnow E) (usr_ID u) (usr_UpdatedAt u) h (recovery_audit (usr_ID u)) s1 = (Inr (Some v), s')"
    by (clarsimp simp: recover_password_def andthen_Inr, clarsimp split: option.splits if_splits sum.splits)
       (auto simp: andthen_Inr fail_Inr split: option.splits)
  from find_user_Inr(2) [OF u(1)] have f: "fst s1 = fst s" "u \<in> set (t_users (fst s))" "Username u = name" by (auto dest: find_SomeD)
  note e = ChangeUserPassword_Inr [OF c assms(2), unfolded f(1)]
  have "audited (recovery_audit (usr_ID u)) (fst s1) (fst s')"
    using audited_step [of "PasswordCall (usr_ID u) (usr_UpdatedAt u) h (recovery_audit (usr_ID u))" "recovery_audit (usr_ID u)" s1 "ce_sql E" "ce_dbnow E"] c
    by simp
  moreover have "fst s' \<noteq> fst s1"
  proof
    assume "fst s' = fst s1"
    with e have "t_users (fst s) = map (\<lambda>v. if usr_ID v = usr_ID u \<and> usr_UpdatedAt v = usr_UpdatedAt u
         then v\<lparr>PasswordHash := h, usr_UpdatedAt := nextUpdatedAt (ce_dbnow E) (usr_UpdatedAt u)\<rparr> else v) (t_users (fst s))"
      using f(1) by simp
    from map_at [OF this f(2)] have "(if usr_ID u = usr_ID u \<and> usr_UpdatedAt u = usr_UpdatedAt u
         then u\<lparr>PasswordHash := h, usr_UpdatedAt := nextUpdatedAt (ce_dbnow E) (usr_UpdatedAt u)\<rparr> else u) = u"
      by simp
    then have "usr_UpdatedAt (u\<lparr>PasswordHash := h, usr_UpdatedAt := nextUpdatedAt (ce_dbnow E) (usr_UpdatedAt u)\<rparr>) = usr_UpdatedAt u" by simp
    then show False using nextUpdatedAt_gt [of "usr_UpdatedAt u" "ce_dbnow E"] by simp
  qed
  ultimately obtain row where "t_audit (fst s') = t_audit (fst s) @ [row]" "written_for (recovery_audit (usr_ID u)) row"
    using f(1) by (auto simp: audited_def)
  with u(2) f h e show ?thesis by blast
qed



section \<open>The credential key\<close>

lemma create_key_grows:
  assumes "locate path \<in> A" shows "keeps (grows A) (create_key F path key)"
proof -
  have w: "keeps R (andthen (wrapping t m) k) \<longleftrightarrow> keeps R (andthen m k)" for R :: "Files \<Rightarrow> Files \<Rightarrow> bool" and t m k
    unfolding keeps_def andthen_def wrapping_def by (auto split: sum.splits prod.splits)
  have m: "(384 :: int) = 384 AND 448" by simp
  have c: "\<exists>d. fst (snd (andthen (wrapping ''write credential key: %w'' (closing F (Write F path key))) (\<lambda>_. wrapping ''close credential key: %w'' (Close F)) s1))
      = change_at (locate path) (node_append d) (fst s1)" for s1
  proof -
    obtain x s2 where w: "Write F path key s1 = (x, s2)" by (metis surj_pair)
    obtain y s3 where y: "Close F s2 = (y, s3)" by (metis surj_pair)
    have "fst s3 = fst s2" using Close_files [of F s2] y by simp
    then show ?thesis using Write_fills [of F path key s1] w y
      by (cases x; cases y) (auto simp: andthen_def wrapping_def closing_def)
  qed
  show ?thesis unfolding create_key_def w by (subst m) (rule create_fill_grows [OF assms c])
qed

lemma create_key_Inr:
  assumes "create_key F path key s = (Inr (), s')"
  shows "node_at (fst s) (locate path) = None \<and> node_at (fst s') (locate path) = Some (RegNode key 384)"
proof -
  from assms obtain s1 s2 where c: "CreateExclusive F path 384 s = (Inr (), s1)" and w: "Write F path key s1 = (Inr (), s2)" and f: "fst s' = fst s2"
    by (auto simp: create_key_def andthen_Inr closing_Inr Close_def query_Inr)
  from c have n: "node_at (fst s) (locate path) = None" "fst s1 = fst s @ [(locate path, RegNode [] 384)]"
    by (auto simp: CreateExclusive_def create_at_def sql_Inr split: if_splits)
  then show ?thesis using w f by (auto simp: Write_def node_at_def map_add_def split: option.splits if_splits)
qed

text \<open>
  C39: preparing the key of the stored credentials, under any failures, changes and removes no file
  that is there. When it succeeds, the path is a regular file; and when nothing was there before, the file holds the
  new random key, can be read by its owner only, and is a key that the keyring loads.
\<close>

theorem credential_key_is_kept:
  assumes "ensureCredentialKey random F path s = (x, s')" and "\<forall>key. random 32 = Inr key \<longrightarrow> length key = 32"
  shows "(\<forall>l n. map_of (fst s) l = Some n \<longrightarrow> map_of (fst s') l = Some n)
    \<and> (x = Inr () \<longrightarrow> (\<exists>c m. node_at (fst s') (locate path) = Some (RegNode c m)
         \<and> (if node_at (fst s) (locate path) = None then random 32 = Inr c \<and> m = 384 \<and> key_in (fst s') path = Some c
            else node_at (fst s) (locate path) = Some (RegNode c m))))"
proof -
  let ?make = "andthen (wrapping ''create credential key directory: %w'' (MkdirAll F (filepath_Dir path))) (\<lambda>_.
         case random 32 of Inl e \<Rightarrow> fail (wrapf ''generate credential key: %w'' e) | Inr key \<Rightarrow> create_key F path key)"
  have r: "keeps (=) (Stat F path)" by (rule calls_keep) simp
  obtain y s1 where y: "Stat F path s = (y, s1)" by (metis surj_pair)
  have s1: "fst s1 = fst s" using keepsD [OF r y] by simp
  have g: "keeps (grows UNIV) ?make"
    by (cases "random 32") (auto intro!: keeps_intros MkdirAll_grows create_key_grows)
  have k: "grows UNIV (fst s) (fst s')"
    using assms(1) y s1 keeps_snd [OF g, of s1]
    by (auto simp: ensureCredentialKey_def split: sum.splits node.splits if_splits)
  have "map_of (fst s') l = Some n" if "map_of (fst s) l = Some n" for l n using growsD [OF k, of l] that by auto
  moreover have "\<exists>c m. node_at (fst s') (locate path) = Some (RegNode c m)
         \<and> (if node_at (fst s) (locate path) = None then random 32 = Inr c \<and> m = 384 \<and> key_in (fst s') path = Some c
            else node_at (fst s) (locate path) = Some (RegNode c m))" if x: "x = Inr ()"
  proof (cases y)
    case (Inr info)
    with assms(1) y x obtain c m where i: "info = RegNode c m" "s' = s1" by (cases info) (auto simp: ensureCredentialKey_def)
    then have "node_at (fst s) (locate path) = Some (RegNode c m)"
      using y Inr by (auto simp: Stat_def sql_Inr split: option.splits node.splits)
    then show ?thesis using i s1 by simp
  next
    case (Inl e)
    with assms(1) y x have "?make s1 = (Inr (), s')" by (auto simp: ensureCredentialKey_def split: if_splits)
    then obtain s2 key where m: "MkdirAll F (filepath_Dir path) s1 = (Inr (), s2)" and key: "random 32 = Inr key"
      and c: "create_key F path key s2 = (Inr (), s')"
      by (auto simp: andthen_Inr fail_Inr split: sum.splits)
    have gr: "grows UNIV (fst s1) (fst s2)" by (rule keepsD [OF MkdirAll_grows m]) simp
    have "node_at (fst s) (locate path) = None"
      using create_key_Inr [OF c] growsD [OF gr, of "locate path"] s1 by (auto simp: node_at_None)
    moreover have "key_in (fst s') path = Some key" using create_key_Inr [OF c] assms(2) key by (simp add: key_in_def decodeSecretKey_def)
    ultimately show ?thesis using create_key_Inr [OF c] key by simp
  qed
  ultimately show ?thesis by blast
qed

theorem credential_key_is_kept_witness:
  "\<exists>s'. ensureCredentialKey sx_random fault_free ''/keys/k'' ([], 0) = (Inr (), s') \<and> key_in (fst s') ''/keys/k'' = Some (replicate 32 (CHR ''n''))"
proof -
  obtain x s' where e: "ensureCredentialKey sx_random fault_free ''/keys/k'' ([], 0) = (x, s')" by (metis surj_pair)
  have "fst (ensureCredentialKey sx_random fault_free ''/keys/k'' ([], 0)) = Inr ()" by code_simp
  with e have x: "x = Inr ()" by simp
  have n: "node_at [] (locate ''/keys/k'') = None" by code_simp
  have l: "\<forall>key. sx_random 32 = Inr key \<longrightarrow> length key = 32" by (simp add: sx_random_def)
  from credential_key_is_kept [OF e l] x n e show ?thesis by (auto simp: sx_random_def)
qed

end
