(* ===== verification/HTTP_Connector_Termination.thy ===== *)
theory HTTP_Connector_Termination
  imports HTTP_Connector
begin

text \<open>
  The HTTP connector always comes to an end: a challenge is answered once, a redirect of an upload
  is followed once, and no answer of a server makes it ask again without bound.
\<close>

text \<open>The network states that at most k requests lead to.\<close>

inductive within :: "'n HTTPEnv \<Rightarrow> nat \<Rightarrow> 'n \<Rightarrow> 'n \<Rightarrow> bool" for env where
  none: "within env k n n"
| more: "within env k n n1 \<Longrightarrow> within env (Suc k) n (snd (he_Do env q n1))"

lemma within_add: "within env k n1 n2 \<Longrightarrow> within env j n n1 \<Longrightarrow> within env (j + k) n n2"
proof (induction rule: within.induct)
  case (none k n1)
  then show ?case by (induction j n n1 rule: within.induct) (auto intro: within.intros)
qed (auto intro: within.more)

lemma within_Do: "he_Do env q n = (x, n1) \<Longrightarrow> within env (Suc 0) n n1"
  using within.more [OF within.none, of env 0 n q] by simp

lemma within_mono: "within env j n n1 \<Longrightarrow> j \<le> k \<Longrightarrow> within env k n n1"
  using within_add [OF within.none, of env j n n1 "k - j"] by simp

lemma bearerToken_within:
  "bearerToken env c realm service scope (t, n) = (res, (t', n')) \<Longrightarrow> within env (Suc 0) n n'"
  by (auto simp: bearerToken_def Let_def split: option.splits sum.splits prod.splits if_splits intro: within.none within_Do)

lemma doAuthenticated_within:
  assumes "doAuthenticated env c q (t, n) = (res, (t', n'))" shows "within env 3 n n'"
proof -
  obtain r1 n1 where d: "he_Do env (hc_authorize c q) n = (r1, n1)" by force
  have two: "within env 2 n1 n3" if "within env (Suc 0) n1 n2" "within env (Suc 0) n2 n3" for n2 n3
    using within_add [OF that(2,1)] by (simp add: numeral_2_eq_2)
  have one: "within env (Suc 0) n1 n2 \<Longrightarrow> within env 2 n1 n2" for n2 by (erule within_mono) simp
  have "within env 2 n1 n'"
    using assms d
    by (auto simp: doAuthenticated_def Let_def split: sum.splits prod.splits option.splits if_splits
        intro: within.none one within_Do bearerToken_within two [OF bearerToken_within within_Do])
  from within_add [OF this within_Do [OF d]] show ?thesis by (simp add: numeral_3_eq_3)
qed

lemma call_within: "call env c q nf refused st = (res, st') \<Longrightarrow> within env 3 (snd st) (snd st')"
  using doAuthenticated_within [of env c "hc_authorize c q" "fst st" "snd st" _ "fst st'" "snd st'"]
  by (auto simp: call_def split: option.splits sum.splits prod.splits intro: within.none)

lemma HTTP_PutBlob_within: "within env 6 (snd st) (snd (snd (HTTP_PutBlob env c repo digest body st)))"
proof -
  have six: "within env 6 n n2" if "within env 3 n n1" "within env 3 n1 n2" for n n1 n2
    using within_add [OF that(2,1)] by simp
  have one: "within env 3 n n1 \<Longrightarrow> within env 6 n n1" for n n1 by (erule within_mono) simp
  obtain r s where p: "HTTP_PutBlob env c repo digest body st = (r, s)" by (metis surj_pair)
  then have "within env 6 (snd st) (snd s)"
    by (auto simp: HTTP_PutBlob_def Let_def split: sum.splits prod.splits if_splits
        intro: within.none dest!: call_within intro: one six)
  with p show ?thesis by simp
qed


end
