(* ===== verification/Spec2Isabelle.thy ===== *)
theory Spec2Isabelle
  imports
    Policy_Properties
    Content_Store_Properties
    Policy_Config_Properties
    Rate_Limit_Properties
    Memory_Repository_Properties
    HTTP_Connector_Properties
    Pull_Properties
    Push_Properties
    SQLite_Security_Properties
    SQLite_Refinement
    OCI_Properties
    Credentials_Properties
    Gateway_Properties
    Admin_Login_Properties
    Admin_History_Properties
    App_Properties
    Commands_Properties
    HTTP_Connector_Termination
begin

text \<open>
  Regstair is a registry gateway: Docker clients pull and push through one endpoint, a policy
  file maps the logical repository names to upstream registries, pulled content is cached by
  digest, and an administration interface keeps accounts, tokens and upstream credentials in a
  SQLite database. This development is a shallow embedding of the Go program: every function of
  the modelled packages is a HOL function of its arguments and of the state it reads or changes.

  \<^bold>\<open>The path of a request.\<close> A pull or push arrives at the gateway (internal/gateway), which
  checks the bearer token (internal/auth/oci_tokens.go) for the repository and action of the
  path, and calls the pull or push resolver (internal/resolution). The resolver asks the policy
  engine (internal/policy) for candidate sources or for the destination, the authorizer whether
  the principal may use the route, and the credential selector
  (internal/auth/runtime_credentials.go) for a connector (internal/registry). Content goes
  through the content store (internal/content), and what happened through the metadata
  repository (internal/metadata). Tokens are issued by the gateway's token endpoint against
  Docker tokens that users make in the administration interface (internal/admin). The application
  (internal/app) builds all of these from the options of the command line, hands each request to
  one of them by its path, and redirects the plain HTTP listener to HTTPS, for which a local
  identity is made (internal/tlsidentity). The other commands (cmd/regstair) prepare that identity,
  back up and restore the installation, rotate the key of the stored credentials and recover an
  administrator's password.

  \<^bold>\<open>Theories and sources.\<close>
  \<^item> Go_Prelude, Go_Strings, Go_Encoding, HTTP_Server: what the program uses of Go and its
    standard library. Strings are byte lists, walked rune by rune where Go does; an error is its
    format text with the sentinels on its wrap chain; a time counts nanoseconds, zero being the
    zero time; int64 writes the wrap-around of a 64-bit integer out.
  \<^item> Policy, Policy_Config: internal/policy/policy.go and internal/config/config.go.
  \<^item> Content_Store: internal/content/store.go, over a directory of named files.
  \<^item> Metadata, Memory_Repository: the records and the in-memory repository of
    internal/metadata/repository.go, security.go and cache_bindings.go.
  \<^item> SQLite_Security, SQLite_Repository: the tables of sqlite_security.go, sqlite_repository.go
    and sqlite_cache_bindings.go, as a state-and-error monad of statements and transactions.
  \<^item> Connector, HTTP_Connector: internal/registry (connector.go, manifest.go, http.go).
  \<^item> Resolution, Pull_Resolver, Push_Resolver: internal/resolution, internal/identity and
    internal/auth/auth.go.
  \<^item> Rate_Limit: internal/security.
  \<^item> Passwords, Accounts, OCI_Tokens, Secrets, Credentials: internal/auth.
  \<^item> Gateway: internal/gateway/server.go.
  \<^item> Admin_Views, Admin: internal/admin/server.go, the documents it shows and the parser of its
    queries, then every handler that ServeHTTP reaches.
  \<^item> File_System: paths and the calls of package os on a tree of files, each of which may fail,
    and the flags of a command line.
  \<^item> TLS_Identity: internal/tlsidentity/identity.go. Backup: cmd/regstair/backup.go.
  \<^item> App: internal/app/app.go and internal/security/http.go. Commands: cmd/regstair/main.go, whose
    commands work on the pair of the files and the database.
  \<^item> A theory X_Properties holds the properties of X with their witnesses, X_Invariants what its
    operations keep, and X_Example a concrete instance; SQLite_Refinement relates the two
    repositories, Resolver_Metadata says what a resolver does to its metadata, and
    HTTP_Connector_Termination counts the requests of the HTTP connector.

  A struct is a record with the fields of the source, an operation on a pointer receiver takes
  and returns the record, and a package interface is a record of operations. Identifiers are
  those of the source, prefixed where several types have a method of the same name.

  \<^bold>\<open>Parameters.\<close> Code outside the repository, and the outside world, are arguments: SHA-256,
  HMAC-SHA-256, Argon2id and AES-256-GCM; the JSON and YAML decoders; the HTTP transport with
  every answer of every server; clocks and random sources, read by read; the Unicode tables
  beyond ASCII; url.Parse; and the failures of the file system and of every database statement.
  A property that needs one of them to behave says so in its hypotheses (a digest of 64
  hexadecimal digits, a decoder that reads back what the encoder wrote, an opened box that gives
  back what was sealed) and its witness runs it with a concrete function. Certificates and keys,
  the tar and gzip formats, the network interfaces of the host and the URL functions of net/url are
  parameters of TLS_Identity, Backup and App.

  \<^bold>\<open>Interfaces.\<close> blob_store (Content_Store), registry_contract (Connector), user_directory
  (Memory_Repository), attempt_guard (Rate_Limit), credential_store (Accounts_Properties),
  metadata_contract (Resolver_Metadata) and gateway_contract (App_Invariants) are locales that
  state what a client relies on; each is interpreted on the program's own definitions,
  credential_store twice, for Docker tokens and for web sessions, and the last two on the resolver
  and the gateway that New builds, so that what they serve is known to leave the accounts alone.

  \<^bold>\<open>What the lemmas show.\<close>
  \<^item> Policy: which route is selected and that the order of the file does not matter; that an
    authoritative source ends the candidates; that decisions stay within the configured sources;
    every error.
  \<^item> Content store: a put is atomic under any failure, stored blobs hash to their names, and
    what was put is found again.
  \<^item> Resolvers: refused requests leave no trace; where the content of a successful pull comes
    from; a push is complete at its destination and never leaves a dangling manifest.
  \<^item> HTTP connector: requests, and with them credentials, go only to the registry and to
    approved token services; challenges are read back as written.
  \<^item> Repositories: complete paging, bounds of the summaries, the refinement of the in-memory
    repository by SQLite; an enabled administrator remains in every reachable database, audit
    rows are atomic with what they record, revocations are final.
  \<^item> Authentication: round trips of password hashes, access tokens and encrypted secrets; the
    lifetimes of tokens and sessions; what a password change revokes; who may administer, and
    whose credentials a request uses.
  \<^item> Gateway: the form of every response, that a request acts only within the scope of its
    token, that an upload is stored whole, and that the challenge names the scope it was
    refused for.
  \<^item> Administration: which requests may change the tables and which see data, that the first-run
    setup is final, what a login opens, and that the request history can be paged through.
  \<^item> Application: the guarantees of the administration and of the gateway put together for the
    program as New builds it, the plain listener, and what a readiness probe says.
  \<^item> Commands: a restore stays inside its target and brings back what was saved; an existing
    TLS identity is kept and a new one serves its hosts; a rotation keeps every secret, a
    recovered password is an administrator's, and a key file is never overwritten; a command
    that fails leaves the database as it was.
  \<^item> HTTP connector, termination: a bound on the requests of every operation.

  \<^bold>\<open>Loops and bounds.\<close> Loops over lists are structural recursions, so they end; there is no
  fuel in the model. Sequences of calls and requests in the properties are arbitrary lists; the
  one numeric bound is that fewer than two to the 64th upload sessions are opened, since their
  identifiers come from a 64-bit counter.

  \<^bold>\<open>Atomicity.\<close> A method that holds its mutex throughout, and a database transaction on the
  single connection, is one step. A handler is modelled as running alone between its statements;
  interleavings of whole calls are the arbitrary sequences of the properties.

  \<^bold>\<open>Not modelled.\<close> Rendering of pages and of JSON text, log output, the clearing of secrets in
  memory, the mechanics of the listeners and of signals (Commands takes the event that ends the
  server as an argument), and the creation of the database file and its tables by
  NewSQLiteRepository: they are input/output or calls of libraries. The server-rendered dashboard of
  internal/admin/server.go (handleDashboard, handleRequestDetailPage, renderDashboard and their
  helpers) is left out because no route of ServeHTTP reaches it. A user's connector starts each
  operation without tokens, where the code keeps them for the rest of one request; reads of one
  file by several processes at once and the interleaving of the statements of two requests are
  outside the model.
\<close>

end
